(* ===== verification/Sith_Prelude.thy ===== *)
theory Sith_Prelude
  imports Main "HOL-Library.AList" "HOL-Library.List_Lexorder" "HOL-Library.Char_ord"
    "HOL-Library.Code_Target_Numeral"
begin

text \<open>
  Shared vocabulary of the development. Go maps are association lists with distinct keys
  (\<open>gomap\<close>), Go errors are the left injection of a sum, and a stateful component is a step
  relation whose reachable states are \<open>reach\<close>. The interface \<open>go_map\<close> states the laws of Go's
  built-in map that the components rely on; \<open>safety_system\<close> is the contract "an invariant that
  every step keeps", which each stateful component instantiates.
\<close>

named_theorems go_simps \<open>rewrite rules for the Go primitives\<close>
named_theorems fail_closed \<open>inversion rules for successful (error-free) outcomes\<close>

subsection \<open>Results\<close>

type_synonym ('e, 'a) result = "'e + 'a"

definition is_ok :: "('e, 'a) result \<Rightarrow> bool" where
  "is_ok r \<longleftrightarrow> (case r of Inl _ \<Rightarrow> False | Inr _ \<Rightarrow> True)"

lemma is_ok_simps [simp]: "is_ok (Inr x)" "\<not> is_ok (Inl e)"
  by (simp_all add: is_ok_def)

lemma is_ok_iff: "is_ok r \<longleftrightarrow> (\<exists>x. r = Inr x)"
  by (cases r) (auto simp: is_ok_def)

lemma not_is_ok_iff: "\<not> is_ok r \<longleftrightarrow> (\<exists>e. r = Inl e)"
  by (cases r) (auto simp: is_ok_def)

lemma case_ok_iff: "(case r of Inl e \<Rightarrow> False | Inr x \<Rightarrow> P x) \<longleftrightarrow> (\<exists>x. r = Inr x \<and> P x)"
  by (cases r) simp_all

text \<open>Sequencing of fallible steps: the early return of Go's \<open>if err != nil\<close>.\<close>

definition rbind :: "('e, 'a) result \<Rightarrow> ('a \<Rightarrow> ('e, 'b) result) \<Rightarrow> ('e, 'b) result" where
  "rbind r f = (case r of Inl e \<Rightarrow> Inl e | Inr x \<Rightarrow> f x)"

lemma rbind_simps [simp]: "rbind (Inl e) f = Inl e" "rbind (Inr x) f = f x"
  by (simp_all add: rbind_def)

lemma rbind_eq_Inr [fail_closed]: "rbind r f = Inr y \<longleftrightarrow> (\<exists>x. r = Inr x \<and> f x = Inr y)"
  by (cases r) auto

text \<open>A range loop whose body may return an error: the results of a fallible map, in order.\<close>

fun rmap :: "('a \<Rightarrow> ('e, 'b) result) \<Rightarrow> 'a list \<Rightarrow> ('e, 'b list) result" where
  "rmap f [] = Inr []"
| "rmap f (x # xs) = rbind (f x) (\<lambda>y. rbind (rmap f xs) (\<lambda>ys. Inr (y # ys)))"

lemma rmap_Inr_iff:
  "rmap f xs = Inr ys \<longleftrightarrow> list_all2 (\<lambda>x y. f x = Inr y) xs ys"
proof (induction xs arbitrary: ys)
  case Nil
  show ?case by auto
next
  case (Cons x xs)
  then show ?case by (cases ys) (auto simp: rbind_eq_Inr)
qed

lemma rmap_Inr_length: "rmap f xs = Inr ys \<Longrightarrow> length ys = length xs"
  by (auto simp: rmap_Inr_iff dest: list_all2_lengthD)

lemma rmap_Inr_all:
  assumes "rmap f xs = Inr ys" and "y \<in> set ys"
  shows "\<exists>x \<in> set xs. f x = Inr y"
  using assms
proof (induction xs arbitrary: ys)
  case Nil
  then show ?case by simp
next
  case (Cons x xs)
  then show ?case by (auto simp: rbind_eq_Inr)
qed

lemma rmap_cong: "(\<And>x. x \<in> set xs \<Longrightarrow> f x = g x) \<Longrightarrow> rmap f xs = rmap g xs"
  by (induction xs) auto

lemma rmap_total: "(\<And>x. is_ok (f x)) \<Longrightarrow> is_ok (rmap f xs)"
proof (induction xs)
  case (Cons x xs)
  then obtain y ys where "f x = Inr y" "rmap f xs = Inr ys" by (force simp: is_ok_iff)
  then show ?case by (simp add: is_ok_iff)
qed (simp add: is_ok_iff)

subsection \<open>Go maps\<close>

type_synonym ('k, 'v) gomap = "('k \<times> 'v) list"

abbreviation gm_keys :: "('k, 'v) gomap \<Rightarrow> 'k list" where
  "gm_keys m \<equiv> map fst m"

definition gm_wf :: "('k, 'v) gomap \<Rightarrow> bool" where
  "gm_wf m \<longleftrightarrow> distinct (gm_keys m)"

text \<open>Indexing a Go map yields the zero value of the element type for an absent key.\<close>

definition gm_get :: "'v \<Rightarrow> ('k, 'v) gomap \<Rightarrow> 'k \<Rightarrow> 'v" where
  "gm_get zero m k = (case map_of m k of None \<Rightarrow> zero | Some v \<Rightarrow> v)"

abbreviation gm_put :: "'k \<Rightarrow> 'v \<Rightarrow> ('k, 'v) gomap \<Rightarrow> ('k, 'v) gomap" where
  "gm_put k v m \<equiv> AList.update k v m"

abbreviation gm_del :: "'k \<Rightarrow> ('k, 'v) gomap \<Rightarrow> ('k, 'v) gomap" where
  "gm_del k m \<equiv> AList.delete k m"

text \<open>Deleting while ranging over a map: every entry the predicate selects is removed.\<close>

definition gm_drop :: "('k \<Rightarrow> 'v \<Rightarrow> bool) \<Rightarrow> ('k, 'v) gomap \<Rightarrow> ('k, 'v) gomap" where
  "gm_drop P m = filter (\<lambda>(k, v). \<not> P k v) m"

lemma gm_lookup_put [simp]: "map_of (gm_put k v m) = (map_of m)(k \<mapsto> v)"
  by (rule update_conv')

lemma gm_lookup_del [simp]: "map_of (gm_del k m) = (map_of m)(k := None)"
  by (rule delete_conv')

lemma gm_wf_Nil [simp]: "gm_wf []"
  by (simp add: gm_wf_def)

lemma gm_wf_put [simp]: "gm_wf m \<Longrightarrow> gm_wf (gm_put k v m)"
  by (simp add: gm_wf_def distinct_update)

lemma gm_wf_del [simp]: "gm_wf m \<Longrightarrow> gm_wf (gm_del k m)"
  by (simp add: gm_wf_def distinct_delete)

lemma gm_wf_filter [simp]: "gm_wf m \<Longrightarrow> gm_wf (filter P m)"
  by (simp add: gm_wf_def distinct_map_filter)

lemma gm_wf_drop [simp]: "gm_wf m \<Longrightarrow> gm_wf (gm_drop P m)"
  by (simp add: gm_drop_def)

lemma gm_lookup_drop:
  assumes "gm_wf m"
  shows "map_of (gm_drop P m) k = (case map_of m k of None \<Rightarrow> None | Some v \<Rightarrow> if P k v then None else Some v)"
  using assms
proof (induction m)
  case Nil
  show ?case by (simp add: gm_drop_def)
next
  case (Cons kv m)
  obtain k' v' where kv: "kv = (k', v')" by (cases kv)
  from Cons.prems kv have fresh: "k' \<notin> fst ` set m" and wf: "gm_wf m"
    by (auto simp: gm_wf_def)
  have "map_of (gm_drop P m) k' = None"
    using fresh by (auto simp: gm_drop_def map_of_eq_None_iff)
  moreover have "map_of m k' = None"
    using fresh by (simp add: map_of_eq_None_iff)
  ultimately show ?case
    using Cons.IH [OF wf] by (auto simp: kv gm_drop_def split: option.splits)
qed

lemma gm_wf_in_iff: "gm_wf m \<Longrightarrow> (k, v) \<in> set m \<longleftrightarrow> map_of m k = Some v"
  by (simp add: gm_wf_def)

lemma gm_get_put [simp]: "gm_get z (gm_put k v m) k' = (if k' = k then v else gm_get z m k')"
  by (auto simp: gm_get_def)

lemma gm_get_del [simp]: "gm_get z (gm_del k m) k' = (if k' = k then z else gm_get z m k')"
  by (auto simp: gm_get_def)

lemma gm_get_Nil [simp]: "gm_get z [] k = z"
  by (simp add: gm_get_def)

lemma set_gm_put: "gm_wf m \<Longrightarrow> set (gm_put k v m) = insert (k, v) {(k', v') \<in> set m. k' \<noteq> k}"
  by (auto simp: gm_wf_in_iff split: if_splits)

lemma gm_keys_put [simp]: "fst ` set (gm_put k v m) = insert k (fst ` set m)"
  by (simp add: dom_update)

text \<open>A sum over the entries of a map, when one entry is stored or replaced.\<close>

lemma gm_sum_put:
  fixes f :: "'v \<Rightarrow> 'a::comm_monoid_add"
  assumes "gm_wf m"
  shows "sum_list (map (\<lambda>(k, v). f v) (gm_put k v m)) + (case map_of m k of None \<Rightarrow> 0 | Some w \<Rightarrow> f w) =
    sum_list (map (\<lambda>(k, v). f v) m) + f v"
  using assms
proof (induction m)
  case Nil
  show ?case by simp
next
  case (Cons kv m)
  obtain k' v' where kv: "kv = (k', v')" by (cases kv)
  with Cons.prems have fresh: "map_of m k' = None" and wf: "gm_wf m"
    by (auto simp: gm_wf_def map_of_eq_None_iff)
  show ?case
  proof (cases "k' = k")
    case True
    with kv show ?thesis by (simp add: ac_simps)
  next
    case False
    with Cons.IH [OF wf] kv show ?thesis by (simp add: add.assoc)
  qed
qed

text \<open>The laws of Go's map that clients use, whatever its representation.\<close>

locale go_map =
  fixes lookup :: "'m \<Rightarrow> 'k \<Rightarrow> 'v option"
    and put :: "'k \<Rightarrow> 'v \<Rightarrow> 'm \<Rightarrow> 'm"
    and del :: "'k \<Rightarrow> 'm \<Rightarrow> 'm"
    and entries :: "'m \<Rightarrow> ('k \<times> 'v) list"
    and wf :: "'m \<Rightarrow> bool"
  assumes lookup_put: "lookup (put k v m) = (lookup m)(k \<mapsto> v)"
    and lookup_del: "lookup (del k m) = (lookup m)(k := None)"
    and entries_lookup: "wf m \<Longrightarrow> (k, v) \<in> set (entries m) \<longleftrightarrow> lookup m k = Some v"
    and wf_put: "wf m \<Longrightarrow> wf (put k v m)"
    and wf_del: "wf m \<Longrightarrow> wf (del k m)"
begin

text \<open>Storing a batch keyed by an injective key function makes exactly the batch visible.\<close>

definition put_all :: "('a \<Rightarrow> 'k) \<Rightarrow> ('a \<Rightarrow> 'v) \<Rightarrow> 'a list \<Rightarrow> 'm \<Rightarrow> 'm" where
  "put_all key val xs m = fold (\<lambda>x acc. put (key x) (val x) acc) xs m"

lemma put_all_other: "k \<notin> key ` set xs \<Longrightarrow> lookup (put_all key val xs m) k = lookup m k"
  unfolding put_all_def by (induction xs arbitrary: m) (auto simp: lookup_put)

lemma put_all_wf: "wf m \<Longrightarrow> wf (put_all key val xs m)"
  unfolding put_all_def by (induction xs arbitrary: m) (auto simp: wf_put)

lemma put_all_some:
  "k \<in> key ` set xs \<Longrightarrow> \<exists>x \<in> set xs. key x = k \<and> lookup (put_all key val xs m) k = Some (val x)"
proof (induction xs arbitrary: m)
  case Nil
  then show ?case by simp
next
  case (Cons x xs)
  show ?case
  proof (cases "k \<in> key ` set xs")
    case True
    then have "\<exists>y \<in> set xs. key y = k \<and> lookup (put_all key val xs (put (key x) (val x) m)) k = Some (val y)"
      by (rule Cons.IH)
    then show ?thesis by (auto simp: put_all_def)
  next
    case False
    with Cons.prems have "key x = k" by simp
    with put_all_other [OF False] show ?thesis
      by (auto simp: put_all_def lookup_put)
  qed
qed

end

interpretation gm: go_map map_of AList.update AList.delete "\<lambda>m. m" gm_wf
  by unfold_locales (auto simp: gm_wf_in_iff)

subsection \<open>Reachability and invariants\<close>

inductive reach :: "('s \<Rightarrow> bool) \<Rightarrow> ('s \<Rightarrow> 'e \<Rightarrow> 's \<Rightarrow> bool) \<Rightarrow> 's \<Rightarrow> bool"
  for init :: "'s \<Rightarrow> bool" and step :: "'s \<Rightarrow> 'e \<Rightarrow> 's \<Rightarrow> bool" where
  reach_init: "init s \<Longrightarrow> reach init step s"
| reach_step: "reach init step s \<Longrightarrow> step s e t \<Longrightarrow> reach init step t"

text \<open>A component whose operations all keep an invariant.\<close>

locale safety_system =
  fixes init :: "'s \<Rightarrow> bool"
    and step :: "'s \<Rightarrow> 'e \<Rightarrow> 's \<Rightarrow> bool"
    and inv :: "'s \<Rightarrow> bool"
  assumes inv_init: "init s \<Longrightarrow> inv s"
    and inv_step: "inv s \<Longrightarrow> step s e t \<Longrightarrow> inv t"
begin

lemma reach_inv: "reach init step s \<Longrightarrow> inv s"
  by (induction rule: reach.induct) (blast intro: inv_init inv_step)+

end

subsection \<open>Lists\<close>

lemma sort_key_eq_Nil [simp]: "sort_key f xs = [] \<longleftrightarrow> xs = []"
  by (metis length_0_conv length_sort)

text \<open>\<open>sort.Strings\<close> over the keys of a Go set: sorted and free of duplicates.\<close>

definition sorted_set :: "'a::linorder list \<Rightarrow> 'a list" where
  "sorted_set xs = sort (remdups xs)"

lemma set_sorted_set [simp]: "set (sorted_set xs) = set xs"
  by (simp add: sorted_set_def)

lemma sorted_sorted_set [simp]: "sorted (sorted_set xs)"
  by (simp add: sorted_set_def)

lemma distinct_sorted_set [simp]: "distinct (sorted_set xs)"
  by (simp add: sorted_set_def)

lemma sorted_set_unique:
  assumes "set xs = set ys"
  shows "sorted_set xs = sorted_set ys"
  by (rule sorted_distinct_set_unique) (simp_all add: assms)

lemma sorted_set_Nil [simp]: "sorted_set [] = []"
  by (simp add: sorted_set_def)

lemma sorted_set_eq_Nil [simp]: "sorted_set xs = [] \<longleftrightarrow> xs = []"
  using set_sorted_set [of xs] by (metis set_empty)

lemma length_sorted_set: "length (sorted_set xs) = card (set xs)"
  by (simp add: sorted_set_def length_remdups_card_conv)

end
