(* ===== verification/Go_Strings.thy ===== *)
theory Go_Strings
  imports Sith_Prelude
begin

text \<open>
  The part of Go's string library the repository uses. A Go string is its byte sequence, so
  a \<open>string\<close> of HOL (a list of 8-bit characters) is a Go string as it stands: \<open>length\<close> is \<open>len\<close>,
  the order of \<open>List_Lexorder\<close> is Go's \<open><\<close>. A \<open>range\<close> loop and \<open>utf8.ValidString\<close> read runes,
  which \<open>decode_rune\<close> defines as \<open>unicode/utf8\<close> documents it (invalid bytes decode to U+FFFD
  with width 1). Case mapping beyond ASCII is a table of the Unicode database: it is the
  parameter \<open>unicode_case\<close> of the functions that need it, and only consulted on strings with
  a byte above 127.
\<close>

subsection \<open>Bytes and runes\<close>

definition byte_of :: "char \<Rightarrow> nat" where
  "byte_of c = of_char c"

abbreviation NUL :: char where
  "NUL \<equiv> CHR 0x00"

definition cont_byte :: "char \<Rightarrow> bool" where
  "cont_byte c \<longleftrightarrow> 128 \<le> byte_of c \<and> byte_of c \<le> 191"

definition in_range :: "nat \<Rightarrow> nat \<Rightarrow> char \<Rightarrow> bool" where
  "in_range lo hi c \<longleftrightarrow> lo \<le> byte_of c \<and> byte_of c \<le> hi"

definition rune_error :: nat where
  "rune_error = 65533"

text \<open>The admissible second bytes of a three or four byte sequence depend on its first byte.\<close>

definition second3 :: "nat \<Rightarrow> char \<Rightarrow> bool" where
  "second3 b0 c =
     (if b0 = 224 then in_range 160 191 c
      else if b0 = 237 then in_range 128 159 c
      else in_range 128 191 c)"

definition second4 :: "nat \<Rightarrow> char \<Rightarrow> bool" where
  "second4 b0 c =
     (if b0 = 240 then in_range 144 191 c
      else if b0 = 244 then in_range 128 143 c
      else in_range 128 191 c)"

definition decode2 :: "nat \<Rightarrow> string \<Rightarrow> nat \<times> nat" where
  "decode2 b0 rest =
     (case rest of
        c1 # _ \<Rightarrow> if cont_byte c1 then ((b0 - 192) * 64 + (byte_of c1 - 128), 2) else (rune_error, 1)
      | _ \<Rightarrow> (rune_error, 1))"

definition decode3 :: "nat \<Rightarrow> string \<Rightarrow> nat \<times> nat" where
  "decode3 b0 rest =
     (case rest of
        c1 # c2 # _ \<Rightarrow>
          if second3 b0 c1 \<and> cont_byte c2
          then ((b0 - 224) * 4096 + (byte_of c1 - 128) * 64 + (byte_of c2 - 128), 3)
          else (rune_error, 1)
      | _ \<Rightarrow> (rune_error, 1))"

definition decode4 :: "nat \<Rightarrow> string \<Rightarrow> nat \<times> nat" where
  "decode4 b0 rest =
     (case rest of
        c1 # c2 # c3 # _ \<Rightarrow>
          if second4 b0 c1 \<and> cont_byte c2 \<and> cont_byte c3
          then ((b0 - 240) * 262144 + (byte_of c1 - 128) * 4096 + (byte_of c2 - 128) * 64
                + (byte_of c3 - 128), 4)
          else (rune_error, 1)
      | _ \<Rightarrow> (rune_error, 1))"

text \<open>\<open>utf8.DecodeRuneInString\<close> on a non-empty string: the rune and its width in bytes.\<close>

definition decode_rune :: "char \<Rightarrow> string \<Rightarrow> nat \<times> nat" where
  "decode_rune c rest =
     (let b0 = byte_of c in
      if b0 < 128 then (b0, 1)
      else if 194 \<le> b0 \<and> b0 \<le> 223 then decode2 b0 rest
      else if 224 \<le> b0 \<and> b0 \<le> 239 then decode3 b0 rest
      else if 240 \<le> b0 \<and> b0 \<le> 244 then decode4 b0 rest
      else (rune_error, 1))"

text \<open>The runes a \<open>range\<close> loop over a string visits, each with its width.\<close>

function range_runes :: "string \<Rightarrow> (nat \<times> nat) list" where
  "range_runes [] = []"
| "range_runes (c # cs) =
     (let r = decode_rune c cs in r # range_runes (drop (snd r - 1) cs))"
  by pat_completeness auto
termination
  by (relation "measure length") auto

definition utf8_valid :: "string \<Rightarrow> bool" where
  "utf8_valid s \<longleftrightarrow> list_all (\<lambda>(r, w). \<not> (r = rune_error \<and> w = 1)) (range_runes s)"

text \<open>\<open>unicode.IsControl\<close>: the category Cc.\<close>

definition is_control :: "nat \<Rightarrow> bool" where
  "is_control r \<longleftrightarrow> r < 32 \<or> (127 \<le> r \<and> r < 160)"

definition has_control :: "string \<Rightarrow> bool" where
  "has_control s \<longleftrightarrow> list_ex (\<lambda>(r, w). is_control r) (range_runes s)"

subsection \<open>White space\<close>

text \<open>
  The encodings of the runes of \<open>unicode.IsSpace\<close>. Decoding at the front of a string, or with
  \<open>DecodeLastRune\<close> at its end, yields a white-space rune exactly when one of these byte
  sequences stands there, so \<open>strings.TrimSpace\<close> strips them from both ends.
\<close>

definition space_encodings :: "string list" where
  "space_encodings =
     [[CHR 0x09], [CHR 0x0A], [CHR 0x0B], [CHR 0x0C], [CHR 0x0D], [CHR 0x20],
      [CHR 0xC2, CHR 0x85], [CHR 0xC2, CHR 0xA0], [CHR 0xE1, CHR 0x9A, CHR 0x80],
      [CHR 0xE2, CHR 0x80, CHR 0x80], [CHR 0xE2, CHR 0x80, CHR 0x81],
      [CHR 0xE2, CHR 0x80, CHR 0x82], [CHR 0xE2, CHR 0x80, CHR 0x83],
      [CHR 0xE2, CHR 0x80, CHR 0x84], [CHR 0xE2, CHR 0x80, CHR 0x85],
      [CHR 0xE2, CHR 0x80, CHR 0x86], [CHR 0xE2, CHR 0x80, CHR 0x87],
      [CHR 0xE2, CHR 0x80, CHR 0x88], [CHR 0xE2, CHR 0x80, CHR 0x89],
      [CHR 0xE2, CHR 0x80, CHR 0x8A], [CHR 0xE2, CHR 0x80, CHR 0xA8],
      [CHR 0xE2, CHR 0x80, CHR 0xA9], [CHR 0xE2, CHR 0x80, CHR 0xAF],
      [CHR 0xE2, CHR 0x81, CHR 0x9F], [CHR 0xE3, CHR 0x80, CHR 0x80]]"

text \<open>\<open>strings.HasPrefix\<close>, \<open>strings.HasSuffix\<close> and the matching trims.\<close>

definition has_prefix :: "string \<Rightarrow> string \<Rightarrow> bool" where
  "has_prefix s p \<longleftrightarrow> take (length p) s = p"

definition has_suffix :: "string \<Rightarrow> string \<Rightarrow> bool" where
  "has_suffix s p \<longleftrightarrow> has_prefix (rev s) (rev p)"

definition trim_prefix :: "string \<Rightarrow> string \<Rightarrow> string" where
  "trim_prefix s p = (if has_prefix s p then drop (length p) s else s)"

definition leading_space :: "string list \<Rightarrow> string \<Rightarrow> nat" where
  "leading_space encs s = (case find (has_prefix s) encs of None \<Rightarrow> 0 | Some e \<Rightarrow> length e)"

function strip_left :: "string list \<Rightarrow> string \<Rightarrow> string" where
  "strip_left encs s =
     (let n = leading_space encs s in
      if n = 0 \<or> s = [] then s else strip_left encs (drop n s))"
  by pat_completeness auto
termination
  by (relation "measure (\<lambda>(encs, s). length s)") auto

declare strip_left.simps [simp del]

definition trim_space :: "string \<Rightarrow> string" where
  "trim_space s =
     rev (strip_left (map rev space_encodings) (rev (strip_left space_encodings s)))"

subsection \<open>Searching, joining, case\<close>

text \<open>\<open>strings.Cut\<close>: the text before and after the first occurrence of the separator.\<close>

fun cut :: "string \<Rightarrow> string \<Rightarrow> (string \<times> string) option" where
  "cut [] sep = (if sep = [] then Some ([], []) else None)"
| "cut (c # cs) sep =
     (if has_prefix (c # cs) sep then Some ([], drop (length sep) (c # cs))
      else map_option (\<lambda>(a, b). (c # a, b)) (cut cs sep))"

definition str_contains :: "string \<Rightarrow> string \<Rightarrow> bool" where
  "str_contains s sub \<longleftrightarrow> cut s sub \<noteq> None"

definition contains_any :: "string \<Rightarrow> string \<Rightarrow> bool" where
  "contains_any s chars \<longleftrightarrow> list_ex (\<lambda>c. c \<in> set chars) s"

text \<open>\<open>strings.Join\<close>.\<close>

fun join :: "string list \<Rightarrow> string \<Rightarrow> string" where
  "join [] sep = []"
| "join [x] sep = x"
| "join (x # y # ys) sep = x @ sep @ join (y # ys) sep"

record unicode_case =
  uc_lower :: "string \<Rightarrow> string"
  uc_upper :: "string \<Rightarrow> string"
  uc_fold_eq :: "string \<Rightarrow> string \<Rightarrow> bool"

text \<open>A case table that leaves every string with a byte above 127 alone.\<close>

definition ascii_case :: unicode_case where
  "ascii_case = \<lparr>uc_lower = (\<lambda>s. s), uc_upper = (\<lambda>s. s), uc_fold_eq = (=)\<rparr>"

definition is_ascii :: "string \<Rightarrow> bool" where
  "is_ascii s \<longleftrightarrow> list_all (\<lambda>c. byte_of c < 128) s"

definition lower_char :: "char \<Rightarrow> char" where
  "lower_char c = (if 65 \<le> byte_of c \<and> byte_of c \<le> 90 then char_of (byte_of c + 32) else c)"

definition upper_char :: "char \<Rightarrow> char" where
  "upper_char c = (if 97 \<le> byte_of c \<and> byte_of c \<le> 122 then char_of (byte_of c - 32) else c)"

definition to_lower :: "unicode_case \<Rightarrow> string \<Rightarrow> string" where
  "to_lower u s = (if is_ascii s then map lower_char s else uc_lower u s)"

definition to_upper :: "unicode_case \<Rightarrow> string \<Rightarrow> string" where
  "to_upper u s = (if is_ascii s then map upper_char s else uc_upper u s)"

definition equal_fold :: "unicode_case \<Rightarrow> string \<Rightarrow> string \<Rightarrow> bool" where
  "equal_fold u s t =
     (if is_ascii s \<and> is_ascii t then map lower_char s = map lower_char t else uc_fold_eq u s t)"

subsection \<open>Decimal and hexadecimal text\<close>

definition digit_char :: "nat \<Rightarrow> char" where
  "digit_char d = char_of (48 + d)"

text \<open>\<open>strconv.FormatInt\<close> in base 10.\<close>

fun nat_decimal :: "nat \<Rightarrow> string" where
  "nat_decimal n = (if n < 10 then [digit_char n] else nat_decimal (n div 10) @ [digit_char (n mod 10)])"

declare nat_decimal.simps [simp del]

definition int_decimal :: "int \<Rightarrow> string" where
  "int_decimal i = (if i < 0 then CHR ''-'' # nat_decimal (nat (- i)) else nat_decimal (nat i))"

definition is_digit :: "char \<Rightarrow> bool" where
  "is_digit c \<longleftrightarrow> in_range 48 57 c"

definition is_lower_hex :: "char \<Rightarrow> bool" where
  "is_lower_hex c \<longleftrightarrow> in_range 48 57 c \<or> in_range 97 102 c"

definition hex_digit :: "nat \<Rightarrow> char" where
  "hex_digit d = (if d < 10 then char_of (48 + d) else char_of (87 + d))"

text \<open>\<open>hex.EncodeToString\<close> and \<open>hex.DecodeString\<close> (which accepts upper case too).\<close>

fun hex_encode :: "string \<Rightarrow> string" where
  "hex_encode [] = []"
| "hex_encode (c # cs) = hex_digit (byte_of c div 16) # hex_digit (byte_of c mod 16) # hex_encode cs"

definition hex_value :: "char \<Rightarrow> nat option" where
  "hex_value c =
     (let b = byte_of c in
      if 48 \<le> b \<and> b \<le> 57 then Some (b - 48)
      else if 97 \<le> b \<and> b \<le> 102 then Some (b - 87)
      else if 65 \<le> b \<and> b \<le> 70 then Some (b - 55)
      else None)"

fun hex_decode :: "string \<Rightarrow> string option" where
  "hex_decode [] = Some []"
| "hex_decode [c] = None"
| "hex_decode (c # d # cs) =
     (case (hex_value c, hex_value d, hex_decode cs) of
        (Some h, Some l, Some rest) \<Rightarrow> Some (char_of (16 * h + l) # rest)
      | _ \<Rightarrow> None)"

subsection \<open>Facts about runes\<close>

lemma byte_of_less [simp]: "byte_of c < 256"
  by (simp add: byte_of_def)

lemma byte_of_inj [simp]: "byte_of c = byte_of d \<longleftrightarrow> c = d"
  by (simp add: byte_of_def)

lemma byte_of_char_of: "n < 256 \<Longrightarrow> byte_of (char_of n) = n"
  by (simp add: byte_of_def)

lemma char_of_byte_of [simp]: "char_of (byte_of c) = c"
  by (simp add: byte_of_def)

lemma decode_rune_ascii: "byte_of c < 128 \<Longrightarrow> decode_rune c cs = (byte_of c, 1)"
  by (simp add: decode_rune_def)

lemma range_runes_ascii: "is_ascii s \<Longrightarrow> range_runes s = map (\<lambda>c. (byte_of c, 1)) s"
  by (induction s) (simp_all add: is_ascii_def decode_rune_ascii)

text \<open>Evaluation takes the short way for ASCII.\<close>

lemma utf8_valid_code [code]:
  "utf8_valid s \<longleftrightarrow> (if is_ascii s then True else list_all (\<lambda>(r, w). \<not> (r = rune_error \<and> w = 1)) (range_runes s))"
  by (auto simp: utf8_valid_def range_runes_ascii list_all_iff is_ascii_def rune_error_def)

lemma in_range_high: "in_range lo hi c \<Longrightarrow> 128 \<le> lo \<Longrightarrow> 128 \<le> byte_of c"
  by (simp add: in_range_def)

text \<open>The bytes a rune swallows after its first are all above 127.\<close>

lemma second_high: "second3 b c \<Longrightarrow> 128 \<le> byte_of c" "second4 b c \<Longrightarrow> 128 \<le> byte_of c"
  by (auto simp: second3_def second4_def in_range_def split: if_splits)

lemma decode_rune_swallowed:
  assumes "x \<in> set (take (snd (decode_rune c cs) - 1) cs)"
  shows "128 \<le> byte_of x"
  using assms second_high
  by (auto simp: decode_rune_def decode2_def decode3_def decode4_def Let_def cont_byte_def
      split: if_splits list.splits)

lemma ascii_byte_visited:
  assumes "c \<in> set s" and "byte_of c < 128"
  shows "(byte_of c, 1) \<in> set (range_runes s)"
  using assms
proof (induction s rule: range_runes.induct)
  case 1
  then show ?case by simp
next
  case (2 d ds)
  let ?n = "snd (decode_rune d ds) - 1"
  consider "c = d" | "c \<in> set (take ?n ds)" | "c \<in> set (drop ?n ds)"
    using "2.prems"(1) by (metis append_take_drop_id set_ConsD Un_iff set_append)
  then show ?case
  proof cases
    case 1
    with "2.prems"(2) show ?thesis by (simp add: Let_def decode_rune_ascii)
  next
    case 2
    with "2.prems"(2) decode_rune_swallowed show ?thesis by fastforce
  next
    case 3
    with "2.IH" [OF refl] "2.prems"(2) show ?thesis by (simp add: Let_def)
  qed
qed

text \<open>A string without control runes has no control byte; in particular no NUL.\<close>

lemma no_control_byte:
  assumes "\<not> has_control s" and "c \<in> set s" and "byte_of c < 128"
  shows "\<not> is_control (byte_of c)"
  using ascii_byte_visited [OF assms(2,3)] assms(1)
  by (auto simp: has_control_def list_ex_iff)

lemma no_control_no_NUL: "\<not> has_control s \<Longrightarrow> NUL \<notin> set s"
  using no_control_byte [of s NUL] by (auto simp: byte_of_def is_control_def)

lemma has_prefix_split: "has_prefix s p \<Longrightarrow> s = p @ drop (length p) s"
  unfolding has_prefix_def by (metis append_take_drop_id)

lemma has_prefix_append [simp]: "has_prefix (p @ s) p"
  by (simp add: has_prefix_def)

subsection \<open>Joining with a separator the parts do not contain\<close>

lemma split_at_sep:
  assumes "x @ c # xs = y @ c # ys" and "c \<notin> set x" and "c \<notin> set y"
  shows "x = y \<and> xs = ys"
  using assms
proof (induction x arbitrary: y)
  case Nil
  then show ?case by (cases y) auto
next
  case (Cons a x)
  then show ?case by (cases y) auto
qed

lemma join_inj:
  assumes "join xs [c] = join ys [c]" and "length xs = length ys"
    and "\<forall>x \<in> set xs. c \<notin> set x" and "\<forall>y \<in> set ys. c \<notin> set y"
  shows "xs = ys"
  using assms
proof (induction xs "[c]" arbitrary: ys rule: join.induct)
  case 1
  then show ?case by simp
next
  case (2 x)
  then show ?case by (cases ys) auto
next
  case (3 x x' xs)
  then obtain y y' ys' where ys: "ys = y # y' # ys'"
    by (cases ys) (auto simp: Suc_length_conv)
  with "3.prems"(1) have "x @ c # join (x' # xs) [c] = y @ c # join (y' # ys') [c]"
    by simp
  moreover have "c \<notin> set x" "c \<notin> set y" using "3.prems"(3,4) ys by auto
  ultimately have sp: "x = y \<and> join (x' # xs) [c] = join (y' # ys') [c]"
    by (rule split_at_sep)
  have "x' # xs = y' # ys'"
  proof (rule "3.hyps")
    from sp show "join (x' # xs) [c] = join (y' # ys') [c]" by simp
    show "length (x' # xs) = length (y' # ys')" using "3.prems"(2) ys by simp
    show "\<forall>x \<in> set (x' # xs). c \<notin> set x" using "3.prems"(3) by simp
    show "\<forall>y \<in> set (y' # ys'). c \<notin> set y" using "3.prems"(4) ys by simp
  qed
  with sp ys show ?case by simp
qed

lemma count_join:
  assumes "\<forall>x \<in> set xs. c \<notin> set x" and "xs \<noteq> []"
  shows "count_list (join xs [c]) c = length xs - 1"
  using assms by (induction xs "[c]" rule: join.induct) (auto simp: count_list_append)

lemma join_inj_nonempty:
  assumes "join xs [c] = join ys [c]" and "xs \<noteq> []" and "ys \<noteq> []"
    and "\<forall>x \<in> set xs. c \<notin> set x" and "\<forall>y \<in> set ys. c \<notin> set y"
  shows "xs = ys"
proof -
  have "length xs - 1 = length ys - 1"
    using count_join [of xs c] count_join [of ys c] assms by simp
  with assms(2,3) have "length xs = length ys"
    by (cases xs; cases ys) auto
  with assms show ?thesis by (blast intro: join_inj)
qed

subsection \<open>Hexadecimal\<close>

lemma hex_digit_lower: "d < 16 \<Longrightarrow> is_lower_hex (hex_digit d)"
  by (auto simp: hex_digit_def is_lower_hex_def in_range_def byte_of_char_of)

lemma hex_value_digit: "d < 16 \<Longrightarrow> hex_value (hex_digit d) = Some d"
  by (auto simp: hex_digit_def hex_value_def byte_of_char_of Let_def)

lemma hex_encode_lower: "list_all is_lower_hex (hex_encode s)"
proof (induction s)
  case (Cons c cs)
  have "byte_of c div 16 < 16" using byte_of_less [of c] by arith
  with Cons show ?case by (simp add: hex_digit_lower)
qed simp

lemma length_hex_encode [simp]: "length (hex_encode s) = 2 * length s"
  by (induction s) auto

lemma hex_roundtrip: "hex_decode (hex_encode s) = Some s"
proof (induction s)
  case (Cons c cs)
  have "byte_of c div 16 < 16" using byte_of_less [of c] by arith
  with Cons show ?case by (simp add: hex_value_digit)
qed simp

lemma hex_encode_inj: "hex_encode s = hex_encode t \<longleftrightarrow> s = t"
  using hex_roundtrip by (metis option.inject)

lemma hex_value_lower_ex: "is_lower_hex c \<Longrightarrow> \<exists>v. hex_value c = Some v"
  by (auto simp: is_lower_hex_def hex_value_def in_range_def Let_def)

lemma hex_value_lower_inj:
  "is_lower_hex c \<Longrightarrow> is_lower_hex d \<Longrightarrow> hex_value c = hex_value d \<Longrightarrow> c = d"
  using byte_of_inj [of c d]
  by (auto simp: is_lower_hex_def hex_value_def in_range_def Let_def simp del: byte_of_inj split: if_splits)

lemma hex_value_less: "hex_value c = Some v \<Longrightarrow> v < 16"
  by (auto simp: hex_value_def Let_def split: if_splits)

lemma hex_decode_lower:
  assumes "list_all is_lower_hex s" and "length s = 2 * n"
  shows "\<exists>t. hex_decode s = Some t \<and> length t = n"
  using assms
proof (induction s arbitrary: n rule: hex_decode.induct)
  case (3 c d cs)
  have "length cs = 2 * (n - 1)" using "3.prems"(2) by simp
  then obtain t where "hex_decode cs = Some t" "length t = n - 1"
    using "3.IH" "3.prems"(1) by auto
  with 3 show ?case
    using hex_value_lower_ex [of c] hex_value_lower_ex [of d] by auto
qed auto

lemma hex_decode_lower_inj:
  assumes "hex_decode s = Some x" and "hex_decode t = Some x"
    and "list_all is_lower_hex s" and "list_all is_lower_hex t"
  shows "s = t"
  using assms
proof (induction s arbitrary: t x rule: hex_decode.induct)
  case 1
  then show ?case by (cases t rule: hex_decode.cases) (auto split: option.splits)
next
  case 2
  then show ?case by simp
next
  case (3 c d cs)
  obtain h l r where p: "hex_value c = Some h" "hex_value d = Some l" "hex_decode cs = Some r"
    "x = char_of (16 * h + l) # r"
    using "3.prems"(1) by (auto split: option.splits)
  then obtain c' d' cs' where t: "t = c' # d' # cs'"
    using "3.prems"(2) by (cases t rule: hex_decode.cases) auto
  obtain h' l' r' where q: "hex_value c' = Some h'" "hex_value d' = Some l'" "hex_decode cs' = Some r'"
    "x = char_of (16 * h' + l') # r'"
    using "3.prems"(2) t by (auto split: option.splits)
  have less: "h < 16" "l < 16" "h' < 16" "l' < 16"
    using p(1,2) q(1,2) hex_value_less by blast+
  then have "16 * h + l < 256" "16 * h' + l' < 256" by simp_all
  with p(4) q(4) have "16 * h + l = 16 * h' + l'"
    by (metis byte_of_char_of list.inject)
  moreover have "(16 * h + l) div 16 = h" "(16 * h + l) mod 16 = l"
    "(16 * h' + l') div 16 = h'" "(16 * h' + l') mod 16 = l'"
    using less by simp_all
  ultimately have "h = h'" "l = l'" by metis+
  with p q "3.prems"(3,4) t have "c = c'" "d = d'"
    using hex_value_lower_inj by auto
  moreover have "cs = cs'"
    using "3.IH" p q "3.prems"(3,4) t by auto
  ultimately show ?case using t by simp
qed

end
