(* ===== verification/Fleet_Model.thy ===== *)
theory Fleet_Model
  imports Go_Strings
begin

text \<open>
  The source-abstract fleet model (\<open>internal/fleet\<close>, \<open>model.go\<close> and \<open>resource.go\<close>): snapshots,
  coverage and its fail-closed assessment, resource addresses, facts and typed queries. Times
  are nanoseconds since Go's zero time, so \<open>IsZero\<close> is equality with 0; a \<open>json.RawMessage\<close>
  is its bytes. Counters are Go ints; none of the arithmetic here can overflow, so \<open>int\<close> is
  exact.
\<close>

type_synonym Time = int

subsection \<open>Snapshots and coverage\<close>

record Cluster =
  cl_Name :: string
  cl_Context :: string
  cl_SourceKind :: string
  cl_Reachable :: bool
  cl_ObservedAt :: Time

record Coverage =
  Requested :: int
  Reachable :: int
  Unreachable :: "string list"
  Stale :: "string list"
  Truncated :: "string list"

definition zero_coverage :: Coverage where
  "zero_coverage = \<lparr>Requested = 0, Reachable = 0, Unreachable = [], Stale = [], Truncated = []\<rparr>"

record FleetResult =
  fr_Clusters :: "Cluster list"
  fr_Coverage :: Coverage

datatype CoverageGap = GapInconsistent | GapUnreachable | GapStale | GapTruncated | GapUnaccounted

record CoverageAssessment =
  as_Complete :: bool
  as_Gaps :: "CoverageGap list"
  as_Unreachable :: "string list"
  as_Stale :: "string list"
  as_Truncated :: "string list"
  as_Unaccounted :: int
  as_Inconsistent :: bool

text \<open>The scan of \<open>coverageScopes\<close>: no blank entry, none equal to its predecessor.\<close>

fun scopes_scan :: "string option \<Rightarrow> string list \<Rightarrow> bool" where
  "scopes_scan prev [] = True"
| "scopes_scan prev (v # vs) =
     (\<not> (trim_space v = [] \<or> prev = Some v) \<and> scopes_scan (Some v) vs)"

definition coverageScopes :: "string list \<Rightarrow> string list \<times> bool" where
  "coverageScopes values =
     (if values = [] then ([], True)
      else (let cloned = sort values in (cloned, scopes_scan None cloned)))"

text \<open>The two-index merge loop over the sorted lists.\<close>

fun coverageScopesOverlap :: "string list \<Rightarrow> string list \<Rightarrow> bool" where
  "coverageScopesOverlap [] right = False"
| "coverageScopesOverlap (l # ls) [] = False"
| "coverageScopesOverlap (l # ls) (r # rs) =
     (if l = r then True
      else if l < r then coverageScopesOverlap ls (r # rs)
      else coverageScopesOverlap (l # ls) rs)"

text \<open>The appends that build the gap list, one per condition in source order.\<close>

definition assessment_gaps :: "CoverageAssessment \<Rightarrow> CoverageGap list" where
  "assessment_gaps a =
     (if as_Inconsistent a then [GapInconsistent] else []) @
     (if as_Unreachable a \<noteq> [] then [GapUnreachable] else []) @
     (if as_Stale a \<noteq> [] then [GapStale] else []) @
     (if as_Truncated a \<noteq> [] then [GapTruncated] else []) @
     (if as_Unaccounted a \<noteq> 0 then [GapUnaccounted] else [])"

definition Assessment :: "Coverage \<Rightarrow> CoverageAssessment" where
  "Assessment c =
     (let (unreachable, unreachableValid) = coverageScopes (Unreachable c);
          (stale, staleValid) = coverageScopes (Stale c);
          (truncated, truncatedValid) = coverageScopes (Truncated c);
          malformed = (Requested c < 0 \<or> Reachable c < 0 \<or> Reachable c > Requested c \<or>
            int (length stale) > Requested c \<or> int (length truncated) > Reachable c \<or>
            \<not> unreachableValid \<or> \<not> staleValid \<or> \<not> truncatedValid \<or>
            coverageScopesOverlap unreachable truncated);
          remaining = Requested c - Reachable c;
          n = int (length unreachable);
          inconsistent = (malformed \<or> n > remaining);
          unaccounted = (if \<not> malformed \<and> n < remaining then remaining - n else 0);
          a = \<lparr>as_Complete = False, as_Gaps = [], as_Unreachable = unreachable, as_Stale = stale,
               as_Truncated = truncated, as_Unaccounted = unaccounted, as_Inconsistent = inconsistent\<rparr>;
          gaps = assessment_gaps a
      in a\<lparr>as_Gaps := gaps, as_Complete := (length gaps = 0)\<rparr>)"

definition Complete :: "Coverage \<Rightarrow> bool" where
  "Complete c = as_Complete (Assessment c)"

subsection \<open>Resources and facts\<close>

record ResourceRef =
  SourceKind :: string
  RefScope :: string
  RefKind :: string
  RefNamespace :: string
  RefName :: string
  Attributes :: "(string, string) gomap"

definition ResourceRef_Equal :: "ResourceRef \<Rightarrow> ResourceRef \<Rightarrow> bool" where
  "ResourceRef_Equal r other \<longleftrightarrow>
     SourceKind r = SourceKind other \<and> RefScope r = RefScope other \<and> RefKind r = RefKind other \<and>
     RefNamespace r = RefNamespace other \<and> RefName r = RefName other"

definition ResourceRef_String :: "ResourceRef \<Rightarrow> string" where
  "ResourceRef_String r =
     join ([SourceKind r @ '':'' @ RefScope r, RefKind r] @
           (if RefNamespace r \<noteq> [] then [RefNamespace r] else []) @ [RefName r]) ''/''"

type_synonym FactKind = string
type_synonym Lens = string

abbreviation LensLive :: Lens where "LensLive \<equiv> ''live''"
abbreviation LensDesired :: Lens where "LensDesired \<equiv> ''desired''"
abbreviation LensTimeline :: Lens where "LensTimeline \<equiv> ''timeline''"
abbreviation LensTelemetry :: Lens where "LensTelemetry \<equiv> ''telemetry''"

abbreviation FactInventory :: FactKind where "FactInventory \<equiv> ''inventory''"
abbreviation FactHealth :: FactKind where "FactHealth \<equiv> ''health''"
abbreviation FactAlert :: FactKind where "FactAlert \<equiv> ''alert''"
abbreviation FactDrift :: FactKind where "FactDrift \<equiv> ''drift''"
abbreviation FactCVE :: FactKind where "FactCVE \<equiv> ''cve''"
abbreviation FactCost :: FactKind where "FactCost \<equiv> ''cost''"
abbreviation FactDesired :: FactKind where "FactDesired \<equiv> ''desired''"
abbreviation FactChange :: FactKind where "FactChange \<equiv> ''change''"
abbreviation FactDerived :: FactKind where "FactDerived \<equiv> ''derived''"

definition FactKind_Valid :: "FactKind \<Rightarrow> bool" where
  "FactKind_Valid kind \<longleftrightarrow>
     kind \<in> {FactInventory, FactHealth, FactAlert, FactDrift, FactCVE, FactCost, FactDesired,
             FactChange, FactDerived}"

record DisplayField =
  dp_Name :: string
  dp_Value :: string
  dp_Priority :: int

record Provenance =
  Adapter :: string
  ProtocolV :: string
  NativeID :: string
  DeepLink :: string
  Collector :: string

record Evidence =
  Ref :: ResourceRef
  FKind :: FactKind
  Observed :: string
  Display :: "DisplayField list"
  ObservedAt :: Time
  Source :: string
  FProvenance :: Provenance

text \<open>\<open>Fact\<close> embeds \<open>Evidence\<close>: a record extension.\<close>

record Fact = Evidence +
  FWorkspace :: string
  FStale :: bool
  FStaleFor :: string

subsection \<open>Queries\<close>

record Selector =
  sl_ResourceKind :: string
  sl_Namespace :: string
  sl_Name :: string
  sl_NamePrefix :: string
  sl_Labels :: "(string, string) gomap"
  sl_Health :: string
  sl_HealthNot :: string
  sl_Image :: string
  sl_CVE :: string

record FleetQuery =
  fq_Kinds :: "FactKind list"
  fq_Scopes :: "string list"
  fq_Selector :: Selector
  fq_Limit :: int

datatype query_error =
    NegativeLimit
  | InvalidKind FactKind
  | EmptyLabelKey
  | HealthConflict
  | InvalidHealth string

definition validHealth :: "string \<Rightarrow> bool" where
  "validHealth h \<longleftrightarrow> h \<in> {''Healthy'', ''Degraded'', ''Progressing'', ''Unknown''}"

definition FleetQuery_Validate :: "FleetQuery \<Rightarrow> (query_error, unit) result" where
  "FleetQuery_Validate q =
     (let s = fq_Selector q in
      if fq_Limit q < 0 then Inl NegativeLimit
      else case find (\<lambda>k. \<not> FactKind_Valid k) (fq_Kinds q) of
        Some k \<Rightarrow> Inl (InvalidKind k)
      | None \<Rightarrow>
          if list_ex (\<lambda>(k, v). trim_space k = []) (sl_Labels s) then Inl EmptyLabelKey
          else if sl_Health s \<noteq> [] \<and> sl_HealthNot s \<noteq> [] then Inl HealthConflict
          else (case find (\<lambda>h. h \<noteq> [] \<and> \<not> validHealth h) [sl_Health s, sl_HealthNot s] of
                  Some h \<Rightarrow> Inl (InvalidHealth h)
                | None \<Rightarrow> Inr ()))"

record QueryResult =
  qr_Facts :: "Fact list"
  qr_Coverage :: Coverage

subsection \<open>Facts about coverage\<close>

lemma fst_coverageScopes [simp]: "fst (coverageScopes vs) = sort vs"
  by (simp add: coverageScopes_def Let_def)

lemma coverageScopes_eq: "coverageScopes vs = (sort vs, scopes_scan None (sort vs))"
  by (simp add: coverageScopes_def Let_def)

lemma scopes_scan_sorted:
  assumes "sorted vs" and "\<forall>p. prev = Some p \<longrightarrow> (\<forall>v \<in> set vs. p \<le> v)"
  shows "scopes_scan prev vs \<longleftrightarrow>
    (\<forall>v \<in> set vs. trim_space v \<noteq> []) \<and> distinct vs \<and> (\<forall>p. prev = Some p \<longrightarrow> p \<notin> set vs)"
  using assms
proof (induction prev vs rule: scopes_scan.induct)
  case 1
  then show ?case by simp
next
  case (2 prev v vs)
  have "scopes_scan (Some v) vs \<longleftrightarrow>
    (\<forall>v \<in> set vs. trim_space v \<noteq> []) \<and> distinct vs \<and> v \<notin> set vs"
    using "2.IH" "2.prems"(1) by auto
  moreover have "p \<notin> set vs" if "prev = Some p" "p \<noteq> v" for p
    using that "2.prems" by (force dest: antisym)
  ultimately show ?case by auto
qed

lemma coverageScopes_valid:
  "snd (coverageScopes vs) \<longleftrightarrow> (\<forall>v \<in> set vs. trim_space v \<noteq> []) \<and> distinct vs"
  by (simp add: coverageScopes_eq scopes_scan_sorted)

lemma coverageScopesOverlap_iff:
  assumes "sorted ls" and "sorted rs"
  shows "coverageScopesOverlap ls rs \<longleftrightarrow> set ls \<inter> set rs \<noteq> {}"
  using assms
proof (induction ls rs rule: coverageScopesOverlap.induct)
  case (3 l ls r rs)
  consider "l = r" | "l < r" | "r < l" by fastforce
  then show ?case
  proof cases
    case 2
    then have "l \<notin> set (r # rs)" using "3.prems"(2) by auto
    with 2 "3.IH"(1) "3.prems" show ?thesis by auto
  next
    case 3
    then have "r \<notin> set (l # ls)" using "3.prems"(1) by auto
    with 3 "3.IH"(2) "3.prems" show ?thesis by auto
  qed auto
qed auto

lemma Assessment_fields:
  "as_Unreachable (Assessment c) = sort (Unreachable c)"
  "as_Stale (Assessment c) = sort (Stale c)"
  "as_Truncated (Assessment c) = sort (Truncated c)"
  "as_Gaps (Assessment c) = assessment_gaps (Assessment c)"
  "as_Complete (Assessment c) \<longleftrightarrow> assessment_gaps (Assessment c) = []"
  by (simp_all add: Assessment_def coverageScopes_eq Let_def assessment_gaps_def)

lemma Assessment_Inconsistent:
  "as_Inconsistent (Assessment c) \<longleftrightarrow>
     Requested c < 0 \<or> Reachable c < 0 \<or> Reachable c > Requested c \<or>
     int (length (Stale c)) > Requested c \<or> int (length (Truncated c)) > Reachable c \<or>
     \<not> snd (coverageScopes (Unreachable c)) \<or> \<not> snd (coverageScopes (Stale c)) \<or>
     \<not> snd (coverageScopes (Truncated c)) \<or> set (Unreachable c) \<inter> set (Truncated c) \<noteq> {} \<or>
     int (length (Unreachable c)) > Requested c - Reachable c"
  by (auto simp: Assessment_def coverageScopes_eq Let_def coverageScopesOverlap_iff)

lemma Assessment_Unaccounted:
  "as_Unaccounted (Assessment c) =
     (if as_Inconsistent (Assessment c) then
        (if int (length (Unreachable c)) > Requested c - Reachable c then 0
         else as_Unaccounted (Assessment c))
      else Requested c - Reachable c - int (length (Unreachable c)))"
  by (auto simp: Assessment_def coverageScopes_eq Let_def)

subsection \<open>Properties\<close>

text \<open>
  Coverage is reported complete exactly when every requested scope was reached and
  nothing is unreachable, stale or truncated; malformed numbers never count as complete.
\<close>
theorem Complete_exact:
  "Complete c \<longleftrightarrow>
     Requested c = Reachable c \<and> 0 \<le> Reachable c \<and>
     Unreachable c = [] \<and> Stale c = [] \<and> Truncated c = []"
proof -
  have nil: "snd (coverageScopes [])" by (simp add: coverageScopes_def)
  have "Complete c \<longleftrightarrow> \<not> as_Inconsistent (Assessment c) \<and> Unreachable c = [] \<and> Stale c = [] \<and>
      Truncated c = [] \<and> as_Unaccounted (Assessment c) = 0"
    by (simp add: Complete_def Assessment_fields(5) assessment_gaps_def)
      (simp add: Assessment_fields)
  then show ?thesis
    using Assessment_Unaccounted [of c] by (auto simp: Assessment_Inconsistent nil)
qed

text \<open>
  The assessment of consistent coverage accounts for every requested scope: the
  reached, the named unreachable and the unaccounted scopes add up to the request, the
  unaccounted number is never negative, the reported lists are the sorted inputs without
  duplicates, no scope is both unreachable and truncated, and the gap list names exactly the
  kinds of gap there are.
\<close>
theorem Assessment_accounts:
  assumes "\<not> as_Inconsistent (Assessment c)"
  shows "Requested c = Reachable c + int (length (as_Unreachable (Assessment c))) + as_Unaccounted (Assessment c) \<and>
    0 \<le> as_Unaccounted (Assessment c) \<and>
    set (as_Unreachable (Assessment c)) = set (Unreachable c) \<and>
    distinct (as_Unreachable (Assessment c)) \<and> distinct (as_Stale (Assessment c)) \<and>
    distinct (as_Truncated (Assessment c)) \<and>
    set (as_Unreachable (Assessment c)) \<inter> set (as_Truncated (Assessment c)) = {} \<and>
    GapInconsistent \<notin> set (as_Gaps (Assessment c)) \<and>
    (GapUnreachable \<in> set (as_Gaps (Assessment c)) \<longleftrightarrow> Unreachable c \<noteq> []) \<and>
    (GapStale \<in> set (as_Gaps (Assessment c)) \<longleftrightarrow> Stale c \<noteq> []) \<and>
    (GapTruncated \<in> set (as_Gaps (Assessment c)) \<longleftrightarrow> Truncated c \<noteq> []) \<and>
    (GapUnaccounted \<in> set (as_Gaps (Assessment c)) \<longleftrightarrow>
       Reachable c + int (length (Unreachable c)) < Requested c)"
proof -
  have una: "as_Unaccounted (Assessment c) = Requested c - Reachable c - int (length (Unreachable c))"
    using assms Assessment_Unaccounted [of c] by simp
  have gaps: "as_Gaps (Assessment c) = assessment_gaps (Assessment c)"
    by (rule Assessment_fields(4))
  have le: "int (length (Unreachable c)) \<le> Requested c - Reachable c"
    and lists: "distinct (Unreachable c)" "distinct (Stale c)" "distinct (Truncated c)"
      "set (Unreachable c) \<inter> set (Truncated c) = {}"
    using assms by (simp_all add: Assessment_Inconsistent coverageScopes_valid)
  have gap_sets:
    "GapInconsistent \<notin> set (assessment_gaps (Assessment c))"
    "GapUnreachable \<in> set (assessment_gaps (Assessment c)) \<longleftrightarrow> Unreachable c \<noteq> []"
    "GapStale \<in> set (assessment_gaps (Assessment c)) \<longleftrightarrow> Stale c \<noteq> []"
    "GapTruncated \<in> set (assessment_gaps (Assessment c)) \<longleftrightarrow> Truncated c \<noteq> []"
    "GapUnaccounted \<in> set (assessment_gaps (Assessment c)) \<longleftrightarrow> as_Unaccounted (Assessment c) \<noteq> 0"
    using assms by (simp_all add: assessment_gaps_def Assessment_fields(1-3))
  show ?thesis
    using le una lists gap_sets unfolding gaps
    by (simp add: Assessment_fields(1-3)) arith
qed

definition sample_coverage :: Coverage where
  "sample_coverage = zero_coverage\<lparr>Requested := 4, Reachable := 2, Unreachable := [''west''], Stale := [''east'']\<rparr>"

theorem Assessment_accounts_witness:
  "\<not> as_Inconsistent (Assessment sample_coverage) \<and> as_Unaccounted (Assessment sample_coverage) = 1 \<and>
   4 = Reachable sample_coverage + int (length (as_Unreachable (Assessment sample_coverage))) +
     as_Unaccounted (Assessment sample_coverage)"
proof -
  have c: "\<not> as_Inconsistent (Assessment sample_coverage)"
    "as_Unaccounted (Assessment sample_coverage) = 1" "Requested sample_coverage = 4"
    by code_simp+
  from Assessment_accounts [OF c(1)] c show ?thesis by simp
qed

end
