(* ===== verification/Fleet_Graph.thy ===== *)
theory Fleet_Graph
  imports Fleet_Model "HOL-Library.Multiset"
begin

text \<open>
  The operational graph (\<open>internal/fleet/graph.go\<close>): entity addresses and their join keys,
  image digests, lens-stamped facts, graph assembly and exact-digest correlation. The Unicode
  case table \<open>u\<close> and the RFC 3339 time formatter \<open>fmt\<close> are parameters. Copies of Go values are
  the values themselves.
\<close>

subsection \<open>Lenses\<close>

definition maxGraphFacts :: nat where
  "maxGraphFacts = 10000"

definition Lens_Valid :: "Lens \<Rightarrow> bool" where
  "Lens_Valid lens \<longleftrightarrow> lens \<in> {LensLive, LensDesired, LensTimeline, LensTelemetry}"

definition Lens_Allows :: "Lens \<Rightarrow> FactKind \<Rightarrow> bool" where
  "Lens_Allows lens kind =
     (if lens = LensLive then kind = FactInventory \<or> kind = FactHealth
      else if lens = LensDesired then kind = FactDesired \<or> kind = FactDrift
      else if lens = LensTimeline then kind = FactChange
      else if lens = LensTelemetry
        then kind = FactAlert \<or> kind = FactCVE \<or> kind = FactCost \<or> kind = FactDerived
      else False)"

subsection \<open>Image digests\<close>

datatype graph_error =
    InvalidDigest
  | InvalidRepoDigest
  | InvalidImageID
  | InvalidEntityText string
  | KindWithoutName
  | WrongWorkspace
  | InvalidKindOrLens
  | MissingObservationTime
  | ClusterMismatch
  | NamespaceMismatch
  | WorkspaceRequired
  | TooManyFacts
  | FactAt nat graph_error

definition ValidateImageDigest :: "string \<Rightarrow> (graph_error, unit) result" where
  "ValidateImageDigest digest =
     (if length digest \<noteq> length ''sha256:'' + 64 \<or> \<not> has_prefix digest ''sha256:'' then Inl InvalidDigest
      else if \<not> list_all is_lower_hex (drop (length ''sha256:'') digest) then Inl InvalidDigest
      else Inr ())"

text \<open>The text after the last slash; all of the string when there is none.\<close>

definition last_segment :: "string \<Rightarrow> string" where
  "last_segment s = rev (takeWhile (\<lambda>c. c \<noteq> CHR ''/'') (rev s))"

definition validRepository :: "string \<Rightarrow> bool" where
  "validRepository repo \<longleftrightarrow>
     \<not> (repo = [] \<or> trim_space repo \<noteq> repo \<or> length repo > 255 \<or>
        contains_any repo [NUL, CHR 0x0D, CHR 0x0A, CHR ''@'']) \<and>
     \<not> str_contains (last_segment repo) '':''"

definition ImageDigestFromRepoDigest :: "string \<Rightarrow> (graph_error, string) result" where
  "ImageDigestFromRepoDigest repoDigest =
     (case cut repoDigest ''@'' of
        None \<Rightarrow> Inl InvalidRepoDigest
      | Some (repo, digest) \<Rightarrow>
          if \<not> validRepository repo \<or> str_contains repo ''@'' then Inl InvalidRepoDigest
          else rbind (ValidateImageDigest digest) (\<lambda>_. Inr digest))"

definition validRuntimeScheme :: "string \<Rightarrow> bool" where
  "validRuntimeScheme v \<longleftrightarrow> v \<in> {''containerd'', ''docker-pullable'', ''cri-o'', ''docker''}"

definition ImageDigestFromRuntimeImageID :: "string \<Rightarrow> (graph_error, string) result" where
  "ImageDigestFromRuntimeImageID imageID =
     (if imageID = [] \<or> trim_space imageID \<noteq> imageID then Inl InvalidImageID
      else rbind
        (case cut imageID ''://'' of
           None \<Rightarrow> Inr imageID
         | Some (runtimeName, remainder) \<Rightarrow>
             if \<not> validRuntimeScheme runtimeName \<or> remainder = [] then Inl InvalidImageID
             else Inr remainder)
        (\<lambda>value. if str_contains value ''@'' then ImageDigestFromRepoDigest value
                 else rbind (ValidateImageDigest value) (\<lambda>_. Inr value)))"

subsection \<open>Entity references\<close>

record EntityRef =
  en_Cluster :: string
  en_Namespace :: string
  en_Kind :: string
  en_Name :: string
  en_Pod :: string
  en_Node :: string
  en_ImageDigest :: string

definition isGlobalImage :: "EntityRef \<Rightarrow> bool" where
  "isGlobalImage ref \<longleftrightarrow>
     en_Cluster ref = [] \<and> en_Namespace ref = [] \<and> en_Kind ref = [] \<and> en_Name ref = [] \<and>
     en_Pod ref = [] \<and> en_Node ref = [] \<and> en_ImageDigest ref \<noteq> []"

definition validateEntityText :: "string \<Rightarrow> string \<Rightarrow> (graph_error, unit) result" where
  "validateEntityText label value =
     (let trimmed = trim_space value in
      if trimmed = [] \<or> trimmed \<noteq> value \<or> length value > 253 \<or>
         contains_any value [CHR ''/'', NUL, CHR 0x0D, CHR 0x0A]
      then Inl (InvalidEntityText label) else Inr ())"

text \<open>Ranging over a table of labelled values; the first invalid one is the error.\<close>

fun validate_texts :: "bool \<Rightarrow> (string \<times> string) list \<Rightarrow> (graph_error, unit) result" where
  "validate_texts optional [] = Inr ()"
| "validate_texts optional ((label, value) # rest) =
     (if optional \<and> value = [] then validate_texts optional rest
      else rbind (validateEntityText label value) (\<lambda>_. validate_texts optional rest))"

definition EntityRef_Validate :: "EntityRef \<Rightarrow> (graph_error, unit) result" where
  "EntityRef_Validate ref =
     (if isGlobalImage ref then ValidateImageDigest (en_ImageDigest ref)
      else rbind (validateEntityText ''cluster'' (en_Cluster ref)) (\<lambda>_.
        rbind (validate_texts True
                 [(''namespace'', en_Namespace ref), (''kind'', en_Kind ref), (''name'', en_Name ref),
                  (''pod'', en_Pod ref), (''node'', en_Node ref)]) (\<lambda>_.
        if (en_Kind ref = []) \<noteq> (en_Name ref = []) then Inl KindWithoutName
        else if en_Kind ref = [] \<and> en_Pod ref = [] \<and> en_Node ref = [] \<and> en_ImageDigest ref = []
          then Inr ()
        else if en_ImageDigest ref \<noteq> [] then ValidateImageDigest (en_ImageDigest ref)
        else Inr ())))"

definition key_parts :: "unicode_case \<Rightarrow> EntityRef \<Rightarrow> string list" where
  "key_parts u ref =
     [''cluster'', en_Cluster ref] @
     (if en_Namespace ref \<noteq> [] then [''namespace'', en_Namespace ref] else []) @
     (if en_Kind ref \<noteq> [] then [to_lower u (en_Kind ref), en_Name ref] else []) @
     (if en_Pod ref \<noteq> [] then [''pod'', en_Pod ref] else []) @
     (if en_Node ref \<noteq> [] then [''node'', en_Node ref] else []) @
     (if en_ImageDigest ref \<noteq> [] then [''image'', en_ImageDigest ref] else [])"

definition EntityRef_Key :: "unicode_case \<Rightarrow> EntityRef \<Rightarrow> string" where
  "EntityRef_Key u ref =
     (if isGlobalImage ref then ''image/'' @ en_ImageDigest ref else join (key_parts u ref) ''/'')"

subsection \<open>Graph facts\<close>

record GraphFact =
  gf_Fact :: Fact
  gf_Lens :: Lens
  gf_Entity :: "EntityRef option"

definition GraphFact_Validate :: "GraphFact \<Rightarrow> string \<Rightarrow> (graph_error, unit) result" where
  "GraphFact_Validate gfact workspace =
     (let f = gf_Fact gfact; ref = Ref f in
      if trim_space workspace = [] \<or> FWorkspace f \<noteq> workspace then Inl WrongWorkspace
      else if \<not> FactKind_Valid (FKind f) \<or> \<not> Lens_Valid (gf_Lens gfact) \<or>
              \<not> Lens_Allows (gf_Lens gfact) (FKind f) then Inl InvalidKindOrLens
      else rbind (validate_texts False
             [(''source kind'', SourceKind ref), (''source scope'', RefScope ref),
              (''resource kind'', RefKind ref), (''resource name'', RefName ref)]) (\<lambda>_.
        rbind (if RefNamespace ref \<noteq> [] then validateEntityText ''resource namespace'' (RefNamespace ref)
               else Inr ()) (\<lambda>_.
        if ObservedAt f = 0 then Inl MissingObservationTime
        else case gf_Entity gfact of
          None \<Rightarrow> Inr ()
        | Some e \<Rightarrow>
            rbind (EntityRef_Validate e) (\<lambda>_.
            if \<not> isGlobalImage e \<and> en_Cluster e \<noteq> RefScope ref then Inl ClusterMismatch
            else if en_Namespace e \<noteq> [] \<and> RefNamespace ref \<noteq> [] \<and> en_Namespace e \<noteq> RefNamespace ref
              then Inl NamespaceMismatch
            else Inr ()))))"

record Node =
  nd_Entity :: EntityRef
  nd_Facts :: "GraphFact list"

record Graph =
  gr_Workspace :: string
  gr_Nodes :: "Node list"
  gr_Unattached :: "GraphFact list"

definition graphFactKey :: "unicode_case \<Rightarrow> (Time \<Rightarrow> string) \<Rightarrow> GraphFact \<Rightarrow> string" where
  "graphFactKey u fmt gfact =
     join [(case gf_Entity gfact of None \<Rightarrow> ''unattached'' | Some e \<Rightarrow> EntityRef_Key u e),
           gf_Lens gfact, FKind (gf_Fact gfact), ResourceRef_String (Ref (gf_Fact gfact)),
           fmt (ObservedAt (gf_Fact gfact))] [NUL]"

text \<open>
  The assembly loop of \<open>NewGraph\<close>: the map from join key to node, and the unattached facts.
  Edges are always empty here, so the graph record carries none.
\<close>

definition add_to_nodes :: "unicode_case \<Rightarrow> EntityRef \<Rightarrow> GraphFact \<Rightarrow> (string, Node) gomap \<Rightarrow> (string, Node) gomap" where
  "add_to_nodes u e gfact nodes =
     (let key = EntityRef_Key u e;
          node = (case map_of nodes key of None \<Rightarrow> \<lparr>nd_Entity = e, nd_Facts = []\<rparr> | Some n \<Rightarrow> n)
      in gm_put key (node\<lparr>nd_Facts := nd_Facts node @ [gfact]\<rparr>) nodes)"

fun graph_loop ::
  "unicode_case \<Rightarrow> string \<Rightarrow> nat \<Rightarrow> GraphFact list \<Rightarrow> (string, Node) gomap \<times> GraphFact list
     \<Rightarrow> (graph_error, (string, Node) gomap \<times> GraphFact list) result" where
  "graph_loop u workspace index [] acc = Inr acc"
| "graph_loop u workspace index (gfact # facts) (nodes, unattached) =
     (case GraphFact_Validate gfact workspace of
        Inl e \<Rightarrow> Inl (FactAt index e)
      | Inr _ \<Rightarrow>
          (case gf_Entity gfact of
             None \<Rightarrow> graph_loop u workspace (Suc index) facts (nodes, unattached @ [gfact])
           | Some e \<Rightarrow> graph_loop u workspace (Suc index) facts (add_to_nodes u e gfact nodes, unattached)))"

definition NewGraph ::
  "unicode_case \<Rightarrow> (Time \<Rightarrow> string) \<Rightarrow> string \<Rightarrow> GraphFact list \<Rightarrow> (graph_error, Graph) result" where
  "NewGraph u fmt workspace facts =
     (if trim_space workspace = [] then Inl WorkspaceRequired
      else if length facts > maxGraphFacts then Inl TooManyFacts
      else rbind (graph_loop u workspace 0 facts ([], [])) (\<lambda>(nodes, unattached).
        Inr \<lparr>gr_Workspace = workspace,
             gr_Nodes = sort_key (\<lambda>n. EntityRef_Key u (nd_Entity n))
               (map (\<lambda>(k, n). n\<lparr>nd_Facts := sort_key (graphFactKey u fmt) (nd_Facts n)\<rparr>) nodes),
             gr_Unattached = sort_key (graphFactKey u fmt) unattached\<rparr>))"

subsection \<open>Exact-digest correlation\<close>

record ImageCorrelation =
  ic_Digest :: string
  ic_Entities :: "EntityRef list"

definition by_digest_step ::
  "unicode_case \<Rightarrow> Node \<Rightarrow> (string, (string, EntityRef) gomap) gomap
     \<Rightarrow> (string, (string, EntityRef) gomap) gomap" where
  "by_digest_step u node byDigest =
     (let e = nd_Entity node; d = en_ImageDigest e in
      if d = [] \<or> isGlobalImage e then byDigest
      else gm_put d (gm_put (EntityRef_Key u e) e (gm_get [] byDigest d)) byDigest)"

definition ImageCorrelations :: "unicode_case \<Rightarrow> Graph \<Rightarrow> ImageCorrelation list" where
  "ImageCorrelations u graph =
     (let byDigest = fold (by_digest_step u) (gr_Nodes graph) []
      in sort_key ic_Digest
           (map (\<lambda>(digest, entities).
                   \<lparr>ic_Digest = digest, ic_Entities = sort_key (EntityRef_Key u) (map snd entities)\<rparr>)
              (filter (\<lambda>(digest, entities). \<not> length entities < 2) byDigest)))"

subsection \<open>Facts about digests and entity texts\<close>

lemma ValidateImageDigest_Inr:
  "ValidateImageDigest d = Inr x \<longleftrightarrow>
     length d = 71 \<and> has_prefix d ''sha256:'' \<and> list_all is_lower_hex (drop 7 d)"
  by (auto simp: ValidateImageDigest_def numeral_eq_Suc)

lemma is_lower_hex_not_slash: "is_lower_hex c \<Longrightarrow> c \<noteq> CHR ''/''"
  by (auto simp: is_lower_hex_def in_range_def byte_of_def)

lemma digest_no_slash: "ValidateImageDigest d = Inr x \<Longrightarrow> CHR ''/'' \<notin> set d"
proof -
  assume *: "ValidateImageDigest d = Inr x"
  then have "d = ''sha256:'' @ drop 7 d"
    using has_prefix_split [of d "''sha256:''"] by (simp add: ValidateImageDigest_Inr numeral_eq_Suc)
  moreover have "CHR ''/'' \<notin> set (drop 7 d)"
    using * is_lower_hex_not_slash by (auto simp: ValidateImageDigest_Inr list_all_iff)
  moreover have "CHR ''/'' \<notin> set ''sha256:''" by simp
  ultimately show ?thesis by (metis UnE set_append)
qed

lemma validateEntityText_Inr:
  "validateEntityText label v = Inr x \<longleftrightarrow>
     v \<noteq> [] \<and> trim_space v = v \<and> length v \<le> 253 \<and>
     \<not> contains_any v [CHR ''/'', NUL, CHR 0x0D, CHR 0x0A]"
  by (auto simp: validateEntityText_def Let_def)

lemma validateEntityText_no_slash: "validateEntityText label v = Inr x \<Longrightarrow> CHR ''/'' \<notin> set v"
  by (auto simp: validateEntityText_Inr contains_any_def list_ex_iff)

lemma validate_texts_Inr:
  "validate_texts opt xs = Inr x \<longleftrightarrow>
     (\<forall>(l, v) \<in> set xs. (opt \<and> v = []) \<or> validateEntityText l v = Inr ())"
  by (induction opt xs rule: validate_texts.induct) (auto simp: rbind_eq_Inr)

lemma validate_texts_no_slash:
  "validate_texts opt xs = Inr x \<Longrightarrow> (l, v) \<in> set xs \<Longrightarrow> CHR ''/'' \<notin> set v"
  using validateEntityText_no_slash by (fastforce simp: validate_texts_Inr)

text \<open>The digest a repository digest carries is its text after the one \<open>@\<close>.\<close>

lemma cut_Some:
  "cut s sep = Some (a, b) \<Longrightarrow> s = a @ sep @ b"
  by (induction s sep arbitrary: a b rule: cut.induct)
     (auto simp: has_prefix_def split: if_splits, metis append_take_drop_id)

lemma ImageDigestFromRepoDigest_Inr:
  assumes "ImageDigestFromRepoDigest rd = Inr d"
  shows "\<exists>repo. rd = repo @ ''@'' @ d \<and> validRepository repo \<and> ValidateImageDigest d = Inr ()"
  using assms
  by (auto simp: ImageDigestFromRepoDigest_def rbind_eq_Inr dest!: cut_Some split: option.splits if_splits)

subsection \<open>Facts about join keys\<close>

lemma lower_char_not_slash: "c \<noteq> CHR ''/'' \<Longrightarrow> lower_char c \<noteq> CHR ''/''"
proof -
  assume "c \<noteq> CHR ''/''"
  moreover have "byte_of (char_of (byte_of c + 32)) \<noteq> byte_of CHR ''/''" if "65 \<le> byte_of c" "byte_of c \<le> 90"
    using that by (simp add: byte_of_char_of) (simp add: byte_of_def)
  ultimately show ?thesis by (auto simp: lower_char_def)
qed

lemma to_lower_no_slash:
  assumes "is_ascii s" and "CHR ''/'' \<notin> set s"
  shows "CHR ''/'' \<notin> set (to_lower u s)"
proof
  assume "CHR ''/'' \<in> set (to_lower u s)"
  then have "CHR ''/'' \<in> lower_char ` set s" by (simp add: to_lower_def assms(1))
  then obtain c where c: "CHR ''/'' = lower_char c" "c \<in> set s" by (rule imageE)
  with assms(2) have "c \<noteq> CHR ''/''" by blast
  from lower_char_not_slash [OF this] c(1) show False by (rule notE [OF _ sym])
qed

lemma EntityRef_Validate_local:
  assumes "EntityRef_Validate ref = Inr x" and "\<not> isGlobalImage ref"
  shows "en_Cluster ref \<noteq> []" and "CHR ''/'' \<notin> set (en_Cluster ref)"
    and "CHR ''/'' \<notin> set (en_Namespace ref)" and "CHR ''/'' \<notin> set (en_Kind ref)"
    and "CHR ''/'' \<notin> set (en_Name ref)" and "CHR ''/'' \<notin> set (en_Pod ref)"
    and "CHR ''/'' \<notin> set (en_Node ref)" and "CHR ''/'' \<notin> set (en_ImageDigest ref)"
    and "en_Kind ref = [] \<longleftrightarrow> en_Name ref = []"
proof -
  have c: "validateEntityText ''cluster'' (en_Cluster ref) = Inr ()"
    and t: "validate_texts True
        [(''namespace'', en_Namespace ref), (''kind'', en_Kind ref), (''name'', en_Name ref),
         (''pod'', en_Pod ref), (''node'', en_Node ref)] = Inr ()"
    and k: "en_Kind ref = [] \<longleftrightarrow> en_Name ref = []"
    and d: "en_ImageDigest ref = [] \<or> ValidateImageDigest (en_ImageDigest ref) = Inr ()"
    using assms by (auto simp: EntityRef_Validate_def rbind_eq_Inr split: if_splits)
  show "en_Cluster ref \<noteq> []" "CHR ''/'' \<notin> set (en_Cluster ref)"
    using c validateEntityText_no_slash by (auto simp: validateEntityText_Inr)
  show "CHR ''/'' \<notin> set (en_Namespace ref)"
    by (rule validate_texts_no_slash [OF t, of "''namespace''"]) simp
  show "CHR ''/'' \<notin> set (en_Kind ref)"
    by (rule validate_texts_no_slash [OF t, of "''kind''"]) simp
  show "CHR ''/'' \<notin> set (en_Name ref)"
    by (rule validate_texts_no_slash [OF t, of "''name''"]) simp
  show "CHR ''/'' \<notin> set (en_Pod ref)"
    by (rule validate_texts_no_slash [OF t, of "''pod''"]) simp
  show "CHR ''/'' \<notin> set (en_Node ref)"
    by (rule validate_texts_no_slash [OF t, of "''node''"]) simp
  show "CHR ''/'' \<notin> set (en_ImageDigest ref)"
    using d digest_no_slash by auto
  show "en_Kind ref = [] \<longleftrightarrow> en_Name ref = []" by (rule k)
qed

lemma key_parts_no_slash:
  assumes "EntityRef_Validate ref = Inr x" and "\<not> isGlobalImage ref" and "is_ascii (en_Kind ref)"
  shows "\<forall>p \<in> set (key_parts u ref). CHR ''/'' \<notin> set p"
  using EntityRef_Validate_local [OF assms(1,2)] to_lower_no_slash [OF assms(3)]
  by (auto simp: key_parts_def)

lemma key_parts_nonempty [simp]: "key_parts u ref \<noteq> []"
  by (simp add: key_parts_def)

lemma local_keys_eq:
  assumes "EntityRef_Validate r = Inr ()" "\<not> isGlobalImage r" "is_ascii (en_Kind r)"
    and "EntityRef_Validate s = Inr ()" "\<not> isGlobalImage s" "is_ascii (en_Kind s)"
    and "EntityRef_Key u r = EntityRef_Key u s"
  shows "key_parts u r = key_parts u s"
proof (rule join_inj_nonempty [where c = "CHR ''/''"])
  show "join (key_parts u r) ''/'' = join (key_parts u s) ''/''"
    using assms(2,5,7) by (simp add: EntityRef_Key_def)
qed (use key_parts_no_slash assms in auto)

text \<open>The key read as labelled dimensions; a kind that is not itself a label leaves them apart.\<close>

definition reserved_labels :: "string set" where
  "reserved_labels = {''namespace'', ''pod'', ''node'', ''image''}"

definition key_pairs :: "unicode_case \<Rightarrow> EntityRef \<Rightarrow> (string \<times> string) list" where
  "key_pairs u ref =
     (if en_Namespace ref \<noteq> [] then [(''namespace'', en_Namespace ref)] else []) @
     (if en_Kind ref \<noteq> [] then [(to_lower u (en_Kind ref), en_Name ref)] else []) @
     (if en_Pod ref \<noteq> [] then [(''pod'', en_Pod ref)] else []) @
     (if en_Node ref \<noteq> [] then [(''node'', en_Node ref)] else []) @
     (if en_ImageDigest ref \<noteq> [] then [(''image'', en_ImageDigest ref)] else [])"

lemma key_parts_pairs:
  "key_parts u ref = ''cluster'' # en_Cluster ref # concat (map (\<lambda>(a, b). [a, b]) (key_pairs u ref))"
  by (simp add: key_parts_def key_pairs_def)

lemma concat_pairs_inj:
  "concat (map (\<lambda>(a, b). [a, b]) xs) = concat (map (\<lambda>(a, b). [a, b]) ys) \<Longrightarrow> xs = ys"
proof (induction xs arbitrary: ys)
  case Nil
  then show ?case by (cases ys) (auto split: prod.splits)
next
  case (Cons x xs)
  then show ?case by (cases ys) (auto split: prod.splits)
qed

lemma key_pairs_lookup:
  assumes "to_lower u (en_Kind ref) \<notin> reserved_labels"
  shows "map_of (key_pairs u ref) ''namespace'' = (if en_Namespace ref = [] then None else Some (en_Namespace ref))"
    and "map_of (key_pairs u ref) ''pod'' = (if en_Pod ref = [] then None else Some (en_Pod ref))"
    and "map_of (key_pairs u ref) ''node'' = (if en_Node ref = [] then None else Some (en_Node ref))"
    and "map_of (key_pairs u ref) ''image'' = (if en_ImageDigest ref = [] then None else Some (en_ImageDigest ref))"
    and "filter (\<lambda>(l, v). l \<notin> reserved_labels) (key_pairs u ref) =
      (if en_Kind ref = [] then [] else [(to_lower u (en_Kind ref), en_Name ref)])"
  using assms by (auto simp: key_pairs_def reserved_labels_def map_add_def)

lemma key_pairs_determine:
  assumes "to_lower u (en_Kind r) \<notin> reserved_labels" and "to_lower u (en_Kind s) \<notin> reserved_labels"
    and "key_pairs u r = key_pairs u s"
  shows "en_Namespace r = en_Namespace s" and "en_Pod r = en_Pod s" and "en_Node r = en_Node s"
    and "en_ImageDigest r = en_ImageDigest s"
    and "en_Kind r = [] \<longleftrightarrow> en_Kind s = []"
    and "en_Kind r \<noteq> [] \<Longrightarrow> to_lower u (en_Kind r) = to_lower u (en_Kind s) \<and> en_Name r = en_Name s"
proof -
  note r = key_pairs_lookup [OF assms(1)] and s = key_pairs_lookup [OF assms(2)]
  show "en_Namespace r = en_Namespace s" using r(1) s(1) assms(3) by (auto split: if_splits)
  show "en_Pod r = en_Pod s" using r(2) s(2) assms(3) by (auto split: if_splits)
  show "en_Node r = en_Node s" using r(3) s(3) assms(3) by (auto split: if_splits)
  show "en_ImageDigest r = en_ImageDigest s" using r(4) s(4) assms(3) by (auto split: if_splits)
  show "en_Kind r = [] \<longleftrightarrow> en_Kind s = []" using r(5) s(5) assms(3) by (auto split: if_splits)
  show "to_lower u (en_Kind r) = to_lower u (en_Kind s) \<and> en_Name r = en_Name s" if "en_Kind r \<noteq> []"
    using that r(5) s(5) assms(3) by (auto split: if_splits)
qed

subsection \<open>Facts about assembly\<close>

definition nodes_ok :: "unicode_case \<Rightarrow> (string, Node) gomap \<Rightarrow> bool" where
  "nodes_ok u nodes \<longleftrightarrow> gm_wf nodes \<and>
     (\<forall>(k, n) \<in> set nodes. EntityRef_Key u (nd_Entity n) = k \<and>
        (\<forall>f \<in> set (nd_Facts n). \<exists>e. gf_Entity f = Some e \<and> EntityRef_Key u e = k))"

definition node_facts :: "(string, Node) gomap \<Rightarrow> GraphFact multiset" where
  "node_facts nodes = sum_list (map (\<lambda>(k, n). mset (nd_Facts n)) nodes)"

lemma nodes_okD:
  assumes "nodes_ok u nodes" and "(k, n) \<in> set nodes"
  shows "EntityRef_Key u (nd_Entity n) = k"
    and "\<forall>f \<in> set (nd_Facts n). \<exists>e. gf_Entity f = Some e \<and> EntityRef_Key u e = k"
  using assms by (auto simp: nodes_ok_def)

lemma add_to_nodes_ok:
  assumes "nodes_ok u nodes" and "gf_Entity f = Some e"
  shows "nodes_ok u (add_to_nodes u e f nodes)"
    and "node_facts (add_to_nodes u e f nodes) = add_mset f (node_facts nodes)"
proof -
  let ?k = "EntityRef_Key u e"
  let ?node = "case map_of nodes ?k of None \<Rightarrow> \<lparr>nd_Entity = e, nd_Facts = []\<rparr> | Some n \<Rightarrow> n"
  have wf: "gm_wf nodes" using assms(1) by (simp add: nodes_ok_def)
  have node: "EntityRef_Key u (nd_Entity ?node) = ?k \<and>
      (\<forall>f \<in> set (nd_Facts ?node). \<exists>e. gf_Entity f = Some e \<and> EntityRef_Key u e = ?k)"
    using assms(1) by (auto simp: nodes_ok_def split: option.splits dest!: map_of_SomeD)
  show "nodes_ok u (add_to_nodes u e f nodes)"
    using assms wf node by (auto simp: nodes_ok_def add_to_nodes_def Let_def set_gm_put)
  have "node_facts (gm_put ?k (?node\<lparr>nd_Facts := nd_Facts ?node @ [f]\<rparr>) nodes) +
      (case map_of nodes ?k of None \<Rightarrow> {#} | Some n \<Rightarrow> mset (nd_Facts n)) =
      node_facts nodes + mset (nd_Facts ?node @ [f])"
    using gm_sum_put [OF wf, where f = "\<lambda>n. mset (nd_Facts n)"] by (simp add: node_facts_def)
  then show "node_facts (add_to_nodes u e f nodes) = add_mset f (node_facts nodes)"
    by (auto simp: add_to_nodes_def Let_def split: option.splits)
qed

lemma graph_loop_Inr:
  assumes "graph_loop u ws i facts (nodes, un) = Inr (nodes', un')" and "nodes_ok u nodes"
    and "\<forall>f \<in> set un. gf_Entity f = None"
  shows "nodes_ok u nodes' \<and> (\<forall>f \<in> set un'. gf_Entity f = None) \<and>
    node_facts nodes' + mset un' = node_facts nodes + mset un + mset facts \<and>
    (\<forall>f \<in> set facts. GraphFact_Validate f ws = Inr ())"
  using assms
proof (induction u ws i facts "(nodes, un)" arbitrary: nodes un rule: graph_loop.induct)
  case (2 u ws i f facts nodes un)
  have ok: "GraphFact_Validate f ws = Inr ()"
    using "2.prems"(1) by (auto split: sum.splits)
  show ?case
  proof (cases "gf_Entity f")
    case None
    with ok "2.prems" "2.hyps"(1) [of "()"] show ?thesis by auto
  next
    case (Some e)
    with ok "2.prems" "2.hyps"(2) [of "()" e] add_to_nodes_ok [OF "2.prems"(2) Some]
    show ?thesis by auto
  qed
qed auto

lemma graph_loop_Inl:
  "graph_loop u ws i facts acc = Inl e \<Longrightarrow>
     \<exists>k < length facts. \<exists>e'. e = FactAt (i + k) e' \<and> GraphFact_Validate (facts ! k) ws = Inl e'"
proof (induction u ws i facts acc rule: graph_loop.induct)
  case (2 u ws i f facts nodes un)
  show ?case
  proof (cases "GraphFact_Validate f ws")
    case (Inl e')
    with "2.prems" show ?thesis by (intro exI [of _ 0]) auto
  next
    case (Inr x)
    with "2.prems" "2.IH" have
      "\<exists>k < length facts. \<exists>e'. e = FactAt (Suc i + k) e' \<and> GraphFact_Validate (facts ! k) ws = Inl e'"
      by (auto split: option.splits)
    then obtain k e' where "k < length facts" "e = FactAt (Suc i + k) e'"
      "GraphFact_Validate (facts ! k) ws = Inl e'" by blast
    then show ?thesis by (intro exI [of _ "Suc k"]) auto
  qed
qed auto

lemma sum_list_mset_sort: "sum_list (map f (sort_key k xs)) = (sum_list (map f xs) :: 'a multiset)"
  by (metis mset_map mset_sort sum_mset_sum_list)

lemma distinct_map_sort_key: "distinct (map f (sort_key k xs)) \<longleftrightarrow> distinct (map f xs)"
  by (rule mset_eq_imp_distinct_iff) simp

text \<open>The digest index built by the correlation loop.\<close>

definition digest_index :: "unicode_case \<Rightarrow> Node list \<Rightarrow> (string, (string, EntityRef) gomap) gomap" where
  "digest_index u nodes = fold (by_digest_step u) nodes []"

definition correlatable :: "EntityRef \<Rightarrow> bool" where
  "correlatable e \<longleftrightarrow> en_ImageDigest e \<noteq> [] \<and> \<not> isGlobalImage e"

lemma digest_index_sound:
  "gm_wf (digest_index u nodes) \<and>
   (\<forall>d es. map_of (digest_index u nodes) d = Some es \<longrightarrow> gm_wf es \<and>
      (\<forall>k e. map_of es k = Some e \<longrightarrow>
         EntityRef_Key u e = k \<and> e \<in> nd_Entity ` set nodes \<and> en_ImageDigest e = d \<and> correlatable e))"
proof (induction nodes rule: rev_induct)
  case Nil
  show ?case by (simp add: digest_index_def)
next
  case (snoc n nodes)
  let ?idx = "digest_index u nodes"
  have step: "digest_index u (nodes @ [n]) = by_digest_step u n ?idx"
    by (simp add: digest_index_def)
  show ?case
  proof (cases "correlatable (nd_Entity n)")
    case False
    then have "digest_index u (nodes @ [n]) = ?idx"
      by (auto simp: step by_digest_step_def correlatable_def Let_def)
    with snoc show ?thesis by fastforce
  next
    case True
    then have idx: "digest_index u (nodes @ [n]) =
        gm_put (en_ImageDigest (nd_Entity n))
          (gm_put (EntityRef_Key u (nd_Entity n)) (nd_Entity n) (gm_get [] ?idx (en_ImageDigest (nd_Entity n)))) ?idx"
      by (auto simp: step by_digest_step_def correlatable_def Let_def)
    show ?thesis
      using snoc True unfolding idx
      by (auto simp: gm_get_def split: option.splits if_splits)
  qed
qed

lemma digest_index_complete:
  assumes "n \<in> set nodes" and "correlatable (nd_Entity n)"
  shows "\<exists>es. map_of (digest_index u nodes) (en_ImageDigest (nd_Entity n)) = Some es \<and>
    map_of es (EntityRef_Key u (nd_Entity n)) \<noteq> None"
  using assms
proof (induction nodes rule: rev_induct)
  case Nil
  then show ?case by simp
next
  case (snoc m nodes)
  have step: "digest_index u (nodes @ [m]) = by_digest_step u m (digest_index u nodes)"
    by (simp add: digest_index_def)
  show ?case
  proof (cases "n = m")
    case True
    with snoc.prems show ?thesis by (auto simp: step by_digest_step_def correlatable_def Let_def)
  next
    case False
    with snoc obtain es where "map_of (digest_index u nodes) (en_ImageDigest (nd_Entity n)) = Some es"
      "map_of es (EntityRef_Key u (nd_Entity n)) \<noteq> None" by auto
    then show ?thesis by (auto simp: step by_digest_step_def Let_def gm_get_def)
  qed
qed

lemma set_ImageCorrelations:
  "set (ImageCorrelations u g) =
     {\<lparr>ic_Digest = d, ic_Entities = sort_key (EntityRef_Key u) (map snd es)\<rparr> | d es.
        (d, es) \<in> set (digest_index u (gr_Nodes g)) \<and> 2 \<le> length es}"
  by (auto simp: ImageCorrelations_def digest_index_def Let_def image_iff not_less Bex_def)

lemma ImageCorrelations_sound:
  assumes "c \<in> set (ImageCorrelations u g)"
  shows "2 \<le> length (ic_Entities c) \<and> sorted (map (EntityRef_Key u) (ic_Entities c)) \<and>
    distinct (map (EntityRef_Key u) (ic_Entities c)) \<and>
    (\<forall>e \<in> set (ic_Entities c). e \<in> nd_Entity ` set (gr_Nodes g) \<and>
       en_ImageDigest e = ic_Digest c \<and> correlatable e)"
proof (intro conjI ballI)
  from assms obtain d es where c: "c = \<lparr>ic_Digest = d, ic_Entities = sort_key (EntityRef_Key u) (map snd es)\<rparr>"
    and mem: "(d, es) \<in> set (digest_index u (gr_Nodes g))" and len: "2 \<le> length es"
    by (auto simp: set_ImageCorrelations)
  note sound = digest_index_sound [of u "gr_Nodes g"]
  have look: "map_of (digest_index u (gr_Nodes g)) d = Some es"
    using mem sound by (simp add: gm_wf_in_iff)
  have wf: "gm_wf es" and ent: "\<And>k e. (k, e) \<in> set es \<Longrightarrow>
      EntityRef_Key u e = k \<and> e \<in> nd_Entity ` set (gr_Nodes g) \<and> en_ImageDigest e = d \<and> correlatable e"
    using sound look by (auto simp: gm_wf_in_iff)
  have keys: "map (EntityRef_Key u) (map snd es) = map fst es" using ent by auto
  show "2 \<le> length (ic_Entities c)" "sorted (map (EntityRef_Key u) (ic_Entities c))"
    using len by (simp_all add: c)
  show "distinct (map (EntityRef_Key u) (ic_Entities c))"
    unfolding c ImageCorrelation.simps distinct_map_sort_key keys using wf by (simp add: gm_wf_def)
  fix e assume "e \<in> set (ic_Entities c)"
  then obtain k where "(k, e) \<in> set es" by (auto simp: c)
  from ent [OF this] show "e \<in> nd_Entity ` set (gr_Nodes g)" "en_ImageDigest e = ic_Digest c" "correlatable e"
    by (simp_all add: c)
qed

lemma ImageCorrelations_complete:
  assumes "distinct (map (\<lambda>n. EntityRef_Key u (nd_Entity n)) (gr_Nodes g))"
    and nm: "n \<in> set (gr_Nodes g)" "m \<in> set (gr_Nodes g)"
    and h: "correlatable (nd_Entity n) \<and> correlatable (nd_Entity m) \<and>
      EntityRef_Key u (nd_Entity n) \<noteq> EntityRef_Key u (nd_Entity m) \<and>
      en_ImageDigest (nd_Entity n) = en_ImageDigest (nd_Entity m)"
  shows "\<exists>c \<in> set (ImageCorrelations u g). ic_Digest c = en_ImageDigest (nd_Entity n) \<and>
      nd_Entity n \<in> set (ic_Entities c) \<and> nd_Entity m \<in> set (ic_Entities c)"
proof -
  note sound = digest_index_sound [of u "gr_Nodes g"]
  obtain es where es: "map_of (digest_index u (gr_Nodes g)) (en_ImageDigest (nd_Entity n)) = Some es"
    and kn: "map_of es (EntityRef_Key u (nd_Entity n)) \<noteq> None"
    using digest_index_complete nm(1) h by blast
  have km: "map_of es (EntityRef_Key u (nd_Entity m)) \<noteq> None"
    using digest_index_complete [OF nm(2), of u] h es by auto
  have same: "e = nd_Entity x" if e: "map_of es (EntityRef_Key u (nd_Entity x)) = Some e"
    and x: "x \<in> set (gr_Nodes g)" for e x
  proof -
    obtain y where "y \<in> set (gr_Nodes g)" "e = nd_Entity y" "EntityRef_Key u (nd_Entity y) = EntityRef_Key u (nd_Entity x)"
      using sound es e by blast
    with assms(1) x show ?thesis by (auto simp: distinct_map dest: inj_onD)
  qed
  have wf: "gm_wf es" using sound es by blast
  have ne: "(EntityRef_Key u (nd_Entity n), nd_Entity n) \<in> set es"
    "(EntityRef_Key u (nd_Entity m), nd_Entity m) \<in> set es"
    using kn km same nm wf by (auto simp: gm_wf_in_iff)
  have "card {(EntityRef_Key u (nd_Entity n), nd_Entity n), (EntityRef_Key u (nd_Entity m), nd_Entity m)} \<le> card (set es)"
    using ne by (intro card_mono) auto
  then have "2 \<le> length es" using h card_length [of es] by simp
  moreover have "(en_ImageDigest (nd_Entity n), es) \<in> set (digest_index u (gr_Nodes g))"
    using map_of_SomeD [OF es] .
  ultimately have mem: "\<lparr>ic_Digest = en_ImageDigest (nd_Entity n),
      ic_Entities = sort_key (EntityRef_Key u) (map snd es)\<rparr> \<in> set (ImageCorrelations u g)"
    unfolding set_ImageCorrelations by blast
  have "nd_Entity n \<in> snd ` set es" "nd_Entity m \<in> snd ` set es"
    using ne by (metis image_eqI snd_conv)+
  with mem show ?thesis by (intro bexI [OF _ mem]) simp
qed

subsection \<open>Properties\<close>

lemma NewGraph_facts:
  assumes "NewGraph u fmt ws facts = Inr g"
  shows "mset (concat (map nd_Facts (gr_Nodes g)) @ gr_Unattached g) = mset facts"
    and "\<forall>f \<in> set facts. GraphFact_Validate f ws = Inr ()"
proof -
  let ?sorted = "\<lambda>(k, n). n\<lparr>nd_Facts := sort_key (graphFactKey u fmt) (nd_Facts n)\<rparr>"
  obtain nodes un where loop: "graph_loop u ws 0 facts ([], []) = Inr (nodes, un)"
    and g: "gr_Nodes g = sort_key (\<lambda>n. EntityRef_Key u (nd_Entity n)) (map ?sorted nodes)"
      "gr_Unattached g = sort_key (graphFactKey u fmt) un"
    using assms by (auto simp: NewGraph_def rbind_eq_Inr split: if_splits)
  have inv: "node_facts nodes + mset un = mset facts" "\<forall>f \<in> set facts. GraphFact_Validate f ws = Inr ()"
    using graph_loop_Inr [OF loop] by (simp_all add: nodes_ok_def node_facts_def)
  show "\<forall>f \<in> set facts. GraphFact_Validate f ws = Inr ()" by (rule inv(2))
  have "sum_list (map (\<lambda>n. mset (nd_Facts n)) (map ?sorted nodes)) = node_facts nodes"
    by (simp add: node_facts_def comp_def case_prod_unfold)
  then show "mset (concat (map nd_Facts (gr_Nodes g)) @ gr_Unattached g) = mset facts"
    using inv(1) by (simp add: g sum_list_mset_sort mset_concat comp_def)
qed

text \<open>
  Graph assembly neither loses, duplicates nor invents a fact. A successful
  \<open>NewGraph\<close> puts every input fact exactly once into a node or among the unattached facts, a
  node only holds facts whose own entity has the node's join key, facts without an entity are
  never attached, the nodes are strictly ordered by join key, and every fact passed validation
  for the requested workspace.
\<close>
theorem NewGraph_partitions_facts:
  assumes "NewGraph u fmt ws facts = Inr g"
  shows "sum_list (map (\<lambda>n. mset (nd_Facts n)) (gr_Nodes g)) + mset (gr_Unattached g) = mset facts \<and>
    (\<forall>n \<in> set (gr_Nodes g). \<forall>f \<in> set (nd_Facts n).
      \<exists>e. gf_Entity f = Some e \<and> EntityRef_Key u e = EntityRef_Key u (nd_Entity n)) \<and>
    (\<forall>f \<in> set (gr_Unattached g). gf_Entity f = None) \<and>
    sorted (map (\<lambda>n. EntityRef_Key u (nd_Entity n)) (gr_Nodes g)) \<and>
    distinct (map (\<lambda>n. EntityRef_Key u (nd_Entity n)) (gr_Nodes g)) \<and>
    (\<forall>f \<in> set facts. GraphFact_Validate f ws = Inr ())"
proof -
  let ?sorted = "\<lambda>(k, n). n\<lparr>nd_Facts := sort_key (graphFactKey u fmt) (nd_Facts n)\<rparr>"
  obtain nodes un where loop: "graph_loop u ws 0 facts ([], []) = Inr (nodes, un)"
    and g: "gr_Nodes g = sort_key (\<lambda>n. EntityRef_Key u (nd_Entity n)) (map ?sorted nodes)"
      "gr_Unattached g = sort_key (graphFactKey u fmt) un"
    using assms by (auto simp: NewGraph_def rbind_eq_Inr split: if_splits)
  have inv: "nodes_ok u nodes" "\<forall>f \<in> set un. gf_Entity f = None"
      "\<forall>f \<in> set facts. GraphFact_Validate f ws = Inr ()"
    using graph_loop_Inr [OF loop] by (simp_all add: nodes_ok_def node_facts_def)
  have keys: "map (\<lambda>n. EntityRef_Key u (nd_Entity n)) (map ?sorted nodes) = map fst nodes"
    using inv(1) by (auto simp: nodes_ok_def)
  have "sum_list (map (\<lambda>n. mset (nd_Facts n)) (gr_Nodes g)) + mset (gr_Unattached g) = mset facts"
    using NewGraph_facts(1) [OF assms] by (simp add: mset_concat comp_def)
  moreover have "\<exists>e. gf_Entity f = Some e \<and> EntityRef_Key u e = EntityRef_Key u (nd_Entity n)"
    if n: "n \<in> set (gr_Nodes g)" and f: "f \<in> set (nd_Facts n)" for n f
  proof -
    from n obtain k m where km: "(k, m) \<in> set nodes" "nd_Entity n = nd_Entity m" "set (nd_Facts n) = set (nd_Facts m)"
      by (auto simp: g)
    with f nodes_okD [OF inv(1) km(1)] show ?thesis by auto
  qed
  moreover have "distinct (map (\<lambda>n. EntityRef_Key u (nd_Entity n)) (gr_Nodes g))"
    unfolding g distinct_map_sort_key keys using inv(1) by (simp add: nodes_ok_def gm_wf_def)
  moreover have "\<forall>f \<in> set (gr_Unattached g). gf_Entity f = None"
    using inv(2) by (simp add: g(2))
  moreover have "sorted (map (\<lambda>n. EntityRef_Key u (nd_Entity n)) (gr_Nodes g))"
    unfolding g(1) by (rule sorted_sort_key)
  ultimately show ?thesis using inv(3) by blast
qed

definition sample_ref :: "string \<Rightarrow> string \<Rightarrow> ResourceRef" where
  "sample_ref kind name =
     \<lparr>SourceKind = ''kubeconfig'', RefScope = ''kind-dev'', RefKind = kind, RefNamespace = ''apps'',
      RefName = name, Attributes = []\<rparr>"

definition sample_fact :: "string \<Rightarrow> string \<Rightarrow> Fact" where
  "sample_fact kind name =
     \<lparr>Ref = sample_ref kind name, FKind = FactInventory, Observed = ''{}'', Display = [], ObservedAt = 1,
      Source = ''kind-dev'',
      FProvenance = \<lparr>Adapter = ''kubeconfig'', ProtocolV = ''1'', NativeID = [], DeepLink = [], Collector = []\<rparr>,
      FWorkspace = ''local'', FStale = False, FStaleFor = []\<rparr>"

definition sample_entity :: "string \<Rightarrow> string \<Rightarrow> EntityRef" where
  "sample_entity kind name =
     \<lparr>en_Cluster = ''kind-dev'', en_Namespace = ''apps'', en_Kind = kind, en_Name = name,
      en_Pod = [], en_Node = [], en_ImageDigest = []\<rparr>"

definition sample_graph_facts :: "GraphFact list" where
  "sample_graph_facts =
     [\<lparr>gf_Fact = sample_fact ''Pod'' ''api'', gf_Lens = LensLive, gf_Entity = Some (sample_entity ''Pod'' ''api'')\<rparr>,
      \<lparr>gf_Fact = sample_fact ''Pod'' ''web'', gf_Lens = LensLive, gf_Entity = None\<rparr>,
      \<lparr>gf_Fact = sample_fact ''Deployment'' ''api'', gf_Lens = LensLive,
       gf_Entity = Some (sample_entity ''Deployment'' ''api'')\<rparr>]"

theorem NewGraph_partitions_facts_witness:
  "\<exists>g. NewGraph ascii_case (\<lambda>_. []) ''local'' sample_graph_facts = Inr g \<and>
     sum_list (map (\<lambda>n. mset (nd_Facts n)) (gr_Nodes g)) + mset (gr_Unattached g) = mset sample_graph_facts"
proof -
  have "is_ok (NewGraph ascii_case (\<lambda>_. []) ''local'' sample_graph_facts)" by code_simp
  then obtain g where g: "NewGraph ascii_case (\<lambda>_. []) ''local'' sample_graph_facts = Inr g"
    by (auto simp: is_ok_iff)
  with NewGraph_partitions_facts [OF g] show ?thesis by blast
qed

text \<open>
  On validated references whose kind is not one of the key's own labels
  (namespace, pod, node, image), the join key represents every populated dimension: two
  references with the same key agree on cluster, namespace, name, pod, node and image digest,
  and on the kind up to case.
\<close>
theorem EntityRef_Key_separates:
  assumes "EntityRef_Validate r = Inr ()" and "EntityRef_Validate s = Inr ()"
    and "is_ascii (en_Kind r)" and "is_ascii (en_Kind s)"
    and "to_lower u (en_Kind r) \<notin> reserved_labels" and "to_lower u (en_Kind s) \<notin> reserved_labels"
    and "EntityRef_Key u r = EntityRef_Key u s"
  shows "en_Cluster r = en_Cluster s \<and> en_Namespace r = en_Namespace s \<and> en_Name r = en_Name s \<and>
    en_Pod r = en_Pod s \<and> en_Node r = en_Node s \<and> en_ImageDigest r = en_ImageDigest s \<and>
    to_lower u (en_Kind r) = to_lower u (en_Kind s)"
proof (cases "isGlobalImage r \<or> isGlobalImage s")
  case True
  have "''image/'' @ x \<noteq> join (key_parts u t) ''/''" for x t
    by (simp add: key_parts_pairs)
  with True assms(7) have "isGlobalImage r \<and> isGlobalImage s"
    by (auto simp: EntityRef_Key_def dest: sym split: if_splits)
  with assms(7) show ?thesis by (simp add: EntityRef_Key_def) (simp add: isGlobalImage_def)
next
  case False
  then have r: "\<not> isGlobalImage r" and s: "\<not> isGlobalImage s" by simp_all
  have "key_parts u r = key_parts u s"
    by (rule local_keys_eq [OF assms(1) r assms(3) assms(2) s assms(4) assms(7)])
  then have c: "en_Cluster r = en_Cluster s" and p: "key_pairs u r = key_pairs u s"
    by (auto simp: key_parts_pairs dest: concat_pairs_inj)
  from key_pairs_determine [OF assms(5,6) p] c show ?thesis
    using EntityRef_Validate_local(9) [OF assms(1) r] EntityRef_Validate_local(9) [OF assms(2) s]
    by (cases "en_Kind r = []") auto
qed

theorem EntityRef_Key_separates_witness:
  "EntityRef_Validate (sample_entity ''Deployment'' ''api'') = Inr () \<and>
   EntityRef_Key ascii_case (sample_entity ''Deployment'' ''api'') =
     EntityRef_Key ascii_case (sample_entity ''deployment'' ''api'') \<and>
   en_Name (sample_entity ''Deployment'' ''api'') = en_Name (sample_entity ''deployment'' ''api'')"
proof -
  have v: "EntityRef_Validate (sample_entity ''Deployment'' ''api'') = Inr ()"
    "EntityRef_Validate (sample_entity ''deployment'' ''api'') = Inr ()"
    "is_ascii (en_Kind (sample_entity ''Deployment'' ''api''))"
    "is_ascii (en_Kind (sample_entity ''deployment'' ''api''))"
    "to_lower ascii_case (en_Kind (sample_entity ''Deployment'' ''api'')) \<notin> reserved_labels"
    "to_lower ascii_case (en_Kind (sample_entity ''deployment'' ''api'')) \<notin> reserved_labels"
    "EntityRef_Key ascii_case (sample_entity ''Deployment'' ''api'') =
       EntityRef_Key ascii_case (sample_entity ''deployment'' ''api'')"
    by code_simp+
  from EntityRef_Key_separates [OF v] v(1,7) show ?thesis by simp
qed

text \<open>
  The documented promise that a more specific reference cannot coalesce with a
  different entity fails when the kind is one of the labels: the namespace \<open>apps\<close> of a cluster
  and the resource of kind \<open>Namespace\<close> named \<open>apps\<close> there are different valid references with
  the same join key, and so are a Pod given by its pod name and one given by kind and name.
\<close>
theorem EntityRef_Key_label_collision:
  "\<exists>r s p q. EntityRef_Validate r = Inr () \<and> EntityRef_Validate s = Inr () \<and>
     en_Namespace r = ''apps'' \<and> en_Namespace s = [] \<and> en_Kind s = ''Namespace'' \<and>
     EntityRef_Key ascii_case r = EntityRef_Key ascii_case s \<and>
     EntityRef_Validate p = Inr () \<and> EntityRef_Validate q = Inr () \<and>
     en_Pod p = ''api'' \<and> en_Pod q = [] \<and> en_Kind q = ''Pod'' \<and>
     EntityRef_Key ascii_case p = EntityRef_Key ascii_case q"
proof -
  let ?base = "\<lparr>en_Cluster = ''kind-dev'', en_Namespace = [], en_Kind = [], en_Name = [],
      en_Pod = [], en_Node = [], en_ImageDigest = []\<rparr>"
  let ?r = "?base\<lparr>en_Namespace := ''apps''\<rparr>"
  let ?s = "?base\<lparr>en_Kind := ''Namespace'', en_Name := ''apps''\<rparr>"
  let ?p = "?base\<lparr>en_Pod := ''api''\<rparr>"
  let ?q = "?base\<lparr>en_Kind := ''Pod'', en_Name := ''api''\<rparr>"
  have "EntityRef_Validate ?r = Inr ()" "EntityRef_Validate ?s = Inr ()"
    "EntityRef_Key ascii_case ?r = EntityRef_Key ascii_case ?s"
    "EntityRef_Validate ?p = Inr ()" "EntityRef_Validate ?q = Inr ()"
    "EntityRef_Key ascii_case ?p = EntityRef_Key ascii_case ?q"
    by code_simp+
  then show ?thesis
    by (intro exI [of _ ?r] exI [of _ ?s] exI [of _ ?p] exI [of _ ?q]) simp
qed

text \<open>
  Image correlation is exact. Every reported correlation names at least two
  entities of the graph, all local (never a bare image), all carrying precisely that digest,
  in strictly increasing key order; and any two local entities of the graph with different
  keys and the same digest are reported together.
\<close>
theorem ImageCorrelations_exact:
  assumes "distinct (map (\<lambda>n. EntityRef_Key u (nd_Entity n)) (gr_Nodes g))"
  shows "(\<forall>c \<in> set (ImageCorrelations u g).
      2 \<le> length (ic_Entities c) \<and> sorted (map (EntityRef_Key u) (ic_Entities c)) \<and>
      distinct (map (EntityRef_Key u) (ic_Entities c)) \<and>
      (\<forall>e \<in> set (ic_Entities c). e \<in> nd_Entity ` set (gr_Nodes g) \<and>
         en_ImageDigest e = ic_Digest c \<and> correlatable e)) \<and>
    (\<forall>n \<in> set (gr_Nodes g). \<forall>m \<in> set (gr_Nodes g).
      correlatable (nd_Entity n) \<and> correlatable (nd_Entity m) \<and>
      EntityRef_Key u (nd_Entity n) \<noteq> EntityRef_Key u (nd_Entity m) \<and>
      en_ImageDigest (nd_Entity n) = en_ImageDigest (nd_Entity m) \<longrightarrow>
      (\<exists>c \<in> set (ImageCorrelations u g). ic_Digest c = en_ImageDigest (nd_Entity n) \<and>
         nd_Entity n \<in> set (ic_Entities c) \<and> nd_Entity m \<in> set (ic_Entities c)))"
  using ImageCorrelations_sound ImageCorrelations_complete [OF assms] by (simp add: Ball_def)

definition sample_digest :: string where
  "sample_digest = ''sha256:'' @ replicate 64 CHR ''a''"

definition sample_image_graph :: Graph where
  "sample_image_graph =
     \<lparr>gr_Workspace = ''local'',
      gr_Nodes =
        [\<lparr>nd_Entity = (sample_entity ''Pod'' ''api'')\<lparr>en_ImageDigest := sample_digest\<rparr>, nd_Facts = []\<rparr>,
         \<lparr>nd_Entity = (sample_entity ''Pod'' ''web'')\<lparr>en_ImageDigest := sample_digest\<rparr>, nd_Facts = []\<rparr>,
         \<lparr>nd_Entity = sample_entity ''Service'' ''api'', nd_Facts = []\<rparr>],
      gr_Unattached = []\<rparr>"

theorem ImageCorrelations_exact_witness:
  "distinct (map (\<lambda>n. EntityRef_Key ascii_case (nd_Entity n)) (gr_Nodes sample_image_graph)) \<and>
   (\<exists>c \<in> set (ImageCorrelations ascii_case sample_image_graph). ic_Digest c = sample_digest \<and>
      (sample_entity ''Pod'' ''api'')\<lparr>en_ImageDigest := sample_digest\<rparr> \<in> set (ic_Entities c) \<and>
      (sample_entity ''Pod'' ''web'')\<lparr>en_ImageDigest := sample_digest\<rparr> \<in> set (ic_Entities c))"
proof -
  let ?n = "\<lparr>nd_Entity = (sample_entity ''Pod'' ''api'')\<lparr>en_ImageDigest := sample_digest\<rparr>, nd_Facts = []\<rparr>"
  let ?m = "\<lparr>nd_Entity = (sample_entity ''Pod'' ''web'')\<lparr>en_ImageDigest := sample_digest\<rparr>, nd_Facts = []\<rparr>"
  have d: "distinct (map (\<lambda>n. EntityRef_Key ascii_case (nd_Entity n)) (gr_Nodes sample_image_graph))"
    by code_simp
  have mem: "?n \<in> set (gr_Nodes sample_image_graph)" "?m \<in> set (gr_Nodes sample_image_graph)"
    by (simp_all add: sample_image_graph_def)
  have h: "correlatable (nd_Entity ?n) \<and> correlatable (nd_Entity ?m) \<and>
      EntityRef_Key ascii_case (nd_Entity ?n) \<noteq> EntityRef_Key ascii_case (nd_Entity ?m) \<and>
      en_ImageDigest (nd_Entity ?n) = en_ImageDigest (nd_Entity ?m)"
    by code_simp
  have "\<exists>c \<in> set (ImageCorrelations ascii_case sample_image_graph). ic_Digest c = en_ImageDigest (nd_Entity ?n) \<and>
      nd_Entity ?n \<in> set (ic_Entities c) \<and> nd_Entity ?m \<in> set (ic_Entities c)"
    using conjunct2 [OF ImageCorrelations_exact [OF d]] mem h by blast
  then show ?thesis using d by simp
qed

end
