(* ===== verification/Fleet_CVE.thy ===== *)
theory Fleet_CVE
  imports Fleet_Graph
begin

text \<open>
  Canonical vulnerability observations (\<open>internal/fleet/cve.go\<close>). Upper-casing takes the
  Unicode case table \<open>u\<close> for strings that are not ASCII; accepted identifiers are ASCII.
\<close>

subsection \<open>Model\<close>

definition maxCVEIdentifiers :: nat where
  "maxCVEIdentifiers = 256"

datatype cve_error =
    CVEWhitespace
  | CVEFormat
  | CVEYear
  | CVESequence
  | SeverityWhitespace
  | SeverityUnsupported
  | CVEImage graph_error
  | CVECount
  | CVENotCanonical string
  | CVEUnsorted
  | SeverityNotCanonical
  | CVEDuplicated string

definition digit_rune :: "nat \<Rightarrow> bool" where
  "digit_rune r \<longleftrightarrow> 48 \<le> r \<and> r \<le> 57"

definition NormalizeCVEIdentifier :: "unicode_case \<Rightarrow> string \<Rightarrow> (cve_error, string) result" where
  "NormalizeCVEIdentifier u raw =
     (if trim_space raw \<noteq> raw then Inl CVEWhitespace
      else let v = to_upper u raw in
        if length v < length ''CVE-0000-0000'' \<or> \<not> has_prefix v ''CVE-'' \<or> v ! 8 \<noteq> CHR ''-'' then Inl CVEFormat
        else if list_ex (\<lambda>(r, w). \<not> digit_rune r) (range_runes (take 4 (drop 4 v))) then Inl CVEYear
        else if list_ex (\<lambda>(r, w). \<not> digit_rune r) (range_runes (drop 9 v)) then Inl CVESequence
        else Inr v)"

definition NormalizeCVESeverity :: "unicode_case \<Rightarrow> string \<Rightarrow> (cve_error, string) result" where
  "NormalizeCVESeverity u v =
     (if trim_space v \<noteq> v then Inl SeverityWhitespace
      else let up = to_upper u v in
        if up = ''CRITICAL'' then Inr ''critical''
        else if up = ''HIGH'' then Inr ''high''
        else if up = ''MEDIUM'' then Inr ''medium''
        else if up = ''LOW'' then Inr ''low''
        else if up = ''UNKNOWN'' then Inr ''unknown''
        else Inl SeverityUnsupported)"

record CVEObservation =
  co_Image :: string
  co_IDs :: "string list"
  co_Severity :: string

fun cve_ids_ok :: "unicode_case \<Rightarrow> string \<Rightarrow> string list \<Rightarrow> (cve_error, unit) result" where
  "cve_ids_ok u previous [] = Inr ()"
| "cve_ids_ok u previous (x # xs) =
     (if NormalizeCVEIdentifier u x \<noteq> Inr x then Inl (CVENotCanonical x)
      else if previous \<noteq> [] \<and> x \<le> previous then Inl CVEUnsorted
      else cve_ids_ok u x xs)"

definition ValidateCVEObservation :: "unicode_case \<Rightarrow> CVEObservation \<Rightarrow> (cve_error, unit) result" where
  "ValidateCVEObservation u ob =
     (case ValidateImageDigest (co_Image ob) of
        Inl e \<Rightarrow> Inl (CVEImage e)
      | Inr _ \<Rightarrow>
          if length (co_IDs ob) = 0 \<or> length (co_IDs ob) > maxCVEIdentifiers then Inl CVECount
          else rbind (cve_ids_ok u [] (co_IDs ob)) (\<lambda>_.
            if \<not> is_ok (NormalizeCVESeverity u (co_Severity ob)) \<or> co_Severity ob \<noteq> to_lower u (co_Severity ob)
            then Inl SeverityNotCanonical else Inr ()))"

fun collect_cves :: "unicode_case \<Rightarrow> string list \<Rightarrow> string list \<Rightarrow> (cve_error, string list) result" where
  "collect_cves u canonical [] = Inr canonical"
| "collect_cves u canonical (x # xs) =
     rbind (NormalizeCVEIdentifier u x) (\<lambda>v.
       if List.member canonical v then Inl (CVEDuplicated v)
       else collect_cves u (canonical @ [v]) xs)"

definition CanonicalCVEObservation ::
  "unicode_case \<Rightarrow> string \<Rightarrow> string list \<Rightarrow> string \<Rightarrow> (cve_error, CVEObservation) result" where
  "CanonicalCVEObservation u img identifiers severity =
     (case ValidateImageDigest img of
        Inl e \<Rightarrow> Inl (CVEImage e)
      | Inr _ \<Rightarrow>
          if length identifiers = 0 \<or> length identifiers > maxCVEIdentifiers then Inl CVECount
          else rbind (collect_cves u [] identifiers) (\<lambda>canonical.
            rbind (NormalizeCVESeverity u severity) (\<lambda>sev.
              Inr \<lparr>co_Image = img, co_IDs = sort canonical, co_Severity = sev\<rparr>)))"

subsection \<open>Facts\<close>

lemma strip_left_id: "s = [] \<or> hd s \<notin> hd ` set encs \<Longrightarrow> [] \<notin> set encs \<Longrightarrow> strip_left encs s = s"
proof -
  assume s: "s = [] \<or> hd s \<notin> hd ` set encs" and ne: "[] \<notin> set encs"
  have "leading_space encs s = 0" if "s \<noteq> []"
  proof -
    have "\<not> has_prefix s e" if "e \<in> set encs" for e
    proof
      assume "has_prefix s e"
      then have "take (length e) s = e" by (simp add: has_prefix_def)
      with ne that have "hd e = hd s" by (metis hd_take length_greater_0_conv)
      with s \<open>s \<noteq> []\<close> that show False by (metis image_eqI)
    qed
    then have "find (has_prefix s) encs = None" by (simp add: find_None_iff)
    then show ?thesis by (simp add: leading_space_def)
  qed
  then show ?thesis by (subst strip_left.simps) (auto simp: Let_def)
qed

lemma space_heads:
  "[] \<notin> set space_encodings" "[] \<notin> set (map rev space_encodings)"
  "c \<in> hd ` set space_encodings \<Longrightarrow> byte_of c < 33 \<or> 127 < byte_of c"
  "c \<in> hd ` set (map rev space_encodings) \<Longrightarrow> byte_of c < 33 \<or> 127 < byte_of c"
proof -
  have all: "list_all (\<lambda>e. e \<noteq> [] \<and> (byte_of (hd e) < 33 \<or> 127 < byte_of (hd e)) \<and>
      (byte_of (last e) < 33 \<or> 127 < byte_of (last e))) space_encodings"
    by code_simp
  then show "[] \<notin> set space_encodings" "[] \<notin> set (map rev space_encodings)"
    by (auto simp: list_all_iff)
  show "c \<in> hd ` set space_encodings \<Longrightarrow> byte_of c < 33 \<or> 127 < byte_of c"
    "c \<in> hd ` set (map rev space_encodings) \<Longrightarrow> byte_of c < 33 \<or> 127 < byte_of c"
    using all by (auto simp: list_all_iff hd_rev)
qed

text \<open>Text that starts and ends with a printable ASCII character is its own trimming.\<close>

lemma trim_space_visible:
  assumes "s \<noteq> []" and "33 \<le> byte_of (hd s)" "byte_of (hd s) < 128"
    and "33 \<le> byte_of (last s)" "byte_of (last s) < 128"
  shows "trim_space s = s"
proof -
  have "hd s \<notin> hd ` set space_encodings" using space_heads(3) [of "hd s"] assms(2,3) by auto
  then have l: "strip_left space_encodings s = s" by (simp add: strip_left_id space_heads(1))
  have "hd (rev s) \<notin> hd ` set (map rev space_encodings)"
    using space_heads(4) [of "last s"] assms(4,5) by (auto simp: hd_rev)
  then have "strip_left (map rev space_encodings) (rev s) = rev s"
    using space_heads(2) by (simp add: strip_left_id)
  with l show ?thesis by (simp add: trim_space_def)
qed

lemma decode_rune_nonascii:
  assumes "128 \<le> byte_of c"
  shows "128 \<le> fst (decode_rune c cs)"
proof -
  have d2: "128 \<le> fst (decode2 b cs)" if "194 \<le> b" for b
    using that by (auto simp: decode2_def rune_error_def split: list.splits)
  have d3: "128 \<le> fst (decode3 b cs)" if "224 \<le> b" for b
  proof (cases "b = 224")
    case True
    then show ?thesis by (auto simp: decode3_def rune_error_def second3_def in_range_def split: list.splits)
  next
    case False
    with that have "1 \<le> b - 224" by simp
    then show ?thesis by (auto simp: decode3_def rune_error_def split: list.splits)
  qed
  have d4: "128 \<le> fst (decode4 b cs)" if "240 \<le> b" for b
  proof (cases "b = 240")
    case True
    then show ?thesis by (auto simp: decode4_def rune_error_def second4_def in_range_def split: list.splits)
  next
    case False
    with that have "1 \<le> b - 240" by simp
    then show ?thesis by (auto simp: decode4_def rune_error_def split: list.splits)
  qed
  show ?thesis using assms d2 d3 d4 by (auto simp: decode_rune_def Let_def rune_error_def)
qed

lemma range_digits:
  assumes "\<not> list_ex (\<lambda>(r, w). \<not> digit_rune r) (range_runes s)"
  shows "list_all is_digit s"
  using assms
proof (induction s rule: range_runes.induct)
  case 1
  then show ?case by simp
next
  case (2 c cs)
  let ?r = "decode_rune c cs"
  have dig: "digit_rune (fst ?r)" using "2.prems" by (simp add: Let_def case_prod_unfold)
  then have "byte_of c < 128"
    using decode_rune_nonascii [of c cs] by (force simp: digit_rune_def)
  then have r: "?r = (byte_of c, 1)" by (rule decode_rune_ascii)
  have "\<not> list_ex (\<lambda>(r, w). \<not> digit_rune r) (range_runes cs)"
    using "2.prems" by (simp add: Let_def r)
  then have "list_all is_digit cs" using "2.IH" [of ?r] by (simp add: r)
  moreover have "is_digit c" using dig by (simp add: r is_digit_def in_range_def digit_rune_def)
  ultimately show ?case by simp
qed

lemma digit_facts:
  assumes "is_digit c"
  shows "byte_of c < 128" "upper_char c = c" "digit_rune (byte_of c)" "33 \<le> byte_of c"
  using assms by (auto simp: is_digit_def in_range_def upper_char_def digit_rune_def)

lemma digits_text:
  assumes "list_all is_digit s"
  shows "is_ascii s" "map upper_char s = s" "\<not> list_ex (\<lambda>(r, w). \<not> digit_rune r) (range_runes s)"
proof -
  show a: "is_ascii s" using assms digit_facts(1) by (simp add: is_ascii_def list_all_iff)
  show "map upper_char s = s" using assms digit_facts(2) by (simp add: list_all_iff map_idI)
  have "range_runes s = map (\<lambda>c. (byte_of c, 1)) s"
    using a by (induction s) (simp_all add: is_ascii_def decode_rune_ascii)
  then show "\<not> list_ex (\<lambda>(r, w). \<not> digit_rune r) (range_runes s)"
    using assms digit_facts(3) by (auto simp: list_ex_iff list_all_iff)
qed

definition cve_shape :: "string \<Rightarrow> bool" where
  "cve_shape v \<longleftrightarrow> (\<exists>y s. v = ''CVE-'' @ y @ ''-'' @ s \<and> length y = 4 \<and> 4 \<le> length s \<and>
     list_all is_digit y \<and> list_all is_digit s)"

lemma NormalizeCVEIdentifier_shape:
  assumes "NormalizeCVEIdentifier u raw = Inr v"
  shows "cve_shape v"
proof -
  have v: "\<not> length v < length ''CVE-0000-0000''" "has_prefix v ''CVE-''" "v ! 8 = CHR ''-''"
    "\<not> list_ex (\<lambda>(r, w). \<not> digit_rune r) (range_runes (take 4 (drop 4 v)))"
    "\<not> list_ex (\<lambda>(r, w). \<not> digit_rune r) (range_runes (drop 9 v))"
    using assms by (auto simp: NormalizeCVEIdentifier_def Let_def split: if_splits)
  have len: "13 \<le> length v" using v(1) by simp
  have four: "length ''CVE-'' = (4 :: nat)" by simp
  have p: "take 4 v = ''CVE-''" using v(2) unfolding has_prefix_def four .
  have s1: "take 4 v @ drop 4 v = v" by (rule append_take_drop_id)
  have s2: "take 4 (drop 4 v) @ drop 8 v = drop 4 v" using append_take_drop_id [of 4 "drop 4 v"] by simp
  have s3: "CHR ''-'' # drop 9 v = drop 8 v" using Cons_nth_drop_Suc [of 8 v] v(3) len by simp
  have eq: "v = ''CVE-'' @ take 4 (drop 4 v) @ ''-'' @ drop 9 v"
  proof -
    have "v = ''CVE-'' @ drop 4 v" by (rule sym, rule s1 [unfolded p])
    also have "drop 4 v = take 4 (drop 4 v) @ drop 8 v" by (rule s2 [symmetric])
    also have "drop 8 v = ''-'' @ drop 9 v" unfolding s3 [symmetric] append_Cons append_Nil by (rule refl)
    finally show ?thesis .
  qed
  have "length (take 4 (drop 4 v)) = 4" "4 \<le> length (drop 9 v)" using len by simp_all
  with eq range_digits [OF v(4)] range_digits [OF v(5)] show ?thesis unfolding cve_shape_def by blast
qed

lemma cve_shape_ascii:
  assumes "cve_shape v"
  shows "is_ascii v" "map upper_char v = v" "trim_space v = v"
proof -
  obtain y s where v: "v = ''CVE-'' @ y @ ''-'' @ s" "length y = 4" "4 \<le> length s"
    "list_all is_digit y" "list_all is_digit s"
    using assms by (auto simp: cve_shape_def)
  have lit: "is_ascii ''CVE-''" "is_ascii ''-''" "map upper_char ''CVE-'' = ''CVE-''" "map upper_char ''-'' = ''-''"
    by code_simp+
  have app: "is_ascii (xs @ ys) \<longleftrightarrow> is_ascii xs \<and> is_ascii ys" for xs ys
    by (simp add: is_ascii_def)
  show "is_ascii v" unfolding v(1) app using lit digits_text(1) v(4,5) by blast
  show "map upper_char v = v" unfolding v(1) map_append by (simp only: lit digits_text(2) v(4,5))
  have "s \<noteq> []" using v(3) by auto
  then have s: "s \<noteq> []" "last s \<in> set s" by simp_all
  have "is_digit (last s)" using v(5) s(2) by (simp add: list_all_iff)
  then have "33 \<le> byte_of (last v)" "byte_of (last v) < 128"
    using s(1) digit_facts(1,4) by (simp_all add: v(1))
  moreover have "33 \<le> byte_of (hd v)" "byte_of (hd v) < 128" "v \<noteq> []"
    by (simp_all add: v(1) byte_of_def)
  ultimately show "trim_space v = v" by (intro trim_space_visible) simp_all
qed

lemma NormalizeCVEIdentifier_idem:
  assumes "cve_shape v"
  shows "NormalizeCVEIdentifier u v = Inr v"
proof -
  obtain y s where v: "v = ''CVE-'' @ y @ ''-'' @ s" "length y = 4" "4 \<le> length s"
    "list_all is_digit y" "list_all is_digit s"
    using assms by (auto simp: cve_shape_def)
  note a = cve_shape_ascii [OF assms]
  have up: "to_upper u v = v" using a(1,2) by (simp add: to_upper_def)
  have parts: "take 4 (drop 4 v) = y" "drop 9 v = s" "v ! 8 = CHR ''-''" "has_prefix v ''CVE-''" "13 \<le> length v"
    using v(2,3) by (simp_all add: v(1) numeral_eq_Suc has_prefix_def nth_append)
  show ?thesis
    unfolding NormalizeCVEIdentifier_def Let_def up
    using a(3) parts digits_text(3) [OF v(4)] digits_text(3) [OF v(5)] by simp
qed

lemma collect_cves_Inr:
  "collect_cves u acc xs = Inr out \<Longrightarrow> distinct acc \<Longrightarrow> \<forall>v \<in> set acc. cve_shape v \<Longrightarrow>
     distinct out \<and> (\<forall>v \<in> set out. cve_shape v) \<and> length out = length acc + length xs"
proof (induction u acc xs rule: collect_cves.induct)
  case (2 u acc x xs)
  then obtain v where v: "NormalizeCVEIdentifier u x = Inr v" "v \<notin> set acc"
    "collect_cves u (acc @ [v]) xs = Inr out"
    by (auto simp: rbind_eq_Inr split: if_splits)
  with "2.IH" [of v] "2.prems" NormalizeCVEIdentifier_shape [OF v(1)] show ?case by auto
qed simp

lemma cve_ids_ok_sorted:
  assumes "sorted xs" "distinct xs" "\<forall>v \<in> set xs. cve_shape v" "previous = [] \<or> (\<forall>v \<in> set xs. previous < v)"
  shows "cve_ids_ok u previous xs = Inr ()"
  using assms
proof (induction u previous xs rule: cve_ids_ok.induct)
  case (2 u previous x xs)
  have prev: "\<not> (previous \<noteq> [] \<and> x \<le> previous)" using "2.prems"(4) by auto
  have canon: "\<not> NormalizeCVEIdentifier u x \<noteq> Inr x" using "2.prems"(3) NormalizeCVEIdentifier_idem by simp
  have "\<forall>v \<in> set xs. x < v" using "2.prems"(1,2) by (force simp: less_le)
  then have "cve_ids_ok u x xs = Inr ()" using "2.IH" [OF canon prev] "2.prems"(1-3) by simp
  with prev show ?case using "2.prems"(3) NormalizeCVEIdentifier_idem by auto
qed simp

lemma severity_canonical:
  assumes "NormalizeCVESeverity u raw = Inr sev"
  shows "is_ok (NormalizeCVESeverity u sev)" "to_lower u sev = sev"
proof -
  have mem: "sev \<in> set [''critical'', ''high'', ''medium'', ''low'', ''unknown'']"
    using assms by (auto simp: NormalizeCVESeverity_def Let_def split: if_splits)
  have all: "list_all (\<lambda>s. is_ascii s \<and> map lower_char s = s \<and> trim_space s = s \<and>
      map upper_char s \<in> set [''CRITICAL'', ''HIGH'', ''MEDIUM'', ''LOW'', ''UNKNOWN''])
    [''critical'', ''high'', ''medium'', ''low'', ''unknown'']"
    by code_simp
  have s: "is_ascii sev" "map lower_char sev = sev" "trim_space sev = sev"
    "map upper_char sev \<in> set [''CRITICAL'', ''HIGH'', ''MEDIUM'', ''LOW'', ''UNKNOWN'']"
    using all [unfolded list_all_iff, rule_format, OF mem] by blast+
  show "to_lower u sev = sev" using s(1,2) by (simp add: to_lower_def)
  have up: "to_upper u sev = map upper_char sev" using s(1) by (simp add: to_upper_def)
  show "is_ok (NormalizeCVESeverity u sev)"
    using s(3,4) unfolding NormalizeCVESeverity_def Let_def up by auto
qed

subsection \<open>Properties\<close>

text \<open>
  What the canonicaliser builds from untrusted scanner output is always accepted by
  the validator that guards the fleet: the image is a digest, the identifiers are canonical,
  sorted and unique, none is lost, and the severity is one of the fixed lower-case values.
\<close>
theorem CanonicalCVE_validates:
  assumes "CanonicalCVEObservation u img ids severity = Inr ob"
  shows "ValidateCVEObservation u ob = Inr () \<and> co_Image ob = img \<and>
    length (co_IDs ob) = length ids \<and> sorted (co_IDs ob) \<and> distinct (co_IDs ob)"
proof -
  obtain cs sev where cs: "collect_cves u [] ids = Inr cs" and sev: "NormalizeCVESeverity u severity = Inr sev"
    and img: "ValidateImageDigest img = Inr ()" and n: "ids \<noteq> []" "length ids \<le> maxCVEIdentifiers"
    and ob: "ob = \<lparr>co_Image = img, co_IDs = sort cs, co_Severity = sev\<rparr>"
    using assms by (auto simp: CanonicalCVEObservation_def rbind_eq_Inr split: sum.splits if_splits)
  have c: "distinct cs" "\<forall>v \<in> set cs. cve_shape v" "length cs = length ids"
    using collect_cves_Inr [OF cs] by simp_all
  have "cve_ids_ok u [] (sort cs) = Inr ()"
    by (rule cve_ids_ok_sorted) (use c in simp_all)
  then show ?thesis
    using severity_canonical [OF sev] img n c by (simp add: ob ValidateCVEObservation_def)
qed

theorem CanonicalCVE_validates_witness:
  "\<exists>ob. CanonicalCVEObservation ascii_case (''sha256:'' @ replicate 64 CHR ''a'')
       [''cve-2024-10002'', ''CVE-2021-0001''] ''HIGH'' = Inr ob \<and>
     ValidateCVEObservation ascii_case ob = Inr () \<and> length (co_IDs ob) = 2"
proof -
  have "is_ok (CanonicalCVEObservation ascii_case (''sha256:'' @ replicate 64 CHR ''a'')
       [''cve-2024-10002'', ''CVE-2021-0001''] ''HIGH'')"
    by code_simp
  then obtain ob where ob: "CanonicalCVEObservation ascii_case (''sha256:'' @ replicate 64 CHR ''a'')
       [''cve-2024-10002'', ''CVE-2021-0001''] ''HIGH'' = Inr ob"
    by (auto simp: is_ok_iff)
  from CanonicalCVE_validates [OF ob] ob show ?thesis by auto
qed

end
