(* ===== verification/Go_Text.thy ===== *)
theory Go_Text
  imports Go_Strings
begin

text \<open>
  Further pieces of Go's standard library: \<open>strings.Fields\<close>, \<open>strings.Replacer\<close>,
  \<open>strings.Trim\<close>, \<open>strconv.ParseInt\<close> in base 10 for 64 bits, \<open>path.Match\<close> and the text of a
  duration that is a whole number of seconds. They follow the library's algorithms step by
  step, so that malformed patterns and partial matches behave as they do in Go.
\<close>

subsection \<open>Fields and trimming\<close>

text \<open>Splitting around runs of white space; \<open>cur\<close> is the current field in reverse.\<close>

function fields_aux :: "string \<Rightarrow> string \<Rightarrow> string list" where
  "fields_aux cur s =
     (if s = [] then (if cur = [] then [] else [rev cur])
      else let n = leading_space space_encodings s in
        if n = 0 then
          (let w = snd (decode_rune (hd s) (tl s)) in
           fields_aux (rev (take (max 1 w) s) @ cur) (drop (max 1 w) s))
        else (if cur = [] then fields_aux [] (drop n s) else rev cur # fields_aux [] (drop n s)))"
  by auto
termination
  by (relation "measure (\<lambda>(cur, s). length s)") auto

declare fields_aux.simps [simp del]

definition str_fields :: "string \<Rightarrow> string list" where
  "str_fields s = fields_aux [] s"

text \<open>\<open>strings.Trim\<close> with an ASCII cut set.\<close>

definition trim_chars :: "string \<Rightarrow> string \<Rightarrow> string" where
  "trim_chars s chars =
     (let p = (\<lambda>c. c \<in> set chars) in rev (dropWhile p (rev (dropWhile p s))))"

text \<open>The suffix that starts at the last occurrence of a substring (\<open>strings.LastIndex\<close>).\<close>

fun last_from :: "string \<Rightarrow> string \<Rightarrow> string option" where
  "last_from sub [] = None"
| "last_from sub (c # cs) =
     (case last_from sub cs of
        Some t \<Rightarrow> Some t
      | None \<Rightarrow> if has_prefix (c # cs) sub then Some (c # cs) else None)"

subsection \<open>Integers\<close>

definition digits_value :: "string \<Rightarrow> int" where
  "digits_value s = foldl (\<lambda>acc c. acc * 10 + (int (byte_of c) - 48)) 0 s"

text \<open>\<open>strconv.ParseInt(s, 10, 64)\<close>: an optional sign, digits only, in range.\<close>

definition parse_int64 :: "string \<Rightarrow> int option" where
  "parse_int64 s =
     (let (neg, body) = (case s of
            [] \<Rightarrow> (False, [])
          | c # cs \<Rightarrow> if c = CHR ''-'' then (True, cs) else if c = CHR ''+'' then (False, cs) else (False, s))
      in if body = [] \<or> \<not> list_all is_digit body then None
         else let n = digits_value body in
           if neg then (if n \<le> 2 ^ 63 then Some (- n) else None)
           else (if n < 2 ^ 63 then Some n else None))"

text \<open>
  The value \<open>ParseInt\<close> returns when its error is ignored: 0 on a syntax error, the nearest
  representable number on a range error.
\<close>

definition parse_int64_value :: "string \<Rightarrow> int" where
  "parse_int64_value s =
     (case parse_int64 s of
        Some n \<Rightarrow> n
      | None \<Rightarrow>
          (case s of
             [] \<Rightarrow> 0
           | c # cs \<Rightarrow>
               let body = (if c = CHR ''-'' \<or> c = CHR ''+'' then cs else s) in
               if body = [] \<or> \<not> list_all is_digit body then 0
               else if c = CHR ''-'' then - (2 ^ 63) else 2 ^ 63 - 1))"

subsection \<open>Durations\<close>

text \<open>\<open>Duration.Round(time.Second)\<close>: to the nearest second, halves away from zero.\<close>

definition round_second :: "int \<Rightarrow> int" where
  "round_second d =
     (let m = 1000000000; r = \<bar>d\<bar> mod m; a = (if r + r < m then \<bar>d\<bar> - r else \<bar>d\<bar> + m - r)
      in if d < 0 then - a else a)"

text \<open>\<open>Duration.String\<close> of a whole number of seconds.\<close>

definition seconds_string :: "int \<Rightarrow> string" where
  "seconds_string d =
     (let s = nat (\<bar>d\<bar> div 1000000000); h = s div 3600; m = s div 60 mod 60; sec = s mod 60;
          text = (if h > 0 then nat_decimal h @ ''h'' @ nat_decimal m @ ''m''
                  else if m > 0 then nat_decimal m @ ''m'' else []) @ nat_decimal sec @ ''s''
      in if d < 0 then CHR ''-'' # text else text)"

subsection \<open>Shell patterns\<close>

text \<open>The end of the next chunk: up to a star outside brackets, escapes skipped.\<close>

fun chunk_length :: "bool \<Rightarrow> string \<Rightarrow> nat" where
  "chunk_length inrange [] = 0"
| "chunk_length inrange (c # cs) =
     (if c = CHR 0x5C then (case cs of [] \<Rightarrow> 1 | _ # cs' \<Rightarrow> 2 + chunk_length inrange cs')
      else if c = CHR ''['' then Suc (chunk_length True cs)
      else if c = CHR '']'' then Suc (chunk_length False cs)
      else if c = CHR ''*'' \<and> \<not> inrange then 0
      else Suc (chunk_length inrange cs))"

definition scanChunk :: "string \<Rightarrow> bool \<times> string \<times> string" where
  "scanChunk pattern =
     (let star = (case pattern of c # _ \<Rightarrow> c = CHR ''*'' | [] \<Rightarrow> False);
          p = dropWhile (\<lambda>c. c = CHR ''*'') pattern;
          n = chunk_length False p
      in (star, take n p, drop n p))"

definition decode_first :: "string \<Rightarrow> nat \<times> nat" where
  "decode_first s = (case s of [] \<Rightarrow> (rune_error, 0) | c # cs \<Rightarrow> decode_rune c cs)"

text \<open>A possibly escaped character of a class; None is a bad pattern.\<close>

definition getEsc :: "string \<Rightarrow> (nat \<times> string) option" where
  "getEsc chunk =
     (if chunk = [] \<or> hd chunk = CHR ''-'' \<or> hd chunk = CHR '']'' then None
      else let chunk = (if hd chunk = CHR 0x5C then tl chunk else chunk) in
        if chunk = [] then None
        else let (r, n) = decode_first chunk; rest = drop n chunk in
          if (r = rune_error \<and> n = 1) \<or> rest = [] then None else Some (r, rest))"

text \<open>The ranges of a class; \<open>fuel\<close> is the length of the chunk, and every range consumes at least one byte.\<close>

fun match_class :: "nat \<Rightarrow> nat \<Rightarrow> bool \<Rightarrow> bool \<Rightarrow> string \<Rightarrow> (bool \<times> string) option" where
  "match_class 0 r seen match chunk = None"
| "match_class (Suc fuel) r seen match chunk =
     (if chunk \<noteq> [] \<and> hd chunk = CHR '']'' \<and> seen then Some (match, tl chunk)
      else case getEsc chunk of
        None \<Rightarrow> None
      | Some (lo, rest) \<Rightarrow>
          (if hd rest = CHR ''-'' then
             (case getEsc (tl rest) of
                None \<Rightarrow> None
              | Some (hi, rest') \<Rightarrow> match_class fuel r True (match \<or> (lo \<le> r \<and> r \<le> hi)) rest')
           else match_class fuel r True (match \<or> (lo \<le> r \<and> r \<le> lo)) rest))"

text \<open>
  One chunk against the start of \<open>s\<close>. None is a bad pattern, \<open>Some None\<close> no match,
  \<open>Some (Some rest)\<close> a match with the rest. As in Go, matching goes on after a mismatch so that
  a malformed remainder is still reported. The fuel is the length of the chunk plus one.
\<close>

fun matchChunk_aux :: "nat \<Rightarrow> bool \<Rightarrow> string \<Rightarrow> string \<Rightarrow> string option option" where
  "matchChunk_aux 0 failed chunk s = None"
| "matchChunk_aux (Suc fuel) failed chunk s =
     (case chunk of
        [] \<Rightarrow> if failed then Some None else Some (Some s)
      | c # cs \<Rightarrow>
          let failed = (failed \<or> s = []) in
          if c = CHR ''['' then
            (let (r, n) = (if failed then (0, 0) else decode_first s);
                 s = drop n s;
                 negated = (case cs of d # _ \<Rightarrow> d = CHR ''^'' | [] \<Rightarrow> False);
                 body = (if negated then tl cs else cs)
             in case match_class (Suc (length body)) r False False body of
                  None \<Rightarrow> None
                | Some (match, rest) \<Rightarrow> matchChunk_aux fuel (failed \<or> match = negated) rest s)
          else if c = CHR ''?'' then
            (if failed then matchChunk_aux fuel True cs s
             else matchChunk_aux fuel (hd s = CHR ''/'') cs (drop (snd (decode_first s)) s))
          else if c = CHR 0x5C then
            (case cs of
               [] \<Rightarrow> None
             | d # ds \<Rightarrow> if failed then matchChunk_aux fuel True ds s
                       else matchChunk_aux fuel (d \<noteq> hd s) ds (tl s))
          else (if failed then matchChunk_aux fuel True cs s
                else matchChunk_aux fuel (c \<noteq> hd s) cs (tl s)))"

definition matchChunk :: "string \<Rightarrow> string \<Rightarrow> string option option" where
  "matchChunk chunk s = matchChunk_aux (Suc (length chunk)) False chunk s"

text \<open>After a star: try the chunk at each later position, not crossing a slash.\<close>

fun star_search :: "string \<Rightarrow> bool \<Rightarrow> string \<Rightarrow> string option option" where
  "star_search chunk final [] = Some None"
| "star_search chunk final (c # cs) =
     (if c = CHR ''/'' then Some None
      else case matchChunk chunk cs of
        None \<Rightarrow> None
      | Some (Some t) \<Rightarrow> if final \<and> t \<noteq> [] then star_search chunk final cs else Some (Some t)
      | Some None \<Rightarrow> star_search chunk final cs)"

text \<open>The rest of a failed pattern is still checked for syntax; False is a bad pattern.\<close>

fun pattern_ok :: "nat \<Rightarrow> string \<Rightarrow> bool" where
  "pattern_ok 0 pattern = True"
| "pattern_ok (Suc fuel) pattern =
     (if pattern = [] then True
      else case scanChunk pattern of
        (_, chunk, rest) \<Rightarrow> matchChunk chunk [] \<noteq> None \<and> pattern_ok fuel rest)"

text \<open>\<open>path.Match\<close>: None is \<open>ErrBadPattern\<close>. Every round consumes pattern, so its length bounds the rounds.\<close>

fun path_match_aux :: "nat \<Rightarrow> string \<Rightarrow> string \<Rightarrow> bool option" where
  "path_match_aux 0 pattern name = Some (name = [])"
| "path_match_aux (Suc fuel) pattern name =
     (if pattern = [] then Some (name = [])
      else case scanChunk pattern of
        (star, chunk, rest) \<Rightarrow>
          if star \<and> chunk = [] then Some (CHR ''/'' \<notin> set name)
          else case matchChunk chunk name of
            None \<Rightarrow> None
          | Some first \<Rightarrow>
              (case (case first of Some t \<Rightarrow> if t = [] \<or> rest \<noteq> [] then Some t else None | None \<Rightarrow> None) of
                 Some t \<Rightarrow> path_match_aux fuel rest t
               | None \<Rightarrow>
                   (case (if star then star_search chunk (rest = []) name else Some None) of
                      None \<Rightarrow> None
                    | Some (Some t) \<Rightarrow> path_match_aux fuel rest t
                    | Some None \<Rightarrow> if pattern_ok (length rest) rest then Some False else None)))"

definition path_match :: "string \<Rightarrow> string \<Rightarrow> bool option" where
  "path_match pattern name = path_match_aux (Suc (length pattern)) pattern name"

subsection \<open>Replacing\<close>

text \<open>\<open>strings.Replacer\<close>: at each position the first old string in argument order that matches is replaced.\<close>

function replacer :: "(string \<times> string) list \<Rightarrow> string \<Rightarrow> string" where
  "replacer pairs [] = []"
| "replacer pairs (c # cs) =
     (case find (\<lambda>(old, new). has_prefix (c # cs) old) pairs of
        Some (old, new) \<Rightarrow> new @ replacer pairs (drop (length old - 1) cs)
      | None \<Rightarrow> c # replacer pairs cs)"
  by pat_completeness auto
termination
  by (relation "measure (\<lambda>(pairs, s). length s)") auto

end
