(* ===== verification/Cache_Record.thy ===== *)
theory Cache_Record
  imports Fleet_CVE Go_Text
begin

text \<open>
  Render-ready projections of facts (\<open>internal/fleetcache/record.go\<close>). The decoded object is a
  Go \<open>any\<close> value; JSON decoding and the Kubernetes \<open>unstructured\<close> accessors are the parameter
  \<open>api\<close>. A float is carried as the integer Go's conversion to 64 bits gives.
\<close>

subsection \<open>Decoded objects\<close>

datatype go_any =
    GNil
  | GBool bool
  | GInt int
  | GFloat int
  | GJsonNumber string
  | GStr string
  | GMap "(string \<times> go_any) list"
  | GList "go_any list"

type_synonym go_object = "(string \<times> go_any) list"

text \<open>
  What the code takes from other packages: decoding into an object and into a vulnerability
  observation, the accessors (with the zero value when the field is missing or of another
  type), labels and creation time.
\<close>

record object_api =
  api_decode :: "string \<Rightarrow> go_object option"
  api_decodeCVE :: "string \<Rightarrow> CVEObservation option"
  api_NestedString :: "go_object \<Rightarrow> string list \<Rightarrow> string"
  api_NestedSlice :: "go_object \<Rightarrow> string list \<Rightarrow> go_any list option"
  api_NestedField :: "go_object \<Rightarrow> string list \<Rightarrow> go_any option"
  api_Labels :: "go_object \<Rightarrow> (string, string) gomap"
  api_Created :: "go_object \<Rightarrow> Time"

definition nested_slice :: "object_api \<Rightarrow> go_object \<Rightarrow> string list \<Rightarrow> go_any list" where
  "nested_slice api ob path = (case api_NestedSlice api ob path of None \<Rightarrow> [] | Some xs \<Rightarrow> xs)"

subsection \<open>Records\<close>

record Record =
  rc_Fact :: Fact
  rc_Workspace :: string
  rc_Kind :: string
  rc_Cluster :: string
  rc_Namespace :: string
  rc_Name :: string
  rc_Ready :: string
  rc_Status :: string
  rc_Reason :: string
  rc_Reasons :: "string list"
  rc_Message :: string
  rc_Node :: string
  rc_Version :: string
  rc_Restarts :: int
  rc_Images :: "string list"
  rc_ImageDigests :: "string list"
  rc_ImageRepoDigests :: "string list"
  rc_CVEs :: "string list"
  rc_Conditions :: "string list"
  rc_Labels :: "(string, string) gomap"
  rc_Display :: "DisplayField list"
  rc_CreatedAt :: Time
  rc_ObservedAt :: Time
  rc_Stale :: bool
  rc_StaleFor :: int

datatype record_error =
    DecodeFailed string
  | CVEObservationFailed string
  | CVEObservationIncomplete string
  | CVEIdentifierInvalid string string

definition canonicalKind :: "unicode_case \<Rightarrow> string \<Rightarrow> string" where
  "canonicalKind u kind =
     (let trimmed = trim_space kind; lower = to_lower u trimmed in
      if lower \<in> {''pod'', ''pods'', ''po''} then ''Pod''
      else if lower \<in> {''deployment'', ''deployments'', ''deploy''} then ''Deployment''
      else if lower \<in> {''event'', ''events'', ''ev''} then ''Event''
      else if lower \<in> {''node'', ''nodes'', ''no''} then ''Node''
      else if trimmed = [] then []
      else to_upper u (take 1 trimmed) @ drop 1 trimmed)"

definition go_isTrue :: "go_any \<Rightarrow> bool" where
  "go_isTrue v = (case v of GBool b \<Rightarrow> b | _ \<Rightarrow> False)"

definition go_number :: "go_any \<Rightarrow> int" where
  "go_number v =
     (case v of GInt n \<Rightarrow> n | GFloat n \<Rightarrow> n | GJsonNumber s \<Rightarrow> parse_int64_value s
      | GStr s \<Rightarrow> parse_int64_value s | _ \<Rightarrow> 0)"

fun nestedString_value :: "go_any \<Rightarrow> string list \<Rightarrow> string" where
  "nestedString_value v [] = (case v of GStr s \<Rightarrow> s | _ \<Rightarrow> [])"
| "nestedString_value v (f # fs) =
     (case v of GMap m \<Rightarrow> nestedString_value (gm_get GNil m f) fs | _ \<Rightarrow> [])"

definition nestedString :: "go_object \<Rightarrow> string list \<Rightarrow> string" where
  "nestedString ob names = nestedString_value (GMap ob) names"

definition nestedNumber :: "object_api \<Rightarrow> go_object \<Rightarrow> string list \<Rightarrow> int" where
  "nestedNumber api ob names =
     (case api_NestedField api ob names of None \<Rightarrow> 0 | Some v \<Rightarrow> go_number v)"

definition appendUnique :: "string list \<Rightarrow> string \<Rightarrow> string list" where
  "appendUnique values v = (if List.member values v then values else values @ [v])"

definition imageDigest :: "string \<Rightarrow> string" where
  "imageDigest imageID = (case last_from ''sha256:'' imageID of Some t \<Rightarrow> t | None \<Rightarrow> [])"

definition imageRepoDigest :: "string \<Rightarrow> string" where
  "imageRepoDigest imageID =
     (let stripped =
        (case find (has_prefix imageID) [''docker-pullable://'', ''containerd://'', ''cri-o://'', ''docker://''] of
           Some prefix \<Rightarrow> trim_prefix imageID prefix
         | None \<Rightarrow> imageID)
      in if is_ok (ImageDigestFromRepoDigest stripped) then stripped else [])"

definition objectImages :: "object_api \<Rightarrow> go_object \<Rightarrow> string list" where
  "objectImages api ob =
     sorted_set
       (concat (map (\<lambda>path. concat (map (\<lambda>raw.
           case raw of
             GMap container \<Rightarrow>
               (case gm_get GNil container ''image'' of
                  GStr img \<Rightarrow> if img \<noteq> [] then [img] else []
                | _ \<Rightarrow> [])
           | _ \<Rightarrow> []) (nested_slice api ob path)))
         [[''spec'', ''containers''], [''spec'', ''initContainers''],
          [''spec'', ''template'', ''spec'', ''containers''],
          [''spec'', ''template'', ''spec'', ''initContainers'']]))"

subsection \<open>Kind-specific projections\<close>

definition add_digest :: "string \<Rightarrow> Record \<Rightarrow> Record" where
  "add_digest digest r =
     (if digest \<noteq> [] then r\<lparr>rc_ImageDigests := appendUnique (rc_ImageDigests r) digest\<rparr> else r)"

definition add_repo_digest :: "string \<Rightarrow> Record \<Rightarrow> Record" where
  "add_repo_digest repoDigest r =
     (if repoDigest \<noteq> []
      then r\<lparr>rc_ImageRepoDigests := appendUnique (rc_ImageRepoDigests r) repoDigest\<rparr> else r)"

definition add_reason :: "string \<Rightarrow> Record \<Rightarrow> Record" where
  "add_reason reason r =
     (if reason \<noteq> [] then r\<lparr>rc_Reasons := appendUnique (rc_Reasons r) reason, rc_Status := reason\<rparr> else r)"

definition add_last_reason :: "string \<Rightarrow> Record \<Rightarrow> Record" where
  "add_last_reason reason r =
     (if reason \<noteq> [] then
        (let r = r\<lparr>rc_Reasons := appendUnique (rc_Reasons r) reason\<rparr> in
         if rc_Status r = [] \<or> rc_Status r = ''Running'' then r\<lparr>rc_Status := reason\<rparr> else r)
      else r)"

text \<open>One container status of a pod; the pair is the number of ready containers and the record.\<close>

definition pod_status_step :: "go_any \<Rightarrow> nat \<times> Record \<Rightarrow> nat \<times> Record" where
  "pod_status_step value acc =
     (case value of
        GMap status \<Rightarrow>
          (if go_isTrue (gm_get GNil status ''ready'') then fst acc + 1 else fst acc,
           let r = snd acc;
               r = r\<lparr>rc_Restarts := rc_Restarts r + go_number (gm_get GNil status ''restartCount'')\<rparr>;
               r = add_digest (imageDigest (nestedString status [''imageID''])) r;
               r = add_repo_digest (imageRepoDigest (nestedString status [''imageID''])) r;
               r = add_reason (nestedString status [''state'', ''waiting'', ''reason'']) r;
               r = add_reason (nestedString status [''state'', ''terminated'', ''reason'']) r
           in add_last_reason (nestedString status [''lastState'', ''terminated'', ''reason'']) r)
      | _ \<Rightarrow> acc)"

definition normalizePod :: "object_api \<Rightarrow> go_object \<Rightarrow> Record \<Rightarrow> Record" where
  "normalizePod api ob r =
     (let r = r\<lparr>rc_Status := api_NestedString api ob [''status'', ''phase''],
                rc_Node := api_NestedString api ob [''spec'', ''nodeName'']\<rparr>;
          (ready, r) = fold pod_status_step (nested_slice api ob [''status'', ''containerStatuses'']) (0, r);
          desired = nested_slice api ob [''spec'', ''containers'']
      in r\<lparr>rc_Ready := nat_decimal ready @ ''/'' @ nat_decimal (length desired)\<rparr>)"

definition normalizeDeployment :: "object_api \<Rightarrow> go_object \<Rightarrow> Record \<Rightarrow> Record" where
  "normalizeDeployment api ob r =
     (let desired = nestedNumber api ob [''spec'', ''replicas''];
          desired = (if desired = 0 \<and> api_NestedField api ob [''spec'', ''replicas''] = None then 1 else desired);
          available = nestedNumber api ob [''status'', ''availableReplicas''];
          updated = nestedNumber api ob [''status'', ''updatedReplicas'']
      in r\<lparr>rc_Ready := int_decimal available @ ''/'' @ int_decimal desired,
           rc_Status := (if available \<ge> desired \<and> updated \<ge> desired then ''Healthy''
                         else if available > 0 \<or> updated > 0 then ''Progressing''
                         else ''Degraded'')\<rparr>)"

definition normalizeEvent :: "object_api \<Rightarrow> go_object \<Rightarrow> Record \<Rightarrow> Record" where
  "normalizeEvent api ob r =
     (let eventType = api_NestedString api ob [''type''];
          involvedKind = api_NestedString api ob [''involvedObject'', ''kind''];
          involvedName = api_NestedString api ob [''involvedObject'', ''name''];
          r = r\<lparr>rc_Reason := api_NestedString api ob [''reason''],
                rc_Message := api_NestedString api ob [''message''], rc_Status := eventType\<rparr>
      in if involvedKind \<noteq> [] \<or> involvedName \<noteq> []
         then r\<lparr>rc_Ready := trim_chars (involvedKind @ ''/'' @ involvedName) ''/''\<rparr> else r)"

definition any_string :: "go_any \<Rightarrow> string" where
  "any_string v = (case v of GStr s \<Rightarrow> s | _ \<Rightarrow> [])"

definition node_condition_step :: "go_any \<Rightarrow> Record \<Rightarrow> Record" where
  "node_condition_step value r =
     (case value of
        GMap condition \<Rightarrow>
          let conditionType = any_string (gm_get GNil condition ''type'');
              conditionStatus = any_string (gm_get GNil condition ''status'');
              r = (if conditionType \<noteq> ''Ready'' \<and> conditionStatus = ''True''
                   then r\<lparr>rc_Conditions := appendUnique (rc_Conditions r) conditionType\<rparr> else r)
          in if conditionType = ''Ready''
             then r\<lparr>rc_Status := (if conditionStatus = ''True'' then ''Ready'' else ''NotReady''),
                    rc_Reason := any_string (gm_get GNil condition ''reason'')\<rparr>
             else r
      | _ \<Rightarrow> r)"

definition normalizeNode :: "object_api \<Rightarrow> go_object \<Rightarrow> Record \<Rightarrow> Record" where
  "normalizeNode api ob r =
     (let r = fold node_condition_step (nested_slice api ob [''status'', ''conditions'']) (r\<lparr>rc_Status := ''Unknown''\<rparr>)
      in r\<lparr>rc_Conditions := sort (rc_Conditions r),
           rc_Version := api_NestedString api ob [''status'', ''nodeInfo'', ''kubeletVersion'']\<rparr>)"

subsection \<open>Normalisation\<close>

definition base_record :: "unicode_case \<Rightarrow> Fact \<Rightarrow> Record" where
  "base_record u f =
     \<lparr>rc_Fact = f, rc_Workspace = FWorkspace f, rc_Kind = canonicalKind u (RefKind (Ref f)),
      rc_Cluster = RefScope (Ref f), rc_Namespace = RefNamespace (Ref f), rc_Name = RefName (Ref f),
      rc_Ready = [], rc_Status = [], rc_Reason = [], rc_Reasons = [], rc_Message = [], rc_Node = [],
      rc_Version = [], rc_Restarts = 0, rc_Images = [], rc_ImageDigests = [], rc_ImageRepoDigests = [],
      rc_CVEs = [], rc_Conditions = [], rc_Labels = [], rc_Display = [], rc_CreatedAt = 0,
      rc_ObservedAt = ObservedAt f, rc_Stale = FStale f, rc_StaleFor = 0\<rparr>"

fun cve_identifiers :: "unicode_case \<Rightarrow> string \<Rightarrow> string list \<Rightarrow> (record_error, string list) result" where
  "cve_identifiers u ref [] = Inr []"
| "cve_identifiers u ref (x # xs) =
     (let identifier = to_upper u (trim_space x) in
      if \<not> has_prefix identifier ''CVE-'' then Inl (CVEIdentifierInvalid ref identifier)
      else rbind (cve_identifiers u ref xs) (\<lambda>rest. Inr (identifier # rest)))"

definition normalizeCVE :: "unicode_case \<Rightarrow> object_api \<Rightarrow> Fact \<Rightarrow> (record_error, Record) result" where
  "normalizeCVE u api f =
     (let ref = ResourceRef_String (Ref f) in
      case api_decodeCVE api (Observed f) of
        None \<Rightarrow> Inl (CVEObservationFailed ref)
      | Some observation \<Rightarrow>
          if trim_space (co_Image observation) = [] \<or> length (co_IDs observation) = 0
          then Inl (CVEObservationIncomplete ref)
          else rbind (cve_identifiers u ref (co_IDs observation)) (\<lambda>cves.
            Inr ((base_record u f)\<lparr>rc_Status := co_Severity observation,
                   rc_Images := [co_Image observation], rc_CVEs := sort cves\<rparr>)))"

definition normalize_kind :: "object_api \<Rightarrow> go_object \<Rightarrow> Record \<Rightarrow> Record" where
  "normalize_kind api ob r =
     (if rc_Kind r = ''Pod'' then normalizePod api ob r
      else if rc_Kind r = ''Deployment'' then normalizeDeployment api ob r
      else if rc_Kind r = ''Event'' then normalizeEvent api ob r
      else if rc_Kind r = ''Node'' then normalizeNode api ob r
      else r\<lparr>rc_Status := api_NestedString api ob [''status'', ''phase'']\<rparr>)"

definition normalize :: "unicode_case \<Rightarrow> object_api \<Rightarrow> Fact \<Rightarrow> (record_error, Record) result" where
  "normalize u api f =
     (if FKind f = FactCVE then normalizeCVE u api f
      else case api_decode api (Observed f) of
        None \<Rightarrow> Inl (DecodeFailed (ResourceRef_String (Ref f)))
      | Some ob \<Rightarrow>
          (let r = (base_record u f)\<lparr>rc_Labels := api_Labels api ob, rc_CreatedAt := api_Created api ob,
                     rc_Images := objectImages api ob, rc_Display := Display f\<rparr>
           in Inr (normalize_kind api ob r)))"

subsection \<open>Facts\<close>

text \<open>What the projections never touch, and the guarantee on repository digests.\<close>

definition record_core :: "Record \<Rightarrow> Fact \<times> string \<times> string \<times> string \<times> string \<times> string \<times> string list \<times> Time" where
  "record_core r = (rc_Fact r, rc_Workspace r, rc_Kind r, rc_Cluster r, rc_Namespace r, rc_Name r, rc_CVEs r, rc_ObservedAt r)"

definition repo_digests_ok :: "Record \<Rightarrow> bool" where
  "repo_digests_ok r \<longleftrightarrow> (\<forall>d \<in> set (rc_ImageRepoDigests r). is_ok (ImageDigestFromRepoDigest d))"

lemma set_appendUnique: "set (appendUnique xs x) = insert x (set xs)"
  by (auto simp: appendUnique_def)

lemma imageRepoDigest_ok: "imageRepoDigest s \<noteq> [] \<Longrightarrow> is_ok (ImageDigestFromRepoDigest (imageRepoDigest s))"
  by (auto simp: imageRepoDigest_def Let_def)

lemma pod_parts_core:
  "record_core (add_digest d r) = record_core r" "rc_ImageRepoDigests (add_digest d r) = rc_ImageRepoDigests r"
  "record_core (add_repo_digest d r) = record_core r"
  "record_core (add_reason s r) = record_core r" "rc_ImageRepoDigests (add_reason s r) = rc_ImageRepoDigests r"
  "record_core (add_last_reason s r) = record_core r"
  "rc_ImageRepoDigests (add_last_reason s r) = rc_ImageRepoDigests r"
  "record_core (r\<lparr>rc_Restarts := n\<rparr>) = record_core r"
  by (simp_all add: add_digest_def add_repo_digest_def add_reason_def add_last_reason_def record_core_def Let_def)

lemma pod_status_step_core:
  "record_core (snd (pod_status_step v acc)) = record_core (snd acc)"
  by (cases v) (simp_all add: pod_status_step_def Let_def pod_parts_core)

lemma pod_status_step_repo:
  assumes "repo_digests_ok (snd acc)"
  shows "repo_digests_ok (snd (pod_status_step v acc))"
proof (cases v)
  case (GMap status)
  let ?d = "imageRepoDigest (nestedString status [''imageID''])"
  have "rc_ImageRepoDigests (snd (pod_status_step v acc)) =
      (if ?d \<noteq> [] then appendUnique (rc_ImageRepoDigests (snd acc)) ?d else rc_ImageRepoDigests (snd acc))"
    by (simp add: GMap pod_status_step_def Let_def pod_parts_core add_repo_digest_def)
  with assms imageRepoDigest_ok show ?thesis by (simp add: repo_digests_ok_def set_appendUnique)
qed (use assms in \<open>simp_all add: pod_status_step_def\<close>)

lemma fold_pod_status:
  "record_core (snd (fold pod_status_step vs acc)) = record_core (snd acc)"
  "repo_digests_ok (snd acc) \<Longrightarrow> repo_digests_ok (snd (fold pod_status_step vs acc))"
  by (induction vs arbitrary: acc) (simp_all add: pod_status_step_core pod_status_step_repo)

lemma normalizePod_core:
  "record_core (normalizePod api ob r) = record_core r"
  "repo_digests_ok r \<Longrightarrow> repo_digests_ok (normalizePod api ob r)"
proof -
  let ?r = "r\<lparr>rc_Status := api_NestedString api ob [''status'', ''phase''],
              rc_Node := api_NestedString api ob [''spec'', ''nodeName'']\<rparr>"
  let ?vs = "nested_slice api ob [''status'', ''containerStatuses'']"
  have core: "record_core (snd (fold pod_status_step ?vs (0, ?r))) = record_core r"
    by (simp add: fold_pod_status) (simp add: record_core_def)
  have repo: "repo_digests_ok (snd (fold pod_status_step ?vs (0, ?r)))" if "repo_digests_ok r"
    by (rule fold_pod_status) (use that in \<open>simp add: repo_digests_ok_def\<close>)
  show "record_core (normalizePod api ob r) = record_core r"
    using core by (simp add: normalizePod_def Let_def case_prod_unfold record_core_def)
  show "repo_digests_ok r \<Longrightarrow> repo_digests_ok (normalizePod api ob r)"
    using repo by (simp add: normalizePod_def Let_def case_prod_unfold repo_digests_ok_def)
qed

lemma node_step_core:
  "record_core (node_condition_step v r) = record_core r"
  "rc_ImageRepoDigests (node_condition_step v r) = rc_ImageRepoDigests r"
  by (cases v; simp add: node_condition_step_def record_core_def Let_def)+

lemma fold_node:
  "record_core (fold node_condition_step vs r) = record_core r"
  "rc_ImageRepoDigests (fold node_condition_step vs r) = rc_ImageRepoDigests r"
  by (induction vs arbitrary: r) (simp_all add: node_step_core)

lemma normalizeNode_core:
  "record_core (normalizeNode api ob r) = record_core r"
  "rc_ImageRepoDigests (normalizeNode api ob r) = rc_ImageRepoDigests r"
proof -
  let ?r = "fold node_condition_step (nested_slice api ob [''status'', ''conditions'']) (r\<lparr>rc_Status := ''Unknown''\<rparr>)"
  have "record_core ?r = record_core r" by (simp add: fold_node) (simp add: record_core_def)
  then show "record_core (normalizeNode api ob r) = record_core r"
    by (simp add: normalizeNode_def Let_def record_core_def)
  show "rc_ImageRepoDigests (normalizeNode api ob r) = rc_ImageRepoDigests r"
    by (simp add: normalizeNode_def Let_def fold_node)
qed

lemma simple_projections_core:
  "record_core (normalizeDeployment api ob r) = record_core r"
  "rc_ImageRepoDigests (normalizeDeployment api ob r) = rc_ImageRepoDigests r"
  "record_core (normalizeEvent api ob r) = record_core r"
  "rc_ImageRepoDigests (normalizeEvent api ob r) = rc_ImageRepoDigests r"
  by (simp_all add: normalizeDeployment_def normalizeEvent_def record_core_def Let_def)

lemma normalize_kind_core:
  "record_core (normalize_kind api ob r) = record_core r"
  "repo_digests_ok r \<Longrightarrow> repo_digests_ok (normalize_kind api ob r)"
proof -
  have status: "record_core (r\<lparr>rc_Status := s\<rparr>) = record_core r" for s by (simp add: record_core_def)
  show "record_core (normalize_kind api ob r) = record_core r"
    by (simp add: normalize_kind_def normalizePod_core normalizeNode_core simple_projections_core status)
  assume ok: "repo_digests_ok r"
  have same: "repo_digests_ok r'" if "rc_ImageRepoDigests r' = rc_ImageRepoDigests r" for r'
    using ok that by (simp add: repo_digests_ok_def)
  show "repo_digests_ok (normalize_kind api ob r)"
    using normalizePod_core(2) [OF ok]
    by (simp add: normalize_kind_def same normalizeNode_core simple_projections_core)
qed

lemma cve_identifiers_Inr: "cve_identifiers u ref xs = Inr ys \<Longrightarrow> \<forall>y \<in> set ys. has_prefix y ''CVE-''"
  by (induction xs arbitrary: ys) (auto simp: Let_def rbind_eq_Inr split: if_splits)

lemma normalize_core:
  assumes "normalize u api f = Inr r"
  shows "rc_Fact r = f \<and> rc_Workspace r = FWorkspace f \<and> rc_Kind r = canonicalKind u (RefKind (Ref f)) \<and>
    rc_Cluster r = RefScope (Ref f) \<and> rc_Namespace r = RefNamespace (Ref f) \<and> rc_Name r = RefName (Ref f) \<and>
    rc_ObservedAt r = ObservedAt f \<and> repo_digests_ok r \<and> (\<forall>c \<in> set (rc_CVEs r). has_prefix c ''CVE-'')"
proof (cases "FKind f = FactCVE")
  case True
  then obtain ob where ob: "api_decodeCVE api (Observed f) = Some ob"
    using assms by (auto simp: normalize_def normalizeCVE_def Let_def split: option.splits)
  with True assms obtain cves where "cve_identifiers u (ResourceRef_String (Ref f)) (co_IDs ob) = Inr cves"
    "r = (base_record u f)\<lparr>rc_Status := co_Severity ob, rc_Images := [co_Image ob], rc_CVEs := sort cves\<rparr>"
    by (auto simp: normalize_def normalizeCVE_def Let_def rbind_eq_Inr split: if_splits)
  with cve_identifiers_Inr show ?thesis by (simp add: base_record_def repo_digests_ok_def)
next
  case False
  then obtain ob where ob: "api_decode api (Observed f) = Some ob"
    using assms by (auto simp: normalize_def split: option.splits)
  define r0 where "r0 = (base_record u f)\<lparr>rc_Labels := api_Labels api ob, rc_CreatedAt := api_Created api ob,
                     rc_Images := objectImages api ob, rc_Display := Display f\<rparr>"
  have r: "r = normalize_kind api ob r0"
    using assms False ob by (simp add: normalize_def Let_def r0_def)
  have r0: "repo_digests_ok r0" by (simp add: r0_def base_record_def repo_digests_ok_def)
  have core: "record_core r = record_core r0" and repo: "repo_digests_ok r"
    unfolding r using normalize_kind_core r0 by blast+
  from core have "rc_Fact r = f" "rc_Workspace r = FWorkspace f" "rc_Kind r = canonicalKind u (RefKind (Ref f))"
    "rc_Cluster r = RefScope (Ref f)" "rc_Namespace r = RefNamespace (Ref f)" "rc_Name r = RefName (Ref f)"
    "rc_CVEs r = []" "rc_ObservedAt r = ObservedAt f"
    by (simp_all add: record_core_def r0_def base_record_def)
  with repo show ?thesis by simp
qed

subsection \<open>Properties\<close>

text \<open>
  Normalising a fact never moves it: the record keeps the fact, its workspace,
  cluster, namespace, name and observation time, its kind is the canonical one, every
  repository digest it exposes for correlation is a complete canonical repository digest, and
  every vulnerability identifier is a CVE identifier.
\<close>
theorem normalize_keeps_identity:
  assumes "normalize u api f = Inr r"
  shows "rc_Fact r = f \<and> rc_Workspace r = FWorkspace f \<and> rc_Cluster r = RefScope (Ref f) \<and>
    rc_Namespace r = RefNamespace (Ref f) \<and> rc_Name r = RefName (Ref f) \<and>
    rc_ObservedAt r = ObservedAt f \<and> rc_Kind r = canonicalKind u (RefKind (Ref f)) \<and>
    list_all (\<lambda>d. is_ok (ImageDigestFromRepoDigest d)) (rc_ImageRepoDigests r) \<and>
    list_all (\<lambda>c. has_prefix c ''CVE-'') (rc_CVEs r)"
  using normalize_core [OF assms] by (simp add: repo_digests_ok_def list_all_iff)

definition sample_repo_digest :: string where
  "sample_repo_digest = ''registry.example/api@sha256:'' @ replicate 64 CHR ''a''"

definition sample_api :: object_api where
  "sample_api = \<lparr>api_decode = (\<lambda>s. if s = [] then None else Some []), api_decodeCVE = (\<lambda>_. None),
     api_NestedString = (\<lambda>_ path. if path = [''status'', ''phase''] then ''Running'' else []),
     api_NestedSlice = (\<lambda>_ path. if path = [''status'', ''containerStatuses'']
        then Some [GMap [(''ready'', GBool True), (''restartCount'', GFloat 3),
                         (''imageID'', GStr (''containerd://'' @ sample_repo_digest))]] else None),
     api_NestedField = (\<lambda>_ _. None), api_Labels = (\<lambda>_. []), api_Created = (\<lambda>_. 0)\<rparr>"

definition sample_pod :: "string \<Rightarrow> string \<Rightarrow> Fact" where
  "sample_pod workspace name = (sample_fact ''Pod'' name)\<lparr>FWorkspace := workspace, Observed := ''{}''\<rparr>"

theorem normalize_keeps_identity_witness:
  "\<exists>r. normalize ascii_case sample_api (sample_pod ''local'' ''api-0'') = Inr r \<and>
     rc_ImageRepoDigests r = [sample_repo_digest] \<and> rc_Name r = RefName (Ref (sample_pod ''local'' ''api-0'')) \<and>
     list_all (\<lambda>d. is_ok (ImageDigestFromRepoDigest d)) (rc_ImageRepoDigests r)"
proof -
  have "case normalize ascii_case sample_api (sample_pod ''local'' ''api-0'') of Inl _ \<Rightarrow> False
      | Inr r \<Rightarrow> rc_ImageRepoDigests r = [sample_repo_digest]"
    by code_simp
  then obtain r where r: "normalize ascii_case sample_api (sample_pod ''local'' ''api-0'') = Inr r"
    "rc_ImageRepoDigests r = [sample_repo_digest]"
    by (auto split: sum.splits)
  from normalize_keeps_identity [OF r(1)] r show ?thesis by blast
qed

end
