(* ===== verification/Cache_Query.thy ===== *)
theory Cache_Query
  imports Cache_Record
begin

text \<open>
  The search grammar and the record filter of the fleet cache
  (\<open>internal/fleetcache/query.go\<close>).
\<close>

subsection \<open>Queries and the search grammar\<close>

record CacheQuery =
  cq_Kind :: string
  cq_Name :: string
  cq_Namespace :: string
  cq_Scopes :: "string list"
  cq_Text :: "string list"
  cq_Status :: string
  cq_StatusNot :: string
  cq_Image :: string
  cq_CVE :: string
  cq_Node :: string
  cq_Labels :: "(string, string) gomap"
  cq_MinRestarts :: "int option"
  cq_Limit :: int
  cq_MetadataOnly :: bool

definition empty_query :: CacheQuery where
  "empty_query = \<lparr>cq_Kind = [], cq_Name = [], cq_Namespace = [], cq_Scopes = [], cq_Text = [],
     cq_Status = [], cq_StatusNot = [], cq_Image = [], cq_CVE = [], cq_Node = [], cq_Labels = [],
     cq_MinRestarts = None, cq_Limit = 0, cq_MetadataOnly = False\<rparr>"

datatype search_error =
    EmptyValue string
  | BadLabel string
  | BadRestarts string
  | UnsupportedToken string
  | EmptyExpression
  | BadTarget string
  | UnsupportedPredicate string
  | NoPredicate

definition search_token :: "unicode_case \<Rightarrow> string \<Rightarrow> CacheQuery \<Rightarrow> (search_error, CacheQuery) result" where
  "search_token u token q =
     (case cut token '':'' of
        None \<Rightarrow> Inr (q\<lparr>cq_Text := cq_Text q @ [to_lower u token]\<rparr>)
      | Some (key, v) \<Rightarrow>
          if v = [] then Inl (EmptyValue token)
          else let k = to_lower u key in
            if k = ''ctx'' \<or> k = ''cluster'' then Inr (q\<lparr>cq_Scopes := cq_Scopes q @ [v]\<rparr>)
            else if k = ''ns'' \<or> k = ''namespace'' then Inr (q\<lparr>cq_Namespace := v\<rparr>)
            else if k = ''kind'' then Inr (q\<lparr>cq_Kind := canonicalKind u v\<rparr>)
            else if k = ''status'' then
              (if has_prefix v ''!'' then Inr (q\<lparr>cq_StatusNot := trim_prefix v ''!''\<rparr>) else Inr (q\<lparr>cq_Status := v\<rparr>))
            else if k = ''image'' then Inr (q\<lparr>cq_Image := v\<rparr>)
            else if k = ''cve'' then Inr (q\<lparr>cq_CVE := v\<rparr>)
            else if k = ''node'' then Inr (q\<lparr>cq_Node := v\<rparr>)
            else if k = ''label'' then
              (case cut v ''='' of
                 None \<Rightarrow> Inl (BadLabel token)
               | Some (label, labelValue) \<Rightarrow>
                   if label = [] \<or> labelValue = [] then Inl (BadLabel token)
                   else Inr (q\<lparr>cq_Labels := gm_put label labelValue (cq_Labels q)\<rparr>))
            else if k = ''restarts'' then
              (case parse_int64 (trim_prefix v ''>'') of
                 None \<Rightarrow> Inl (BadRestarts token)
               | Some parsed \<Rightarrow>
                   if parsed < 0 then Inl (BadRestarts token)
                   else Inr (q\<lparr>cq_MinRestarts := Some parsed\<rparr>))
            else Inl (UnsupportedToken key))"

fun search_tokens :: "unicode_case \<Rightarrow> string list \<Rightarrow> CacheQuery \<Rightarrow> (search_error, CacheQuery) result" where
  "search_tokens u [] q = Inr q"
| "search_tokens u (t # ts) q = rbind (search_token u t q) (search_tokens u ts)"

definition ParseSearch :: "unicode_case \<Rightarrow> string \<Rightarrow> (search_error, CacheQuery) result" where
  "ParseSearch u expression = search_tokens u (str_fields expression) empty_query"

fun correlation_predicates :: "string list \<Rightarrow> CacheQuery \<Rightarrow> (search_error, CacheQuery) result" where
  "correlation_predicates [] q = Inr q"
| "correlation_predicates (p # ps) q =
     (if has_prefix p ''status!='' then
        correlation_predicates ps (q\<lparr>cq_StatusNot := trim_prefix p ''status!=''\<rparr>)
      else if has_prefix p ''status='' then
        correlation_predicates ps (q\<lparr>cq_Status := trim_prefix p ''status=''\<rparr>)
      else if has_prefix p ''image:'' then
        correlation_predicates ps (q\<lparr>cq_Image := trim_prefix p ''image:''\<rparr>)
      else Inl (UnsupportedPredicate p))"

definition ParseCorrelation :: "unicode_case \<Rightarrow> string \<Rightarrow> (search_error, CacheQuery) result" where
  "ParseCorrelation u expression =
     (case str_fields (trim_space expression) of
        [] \<Rightarrow> Inl EmptyExpression
      | first # rest \<Rightarrow>
          if str_contains first '':'' then ParseSearch u expression
          else (case cut first ''/'' of
            None \<Rightarrow> Inl (BadTarget first)
          | Some (kind, name) \<Rightarrow>
              if kind = [] \<or> name = [] then Inl (BadTarget first)
              else rbind (correlation_predicates rest (empty_query\<lparr>cq_Kind := canonicalKind u kind, cq_Name := name\<rparr>))
                (\<lambda>q. if cq_Status q = [] \<and> cq_StatusNot q = [] \<and> cq_Image q = [] then Inl NoPredicate else Inr q)))"

subsection \<open>Matching\<close>

definition trim_equal_fold :: "unicode_case \<Rightarrow> string \<Rightarrow> string \<Rightarrow> bool" where
  "trim_equal_fold u left right = equal_fold u (trim_space left) (trim_space right)"

definition matchesGlob :: "unicode_case \<Rightarrow> string \<Rightarrow> string \<Rightarrow> bool" where
  "matchesGlob u value pattern =
     (if path_match (to_lower u pattern) (to_lower u value) = Some True then True
      else trim_equal_fold u value pattern)"

definition matchesAnyGlob :: "unicode_case \<Rightarrow> string \<Rightarrow> string list \<Rightarrow> bool" where
  "matchesAnyGlob u value patterns = list_ex (matchesGlob u value) patterns"

definition matchesCVEs :: "unicode_case \<Rightarrow> string list \<Rightarrow> string \<Rightarrow> bool" where
  "matchesCVEs u cves pattern =
     list_ex (\<lambda>identifier. matchesGlob u identifier pattern \<or>
       str_contains (to_lower u identifier) (to_lower u (trim_chars pattern ''*''))) cves"

definition matchesImages :: "unicode_case \<Rightarrow> string list \<Rightarrow> string \<Rightarrow> bool" where
  "matchesImages u images pattern =
     list_ex (\<lambda>img. matchesGlob u img pattern \<or>
       str_contains (to_lower u img) (to_lower u (trim_chars pattern ''*''))) images"

definition fuzzyContains :: "unicode_case \<Rightarrow> string \<Rightarrow> string \<Rightarrow> bool" where
  "fuzzyContains u haystack needle =
     (let needle = to_lower u (trim_space needle) in
      if needle = [] \<or> str_contains haystack needle then True
      else let needleRunes = map fst (range_runes needle);
               index = fold (\<lambda>(character, w) index.
                 if index < length needleRunes \<and> character = needleRunes ! index then Suc index else index)
                 (range_runes haystack) 0
           in index = length needleRunes)"

definition labelsText :: "(string, string) gomap \<Rightarrow> string" where
  "labelsText labels = join (map (\<lambda>(key, v). key @ ''='' @ v) labels) '' ''"

definition query_matches :: "unicode_case \<Rightarrow> CacheQuery \<Rightarrow> string \<Rightarrow> Record \<Rightarrow> bool" where
  "query_matches u q workspace r =
     (if rc_Workspace r \<noteq> workspace then False
      else if cq_Kind q \<noteq> [] \<and> canonicalKind u (rc_Kind r) \<noteq> canonicalKind u (cq_Kind q) then False
      else if cq_Name q \<noteq> [] \<and> rc_Name r \<noteq> cq_Name q then False
      else if cq_Namespace q \<noteq> [] \<and> rc_Namespace r \<noteq> cq_Namespace q then False
      else if length (cq_Scopes q) > 0 \<and> \<not> matchesAnyGlob u (rc_Cluster r) (cq_Scopes q) then False
      else if cq_Status q \<noteq> [] \<and> \<not> trim_equal_fold u (rc_Status r) (cq_Status q) then False
      else if cq_StatusNot q \<noteq> [] \<and> trim_equal_fold u (rc_Status r) (cq_StatusNot q) then False
      else if cq_Image q \<noteq> [] \<and> \<not> matchesImages u (rc_Images r) (cq_Image q) then False
      else if cq_CVE q \<noteq> [] \<and> \<not> matchesCVEs u (rc_CVEs r) (cq_CVE q) then False
      else if cq_Node q \<noteq> [] \<and> \<not> matchesGlob u (rc_Node r) (cq_Node q) then False
      else if list_ex (\<lambda>(key, v). gm_get [] (rc_Labels r) key \<noteq> v) (cq_Labels q) then False
      else if (case cq_MinRestarts q of None \<Rightarrow> False | Some m \<Rightarrow> rc_Restarts r \<le> m) then False
      else let haystack = to_lower u (join
             [rc_Cluster r, rc_Namespace r, rc_Kind r, rc_Name r, rc_Status r, rc_Reason r,
              join (rc_Images r) '' '', join (rc_CVEs r) '' '', labelsText (rc_Labels r)] '' '')
        in list_all (fuzzyContains u haystack) (cq_Text q))"

subsection \<open>Facts\<close>

lemma query_matches_workspace: "query_matches u q w r \<Longrightarrow> rc_Workspace r = w"
  by (simp add: query_matches_def split: if_splits)

lemma search_tokens_append:
  "search_tokens u (xs @ ys) q = rbind (search_tokens u xs q) (search_tokens u ys)"
proof (induction xs arbitrary: q)
  case (Cons x xs)
  then show ?case by (cases "search_token u x q") simp_all
qed simp

end
