(* ===== verification/Wire_Version.thy ===== *)
theory Wire_Version
  imports Go_Strings "HOL-Library.Word"
begin

text \<open>
  Wire-version negotiation of the connector framework (\<open>internal/connector/version.go\<close>).
  Major and minor numbers are 32-bit words; the order the code sorts and compares by,
  \<open>wireVersionLess\<close>, is the instance's linear order.
\<close>

subsection \<open>Versions and their order\<close>

datatype WireVersion = WireVersion (Major: "32 word") (Minor: "32 word")

definition wireVersionLess :: "WireVersion \<Rightarrow> WireVersion \<Rightarrow> bool" where
  "wireVersionLess left right =
     (if Major left \<noteq> Major right then Major left < Major right else Minor left < Minor right)"

instantiation WireVersion :: linorder
begin

definition less_WireVersion :: "WireVersion \<Rightarrow> WireVersion \<Rightarrow> bool" where
  "less_WireVersion left right = wireVersionLess left right"

definition less_eq_WireVersion :: "WireVersion \<Rightarrow> WireVersion \<Rightarrow> bool" where
  "less_eq_WireVersion left right = (wireVersionLess left right \<or> left = right)"

instance
proof
  fix x y z :: WireVersion
  have ext: "x = y \<longleftrightarrow> Major x = Major y \<and> Minor x = Minor y" for x y :: WireVersion
    by (cases x; cases y) simp
  show "x < y \<longleftrightarrow> x \<le> y \<and> \<not> y \<le> x" "x \<le> x" "x \<le> y \<Longrightarrow> y \<le> z \<Longrightarrow> x \<le> z"
    "x \<le> y \<Longrightarrow> y \<le> x \<Longrightarrow> x = y" "x \<le> y \<or> y \<le> x"
    by (auto simp: less_WireVersion_def less_eq_WireVersion_def wireVersionLess_def ext split: if_splits)
qed

end

definition maxWireVersionsPerOffer :: nat where
  "maxWireVersionsPerOffer = 32"

definition CurrentWireVersion :: WireVersion where
  "CurrentWireVersion = WireVersion 1 0"

definition WireVersion_String :: "WireVersion \<Rightarrow> string" where
  "WireVersion_String v = nat_decimal (unat (Major v)) @ ''.'' @ nat_decimal (unat (Minor v))"

datatype wire_error =
    EmptyOffer
  | OfferTooLarge
  | ZeroMajor
  | DuplicateVersion WireVersion
  | LocalOffer wire_error
  | RemoteOffer wire_error
  | ErrWireMajorMismatch
  | ErrWireMinorUnsupported

subsection \<open>Negotiation\<close>

fun canonical_scan :: "WireVersion list \<Rightarrow> WireVersion list \<Rightarrow> (wire_error, unit) result" where
  "canonical_scan seen [] = Inr ()"
| "canonical_scan seen (v # vs) =
     (if Major v = 0 then Inl ZeroMajor
      else if List.member seen v then Inl (DuplicateVersion v)
      else canonical_scan (v # seen) vs)"

definition canonicalWireVersions :: "WireVersion list \<Rightarrow> (wire_error, WireVersion list) result" where
  "canonicalWireVersions versions =
     (if versions = [] then Inl EmptyOffer
      else if length versions > maxWireVersionsPerOffer then Inl OfferTooLarge
      else rbind (canonical_scan [] versions) (\<lambda>_. Inr (sort versions)))"

text \<open>One turn of the loop over the remote offer: the selected version, if any, and the common-major flag.\<close>

definition negotiate_step ::
  "WireVersion list \<Rightarrow> WireVersion \<Rightarrow> WireVersion option \<times> bool \<Rightarrow> WireVersion option \<times> bool" where
  "negotiate_step local version acc =
     (case acc of
        (selected, commonMajor) \<Rightarrow>
          let commonMajor = (commonMajor \<or> Major version \<in> Major ` set local) in
          if \<not> List.member local version then (selected, commonMajor)
          else (case selected of
                  None \<Rightarrow> (Some version, commonMajor)
                | Some s \<Rightarrow> (if wireVersionLess s version then Some version else Some s, commonMajor)))"

definition NegotiateWireVersion ::
  "WireVersion list \<Rightarrow> WireVersion list \<Rightarrow> (wire_error, WireVersion) result" where
  "NegotiateWireVersion local remote =
     (case canonicalWireVersions local of
        Inl e \<Rightarrow> Inl (LocalOffer e)
      | Inr local \<Rightarrow>
          (case canonicalWireVersions remote of
             Inl e \<Rightarrow> Inl (RemoteOffer e)
           | Inr remote \<Rightarrow>
               (case fold (negotiate_step local) remote (None, False) of
                  (Some selected, _) \<Rightarrow> Inr selected
                | (None, commonMajor) \<Rightarrow>
                    if \<not> commonMajor then Inl ErrWireMajorMismatch else Inl ErrWireMinorUnsupported)))"

subsection \<open>Facts\<close>

definition offer_ok :: "WireVersion list \<Rightarrow> bool" where
  "offer_ok vs \<longleftrightarrow> vs \<noteq> [] \<and> length vs \<le> maxWireVersionsPerOffer \<and> distinct vs \<and> (\<forall>v \<in> set vs. Major v \<noteq> 0)"

lemma canonical_scan_Inr:
  "canonical_scan seen vs = Inr u \<longleftrightarrow> (\<forall>v \<in> set vs. Major v \<noteq> 0) \<and> distinct vs \<and> set seen \<inter> set vs = {}"
  by (induction seen vs rule: canonical_scan.induct) auto

lemma canonicalWireVersions_Inr:
  "canonicalWireVersions vs = Inr out \<longleftrightarrow> offer_ok vs \<and> out = sort vs"
  by (auto simp: canonicalWireVersions_def rbind_eq_Inr canonical_scan_Inr offer_ok_def split: if_splits)

lemma canonicalWireVersions_Inl: "canonicalWireVersions vs = Inl e \<Longrightarrow> \<not> offer_ok vs"
  using canonicalWireVersions_Inr [of vs "sort vs"] by auto

lemma negotiate_fold:
  "fold (negotiate_step local) remote (sel, cm) =
     (if set local \<inter> set remote = {} then sel
      else Some (Max (set local \<inter> set remote \<union> set_option sel)),
      cm \<or> Major ` set local \<inter> Major ` set remote \<noteq> {})"
proof (induction remote arbitrary: sel cm)
  case Nil
  show ?case by simp
next
  case (Cons v vs)
  let ?S = "set local \<inter> set vs"
  show ?case
  proof (cases "v \<in> set local")
    case False
    then have step: "negotiate_step local v (sel, cm) = (sel, cm \<or> Major v \<in> Major ` set local)"
      by (simp add: negotiate_step_def Let_def)
    have "set local \<inter> set (v # vs) = ?S" using False by auto
    then show ?thesis by (auto simp: step Cons.IH)
  next
    case True
    define sel' where "sel' = (case sel of None \<Rightarrow> Some v | Some s \<Rightarrow> if wireVersionLess s v then Some v else Some s)"
    have step: "negotiate_step local v (sel, cm) = (sel', True)"
      using True by (auto simp: negotiate_step_def sel'_def Let_def split: option.splits)
    have ne: "set local \<inter> set (v # vs) = insert v ?S" using True by auto
    have sel': "sel' = Some (Max (insert v (set_option sel)))"
      by (auto simp: sel'_def less_WireVersion_def [symmetric] max_def less_le_not_le split: option.splits)
    have "Max (?S \<union> {Max (insert v (set_option sel))}) = Max (insert v ?S \<union> set_option sel)"
    proof (cases "?S = {}")
      case True
      then show ?thesis by simp
    next
      case nonempty: False
      have "Max (insert v (set_option sel) \<union> ?S) = max (Max (insert v (set_option sel))) (Max ?S)"
        by (rule Max_Un) (use nonempty in auto)
      moreover have "Max (insert (Max (insert v (set_option sel))) ?S) = max (Max (insert v (set_option sel))) (Max ?S)"
        by (rule Max_insert) (use nonempty in auto)
      ultimately show ?thesis by (simp add: Un_commute insert_commute Un_assoc)
    qed
    moreover have "Major v \<in> Major ` set local" using True by simp
    ultimately show ?thesis unfolding ne
      by (auto simp: step Cons.IH sel')
  qed
qed

lemma Negotiate_unfold:
  assumes "offer_ok local" and "offer_ok remote"
  shows "NegotiateWireVersion local remote =
    (if set local \<inter> set remote \<noteq> {} then Inr (Max (set local \<inter> set remote))
     else if Major ` set local \<inter> Major ` set remote = {} then Inl ErrWireMajorMismatch
     else Inl ErrWireMinorUnsupported)"
proof -
  have l: "canonicalWireVersions local = Inr (sort local)" and r: "canonicalWireVersions remote = Inr (sort remote)"
    using assms by (simp_all add: canonicalWireVersions_Inr)
  show ?thesis by (simp add: NegotiateWireVersion_def l r negotiate_fold)
qed

subsection \<open>Properties\<close>

text \<open>
  Negotiation picks the greatest version both endpoints explicitly offer, whichever
  side starts, and never assumes an unlisted minor compatible: it fails only on a malformed
  offer or when no exact version is shared, telling a missing common major from a missing
  common minor.
\<close>
theorem NegotiateWireVersion_greatest:
  "case NegotiateWireVersion local remote of
     Inr v \<Rightarrow> offer_ok local \<and> offer_ok remote \<and> v \<in> set local \<and> v \<in> set remote \<and>
       (\<forall>w \<in> set local \<inter> set remote. w = v \<or> wireVersionLess w v) \<and>
       NegotiateWireVersion remote local = Inr v
   | Inl e \<Rightarrow> \<not> offer_ok local \<or> \<not> offer_ok remote \<or>
       set local \<inter> set remote = {} \<and>
       (e = ErrWireMajorMismatch \<and> Major ` set local \<inter> Major ` set remote = {} \<or>
        e = ErrWireMinorUnsupported \<and> Major ` set local \<inter> Major ` set remote \<noteq> {})"
proof (cases "offer_ok local \<and> offer_ok remote")
  case True
  then have ok: "offer_ok local" "offer_ok remote" by simp_all
  show ?thesis
  proof (cases "set local \<inter> set remote = {}")
    case True
    with Negotiate_unfold [OF ok] ok show ?thesis by simp
  next
    case False
    define v where "v = Max (set local \<inter> set remote)"
    have "v \<in> set local \<inter> set remote" unfolding v_def by (rule Max_in) (use False in auto)
    moreover have "\<forall>w \<in> set local \<inter> set remote. w \<le> v" unfolding v_def by simp
    moreover have "NegotiateWireVersion local remote = Inr v" "NegotiateWireVersion remote local = Inr v"
      using Negotiate_unfold [OF ok] Negotiate_unfold [OF ok(2,1)] False by (simp_all add: v_def Int_commute)
    ultimately show ?thesis using ok by (auto simp: less_eq_WireVersion_def)
  qed
next
  case False
  then show ?thesis
    by (auto simp: NegotiateWireVersion_def canonicalWireVersions_Inr split: sum.splits)
qed

theorem NegotiateWireVersion_greatest_witness:
  "NegotiateWireVersion [WireVersion 2 1, WireVersion 1 0, WireVersion 1 4] [WireVersion 1 4, WireVersion 1 0, WireVersion 3 0] =
     Inr (WireVersion 1 4) \<and>
   NegotiateWireVersion [WireVersion 1 4, WireVersion 1 0, WireVersion 3 0] [WireVersion 2 1, WireVersion 1 0, WireVersion 1 4] =
     Inr (WireVersion 1 4)"
proof -
  have "NegotiateWireVersion [WireVersion 2 1, WireVersion 1 0, WireVersion 1 4]
      [WireVersion 1 4, WireVersion 1 0, WireVersion 3 0] = Inr (WireVersion 1 4)"
    by code_simp
  with NegotiateWireVersion_greatest
    [of "[WireVersion 2 1, WireVersion 1 0, WireVersion 1 4]" "[WireVersion 1 4, WireVersion 1 0, WireVersion 3 0]"]
  show ?thesis by simp
qed

end
