(* ===== verification/Intent_Verbs.thy ===== *)
theory Intent_Verbs
  imports Go_Strings
begin

text \<open>
  The closed vocabulary of governed actions (\<open>internal/intent\<close>). A verb is a Go string that
  counts as a verb only when the reviewed table holds it. The JSON codec underneath
  (\<open>encoding/json\<close>) is a parameter: \<open>enc\<close> renders a wire value and \<open>dec\<close> parses one; only its
  round trip is ever assumed.
\<close>

type_synonym Verb = string
type_synonym Class = string

abbreviation VerbArgoCDSync :: Verb where "VerbArgoCDSync \<equiv> ''argocd.sync''"
abbreviation VerbArgoCDRollback :: Verb where "VerbArgoCDRollback \<equiv> ''argocd.rollback''"
abbreviation VerbRolloutPromote :: Verb where "VerbRolloutPromote \<equiv> ''rollout.promote''"
abbreviation VerbRolloutAbort :: Verb where "VerbRolloutAbort \<equiv> ''rollout.abort''"
abbreviation VerbDeploymentScale :: Verb where "VerbDeploymentScale \<equiv> ''deployment.scale''"
abbreviation VerbDeploymentRestart :: Verb where "VerbDeploymentRestart \<equiv> ''deployment.restart''"
abbreviation VerbGitOpsOpenPR :: Verb where "VerbGitOpsOpenPR \<equiv> ''gitops.open-pr''"

abbreviation ClassProposal :: Class where "ClassProposal \<equiv> ''proposal''"
abbreviation ClassLiveMutation :: Class where "ClassLiveMutation \<equiv> ''live-mutation''"

record Definition =
  df_Verb :: Verb
  df_Class :: Class

definition definitions :: "(Verb, Definition) gomap" where
  "definitions =
     [(VerbArgoCDSync, \<lparr>df_Verb = VerbArgoCDSync, df_Class = ClassLiveMutation\<rparr>),
      (VerbArgoCDRollback, \<lparr>df_Verb = VerbArgoCDRollback, df_Class = ClassLiveMutation\<rparr>),
      (VerbRolloutPromote, \<lparr>df_Verb = VerbRolloutPromote, df_Class = ClassLiveMutation\<rparr>),
      (VerbRolloutAbort, \<lparr>df_Verb = VerbRolloutAbort, df_Class = ClassLiveMutation\<rparr>),
      (VerbDeploymentScale, \<lparr>df_Verb = VerbDeploymentScale, df_Class = ClassLiveMutation\<rparr>),
      (VerbDeploymentRestart, \<lparr>df_Verb = VerbDeploymentRestart, df_Class = ClassLiveMutation\<rparr>),
      (VerbGitOpsOpenPR, \<lparr>df_Verb = VerbGitOpsOpenPR, df_Class = ClassProposal\<rparr>)]"

datatype intent_error =
    UnknownVerb
  | ClassificationMismatch
  | NilDestination
  | MalformedWire

definition IntentVerb_Valid :: "Verb \<Rightarrow> bool" where
  "IntentVerb_Valid verb \<longleftrightarrow> map_of definitions verb \<noteq> None"

definition ParseVerb :: "string \<Rightarrow> (intent_error, Verb) result" where
  "ParseVerb value = (if \<not> IntentVerb_Valid value then Inl UnknownVerb else Inr value)"

definition Verb_Definition :: "Verb \<Rightarrow> Definition option" where
  "Verb_Definition verb = map_of definitions verb"

definition Definition_Valid :: "Definition \<Rightarrow> bool" where
  "Definition_Valid d =
     (case map_of definitions (df_Verb d) of None \<Rightarrow> False | Some canonical \<Rightarrow> d = canonical)"

text \<open>The wire boundary. \<open>definitionWire\<close> has the fields of \<open>Definition\<close> and no methods.\<close>

definition Definition_MarshalJSON ::
  "(Definition \<Rightarrow> string) \<Rightarrow> Definition \<Rightarrow> (intent_error, string) result" where
  "Definition_MarshalJSON enc d =
     (if \<not> Definition_Valid d then Inl ClassificationMismatch else Inr (enc d))"

definition Definition_UnmarshalJSON ::
  "(string \<Rightarrow> Definition option) \<Rightarrow> bool \<Rightarrow> string \<Rightarrow> (intent_error, Definition) result" where
  "Definition_UnmarshalJSON dec nil payload =
     (if nil then Inl NilDestination
      else case dec payload of
        None \<Rightarrow> Inl MalformedWire
      | Some decoded \<Rightarrow>
          (case map_of definitions (df_Verb decoded) of
             None \<Rightarrow> Inl ClassificationMismatch
           | Some canonical \<Rightarrow>
               if df_Class decoded \<noteq> df_Class canonical then Inl ClassificationMismatch
               else Inr canonical))"

definition Vocabulary :: "Definition list" where
  "Vocabulary = sort_key df_Verb (map snd definitions)"

definition Verb_MarshalJSON ::
  "(string \<Rightarrow> string) \<Rightarrow> Verb \<Rightarrow> (intent_error, string) result" where
  "Verb_MarshalJSON enc verb = (if \<not> IntentVerb_Valid verb then Inl UnknownVerb else Inr (enc verb))"

definition Verb_UnmarshalJSON ::
  "(string \<Rightarrow> string option) \<Rightarrow> bool \<Rightarrow> string \<Rightarrow> (intent_error, Verb) result" where
  "Verb_UnmarshalJSON dec nil payload =
     (if nil then Inl NilDestination
      else case dec payload of
        None \<Rightarrow> Inl MalformedWire
      | Some value \<Rightarrow> ParseVerb value)"

subsection \<open>Facts\<close>

lemma definitions_wf: "gm_wf definitions"
  by (simp add: gm_wf_def definitions_def)

lemma definitions_key: "map_of definitions v = Some d \<Longrightarrow> df_Verb d = v"
  by (auto simp: definitions_def split: if_splits)

lemma Definition_Valid_iff: "Definition_Valid d \<longleftrightarrow> d \<in> set (map snd definitions)"
proof
  assume "Definition_Valid d"
  then have "map_of definitions (df_Verb d) = Some d"
    by (auto simp: Definition_Valid_def split: option.splits)
  then show "d \<in> set (map snd definitions)"
    by (force dest: map_of_SomeD)
next
  assume "d \<in> set (map snd definitions)"
  then obtain v where "(v, d) \<in> set definitions" by auto
  then have "map_of definitions v = Some d"
    using definitions_wf by (simp add: gm_wf_in_iff)
  with definitions_key show "Definition_Valid d"
    by (auto simp: Definition_Valid_def)
qed

lemma IntentVerb_Valid_iff:
  "IntentVerb_Valid v \<longleftrightarrow>
     v \<in> {VerbArgoCDSync, VerbArgoCDRollback, VerbRolloutPromote, VerbRolloutAbort,
          VerbDeploymentScale, VerbDeploymentRestart, VerbGitOpsOpenPR}"
  by (auto simp: IntentVerb_Valid_def definitions_def)

lemma sorted_Vocabulary: "sorted (map df_Verb Vocabulary)"
  by (simp add: Vocabulary_def)

lemma set_Vocabulary: "set Vocabulary = set (map snd definitions)"
  by (simp add: Vocabulary_def)

end
