(* ===== verification/Connector_Registry.thy ===== *)
theory Connector_Registry
  imports Wire_Version Intent_Verbs Fleet_Model
begin

text \<open>
  The connector registry (\<open>internal/connector/contract.go\<close>, \<open>registry.go\<close>, \<open>source.go\<close>). A
  connector is the record of what its interface methods return and of which capability
  interfaces its type implements; \<open>'p\<close> is what its planner yields for an intent. Argument
  schemas are the argument \<open>compile\<close> (a document compiles to a schema or fails), and validating
  arguments the argument \<open>accepts\<close>. The registry's lock makes each operation one step.
\<close>

subsection \<open>The contract\<close>

type_synonym ConnectorKind = string
type_synonym Capability = string

abbreviation KindReadAdapter :: ConnectorKind where "KindReadAdapter \<equiv> ''read-adapter''"
abbreviation KindBrokeredRead :: ConnectorKind where "KindBrokeredRead \<equiv> ''brokered-read-through''"
abbreviation KindTypedAction :: ConnectorKind where "KindTypedAction \<equiv> ''typed-action''"

definition ConnectorKind_Valid :: "ConnectorKind \<Rightarrow> bool" where
  "ConnectorKind_Valid kind \<longleftrightarrow> kind \<in> {KindReadAdapter, KindBrokeredRead, KindTypedAction}"

abbreviation CapDiscover :: Capability where "CapDiscover \<equiv> ''discover''"
abbreviation CapRead :: Capability where "CapRead \<equiv> ''read''"
abbreviation CapQuery :: Capability where "CapQuery \<equiv> ''query''"
abbreviation CapDiff :: Capability where "CapDiff \<equiv> ''diff''"
abbreviation CapPlan :: Capability where "CapPlan \<equiv> ''plan''"
abbreviation CapExecute :: Capability where "CapExecute \<equiv> ''execute''"
abbreviation CapVerify :: Capability where "CapVerify \<equiv> ''verify''"

definition Capability_Valid :: "Capability \<Rightarrow> bool" where
  "Capability_Valid c \<longleftrightarrow> c \<in> {CapDiscover, CapRead, CapQuery, CapDiff, CapPlan, CapExecute, CapVerify}"

record Descriptor =
  ds_Kind :: string
  ds_ConnKind :: ConnectorKind
  ds_WireVersions :: "WireVersion list"
  ds_AdapterVersion :: string
  ds_Owner :: string
  ds_Capabilities :: "Capability list"
  ds_Verbs :: "Verb list"
  ds_ArgSchemas :: "(Verb, string) gomap"

record Intent =
  it_ID :: string
  it_Workspace :: string
  it_Actor :: string
  it_Verb :: Verb
  it_Target :: ResourceRef
  it_Args :: string
  it_Justification :: string
  it_EvidenceRefs :: "ResourceRef list"
  it_Signature :: string

record 'p Connector =
  cn_Kind :: string
  cn_Capabilities :: "Capability list"
  cn_Descriptor :: Descriptor
  cn_isReader :: bool
  cn_isDiffer :: bool
  cn_isPlanner :: bool
  cn_isExecutor :: bool
  cn_isVerifier :: bool
  cn_Plan :: "Intent \<Rightarrow> 'p"

record ('p, 's) registryEntry =
  re_connector :: "'p Connector"
  re_descriptor :: Descriptor
  re_declared :: "Capability list"
  re_schemas :: "(Verb, 's) gomap"

record ('p, 's) Registry =
  rg_entries :: "(string, ('p, 's) registryEntry) gomap"
  rg_verbs :: "(Verb, string) gomap"

definition NewRegistry :: "('p, 's) Registry" where
  "NewRegistry = \<lparr>rg_entries = [], rg_verbs = []\<rparr>"

datatype registry_error =
    FactoryNil
  | ConstructFailed
  | FactoryReturnedNil
  | KindEmpty
  | KindMismatch string string
  | InvalidConnectorKind string
  | InvalidWire wire_error
  | AdapterVersionEmpty
  | OwnerEmpty
  | InvalidCapability string
  | DuplicateCapability string
  | CapabilitiesDiffer
  | NotImplemented string
  | NoVerbs
  | InvalidVerb string
  | DuplicateVerb string
  | SchemaCount
  | SchemaUndeclared string
  | SchemaInvalid string
  | SchemaMissing string
  | UnexpectedVerbs
  | KindRegistered string
  | VerbTaken string string
  | ErrNotRegistered string
  | ErrCapability string
  | ArgsRejected string

subsection \<open>Validation\<close>

fun capability_scan :: "Capability list \<Rightarrow> Capability list \<Rightarrow> (registry_error, Capability list) result" where
  "capability_scan seen [] = Inr (rev seen)"
| "capability_scan seen (c # cs) =
     (if \<not> Capability_Valid c then Inl (InvalidCapability c)
      else if List.member seen c then Inl (DuplicateCapability c)
      else capability_scan (c # seen) cs)"

definition capabilitySet :: "Capability list \<Rightarrow> (registry_error, Capability list) result" where
  "capabilitySet cs = capability_scan [] cs"

definition sameCapabilities :: "Capability list \<Rightarrow> Capability list \<Rightarrow> bool" where
  "sameCapabilities left right \<longleftrightarrow> length left = length right \<and> list_all (\<lambda>c. c \<in> set right) left"

definition implementsCapability :: "('p, 'x) Connector_scheme \<Rightarrow> Capability \<Rightarrow> bool" where
  "implementsCapability c cap =
     (if cap \<in> {CapDiscover, CapRead, CapQuery} then cn_isReader c
      else if cap = CapDiff then cn_isDiffer c
      else if cap = CapPlan then cn_isPlanner c
      else if cap = CapExecute then cn_isExecutor c
      else if cap = CapVerify then cn_isVerifier c
      else False)"

text \<open>The verbs of a typed-action connector, checked in order.\<close>

fun verb_scan :: "Verb list \<Rightarrow> Verb list \<Rightarrow> (registry_error, Verb list) result" where
  "verb_scan seen [] = Inr (rev seen)"
| "verb_scan seen (v # vs) =
     (if \<not> IntentVerb_Valid v then Inl (InvalidVerb v)
      else if List.member seen v then Inl (DuplicateVerb v)
      else verb_scan (v # seen) vs)"

fun schema_scan ::
  "(string \<Rightarrow> 's option) \<Rightarrow> Verb list \<Rightarrow> (Verb, string) gomap \<Rightarrow> (Verb, 's) gomap
     \<Rightarrow> (registry_error, (Verb, 's) gomap) result" where
  "schema_scan compile seen [] schemas = Inr schemas"
| "schema_scan compile seen ((v, document) # rest) schemas =
     (if \<not> List.member seen v then Inl (SchemaUndeclared v)
      else case compile document of
        None \<Rightarrow> Inl (SchemaInvalid v)
      | Some compiled \<Rightarrow> schema_scan compile seen rest (gm_put v compiled schemas))"

fun first_missing :: "Verb list \<Rightarrow> (Verb, 's) gomap \<Rightarrow> Verb option" where
  "first_missing [] schemas = None"
| "first_missing (v # vs) schemas = (if map_of schemas v = None then Some v else first_missing vs schemas)"

definition validateConnector ::
  "(string \<Rightarrow> 's option) \<Rightarrow> 'p Connector \<Rightarrow> (registry_error, ('p, 's) registryEntry) result" where
  "validateConnector compile c =
     (let d = cn_Descriptor c in
      if ds_Kind d = [] \<or> cn_Kind c = [] then Inl KindEmpty
      else if ds_Kind d \<noteq> cn_Kind c then Inl (KindMismatch (ds_Kind d) (cn_Kind c))
      else if \<not> ConnectorKind_Valid (ds_ConnKind d) then Inl (InvalidConnectorKind (ds_ConnKind d))
      else case canonicalWireVersions (ds_WireVersions d) of
        Inl e \<Rightarrow> Inl (InvalidWire e)
      | Inr wire \<Rightarrow>
          let d = d\<lparr>ds_WireVersions := wire\<rparr> in
          if trim_space (ds_AdapterVersion d) = [] then Inl AdapterVersionEmpty
          else if ds_Owner d = [] then Inl OwnerEmpty
          else rbind (capabilitySet (cn_Capabilities c)) (\<lambda>declared.
            rbind (capabilitySet (ds_Capabilities d)) (\<lambda>descriptorSet.
            if \<not> sameCapabilities declared descriptorSet then Inl CapabilitiesDiffer
            else case find (\<lambda>cap. \<not> implementsCapability c cap) declared of
              Some cap \<Rightarrow> Inl (NotImplemented cap)
            | None \<Rightarrow>
                if ds_ConnKind d = KindTypedAction then
                  (if length (ds_Verbs d) = 0 then Inl NoVerbs
                   else rbind (verb_scan [] (ds_Verbs d)) (\<lambda>seen.
                     if length (ds_ArgSchemas d) \<noteq> length seen then Inl SchemaCount
                     else rbind (schema_scan compile seen (ds_ArgSchemas d) []) (\<lambda>schemas.
                       case first_missing seen schemas of
                         Some v \<Rightarrow> Inl (SchemaMissing v)
                       | None \<Rightarrow>
                           Inr \<lparr>re_connector = c, re_descriptor = d, re_declared = declared, re_schemas = schemas\<rparr>)))
                else if length (ds_Verbs d) \<noteq> 0 \<or> length (ds_ArgSchemas d) \<noteq> 0 then Inl UnexpectedVerbs
                else Inr \<lparr>re_connector = c, re_descriptor = d, re_declared = declared, re_schemas = []\<rparr>)))"

subsection \<open>Registration\<close>

text \<open>
  A factory is absent (nil), fails, or yields a connector (None for a nil one).
\<close>

type_synonym 'p Factory = "(unit + 'p Connector option) option"

fun verb_owner :: "(Verb, string) gomap \<Rightarrow> Verb list \<Rightarrow> (Verb \<times> string) option" where
  "verb_owner taken [] = None"
| "verb_owner taken (v # vs) =
     (case map_of taken v of Some owner \<Rightarrow> Some (v, owner) | None \<Rightarrow> verb_owner taken vs)"

definition Register ::
  "(string \<Rightarrow> 's option) \<Rightarrow> 'p Factory \<Rightarrow> ('p, 's) Registry \<Rightarrow> (registry_error, unit) result \<times> ('p, 's) Registry" where
  "Register compile factory rg =
     (case factory of
        None \<Rightarrow> (Inl FactoryNil, rg)
      | Some (Inl _) \<Rightarrow> (Inl ConstructFailed, rg)
      | Some (Inr None) \<Rightarrow> (Inl FactoryReturnedNil, rg)
      | Some (Inr (Some candidate)) \<Rightarrow>
          (case validateConnector compile candidate of
             Inl e \<Rightarrow> (Inl e, rg)
           | Inr entry \<Rightarrow>
               let kind = ds_Kind (re_descriptor entry); verbs = ds_Verbs (re_descriptor entry) in
               if map_of (rg_entries rg) kind \<noteq> None then (Inl (KindRegistered kind), rg)
               else case verb_owner (rg_verbs rg) verbs of
                 Some (v, owner) \<Rightarrow> (Inl (VerbTaken v owner), rg)
               | None \<Rightarrow>
                   (Inr (), \<lparr>rg_entries = gm_put kind entry (rg_entries rg),
                             rg_verbs = fold (\<lambda>v acc. gm_put v kind acc) verbs (rg_verbs rg)\<rparr>)))"

subsection \<open>Lookups\<close>

definition ByKind :: "('p, 's) Registry \<Rightarrow> string \<Rightarrow> 'p Connector option" where
  "ByKind rg kind = map_option re_connector (map_of (rg_entries rg) kind)"

definition WithCapability :: "('p, 's) Registry \<Rightarrow> Capability \<Rightarrow> 'p Connector list" where
  "WithCapability rg cap =
     (if \<not> Capability_Valid cap then []
      else map re_connector
        (sort_key (\<lambda>e. ds_Kind (re_descriptor e))
          (filter (\<lambda>e. cap \<in> set (re_declared e) \<and> implementsCapability (re_connector e) cap)
            (map snd (rg_entries rg)))))"

definition Descriptors :: "('p, 's) Registry \<Rightarrow> Descriptor list" where
  "Descriptors rg = sort_key ds_Kind (map (\<lambda>(k, e). re_descriptor e) (rg_entries rg))"

definition entryFor ::
  "('p, 's) Registry \<Rightarrow> string \<Rightarrow> Capability \<Rightarrow> bool \<Rightarrow> (registry_error, ('p, 's) registryEntry) result" where
  "entryFor rg kind cap typedAction =
     (case map_of (rg_entries rg) kind of
        None \<Rightarrow> Inl (ErrNotRegistered kind)
      | Some entry \<Rightarrow>
          if cap \<notin> set (re_declared entry) then Inl (ErrCapability kind)
          else if typedAction \<and> ds_ConnKind (re_descriptor entry) \<noteq> KindTypedAction then Inl (ErrCapability kind)
          else Inr entry)"

definition as_interface ::
  "('p Connector \<Rightarrow> bool) \<Rightarrow> string \<Rightarrow> ('p, 's) registryEntry \<Rightarrow> (registry_error, 'p Connector) result" where
  "as_interface implements kind entry =
     (if implements (re_connector entry) then Inr (re_connector entry) else Inl (ErrCapability kind))"

definition ReaderFor :: "('p, 's) Registry \<Rightarrow> string \<Rightarrow> (registry_error, 'p Connector) result" where
  "ReaderFor rg kind = rbind (entryFor rg kind CapRead False) (as_interface cn_isReader kind)"

definition DifferFor :: "('p, 's) Registry \<Rightarrow> string \<Rightarrow> (registry_error, 'p Connector) result" where
  "DifferFor rg kind = rbind (entryFor rg kind CapDiff False) (as_interface cn_isDiffer kind)"

definition PlannerFor :: "('p, 's) Registry \<Rightarrow> string \<Rightarrow> (registry_error, 'p Connector) result" where
  "PlannerFor rg kind = rbind (entryFor rg kind CapPlan True) (as_interface cn_isPlanner kind)"

definition ExecutorFor :: "('p, 's) Registry \<Rightarrow> string \<Rightarrow> (registry_error, 'p Connector) result" where
  "ExecutorFor rg kind = rbind (entryFor rg kind CapExecute True) (as_interface cn_isExecutor kind)"

definition VerifierFor :: "('p, 's) Registry \<Rightarrow> string \<Rightarrow> (registry_error, 'p Connector) result" where
  "VerifierFor rg kind = rbind (entryFor rg kind CapVerify True) (as_interface cn_isVerifier kind)"

text \<open>
  Indexing the entries with an unknown kind yields the zero entry in Go; both callers of that
  pattern test the verb index first, so an unclassified verb is refused before the entry is used.
\<close>

definition entryForVerb ::
  "('p, 's) Registry \<Rightarrow> Verb \<Rightarrow> Capability \<Rightarrow> (registry_error, ('p, 's) registryEntry) result" where
  "entryForVerb rg verb cap =
     (if \<not> IntentVerb_Valid verb then Inl (ErrNotRegistered verb)
      else case map_of (rg_verbs rg) verb of
        None \<Rightarrow> Inl (ErrNotRegistered verb)
      | Some kind \<Rightarrow>
          (case map_of (rg_entries rg) kind of
             None \<Rightarrow> Inl (ErrCapability kind)
           | Some entry \<Rightarrow>
               if ds_ConnKind (re_descriptor entry) \<noteq> KindTypedAction then Inl (ErrCapability kind)
               else if cap \<notin> set (re_declared entry) then Inl (ErrCapability kind)
               else Inr entry))"

definition PlannerForVerb :: "('p, 's) Registry \<Rightarrow> Verb \<Rightarrow> (registry_error, 'p Connector) result" where
  "PlannerForVerb rg verb =
     rbind (entryForVerb rg verb CapPlan) (\<lambda>e. as_interface cn_isPlanner (ds_Kind (re_descriptor e)) e)"

definition ExecutorForVerb :: "('p, 's) Registry \<Rightarrow> Verb \<Rightarrow> (registry_error, 'p Connector) result" where
  "ExecutorForVerb rg verb =
     rbind (entryForVerb rg verb CapExecute) (\<lambda>e. as_interface cn_isExecutor (ds_Kind (re_descriptor e)) e)"

definition VerifierForVerb :: "('p, 's) Registry \<Rightarrow> Verb \<Rightarrow> (registry_error, 'p Connector) result" where
  "VerifierForVerb rg verb =
     rbind (entryForVerb rg verb CapVerify) (\<lambda>e. as_interface cn_isVerifier (ds_Kind (re_descriptor e)) e)"

definition ValidateArgsForVerb ::
  "('s \<Rightarrow> string \<Rightarrow> bool) \<Rightarrow> ('p, 's) Registry \<Rightarrow> Verb \<Rightarrow> string \<Rightarrow> (registry_error, unit) result" where
  "ValidateArgsForVerb accepts rg verb args =
     (if \<not> IntentVerb_Valid verb then Inl (ErrNotRegistered verb)
      else case map_of (rg_verbs rg) verb of
        None \<Rightarrow> Inl (ErrNotRegistered verb)
      | Some kind \<Rightarrow>
          (case Option.bind (map_of (rg_entries rg) kind) (\<lambda>e. map_of (re_schemas e) verb) of
             None \<Rightarrow> Inl (ErrNotRegistered verb)
           | Some schema \<Rightarrow> if accepts schema args then Inr () else Inl (ArgsRejected verb)))"

definition Registry_Plan ::
  "('s \<Rightarrow> string \<Rightarrow> bool) \<Rightarrow> ('p, 's) Registry \<Rightarrow> Intent \<Rightarrow> (registry_error, 'p) result" where
  "Registry_Plan accepts rg request =
     rbind (ValidateArgsForVerb accepts rg (it_Verb request) (it_Args request)) (\<lambda>_.
     rbind (PlannerForVerb rg (it_Verb request)) (\<lambda>planner. Inr (cn_Plan planner request)))"

subsection \<open>Readers as fleet sources\<close>

record ReaderScope =
  rs_Name :: string
  rs_DisplayName :: string
  rs_Origin :: string
  rs_Kinds :: "string list"
  rs_Reachable :: bool
  rs_ObservedAt :: Time

record Diagnostic =
  dg_Source :: string
  dg_Message :: string

record Discovery =
  dv_Scopes :: "ReaderScope list"
  dv_Unreachable :: "string list"
  dv_Diagnostics :: "Diagnostic list"

definition sortedUnique :: "string list \<Rightarrow> string list" where
  "sortedUnique values = (if values = [] then [] else sorted_set (filter (\<lambda>v. v \<noteq> []) values))"

definition source_clusters :: "string \<Rightarrow> Discovery \<Rightarrow> Cluster list" where
  "source_clusters kind discovery =
     sort_key cl_Name
       (map (\<lambda>s. \<lparr>cl_Name = rs_Name s, cl_Context = rs_Name s, cl_SourceKind = kind,
                  cl_Reachable = rs_Reachable s, cl_ObservedAt = rs_ObservedAt s\<rparr>) (dv_Scopes discovery) @
        map (\<lambda>n. \<lparr>cl_Name = n, cl_Context = n, cl_SourceKind = kind, cl_Reachable = False, cl_ObservedAt = 0\<rparr>)
          (filter (\<lambda>n. n \<notin> rs_Name ` set (dv_Scopes discovery)) (dv_Unreachable discovery)))"

definition source_coverage :: "Cluster list \<Rightarrow> Coverage \<Rightarrow> Coverage" where
  "source_coverage clusters coverage =
     (let coverage =
        (if Requested coverage = 0 \<and> length clusters \<noteq> 0 then
           fold (\<lambda>c cov. if cl_Reachable c then cov\<lparr>Reachable := Reachable cov + 1\<rparr>
                         else cov\<lparr>Unreachable := Unreachable cov @ [cl_Name c]\<rparr>)
             clusters (coverage\<lparr>Requested := int (length clusters)\<rparr>)
         else coverage)
      in coverage\<lparr>Unreachable := sortedUnique (Unreachable coverage),
                  Stale := sortedUnique (Stale coverage),
                  Truncated := sortedUnique (Truncated coverage)\<rparr>)"

datatype source_error = ReaderNil | DiscoverFailed | QueryFailed

text \<open>The reader is nil, or its kind, what \<open>Discover\<close> returns and the coverage its snapshot query returns.\<close>

definition readerSource_Fleet ::
  "(string \<times> Discovery option \<times> QueryResult option) option \<Rightarrow> (source_error, FleetResult) result" where
  "readerSource_Fleet reader =
     (case reader of
        None \<Rightarrow> Inl ReaderNil
      | Some (kind, None, _) \<Rightarrow> Inl DiscoverFailed
      | Some (kind, Some discovery, None) \<Rightarrow> Inl QueryFailed
      | Some (kind, Some discovery, Some query) \<Rightarrow>
          (let clusters = source_clusters kind discovery
           in Inr \<lparr>fr_Clusters = clusters, fr_Coverage = source_coverage clusters (qr_Coverage query)\<rparr>))"

subsection \<open>Facts about validation\<close>

lemma capability_scan_Inr:
  "capability_scan seen cs = Inr out \<Longrightarrow> set out = set seen \<union> set cs"
  by (induction seen cs rule: capability_scan.induct) (auto split: if_splits)

lemma verb_scan_Inr:
  "verb_scan seen vs = Inr out \<Longrightarrow>
     out = rev seen @ vs \<and> (\<forall>v \<in> set vs. IntentVerb_Valid v) \<and> distinct vs \<and> set seen \<inter> set vs = {}"
  by (induction seen vs rule: verb_scan.induct) (auto split: if_splits)

lemma schema_scan_Inr:
  "schema_scan compile seen docs acc = Inr out \<Longrightarrow>
     fst ` set out = fst ` set acc \<union> fst ` set docs \<and> fst ` set docs \<subseteq> set seen"
  by (induction compile seen docs acc rule: schema_scan.induct) (auto split: if_splits option.splits)

lemma first_missing_None: "first_missing vs m = None \<longleftrightarrow> (\<forall>v \<in> set vs. map_of m v \<noteq> None)"
  by (induction vs) auto

lemma validateConnector_Inr:
  assumes "validateConnector compile c = Inr e"
  shows "re_connector e = c" and "ds_Kind (re_descriptor e) = cn_Kind c" and "cn_Kind c \<noteq> []"
    and "set (re_declared e) = set (cn_Capabilities c)"
    and "\<forall>cap \<in> set (re_declared e). implementsCapability c cap"
    and "if ds_ConnKind (re_descriptor e) = KindTypedAction
      then ds_Verbs (re_descriptor e) \<noteq> [] \<and> distinct (ds_Verbs (re_descriptor e)) \<and>
        (\<forall>v \<in> set (ds_Verbs (re_descriptor e)). IntentVerb_Valid v \<and> map_of (re_schemas e) v \<noteq> None)
      else ds_Verbs (re_descriptor e) = []"
proof -
  let ?d = "cn_Descriptor c"
  obtain wire declared ds where w: "canonicalWireVersions (ds_WireVersions ?d) = Inr wire"
    and k: "ds_Kind ?d = cn_Kind c" "cn_Kind c \<noteq> []"
    and dec: "capabilitySet (cn_Capabilities c) = Inr declared"
    and ds: "capabilitySet (ds_Capabilities ?d) = Inr ds"
    and impl: "find (\<lambda>cap. \<not> implementsCapability c cap) declared = None"
    using assms
    by (auto simp: validateConnector_def Let_def rbind_eq_Inr split: if_splits sum.splits option.splits)
  let ?typed = "ds_ConnKind ?d = KindTypedAction"
  have all: "\<forall>cap \<in> set declared. implementsCapability c cap"
    using impl by (auto simp: find_None_iff)
  have tail: "e = \<lparr>re_connector = c, re_descriptor = ?d\<lparr>ds_WireVersions := wire\<rparr>, re_declared = declared,
        re_schemas = re_schemas e\<rparr> \<and>
      (if ?typed then (\<exists>seen. ds_Verbs ?d \<noteq> [] \<and> verb_scan [] (ds_Verbs ?d) = Inr seen \<and>
           first_missing seen (re_schemas e) = None)
       else ds_Verbs ?d = [])"
    using assms k w dec ds impl
    by (auto simp: validateConnector_def Let_def rbind_eq_Inr split: if_splits option.splits)
  then have e: "re_connector e = c" "re_descriptor e = ?d\<lparr>ds_WireVersions := wire\<rparr>" "re_declared e = declared"
    by (metis registryEntry.select_convs)+
  show "re_connector e = c" "ds_Kind (re_descriptor e) = cn_Kind c" "cn_Kind c \<noteq> []"
    using e k by simp_all
  show "set (re_declared e) = set (cn_Capabilities c)"
    using dec e(3) capability_scan_Inr by (force simp: capabilitySet_def)
  show "\<forall>cap \<in> set (re_declared e). implementsCapability c cap"
    using all e(3) by simp
  show "if ds_ConnKind (re_descriptor e) = KindTypedAction
      then ds_Verbs (re_descriptor e) \<noteq> [] \<and> distinct (ds_Verbs (re_descriptor e)) \<and>
        (\<forall>v \<in> set (ds_Verbs (re_descriptor e)). IntentVerb_Valid v \<and> map_of (re_schemas e) v \<noteq> None)
      else ds_Verbs (re_descriptor e) = []"
    using conjunct2 [OF tail] by (auto simp: e(2) first_missing_None dest!: verb_scan_Inr)
qed

subsection \<open>The registry invariant\<close>

definition reg_ok :: "(string \<Rightarrow> 's option) \<Rightarrow> ('p, 's) Registry \<Rightarrow> bool" where
  "reg_ok compile rg \<longleftrightarrow>
     gm_wf (rg_entries rg) \<and> gm_wf (rg_verbs rg) \<and>
     (\<forall>k e. map_of (rg_entries rg) k = Some e \<longrightarrow>
        ds_Kind (re_descriptor e) = k \<and> validateConnector compile (re_connector e) = Inr e) \<and>
     (\<forall>v k. map_of (rg_verbs rg) v = Some k \<longleftrightarrow>
        (\<exists>e. map_of (rg_entries rg) k = Some e \<and> v \<in> set (ds_Verbs (re_descriptor e))))"

definition registry_step ::
  "(string \<Rightarrow> 's option) \<Rightarrow> ('p, 's) Registry \<Rightarrow> 'p Factory \<Rightarrow> ('p, 's) Registry \<Rightarrow> bool" where
  "registry_step compile rg factory rg' \<longleftrightarrow> rg' = snd (Register compile factory rg)"

lemma verb_owner_None: "verb_owner taken vs = None \<longleftrightarrow> (\<forall>v \<in> set vs. map_of taken v = None)"
  by (induction vs) (auto split: option.splits)

lemma fold_put_lookup:
  "map_of (fold (\<lambda>v acc. gm_put v k acc) vs m) x = (if x \<in> set vs then Some k else map_of m x)"
  by (induction vs arbitrary: m) auto

lemma fold_put_wf: "gm_wf m \<Longrightarrow> gm_wf (fold (\<lambda>v acc. gm_put v k acc) vs m)"
  by (induction vs arbitrary: m) auto

lemma Register_cases:
  assumes "Register compile factory rg = (r, rg')"
  obtains (error) e where "r = Inl e" "rg' = rg"
  | (added) c entry where "factory = Some (Inr (Some c))" "validateConnector compile c = Inr entry" "r = Inr ()"
      "map_of (rg_entries rg) (cn_Kind c) = None"
      "\<forall>v \<in> set (ds_Verbs (re_descriptor entry)). map_of (rg_verbs rg) v = None"
      "rg' = \<lparr>rg_entries = gm_put (cn_Kind c) entry (rg_entries rg),
              rg_verbs = fold (\<lambda>v acc. gm_put v (cn_Kind c) acc) (ds_Verbs (re_descriptor entry)) (rg_verbs rg)\<rparr>"
proof (cases "\<exists>c entry. factory = Some (Inr (Some c)) \<and> validateConnector compile c = Inr entry")
  case False
  then have "\<exists>e. Register compile factory rg = (Inl e, rg)"
    by (auto simp: Register_def split: option.split sum.split)
  with assms error show ?thesis by auto
next
  case True
  then obtain c entry where c: "factory = Some (Inr (Some c))" "validateConnector compile c = Inr entry" by blast
  have kind: "ds_Kind (re_descriptor entry) = cn_Kind c" by (rule validateConnector_Inr(2) [OF c(2)])
  show ?thesis
  proof (cases "map_of (rg_entries rg) (cn_Kind c) = None \<and> verb_owner (rg_verbs rg) (ds_Verbs (re_descriptor entry)) = None")
    case True
    then have "Register compile factory rg = (Inr (),
      \<lparr>rg_entries = gm_put (cn_Kind c) entry (rg_entries rg),
       rg_verbs = fold (\<lambda>v acc. gm_put v (cn_Kind c) acc) (ds_Verbs (re_descriptor entry)) (rg_verbs rg)\<rparr>)"
      using c kind by (simp add: Register_def Let_def)
    with assms c True added show ?thesis by (auto simp: verb_owner_None)
  next
    case False
    then have "\<exists>e. Register compile factory rg = (Inl e, rg)"
      using c kind by (auto simp: Register_def Let_def)
    with assms error show ?thesis by auto
  qed
qed

lemma reg_ok_Register:
  assumes "reg_ok compile rg"
  shows "reg_ok compile (snd (Register compile factory rg))"
proof -
  obtain r rg' where R: "Register compile factory rg = (r, rg')" by (cases "Register compile factory rg")
  then show ?thesis
  proof (cases rule: Register_cases)
    case (error e)
    with R assms show ?thesis by simp
  next
    case (added c entry)
    note val = validateConnector_Inr [OF added(2)]
    have old: "(map_of (rg_verbs rg) v = Some k) =
        (\<exists>e. map_of (rg_entries rg) k = Some e \<and> v \<in> set (ds_Verbs (re_descriptor e)))" for v k
      using assms by (simp add: reg_ok_def)
    have "(map_of (rg_verbs rg') v = Some k) =
        (\<exists>e. map_of (rg_entries rg') k = Some e \<and> v \<in> set (ds_Verbs (re_descriptor e)))" for v k
      using added(4,5) old [of v k] old [of v "cn_Kind c"]
      by (auto simp: added(6) fold_put_lookup)
    moreover have "ds_Kind (re_descriptor e) = k \<and> validateConnector compile (re_connector e) = Inr e"
      if "map_of (rg_entries rg') k = Some e" for k e
      using that assms val added(2) by (auto simp: added(6) reg_ok_def split: if_splits)
    moreover have "gm_wf (rg_entries rg')" "gm_wf (rg_verbs rg')"
      using assms by (simp_all add: added(6) reg_ok_def fold_put_wf)
    ultimately show ?thesis using R by (simp add: reg_ok_def)
  qed
qed

lemma reg_ok_New: "reg_ok compile NewRegistry"
  by (simp add: reg_ok_def NewRegistry_def)

interpretation reg: safety_system "\<lambda>rg. rg = NewRegistry" "registry_step compile" "reg_ok compile" for compile
  by unfold_locales (simp_all add: reg_ok_New registry_step_def reg_ok_Register)

lemma schema_scan_compiled:
  "schema_scan compile seen docs acc = Inr out \<Longrightarrow> map_of out v = Some s \<Longrightarrow>
     map_of acc v = Some s \<or> (\<exists>doc. (v, doc) \<in> set docs \<and> compile doc = Some s)"
proof (induction compile seen docs acc rule: schema_scan.induct)
  case (2 compile seen w document rest schemas)
  then obtain comp where "compile document = Some comp" "schema_scan compile seen rest (gm_put w comp schemas) = Inr out"
    by (auto split: if_splits option.splits)
  with "2.IH" "2.prems" show ?case by (auto split: if_splits)
qed simp

lemma validateConnector_schema:
  assumes "validateConnector compile c = Inr e" and "map_of (re_schemas e) v = Some s"
  shows "\<exists>doc. (v, doc) \<in> set (ds_ArgSchemas (cn_Descriptor c)) \<and> compile doc = Some s"
  using assms
  by (auto simp: validateConnector_def Let_def rbind_eq_Inr dest!: schema_scan_compiled
      split: if_splits sum.splits option.splits)

lemma entryForVerb_Inr:
  assumes ok: "reg_ok compile rg" and e: "entryForVerb rg v cap = Inr e"
  shows "IntentVerb_Valid v" and "map_of (rg_verbs rg) v = Some (cn_Kind (re_connector e))"
    and "map_of (rg_entries rg) (cn_Kind (re_connector e)) = Some e"
    and "v \<in> set (ds_Verbs (re_descriptor e))" and "ds_ConnKind (re_descriptor e) = KindTypedAction"
    and "cap \<in> set (cn_Capabilities (re_connector e))" and "implementsCapability (re_connector e) cap"
    and "validateConnector compile (re_connector e) = Inr e"
    and "\<And>k e'. map_of (rg_entries rg) k = Some e' \<Longrightarrow> v \<in> set (ds_Verbs (re_descriptor e')) \<Longrightarrow> k = cn_Kind (re_connector e)"
proof -
  obtain k where k: "IntentVerb_Valid v" "map_of (rg_verbs rg) v = Some k" "map_of (rg_entries rg) k = Some e"
    "ds_ConnKind (re_descriptor e) = KindTypedAction" "cap \<in> set (re_declared e)"
    using e by (auto simp: entryForVerb_def split: if_splits option.splits)
  have val: "validateConnector compile (re_connector e) = Inr e" and "ds_Kind (re_descriptor e) = k"
    using ok k(3) by (auto simp: reg_ok_def)
  note v = validateConnector_Inr [OF val]
  have kk: "k = cn_Kind (re_connector e)" using v(2) \<open>ds_Kind _ = k\<close> by simp
  show "IntentVerb_Valid v" "map_of (rg_verbs rg) v = Some (cn_Kind (re_connector e))"
    "map_of (rg_entries rg) (cn_Kind (re_connector e)) = Some e"
    "ds_ConnKind (re_descriptor e) = KindTypedAction" "validateConnector compile (re_connector e) = Inr e"
    using k kk val by simp_all
  show "v \<in> set (ds_Verbs (re_descriptor e))"
    using ok k(2,3) by (auto simp: reg_ok_def)
  show "cap \<in> set (cn_Capabilities (re_connector e))" "implementsCapability (re_connector e) cap"
    using k(5) v(4,5) by auto
  show "k' = cn_Kind (re_connector e)"
    if "map_of (rg_entries rg) k' = Some e'" "v \<in> set (ds_Verbs (re_descriptor e'))" for k' e'
  proof -
    have "map_of (rg_verbs rg) v = Some k'" using ok that unfolding reg_ok_def by blast
    with k(2) kk show ?thesis by simp
  qed
qed

subsection \<open>Properties\<close>

text \<open>
  Action verbs are routed to their single owner with checked arguments. In every
  registry reached by registrations, a plan is produced only for a closed verb, by the one
  registered connector that declares it, which is a typed-action connector that declares and
  implements planning, and only when the arguments pass the schema that this connector's
  own descriptor document compiles to.
\<close>
theorem Registry_Plan_routed:
  assumes "reach (\<lambda>rg. rg = NewRegistry) (registry_step compile) rg"
    and "Registry_Plan accepts rg request = Inr p"
  shows "\<exists>e schema doc. let c = re_connector e in
    map_of (rg_entries rg) (cn_Kind c) = Some e \<and> p = cn_Plan c request \<and>
    IntentVerb_Valid (it_Verb request) \<and> it_Verb request \<in> set (ds_Verbs (re_descriptor e)) \<and>
    (\<forall>k e'. map_of (rg_entries rg) k = Some e' \<and> it_Verb request \<in> set (ds_Verbs (re_descriptor e')) \<longrightarrow> k = cn_Kind c) \<and>
    ds_ConnKind (re_descriptor e) = KindTypedAction \<and> CapPlan \<in> set (cn_Capabilities c) \<and> cn_isPlanner c \<and>
    (it_Verb request, doc) \<in> set (ds_ArgSchemas (cn_Descriptor c)) \<and> compile doc = Some schema \<and>
    accepts schema (it_Args request)"
proof -
  have ok: "reg_ok compile rg" by (rule reg.reach_inv [OF assms(1)])
  obtain e where e: "entryForVerb rg (it_Verb request) CapPlan = Inr e" "cn_isPlanner (re_connector e)"
      "p = cn_Plan (re_connector e) request"
    and args: "ValidateArgsForVerb accepts rg (it_Verb request) (it_Args request) = Inr ()"
    using assms(2)
    by (auto simp: Registry_Plan_def PlannerForVerb_def rbind_eq_Inr as_interface_def split: if_splits)
  note own = entryForVerb_Inr [OF ok e(1)]
  obtain schema where s: "map_of (re_schemas e) (it_Verb request) = Some schema" "accepts schema (it_Args request)"
    using args own(2,3) by (auto simp: ValidateArgsForVerb_def split: if_splits option.splits)
  obtain doc where "(it_Verb request, doc) \<in> set (ds_ArgSchemas (cn_Descriptor (re_connector e)))" "compile doc = Some schema"
    using validateConnector_schema [OF own(8) s(1)] by blast
  then show ?thesis
    unfolding Let_def using own(1,3-7) own(9) e(2,3) s(2)
    by (intro exI [of _ e] exI [of _ schema] exI [of _ doc] conjI allI impI) (assumption | elim conjE, assumption)+
qed

text \<open>
  Nothing registered is unreachable. In every reachable registry, each action verb of
  a registered connector that declares planning, execution or verification is routed to
  exactly that connector by the corresponding lookup.
\<close>
theorem registered_verbs_routable:
  assumes "reach (\<lambda>rg. rg = NewRegistry) (registry_step compile) rg"
    and "map_of (rg_entries rg) k = Some e" and "v \<in> set (ds_Verbs (re_descriptor e))"
  shows "(CapPlan \<in> set (re_declared e) \<longrightarrow> PlannerForVerb rg v = Inr (re_connector e)) \<and>
    (CapExecute \<in> set (re_declared e) \<longrightarrow> ExecutorForVerb rg v = Inr (re_connector e)) \<and>
    (CapVerify \<in> set (re_declared e) \<longrightarrow> VerifierForVerb rg v = Inr (re_connector e)) \<and>
    map_of (re_schemas e) v \<noteq> None"
proof -
  have ok: "reg_ok compile rg" by (rule reg.reach_inv [OF assms(1)])
  have val: "validateConnector compile (re_connector e) = Inr e" using ok assms(2) by (simp add: reg_ok_def)
  note facts = validateConnector_Inr [OF val]
  have typed: "ds_ConnKind (re_descriptor e) = KindTypedAction" "IntentVerb_Valid v" "map_of (re_schemas e) v \<noteq> None"
    using facts(6) assms(3) by (auto split: if_splits)
  have "map_of (rg_verbs rg) v = Some k" using ok assms(2,3) unfolding reg_ok_def by blast
  then have entry: "cap \<in> set (re_declared e) \<Longrightarrow> entryForVerb rg v cap = Inr e" for cap
    using typed assms(2) by (simp add: entryForVerb_def)
  have impl: "cap \<in> set (re_declared e) \<Longrightarrow> implementsCapability (re_connector e) cap" for cap
    using facts(5) by simp
  show ?thesis
    using typed(3) impl [of CapPlan] impl [of CapExecute] impl [of CapVerify]
    by (simp add: PlannerForVerb_def ExecutorForVerb_def VerifierForVerb_def entry as_interface_def
        implementsCapability_def)
qed

text \<open>
  Registration is atomic and never displaces anything: a failed registration leaves
  the registry as it was, and a successful one adds exactly one kind that was free, gives it
  the connector's verbs that were free, and changes no other entry and no other verb.
\<close>
theorem Register_atomic:
  "case Register compile factory rg of (r, rg') \<Rightarrow>
     (\<exists>err. r = Inl err \<and> rg' = rg) \<or>
     (\<exists>c entry. r = Inr () \<and> factory = Some (Inr (Some c)) \<and> validateConnector compile c = Inr entry \<and>
        ByKind rg (cn_Kind c) = None \<and> ByKind rg' (cn_Kind c) = Some c \<and>
        map_of (rg_entries rg') = (map_of (rg_entries rg))(cn_Kind c \<mapsto> entry) \<and>
        set (ds_Verbs (re_descriptor entry)) \<inter> dom (map_of (rg_verbs rg)) = {} \<and>
        map_of (rg_verbs rg') = (\<lambda>v. if v \<in> set (ds_Verbs (re_descriptor entry)) then Some (cn_Kind c)
                                    else map_of (rg_verbs rg) v))"
proof -
  obtain r rg' where R: "Register compile factory rg = (r, rg')" by (cases "Register compile factory rg")
  then show ?thesis
  proof (cases rule: Register_cases)
    case (error e)
    with R show ?thesis by simp
  next
    case (added c entry)
    have "re_connector entry = c" by (rule validateConnector_Inr(1) [OF added(2)])
    with R added show ?thesis
      by (auto simp: ByKind_def fun_eq_iff fold_put_lookup)
  qed
qed

subsection \<open>Witnesses\<close>

definition sample_descriptor :: Descriptor where
  "sample_descriptor = \<lparr>ds_Kind = ''argocd'', ds_ConnKind = KindTypedAction,
     ds_WireVersions = [CurrentWireVersion], ds_AdapterVersion = ''v1'', ds_Owner = ''platform'',
     ds_Capabilities = [CapPlan, CapVerify], ds_Verbs = [VerbArgoCDSync, VerbArgoCDRollback],
     ds_ArgSchemas = [(VerbArgoCDSync, ''{}''), (VerbArgoCDRollback, ''{}'')]\<rparr>"

definition sample_connector :: "string Connector" where
  "sample_connector = \<lparr>cn_Kind = ''argocd'', cn_Capabilities = [CapVerify, CapPlan],
     cn_Descriptor = sample_descriptor, cn_isReader = False, cn_isDiffer = False, cn_isPlanner = True,
     cn_isExecutor = False, cn_isVerifier = True, cn_Plan = it_ID\<rparr>"

definition sample_compile :: "string \<Rightarrow> string option" where
  "sample_compile doc = (if doc = ''{}'' then Some doc else None)"

definition sample_registry :: "(string, string) Registry" where
  "sample_registry = snd (Register sample_compile (Some (Inr (Some sample_connector))) NewRegistry)"

definition sample_intent :: Intent where
  "sample_intent = \<lparr>it_ID = ''i-1'', it_Workspace = ''payments'', it_Actor = ''alice'', it_Verb = VerbArgoCDSync,
     it_Target = \<lparr>SourceKind = ''argocd'', RefScope = ''west'', RefKind = ''Application'', RefNamespace = [],
       RefName = ''api'', Attributes = []\<rparr>,
     it_Args = ''{}'', it_Justification = [], it_EvidenceRefs = [], it_Signature = []\<rparr>"

lemma sample_registry_reach: "reach (\<lambda>rg. rg = NewRegistry) (registry_step sample_compile) sample_registry"
  unfolding sample_registry_def
  by (rule reach_step [OF reach_init]) (simp_all add: registry_step_def)

theorem Registry_Plan_routed_witness:
  "Registry_Plan (\<lambda>s a. a \<noteq> []) sample_registry sample_intent = Inr ''i-1'' \<and>
   (\<exists>e. map_of (rg_entries sample_registry) (cn_Kind (re_connector e)) = Some e \<and>
      cn_isPlanner (re_connector e) \<and> it_Verb sample_intent \<in> set (ds_Verbs (re_descriptor e)))"
proof -
  have run: "Registry_Plan (\<lambda>s a. a \<noteq> []) sample_registry sample_intent = Inr ''i-1''" by code_simp
  from Registry_Plan_routed [OF sample_registry_reach run] run show ?thesis
    by (auto simp: Let_def)
qed

theorem registered_verbs_routable_witness:
  "\<exists>e. map_of (rg_entries sample_registry) ''argocd'' = Some e \<and>
     PlannerForVerb sample_registry VerbArgoCDRollback = Inr (re_connector e) \<and>
     VerifierForVerb sample_registry VerbArgoCDRollback = Inr (re_connector e)"
proof -
  have present: "case map_of (rg_entries sample_registry) ''argocd'' of None \<Rightarrow> False
      | Some e \<Rightarrow> VerbArgoCDRollback \<in> set (ds_Verbs (re_descriptor e)) \<and>
          CapPlan \<in> set (re_declared e) \<and> CapVerify \<in> set (re_declared e)"
    by code_simp
  then obtain e where e: "map_of (rg_entries sample_registry) ''argocd'' = Some e"
    "VerbArgoCDRollback \<in> set (ds_Verbs (re_descriptor e))"
    "CapPlan \<in> set (re_declared e)" "CapVerify \<in> set (re_declared e)"
    by (auto split: option.splits)
  from registered_verbs_routable [OF sample_registry_reach e(1,2)] e show ?thesis by blast
qed

end
