(* ===== verification/Tenancy.thy ===== *)
theory Tenancy
  imports Go_Strings
begin

text \<open>
  The workspace tenancy boundary (\<open>internal/tenancy\<close>): identifiers, roles and their permission
  matrix, principals built from signed memberships, and the verified scope threaded through
  every hub operation. Roles and actions are Go strings, so values outside the closed
  vocabularies are part of the model and must fail closed.
\<close>

subsection \<open>Identifiers\<close>

definition maxIdentityLength :: nat where
  "maxIdentityLength = 256"

type_synonym WorkspaceID = string
type_synonym Role = string
type_synonym Action = string

datatype tenancy_error =
    NotTrimmed string
  | TooLong string
  | ControlCharacter string
  | UnsupportedRole Role
  | NoMembership
  | NotAMember WorkspaceID
  | RoleForbids Role Action
  | ScopeMismatch
  | AccessorRequired
  | MismatchAt nat tenancy_error

definition validateIdentity :: "string \<Rightarrow> string \<Rightarrow> (tenancy_error, unit) result" where
  "validateIdentity name v =
     (if v = [] \<or> \<not> utf8_valid v \<or> trim_space v \<noteq> v then Inl (NotTrimmed name)
      else if length v > maxIdentityLength then Inl (TooLong name)
      else if has_control v then Inl (ControlCharacter name)
      else Inr ())"

definition validateDisplayName :: "string \<Rightarrow> string \<Rightarrow> (tenancy_error, unit) result" where
  "validateDisplayName name v =
     (if v = [] \<or> \<not> utf8_valid v \<or> trim_space v \<noteq> v then Inl (NotTrimmed name)
      else if length v > maxIdentityLength then Inl (TooLong name)
      else if has_control v then Inl (ControlCharacter name)
      else Inr ())"

definition ValidateWorkspaceID :: "WorkspaceID \<Rightarrow> (tenancy_error, unit) result" where
  "ValidateWorkspaceID w = validateIdentity ''workspace ID'' w"

subsection \<open>Roles and actions\<close>

abbreviation RoleReader :: Role where "RoleReader \<equiv> ''reader''"
abbreviation RoleOperator :: Role where "RoleOperator \<equiv> ''operator''"
abbreviation RoleApprover :: Role where "RoleApprover \<equiv> ''approver''"
abbreviation RoleAdmin :: Role where "RoleAdmin \<equiv> ''admin''"

abbreviation ActionRead :: Action where "ActionRead \<equiv> ''read''"
abbreviation ActionExportAudit :: Action where "ActionExportAudit \<equiv> ''export-audit''"
abbreviation ActionProposeIntent :: Action where "ActionProposeIntent \<equiv> ''propose-intent''"
abbreviation ActionApproveIntent :: Action where "ActionApproveIntent \<equiv> ''approve-intent''"
abbreviation ActionManageWorkspace :: Action where "ActionManageWorkspace \<equiv> ''manage-workspace''"

definition Role_Valid :: "Role \<Rightarrow> bool" where
  "Role_Valid role \<longleftrightarrow>
     role = RoleReader \<or> role = RoleOperator \<or> role = RoleApprover \<or> role = RoleAdmin"

definition Role_Allows :: "Role \<Rightarrow> Action \<Rightarrow> bool" where
  "Role_Allows role action =
     (if role = RoleReader then action = ActionRead
      else if role = RoleOperator then action = ActionRead \<or> action = ActionProposeIntent
      else if role = RoleApprover then action = ActionRead \<or> action = ActionApproveIntent
      else if role = RoleAdmin
        then action = ActionRead \<or> action = ActionExportAudit \<or> action = ActionManageWorkspace
      else False)"

subsection \<open>Workspaces and memberships\<close>

record Workspace =
  ws_ID :: WorkspaceID
  ws_Name :: string
  ws_TenantKey :: string

definition Workspace_Validate :: "Workspace \<Rightarrow> (tenancy_error, unit) result" where
  "Workspace_Validate w =
     rbind (validateIdentity ''workspace ID'' (ws_ID w)) (\<lambda>_.
     rbind (validateDisplayName ''workspace name'' (ws_Name w)) (\<lambda>_.
     rbind (validateIdentity ''tenant key'' (ws_TenantKey w)) (\<lambda>_. Inr ())))"

record Membership =
  mb_WorkspaceID :: WorkspaceID
  mb_Subject :: string
  mb_Role :: Role

definition Membership_Validate :: "Membership \<Rightarrow> (tenancy_error, unit) result" where
  "Membership_Validate m =
     rbind (validateIdentity ''workspace ID'' (mb_WorkspaceID m)) (\<lambda>_.
     rbind (validateIdentity ''subject'' (mb_Subject m)) (\<lambda>_.
     if \<not> Role_Valid (mb_Role m) then Inl (UnsupportedRole (mb_Role m)) else Inr ()))"

subsection \<open>Principals\<close>

record Principal =
  pr_subject :: string
  pr_memberships :: "(WorkspaceID, Role) gomap"

text \<open>
  The loop of \<open>NewPrincipal\<close> over the signed claims: each membership is validated, then copied.
  The loop visits the entries of a Go map, in an order of its own choosing; the model visits
  them in list order, and a failure at any entry refuses the principal.
\<close>

fun clone_memberships ::
  "string \<Rightarrow> (WorkspaceID, Role) gomap \<Rightarrow> (WorkspaceID, Role) gomap
     \<Rightarrow> (tenancy_error, (WorkspaceID, Role) gomap) result" where
  "clone_memberships subject [] cloned = Inr cloned"
| "clone_memberships subject ((w, r) # rest) cloned =
     rbind (Membership_Validate \<lparr>mb_WorkspaceID = w, mb_Subject = subject, mb_Role = r\<rparr>)
       (\<lambda>_. clone_memberships subject rest (gm_put w r cloned))"

definition NewPrincipal ::
  "string \<Rightarrow> (WorkspaceID, Role) gomap \<Rightarrow> (tenancy_error, Principal) result" where
  "NewPrincipal subject memberships =
     rbind (validateIdentity ''subject'' subject) (\<lambda>_.
     if memberships = [] then Inl NoMembership
     else rbind (clone_memberships subject memberships [])
       (\<lambda>cloned. Inr \<lparr>pr_subject = subject, pr_memberships = cloned\<rparr>))"

definition Memberships :: "Principal \<Rightarrow> (WorkspaceID, Role) gomap" where
  "Memberships p = fold (\<lambda>(w, r) acc. gm_put w r acc) (pr_memberships p) []"

subsection \<open>Scopes\<close>

record Scope =
  sc_workspaceID :: WorkspaceID
  sc_subject :: string
  sc_role :: Role

definition zero_scope :: Scope where
  "zero_scope = \<lparr>sc_workspaceID = [], sc_subject = [], sc_role = []\<rparr>"

definition Principal_Scope :: "Principal \<Rightarrow> WorkspaceID \<Rightarrow> (tenancy_error, Scope) result" where
  "Principal_Scope p w =
     rbind (validateIdentity ''workspace ID'' w) (\<lambda>_.
     case map_of (pr_memberships p) w of
       None \<Rightarrow> Inl (NotAMember w)
     | Some role \<Rightarrow>
         if \<not> Role_Valid role then Inl (NotAMember w)
         else Inr \<lparr>sc_workspaceID = w, sc_subject = pr_subject p, sc_role = role\<rparr>)"

definition Authorize :: "Scope \<Rightarrow> Action \<Rightarrow> (tenancy_error, unit) result" where
  "Authorize scope action =
     (if \<not> Role_Allows (sc_role scope) action then Inl (RoleForbids (sc_role scope) action) else Inr ())"

definition RequireWorkspace :: "Scope \<Rightarrow> WorkspaceID \<Rightarrow> (tenancy_error, unit) result" where
  "RequireWorkspace scope w =
     (if sc_workspaceID scope = [] \<or> w \<noteq> sc_workspaceID scope then Inl ScopeMismatch else Inr ())"

fun require_from ::
  "Scope \<Rightarrow> nat \<Rightarrow> 'a list \<Rightarrow> ('a \<Rightarrow> WorkspaceID) \<Rightarrow> (tenancy_error, unit) result" where
  "require_from scope i [] f = Inr ()"
| "require_from scope i (x # xs) f =
     (case RequireWorkspace scope (f x) of
        Inl e \<Rightarrow> Inl (MismatchAt i e)
      | Inr _ \<Rightarrow> require_from scope (Suc i) xs f)"

definition RequireAll ::
  "Scope \<Rightarrow> 'a list \<Rightarrow> ('a \<Rightarrow> WorkspaceID) option \<Rightarrow> (tenancy_error, unit) result" where
  "RequireAll scope xs workspaceOf =
     (case workspaceOf of None \<Rightarrow> Inl AccessorRequired | Some f \<Rightarrow> require_from scope 0 xs f)"

subsection \<open>Facts\<close>

lemma validateIdentity_ok_iff:
  "is_ok (validateIdentity name v) \<longleftrightarrow>
     v \<noteq> [] \<and> utf8_valid v \<and> trim_space v = v \<and> length v \<le> maxIdentityLength \<and> \<not> has_control v"
  by (auto simp: validateIdentity_def)

lemma validateIdentity_Inr:
  "validateIdentity name v = Inr x \<longleftrightarrow>
     v \<noteq> [] \<and> utf8_valid v \<and> trim_space v = v \<and> length v \<le> maxIdentityLength \<and> \<not> has_control v"
  by (auto simp: validateIdentity_def)

lemma Role_Allows_Valid: "Role_Allows role action \<Longrightarrow> Role_Valid role"
  by (auto simp: Role_Allows_def Role_Valid_def split: if_splits)

lemma Role_Allows_unfold [go_simps]:
  "Role_Allows role ActionRead \<longleftrightarrow> Role_Valid role"
  "Role_Allows role ActionProposeIntent \<longleftrightarrow> role = RoleOperator"
  "Role_Allows role ActionApproveIntent \<longleftrightarrow> role = RoleApprover"
  "Role_Allows role ActionExportAudit \<longleftrightarrow> role = RoleAdmin"
  "Role_Allows role ActionManageWorkspace \<longleftrightarrow> role = RoleAdmin"
  by (auto simp: Role_Allows_def Role_Valid_def)

lemma Membership_Validate_Inr:
  "Membership_Validate m = Inr x \<longleftrightarrow>
     is_ok (validateIdentity ''workspace ID'' (mb_WorkspaceID m)) \<and>
     is_ok (validateIdentity ''subject'' (mb_Subject m)) \<and> Role_Valid (mb_Role m)"
  by (auto simp: Membership_Validate_def rbind_eq_Inr is_ok_iff split: if_splits)

lemma clone_memberships_Inr:
  assumes "clone_memberships subject ms acc = Inr out" and "gm_wf ms"
    and "fst ` set acc \<inter> fst ` set ms = {}"
  shows "map_of out = map_of acc ++ map_of ms \<and>
    (\<forall>(w, r) \<in> set ms. is_ok (validateIdentity ''workspace ID'' w) \<and> Role_Valid r)"
  using assms
proof (induction subject ms acc arbitrary: out rule: clone_memberships.induct)
  case 1
  then show ?case by simp
next
  case (2 subject w r rest acc)
  have ok: "is_ok (validateIdentity ''workspace ID'' w)" "Role_Valid r"
    and rec: "clone_memberships subject rest (gm_put w r acc) = Inr out"
    using "2.prems"(1) by (auto simp: rbind_eq_Inr Membership_Validate_Inr)
  have wf: "gm_wf rest" and fresh: "w \<notin> fst ` set rest"
    using "2.prems"(2) by (auto simp: gm_wf_def)
  have "fst ` set (gm_put w r acc) \<inter> fst ` set rest = {}"
    using "2.prems"(3) fresh by auto
  from "2.IH" [OF rec wf this] have
    "map_of out = map_of (gm_put w r acc) ++ map_of rest \<and>
      (\<forall>(w, r) \<in> set rest. is_ok (validateIdentity ''workspace ID'' w) \<and> Role_Valid r)"
    by blast
  moreover have "map_of rest w = None" using fresh by (simp add: map_of_eq_None_iff)
  ultimately show ?case using ok
    by (auto simp: map_add_def fun_eq_iff split: option.splits)
qed

lemma NewPrincipal_Inr:
  assumes "NewPrincipal subject ms = Inr p" and "gm_wf ms"
  shows "pr_subject p = subject" and "map_of (pr_memberships p) = map_of ms"
    and "is_ok (validateIdentity ''subject'' subject)"
    and "\<And>w r. map_of ms w = Some r \<Longrightarrow> is_ok (validateIdentity ''workspace ID'' w) \<and> Role_Valid r"
proof -
  obtain out where out: "clone_memberships subject ms [] = Inr out"
    and p: "p = \<lparr>pr_subject = subject, pr_memberships = out\<rparr>"
    and sub: "is_ok (validateIdentity ''subject'' subject)"
    using assms(1) by (auto simp: NewPrincipal_def rbind_eq_Inr is_ok_iff split: if_splits)
  from clone_memberships_Inr [OF out assms(2)] have
    out_map: "map_of out = map_of ms" and
    all: "\<forall>(w, r) \<in> set ms. is_ok (validateIdentity ''workspace ID'' w) \<and> Role_Valid r"
    by auto
  show "pr_subject p = subject" "map_of (pr_memberships p) = map_of ms"
    "is_ok (validateIdentity ''subject'' subject)"
    using p out_map sub by simp_all
  show "is_ok (validateIdentity ''workspace ID'' w) \<and> Role_Valid r" if "map_of ms w = Some r" for w r
    using all map_of_SomeD [OF that] by auto
qed

lemma require_from_Inr:
  "require_from scope i xs f = Inr x \<longleftrightarrow>
     (\<forall>y \<in> set xs. f y = sc_workspaceID scope \<and> sc_workspaceID scope \<noteq> [])"
  by (induction xs arbitrary: i) (auto simp: RequireWorkspace_def)

lemma require_from_Inl:
  "require_from scope i xs f = Inl e \<Longrightarrow>
     \<exists>k < length xs. e = MismatchAt (i + k) ScopeMismatch \<and>
       (sc_workspaceID scope = [] \<or> f (xs ! k) \<noteq> sc_workspaceID scope) \<and>
       (\<forall>j < k. f (xs ! j) = sc_workspaceID scope)"
proof (induction xs arbitrary: i)
  case Nil
  then show ?case by simp
next
  case (Cons x xs)
  show ?case
  proof (cases "sc_workspaceID scope = [] \<or> f x \<noteq> sc_workspaceID scope")
    case True
    with Cons.prems show ?thesis by (intro exI [of _ 0]) (auto simp: RequireWorkspace_def)
  next
    case False
    with Cons.prems have "require_from scope (Suc i) xs f = Inl e"
      by (auto simp: RequireWorkspace_def)
    from Cons.IH [OF this] obtain k where k: "k < length xs" "e = MismatchAt (Suc i + k) ScopeMismatch"
      "sc_workspaceID scope = [] \<or> f (xs ! k) \<noteq> sc_workspaceID scope"
      "\<forall>j < k. f (xs ! j) = sc_workspaceID scope" by blast
    with False show ?thesis
      by (intro exI [of _ "Suc k"]) (auto simp: nth_Cons split: nat.splits)
  qed
qed

subsection \<open>Properties\<close>

text \<open>
  Authority is exactly the signed membership. A scope obtained from a principal
  carries the principal's subject, the requested workspace and the very role the verified
  claims list for that workspace; an action it authorises is one the role matrix allows; and
  a workspace missing from the claims yields no scope at all.
\<close>
theorem scope_is_signed_membership:
  assumes "NewPrincipal subject memberships = Inr p" and "gm_wf memberships"
  shows "(case Principal_Scope p w of
      Inr scope \<Rightarrow> map_of memberships w = Some (sc_role scope) \<and> Role_Valid (sc_role scope) \<and>
        sc_workspaceID scope = w \<and> w \<noteq> [] \<and> sc_subject scope = subject \<and>
        (Authorize scope a = Inr () \<longleftrightarrow> Role_Allows (sc_role scope) a)
    | Inl e \<Rightarrow> map_of memberships w = None)"
proof -
  note np = NewPrincipal_Inr [OF assms]
  show ?thesis
  proof (cases "map_of memberships w")
    case None
    then show ?thesis
      by (auto simp: Principal_Scope_def np(1,2) rbind_def split: sum.splits)
  next
    case (Some role)
    from np(4) [OF Some] have ok: "is_ok (validateIdentity ''workspace ID'' w)" "Role_Valid role" by auto
    have scope: "Principal_Scope p w = Inr \<lparr>sc_workspaceID = w, sc_subject = subject, sc_role = role\<rparr>"
      using ok Some np(1,2) by (auto simp: Principal_Scope_def is_ok_iff)
    show ?thesis
      using ok Some by (auto simp: scope validateIdentity_ok_iff Authorize_def)
  qed
qed

definition sample_memberships :: "(WorkspaceID, Role) gomap" where
  "sample_memberships = [(''payments'', RoleOperator), (''search'', RoleReader)]"

definition sample_principal :: Principal where
  "sample_principal = \<lparr>pr_subject = ''alice'', pr_memberships = sample_memberships\<rparr>"

theorem scope_is_signed_membership_witness:
  "NewPrincipal ''alice'' sample_memberships = Inr sample_principal \<and>
   (\<exists>scope. Principal_Scope sample_principal ''payments'' = Inr scope \<and>
      map_of sample_memberships ''payments'' = Some (sc_role scope) \<and>
      Authorize scope ActionProposeIntent = Inr ())"
proof -
  have h: "NewPrincipal ''alice'' sample_memberships = Inr sample_principal"
    "gm_wf sample_memberships" "is_ok (Principal_Scope sample_principal ''payments'')"
    "map_of sample_memberships ''payments'' = Some RoleOperator"
    "Role_Allows RoleOperator ActionProposeIntent"
    by code_simp+
  then obtain scope where s: "Principal_Scope sample_principal ''payments'' = Inr scope"
    by (auto simp: is_ok_iff)
  from scope_is_signed_membership [OF h(1,2), of "''payments''" ActionProposeIntent] s h(4,5)
  show ?thesis using h(1) by auto
qed

text \<open>
  Duties are separated. No role may both propose and approve an intent, approve and
  manage the workspace, or propose and export the audit trail; every valid role may read; a
  string that is not one of the four roles may do nothing.
\<close>
theorem roles_separate_duties:
  "\<not> (Role_Allows r ActionProposeIntent \<and> Role_Allows r ActionApproveIntent) \<and>
   \<not> (Role_Allows r ActionApproveIntent \<and> Role_Allows r ActionManageWorkspace) \<and>
   \<not> (Role_Allows r ActionProposeIntent \<and> Role_Allows r ActionExportAudit) \<and>
   (Role_Allows r ActionRead \<longleftrightarrow> Role_Valid r) \<and>
   (Role_Valid r \<longleftrightarrow> (\<exists>a. Role_Allows r a))"
proof -
  have read: "Role_Allows r ActionRead \<longleftrightarrow> Role_Valid r"
    using Role_Allows_Valid [of r] by (auto simp: Role_Allows_unfold)
  then have "Role_Valid r \<longleftrightarrow> (\<exists>a. Role_Allows r a)" using Role_Allows_Valid [of r] by blast
  with read show ?thesis by (auto simp: Role_Allows_unfold)
qed

text \<open>
  The bulk workspace check passes exactly when every value belongs to the scope's
  (non-empty) workspace, and otherwise it names the index of the first foreign value.
\<close>
theorem RequireAll_first_foreign:
  "case RequireAll scope xs (Some f) of
     Inr _ \<Rightarrow> (\<forall>x \<in> set xs. f x = sc_workspaceID scope \<and> sc_workspaceID scope \<noteq> [])
   | Inl e \<Rightarrow> (\<exists>k < length xs. e = MismatchAt k ScopeMismatch \<and>
       (sc_workspaceID scope = [] \<or> f (xs ! k) \<noteq> sc_workspaceID scope) \<and>
       (\<forall>j < k. f (xs ! j) = sc_workspaceID scope))"
proof (cases "require_from scope 0 xs f")
  case (Inl e)
  from require_from_Inl [OF Inl] show ?thesis by (simp add: RequireAll_def Inl)
next
  case (Inr u)
  then show ?thesis using require_from_Inr [of scope 0 xs f u] by (simp add: RequireAll_def)
qed

theorem RequireAll_first_foreign_witness:
  "RequireAll \<lparr>sc_workspaceID = ''a'', sc_subject = ''alice'', sc_role = RoleReader\<rparr>
     [''a'', ''b'', ''a''] (Some (\<lambda>w. w)) = Inl (MismatchAt 1 ScopeMismatch) \<and>
   (\<exists>k < 3. [''a'', ''b'', ''a''] ! k \<noteq> ''a'' \<and> MismatchAt 1 ScopeMismatch = MismatchAt k ScopeMismatch)"
proof -
  let ?s = "\<lparr>sc_workspaceID = ''a'', sc_subject = ''alice'', sc_role = RoleReader\<rparr>"
  have r: "RequireAll ?s [''a'', ''b'', ''a''] (Some (\<lambda>w. w)) = Inl (MismatchAt 1 ScopeMismatch)"
    by code_simp
  from RequireAll_first_foreign [where scope = ?s and xs = "[''a'', ''b'', ''a'']" and f = "\<lambda>w. w"] r show ?thesis by auto
qed

end
