(* ===== verification/Cache_Store.thy ===== *)
theory Cache_Store
  imports Cache_Query Connector_Registry Tenancy
begin

text \<open>
  The fleet cache (\<open>internal/fleetcache/store.go\<close>, \<open>scoped.go\<close>): normalised last-known records,
  coverage, scopes and lifecycle flags, all keyed by workspace. Every operation runs under the
  store's lock, so it is one step of the model. The clock's reading is the argument \<open>now\<close>;
  change channels are numbered, and a channel is closed at most once. Copies of Go values are
  the values themselves, and ranging over a Go map follows the list order.
\<close>

subsection \<open>State\<close>

type_synonym ws_kind = "string \<times> string"
type_synonym ws_scope = "string \<times> string"
type_synonym State = string

abbreviation StateCold :: State where "StateCold \<equiv> ''cold''"
abbreviation StateWarming :: State where "StateWarming \<equiv> ''warming''"
abbreviation StateWarm :: State where "StateWarm \<equiv> ''warm''"
abbreviation StateDegraded :: State where "StateDegraded \<equiv> ''degraded''"
abbreviation StateOffline :: State where "StateOffline \<equiv> ''offline''"
abbreviation StatePaused :: State where "StatePaused \<equiv> ''paused''"

record Snapshot =
  sn_Version :: "64 word"
  sn_State :: State
  sn_Syncing :: bool
  sn_Paused :: bool
  sn_Records :: "Record list"
  sn_Coverage :: Coverage
  sn_UpdatedAt :: Time
  sn_LastError :: string
  sn_Scopes :: "ReaderScope list"
  sn_Diagnostics :: "Diagnostic list"

record Store =
  cs_records :: "(string, (string, Record) gomap) gomap"
  cs_coverage :: "(ws_kind, Coverage) gomap"
  cs_aliases :: "(ws_kind, string) gomap"
  cs_scopes :: "(ws_scope, ReaderScope) gomap"
  cs_diagnostics :: "(string, Diagnostic list) gomap"
  cs_scopeWorkspaces :: "(string, (string, bool) gomap) gomap"
  cs_warmed :: "(ws_kind, bool) gomap"
  cs_expected :: "(ws_kind, bool) gomap"
  cs_syncing :: "(string, bool) gomap"
  cs_paused :: "(string, bool) gomap"
  cs_syncErrors :: "(string, string) gomap"
  cs_watchErrors :: "(ws_kind, string) gomap"
  cs_updatedAt :: "(string, Time) gomap"
  cs_versions :: "(string, 64 word) gomap"
  cs_changed :: "(string, nat) gomap"
  cs_closed :: "nat list"
  cs_channels :: nat
  cs_freshFor :: int

definition defaultFreshFor :: int where
  "defaultFreshFor = 15 * 1000000000"

definition newStore :: "int \<Rightarrow> Store" where
  "newStore freshFor = \<lparr>cs_records = [], cs_coverage = [], cs_aliases = [], cs_scopes = [],
     cs_diagnostics = [], cs_scopeWorkspaces = [], cs_warmed = [], cs_expected = [], cs_syncing = [],
     cs_paused = [], cs_syncErrors = [], cs_watchErrors = [], cs_updatedAt = [], cs_versions = [],
     cs_changed = [], cs_closed = [], cs_channels = 0, cs_freshFor = freshFor\<rparr>"

datatype cache_error =
    CacheWorkspace tenancy_error
  | KindRequired
  | NormalizeFailed record_error
  | FactWorkspaceMismatch string string
  | FactScopeMismatch string string
  | KindAndScopeRequired
  | ErrorEventWithoutError
  | UnsupportedEvent string
  | ScopeNotDiscovered string string
  | CacheStoreNil
  | CacheScopeRequired
  | CacheUnauthorized tenancy_error
  | CacheScopeEscape tenancy_error

definition zero_reader_scope :: ReaderScope where
  "zero_reader_scope = \<lparr>rs_Name = [], rs_DisplayName = [], rs_Origin = [], rs_Kinds = [],
     rs_Reachable = False, rs_ObservedAt = 0\<rparr>"

definition zero_fact :: Fact where
  "zero_fact = \<lparr>Ref = \<lparr>SourceKind = [], RefScope = [], RefKind = [], RefNamespace = [], RefName = [], Attributes = []\<rparr>,
     FKind = [], Observed = [], Display = [], ObservedAt = 0, Source = [],
     FProvenance = \<lparr>Adapter = [], ProtocolV = [], NativeID = [], DeepLink = [], Collector = []\<rparr>,
     FWorkspace = [], FStale = False, FStaleFor = []\<rparr>"

subsection \<open>Small helpers\<close>

definition kindAlias :: "unicode_case \<Rightarrow> string \<Rightarrow> string" where
  "kindAlias u kind = to_lower u (canonicalKind u kind)"

definition recordKey :: "Record \<Rightarrow> string" where
  "recordKey r = join [rc_Workspace r, rc_Kind r, rc_Cluster r, rc_Namespace r, rc_Name r] [NUL]"

definition removeString :: "string list \<Rightarrow> string \<Rightarrow> string list" where
  "removeString values unwanted = filter (\<lambda>v. v \<noteq> unwanted) values"

definition appendUniqueSorted :: "string list \<Rightarrow> string \<Rightarrow> string list" where
  "appendUniqueSorted values added = (if List.member values added then values else sort (values @ [added]))"

definition scope_member :: "Store \<Rightarrow> string \<Rightarrow> string \<Rightarrow> bool" where
  "scope_member st scope workspace = gm_get False (gm_get [] (cs_scopeWorkspaces st) scope) workspace"

definition notifyLocked :: "string \<Rightarrow> Store \<Rightarrow> Store" where
  "notifyLocked workspace st =
     st\<lparr>cs_versions := gm_put workspace (gm_get 0 (cs_versions st) workspace + 1) (cs_versions st),
        cs_closed := (case map_of (cs_changed st) workspace of
                        None \<Rightarrow> cs_closed st | Some ch \<Rightarrow> ch # cs_closed st),
        cs_changed := gm_put workspace (cs_channels st) (cs_changed st),
        cs_channels := Suc (cs_channels st)\<rparr>"

definition markScopeWorkspaceLocked :: "string \<Rightarrow> string \<Rightarrow> Store \<Rightarrow> Store" where
  "markScopeWorkspaceLocked workspace scope st =
     (if trim_space workspace = [] \<or> trim_space scope = [] then st
      else st\<lparr>cs_scopeWorkspaces :=
                gm_put scope (gm_put workspace True (gm_get [] (cs_scopeWorkspaces st) scope)) (cs_scopeWorkspaces st),
              cs_scopes := (case map_of (cs_scopes st) (workspace, scope) of
                              Some _ \<Rightarrow> cs_scopes st
                            | None \<Rightarrow> gm_put (workspace, scope) (zero_reader_scope\<lparr>rs_Name := scope\<rparr>) (cs_scopes st))\<rparr>)"

definition workspaceScopeCountLocked :: "Store \<Rightarrow> string \<Rightarrow> int" where
  "workspaceScopeCountLocked st workspace =
     int (length (filter (\<lambda>(name, memberships). gm_get False memberships workspace) (cs_scopeWorkspaces st)))"

definition recordCountLocked :: "Store \<Rightarrow> string \<Rightarrow> int" where
  "recordCountLocked st workspace =
     int (sum_list (map (\<lambda>(kind, records). length (filter (\<lambda>(key, r). rc_Workspace r = workspace) records)) (cs_records st)))"

definition workspaceWarmedLocked :: "Store \<Rightarrow> string \<Rightarrow> bool" where
  "workspaceWarmedLocked st workspace = list_ex (\<lambda>((w, kind), warmed). w = workspace \<and> warmed) (cs_warmed st)"

subsection \<open>Lifecycle operations\<close>

definition expect_kind :: "unicode_case \<Rightarrow> string \<Rightarrow> string \<Rightarrow> Store \<Rightarrow> Store" where
  "expect_kind u workspace kind st =
     (let canonical = canonicalKind u kind in
      if canonical \<noteq> [] then
        st\<lparr>cs_expected := gm_put (workspace, canonical) True (cs_expected st),
           cs_aliases := gm_put (workspace, kindAlias u kind) canonical (cs_aliases st)\<rparr>
      else st)"

definition BeginSync :: "unicode_case \<Rightarrow> string \<Rightarrow> string list \<Rightarrow> Store \<Rightarrow> bool \<times> Store" where
  "BeginSync u workspace kinds st =
     (if \<not> is_ok (ValidateWorkspaceID workspace) then (False, st)
      else if gm_get False (cs_paused st) workspace \<or> gm_get False (cs_syncing st) workspace then (False, st)
      else (True, notifyLocked workspace
             (fold (expect_kind u workspace) kinds
               (st\<lparr>cs_syncing := gm_put workspace True (cs_syncing st),
                   cs_syncErrors := gm_del workspace (cs_syncErrors st)\<rparr>))))"

definition known_scopes :: "Discovery \<Rightarrow> (string, ReaderScope) gomap" where
  "known_scopes discovery =
     fold (\<lambda>name known. if map_of known name = None then gm_put name (zero_reader_scope\<lparr>rs_Name := name\<rparr>) known else known)
       (dv_Unreachable discovery)
       (fold (\<lambda>scope known. gm_put (rs_Name scope) scope known) (dv_Scopes discovery) [])"

definition forget_scopes :: "string \<Rightarrow> Store \<Rightarrow> Store" where
  "forget_scopes workspace st =
     st\<lparr>cs_scopes := gm_drop (\<lambda>(w, name) _. w = workspace \<and> scope_member st name workspace) (cs_scopes st),
        cs_scopeWorkspaces := filter (\<lambda>(name, memberships). memberships \<noteq> [])
          (map (\<lambda>(name, memberships). (name, gm_del workspace memberships)) (cs_scopeWorkspaces st))\<rparr>"

definition learn_scope :: "string \<Rightarrow> string \<times> ReaderScope \<Rightarrow> Store \<Rightarrow> Store" where
  "learn_scope workspace entry st =
     (case entry of (name, scope) \<Rightarrow>
        markScopeWorkspaceLocked workspace name
          (st\<lparr>cs_scopes := gm_put (workspace, name) scope (cs_scopes st)\<rparr>))"

definition SetDiscovery :: "string \<Rightarrow> Discovery \<Rightarrow> Store \<Rightarrow> (cache_error, unit) result \<times> Store" where
  "SetDiscovery workspace discovery st =
     (case ValidateWorkspaceID workspace of
        Inl e \<Rightarrow> (Inl (CacheWorkspace e), st)
      | Inr _ \<Rightarrow>
          if gm_get False (cs_paused st) workspace then (Inr (), st)
          else let st = fold (learn_scope workspace) (known_scopes discovery) (forget_scopes workspace st)
            in (Inr (), notifyLocked workspace
                  (st\<lparr>cs_diagnostics := gm_put workspace (dv_Diagnostics discovery) (cs_diagnostics st)\<rparr>)))"

definition EndSync :: "string \<Rightarrow> string option \<Rightarrow> Store \<Rightarrow> (cache_error, unit) result \<times> Store" where
  "EndSync workspace err st =
     (case ValidateWorkspaceID workspace of
        Inl e \<Rightarrow> (Inl (CacheWorkspace e), st)
      | Inr _ \<Rightarrow>
          (Inr (), notifyLocked workspace
             (st\<lparr>cs_syncing := gm_put workspace False (cs_syncing st),
                 cs_syncErrors := (case err of
                    Some message \<Rightarrow> gm_put workspace message (cs_syncErrors st)
                  | None \<Rightarrow> gm_del workspace (cs_syncErrors st))\<rparr>)))"

definition SetPaused :: "string \<Rightarrow> bool \<Rightarrow> Store \<Rightarrow> (cache_error, unit) result \<times> Store" where
  "SetPaused workspace paused st =
     (case ValidateWorkspaceID workspace of
        Inl e \<Rightarrow> (Inl (CacheWorkspace e), st)
      | Inr _ \<Rightarrow>
          if gm_get False (cs_paused st) workspace = paused then (Inr (), st)
          else (Inr (), notifyLocked workspace (st\<lparr>cs_paused := gm_put workspace paused (cs_paused st)\<rparr>)))"

definition Paused :: "string \<Rightarrow> Store \<Rightarrow> bool" where
  "Paused workspace st =
     (if \<not> is_ok (ValidateWorkspaceID workspace) then False else gm_get False (cs_paused st) workspace)"

subsection \<open>Reconciliation\<close>

text \<open>The checks a batch of facts passes before the lock is taken; \<open>scope\<close> is None for a full replacement.\<close>

definition admit_fact ::
  "unicode_case \<Rightarrow> object_api \<Rightarrow> string \<Rightarrow> string option \<Rightarrow> Fact \<Rightarrow> (cache_error, Record) result" where
  "admit_fact u api workspace scope f =
     (case normalize u api f of
        Inl e \<Rightarrow> Inl (NormalizeFailed e)
      | Inr r \<Rightarrow>
          if (case scope of None \<Rightarrow> False | Some s \<Rightarrow> rc_Cluster r \<noteq> s)
          then Inl (FactScopeMismatch (rc_Cluster r) (case scope of None \<Rightarrow> [] | Some s \<Rightarrow> s))
          else if rc_Workspace r \<noteq> workspace then Inl (FactWorkspaceMismatch (rc_Workspace r) workspace)
          else Inr r)"

definition learn_record :: "unicode_case \<Rightarrow> string \<Rightarrow> string \<Rightarrow> Record \<Rightarrow> Store \<Rightarrow> Store" where
  "learn_record u workspace canonical r st =
     markScopeWorkspaceLocked (rc_Workspace r) (rc_Cluster r)
       (st\<lparr>cs_aliases := gm_put (workspace, kindAlias u (rc_Kind r)) canonical (cs_aliases st)\<rparr>)"

definition put_records :: "Record list \<Rightarrow> (string, Record) gomap \<Rightarrow> (string, Record) gomap" where
  "put_records rs m = fold (\<lambda>r m. gm_put (recordKey r) r m) rs m"

definition on_kind :: "string \<Rightarrow> ((string, Record) gomap \<Rightarrow> (string, Record) gomap) \<Rightarrow> Store \<Rightarrow> Store" where
  "on_kind canonical f st =
     st\<lparr>cs_records := gm_put canonical (f (gm_get [] (cs_records st) canonical)) (cs_records st)\<rparr>"

definition finish_reconcile :: "Time \<Rightarrow> string \<Rightarrow> string \<Rightarrow> Store \<Rightarrow> Store" where
  "finish_reconcile now workspace canonical st =
     notifyLocked workspace
       (st\<lparr>cs_warmed := gm_put (workspace, canonical) True (cs_warmed st),
           cs_updatedAt := gm_put workspace now (cs_updatedAt st)\<rparr>)"

text \<open>The part of \<open>Replace\<close> under the lock, after the pause test.\<close>

definition replace_rows ::
  "unicode_case \<Rightarrow> string \<Rightarrow> string \<Rightarrow> string \<Rightarrow> Coverage \<Rightarrow> Record list \<Rightarrow> Store \<Rightarrow> Store" where
  "replace_rows u workspace kind canonical cov normalized st =
     (let st = on_kind canonical (\<lambda>m. m) st;
          st = st\<lparr>cs_aliases := gm_put (workspace, kindAlias u kind) canonical (cs_aliases st)\<rparr>;
          st = fold (learn_record u workspace canonical) normalized st;
          preserve = Unreachable cov @ Truncated cov;
          st = on_kind canonical
            (gm_drop (\<lambda>_ r. rc_Workspace r = workspace \<and> rc_Cluster r \<notin> set preserve)) st;
          st = on_kind canonical (put_records normalized) st;
          key = (workspace, canonical);
          st = st\<lparr>cs_coverage := gm_put key cov (cs_coverage st)\<rparr>
      in if Unreachable cov = [] then st\<lparr>cs_watchErrors := gm_del key (cs_watchErrors st)\<rparr> else st)"

definition Replace ::
  "unicode_case \<Rightarrow> object_api \<Rightarrow> Time \<Rightarrow> string \<Rightarrow> string \<Rightarrow> QueryResult \<Rightarrow> Store
     \<Rightarrow> (cache_error, unit) result \<times> Store" where
  "Replace u api now workspace kind result st =
     (case ValidateWorkspaceID workspace of
        Inl e \<Rightarrow> (Inl (CacheWorkspace e), st)
      | Inr _ \<Rightarrow>
          let canonical = canonicalKind u kind in
          if canonical = [] then (Inl KindRequired, st)
          else case rmap (admit_fact u api workspace None) (qr_Facts result) of
            Inl e \<Rightarrow> (Inl e, st)
          | Inr normalized \<Rightarrow>
              if gm_get False (cs_paused st) workspace then (Inr (), st)
              else (Inr (), finish_reconcile now workspace canonical
                (replace_rows u workspace kind canonical (qr_Coverage result) normalized st)))"

definition markScopeReachableLocked :: "string \<Rightarrow> string \<Rightarrow> string \<Rightarrow> Time \<Rightarrow> Store \<Rightarrow> Store" where
  "markScopeReachableLocked workspace kind scope observedAt st =
     (let current = gm_get zero_reader_scope (cs_scopes st) (workspace, scope);
          current = current\<lparr>rs_Name := scope, rs_Reachable := True\<rparr>;
          current = (if observedAt \<noteq> 0 then current\<lparr>rs_ObservedAt := observedAt\<rparr> else current);
          st = st\<lparr>cs_scopes := gm_put (workspace, scope) current (cs_scopes st)\<rparr>;
          key = (workspace, kind);
          cov = gm_get zero_coverage (cs_coverage st) key;
          cov = cov\<lparr>Requested := max (Requested cov) (workspaceScopeCountLocked st workspace)\<rparr>;
          cov = cov\<lparr>Unreachable := removeString (Unreachable cov) scope\<rparr>;
          cov = cov\<lparr>Stale := removeString (Stale cov) scope\<rparr>;
          cov = cov\<lparr>Reachable := max (Requested cov - int (length (Unreachable cov))) 0\<rparr>;
          st = st\<lparr>cs_coverage := gm_put key cov (cs_coverage st)\<rparr>
      in if Unreachable cov = [] then st\<lparr>cs_watchErrors := gm_del key (cs_watchErrors st)\<rparr> else st)"

definition markScopeUnreachableLocked :: "string \<Rightarrow> string \<Rightarrow> string \<Rightarrow> string \<Rightarrow> Store \<Rightarrow> Store" where
  "markScopeUnreachableLocked workspace kind scope watchErr st =
     (let key = (workspace, kind);
          cov = gm_get zero_coverage (cs_coverage st) key;
          cov = cov\<lparr>Requested := max (Requested cov) (workspaceScopeCountLocked st workspace)\<rparr>;
          cov = cov\<lparr>Unreachable := appendUniqueSorted (Unreachable cov) scope\<rparr>;
          cov = cov\<lparr>Stale := appendUniqueSorted (Stale cov) scope\<rparr>;
          cov = cov\<lparr>Reachable := max (Requested cov - int (length (Unreachable cov))) 0\<rparr>
      in st\<lparr>cs_coverage := gm_put key cov (cs_coverage st),
            cs_watchErrors := gm_put key (''watch '' @ kind @ '' in '' @ scope @ '': '' @ watchErr) (cs_watchErrors st)\<rparr>)"

subsection \<open>Watch events\<close>

abbreviation WatchSnapshot :: string where "WatchSnapshot \<equiv> ''snapshot''"
abbreviation WatchUpsert :: string where "WatchUpsert \<equiv> ''upsert''"
abbreviation WatchDelete :: string where "WatchDelete \<equiv> ''delete''"
abbreviation WatchError :: string where "WatchError \<equiv> ''error''"

record WatchEvent =
  we_Type :: string
  we_Workspace :: string
  we_Kind :: string
  we_Scope :: string
  we_Facts :: "Fact list"
  we_Fact :: Fact
  we_Ref :: ResourceRef
  we_ObservedAt :: Time
  we_Err :: "string option"

text \<open>The part of the handler before the lock: the records the event carries.\<close>

definition watch_records :: "unicode_case \<Rightarrow> object_api \<Rightarrow> WatchEvent \<Rightarrow> (cache_error, Record list) result" where
  "watch_records u api ev =
     (if we_Type ev = WatchSnapshot then
        rmap (admit_fact u api (we_Workspace ev) (Some (we_Scope ev))) (we_Facts ev)
      else if we_Type ev = WatchUpsert then
        rbind (admit_fact u api (we_Workspace ev) (Some (we_Scope ev)) (we_Fact ev)) (\<lambda>r. Inr [r])
      else if we_Type ev = WatchDelete then
        (if RefScope (we_Ref ev) \<noteq> [] \<and> RefScope (we_Ref ev) \<noteq> we_Scope ev
         then Inl (FactScopeMismatch (RefScope (we_Ref ev)) (we_Scope ev)) else Inr [])
      else if we_Type ev = WatchError then Inr []
      else Inl (UnsupportedEvent (we_Type ev)))"

text \<open>The second switch, under the lock.\<close>

definition watch_apply :: "string \<Rightarrow> WatchEvent \<Rightarrow> Record list \<Rightarrow> Store \<Rightarrow> Store" where
  "watch_apply canonical ev normalized st =
     (let w = we_Workspace ev; scope = we_Scope ev in
      if we_Type ev = WatchSnapshot then
        (let st = on_kind canonical (gm_drop (\<lambda>_ r. rc_Workspace r = w \<and> rc_Cluster r = scope)) st;
             st = on_kind canonical (put_records normalized) st;
             st = markScopeReachableLocked w canonical scope (we_ObservedAt ev) st;
             key = (w, canonical);
             cov = gm_get zero_coverage (cs_coverage st) key
         in st\<lparr>cs_coverage := gm_put key (cov\<lparr>Truncated := removeString (Truncated cov) scope\<rparr>) (cs_coverage st)\<rparr>)
      else if we_Type ev = WatchUpsert then
        markScopeReachableLocked w canonical scope (we_ObservedAt ev) (on_kind canonical (put_records normalized) st)
      else if we_Type ev = WatchDelete then
        markScopeReachableLocked w canonical scope (we_ObservedAt ev)
          (on_kind canonical (gm_drop (\<lambda>_ r. rc_Workspace r = w \<and> rc_Cluster r = scope \<and>
              rc_Namespace r = RefNamespace (we_Ref ev) \<and> rc_Name r = RefName (we_Ref ev))) st)
      else markScopeUnreachableLocked w canonical scope (case we_Err ev of Some e \<Rightarrow> e | None \<Rightarrow> []) st)"

definition ApplyWatchEvent ::
  "unicode_case \<Rightarrow> object_api \<Rightarrow> Time \<Rightarrow> WatchEvent \<Rightarrow> Store \<Rightarrow> (cache_error, unit) result \<times> Store" where
  "ApplyWatchEvent u api now ev st =
     (let w = we_Workspace ev; canonical = canonicalKind u (we_Kind ev) in
      case ValidateWorkspaceID w of
        Inl e \<Rightarrow> (Inl (CacheWorkspace e), st)
      | Inr _ \<Rightarrow>
          if canonical = [] \<or> trim_space (we_Scope ev) = [] then (Inl KindAndScopeRequired, st)
          else if we_Type ev = WatchError \<and> we_Err ev = None then (Inl ErrorEventWithoutError, st)
          else case watch_records u api ev of
            Inl e \<Rightarrow> (Inl e, st)
          | Inr normalized \<Rightarrow>
              if gm_get False (cs_paused st) w then (Inr (), st)
              else if \<not> scope_member st (we_Scope ev) w then (Inl (ScopeNotDiscovered (we_Scope ev) w), st)
              else
                let st = st\<lparr>cs_aliases := gm_put (w, kindAlias u (we_Kind ev)) canonical (cs_aliases st)\<rparr>;
                    st = on_kind canonical (\<lambda>m. m) st;
                    st = fold (learn_record u w canonical) normalized st
                in (Inr (), finish_reconcile now w canonical (watch_apply canonical ev normalized st)))"

subsection \<open>Answers\<close>

definition resolveKindLocked :: "unicode_case \<Rightarrow> Store \<Rightarrow> string \<Rightarrow> string \<Rightarrow> string" where
  "resolveKindLocked u st workspace kind =
     (let canonical = canonicalKind u kind in
      if canonical = [] then []
      else let resolved = gm_get [] (cs_aliases st) (workspace, kindAlias u kind) in
        if resolved \<noteq> [] then resolved else canonical)"

definition targetScopesLocked :: "unicode_case \<Rightarrow> Store \<Rightarrow> string \<Rightarrow> string list \<Rightarrow> string list" where
  "targetScopesLocked u st workspace patterns =
     (let members = map fst (filter (\<lambda>(name, memberships). gm_get False memberships workspace) (cs_scopeWorkspaces st)) in
      sorted_set
        (if patterns = [] then members
         else concat (map (\<lambda>pattern.
           let matched = filter (\<lambda>name. matchesGlob u name pattern) members in
           if matched = [] \<and> \<not> contains_any pattern ''*?['' then [pattern] else matched) patterns)))"

definition scopesLocked :: "unicode_case \<Rightarrow> Store \<Rightarrow> string \<Rightarrow> string list \<Rightarrow> ReaderScope list" where
  "scopesLocked u st workspace patterns =
     map (\<lambda>name.
        case map_of (cs_scopes st) (workspace, name) of
          Some scope \<Rightarrow> if scope_member st name workspace then scope else zero_reader_scope\<lparr>rs_Name := name\<rparr>
        | None \<Rightarrow> zero_reader_scope\<lparr>rs_Name := name\<rparr>)
      (targetScopesLocked u st workspace patterns)"

text \<open>The coverage entries that bear on the query: the kind's own, or all of the workspace.\<close>

definition relevant_coverage :: "Store \<Rightarrow> string \<Rightarrow> string \<Rightarrow> Coverage list" where
  "relevant_coverage st workspace kind =
     (if kind \<noteq> [] then [gm_get zero_coverage (cs_coverage st) (workspace, kind)]
      else map snd (filter (\<lambda>((w, k), cov). w = workspace) (cs_coverage st)))"

definition count_targets :: "string list \<Rightarrow> string set \<Rightarrow> string set \<Rightarrow> string set \<Rightarrow> Coverage" where
  "count_targets targets unreachable stale truncated =
     fold (\<lambda>name cov.
        if name \<in> unreachable then cov\<lparr>Unreachable := Unreachable cov @ [name]\<rparr>
        else
          let cov = cov\<lparr>Reachable := Reachable cov + 1\<rparr>;
              cov = (if name \<in> stale then cov\<lparr>Stale := Stale cov @ [name]\<rparr> else cov)
          in if name \<in> truncated then cov\<lparr>Truncated := Truncated cov @ [name]\<rparr> else cov)
      targets (zero_coverage\<lparr>Requested := int (length targets)\<rparr>)"

definition coverageLocked ::
  "unicode_case \<Rightarrow> Store \<Rightarrow> string \<Rightarrow> CacheQuery \<Rightarrow> Record list \<Rightarrow> Time \<Rightarrow> Coverage" where
  "coverageLocked u st workspace q records now =
     (let targets = targetScopesLocked u st workspace (cq_Scopes q);
          kind = resolveKindLocked u st workspace (cq_Kind q) in
      if kind \<noteq> [] \<and> \<not> gm_get False (cs_warmed st) (workspace, kind)
      then zero_coverage\<lparr>Requested := int (length targets)\<rparr>
      else
        let covs = relevant_coverage st workspace kind;
            unreachable = \<Union> (set (map (\<lambda>c. set (Unreachable c)) covs)) \<union>
              set (filter (\<lambda>name.
                case map_of (cs_scopes st) (workspace, name) of
                  None \<Rightarrow> True
                | Some scope \<Rightarrow> \<not> scope_member st name workspace \<or> \<not> rs_Reachable scope) targets);
            stale = \<Union> (set (map (\<lambda>c. set (Stale c)) covs)) \<union>
              set (filter (\<lambda>name.
                let scope = gm_get zero_reader_scope (cs_scopes st) (workspace, name) in
                rs_ObservedAt scope \<noteq> 0 \<and> now - rs_ObservedAt scope > cs_freshFor st) targets) \<union>
              set (map rc_Cluster (filter rc_Stale records));
            truncated = \<Union> (set (map (\<lambda>c. set (Truncated c)) covs))
        in count_targets targets unreachable stale truncated)"

definition lastErrorLocked :: "Store \<Rightarrow> string \<Rightarrow> string \<Rightarrow> string" where
  "lastErrorLocked st workspace kind =
     (let sync = gm_get [] (cs_syncErrors st) workspace;
          result = (if sync \<noteq> [] then [sync] else []) in
      if kind \<noteq> [] then
        (let watch = gm_get [] (cs_watchErrors st) (workspace, kind)
         in join (result @ (if watch \<noteq> [] then [watch] else [])) ''; '')
      else
        join (result @ map snd (sort_key (\<lambda>((w, k), e). k)
          (filter (\<lambda>((w, k), e). w = workspace \<and> e \<noteq> []) (cs_watchErrors st)))) ''; '')"

definition stateLocked :: "Store \<Rightarrow> string \<Rightarrow> Coverage \<Rightarrow> int \<Rightarrow> bool \<Rightarrow> string \<Rightarrow> State" where
  "stateLocked st workspace cov recordCount pending lastError =
     (let syncing = gm_get False (cs_syncing st) workspace in
      if gm_get False (cs_paused st) workspace then StatePaused
      else if pending \<and> syncing then StateWarming
      else if pending \<and> lastError = [] then StateCold
      else if recordCount = 0 \<and> syncing then StateWarming
      else if recordCount = 0 \<and> \<not> workspaceWarmedLocked st workspace then StateCold
      else if Reachable cov = 0 \<and> (recordCount > 0 \<or> lastError \<noteq> []) then StateOffline
      else if Unreachable cov \<noteq> [] \<or> Stale cov \<noteq> [] \<or> Truncated cov \<noteq> [] \<or> lastError \<noteq> [] then StateDegraded
      else if syncing then StateWarming
      else StateWarm)"

definition age_record :: "int \<Rightarrow> Time \<Rightarrow> bool \<Rightarrow> Record \<Rightarrow> Record" where
  "age_record freshFor now includeEvidence cached =
     (let r = (if includeEvidence then cached else cached\<lparr>rc_Fact := zero_fact\<rparr>);
          age = now - rc_ObservedAt r in
      if age > freshFor then
        r\<lparr>rc_Stale := True, rc_StaleFor := age,
          rc_Fact := (rc_Fact r)\<lparr>FStale := True, FStaleFor := seconds_string (round_second age)\<rparr>\<rparr>
      else r)"

definition mark_unreachable :: "string list \<Rightarrow> Record \<Rightarrow> Record" where
  "mark_unreachable unreachable r =
     (if rc_Cluster r \<in> set unreachable then
        r\<lparr>rc_Stale := True,
          rc_Fact := (rc_Fact r)\<lparr>FStale := True,
            FStaleFor := (if FStaleFor (rc_Fact r) = [] then ''unreachable'' else FStaleFor (rc_Fact r))\<rparr>\<rparr>
      else r)"

definition select_records :: "unicode_case \<Rightarrow> Store \<Rightarrow> Time \<Rightarrow> string \<Rightarrow> CacheQuery \<Rightarrow> Record list" where
  "select_records u st now workspace q =
     (let selectedKind = resolveKindLocked u st workspace (cq_Kind q);
          matchQuery = (if selectedKind \<noteq> [] then q\<lparr>cq_Kind := []\<rparr> else q);
          records = concat (map (\<lambda>(kind, byKey).
            if selectedKind \<noteq> [] \<and> selectedKind \<noteq> kind then []
            else filter (query_matches u matchQuery workspace)
              (map (\<lambda>(key, cached). age_record (cs_freshFor st) now (\<not> cq_MetadataOnly q) cached) byKey)) (cs_records st));
          records = sort_key recordKey records
      in if cq_Limit q > 0 \<and> int (length records) > cq_Limit q then take (nat (cq_Limit q)) records else records)"

definition Query :: "unicode_case \<Rightarrow> Time \<Rightarrow> string \<Rightarrow> CacheQuery \<Rightarrow> Store \<Rightarrow> Snapshot" where
  "Query u now workspace q st =
     (if trim_space workspace = [] then
        \<lparr>sn_Version = 0, sn_State = StateCold, sn_Syncing = False, sn_Paused = False, sn_Records = [],
         sn_Coverage = zero_coverage, sn_UpdatedAt = 0, sn_LastError = [], sn_Scopes = [], sn_Diagnostics = []\<rparr>
      else
        let selectedKind = resolveKindLocked u st workspace (cq_Kind q);
            records = select_records u st now workspace q;
            cov = coverageLocked u st workspace q records now;
            records = map (mark_unreachable (Unreachable cov)) records;
            pending = (selectedKind \<noteq> [] \<and> \<not> gm_get False (cs_warmed st) (workspace, selectedKind));
            lastError = lastErrorLocked st workspace selectedKind
        in \<lparr>sn_Version = gm_get 0 (cs_versions st) workspace,
            sn_State = stateLocked st workspace cov (recordCountLocked st workspace) pending lastError,
            sn_Syncing = gm_get False (cs_syncing st) workspace,
            sn_Paused = gm_get False (cs_paused st) workspace,
            sn_Records = records, sn_Coverage = cov,
            sn_UpdatedAt = gm_get 0 (cs_updatedAt st) workspace,
            sn_LastError = lastError,
            sn_Scopes = scopesLocked u st workspace (cq_Scopes q),
            sn_Diagnostics = gm_get [] (cs_diagnostics st) workspace\<rparr>)"

definition QueryScoped ::
  "unicode_case \<Rightarrow> Time \<Rightarrow> Scope \<Rightarrow> CacheQuery \<Rightarrow> Store option \<Rightarrow> (cache_error, Snapshot) result" where
  "QueryScoped u now scope q store =
     (case store of
        None \<Rightarrow> Inl CacheStoreNil
      | Some st \<Rightarrow>
          if sc_workspaceID scope = [] then Inl CacheScopeRequired
          else case Authorize scope ActionRead of
            Inl e \<Rightarrow> Inl (CacheUnauthorized e)
          | Inr _ \<Rightarrow>
              (let snapshot = Query u now (sc_workspaceID scope) q st in
               case RequireAll scope (sn_Records snapshot) (Some rc_Workspace) of
                 Inl e \<Rightarrow> Inl (CacheScopeEscape e)
               | Inr _ \<Rightarrow> Inr snapshot))"

text \<open>
  One round of \<open>WaitForChange\<close> under the lock: the version if it moved past \<open>after\<close>, otherwise
  the channel to block on (created when there is none).
\<close>

definition wait_round :: "string \<Rightarrow> 64 word \<Rightarrow> Store \<Rightarrow> (nat, 64 word) result \<times> Store" where
  "wait_round workspace after st =
     (let version = gm_get 0 (cs_versions st) workspace in
      if version > after then (Inr version, st)
      else case map_of (cs_changed st) workspace of
        Some ch \<Rightarrow> (Inl ch, st)
      | None \<Rightarrow> (Inl (cs_channels st),
          st\<lparr>cs_changed := gm_put workspace (cs_channels st) (cs_changed st), cs_channels := Suc (cs_channels st)\<rparr>))"

end
