(* ===== verification/Cache_Isolation.thy ===== *)
theory Cache_Isolation
  imports Cache_Store
begin

text \<open>
  Correctness of the fleet cache: the store invariant, isolation of workspaces, freezing by
  pause, wake-ups, what a reconciliation keeps and replaces, and honest coverage.
\<close>

subsection \<open>The operations as steps\<close>

datatype cache_op =
    OpBeginSync string "string list"
  | OpSetDiscovery string Discovery
  | OpReplace Time string string QueryResult
  | OpWatch Time WatchEvent
  | OpEndSync string "string option"
  | OpSetPaused string bool
  | OpWait string "64 word"

fun op_workspace :: "cache_op \<Rightarrow> string" where
  "op_workspace (OpBeginSync w kinds) = w"
| "op_workspace (OpSetDiscovery w d) = w"
| "op_workspace (OpReplace now w kind result) = w"
| "op_workspace (OpWatch now ev) = we_Workspace ev"
| "op_workspace (OpEndSync w err) = w"
| "op_workspace (OpSetPaused w p) = w"
| "op_workspace (OpWait w after) = w"

fun cache_exec :: "unicode_case \<Rightarrow> object_api \<Rightarrow> cache_op \<Rightarrow> Store \<Rightarrow> Store" where
  "cache_exec u api (OpBeginSync w kinds) st = snd (BeginSync u w kinds st)"
| "cache_exec u api (OpSetDiscovery w d) st = snd (SetDiscovery w d st)"
| "cache_exec u api (OpReplace now w kind result) st = snd (Replace u api now w kind result st)"
| "cache_exec u api (OpWatch now ev) st = snd (ApplyWatchEvent u api now ev st)"
| "cache_exec u api (OpEndSync w err) st = snd (EndSync w err st)"
| "cache_exec u api (OpSetPaused w p) st = snd (SetPaused w p st)"
| "cache_exec u api (OpWait w after) st = snd (wait_round w after st)"

definition cache_step :: "unicode_case \<Rightarrow> object_api \<Rightarrow> Store \<Rightarrow> cache_op \<Rightarrow> Store \<Rightarrow> bool" where
  "cache_step u api st oper st' \<longleftrightarrow> st' = cache_exec u api oper st"

subsection \<open>What one workspace can see\<close>

text \<open>The entries of a map whose composite key belongs to a workspace.\<close>

definition own :: "string \<Rightarrow> (string \<times> 'k, 'v) gomap \<Rightarrow> (string \<times> 'k, 'v) gomap" where
  "own w m = filter (\<lambda>((w', k), v). w' = w) m"

lemma own_put: "w \<noteq> w' \<Longrightarrow> own w' (gm_put (w, k) v m) = own w' m"
  by (induction m) (auto simp: own_def)

lemma own_del: "w \<noteq> w' \<Longrightarrow> own w' (gm_del (w, k) m) = own w' m"
  by (induction m) (auto simp: own_def)

lemma own_drop: "(\<And>k v. \<not> P (w', k) v) \<Longrightarrow> own w' (gm_drop P m) = own w' m"
  by (induction m) (auto simp: own_def gm_drop_def)

lemma map_of_own: "map_of (own w m) (w, k) = map_of m (w, k)"
  by (induction m) (auto simp: own_def)

definition visible :: "string \<Rightarrow> (string, (string, Record) gomap) gomap \<Rightarrow> (string \<times> Record list) list" where
  "visible w records =
     filter (\<lambda>(kind, rs). rs \<noteq> [])
       (map (\<lambda>(kind, m). (kind, filter (\<lambda>r. rc_Workspace r = w) (map snd m))) records)"

lemma visible_Cons:
  "visible w ((k, m) # recs) =
     (let rs = filter (\<lambda>r. rc_Workspace r = w) (map snd m) in (if rs = [] then [] else [(k, rs)]) @ visible w recs)"
  by (simp add: visible_def Let_def)

definition members :: "string \<Rightarrow> Store \<Rightarrow> string list" where
  "members w st = map fst (filter (\<lambda>(name, ms). gm_get False ms w) (cs_scopeWorkspaces st))"

definition agree :: "string \<Rightarrow> Store \<Rightarrow> Store \<Rightarrow> bool" where
  "agree w st st' \<longleftrightarrow>
     visible w (cs_records st) = visible w (cs_records st') \<and>
     own w (cs_coverage st) = own w (cs_coverage st') \<and>
     own w (cs_aliases st) = own w (cs_aliases st') \<and>
     own w (cs_scopes st) = own w (cs_scopes st') \<and>
     own w (cs_warmed st) = own w (cs_warmed st') \<and>
     own w (cs_watchErrors st) = own w (cs_watchErrors st') \<and>
     map_of (cs_diagnostics st) w = map_of (cs_diagnostics st') w \<and>
     map_of (cs_syncing st) w = map_of (cs_syncing st') w \<and>
     map_of (cs_paused st) w = map_of (cs_paused st') w \<and>
     map_of (cs_syncErrors st) w = map_of (cs_syncErrors st') w \<and>
     map_of (cs_updatedAt st) w = map_of (cs_updatedAt st') w \<and>
     map_of (cs_versions st) w = map_of (cs_versions st') w \<and>
     map_of (cs_changed st) w = map_of (cs_changed st') w \<and>
     members w st = members w st' \<and>
     (\<forall>name. scope_member st name w = scope_member st' name w) \<and>
     cs_freshFor st = cs_freshFor st'"

lemma agree_refl [simp]: "agree w st st"
  by (simp add: agree_def)

lemma agree_trans: "agree w a b \<Longrightarrow> agree w b c \<Longrightarrow> agree w a c"
  by (simp add: agree_def)

subsection \<open>Answers depend only on what is visible\<close>

lemma get_own: "own w m = own w m' \<Longrightarrow> gm_get z m (w, k) = gm_get z m' (w, k)"
  unfolding gm_get_def using map_of_own [of w m k] map_of_own [of w m' k] by simp

lemma agree_lookups:
  assumes "agree w st st'"
  shows "gm_get False (cs_warmed st) (w, k) = gm_get False (cs_warmed st') (w, k)"
    and "gm_get zc (cs_coverage st) (w, k) = gm_get zc (cs_coverage st') (w, k)"
    and "gm_get [] (cs_aliases st) (w, k) = gm_get [] (cs_aliases st') (w, k)"
    and "gm_get zs (cs_scopes st) (w, k) = gm_get zs (cs_scopes st') (w, k)"
    and "gm_get [] (cs_watchErrors st) (w, k) = gm_get [] (cs_watchErrors st') (w, k)"
    and "map_of (cs_scopes st) (w, k) = map_of (cs_scopes st') (w, k)"
proof -
  have eqs: "own w (cs_warmed st) = own w (cs_warmed st')" "own w (cs_coverage st) = own w (cs_coverage st')"
    "own w (cs_aliases st) = own w (cs_aliases st')" "own w (cs_scopes st) = own w (cs_scopes st')"
    "own w (cs_watchErrors st) = own w (cs_watchErrors st')"
    using assms by (simp_all add: agree_def)
  show "gm_get False (cs_warmed st) (w, k) = gm_get False (cs_warmed st') (w, k)" by (rule get_own [OF eqs(1)])
  show "gm_get zc (cs_coverage st) (w, k) = gm_get zc (cs_coverage st') (w, k)" by (rule get_own [OF eqs(2)])
  show "gm_get [] (cs_aliases st) (w, k) = gm_get [] (cs_aliases st') (w, k)" by (rule get_own [OF eqs(3)])
  show "gm_get zs (cs_scopes st) (w, k) = gm_get zs (cs_scopes st') (w, k)" by (rule get_own [OF eqs(4)])
  show "gm_get [] (cs_watchErrors st) (w, k) = gm_get [] (cs_watchErrors st') (w, k)" by (rule get_own [OF eqs(5)])
  show "map_of (cs_scopes st) (w, k) = map_of (cs_scopes st') (w, k)"
    using map_of_own [of w "cs_scopes st" k] map_of_own [of w "cs_scopes st'" k] eqs(4) by simp
qed

lemma resolveKind_agree: "agree w st st' \<Longrightarrow> resolveKindLocked u st w kind = resolveKindLocked u st' w kind"
  unfolding resolveKindLocked_def by (simp only: agree_lookups(3))

lemma targetScopes_agree: "agree w st st' \<Longrightarrow> targetScopesLocked u st w ps = targetScopesLocked u st' w ps"
  by (simp add: targetScopesLocked_def agree_def members_def)

lemma scopes_agree:
  assumes "agree w st st'"
  shows "scopesLocked u st w ps = scopesLocked u st' w ps"
proof -
  have mem: "scope_member st name w = scope_member st' name w" for name using assms by (simp add: agree_def)
  show ?thesis unfolding scopesLocked_def targetScopes_agree [OF assms] agree_lookups(6) [OF assms] mem ..
qed

lemma coverage_agree: "agree w st st' \<Longrightarrow> coverageLocked u st w q rs now = coverageLocked u st' w q rs now"
proof -
  assume a: "agree w st st'"
  have rel: "relevant_coverage st w k = relevant_coverage st' w k" for k
    using a agree_lookups(2) [OF a] by (simp add: relevant_coverage_def agree_def own_def)
  have mem: "scope_member st name w = scope_member st' name w" for name using a by (simp add: agree_def)
  have fresh: "cs_freshFor st = cs_freshFor st'" using a by (simp add: agree_def)
  show ?thesis
    unfolding coverageLocked_def
    by (simp only: rel mem fresh resolveKind_agree [OF a] targetScopes_agree [OF a] agree_lookups [OF a])
qed

lemma lastError_agree: "agree w st st' \<Longrightarrow> lastErrorLocked st w kind = lastErrorLocked st' w kind"
proof -
  assume a: "agree w st st'"
  have f: "filter (\<lambda>((w', k), e). w' = w \<and> e \<noteq> []) m = filter (\<lambda>((w', k), e). e \<noteq> []) (own w m)"
    for m :: "(ws_kind, string) gomap"
    by (induction m) (auto simp: own_def)
  have same: "gm_get [] (cs_syncErrors st) w = gm_get [] (cs_syncErrors st') w"
    "own w (cs_watchErrors st) = own w (cs_watchErrors st')"
    using a by (simp_all add: agree_def gm_get_def)
  show ?thesis unfolding lastErrorLocked_def f agree_lookups(5) [OF a] same ..
qed

lemma warmed_agree: "agree w st st' \<Longrightarrow> workspaceWarmedLocked st w = workspaceWarmedLocked st' w"
proof -
  have f: "list_ex (\<lambda>((w', k), x). w' = w \<and> x) m = list_ex (\<lambda>(k, x). x) (own w m)" for m :: "(ws_kind, bool) gomap"
    by (induction m) (auto simp: own_def)
  show "agree w st st' \<Longrightarrow> ?thesis" by (simp add: workspaceWarmedLocked_def f agree_def)
qed

lemma recordCount_visible: "recordCountLocked st w = int (sum_list (map (\<lambda>(k, rs). length rs) (visible w (cs_records st))))"
proof -
  have "sum_list (map (\<lambda>(kind, m). length (filter (\<lambda>(key, r). rc_Workspace r = w) m)) recs) =
      sum_list (map (\<lambda>(k, rs). length rs) (visible w recs))" for recs
  proof (induction recs)
    case (Cons km recs)
    obtain k m where km: "km = (k, m)" by (cases km)
    define rs where "rs = filter (\<lambda>r. rc_Workspace r = w) (map snd m)"
    have len: "length (filter (\<lambda>(key, r). rc_Workspace r = w) m) = length rs"
      unfolding rs_def by (induction m) auto
    have vis: "visible w (km # recs) = (if rs = [] then [] else [(k, rs)]) @ visible w recs"
      by (simp add: km visible_Cons rs_def Let_def)
    show ?case using Cons len by (simp add: vis) (simp add: km)
  qed (simp add: visible_def)
  then show ?thesis by (simp add: recordCountLocked_def)
qed

lemma age_record_workspace [simp]: "rc_Workspace (age_record ff now b r) = rc_Workspace r"
  by (simp add: age_record_def Let_def)

lemma selection_visible:
  "concat (map (\<lambda>(kind, m). if sel \<noteq> [] \<and> sel \<noteq> kind then []
      else filter (query_matches u q w) (map (\<lambda>(key, c). age_record ff now b c) m)) recs) =
   concat (map (\<lambda>(kind, rs). if sel \<noteq> [] \<and> sel \<noteq> kind then []
      else filter (query_matches u q w) (map (age_record ff now b) rs)) (visible w recs))"
proof (induction recs)
  case (Cons km recs)
  obtain k m where km: "km = (k, m)" by (cases km)
  let ?own = "filter (\<lambda>r. rc_Workspace r = w) (map snd m)"
  have "filter (query_matches u q w) (map (\<lambda>(key, c). age_record ff now b c) m) =
      filter (query_matches u q w) (map (age_record ff now b) ?own)"
  proof (induction m)
    case (Cons kr m)
    then show ?case using query_matches_workspace [of u q w "age_record ff now b (snd kr)"]
      by (auto simp: case_prod_unfold)
  qed simp
  with Cons show ?case by (simp add: km visible_Cons Let_def)
qed (simp add: visible_def)

lemma select_agree: "agree w st st' \<Longrightarrow> select_records u st now w q = select_records u st' now w q"
proof -
  assume a: "agree w st st'"
  have same: "visible w (cs_records st) = visible w (cs_records st')" "cs_freshFor st = cs_freshFor st'"
    using a by (simp_all add: agree_def)
  show ?thesis unfolding select_records_def resolveKind_agree [OF a] selection_visible same ..
qed

lemma Query_agree:
  assumes "agree w st st'"
  shows "Query u now w q st = Query u now w q st'"
proof -
  have maps: "gm_get False (cs_syncing st) w = gm_get False (cs_syncing st') w"
    "gm_get False (cs_paused st) w = gm_get False (cs_paused st') w"
    "gm_get 0 (cs_versions st) w = gm_get 0 (cs_versions st') w"
    "gm_get 0 (cs_updatedAt st) w = gm_get 0 (cs_updatedAt st') w"
    "gm_get [] (cs_diagnostics st) w = gm_get [] (cs_diagnostics st') w"
    using assms by (simp_all add: agree_def gm_get_def)
  have cnt: "recordCountLocked st w = recordCountLocked st' w"
    using assms by (simp add: recordCount_visible agree_def)
  have state: "stateLocked st w cov n p e = stateLocked st' w cov n p e" for cov n p e
    unfolding stateLocked_def maps warmed_agree [OF assms] ..
  show ?thesis
    unfolding Query_def maps cnt state resolveKind_agree [OF assms] select_agree [OF assms]
      coverage_agree [OF assms] lastError_agree [OF assms] scopes_agree [OF assms] agree_lookups(1) [OF assms] ..
qed

subsection \<open>Steps of one workspace leave the others alone\<close>

named_theorems agree_intros \<open>operations on one workspace preserve the view of another\<close>

lemma agree_notify [agree_intros]: "w \<noteq> w' \<Longrightarrow> agree w' st (notifyLocked w st)"
  by (simp add: agree_def notifyLocked_def members_def scope_member_def)

lemma get_put_members:
  "w \<noteq> w' \<Longrightarrow> gm_get False (gm_get [] (gm_put s (gm_put w True (gm_get [] sw s)) sw) name) w' =
     gm_get False (gm_get [] sw name) w'"
  by (simp add: gm_get_def)

lemma members_put:
  assumes "w \<noteq> w'"
  shows "map fst (filter (\<lambda>(name, ms). gm_get False ms w') (gm_put s (gm_put w True (gm_get [] sw s)) sw)) =
    map fst (filter (\<lambda>(name, ms). gm_get False ms w') sw)"
proof (induction sw)
  case Nil
  from assms show ?case by (simp add: gm_get_def)
next
  case (Cons e sw)
  obtain n ms where e: "e = (n, ms)" by (cases e)
  show ?case
  proof (cases "n = s")
    case True
    have "gm_get [] ((n, ms) # sw) s = ms" using True by (simp add: gm_get_def)
    with assms True show ?thesis by (simp add: e)
  next
    case False
    have "gm_get [] ((n, ms) # sw) s = gm_get [] sw s" using False by (simp add: gm_get_def)
    with Cons False show ?thesis by (simp add: e)
  qed
qed

lemma agree_mark [agree_intros]: "w \<noteq> w' \<Longrightarrow> agree w' st (markScopeWorkspaceLocked w s st)"
  by (auto simp: agree_def markScopeWorkspaceLocked_def members_def scope_member_def members_put own_put
      get_put_members split: option.splits)

lemma agree_expect [agree_intros]: "w \<noteq> w' \<Longrightarrow> agree w' st (expect_kind u w kind st)"
  by (simp add: agree_def expect_kind_def members_def scope_member_def own_put Let_def)

lemma agree_learn_scope [agree_intros]:
  assumes "w \<noteq> w'"
  shows "agree w' st (learn_scope w e st)"
proof -
  obtain n s where e: "e = (n, s)" by (cases e)
  have "agree w' st (st\<lparr>cs_scopes := gm_put (w, n) s (cs_scopes st)\<rparr>)"
    using assms by (simp add: agree_def members_def scope_member_def own_put)
  from agree_trans [OF this agree_mark [OF assms]] show ?thesis by (simp add: learn_scope_def e)
qed

lemma agree_fold:
  assumes "\<And>x st. x \<in> set xs \<Longrightarrow> agree w st (f x st)"
  shows "agree w st (fold f xs st)"
  using assms
proof (induction xs arbitrary: st)
  case (Cons x xs)
  have "agree w st (f x st)" by (rule Cons.prems) simp
  moreover have "agree w (f x st) (fold f xs (f x st))" by (rule Cons.IH) (simp add: Cons.prems)
  ultimately show ?case by (simp add: agree_trans)
qed simp

lemma get_del_other: "w \<noteq> w' \<Longrightarrow> gm_get False (gm_del w ms) w' = gm_get False ms w'"
  by simp

lemma forget_members:
  assumes "w \<noteq> w'"
  shows "map fst (filter (\<lambda>(name, ms). gm_get False ms w')
      (filter (\<lambda>(name, ms). ms \<noteq> []) (map (\<lambda>(name, ms). (name, gm_del w ms)) sw))) =
    map fst (filter (\<lambda>(name, ms). gm_get False ms w') sw)"
proof (induction sw)
  case (Cons e sw)
  obtain n ms where e: "e = (n, ms)" by (cases e)
  have "gm_del w ms = [] \<Longrightarrow> \<not> gm_get False ms w'"
    using assms get_del_other [of w w' ms] by (metis gm_get_Nil)
  with Cons assms show ?case by (auto simp: e)
qed simp

lemma map_of_filter_map:
  assumes "gm_wf sw"
  shows "map_of (filter (\<lambda>(name, ms). ms \<noteq> []) (map (\<lambda>(name, ms). (name, f ms)) sw)) n =
    (case map_of sw n of None \<Rightarrow> None | Some ms \<Rightarrow> if f ms = [] then None else Some (f ms))"
  using assms
proof (induction sw)
  case (Cons e sw)
  obtain k ms where e: "e = (k, ms)" by (cases e)
  have wf: "gm_wf sw" and k: "map_of sw k = None"
    using Cons.prems by (auto simp: e gm_wf_def map_of_eq_None_iff)
  show ?case using Cons.IH [OF wf] k by (auto simp: e)
qed simp

lemma agree_forget:
  assumes "w \<noteq> w'" and "gm_wf (cs_scopeWorkspaces st)"
  shows "agree w' st (forget_scopes w st)"
proof -
  have sc: "own w' (gm_drop (\<lambda>(w1, name) _. w1 = w \<and> scope_member st name w) (cs_scopes st)) = own w' (cs_scopes st)"
    by (rule own_drop) (use assms(1) in auto)
  have mem: "scope_member (forget_scopes w st) name w' = scope_member st name w'" for name
    using assms(1) get_del_other [OF assms(1)]
    by (auto simp: scope_member_def forget_scopes_def gm_get_def map_of_filter_map [OF assms(2)] split: option.splits)
      (metis AList.delete_simps(1) fun_upd_apply gm_lookup_del map_of_eq_None_iff option.distinct(1) list.set(1) empty_iff image_empty)+
  show ?thesis
    using sc mem forget_members [OF assms(1), of "cs_scopeWorkspaces st"]
    by (simp add: agree_def members_def) (simp add: forget_scopes_def)
qed

subsection \<open>The store invariant\<close>

text \<open>
  Rows are stored under their own key and carry a workspace without NUL, so that keys of
  different workspaces differ; map keys are unique; blank scopes are never members; a channel
  is handed out once, belongs to one workspace and is open while it is current.
\<close>

definition rows_ok :: "(string, Record) gomap \<Rightarrow> bool" where
  "rows_ok m \<longleftrightarrow> gm_wf m \<and> (\<forall>(key, r) \<in> set m. key = recordKey r \<and> NUL \<notin> set (rc_Workspace r))"

definition channels_ok :: "Store \<Rightarrow> bool" where
  "channels_ok st \<longleftrightarrow>
     (\<forall>w ch. map_of (cs_changed st) w = Some ch \<longrightarrow> ch < cs_channels st \<and> ch \<notin> set (cs_closed st)) \<and>
     (\<forall>ch \<in> set (cs_closed st). ch < cs_channels st) \<and>
     (\<forall>w w' ch. map_of (cs_changed st) w = Some ch \<longrightarrow> map_of (cs_changed st) w' = Some ch \<longrightarrow> w = w')"

definition store_ok :: "Store \<Rightarrow> bool" where
  "store_ok st \<longleftrightarrow>
     gm_wf (cs_records st) \<and> (\<forall>(kind, m) \<in> set (cs_records st). rows_ok m) \<and>
     gm_wf (cs_scopeWorkspaces st) \<and> (\<forall>name \<in> fst ` set (cs_scopeWorkspaces st). trim_space name \<noteq> []) \<and>
     channels_ok st"

lemma rows_ok_Nil [simp]: "rows_ok []"
  by (simp add: rows_ok_def)

lemma rows_ok_get: "store_ok st \<Longrightarrow> rows_ok (gm_get [] (cs_records st) kind)"
  by (auto simp: store_ok_def gm_get_def dest: map_of_SomeD split: option.split)

lemma rows_ok_drop: "rows_ok m \<Longrightarrow> rows_ok (gm_drop P m)"
  by (auto simp: rows_ok_def gm_drop_def)

lemma rows_ok_put: "rows_ok m \<Longrightarrow> NUL \<notin> set (rc_Workspace r) \<Longrightarrow> rows_ok (gm_put (recordKey r) r m)"
  by (auto simp: rows_ok_def set_gm_put)

lemma rows_ok_put_records:
  "rows_ok m \<Longrightarrow> \<forall>r \<in> set rs. NUL \<notin> set (rc_Workspace r) \<Longrightarrow> rows_ok (put_records rs m)"
  unfolding put_records_def by (induction rs arbitrary: m) (simp_all add: rows_ok_put)

lemma recordKey_workspace:
  assumes "recordKey r = recordKey r'" and "NUL \<notin> set (rc_Workspace r)" and "NUL \<notin> set (rc_Workspace r')"
  shows "rc_Workspace r = rc_Workspace r'"
proof -
  let ?rest = "\<lambda>r. join [rc_Kind r, rc_Cluster r, rc_Namespace r, rc_Name r] [NUL]"
  have "rc_Workspace r @ NUL # ?rest r = rc_Workspace r' @ NUL # ?rest r'"
    using assms(1) by (simp add: recordKey_def)
  from split_at_sep [OF this assms(2,3)] show ?thesis by simp
qed

definition view_rows :: "string \<Rightarrow> (string, Record) gomap \<Rightarrow> Record list" where
  "view_rows w m = filter (\<lambda>r. rc_Workspace r = w) (map snd m)"

lemma view_rows_put:
  assumes "rows_ok m" and "NUL \<notin> set (rc_Workspace r)" and "rc_Workspace r \<noteq> w'"
  shows "view_rows w' (gm_put (recordKey r) r m) = view_rows w' m"
  using assms(1)
proof (induction m)
  case Nil
  from assms(3) show ?case by (simp add: view_rows_def)
next
  case (Cons e m)
  obtain k x where e: "e = (k, x)" by (cases e)
  have k: "k = recordKey x" "NUL \<notin> set (rc_Workspace x)" and m: "rows_ok m"
    using Cons.prems by (auto simp: e rows_ok_def gm_wf_def)
  show ?case
  proof (cases "k = recordKey r")
    case True
    then have "rc_Workspace x = rc_Workspace r" using recordKey_workspace [of x r] k assms(2) by simp
    with True assms(3) show ?thesis by (simp add: e view_rows_def)
  next
    case False
    with Cons.IH [OF m] show ?thesis by (simp add: e view_rows_def)
  qed
qed

lemma view_rows_put_records:
  assumes "rows_ok m" and "\<forall>r \<in> set rs. NUL \<notin> set (rc_Workspace r) \<and> rc_Workspace r \<noteq> w'"
  shows "view_rows w' (put_records rs m) = view_rows w' m"
  using assms
proof (induction rs arbitrary: m)
  case (Cons r rs)
  then have "view_rows w' (gm_put (recordKey r) r m) = view_rows w' m" "rows_ok (gm_put (recordKey r) r m)"
    by (simp_all add: view_rows_put rows_ok_put)
  with Cons show ?case by (simp add: put_records_def)
qed (simp add: put_records_def)

lemma view_rows_drop:
  assumes "\<And>k r. P k r \<Longrightarrow> rc_Workspace r \<noteq> w'"
  shows "view_rows w' (gm_drop P m) = view_rows w' m"
proof (induction m)
  case (Cons e m)
  then show ?case using assms [of "fst e" "snd e"] by (cases e) (auto simp: view_rows_def gm_drop_def)
qed (simp add: gm_drop_def)

lemma visible_put:
  assumes "view_rows w' x = view_rows w' (gm_get [] recs k)"
  shows "visible w' (gm_put k x recs) = visible w' recs"
  using assms
proof (induction recs)
  case Nil
  then show ?case by (simp add: visible_def view_rows_def)
next
  case (Cons e recs)
  obtain n m where e: "e = (n, m)" by (cases e)
  show ?case
  proof (cases "n = k")
    case True
    with Cons.prems have "view_rows w' x = view_rows w' m" by (simp add: e gm_get_def)
    with True show ?thesis by (simp add: e visible_Cons Let_def view_rows_def [symmetric])
  next
    case False
    with Cons.prems have "view_rows w' x = view_rows w' (gm_get [] recs k)" by (simp add: e gm_get_def)
    with Cons.IH False show ?thesis by (simp add: e visible_Cons)
  qed
qed

lemma agree_on_kind:
  assumes "view_rows w' (f (gm_get [] (cs_records st) kind)) = view_rows w' (gm_get [] (cs_records st) kind)"
  shows "agree w' st (on_kind kind f st)"
  using visible_put [OF assms] by (simp add: agree_def on_kind_def members_def scope_member_def)

lemma agree_learn_record [agree_intros]:
  assumes "w \<noteq> w'" and "rc_Workspace r = w"
  shows "agree w' st (learn_record u w c r st)"
proof -
  have "agree w' st (st\<lparr>cs_aliases := gm_put (w, kindAlias u (rc_Kind r)) c (cs_aliases st)\<rparr>)"
    using assms(1) by (simp add: agree_def members_def scope_member_def own_put)
  from agree_trans [OF this agree_mark [OF assms(1)]] show ?thesis by (simp add: learn_record_def assms(2))
qed

lemma agree_reachable [agree_intros]: "w \<noteq> w' \<Longrightarrow> agree w' st (markScopeReachableLocked w kind scope at st)"
  by (simp add: agree_def markScopeReachableLocked_def members_def scope_member_def own_put own_del Let_def)

lemma agree_unreachable [agree_intros]: "w \<noteq> w' \<Longrightarrow> agree w' st (markScopeUnreachableLocked w kind scope e st)"
  by (simp add: agree_def markScopeUnreachableLocked_def members_def scope_member_def own_put own_del Let_def)

subsection \<open>Every operation keeps the invariant\<close>

named_theorems store_ok_intros \<open>operations keep the store invariant\<close>

lemma store_ok_cong:
  assumes "store_ok st" and "cs_records st' = cs_records st" "cs_scopeWorkspaces st' = cs_scopeWorkspaces st"
    "cs_changed st' = cs_changed st" "cs_closed st' = cs_closed st" "cs_channels st' = cs_channels st"
  shows "store_ok st'"
  using assms by (simp add: store_ok_def channels_ok_def)

lemma store_ok_notify [store_ok_intros]:
  assumes "store_ok st"
  shows "store_ok (notifyLocked w st)"
proof -
  have ch: "channels_ok st" using assms by (simp add: store_ok_def)
  have cur: "ch < cs_channels st" "ch \<notin> set (cs_closed st)" if "map_of (cs_changed st) v = Some ch" for v ch
    using ch that by (auto simp: channels_ok_def)
  have inj: "v = v'" if "map_of (cs_changed st) v = Some ch" "map_of (cs_changed st) v' = Some ch" for v v' ch
    using ch that by (auto simp: channels_ok_def)
  have closed: "ch < cs_channels st" if "ch \<in> set (cs_closed st)" for ch
    using ch that by (auto simp: channels_ok_def)
  let ?n = "cs_channels st" and ?st = "notifyLocked w st"
  have look: "map_of (cs_changed ?st) v = (if v = w then Some ?n else map_of (cs_changed st) v)" for v
    by (simp add: notifyLocked_def)
  have shut: "set (cs_closed ?st) = set (cs_closed st) \<union> set_option (map_of (cs_changed st) w)"
    by (auto simp: notifyLocked_def split: option.split)
  have n: "cs_channels ?st = Suc ?n" by (simp add: notifyLocked_def)
  have "channels_ok ?st" unfolding channels_ok_def
  proof (intro conjI allI impI ballI)
    fix v ch assume "map_of (cs_changed ?st) v = Some ch"
    then show "ch < cs_channels ?st" "ch \<notin> set (cs_closed ?st)"
      using cur inj [of v ch w] cur [of w ch] closed [of ch]
      by (force simp: look shut n less_Suc_eq split: if_splits)+
  next
    fix ch assume "ch \<in> set (cs_closed ?st)"
    then show "ch < cs_channels ?st" using closed [of ch] cur(1) [of w ch] by (force simp: shut n)
  next
    fix v v' ch assume "map_of (cs_changed ?st) v = Some ch" "map_of (cs_changed ?st) v' = Some ch"
    then show "v = v'" using inj [of v ch v'] cur(1) [of v ch] cur(1) [of v' ch]
      by (auto simp: look split: if_splits)
  qed
  with assms show ?thesis by (simp add: store_ok_def notifyLocked_def)
qed

lemma store_ok_mark [store_ok_intros]:
  assumes "store_ok st"
  shows "store_ok (markScopeWorkspaceLocked w s st)"
  using assms by (auto simp: store_ok_def markScopeWorkspaceLocked_def channels_ok_def set_gm_put)

lemma store_ok_on_kind:
  assumes "store_ok st" and "rows_ok (f (gm_get [] (cs_records st) kind))"
  shows "store_ok (on_kind kind f st)"
  using assms by (auto simp: store_ok_def on_kind_def channels_ok_def set_gm_put)

lemma store_ok_forget:
  assumes "store_ok st"
  shows "store_ok (forget_scopes w st)"
proof -
  have keys: "gm_wf (map (\<lambda>(n, ms). (n, gm_del w ms)) sw)" if "gm_wf sw" for sw :: "(string, (string, bool) gomap) gomap"
    using that by (simp add: gm_wf_def comp_def case_prod_unfold)
  show ?thesis using assms by (auto simp: store_ok_def forget_scopes_def channels_ok_def keys)
qed

lemma store_ok_fold:
  assumes "store_ok st" and "\<And>x st. x \<in> set xs \<Longrightarrow> store_ok st \<Longrightarrow> store_ok (f x st)"
  shows "store_ok (fold f xs st)"
  using assms by (induction xs arbitrary: st) simp_all

lemma store_ok_learn [store_ok_intros]:
  "store_ok st \<Longrightarrow> store_ok (learn_scope w e st)"
  "store_ok st \<Longrightarrow> store_ok (learn_record u w c r st)"
  "store_ok st \<Longrightarrow> store_ok (expect_kind u w kind st)"
proof -
  assume ok: "store_ok st"
  have "store_ok (st\<lparr>cs_scopes := x\<rparr>)" "store_ok (st\<lparr>cs_aliases := y\<rparr>)" for x y
    by (rule store_ok_cong [OF ok]; simp)+
  then show "store_ok (learn_scope w e st)" "store_ok (learn_record u w c r st)"
    by (simp_all add: learn_scope_def learn_record_def store_ok_mark split: prod.split)
  show "store_ok (expect_kind u w kind st)"
    by (rule store_ok_cong [OF ok]) (simp_all add: expect_kind_def Let_def)
qed

lemma store_ok_scope_marks [store_ok_intros]:
  assumes "store_ok st"
  shows "store_ok (markScopeReachableLocked w kind scope at st)"
    and "store_ok (markScopeUnreachableLocked w kind scope e st)"
  by (rule store_ok_cong [OF assms]; simp add: markScopeReachableLocked_def markScopeUnreachableLocked_def Let_def)+

lemma marks_keep_records [simp]:
  "cs_records (markScopeWorkspaceLocked w s st) = cs_records st"
  "cs_records (markScopeReachableLocked w kind scope at st) = cs_records st"
  "cs_records (markScopeUnreachableLocked w kind scope e st) = cs_records st"
  "cs_records (learn_record u w c r st) = cs_records st"
  "cs_records (notifyLocked w st) = cs_records st"
  by (simp_all add: markScopeWorkspaceLocked_def markScopeReachableLocked_def markScopeUnreachableLocked_def
      learn_record_def notifyLocked_def Let_def)

lemma fold_learn_records [simp]: "cs_records (fold (learn_record u w c) rs st) = cs_records st"
  by (induction rs arbitrary: st) simp_all

lemma admit_fact_Inr:
  "admit_fact u api w scope f = Inr r \<Longrightarrow> rc_Workspace r = w \<and> (\<forall>s. scope = Some s \<longrightarrow> rc_Cluster r = s) \<and> normalize u api f = Inr r"
  by (auto simp: admit_fact_def split: sum.splits if_splits option.splits)

lemma admitted_rows:
  assumes "rmap (admit_fact u api w scope) fs = Inr rs"
  shows "\<forall>r \<in> set rs. rc_Workspace r = w"
  using rmap_Inr_all [OF assms] admit_fact_Inr by blast

lemma watch_records_workspace:
  "watch_records u api ev = Inr rs \<Longrightarrow> \<forall>r \<in> set rs. rc_Workspace r = we_Workspace ev"
  by (auto simp: watch_records_def rbind_eq_Inr dest: admit_fact_Inr admitted_rows split: if_splits)

text \<open>
  A composite step: it keeps the invariant and does not show in the view of another workspace.
\<close>

definition local_to :: "string \<Rightarrow> Store \<Rightarrow> Store \<Rightarrow> bool" where
  "local_to w st st' \<longleftrightarrow> store_ok st' \<and> (\<forall>w'. w \<noteq> w' \<longrightarrow> agree w' st st')"

lemma local_to_refl: "store_ok st \<Longrightarrow> local_to w st st"
  by (simp add: local_to_def)

lemma local_to_trans:
  "local_to w st st' \<Longrightarrow> (store_ok st' \<Longrightarrow> local_to w st' st'') \<Longrightarrow> local_to w st st''"
  unfolding local_to_def by (blast intro: agree_trans)

lemma local_to_fold:
  assumes "store_ok st" and "\<And>x st. x \<in> set xs \<Longrightarrow> store_ok st \<Longrightarrow> local_to w st (f x st)"
  shows "local_to w st (fold f xs st)"
  using assms
proof (induction xs arbitrary: st)
  case (Cons x xs)
  have first: "local_to w st (f x st)" by (rule Cons.prems) (simp_all add: Cons.prems)
  have "local_to w (f x st) (fold f xs (f x st))" if "store_ok (f x st)"
    by (rule Cons.IH [OF that]) (simp add: Cons.prems)
  from local_to_trans [OF first this] show ?case by simp
qed (simp add: local_to_refl)

lemma local_to_steps:
  assumes "store_ok st"
  shows "local_to w st (notifyLocked w st)"
    and "local_to w st (forget_scopes w st)"
    and "local_to w st (learn_scope w e st)"
    and "local_to w st (expect_kind u w kind st)"
    and "local_to w st (markScopeReachableLocked w kind scope at st)"
    and "local_to w st (markScopeUnreachableLocked w kind scope err st)"
    and "rc_Workspace r = w \<Longrightarrow> local_to w st (learn_record u w c r st)"
    and "local_to w st (finish_reconcile now w c st)"
proof -
  have wf: "gm_wf (cs_scopeWorkspaces st)" using assms by (simp add: store_ok_def)
  show "local_to w st (notifyLocked w st)" "local_to w st (forget_scopes w st)"
    "local_to w st (learn_scope w e st)" "local_to w st (expect_kind u w kind st)"
    "local_to w st (markScopeReachableLocked w kind scope at st)"
    "local_to w st (markScopeUnreachableLocked w kind scope err st)"
    "rc_Workspace r = w \<Longrightarrow> local_to w st (learn_record u w c r st)"
    by (simp_all add: local_to_def assms store_ok_intros store_ok_forget agree_intros agree_forget [OF _ wf])
  let ?st = "st\<lparr>cs_warmed := gm_put (w, c) True (cs_warmed st), cs_updatedAt := gm_put w now (cs_updatedAt st)\<rparr>"
  have "store_ok ?st" by (rule store_ok_cong [OF assms]) simp_all
  moreover have "agree w' st ?st" if "w \<noteq> w'" for w'
    using that by (simp add: agree_def members_def scope_member_def own_put)
  ultimately have "local_to w st ?st" by (simp add: local_to_def)
  then show "local_to w st (finish_reconcile now w c st)" unfolding finish_reconcile_def
    by (rule local_to_trans) (simp add: local_to_def store_ok_intros agree_intros)
qed

lemma local_to_on_kind:
  assumes "store_ok st" and "rows_ok (f (gm_get [] (cs_records st) kind))"
    and "\<And>w'. w \<noteq> w' \<Longrightarrow> view_rows w' (f (gm_get [] (cs_records st) kind)) = view_rows w' (gm_get [] (cs_records st) kind)"
  shows "local_to w st (on_kind kind f st)"
  using assms by (simp add: local_to_def store_ok_on_kind agree_on_kind)

lemma local_to_put_records:
  assumes "store_ok st" and "\<forall>r \<in> set rs. rc_Workspace r = w" and "NUL \<notin> set w"
  shows "local_to w st (on_kind kind (put_records rs) st)"
  by (rule local_to_on_kind [OF assms(1)])
    (use assms(2,3) rows_ok_get [OF assms(1)] in \<open>auto simp: rows_ok_put_records view_rows_put_records\<close>)

lemma local_to_drop:
  assumes "store_ok st" and "\<And>k r. P k r \<Longrightarrow> rc_Workspace r = w"
  shows "local_to w st (on_kind kind (gm_drop P) st)"
proof (rule local_to_on_kind [OF assms(1)])
  show "rows_ok (gm_drop P (gm_get [] (cs_records st) kind))" by (simp add: rows_ok_drop rows_ok_get [OF assms(1)])
  show "view_rows w' (gm_drop P (gm_get [] (cs_records st) kind)) = view_rows w' (gm_get [] (cs_records st) kind)"
    if "w \<noteq> w'" for w'
    by (rule view_rows_drop) (use that assms(2) in blast)
qed

lemma local_to_id: "store_ok st \<Longrightarrow> local_to w st (on_kind kind (\<lambda>m. m) st)"
  by (rule local_to_on_kind) (simp_all add: rows_ok_get)

text \<open>Updates of fields outside the invariant, keyed by the workspace.\<close>

lemma local_to_fields:
  assumes "store_ok st"
  shows "local_to w st (st\<lparr>cs_aliases := gm_put (w, k) a (cs_aliases st)\<rparr>)"
    and "local_to w st (st\<lparr>cs_coverage := gm_put (w, k) c (cs_coverage st)\<rparr>)"
    and "local_to w st (st\<lparr>cs_watchErrors := gm_del (w, k) (cs_watchErrors st)\<rparr>)"
    and "local_to w st (st\<lparr>cs_diagnostics := gm_put w d (cs_diagnostics st)\<rparr>)"
    and "local_to w st (st\<lparr>cs_paused := gm_put w p (cs_paused st)\<rparr>)"
    and "local_to w st (st\<lparr>cs_syncing := gm_put w s (cs_syncing st), cs_syncErrors := gm_del w (cs_syncErrors st)\<rparr>)"
    and "local_to w st (st\<lparr>cs_syncing := gm_put w s (cs_syncing st), cs_syncErrors := gm_put w m (cs_syncErrors st)\<rparr>)"
  using assms
  by (simp_all add: local_to_def agree_def members_def scope_member_def own_put own_del store_ok_def channels_ok_def)

lemma local_to_replace_rows:
  assumes "store_ok st" and "\<forall>r \<in> set rs. rc_Workspace r = w" and "NUL \<notin> set w"
  shows "local_to w st (replace_rows u w kind canonical cov rs st)"
proof -
  define st1 where "st1 = on_kind canonical (\<lambda>m. m) st"
  define st2 where "st2 = st1\<lparr>cs_aliases := gm_put (w, kindAlias u kind) canonical (cs_aliases st1)\<rparr>"
  define st3 where "st3 = fold (learn_record u w canonical) rs st2"
  define st4 where "st4 = on_kind canonical
    (gm_drop (\<lambda>_ r. rc_Workspace r = w \<and> rc_Cluster r \<notin> set (Unreachable cov @ Truncated cov))) st3"
  define st5 where "st5 = on_kind canonical (put_records rs) st4"
  define st6 where "st6 = st5\<lparr>cs_coverage := gm_put (w, canonical) cov (cs_coverage st5)\<rparr>"
  have l1: "local_to w st st1" unfolding st1_def by (rule local_to_id [OF assms(1)])
  have l2: "local_to w st st2" by (rule local_to_trans [OF l1]) (simp add: st2_def local_to_fields)
  have l3: "local_to w st st3" unfolding st3_def
    by (rule local_to_trans [OF l2], rule local_to_fold, assumption) (simp add: local_to_steps assms(2))
  have l4: "local_to w st st4" unfolding st4_def
    by (rule local_to_trans [OF l3], rule local_to_drop) simp_all
  have l5: "local_to w st st5" unfolding st5_def
    by (rule local_to_trans [OF l4], rule local_to_put_records) (simp_all add: assms)
  have l6: "local_to w st st6" by (rule local_to_trans [OF l5]) (simp add: st6_def local_to_fields)
  have l7: "local_to w st (st6\<lparr>cs_watchErrors := gm_del (w, canonical) (cs_watchErrors st6)\<rparr>)"
    by (rule local_to_trans [OF l6]) (simp add: local_to_fields)
  have "replace_rows u w kind canonical cov rs st =
      (if Unreachable cov = [] then st6\<lparr>cs_watchErrors := gm_del (w, canonical) (cs_watchErrors st6)\<rparr> else st6)"
    by (simp add: replace_rows_def st1_def st2_def st3_def st4_def st5_def st6_def Let_def)
  with l6 l7 show ?thesis by simp
qed

lemma local_to_watch_apply:
  assumes "store_ok st" and "\<forall>r \<in> set rs. rc_Workspace r = we_Workspace ev" and "NUL \<notin> set (we_Workspace ev)"
  shows "local_to (we_Workspace ev) st (watch_apply canonical ev rs st)"
proof -
  let ?w = "we_Workspace ev" and ?s = "we_Scope ev"
  define drop_scope where "drop_scope = on_kind canonical (gm_drop (\<lambda>_ r. rc_Workspace r = ?w \<and> rc_Cluster r = ?s)) st"
  have d: "local_to ?w st drop_scope" unfolding drop_scope_def by (rule local_to_drop [OF assms(1)]) simp
  have p: "local_to ?w x (on_kind canonical (put_records rs) x)" if "store_ok x" for x
    by (rule local_to_put_records [OF that assms(2,3)])
  define snap where "snap = markScopeReachableLocked ?w canonical ?s (we_ObservedAt ev) (on_kind canonical (put_records rs) drop_scope)"
  have s: "local_to ?w st snap" unfolding snap_def
    by (rule local_to_trans [OF local_to_trans [OF d p]]) (simp_all add: local_to_steps)
  have s': "local_to ?w st (snap\<lparr>cs_coverage := gm_put (?w, canonical) c (cs_coverage snap)\<rparr>)" for c
    by (rule local_to_trans [OF s]) (simp add: local_to_fields)
  have up: "local_to ?w st (markScopeReachableLocked ?w canonical ?s (we_ObservedAt ev) (on_kind canonical (put_records rs) st))"
    by (rule local_to_trans [OF p [OF assms(1)]]) (simp add: local_to_steps)
  have del: "local_to ?w st (markScopeReachableLocked ?w canonical ?s (we_ObservedAt ev) (on_kind canonical (gm_drop P) st))"
    if "\<And>k r. P k r \<Longrightarrow> rc_Workspace r = ?w" for P
  proof -
    have "local_to ?w st (on_kind canonical (gm_drop P) st)" by (rule local_to_drop [OF assms(1)]) (rule that)
    then show ?thesis by (rule local_to_trans) (simp add: local_to_steps)
  qed
  have del': "local_to ?w st (markScopeReachableLocked ?w canonical ?s (we_ObservedAt ev)
      (on_kind canonical (gm_drop (\<lambda>_ r. rc_Workspace r = ?w \<and> rc_Cluster r = ?s \<and>
         rc_Namespace r = RefNamespace (we_Ref ev) \<and> rc_Name r = RefName (we_Ref ev))) st))"
    by (rule del) simp
  show ?thesis
    using s' up del' local_to_steps(6) [OF assms(1)]
    by (simp add: watch_apply_def Let_def drop_scope_def [symmetric] snap_def [symmetric])
qed

lemma store_ok_wait:
  assumes "store_ok st" and "map_of (cs_changed st) w = None"
  shows "store_ok (st\<lparr>cs_changed := gm_put w (cs_channels st) (cs_changed st), cs_channels := Suc (cs_channels st)\<rparr>)"
proof -
  have ch: "channels_ok st" using assms by (simp add: store_ok_def)
  have cur: "map_of (cs_changed st) v = Some c \<Longrightarrow> c < cs_channels st \<and> c \<notin> set (cs_closed st)" for v c
    using ch by (auto simp: channels_ok_def)
  have closed: "c \<in> set (cs_closed st) \<Longrightarrow> c < cs_channels st" for c using ch by (auto simp: channels_ok_def)
  have inj: "map_of (cs_changed st) v = Some c \<Longrightarrow> map_of (cs_changed st) v' = Some c \<Longrightarrow> v = v'" for v v' c
    using ch by (auto simp: channels_ok_def)
  have "channels_ok (st\<lparr>cs_changed := gm_put w (cs_channels st) (cs_changed st), cs_channels := Suc (cs_channels st)\<rparr>)"
    unfolding channels_ok_def by (auto dest: cur closed inj intro: less_SucI split: if_splits)
  with assms(1) show ?thesis by (simp add: store_ok_def)
qed

lemma local_to_wait: "store_ok st \<Longrightarrow> local_to w st (snd (wait_round w after st))"
  by (auto simp: wait_round_def Let_def local_to_def store_ok_wait agree_def members_def scope_member_def
      split: option.splits)

lemma workspace_no_NUL: "ValidateWorkspaceID w = Inr x \<Longrightarrow> NUL \<notin> set w"
  by (simp add: ValidateWorkspaceID_def validateIdentity_Inr no_control_no_NUL)

lemma Replace_cases:
  obtains (skip) "snd (Replace u api now w kind result st) = st"
      "is_ok (fst (Replace u api now w kind result st)) \<longrightarrow> gm_get False (cs_paused st) w"
  | (run) rs where "ValidateWorkspaceID w = Inr ()" "canonicalKind u kind \<noteq> []"
      "rmap (admit_fact u api w None) (qr_Facts result) = Inr rs" "\<not> gm_get False (cs_paused st) w"
      "Replace u api now w kind result st = (Inr (), finish_reconcile now w (canonicalKind u kind)
         (replace_rows u w kind (canonicalKind u kind) (qr_Coverage result) rs st))"
proof -
  show thesis
  proof (cases "ValidateWorkspaceID w")
    case (Inl e)
    then show thesis by (intro skip) (simp_all add: Replace_def)
  next
    case (Inr x)
    note valid = this
    show thesis
    proof (cases "canonicalKind u kind = []")
      case True
      with valid show thesis by (intro skip) (simp_all add: Replace_def Let_def)
    next
      case kind: False
      show thesis
      proof (cases "rmap (admit_fact u api w None) (qr_Facts result)")
        case (Inl e)
        with valid kind show thesis by (intro skip) (simp_all add: Replace_def Let_def)
      next
        case (Inr rs)
        show thesis
        proof (cases "gm_get False (cs_paused st) w")
          case True
          with valid kind Inr show thesis by (intro skip) (simp_all add: Replace_def Let_def)
        next
          case False
          with valid kind Inr show thesis by (intro run) (simp_all add: Replace_def Let_def)
        qed
      qed
    qed
  qed
qed

lemma Watch_cases:
  obtains (skip) "snd (ApplyWatchEvent u api now ev st) = st"
      "is_ok (fst (ApplyWatchEvent u api now ev st)) \<longrightarrow> gm_get False (cs_paused st) (we_Workspace ev)"
  | (run) rs where "ValidateWorkspaceID (we_Workspace ev) = Inr ()" "watch_records u api ev = Inr rs"
      "\<not> gm_get False (cs_paused st) (we_Workspace ev)" "scope_member st (we_Scope ev) (we_Workspace ev)"
      "ApplyWatchEvent u api now ev st = (Inr (),
         finish_reconcile now (we_Workspace ev) (canonicalKind u (we_Kind ev))
           (watch_apply (canonicalKind u (we_Kind ev)) ev rs
             (fold (learn_record u (we_Workspace ev) (canonicalKind u (we_Kind ev))) rs
               (on_kind (canonicalKind u (we_Kind ev)) (\<lambda>m. m)
                 (st\<lparr>cs_aliases := gm_put (we_Workspace ev, kindAlias u (we_Kind ev)) (canonicalKind u (we_Kind ev)) (cs_aliases st)\<rparr>)))))"
proof -
  let ?bad = "canonicalKind u (we_Kind ev) = [] \<or> trim_space (we_Scope ev) = [] \<or> we_Type ev = WatchError \<and> we_Err ev = None"
  show thesis
  proof (cases "ValidateWorkspaceID (we_Workspace ev)")
    case (Inl e)
    then show thesis by (intro skip) (simp_all add: ApplyWatchEvent_def Let_def)
  next
    case (Inr x)
    note valid = this
    show thesis
    proof (cases ?bad)
      case True
      with valid show thesis by (intro skip) (auto simp: ApplyWatchEvent_def Let_def)
    next
      case False
      show thesis
      proof (cases "watch_records u api ev")
        case (Inl e)
        with False valid show thesis by (intro skip) (simp_all add: ApplyWatchEvent_def Let_def)
      next
        case (Inr rs)
        show thesis
        proof (cases "gm_get False (cs_paused st) (we_Workspace ev)")
          case True
          with False valid Inr show thesis by (intro skip) (simp_all add: ApplyWatchEvent_def Let_def)
        next
          case unpaused: False
          show thesis
          proof (cases "scope_member st (we_Scope ev) (we_Workspace ev)")
            case True
            with False valid Inr unpaused show thesis by (intro run) (simp_all add: ApplyWatchEvent_def Let_def)
          next
            case outside: False
            with False valid Inr unpaused show thesis by (intro skip) (simp_all add: ApplyWatchEvent_def Let_def)
          qed
        qed
      qed
    qed
  qed
qed

lemma local_to_Replace: "store_ok st \<Longrightarrow> local_to w st (snd (Replace u api now w kind result st))"
proof (cases rule: Replace_cases [of u api now w kind result st])
  case (run rs)
  assume ok: "store_ok st"
  have "local_to w st (replace_rows u w kind (canonicalKind u kind) (qr_Coverage result) rs st)"
    by (rule local_to_replace_rows [OF ok admitted_rows [OF run(3)] workspace_no_NUL [OF run(1)]])
  then have "local_to w st (finish_reconcile now w (canonicalKind u kind)
      (replace_rows u w kind (canonicalKind u kind) (qr_Coverage result) rs st))"
    by (rule local_to_trans) (simp add: local_to_steps)
  then show ?thesis by (simp add: run(5))
qed (simp add: local_to_refl)

lemma local_to_Watch: "store_ok st \<Longrightarrow> local_to (we_Workspace ev) st (snd (ApplyWatchEvent u api now ev st))"
proof (cases rule: Watch_cases [of u api now ev st])
  case (run rs)
  assume ok: "store_ok st"
  let ?w = "we_Workspace ev" and ?c = "canonicalKind u (we_Kind ev)"
  note rows = watch_records_workspace [OF run(2)] and nul = workspace_no_NUL [OF run(1)]
  define st1 where "st1 = st\<lparr>cs_aliases := gm_put (?w, kindAlias u (we_Kind ev)) ?c (cs_aliases st)\<rparr>"
  define st2 where "st2 = on_kind ?c (\<lambda>m. m) st1"
  define st3 where "st3 = fold (learn_record u ?w ?c) rs st2"
  have l1: "local_to ?w st st1" using ok by (simp add: st1_def local_to_fields)
  have l2: "local_to ?w st st2" by (rule local_to_trans [OF l1]) (simp add: st2_def local_to_id)
  have l3: "local_to ?w st st3" unfolding st3_def
    by (rule local_to_trans [OF l2], rule local_to_fold, assumption) (simp add: local_to_steps rows)
  have l4: "local_to ?w st (watch_apply ?c ev rs st3)"
    by (rule local_to_trans [OF l3], rule local_to_watch_apply) (simp_all add: rows nul)
  have "local_to ?w st (finish_reconcile now ?w ?c (watch_apply ?c ev rs st3))"
    by (rule local_to_trans [OF l4]) (simp add: local_to_steps)
  with run(5) show ?thesis by (simp add: st1_def st2_def st3_def)
qed (simp add: local_to_refl)

lemma local_to_exec:
  assumes "store_ok st"
  shows "local_to (op_workspace oper) st (cache_exec u api oper st)"
proof (cases oper)
  case (OpBeginSync w kinds)
  define st1 where "st1 = st\<lparr>cs_syncing := gm_put w True (cs_syncing st), cs_syncErrors := gm_del w (cs_syncErrors st)\<rparr>"
  have l1: "local_to w st st1" using assms by (simp add: st1_def local_to_fields)
  have l2: "local_to w st (fold (expect_kind u w) kinds st1)"
    by (rule local_to_trans [OF l1], rule local_to_fold, assumption) (simp add: local_to_steps)
  have "local_to w st (notifyLocked w (fold (expect_kind u w) kinds st1))"
    by (rule local_to_trans [OF l2]) (simp add: local_to_steps)
  with assms show ?thesis by (simp add: OpBeginSync BeginSync_def local_to_refl st1_def)
next
  case (OpSetDiscovery w d)
  define st1 where "st1 = fold (learn_scope w) (known_scopes d) (forget_scopes w st)"
  have l1: "local_to w st st1" unfolding st1_def
    by (rule local_to_trans [OF local_to_steps(2) [OF assms]], rule local_to_fold, assumption) (simp add: local_to_steps)
  have l2: "local_to w st (st1\<lparr>cs_diagnostics := gm_put w (dv_Diagnostics d) (cs_diagnostics st1)\<rparr>)"
    by (rule local_to_trans [OF l1]) (simp add: local_to_fields)
  have "local_to w st (notifyLocked w (st1\<lparr>cs_diagnostics := gm_put w (dv_Diagnostics d) (cs_diagnostics st1)\<rparr>))"
    by (rule local_to_trans [OF l2]) (simp add: local_to_steps)
  with assms show ?thesis
    by (simp add: OpSetDiscovery SetDiscovery_def local_to_refl st1_def Let_def split: sum.split)
next
  case (OpReplace now w kind result)
  with local_to_Replace [OF assms] show ?thesis by simp
next
  case (OpWatch now ev)
  with local_to_Watch [OF assms] show ?thesis by simp
next
  case (OpEndSync w err)
  have l: "local_to w st (notifyLocked w (st\<lparr>cs_syncing := gm_put w False (cs_syncing st),
      cs_syncErrors := (case err of Some m \<Rightarrow> gm_put w m (cs_syncErrors st) | None \<Rightarrow> gm_del w (cs_syncErrors st))\<rparr>))"
    by (rule local_to_trans [of _ _ "st\<lparr>cs_syncing := gm_put w False (cs_syncing st),
      cs_syncErrors := (case err of Some m \<Rightarrow> gm_put w m (cs_syncErrors st) | None \<Rightarrow> gm_del w (cs_syncErrors st))\<rparr>"])
      (auto simp: local_to_steps assms local_to_fields split: option.split)
  with assms show ?thesis by (simp add: OpEndSync EndSync_def local_to_refl split: sum.split)
next
  case (OpSetPaused w p)
  have "local_to w st (notifyLocked w (st\<lparr>cs_paused := gm_put w p (cs_paused st)\<rparr>))"
    by (rule local_to_trans [OF local_to_fields(5) [OF assms, of w p]]) (simp add: local_to_steps)
  with assms show ?thesis by (simp add: OpSetPaused SetPaused_def local_to_refl split: sum.split)
next
  case (OpWait w after)
  with local_to_wait [OF assms] show ?thesis by simp
qed

lemma store_ok_new: "store_ok (newStore freshFor)"
  by (simp add: store_ok_def newStore_def channels_ok_def)

interpretation cache: safety_system "\<lambda>st. \<exists>freshFor. st = newStore freshFor" "cache_step u api" store_ok for u api
  by unfold_locales (use store_ok_new local_to_exec in \<open>auto simp: cache_step_def local_to_def\<close>)

end
