(* ===== verification/Cache_Correct.thy ===== *)
theory Cache_Correct
  imports Cache_Isolation
begin

text \<open>
  The promises of the fleet cache, over every reachable store: isolation of workspaces, freezing by
  pause, what a reconciliation keeps and replaces, honest coverage, and wake-ups that are not lost.
\<close>

subsection \<open>Isolation and pausing\<close>

abbreviation cache_reach :: "unicode_case \<Rightarrow> object_api \<Rightarrow> Store \<Rightarrow> bool" where
  "cache_reach u api \<equiv> reach (\<lambda>st. \<exists>freshFor. st = newStore freshFor) (cache_step u api)"

text \<open>
  C13: workspaces are isolated. In every store the cache can reach, no operation of one workspace
  (synchronisation, discovery, reconciliation, watch event, pause, wait) changes any answer
  another workspace gets: its records, coverage, state, version, scopes, errors and diagnostics.
\<close>
theorem workspace_isolation:
  assumes "cache_reach u api st" and "op_workspace oper \<noteq> w"
  shows "Query u now w q (cache_exec u api oper st) = Query u now w q st"
  using local_to_exec [OF cache.reach_inv [OF assms(1)], of oper u api] assms(2)
  by (metis Query_agree local_to_def)

theorem workspace_isolation_witness:
  "sn_Version (Query ascii_case 5 ''b'' empty_query
     (cache_exec ascii_case sample_api (OpBeginSync ''b'' [''pods'']) (newStore defaultFreshFor))) = 1 \<and>
   Query ascii_case 5 ''a'' empty_query
     (cache_exec ascii_case sample_api (OpBeginSync ''b'' [''pods'']) (newStore defaultFreshFor)) =
   Query ascii_case 5 ''a'' empty_query (newStore defaultFreshFor)"
proof
  show "sn_Version (Query ascii_case 5 ''b'' empty_query
     (cache_exec ascii_case sample_api (OpBeginSync ''b'' [''pods'']) (newStore defaultFreshFor))) = 1"
    by code_simp
  show "Query ascii_case 5 ''a'' empty_query
     (cache_exec ascii_case sample_api (OpBeginSync ''b'' [''pods'']) (newStore defaultFreshFor)) =
   Query ascii_case 5 ''a'' empty_query (newStore defaultFreshFor)"
    by (rule workspace_isolation [OF reach_init]) auto
qed

lemma valid_workspace_not_blank: "is_ok (ValidateWorkspaceID w) \<Longrightarrow> trim_space w \<noteq> []"
  by (auto simp: is_ok_iff ValidateWorkspaceID_def validateIdentity_Inr)

text \<open>
  A paused workspace is frozen. No synchronisation starts, discovery, reconciliation and watch
  events leave the whole store as it is (whatever they carry), and readers are told so.
\<close>
theorem paused_frozen:
  assumes "Paused w st"
  shows "BeginSync u w kinds st = (False, st) \<and> SetDiscovery w d st = (Inr (), st) \<and>
    snd (Replace u api now w kind result st) = st \<and>
    snd (ApplyWatchEvent u api now (ev\<lparr>we_Workspace := w\<rparr>) st) = st \<and>
    sn_State (Query u now w q st) = StatePaused"
proof -
  have valid: "is_ok (ValidateWorkspaceID w)" and p: "gm_get False (cs_paused st) w"
    using assms by (auto simp: Paused_def split: if_splits)
  obtain x where x: "ValidateWorkspaceID w = Inr x" using valid by (auto simp: is_ok_iff)
  have rep: "snd (Replace u api now w kind result st) = st"
    by (rule Replace_cases [of u api now w kind result st]) (simp_all add: p)
  have wat: "snd (ApplyWatchEvent u api now (ev\<lparr>we_Workspace := w\<rparr>) st) = st"
    by (rule Watch_cases [of u api now "ev\<lparr>we_Workspace := w\<rparr>" st]) (simp_all add: p)
  show ?thesis
    using rep wat x p valid valid_workspace_not_blank [OF valid]
    by (simp add: BeginSync_def SetDiscovery_def Query_def stateLocked_def Let_def)
qed

definition sample_store :: Store where
  "sample_store = snd (SetPaused ''local'' True (newStore defaultFreshFor))"

definition sample_watch_error :: WatchEvent where
  "sample_watch_error = \<lparr>we_Type = WatchError, we_Workspace = [], we_Kind = ''Pod'', we_Scope = ''c1'',
     we_Facts = [], we_Fact = zero_fact, we_Ref = Ref zero_fact, we_ObservedAt = 0, we_Err = Some ''boom''\<rparr>"

theorem paused_frozen_witness:
  "Paused ''local'' sample_store \<and> BeginSync ascii_case ''local'' [''pods''] sample_store = (False, sample_store) \<and>
   snd (ApplyWatchEvent ascii_case sample_api 7 (sample_watch_error\<lparr>we_Workspace := ''local''\<rparr>) sample_store) = sample_store"
proof -
  have p: "Paused ''local'' sample_store" by code_simp
  from paused_frozen [OF this] p show ?thesis by blast
qed

subsection \<open>Reconciliation is exact\<close>

lemma put_records_put_all: "put_records rs m = gm.put_all recordKey (\<lambda>r. r) rs m"
  by (simp add: put_records_def gm.put_all_def)

lemma replace_rows_records:
  "cs_records (replace_rows u w kind c cov rs st) =
     gm_put c (put_records rs (gm_drop (\<lambda>_ r. rc_Workspace r = w \<and> rc_Cluster r \<notin> set (Unreachable cov @ Truncated cov))
       (gm_get [] (cs_records st) c)))
     (gm_put c (gm_drop (\<lambda>_ r. rc_Workspace r = w \<and> rc_Cluster r \<notin> set (Unreachable cov @ Truncated cov))
        (gm_get [] (cs_records st) c)) (gm_put c (gm_get [] (cs_records st) c) (cs_records st)))"
  by (simp add: replace_rows_def on_kind_def Let_def)

lemma finish_reconcile_records [simp]: "cs_records (finish_reconcile now w c st) = cs_records st"
  by (simp add: finish_reconcile_def)

text \<open>
  C14: a reconciliation replaces exactly what it covers. After an accepted \<open>Replace\<close> of an unpaused
  workspace, the kind holds a submitted record under every submitted key, keeps a previous row of another
  workspace or of a scope reported unreachable or truncated (last-known data survives), drops every other
  previous row, and no other kind changes.
\<close>
theorem Replace_rows_exact:
  assumes "cache_reach u api st" and "Replace u api now w kind result st = (Inr (), st')" and "\<not> Paused w st"
    and "rmap (admit_fact u api w None) (qr_Facts result) = Inr rs"
    and "rows = map_of (gm_get [] (cs_records st') (canonicalKind u kind))"
    and "before = map_of (gm_get [] (cs_records st) (canonicalKind u kind))"
  shows "(\<forall>key \<in> recordKey ` set rs. \<exists>r \<in> set rs. recordKey r = key \<and> rows key = Some r) \<and>
    (\<forall>key. key \<notin> recordKey ` set rs \<longrightarrow> rows key = (case before key of None \<Rightarrow> None
       | Some r \<Rightarrow> if rc_Workspace r = w \<and> rc_Cluster r \<notin> set (Unreachable (qr_Coverage result) @ Truncated (qr_Coverage result))
           then None else Some r)) \<and>
    (\<forall>other. other \<noteq> canonicalKind u kind \<longrightarrow> gm_get [] (cs_records st') other = gm_get [] (cs_records st) other)"
proof (cases rule: Replace_cases [of u api now w kind result st])
  case skip
  have "is_ok (ValidateWorkspaceID w)" using assms(2) by (auto simp: Replace_def split: sum.splits)
  with skip(2) assms(2,3) show ?thesis by (simp add: Paused_def)
next
  case (run rs')
  let ?c = "canonicalKind u kind" and ?cov = "qr_Coverage result"
  let ?P = "\<lambda>(key :: string) r. rc_Workspace r = w \<and> rc_Cluster r \<notin> set (Unreachable ?cov @ Truncated ?cov)"
  have rs: "rs' = rs" using run(3) assms(4) by simp
  have st': "cs_records st' = cs_records (replace_rows u w kind ?c ?cov rs st)"
    using assms(2) run(5) by (auto simp: rs)
  have wf: "gm_wf (gm_get [] (cs_records st) ?c)"
    using rows_ok_get [OF cache.reach_inv [OF assms(1)]] by (simp add: rows_ok_def)
  have rows: "rows = map_of (gm.put_all recordKey (\<lambda>r. r) rs (gm_drop ?P (gm_get [] (cs_records st) ?c)))"
    by (simp add: assms(5) st' replace_rows_records put_records_put_all)
  show ?thesis
  proof (intro conjI ballI allI impI)
    fix key assume "key \<in> recordKey ` set rs"
    then show "\<exists>r \<in> set rs. recordKey r = key \<and> rows key = Some r" unfolding rows by (rule gm.put_all_some)
  next
    fix key assume "key \<notin> recordKey ` set rs"
    then show "rows key = (case before key of None \<Rightarrow> None | Some r \<Rightarrow> if ?P key r then None else Some r)"
      unfolding rows gm.put_all_other [OF \<open>key \<notin> recordKey ` set rs\<close>] gm_lookup_drop [OF wf] assms(6) by simp
  next
    fix other assume "other \<noteq> ?c"
    then show "gm_get [] (cs_records st') other = gm_get [] (cs_records st) other"
      by (simp add: st' replace_rows_records)
  qed
qed

definition sample_result :: QueryResult where
  "sample_result = \<lparr>qr_Facts = [sample_pod ''local'' ''api-0'', sample_pod ''local'' ''api-1''],
     qr_Coverage = zero_coverage\<lparr>Requested := 1, Reachable := 1\<rparr>\<rparr>"

theorem Replace_rows_exact_witness:
  "\<exists>st rs. Replace ascii_case sample_api 9 ''local'' ''pods'' sample_result (newStore defaultFreshFor) = (Inr (), st) \<and>
     length rs = 2 \<and> distinct (map recordKey rs) \<and>
     list_all (\<lambda>key. map_of (gm_get [] (cs_records st) ''Pod'') key \<noteq> None) (map recordKey rs)"
proof -
  have run: "case rmap (admit_fact ascii_case sample_api ''local'' None) (qr_Facts sample_result) of
      Inl _ \<Rightarrow> False | Inr rs \<Rightarrow> length rs = 2 \<and> distinct (map recordKey rs)"
    by code_simp
  have ok: "is_ok (fst (Replace ascii_case sample_api 9 ''local'' ''pods'' sample_result (newStore defaultFreshFor)))"
    by code_simp
  have kind: "canonicalKind ascii_case ''pods'' = ''Pod''" by code_simp
  have unpaused: "\<not> Paused ''local'' (newStore defaultFreshFor)" by code_simp
  obtain rs where rs: "rmap (admit_fact ascii_case sample_api ''local'' None) (qr_Facts sample_result) = Inr rs"
    "length rs = 2" "distinct (map recordKey rs)"
    using run [unfolded case_ok_iff] by blast
  obtain st where st: "Replace ascii_case sample_api 9 ''local'' ''pods'' sample_result (newStore defaultFreshFor) = (Inr (), st)"
    using ok unfolding is_ok_iff by (cases "Replace ascii_case sample_api 9 ''local'' ''pods'' sample_result (newStore defaultFreshFor)") auto
  have "cache_reach ascii_case sample_api (newStore defaultFreshFor)" by (rule reach_init) blast
  from conjunct1 [OF Replace_rows_exact [OF this st unpaused rs(1) refl refl]]
  have "list_all (\<lambda>key. map_of (gm_get [] (cs_records st) ''Pod'') key \<noteq> None) (map recordKey rs)"
    unfolding kind list_all_iff set_map by (metis option.distinct(1))
  with rs(2,3) st show ?thesis by (intro exI conjI)
qed

subsection \<open>Honest coverage\<close>

lemma count_targets_closed:
  "count_targets targets un sta tr =
     \<lparr>Requested = int (length targets), Reachable = int (length (filter (\<lambda>n. n \<notin> un) targets)),
      Unreachable = filter (\<lambda>n. n \<in> un) targets,
      Stale = filter (\<lambda>n. n \<notin> un \<and> n \<in> sta) targets,
      Truncated = filter (\<lambda>n. n \<notin> un \<and> n \<in> tr) targets\<rparr>"
proof -
  let ?step = "\<lambda>name cov. if name \<in> un then cov\<lparr>Unreachable := Unreachable cov @ [name]\<rparr>
        else
          let cov = cov\<lparr>Reachable := Reachable cov + 1\<rparr>;
              cov = (if name \<in> sta then cov\<lparr>Stale := Stale cov @ [name]\<rparr> else cov)
          in if name \<in> tr then cov\<lparr>Truncated := Truncated cov @ [name]\<rparr> else cov"
  have "fold ?step xs cov = cov\<lparr>Reachable := Reachable cov + int (length (filter (\<lambda>n. n \<notin> un) xs)),
      Unreachable := Unreachable cov @ filter (\<lambda>n. n \<in> un) xs,
      Stale := Stale cov @ filter (\<lambda>n. n \<notin> un \<and> n \<in> sta) xs,
      Truncated := Truncated cov @ filter (\<lambda>n. n \<notin> un \<and> n \<in> tr) xs\<rparr>" for xs and cov :: Coverage
    by (induction xs arbitrary: cov) (simp_all add: Let_def)
  then show ?thesis by (simp add: count_targets_def zero_coverage_def)
qed

lemma count_targets_facts:
  "Requested (count_targets targets un sta tr) = int (length targets)"
  "Requested (count_targets targets un sta tr) =
     Reachable (count_targets targets un sta tr) + int (length (Unreachable (count_targets targets un sta tr)))"
  "set (Unreachable (count_targets targets un sta tr)) \<union> set (Stale (count_targets targets un sta tr)) \<union>
     set (Truncated (count_targets targets un sta tr)) \<subseteq> set targets"
  "set (Unreachable (count_targets targets un sta tr)) \<inter>
     (set (Stale (count_targets targets un sta tr)) \<union> set (Truncated (count_targets targets un sta tr))) = {}"
  using sum_length_filter_compl [of "\<lambda>n. n \<in> un" targets] by (auto simp: count_targets_closed)

lemma coverageLocked_shape:
  obtains (pending) "\<not> (resolveKindLocked u st w (cq_Kind q) = [] \<or>
        gm_get False (cs_warmed st) (w, resolveKindLocked u st w (cq_Kind q)))"
      "coverageLocked u st w q records now =
        zero_coverage\<lparr>Requested := int (length (targetScopesLocked u st w (cq_Scopes q)))\<rparr>"
  | (warm) un sta tr where "resolveKindLocked u st w (cq_Kind q) = [] \<or>
        gm_get False (cs_warmed st) (w, resolveKindLocked u st w (cq_Kind q))"
      "coverageLocked u st w q records now =
        count_targets (targetScopesLocked u st w (cq_Scopes q)) un sta tr"
      "\<forall>n \<in> set (targetScopesLocked u st w (cq_Scopes q)). \<not> scope_member st n w \<longrightarrow> n \<in> un"
      "\<forall>r \<in> set records. rc_Stale r \<longrightarrow> rc_Cluster r \<in> sta"
proof (cases "resolveKindLocked u st w (cq_Kind q) = [] \<or>
    gm_get False (cs_warmed st) (w, resolveKindLocked u st w (cq_Kind q))")
  case True
  have pend: "\<not> (resolveKindLocked u st w (cq_Kind q) \<noteq> [] \<and>
      \<not> gm_get False (cs_warmed st) (w, resolveKindLocked u st w (cq_Kind q)))" using True by blast
  show thesis
    by (rule warm [OF True coverageLocked_def [of u st w q records now, unfolded Let_def if_not_P [OF pend]]])
      (auto split: option.splits)
next
  case False
  then show thesis by (intro pending) (simp_all add: coverageLocked_def Let_def)
qed

lemma select_records_workspace: "r \<in> set (select_records u st now w q) \<Longrightarrow> rc_Workspace r = w"
  using query_matches_workspace
  by (fastforce simp: select_records_def Let_def case_prod_unfold dest!: in_set_takeD split: if_splits)

lemma mark_unreachable_simps [simp]:
  "rc_Workspace (mark_unreachable un r) = rc_Workspace r" "rc_Cluster (mark_unreachable un r) = rc_Cluster r"
  "rc_Stale (mark_unreachable un r) \<longleftrightarrow> rc_Stale r \<or> rc_Cluster r \<in> set un"
  by (auto simp: mark_unreachable_def)

text \<open>
  C15: the cache's answers are honest. Every record answered belongs to the workspace asked for; the
  coverage names every target scope as reachable or unreachable (none as both) once the kind
  has been reconciled and claims no reachable scope before; the scopes it lists are target scopes of the
  query; every record of a scope it lists as unreachable is marked stale; and every stale record of
  a target scope has its scope listed as stale or unreachable.
\<close>
theorem Query_honest:
  assumes "trim_space w \<noteq> []" and "snap = Query u now w q st" and "cov = sn_Coverage snap"
    and "targets = targetScopesLocked u st w (cq_Scopes q)" and "kind = resolveKindLocked u st w (cq_Kind q)"
  shows "(\<forall>r \<in> set (sn_Records snap). rc_Workspace r = w) \<and> Requested cov = int (length targets) \<and>
    (if kind = [] \<or> gm_get False (cs_warmed st) (w, kind)
     then Requested cov = Reachable cov + int (length (Unreachable cov)) \<and>
       (\<forall>r \<in> set (sn_Records snap). rc_Stale r \<longrightarrow> rc_Cluster r \<in> set targets \<longrightarrow>
          rc_Cluster r \<in> set (Unreachable cov) \<union> set (Stale cov))
     else Reachable cov = 0 \<and> Unreachable cov = []) \<and>
    set (Unreachable cov) \<union> set (Stale cov) \<union> set (Truncated cov) \<subseteq> set targets \<and>
    set (Unreachable cov) \<inter> (set (Stale cov) \<union> set (Truncated cov)) = {} \<and>
    (\<forall>r \<in> set (sn_Records snap). rc_Cluster r \<in> set (Unreachable cov) \<longrightarrow> rc_Stale r)"
proof -
  let ?recs = "select_records u st now w q"
  have cov: "cov = coverageLocked u st w q ?recs now"
    using assms(1-3) by (simp add: Query_def Let_def)
  have recs: "sn_Records snap = map (mark_unreachable (Unreachable cov)) ?recs"
    using assms(1,2) cov by (simp add: Query_def Let_def)
  have own: "\<forall>r \<in> set (sn_Records snap). rc_Workspace r = w"
    using select_records_workspace by (auto simp: recs)
  have marked: "\<forall>r \<in> set (sn_Records snap). rc_Cluster r \<in> set (Unreachable cov) \<longrightarrow> rc_Stale r"
    by (auto simp: recs)
  show ?thesis
  proof (cases rule: coverageLocked_shape [of u st w q ?recs now])
    case pending
    then show ?thesis using own marked by (simp add: cov assms(4,5) zero_coverage_def)
  next
    case (warm un sta tr)
    have eq: "cov = count_targets targets un sta tr" using warm(2) by (simp add: cov assms(4))
    have "rc_Cluster r \<in> set (Unreachable cov) \<union> set (Stale cov)"
      if "r \<in> set (sn_Records snap)" "rc_Stale r" "rc_Cluster r \<in> set targets" for r
      using that warm(4) by (auto simp: recs eq count_targets_closed)
    with own marked count_targets_facts [of targets un sta tr] warm(1) show ?thesis
      by (simp add: eq assms(5))
  qed
qed

definition sample_warm_store :: Store where
  "sample_warm_store = snd (Replace ascii_case sample_api 9 ''local'' ''pods'' sample_result (newStore defaultFreshFor))"

theorem Query_honest_witness:
  "length (sn_Records (Query ascii_case 10 ''local'' empty_query sample_warm_store)) = 2 \<and>
   Requested (sn_Coverage (Query ascii_case 10 ''local'' empty_query sample_warm_store)) = 1 \<and>
   list_all (\<lambda>r. rc_Workspace r = ''local'') (sn_Records (Query ascii_case 10 ''local'' empty_query sample_warm_store))"
proof -
  have ws: "trim_space ''local'' \<noteq> []" by code_simp
  have "length (sn_Records (Query ascii_case 10 ''local'' empty_query sample_warm_store)) = 2 \<and>
   Requested (sn_Coverage (Query ascii_case 10 ''local'' empty_query sample_warm_store)) = 1"
    by code_simp
  with conjunct1 [OF Query_honest [OF ws refl refl refl refl]] show ?thesis unfolding list_all_iff by blast
qed

lemma Query_workspace: "r \<in> set (sn_Records (Query u now w q st)) \<Longrightarrow> rc_Workspace r = w"
  using select_records_workspace by (auto simp: Query_def Let_def split: if_splits)

text \<open>
  A scoped query is exactly the workspace's query behind the read guard: without a store,
  a workspace or the read role it is refused, and otherwise the answer is the cache's own. The
  second check, that no record escaped the scope, can never fire.
\<close>
theorem QueryScoped_guarded:
  "QueryScoped u now scope q store =
     (case store of
        None \<Rightarrow> Inl CacheStoreNil
      | Some st \<Rightarrow>
          if sc_workspaceID scope = [] then Inl CacheScopeRequired
          else case Authorize scope ActionRead of
            Inl e \<Rightarrow> Inl (CacheUnauthorized e)
          | Inr _ \<Rightarrow> Inr (Query u now (sc_workspaceID scope) q st))"
proof -
  have "RequireAll scope (sn_Records (Query u now (sc_workspaceID scope) q st)) (Some rc_Workspace) = Inr ()"
    if "sc_workspaceID scope \<noteq> []" for st
    using that Query_workspace by (auto simp: RequireAll_def require_from_Inr)
  then show ?thesis by (auto simp: QueryScoped_def Let_def split: option.split sum.split)
qed

subsection \<open>Wake-ups\<close>

definition channel_state :: "Store \<Rightarrow> nat list \<times> (string, 64 word) gomap \<times> (string, nat) gomap" where
  "channel_state st = (cs_closed st, cs_versions st, cs_changed st)"

lemma channel_state_fields [simp]:
  "channel_state (st\<lparr>cs_aliases := a\<rparr>) = channel_state st" "channel_state (st\<lparr>cs_coverage := c\<rparr>) = channel_state st"
  "channel_state (st\<lparr>cs_watchErrors := e\<rparr>) = channel_state st" "channel_state (st\<lparr>cs_records := r\<rparr>) = channel_state st"
  "channel_state (st\<lparr>cs_diagnostics := d\<rparr>) = channel_state st" "channel_state (st\<lparr>cs_scopes := s\<rparr>) = channel_state st"
  "channel_state (st\<lparr>cs_syncing := y\<rparr>) = channel_state st" "channel_state (st\<lparr>cs_syncErrors := z\<rparr>) = channel_state st"
  "channel_state (st\<lparr>cs_paused := p\<rparr>) = channel_state st" "channel_state (st\<lparr>cs_warmed := m\<rparr>) = channel_state st"
  "channel_state (st\<lparr>cs_updatedAt := t\<rparr>) = channel_state st" "channel_state (st\<lparr>cs_expected := x\<rparr>) = channel_state st"
  "channel_state (st\<lparr>cs_scopeWorkspaces := w\<rparr>) = channel_state st"
  by (simp_all add: channel_state_def)

lemma channel_state_steps [simp]:
  "channel_state (markScopeWorkspaceLocked w s st) = channel_state st"
  "channel_state (markScopeReachableLocked w kind scope at st) = channel_state st"
  "channel_state (markScopeUnreachableLocked w kind scope e st) = channel_state st"
  "channel_state (on_kind c f st) = channel_state st"
  "channel_state (expect_kind u w kind st) = channel_state st"
  "channel_state (forget_scopes w st) = channel_state st"
  by (simp_all add: markScopeWorkspaceLocked_def markScopeReachableLocked_def markScopeUnreachableLocked_def
      on_kind_def expect_kind_def forget_scopes_def Let_def)

lemma channel_state_learn [simp]:
  "channel_state (learn_record u w c r st) = channel_state st" "channel_state (learn_scope w e st) = channel_state st"
  by (simp_all add: learn_record_def learn_scope_def split: prod.split)

lemma channel_state_fold: "(\<And>x st. channel_state (f x st) = channel_state st) \<Longrightarrow> channel_state (fold f xs st) = channel_state st"
  by (induction xs arbitrary: st) simp_all

lemma channel_state_reconcile [simp]:
  "channel_state (replace_rows u w kind c cov rs st) = channel_state st"
  "channel_state (watch_apply c ev rs st) = channel_state st"
  by (simp_all add: replace_rows_def watch_apply_def channel_state_fold Let_def)

text \<open>Every operation is silent (no version moves, no channel closes) or ends in one notification.\<close>

definition silent_step :: "Store \<Rightarrow> Store \<Rightarrow> bool" where
  "silent_step st st' \<longleftrightarrow> cs_closed st' = cs_closed st \<and> cs_versions st' = cs_versions st \<and>
     (\<forall>w ch. map_of (cs_changed st) w = Some ch \<longrightarrow> map_of (cs_changed st') w = Some ch)"

definition notify_step :: "string \<Rightarrow> Store \<Rightarrow> Store \<Rightarrow> bool" where
  "notify_step w st st' \<longleftrightarrow> (\<exists>mid. st' = notifyLocked w mid \<and> channel_state mid = channel_state st)"

lemma silent_refl [simp]: "silent_step st st"
  by (simp add: silent_step_def)

lemma notify_stepI: "channel_state mid = channel_state st \<Longrightarrow> notify_step w st (notifyLocked w mid)"
  by (auto simp: notify_step_def)

lemma exec_notifies:
  "silent_step st (cache_exec u api oper st) \<or> notify_step (op_workspace oper) st (cache_exec u api oper st)"
proof (cases oper)
  case (OpBeginSync w kinds)
  then show ?thesis by (simp add: BeginSync_def channel_state_fold notify_stepI)
next
  case (OpSetDiscovery w d)
  then show ?thesis by (simp add: SetDiscovery_def channel_state_fold Let_def notify_stepI split: sum.split)
next
  case (OpReplace now w kind result)
  then show ?thesis
    by (cases rule: Replace_cases [of u api now w kind result st]) (simp_all add: finish_reconcile_def notify_stepI)
next
  case (OpWatch now ev)
  then show ?thesis
    by (cases rule: Watch_cases [of u api now ev st]) (simp_all add: finish_reconcile_def channel_state_fold notify_stepI)
next
  case (OpEndSync w err)
  then show ?thesis by (simp add: EndSync_def notify_stepI split: sum.split)
next
  case (OpSetPaused w p)
  then show ?thesis by (simp add: SetPaused_def notify_stepI split: sum.split)
next
  case (OpWait w after)
  then show ?thesis by (auto simp: wait_round_def Let_def silent_step_def split: option.splits)
qed

text \<open>A waiter's channel: open and current while the version stands still, closed as soon as it moves.\<close>

definition waiting :: "string \<Rightarrow> nat \<Rightarrow> 64 word \<Rightarrow> Store \<Rightarrow> bool" where
  "waiting w ch version st \<longleftrightarrow> ch \<in> set (cs_closed st) \<or>
     map_of (cs_changed st) w = Some ch \<and> gm_get 0 (cs_versions st) w = version"

lemma waiting_silent: "waiting w ch v st \<Longrightarrow> silent_step st st' \<Longrightarrow> waiting w ch v st'"
  by (auto simp: waiting_def silent_step_def)

lemma waiting_notify: "waiting w ch v st \<Longrightarrow> waiting w ch v (notifyLocked w' st)"
  by (cases "w' = w") (auto simp: waiting_def notifyLocked_def split: option.split)

lemma waiting_channels: "channel_state mid = channel_state st \<Longrightarrow> waiting w ch v mid = waiting w ch v st"
  by (simp add: waiting_def channel_state_def)

lemma waiting_step: "waiting w ch v st \<Longrightarrow> waiting w ch v (cache_exec u api oper st)"
  using exec_notifies [of st u api oper] waiting_channels
  by (metis notify_step_def waiting_notify waiting_silent)

interpretation waiter: safety_system "waiting w ch v" "cache_step u api" "waiting w ch v" for w ch v u api
  by unfold_locales (simp_all add: cache_step_def waiting_step)

text \<open>
  C16: no wake-up is lost. When a waiter finds no version past \<open>after\<close>, the channel it goes to
  sleep on is open, and in every later state of the store, whatever operations of whatever workspaces ran
  meanwhile, either its workspace's version has not moved or that channel has been closed, which wakes
  the waiter.
\<close>
theorem no_lost_wakeup:
  assumes "cache_reach u api st" and "wait_round w after st = (Inl ch, st1)"
    and "reach (\<lambda>s. s = st1) (cache_step u api) st2"
  shows "gm_get 0 (cs_versions st1) w \<le> after \<and> ch \<notin> set (cs_closed st1) \<and>
    (gm_get 0 (cs_versions st2) w \<noteq> gm_get 0 (cs_versions st1) w \<longrightarrow> ch \<in> set (cs_closed st2))"
proof -
  let ?v = "gm_get 0 (cs_versions st1) w"
  have start: "?v \<le> after" "map_of (cs_changed st1) w = Some ch"
    using assms(2) by (auto simp: wait_round_def Let_def split: if_splits option.splits)
  have "store_ok st1" using local_to_wait [OF cache.reach_inv [OF assms(1)], of w after] assms(2)
    by (simp add: local_to_def)
  with start have fresh: "ch \<notin> set (cs_closed st1)" by (auto simp: store_ok_def channels_ok_def)
  have "waiting w ch ?v st1" using start by (simp add: waiting_def)
  with assms(3) have "reach (waiting w ch ?v) (cache_step u api) st2"
    by (induction rule: reach.induct) (auto intro: reach.intros)
  from waiter.reach_inv [OF this] start fresh show ?thesis by (auto simp: waiting_def)
qed

theorem no_lost_wakeup_witness:
  "\<exists>st1. wait_round ''a'' 0 (newStore defaultFreshFor) = (Inl 0, st1) \<and>
     gm_get 0 (cs_versions (cache_exec ascii_case sample_api (OpBeginSync ''a'' []) st1)) ''a'' = 1 \<and>
     0 \<in> set (cs_closed (cache_exec ascii_case sample_api (OpBeginSync ''a'' []) st1))"
proof -
  define st1 where "st1 = snd (wait_round ''a'' 0 (newStore defaultFreshFor))"
  have "fst (wait_round ''a'' 0 (newStore defaultFreshFor)) = Inl 0" by code_simp
  then have w: "wait_round ''a'' 0 (newStore defaultFreshFor) = (Inl 0, st1)"
    by (simp add: st1_def prod_eq_iff)
  have v: "gm_get 0 (cs_versions st1) ''a'' = 0" unfolding st1_def by code_simp
  have v': "gm_get 0 (cs_versions (cache_exec ascii_case sample_api (OpBeginSync ''a'' []) st1)) ''a'' = 1"
    unfolding st1_def by code_simp
  have r0: "cache_reach ascii_case sample_api (newStore defaultFreshFor)" by (rule reach_init) blast
  have r1: "reach (\<lambda>s. s = st1) (cache_step ascii_case sample_api)
      (cache_exec ascii_case sample_api (OpBeginSync ''a'' []) st1)"
    by (rule reach_step [where e = "OpBeginSync ''a'' []", OF reach_init]) (simp_all add: cache_step_def)
  from no_lost_wakeup [OF r0 w r1] v v' w show ?thesis by simp
qed

end
