(* ===== verification/Tracing.thy ===== *)
theory Tracing
  imports Go_Strings
begin

text \<open>
  Local trace context (\<open>internal/tracing\<close>): opaque identifiers, the identifier carried by a
  context, and validated trace events. A Go context is the value stored under the package's
  private key, if any; a nil context is None. The bytes the operating system's random source
  returns are the argument \<open>mint\<close> (None when the read fails). Durations are nanoseconds.
\<close>

subsection \<open>Model\<close>

definition idBytes :: nat where
  "idBytes = 16"

definition ID_Valid :: "string \<Rightarrow> bool" where
  "ID_Valid i =
     (if length i \<noteq> idBytes * 2 then False
      else case hex_decode i of None \<Rightarrow> False | Some decoded \<Rightarrow> i = hex_encode decoded)"

type_synonym go_context = "string option"

datatype trace_error = MintFailed | ContextRequired | BadTraceID | BadStage | BadOutcome | BadDuration

definition NewID :: "string option \<Rightarrow> (trace_error, string) result" where
  "NewID mint = (case mint of None \<Rightarrow> Inl MintFailed | Some raw \<Rightarrow> Inr (hex_encode raw))"

definition FromContext :: "go_context option \<Rightarrow> string \<times> bool" where
  "FromContext ctx =
     (case ctx of
        None \<Rightarrow> ([], False)
      | Some None \<Rightarrow> ([], False)
      | Some (Some i) \<Rightarrow> (i, ID_Valid i))"

definition Ensure :: "string option \<Rightarrow> go_context option \<Rightarrow> (trace_error, go_context \<times> string) result" where
  "Ensure mint ctx =
     (case ctx of
        None \<Rightarrow> Inl ContextRequired
      | Some c \<Rightarrow>
          if snd (FromContext ctx) then Inr (c, fst (FromContext ctx))
          else rbind (NewID mint) (\<lambda>i. Inr (Some i, i)))"

type_synonym Stage = string
type_synonym TraceOutcome = string

abbreviation StagePEPDecision :: Stage where "StagePEPDecision \<equiv> ''pep.decision''"
abbreviation StageSpokeSnapshot :: Stage where "StageSpokeSnapshot \<equiv> ''spoke.snapshot''"
abbreviation OutcomeSuccess :: TraceOutcome where "OutcomeSuccess \<equiv> ''success''"
abbreviation OutcomeRefused :: TraceOutcome where "OutcomeRefused \<equiv> ''refused''"
abbreviation OutcomeFailure :: TraceOutcome where "OutcomeFailure \<equiv> ''failure''"
abbreviation OutcomeCanceled :: TraceOutcome where "OutcomeCanceled \<equiv> ''canceled''"

definition maxDuration :: int where
  "maxDuration = 3600 * 1000000000"

record TraceEvent =
  tr_TraceID :: string
  tr_Stage :: Stage
  tr_Outcome :: TraceOutcome
  tr_Duration :: int

definition TraceEvent_Validate :: "TraceEvent \<Rightarrow> (trace_error, unit) result" where
  "TraceEvent_Validate ev =
     (if \<not> ID_Valid (tr_TraceID ev) then Inl BadTraceID
      else if tr_Stage ev \<notin> {StagePEPDecision, StageSpokeSnapshot} then Inl BadStage
      else if tr_Outcome ev \<notin> {OutcomeSuccess, OutcomeRefused, OutcomeFailure, OutcomeCanceled}
        then Inl BadOutcome
      else if tr_Duration ev < 0 \<or> tr_Duration ev > maxDuration then Inl BadDuration
      else Inr ())"

text \<open>The events an attached observer has received, oldest first.\<close>

definition Observe :: "bool \<Rightarrow> TraceEvent \<Rightarrow> TraceEvent list \<Rightarrow> TraceEvent list" where
  "Observe attached ev seen =
     (if \<not> attached \<or> \<not> is_ok (TraceEvent_Validate ev) then seen else seen @ [ev])"

text \<open>The random source either fails or fills the whole buffer of sixteen bytes.\<close>

definition mint_ok :: "string option \<Rightarrow> bool" where
  "mint_ok mint = (case mint of None \<Rightarrow> True | Some raw \<Rightarrow> length raw = idBytes)"

subsection \<open>Facts\<close>

lemma ID_Valid_minted: "length raw = idBytes \<Longrightarrow> ID_Valid (hex_encode raw)"
  by (simp add: ID_Valid_def hex_roundtrip)

lemma FromContext_simps [simp]:
  "FromContext None = ([], False)" "FromContext (Some None) = ([], False)"
  "FromContext (Some (Some i)) = (i, ID_Valid i)"
  by (simp_all add: FromContext_def)

lemma Ensure_Inr:
  assumes e: "Ensure mint ctx = Inr (c, i)" and m: "mint_ok mint"
  shows "c = Some i \<and> ID_Valid i"
proof (cases "snd (FromContext ctx)")
  case True
  then obtain j where j: "ctx = Some (Some j)" "ID_Valid j"
    by (cases ctx; cases "the ctx") simp_all
  have "Ensure mint ctx = Inr (Some j, j)" using j by (simp add: Ensure_def)
  then have "c = Some j" "i = j" unfolding e by simp_all
  with j(2) show ?thesis by simp
next
  case False
  obtain d where d: "ctx = Some d" using e by (cases ctx) (simp_all add: Ensure_def)
  have "Ensure mint ctx = rbind (NewID mint) (\<lambda>i. Inr (Some i, i))"
    using False by (simp add: Ensure_def d)
  then have n: "rbind (NewID mint) (\<lambda>i. Inr (Some i, i)) = Inr (c, i)" unfolding e by (rule sym)
  obtain raw where raw: "mint = Some raw" using n by (cases mint) (simp_all add: NewID_def)
  have "c = Some i" "i = hex_encode raw" using n by (auto simp: NewID_def raw)
  moreover have "length raw = idBytes" using m by (simp add: mint_ok_def raw)
  ultimately show ?thesis by (simp add: ID_Valid_minted)
qed

end
