(* ===== verification/Policy_PEP.thy ===== *)
theory Policy_PEP
  imports Tenancy Intent_Verbs Fleet_Model Tracing
begin

text \<open>
  The policy enforcement point (\<open>internal/pep/pep.go\<close>, \<open>audit.go\<close>, \<open>metrics.go\<close>): closed verbs,
  proposal bindings, the fixed authorisation pipeline (verified scope, role, verb, policy hook,
  audit) and the events it hands to the audit sink.

  The policy hook, the audit sink, the clock and SHA-256 are parameters. The state of the model
  is what the pipeline did to its collaborators: every call of the hook, every event offered
  to the sink together with the sink's answer, every observation.
\<close>

subsection \<open>Verbs, verdicts and requests\<close>

type_synonym PVerb = string
type_synonym Verdict = string

definition maxActorBytes :: nat where "maxActorBytes = 256"
definition maxIntentIDBytes :: nat where "maxIntentIDBytes = 253"
definition maxReasonCodeBytes :: nat where "maxReasonCodeBytes = 64"
definition maxTargetComponentBytes :: nat where "maxTargetComponentBytes = 256"

abbreviation invalidVerb :: PVerb where "invalidVerb \<equiv> ''invalid''"
abbreviation proposalDigestDomain :: string where "proposalDigestDomain \<equiv> ''sith-pep-proposal/v1''"

abbreviation VerbFleetRead :: PVerb where "VerbFleetRead \<equiv> ''fleet.read''"
abbreviation VerbFleetCorrelate :: PVerb where "VerbFleetCorrelate \<equiv> ''fleet.correlate''"
abbreviation VerbFleetInventorySearch :: PVerb where "VerbFleetInventorySearch \<equiv> ''fleet.inventory.search''"
abbreviation VerbFleetImageSearch :: PVerb where "VerbFleetImageSearch \<equiv> ''fleet.image.search''"
abbreviation VerbFleetCVESearch :: PVerb where "VerbFleetCVESearch \<equiv> ''fleet.cve.search''"
abbreviation VerbFleetCVEIdentifierSearch :: PVerb where "VerbFleetCVEIdentifierSearch \<equiv> ''fleet.cve.identifier.search''"
abbreviation VerbSpokeSnapshotRefresh :: PVerb where "VerbSpokeSnapshotRefresh \<equiv> ''fleet.snapshot.refresh''"
abbreviation VerbAuditExport :: PVerb where "VerbAuditExport \<equiv> ''audit.export''"

definition PVerb_Valid :: "PVerb \<Rightarrow> bool" where
  "PVerb_Valid verb \<longleftrightarrow>
     verb \<in> {VerbFleetRead, VerbFleetCorrelate, VerbFleetInventorySearch, VerbFleetImageSearch,
       VerbFleetCVESearch, VerbFleetCVEIdentifierSearch, VerbSpokeSnapshotRefresh, VerbAuditExport}"

definition validForAction :: "PVerb \<Rightarrow> Action \<Rightarrow> bool" where
  "validForAction verb action =
     (if action = ActionRead then PVerb_Valid verb \<and> verb \<noteq> VerbAuditExport
      else if action = ActionExportAudit then verb = VerbAuditExport
      else if action = ActionProposeIntent then IntentVerb_Valid verb
      else False)"

abbreviation VerdictAllow :: Verdict where "VerdictAllow \<equiv> ''allow''"
abbreviation VerdictDeny :: Verdict where "VerdictDeny \<equiv> ''deny''"
abbreviation VerdictRequireApproval :: Verdict where "VerdictRequireApproval \<equiv> ''require-approval''"

record Request =
  rq_WorkspaceID :: WorkspaceID
  rq_Actor :: string
  rq_Role :: Role
  rq_Action :: Action
  rq_Verb :: PVerb
  rq_ArgumentsDigest :: string

record ReadInput =
  ri_Verb :: PVerb
  ri_ArgumentsDigest :: string

record ProposalInput =
  pi_intentID :: string
  pi_workspaceID :: WorkspaceID
  pi_actor :: string
  pi_verb :: Verb
  pi_target :: ResourceRef
  pi_argumentsDigest :: string
  pi_resolvedDigest :: string

record ApprovalBinding =
  ab_intentID :: string
  ab_workspaceID :: WorkspaceID
  ab_proposer :: string
  ab_resolvedDigest :: string

record Decision =
  dc_Verdict :: Verdict
  dc_ReasonCode :: string

record AuditEvent =
  ae_At :: Time
  ae_TraceID :: string
  ae_WorkspaceID :: WorkspaceID
  ae_Actor :: string
  ae_Role :: Role
  ae_Action :: Action
  ae_Verb :: PVerb
  ae_Verdict :: Verdict
  ae_ReasonCode :: string

subsection \<open>Validation\<close>

datatype pep_invalid =
    InvalidText string
  | InvalidReasonCode
  | InvalidPolicyWorkspace tenancy_error
  | UnsupportedRequest
  | UnsupportedVerdict Verdict
  | InvalidProposal
  | InvalidProposalTarget
  | InvalidBindingDigest
  | InvalidBinding
  | InvalidAuditTime
  | InvalidTraceID
  | UnsupportedAudit
  | ImpossibleOutcome
  | UnsafeSentinel

definition validateSafeText :: "string \<Rightarrow> string \<Rightarrow> nat \<Rightarrow> (pep_invalid, unit) result" where
  "validateSafeText name value maximum =
     (if value = [] \<or> \<not> utf8_valid value \<or> trim_space value \<noteq> value \<or> length value > maximum
        then Inl (InvalidText name)
      else if has_control value then Inl (InvalidText name)
      else Inr ())"

definition reason_rune :: "nat \<Rightarrow> bool" where
  "reason_rune r \<longleftrightarrow> (97 \<le> r \<and> r \<le> 122) \<or> (48 \<le> r \<and> r \<le> 57) \<or> r = 45 \<or> r = 95 \<or> r = 46"

definition validateReasonCode :: "string \<Rightarrow> (pep_invalid, unit) result" where
  "validateReasonCode value =
     (if value = [] \<or> trim_space value \<noteq> value \<or> length value > maxReasonCodeBytes
        then Inl InvalidReasonCode
      else if list_ex (\<lambda>(r, w). \<not> reason_rune r) (range_runes value) then Inl InvalidReasonCode
      else Inr ())"

definition hex_rune :: "nat \<Rightarrow> bool" where
  "hex_rune r \<longleftrightarrow> (48 \<le> r \<and> r \<le> 57) \<or> (97 \<le> r \<and> r \<le> 102)"

definition validDigest :: "string \<Rightarrow> bool" where
  "validDigest value \<longleftrightarrow>
     \<not> (length value \<noteq> length ''sha256:'' + 64 \<or> \<not> has_prefix value ''sha256:'') \<and>
     list_all (\<lambda>(r, w). hex_rune r) (range_runes (drop (length ''sha256:'') value))"

definition Decision_Validate :: "Decision \<Rightarrow> (pep_invalid, unit) result" where
  "Decision_Validate d =
     (if dc_Verdict d \<in> {VerdictAllow, VerdictDeny, VerdictRequireApproval}
      then validateReasonCode (dc_ReasonCode d)
      else Inl (UnsupportedVerdict (dc_Verdict d)))"

definition Request_Validate :: "Request \<Rightarrow> (pep_invalid, unit) result" where
  "Request_Validate rq =
     (case ValidateWorkspaceID (rq_WorkspaceID rq) of
        Inl e \<Rightarrow> Inl (InvalidPolicyWorkspace e)
      | Inr _ \<Rightarrow>
          rbind (validateSafeText ''policy actor'' (rq_Actor rq) maxActorBytes) (\<lambda>_.
          if \<not> Role_Valid (rq_Role rq) \<or> \<not> validForAction (rq_Verb rq) (rq_Action rq) \<or>
             \<not> validDigest (rq_ArgumentsDigest rq)
          then Inl UnsupportedRequest else Inr ()))"

definition validateProposalTarget :: "ResourceRef \<Rightarrow> (pep_invalid, unit) result" where
  "validateProposalTarget target =
     (if length (Attributes target) \<noteq> 0 \<or>
         \<not> is_ok (validateSafeText ''proposal target source'' (SourceKind target) maxTargetComponentBytes) \<or>
         \<not> is_ok (validateSafeText ''proposal target scope'' (RefScope target) maxTargetComponentBytes) \<or>
         \<not> is_ok (validateSafeText ''proposal target kind'' (RefKind target) maxTargetComponentBytes) \<or>
         \<not> is_ok (validateSafeText ''proposal target name'' (RefName target) maxTargetComponentBytes)
      then Inl InvalidProposalTarget
      else if RefNamespace target \<noteq> [] \<and>
         \<not> is_ok (validateSafeText ''proposal target namespace'' (RefNamespace target) maxTargetComponentBytes)
      then Inl InvalidProposalTarget
      else Inr ())"

definition ProposalInput_validateFields :: "ProposalInput \<Rightarrow> (pep_invalid, unit) result" where
  "ProposalInput_validateFields input =
     (if \<not> is_ok (validateSafeText ''proposal intent identifier'' (pi_intentID input) maxIntentIDBytes) \<or>
         \<not> is_ok (ValidateWorkspaceID (pi_workspaceID input)) \<or>
         \<not> is_ok (validateSafeText ''proposal actor'' (pi_actor input) maxActorBytes) \<or>
         \<not> IntentVerb_Valid (pi_verb input) \<or>
         \<not> is_ok (validateProposalTarget (pi_target input)) \<or>
         \<not> validDigest (pi_argumentsDigest input)
      then Inl InvalidProposal else Inr ())"

text \<open>The text whose SHA-256 binds a proposal: the bound values, joined by NUL.\<close>

definition proposal_values :: "ProposalInput \<Rightarrow> string list" where
  "proposal_values input =
     [proposalDigestDomain, pi_intentID input, pi_workspaceID input, pi_actor input, pi_verb input,
      SourceKind (pi_target input), RefScope (pi_target input), RefKind (pi_target input),
      RefNamespace (pi_target input), RefName (pi_target input), pi_argumentsDigest input]"

definition ProposalInput_digest :: "(string \<Rightarrow> string) \<Rightarrow> ProposalInput \<Rightarrow> string" where
  "ProposalInput_digest sha input = ''sha256:'' @ hex_encode (sha (join (proposal_values input) [NUL]))"

definition ProposalInput_validate :: "(string \<Rightarrow> string) \<Rightarrow> ProposalInput \<Rightarrow> (pep_invalid, unit) result" where
  "ProposalInput_validate sha input =
     rbind (ProposalInput_validateFields input) (\<lambda>_.
     if \<not> validDigest (pi_resolvedDigest input) \<or> pi_resolvedDigest input \<noteq> ProposalInput_digest sha input
     then Inl InvalidBindingDigest else Inr ())"

definition NewReadInput :: "(string \<Rightarrow> string) \<Rightarrow> PVerb \<Rightarrow> string \<Rightarrow> ReadInput" where
  "NewReadInput sha verb canonicalArguments =
     \<lparr>ri_Verb = verb, ri_ArgumentsDigest = ''sha256:'' @ hex_encode (sha canonicalArguments)\<rparr>"

definition NewProposalInput ::
  "(string \<Rightarrow> string) \<Rightarrow> string \<Rightarrow> WorkspaceID \<Rightarrow> string \<Rightarrow> Verb \<Rightarrow> ResourceRef \<Rightarrow> string
     \<Rightarrow> (pep_invalid, ProposalInput) result" where
  "NewProposalInput sha intentID workspaceID actor verb target argumentsDigest =
     (let input = \<lparr>pi_intentID = intentID, pi_workspaceID = workspaceID, pi_actor = actor,
                   pi_verb = verb, pi_target = target, pi_argumentsDigest = argumentsDigest,
                   pi_resolvedDigest = []\<rparr>
      in rbind (ProposalInput_validateFields input) (\<lambda>_.
         let bound = input\<lparr>pi_target := target\<lparr>Attributes := []\<rparr>\<rparr>
         in Inr (bound\<lparr>pi_resolvedDigest := ProposalInput_digest sha bound\<rparr>)))"

definition ProposalInput_ApprovalBinding ::
  "(string \<Rightarrow> string) \<Rightarrow> ProposalInput \<Rightarrow> (pep_invalid, ApprovalBinding) result" where
  "ProposalInput_ApprovalBinding sha input =
     (if \<not> is_ok (ProposalInput_validate sha input) then Inl InvalidProposal
      else Inr \<lparr>ab_intentID = pi_intentID input, ab_workspaceID = pi_workspaceID input,
                ab_proposer = pi_actor input, ab_resolvedDigest = pi_resolvedDigest input\<rparr>)"

definition ApprovalBinding_Validate :: "ApprovalBinding \<Rightarrow> (pep_invalid, unit) result" where
  "ApprovalBinding_Validate b =
     (if \<not> is_ok (validateSafeText ''approval intent identifier'' (ab_intentID b) maxIntentIDBytes) \<or>
         \<not> is_ok (ValidateWorkspaceID (ab_workspaceID b)) \<or>
         \<not> is_ok (validateSafeText ''approval proposer'' (ab_proposer b) maxActorBytes) \<or>
         \<not> validDigest (ab_resolvedDigest b)
      then Inl InvalidBinding else Inr ())"

text \<open>The event check of the structured audit sink; \<open>wall\<close> is the wall clock it reads.\<close>

definition AuditEvent_Validate :: "Time \<Rightarrow> AuditEvent \<Rightarrow> (pep_invalid, unit) result" where
  "AuditEvent_Validate wall ev =
     (if ae_At ev = 0 \<or> ae_At ev > wall + 60 * 1000000000 then Inl InvalidAuditTime
      else if \<not> ID_Valid (ae_TraceID ev) then Inl InvalidTraceID
      else case ValidateWorkspaceID (ae_WorkspaceID ev) of
        Inl e \<Rightarrow> Inl (InvalidPolicyWorkspace e)
      | Inr _ \<Rightarrow>
          rbind (validateSafeText ''policy audit actor'' (ae_Actor ev) maxActorBytes) (\<lambda>_.
          if \<not> Role_Valid (ae_Role ev) \<or>
             (ae_Action ev \<noteq> ActionRead \<and> ae_Action ev \<noteq> ActionExportAudit \<and> ae_Action ev \<noteq> ActionProposeIntent)
          then Inl UnsupportedAudit
          else if \<not> Role_Allows (ae_Role ev) (ae_Action ev) \<and>
             (ae_Verdict ev \<noteq> VerdictDeny \<or>
              (ae_ReasonCode ev \<noteq> ''role-denied'' \<and> ae_ReasonCode ev \<noteq> ''invalid-request''))
          then Inl ImpossibleOutcome
          else if ae_Verb ev = invalidVerb \<and>
             (ae_Verdict ev \<noteq> VerdictDeny \<or> ae_ReasonCode ev \<noteq> ''invalid-request'')
          then Inl UnsafeSentinel
          else if ae_Verb ev \<noteq> invalidVerb \<and> \<not> validForAction (ae_Verb ev) (ae_Action ev)
          then Inl UnsupportedAudit
          else Decision_Validate \<lparr>dc_Verdict = ae_Verdict ev, dc_ReasonCode = ae_ReasonCode ev\<rparr>))"

subsection \<open>The enforcer and its collaborators\<close>

type_synonym DecisionOutcome = string

abbreviation DecisionOutcomeAllow :: DecisionOutcome where "DecisionOutcomeAllow \<equiv> ''allow''"
abbreviation DecisionOutcomeDeny :: DecisionOutcome where "DecisionOutcomeDeny \<equiv> ''deny''"
abbreviation DecisionOutcomeRequireApproval :: DecisionOutcome where
  "DecisionOutcomeRequireApproval \<equiv> ''require-approval''"
abbreviation DecisionOutcomeError :: DecisionOutcome where "DecisionOutcomeError \<equiv> ''error''"

text \<open>
  A hook answers a request with a decision or an error (None); a sink accepts an event or
  fails (False). \<open>ef_now\<close> is the clock's reading for the call; observers are attached or not.
\<close>

type_synonym hook = "Request \<Rightarrow> Decision option"
type_synonym sink = "AuditEvent \<Rightarrow> bool"

record Config =
  cf_Hook :: "hook option"
  cf_Auditor :: "sink option"
  cf_Observer :: bool
  cf_TraceObserver :: bool
  cf_Now :: "Time option"

record Enforcer =
  ef_hook :: "hook option"
  ef_auditor :: "sink option"
  ef_observer :: bool
  ef_tracer :: bool
  ef_now :: Time

record pep_state =
  st_hook :: "Request list"
  st_audit :: "(AuditEvent \<times> bool) list"
  st_observed :: "(PVerb \<times> DecisionOutcome \<times> int) list"
  st_traces :: "TraceEvent list"

datatype pep_class = ErrDenied | ErrApprovalRequired

datatype pep_detail =
    EnforcerRequired
  | TraceContextFailed
  | InvalidPolicyRequest
  | RoleNotPermitted
  | HookFailed
  | HookDecisionInvalid
  | PolicyRefused
  | AuditRefusalFailed
  | AuditDecisionFailed

text \<open>An error: the operation it names, what failed, the class it wraps, and whether auditing it failed.\<close>

datatype pep_error = PepError string pep_detail "pep_class option" bool

definition NewEnforcer :: "Time \<Rightarrow> Config \<Rightarrow> Enforcer option" where
  "NewEnforcer wall config =
     (if cf_Hook config = None \<or> cf_Auditor config = None then None
      else Some \<lparr>ef_hook = cf_Hook config, ef_auditor = cf_Auditor config,
                 ef_observer = True, ef_tracer = True,
                 ef_now = (case cf_Now config of None \<Rightarrow> wall | Some t \<Rightarrow> t)\<rparr>)"

definition AllowReadHook_Decide :: hook where
  "AllowReadHook_Decide rq =
     (if (rq_Action rq \<noteq> ActionRead \<and> rq_Action rq \<noteq> ActionExportAudit) \<or>
         \<not> validForAction (rq_Verb rq) (rq_Action rq)
      then Some \<lparr>dc_Verdict = VerdictDeny, dc_ReasonCode = ''unsupported-read''\<rparr>
      else if rq_Action rq = ActionExportAudit
      then Some \<lparr>dc_Verdict = VerdictAllow, dc_ReasonCode = ''phase-1-audit-export''\<rparr>
      else Some \<lparr>dc_Verdict = VerdictAllow, dc_ReasonCode = ''phase-1-read''\<rparr>)"

definition normalizedAuditRequest :: "Request \<Rightarrow> Request option" where
  "normalizedAuditRequest rq =
     (if \<not> is_ok (ValidateWorkspaceID (rq_WorkspaceID rq)) \<or>
         \<not> is_ok (validateSafeText ''policy actor'' (rq_Actor rq) maxActorBytes) \<or>
         \<not> Role_Valid (rq_Role rq) \<or>
         (rq_Action rq \<noteq> ActionRead \<and> rq_Action rq \<noteq> ActionExportAudit \<and> rq_Action rq \<noteq> ActionProposeIntent)
      then None
      else Some (rq\<lparr>rq_Verb := (if \<not> validForAction (rq_Verb rq) (rq_Action rq) then invalidVerb else rq_Verb rq),
                    rq_ArgumentsDigest := []\<rparr>))"

definition pep_event :: "Time \<Rightarrow> string \<Rightarrow> Request \<Rightarrow> Decision \<Rightarrow> AuditEvent" where
  "pep_event at traceID rq d =
     \<lparr>ae_At = at, ae_TraceID = traceID, ae_WorkspaceID = rq_WorkspaceID rq, ae_Actor = rq_Actor rq,
      ae_Role = rq_Role rq, ae_Action = rq_Action rq, ae_Verb = rq_Verb rq,
      ae_Verdict = dc_Verdict d, ae_ReasonCode = dc_ReasonCode d\<rparr>"

text \<open>\<open>Enforcer.record\<close>: True when the sink accepted the event.\<close>

definition pep_record ::
  "Time \<Rightarrow> sink \<Rightarrow> go_context \<Rightarrow> Request \<Rightarrow> Decision \<Rightarrow> pep_state \<Rightarrow> bool \<times> pep_state" where
  "pep_record now sink ctx rq d st =
     (case FromContext (Some ctx) of
        (traceID, ok) \<Rightarrow>
          if \<not> ok then (False, st)
          else let ev = pep_event now traceID rq d
               in (sink ev, st\<lparr>st_audit := st_audit st @ [(ev, sink ev)]\<rparr>))"

definition refuse ::
  "Time \<Rightarrow> sink \<Rightarrow> go_context \<Rightarrow> Request \<Rightarrow> Verdict \<Rightarrow> string \<Rightarrow> string \<Rightarrow> pep_detail \<Rightarrow> pep_class option
     \<Rightarrow> pep_state \<Rightarrow> (pep_error, unit) result \<times> pep_state" where
  "refuse now sink ctx rq verdict reasonCode operation message classification st =
     (case normalizedAuditRequest rq of
        None \<Rightarrow> (Inl (PepError operation message classification False), st)
      | Some rq' \<Rightarrow>
          (case pep_record now sink ctx rq' \<lparr>dc_Verdict = verdict, dc_ReasonCode = reasonCode\<rparr> st of
             (recorded, st') \<Rightarrow> (Inl (PepError operation message classification (\<not> recorded)), st')))"

text \<open>The pipeline between establishing the trace context and the deferred observations.\<close>

definition authorize_body ::
  "Time \<Rightarrow> hook \<Rightarrow> sink \<Rightarrow> go_context \<Rightarrow> Scope \<Rightarrow> Request \<Rightarrow> bool \<Rightarrow> string \<Rightarrow> pep_state
     \<Rightarrow> DecisionOutcome \<times> (pep_error, unit) result \<times> pep_state" where
  "authorize_body now hook sink ctx scope rq inputValid operation st =
     (if \<not> inputValid \<or> \<not> is_ok (Request_Validate rq) then
        (DecisionOutcomeDeny,
         refuse now sink ctx rq VerdictDeny ''invalid-request'' operation InvalidPolicyRequest (Some ErrDenied) st)
      else if \<not> is_ok (Authorize scope (rq_Action rq)) then
        (DecisionOutcomeDeny,
         refuse now sink ctx rq VerdictDeny ''role-denied'' operation RoleNotPermitted (Some ErrDenied) st)
      else let st = st\<lparr>st_hook := st_hook st @ [rq]\<rparr> in
        case hook rq of
          None \<Rightarrow>
            (DecisionOutcomeError,
             refuse now sink ctx rq VerdictDeny ''hook-error'' operation HookFailed None st)
        | Some decision \<Rightarrow>
            if \<not> is_ok (Decision_Validate decision) then
              (DecisionOutcomeError,
               refuse now sink ctx rq VerdictDeny ''invalid-decision'' operation HookDecisionInvalid None st)
            else if dc_Verdict decision \<noteq> VerdictAllow then
              (case pep_record now sink ctx rq decision st of
                 (recorded, st') \<Rightarrow>
                   if \<not> recorded then
                     (DecisionOutcomeError, Inl (PepError operation AuditRefusalFailed None True), st')
                   else if dc_Verdict decision = VerdictRequireApproval then
                     (DecisionOutcomeRequireApproval,
                      Inl (PepError operation PolicyRefused (Some ErrApprovalRequired) False), st')
                   else (DecisionOutcomeDeny, Inl (PepError operation PolicyRefused (Some ErrDenied) False), st'))
            else
              (case pep_record now sink ctx rq decision st of
                 (recorded, st') \<Rightarrow>
                   if \<not> recorded then
                     (DecisionOutcomeError, Inl (PepError operation AuditDecisionFailed None True), st')
                   else (DecisionOutcomeAllow, Inr (), st')))"

definition normalizedObservedVerb :: "PVerb \<Rightarrow> PVerb" where
  "normalizedObservedVerb verb = (if PVerb_Valid verb \<or> IntentVerb_Valid verb then verb else ''invalid'')"

definition traceOutcome :: "DecisionOutcome \<Rightarrow> TraceOutcome" where
  "traceOutcome outcome =
     (if outcome = DecisionOutcomeAllow then OutcomeSuccess
      else if outcome = DecisionOutcomeDeny \<or> outcome = DecisionOutcomeRequireApproval then OutcomeRefused
      else OutcomeFailure)"

definition observeDecision :: "Enforcer \<Rightarrow> PVerb \<Rightarrow> DecisionOutcome \<Rightarrow> int \<Rightarrow> pep_state \<Rightarrow> pep_state" where
  "observeDecision e verb outcome duration st =
     (if \<not> ef_observer e then st
      else st\<lparr>st_observed := st_observed st @ [(normalizedObservedVerb verb, outcome, duration)]\<rparr>)"

definition observeTrace :: "Enforcer \<Rightarrow> go_context \<Rightarrow> DecisionOutcome \<Rightarrow> int \<Rightarrow> pep_state \<Rightarrow> pep_state" where
  "observeTrace e ctx outcome duration st =
     (if \<not> ef_tracer e then st
      else case FromContext (Some ctx) of
        (traceID, ok) \<Rightarrow>
          if \<not> ok then st
          else st\<lparr>st_traces := Observe True
                    \<lparr>tr_TraceID = traceID, tr_Stage = StagePEPDecision,
                     tr_Outcome = traceOutcome outcome, tr_Duration = duration\<rparr> (st_traces st)\<rparr>)"

text \<open>
  \<open>mint\<close> is what the random source yields for the call, \<open>elapsed\<close> the two readings of the
  monotonic clock when the deferred observers run.
\<close>

definition authorize ::
  "Enforcer option \<Rightarrow> string option \<Rightarrow> int \<times> int \<Rightarrow> go_context option \<Rightarrow> Scope \<Rightarrow> Request \<Rightarrow> bool \<Rightarrow> string
     \<Rightarrow> pep_state \<Rightarrow> (pep_error, unit) result \<times> pep_state" where
  "authorize enforcer mint elapsed ctx scope rq inputValid operation st =
     (case enforcer of
        None \<Rightarrow> (Inl (PepError operation EnforcerRequired None False), st)
      | Some e \<Rightarrow>
          (case (ef_hook e, ef_auditor e, ctx) of
             (Some hook, Some sink, Some _) \<Rightarrow>
               (case Ensure mint ctx of
                  Inl _ \<Rightarrow> (Inl (PepError operation TraceContextFailed None False), st)
                | Inr (c, _) \<Rightarrow>
                    (case authorize_body (ef_now e) hook sink c scope rq inputValid operation st of
                       (outcome, r, st') \<Rightarrow>
                         (r, observeTrace e c outcome (snd elapsed)
                               (observeDecision e (rq_Verb rq) outcome (fst elapsed) st'))))
           | _ \<Rightarrow> (Inl (PepError operation EnforcerRequired None False), st)))"

definition AuthorizeRead ::
  "Enforcer option \<Rightarrow> string option \<Rightarrow> int \<times> int \<Rightarrow> go_context option \<Rightarrow> Scope \<Rightarrow> ReadInput
     \<Rightarrow> pep_state \<Rightarrow> (pep_error, unit) result \<times> pep_state" where
  "AuthorizeRead enforcer mint elapsed ctx scope input =
     authorize enforcer mint elapsed ctx scope
       \<lparr>rq_WorkspaceID = sc_workspaceID scope, rq_Actor = sc_subject scope, rq_Role = sc_role scope,
        rq_Action = ActionRead, rq_Verb = ri_Verb input, rq_ArgumentsDigest = ri_ArgumentsDigest input\<rparr>
       True ''read''"

definition AuthorizeAuditExport ::
  "(string \<Rightarrow> string) \<Rightarrow> Enforcer option \<Rightarrow> string option \<Rightarrow> int \<times> int \<Rightarrow> go_context option \<Rightarrow> Scope
     \<Rightarrow> pep_state \<Rightarrow> (pep_error, unit) result \<times> pep_state" where
  "AuthorizeAuditExport sha enforcer mint elapsed ctx scope =
     (let input = NewReadInput sha VerbAuditExport [] in
      authorize enforcer mint elapsed ctx scope
       \<lparr>rq_WorkspaceID = sc_workspaceID scope, rq_Actor = sc_subject scope, rq_Role = sc_role scope,
        rq_Action = ActionExportAudit, rq_Verb = ri_Verb input, rq_ArgumentsDigest = ri_ArgumentsDigest input\<rparr>
       True ''audit export'')"

definition AuthorizeProposal ::
  "(string \<Rightarrow> string) \<Rightarrow> Enforcer option \<Rightarrow> string option \<Rightarrow> int \<times> int \<Rightarrow> go_context option \<Rightarrow> Scope \<Rightarrow> ProposalInput
     \<Rightarrow> pep_state \<Rightarrow> (pep_error, unit) result \<times> pep_state" where
  "AuthorizeProposal sha enforcer mint elapsed ctx scope input =
     (let inputValid = (is_ok (ProposalInput_validate sha input) \<and>
            pi_workspaceID input = sc_workspaceID scope \<and> pi_actor input = sc_subject scope) in
      authorize enforcer mint elapsed ctx scope
       \<lparr>rq_WorkspaceID = sc_workspaceID scope, rq_Actor = sc_subject scope, rq_Role = sc_role scope,
        rq_Action = ActionProposeIntent, rq_Verb = pi_verb input, rq_ArgumentsDigest = pi_resolvedDigest input\<rparr>
       inputValid ''proposal'')"

text \<open>The structured audit sink: an event is emitted when it validates, its level is enabled and the handler succeeds.\<close>

definition slog_Record ::
  "(bool \<Rightarrow> bool) \<Rightarrow> (AuditEvent \<Rightarrow> bool) \<Rightarrow> Time \<Rightarrow> bool \<Rightarrow> sink" where
  "slog_Record enabled handle wall logger ev =
     (if \<not> logger then False
      else if \<not> is_ok (AuditEvent_Validate wall ev) then False
      else if \<not> enabled (ae_Verdict ev = VerdictAllow) then False
      else handle ev)"

subsection \<open>Facts about validation\<close>

lemma validateSafeText_ok:
  "is_ok (validateSafeText name v n) \<longleftrightarrow>
     v \<noteq> [] \<and> utf8_valid v \<and> trim_space v = v \<and> length v \<le> n \<and> \<not> has_control v"
  by (auto simp: validateSafeText_def)

lemma validateSafeText_name: "is_ok (validateSafeText a v n) = is_ok (validateSafeText b v n)"
  by (simp add: validateSafeText_ok)

lemma validateSafeText_no_NUL: "is_ok (validateSafeText name v n) \<Longrightarrow> NUL \<notin> set v"
  by (simp add: validateSafeText_ok no_control_no_NUL)

lemma ValidateWorkspaceID_no_NUL: "is_ok (ValidateWorkspaceID w) \<Longrightarrow> NUL \<notin> set w"
  by (simp add: ValidateWorkspaceID_def validateIdentity_ok_iff no_control_no_NUL)

lemma is_lower_hex_ascii: "is_lower_hex c \<Longrightarrow> byte_of c < 128 \<and> hex_rune (byte_of c)"
  by (auto simp: is_lower_hex_def in_range_def hex_rune_def)

lemma validDigest_hex:
  assumes "length raw = 32"
  shows "validDigest (''sha256:'' @ hex_encode raw)"
proof -
  have all: "\<forall>c \<in> set (hex_encode raw). is_lower_hex c"
    using hex_encode_lower [of raw] by (simp add: list_all_iff)
  then have "is_ascii (hex_encode raw)"
    by (simp add: is_ascii_def list_all_iff is_lower_hex_ascii)
  then have "list_all (\<lambda>(r, w). hex_rune r) (range_runes (hex_encode raw))"
    using all is_lower_hex_ascii by (simp add: range_runes_ascii list_all_iff)
  with assms show ?thesis by (simp add: validDigest_def has_prefix_def)
qed

lemma validDigest_no_NUL:
  assumes "validDigest v"
  shows "NUL \<notin> set v"
proof
  let ?tl = "drop (length ''sha256:'') v"
  assume nul: "NUL \<in> set v"
  have split: "v = ''sha256:'' @ ?tl" and runes: "list_all (\<lambda>(r, w). hex_rune r) (range_runes ?tl)"
    using assms has_prefix_split [of v "''sha256:''"] unfolding validDigest_def by blast+
  have "NUL \<notin> set ''sha256:''" by simp
  moreover have "NUL \<in> set (''sha256:'' @ ?tl)" using nul split by metis
  ultimately have "NUL \<in> set ?tl" by (metis Un_iff set_append)
  then have "(0, 1) \<in> set (range_runes ?tl)"
    using ascii_byte_visited [of NUL ?tl] by (simp add: byte_of_def del: drop_append)
  with runes show False by (force simp: list_all_iff hex_rune_def)
qed

lemma IntentVerb_no_NUL: "IntentVerb_Valid v \<Longrightarrow> NUL \<notin> set v"
  by (auto simp: IntentVerb_Valid_iff)

lemma invalidVerb_not_valid: "\<not> validForAction invalidVerb a"
  by (simp add: validForAction_def PVerb_Valid_def IntentVerb_Valid_iff)

lemma proposal_values_no_NUL:
  assumes "is_ok (ProposalInput_validateFields p)"
  shows "\<forall>v \<in> set (proposal_values p). NUL \<notin> set v"
proof -
  have f: "is_ok (validateSafeText ''proposal intent identifier'' (pi_intentID p) maxIntentIDBytes)"
    "is_ok (ValidateWorkspaceID (pi_workspaceID p))"
    "is_ok (validateSafeText ''proposal actor'' (pi_actor p) maxActorBytes)"
    "IntentVerb_Valid (pi_verb p)" "is_ok (validateProposalTarget (pi_target p))"
    "validDigest (pi_argumentsDigest p)"
    using assms by (simp_all add: ProposalInput_validateFields_def split: if_splits)
  from f(5) have t: "NUL \<notin> set (SourceKind (pi_target p))" "NUL \<notin> set (RefScope (pi_target p))"
    "NUL \<notin> set (RefKind (pi_target p))" "NUL \<notin> set (RefName (pi_target p))"
    "NUL \<notin> set (RefNamespace (pi_target p))"
    by (auto simp: validateProposalTarget_def dest: validateSafeText_no_NUL split: if_splits)
  show ?thesis
    using f(1-4,6) t
    by (simp add: proposal_values_def validateSafeText_no_NUL ValidateWorkspaceID_no_NUL
        IntentVerb_no_NUL validDigest_no_NUL)
qed

lemma NewProposalInput_Inr:
  assumes "NewProposalInput sha i w a v t d = Inr p"
  shows "is_ok (ProposalInput_validateFields p)"
    and "pi_resolvedDigest p = ProposalInput_digest sha p"
    and "pi_intentID p = i" "pi_workspaceID p = w" "pi_actor p = a" "pi_verb p = v"
    and "pi_target p = t" "pi_argumentsDigest p = d" "Attributes t = []"
proof -
  let ?in = "\<lparr>pi_intentID = i, pi_workspaceID = w, pi_actor = a, pi_verb = v, pi_target = t,
    pi_argumentsDigest = d, pi_resolvedDigest = []\<rparr>"
  let ?bound = "?in\<lparr>pi_target := t\<lparr>Attributes := []\<rparr>\<rparr>"
  from assms have ok: "is_ok (ProposalInput_validateFields ?in)"
    and p: "p = ?bound\<lparr>pi_resolvedDigest := ProposalInput_digest sha ?bound\<rparr>"
    by (auto simp: NewProposalInput_def Let_def rbind_eq_Inr is_ok_iff)
  from ok have attr: "Attributes t = []"
    by (simp add: ProposalInput_validateFields_def validateProposalTarget_def split: if_splits)
  then have same: "t\<lparr>Attributes := []\<rparr> = t" by (cases t) simp
  show "is_ok (ProposalInput_validateFields p)"
    using ok by (simp add: p same ProposalInput_validateFields_def)
  show "pi_resolvedDigest p = ProposalInput_digest sha p"
    by (simp add: p ProposalInput_digest_def proposal_values_def)
  show "pi_intentID p = i" "pi_workspaceID p = w" "pi_actor p = a" "pi_verb p = v"
    "pi_target p = t" "pi_argumentsDigest p = d" "Attributes t = []"
    using attr by (simp_all add: p same)
qed

subsection \<open>Facts about the pipeline\<close>

lemma pep_record_valid:
  "ID_Valid i \<Longrightarrow> pep_record now sink (Some i) rq d st =
     (sink (pep_event now i rq d),
      st\<lparr>st_audit := st_audit st @ [(pep_event now i rq d, sink (pep_event now i rq d))]\<rparr>)"
  by (simp add: pep_record_def Let_def)

lemma refuse_Inl: "\<exists>e. fst (refuse now sink ctx rq verdict reason op msg cls st) = Inl e"
  by (simp add: refuse_def split: option.split prod.split)

lemma refuse_audit:
  assumes "ID_Valid i"
  shows "st_hook (snd (refuse now sink (Some i) rq verdict reason op msg cls st)) = st_hook st"
    and "case normalizedAuditRequest rq of
       None \<Rightarrow> st_audit (snd (refuse now sink (Some i) rq verdict reason op msg cls st)) = st_audit st
     | Some rq' \<Rightarrow>
         (let ev = pep_event now i rq' \<lparr>dc_Verdict = verdict, dc_ReasonCode = reason\<rparr> in
          st_audit (snd (refuse now sink (Some i) rq verdict reason op msg cls st)) =
            st_audit st @ [(ev, sink ev)])"
  using assms by (simp_all add: refuse_def pep_record_valid Let_def split: option.split)

lemma observe_audit [simp]:
  "st_audit (observeTrace e c out du st) = st_audit st"
  "st_hook (observeTrace e c out du st) = st_hook st"
  "st_audit (observeDecision e v out du st) = st_audit st"
  "st_hook (observeDecision e v out du st) = st_hook st"
  by (simp_all add: observeTrace_def observeDecision_def split: prod.split)

lemma authorize_cases:
  assumes "authorize enf mint elapsed ctx scope rq iv op st = (r, st')"
    and "mint_ok mint"
  obtains (early) e where "r = Inl e" "st' = st"
  | (body) e hook sink i out st1 where "enf = Some e" "ef_hook e = Some hook" "ef_auditor e = Some sink"
      "ID_Valid i" "authorize_body (ef_now e) hook sink (Some i) scope rq iv op st = (out, r, st1)"
      "st_audit st' = st_audit st1" "st_hook st' = st_hook st1"
proof (cases "\<exists>e hook sink c. enf = Some e \<and> ef_hook e = Some hook \<and> ef_auditor e = Some sink \<and> ctx = Some c")
  case False
  then have "\<exists>x. authorize enf mint elapsed ctx scope rq iv op st = (Inl x, st)"
    by (auto simp: authorize_def split: option.splits)
  with assms(1) early show ?thesis by auto
next
  case True
  then obtain e hook sink c where e: "enf = Some e" "ef_hook e = Some hook" "ef_auditor e = Some sink" "ctx = Some c"
    by blast
  show ?thesis
  proof (cases "Ensure mint ctx")
    case (Inl x)
    with assms(1) e early show ?thesis by (auto simp: authorize_def)
  next
    case (Inr ci)
    obtain c' i where ci: "ci = (c', i)" by (cases ci)
    have id: "c' = Some i" "ID_Valid i" using Ensure_Inr [OF Inr [unfolded ci] assms(2)] by simp_all
    obtain out r1 st1 where b: "authorize_body (ef_now e) hook sink (Some i) scope rq iv op st = (out, r1, st1)"
      by (cases "authorize_body (ef_now e) hook sink (Some i) scope rq iv op st")
    have "r = r1" "st_audit st' = st_audit st1" "st_hook st' = st_hook st1"
      using assms(1) e Inr id b by (auto simp: authorize_def ci)
    with b e id(2) body show ?thesis by blast
  qed
qed

definition admitted :: "Scope \<Rightarrow> Request \<Rightarrow> bool \<Rightarrow> bool" where
  "admitted scope rq iv \<longleftrightarrow> iv \<and> is_ok (Request_Validate rq) \<and> is_ok (Authorize scope (rq_Action rq))"

text \<open>A refusal: why it may happen, and the single event offered to the sink if the request is auditable.\<close>

definition refusal_reason :: "Scope \<Rightarrow> Request \<Rightarrow> bool \<Rightarrow> string \<Rightarrow> bool" where
  "refusal_reason scope rq iv reason \<longleftrightarrow>
     reason = ''invalid-request'' \<or>
     (is_ok (Request_Validate rq) \<and> reason = ''role-denied'') \<or>
     (admitted scope rq iv \<and> reason \<in> {''hook-error'', ''invalid-decision''})"

lemma authorize_body_cases:
  assumes "authorize_body now hook sink (Some i) scope rq iv op st = (out, r, st1)" and "ID_Valid i"
  obtains (unaudited) e where "r = Inl e" "st_audit st1 = st_audit st" "normalizedAuditRequest rq = None"
      "st_hook st1 = st_hook st \<or> admitted scope rq iv \<and> st_hook st1 = st_hook st @ [rq]"
  | (refused) e rq' reason where "r = Inl e" "normalizedAuditRequest rq = Some rq'"
      "st_audit st1 = st_audit st @
         [(pep_event now i rq' \<lparr>dc_Verdict = VerdictDeny, dc_ReasonCode = reason\<rparr>,
           sink (pep_event now i rq' \<lparr>dc_Verdict = VerdictDeny, dc_ReasonCode = reason\<rparr>))]"
      "refusal_reason scope rq iv reason"
      "st_hook st1 = st_hook st \<or> admitted scope rq iv \<and> st_hook st1 = st_hook st @ [rq]"
  | (decided) d where "admitted scope rq iv" "hook rq = Some d" "is_ok (Decision_Validate d)"
      "st_audit st1 = st_audit st @ [(pep_event now i rq d, sink (pep_event now i rq d))]"
      "r = Inr () \<longleftrightarrow> dc_Verdict d = VerdictAllow \<and> sink (pep_event now i rq d)"
      "st_hook st1 = st_hook st @ [rq]"
proof -
  let ?sth = "st\<lparr>st_hook := st_hook st @ [rq]\<rparr>"
  have via_refuse: thesis
    if eq: "(r, st1) = refuse now sink (Some i) rq VerdictDeny reason op msg cls st0"
      and why: "refusal_reason scope rq iv reason"
      and st0: "st_audit st0 = st_audit st"
      and hk: "st_hook st0 = st_hook st \<or> admitted scope rq iv \<and> st_hook st0 = st_hook st @ [rq]"
    for reason msg cls st0
  proof -
    have r: "\<exists>e. r = Inl e" using refuse_Inl [of now sink "Some i" rq VerdictDeny reason op msg cls st0] eq
      by (metis fst_conv)
    have h: "st_hook st1 = st_hook st0"
      using refuse_audit(1) [OF assms(2)] eq by (metis snd_conv)
    note a = refuse_audit(2) [OF assms(2), where rq = rq and now = now and sink = sink and verdict = VerdictDeny
      and reason = reason and op = op and msg = msg and cls = cls and st = st0, folded eq]
    show thesis
    proof (cases "normalizedAuditRequest rq")
      case None
      with a r h hk st0 unaudited show thesis by auto
    next
      case (Some rq')
      with a r h hk st0 why refused show thesis by (auto simp: Let_def)
    qed
  qed
  consider (invalid) "\<not> iv \<or> \<not> is_ok (Request_Validate rq)"
    | (role) "iv" "is_ok (Request_Validate rq)" "\<not> is_ok (Authorize scope (rq_Action rq))"
    | (adm) "admitted scope rq iv"
    by (auto simp: admitted_def)
  then show thesis
  proof cases
    case invalid
    then show thesis using assms(1)
      by (intro via_refuse [of "''invalid-request''" InvalidPolicyRequest "Some ErrDenied" st])
        (auto simp: authorize_body_def refusal_reason_def)
  next
    case role
    then show thesis using assms(1)
      by (intro via_refuse [of "''role-denied''" RoleNotPermitted "Some ErrDenied" st])
        (auto simp: authorize_body_def refusal_reason_def)
  next
    case adm
    then have adm': "iv" "is_ok (Request_Validate rq)" "is_ok (Authorize scope (rq_Action rq))"
      by (simp_all add: admitted_def)
    show thesis
    proof (cases "hook rq")
      case None
      then show thesis using assms(1) adm adm'
        by (intro via_refuse [of "''hook-error''" HookFailed None ?sth])
          (auto simp: authorize_body_def refusal_reason_def Let_def)
    next
      case (Some d)
      show thesis
      proof (cases "is_ok (Decision_Validate d)")
        case False
        then show thesis using assms(1) adm adm' Some
          by (intro via_refuse [of "''invalid-decision''" HookDecisionInvalid None ?sth])
            (auto simp: authorize_body_def refusal_reason_def Let_def)
      next
        case True
        show thesis
          by (rule decided [OF adm Some True])
            (use assms(1) adm' Some True assms(2) in
              \<open>auto simp: authorize_body_def Let_def pep_record_valid split: if_splits\<close>)
      qed
    qed
  qed
qed

lemma normalizedAuditRequest_Some:
  assumes "normalizedAuditRequest rq = Some rq'"
  shows "rq_WorkspaceID rq' = rq_WorkspaceID rq" "rq_Actor rq' = rq_Actor rq" "rq_Role rq' = rq_Role rq"
    "rq_Action rq' = rq_Action rq"
    "rq_Verb rq' = (if validForAction (rq_Verb rq) (rq_Action rq) then rq_Verb rq else invalidVerb)"
    and "is_ok (ValidateWorkspaceID (rq_WorkspaceID rq))"
    "is_ok (validateSafeText ''policy actor'' (rq_Actor rq) maxActorBytes)" "Role_Valid (rq_Role rq)"
    "rq_Action rq \<in> {ActionRead, ActionExportAudit, ActionProposeIntent}"
  using assms by (auto simp: normalizedAuditRequest_def split: if_splits)

lemma Request_Validate_ok:
  "is_ok (Request_Validate rq) \<longleftrightarrow>
     is_ok (ValidateWorkspaceID (rq_WorkspaceID rq)) \<and>
     is_ok (validateSafeText ''policy actor'' (rq_Actor rq) maxActorBytes) \<and>
     Role_Valid (rq_Role rq) \<and> validForAction (rq_Verb rq) (rq_Action rq) \<and> validDigest (rq_ArgumentsDigest rq)"
  by (auto simp: Request_Validate_def is_ok_iff rbind_eq_Inr split: sum.splits)

lemma validForAction_action: "validForAction v a \<Longrightarrow> a \<in> {ActionRead, ActionExportAudit, ActionProposeIntent}"
  by (auto simp: validForAction_def split: if_splits)

lemma AuditEvent_Validate_ok:
  "is_ok (AuditEvent_Validate wall ev) \<longleftrightarrow>
     ae_At ev \<noteq> 0 \<and> ae_At ev \<le> wall + 60 * 1000000000 \<and> ID_Valid (ae_TraceID ev) \<and>
     is_ok (ValidateWorkspaceID (ae_WorkspaceID ev)) \<and>
     is_ok (validateSafeText ''policy actor'' (ae_Actor ev) maxActorBytes) \<and>
     Role_Valid (ae_Role ev) \<and> ae_Action ev \<in> {ActionRead, ActionExportAudit, ActionProposeIntent} \<and>
     (Role_Allows (ae_Role ev) (ae_Action ev) \<or>
        ae_Verdict ev = VerdictDeny \<and> ae_ReasonCode ev \<in> {''role-denied'', ''invalid-request''}) \<and>
     (if ae_Verb ev = invalidVerb then ae_Verdict ev = VerdictDeny \<and> ae_ReasonCode ev = ''invalid-request''
      else validForAction (ae_Verb ev) (ae_Action ev)) \<and>
     is_ok (Decision_Validate \<lparr>dc_Verdict = ae_Verdict ev, dc_ReasonCode = ae_ReasonCode ev\<rparr>)"
proof -
  have names: "is_ok (validateSafeText ''policy audit actor'' (ae_Actor ev) maxActorBytes) =
      is_ok (validateSafeText ''policy actor'' (ae_Actor ev) maxActorBytes)"
    by (rule validateSafeText_name)
  show ?thesis unfolding names [symmetric]
    by (cases "ValidateWorkspaceID (ae_WorkspaceID ev)";
        cases "validateSafeText ''policy audit actor'' (ae_Actor ev) maxActorBytes")
      (simp_all add: AuditEvent_Validate_def not_less)
qed

lemma refusal_codes_valid:
  "reason \<in> {''invalid-request'', ''role-denied'', ''hook-error'', ''invalid-decision''} \<Longrightarrow>
     is_ok (Decision_Validate \<lparr>dc_Verdict = VerdictDeny, dc_ReasonCode = reason\<rparr>)"
  by (elim insertE emptyE; hypsubst; code_simp)

lemma Decision_Validate_eta:
  "Decision_Validate \<lparr>dc_Verdict = dc_Verdict d, dc_ReasonCode = dc_ReasonCode d\<rparr> = Decision_Validate d"
  by (simp add: Decision_Validate_def)

lemma Authorize_ok: "is_ok (Authorize scope a) \<longleftrightarrow> Role_Allows (sc_role scope) a"
  by (simp add: Authorize_def)

lemma pep_event_fields [simp]:
  "ae_At (pep_event t i rq d) = t" "ae_TraceID (pep_event t i rq d) = i"
  "ae_WorkspaceID (pep_event t i rq d) = rq_WorkspaceID rq" "ae_Actor (pep_event t i rq d) = rq_Actor rq"
  "ae_Role (pep_event t i rq d) = rq_Role rq" "ae_Action (pep_event t i rq d) = rq_Action rq"
  "ae_Verb (pep_event t i rq d) = rq_Verb rq" "ae_Verdict (pep_event t i rq d) = dc_Verdict d"
  "ae_ReasonCode (pep_event t i rq d) = dc_ReasonCode d"
  by (simp_all add: pep_event_def)

lemma refusal_event_valid:
  assumes "normalizedAuditRequest rq = Some rq'" and "refusal_reason scope rq iv reason"
    and "rq_Role rq = sc_role scope" and "ID_Valid i" and "now \<noteq> 0" "now \<le> wall + 60 * 1000000000"
  shows "is_ok (AuditEvent_Validate wall
    (pep_event now i rq' \<lparr>dc_Verdict = VerdictDeny, dc_ReasonCode = reason\<rparr>))"
proof -
  note n = normalizedAuditRequest_Some [OF assms(1)]
  have code: "reason \<in> {''invalid-request'', ''role-denied'', ''hook-error'', ''invalid-decision''}"
    using assms(2) by (auto simp: refusal_reason_def)
  have role: "Role_Allows (rq_Role rq) (rq_Action rq) \<or> reason \<in> {''role-denied'', ''invalid-request''}"
    using assms(2,3) by (auto simp: refusal_reason_def admitted_def Authorize_ok)
  have verb: "validForAction (rq_Verb rq) (rq_Action rq) \<or> reason = ''invalid-request''"
    using assms(2) by (auto simp: refusal_reason_def admitted_def Request_Validate_ok)
  have "if rq_Verb rq' = invalidVerb then reason = ''invalid-request''
      else validForAction (rq_Verb rq') (rq_Action rq)"
    using verb n(5) invalidVerb_not_valid [of "rq_Action rq"] by (auto split: if_splits)
  then show ?thesis
    using role n(1-4,6-9) refusal_codes_valid [OF code] assms(4-6) by (simp add: AuditEvent_Validate_ok)
qed

lemma decision_event_valid:
  assumes "admitted scope rq iv" and "is_ok (Decision_Validate d)"
    and "rq_Role rq = sc_role scope" and "ID_Valid i" and "now \<noteq> 0" "now \<le> wall + 60 * 1000000000"
  shows "is_ok (AuditEvent_Validate wall (pep_event now i rq d))"
proof -
  have v: "is_ok (Request_Validate rq)" "Role_Allows (rq_Role rq) (rq_Action rq)"
    using assms(1,3) by (simp_all add: admitted_def Authorize_ok)
  then have verb: "validForAction (rq_Verb rq) (rq_Action rq)" by (simp add: Request_Validate_ok)
  then have "rq_Verb rq \<noteq> invalidVerb" using invalidVerb_not_valid by metis
  then show ?thesis using v verb validForAction_action [OF verb] assms(2,4-6)
    by (simp add: AuditEvent_Validate_ok Request_Validate_ok Decision_Validate_eta)
qed

subsection \<open>Properties\<close>

text \<open>
  C1: no operation is let through without every gate. If the enforcer returns success,
  the input was valid, the request validated, the scope's role permits the action, the policy
  hook was asked about exactly this request and answered allow, and the audit sink accepted
  exactly one new event, the allow event of this request.
\<close>
theorem authorize_allow_sound:
  assumes "authorize enf mint elapsed ctx scope rq iv op st = (Inr (), st')"
    and "mint_ok mint"
  shows "iv \<and> Request_Validate rq = Inr () \<and> Role_Allows (sc_role scope) (rq_Action rq) \<and>
    (\<exists>e hook sink d i. enf = Some e \<and> ef_hook e = Some hook \<and> ef_auditor e = Some sink \<and>
       hook rq = Some d \<and> dc_Verdict d = VerdictAllow \<and> ID_Valid i \<and>
       sink (pep_event (ef_now e) i rq d) \<and>
       st_hook st' = st_hook st @ [rq] \<and>
       st_audit st' = st_audit st @ [(pep_event (ef_now e) i rq d, True)])"
  using assms
proof (cases rule: authorize_cases)
  case (body e hook sink i out st1)
  from body(5,4) show ?thesis
  proof (cases rule: authorize_body_cases)
    case (decided d)
    then have "dc_Verdict d = VerdictAllow" "sink (pep_event (ef_now e) i rq d)" by simp_all
    moreover have "iv" "Request_Validate rq = Inr ()" "Role_Allows (sc_role scope) (rq_Action rq)"
      using decided(1) by (auto simp: admitted_def Authorize_ok) (simp add: is_ok_iff)
    ultimately show ?thesis using decided body by auto
  qed simp_all
qed simp

text \<open>
  C2: the enforcer fails closed and keeps the audit trail honest. Whatever the hook and
  the sink answer, a call offers at most one event to the sink; an accepted allow event is
  recorded exactly when the operation is let through, so a failing sink blocks the operation
  and a refused operation leaves no accepted allow event; and the hook is only ever consulted
  about admitted requests.
\<close>
theorem authorize_fail_closed:
  assumes "authorize enf mint elapsed ctx scope rq iv op st = (r, st')"
    and "mint_ok mint"
  shows "\<exists>new. st_audit st' = st_audit st @ new \<and> length new \<le> 1 \<and>
    (r = Inr () \<longleftrightarrow> (\<exists>ev. (ev, True) \<in> set new \<and> ae_Verdict ev = VerdictAllow)) \<and>
    (st_hook st' = st_hook st \<or> st_hook st' = st_hook st @ [rq] \<and> admitted scope rq iv)"
  using assms
proof (cases rule: authorize_cases)
  case (early e)
  then show ?thesis by (intro exI [of _ "[]"]) simp
next
  case (body e hook sink i out st1)
  from body(5,4) show ?thesis
  proof (cases rule: authorize_body_cases)
    case (unaudited e)
    with body show ?thesis by (intro exI [of _ "[]"]) auto
  next
    case (refused err rq' reason)
    let ?ev = "pep_event (ef_now e) i rq' \<lparr>dc_Verdict = VerdictDeny, dc_ReasonCode = reason\<rparr>"
    from refused body show ?thesis by (intro exI [of _ "[(?ev, sink ?ev)]"]) auto
  next
    case (decided d)
    let ?ev = "pep_event (ef_now e) i rq d"
    from decided body show ?thesis by (intro exI [of _ "[(?ev, sink ?ev)]"]) auto
  qed
qed

text \<open>
  C3: every event the enforcer offers to its sink passes the sink's own validation: for a
  request built from the scope, a clock that is set and not more than a minute ahead of the
  sink's, no refusal, hook failure or decision ever produces an event that the structured
  sink would reject as malformed, impossible or unsafe.
\<close>
theorem authorize_events_valid:
  assumes "authorize (Some e) mint elapsed ctx scope rq iv op st = (r, st')"
    and "mint_ok mint"
    and "rq_Role rq = sc_role scope"
    and "ef_now e \<noteq> 0" and "ef_now e \<le> wall + 60 * 1000000000"
  shows "\<exists>new. st_audit st' = st_audit st @ new \<and>
    (\<forall>(ev, accepted) \<in> set new. AuditEvent_Validate wall ev = Inr ())"
  using assms(1,2)
proof (cases rule: authorize_cases)
  case (early e)
  then show ?thesis by (intro exI [of _ "[]"]) simp
next
  case (body e' hook sink i out st1)
  then have e: "e' = e" by simp
  from body(5,4) show ?thesis
  proof (cases rule: authorize_body_cases)
    case (unaudited e)
    with body show ?thesis by (intro exI [of _ "[]"]) auto
  next
    case (refused err rq' reason)
    let ?ev = "pep_event (ef_now e) i rq' \<lparr>dc_Verdict = VerdictDeny, dc_ReasonCode = reason\<rparr>"
    have "is_ok (AuditEvent_Validate wall ?ev)"
      by (rule refusal_event_valid [OF refused(2,4) assms(3) body(4) assms(4,5)])
    with refused body e show ?thesis by (intro exI [of _ "[(?ev, sink ?ev)]"]) (auto simp: is_ok_iff)
  next
    case (decided d)
    let ?ev = "pep_event (ef_now e) i rq d"
    have "is_ok (AuditEvent_Validate wall ?ev)"
      by (rule decision_event_valid [OF decided(1,3) assms(3) body(4) assms(4,5)])
    with decided body e show ?thesis by (intro exI [of _ "[(?ev, sink ?ev)]"]) (auto simp: is_ok_iff)
  qed
qed

text \<open>
  C4: the digest of a constructed proposal binds every field. Two proposals accepted by
  the constructor with the same resolved digest are the same proposal, unless their distinct
  NUL-joined preimages are an actual SHA-256 collision; no field boundary can be shifted.
\<close>
theorem proposal_digest_binds:
  assumes "NewProposalInput sha i w a v t d = Inr p"
    and "NewProposalInput sha i' w' a' v' t' d' = Inr q"
    and "pi_resolvedDigest p = pi_resolvedDigest q"
  shows "p = q \<or>
    (join (proposal_values p) [NUL] \<noteq> join (proposal_values q) [NUL] \<and>
     sha (join (proposal_values p) [NUL]) = sha (join (proposal_values q) [NUL]))"
proof -
  note P = NewProposalInput_Inr [OF assms(1)] and Q = NewProposalInput_Inr [OF assms(2)]
  have sha: "sha (join (proposal_values p) [NUL]) = sha (join (proposal_values q) [NUL])"
    using assms(3) by (simp add: P(2) Q(2) ProposalInput_digest_def hex_encode_inj)
  have "p = q" if "join (proposal_values p) [NUL] = join (proposal_values q) [NUL]"
  proof -
    have "proposal_values p = proposal_values q"
      by (rule join_inj [OF that _ proposal_values_no_NUL [OF P(1)] proposal_values_no_NUL [OF Q(1)]])
        (simp add: proposal_values_def)
    then have vals: "i = i'" "w = w'" "a = a'" "v = v'" "d = d'" "SourceKind t = SourceKind t'"
      "RefScope t = RefScope t'" "RefKind t = RefKind t'" "RefNamespace t = RefNamespace t'"
      "RefName t = RefName t'"
      by (simp_all add: proposal_values_def P(3-8) Q(3-8))
    have "t = t'" using vals P(9) Q(9) by (cases t; cases t') simp
    with vals assms(1,2) show "p = q" by simp
  qed
  with sha show ?thesis by blast
qed

text \<open>
  A constructed proposal is usable downstream: it passes its own re-validation, and
  the approval binding derived from it is valid and carries exactly the proposal's intent,
  workspace, proposer and digest (given a hash of 32 bytes).
\<close>
theorem proposal_binding_roundtrip:
  assumes "NewProposalInput sha i w a v t d = Inr p"
    and "\<And>x. length (sha x) = 32"
  shows "ProposalInput_validate sha p = Inr () \<and>
    (\<exists>b. ProposalInput_ApprovalBinding sha p = Inr b \<and> ApprovalBinding_Validate b = Inr () \<and>
       b = \<lparr>ab_intentID = i, ab_workspaceID = w, ab_proposer = a, ab_resolvedDigest = pi_resolvedDigest p\<rparr>)"
proof -
  note P = NewProposalInput_Inr [OF assms(1)]
  have dig: "validDigest (ProposalInput_digest sha p)"
    unfolding ProposalInput_digest_def by (rule validDigest_hex) (rule assms(2))
  have ok: "ProposalInput_validate sha p = Inr ()"
    using P(1) dig by (auto simp: ProposalInput_validate_def P(2) is_ok_iff)
  have "is_ok (validateSafeText ''approval intent identifier'' i maxIntentIDBytes)"
    "is_ok (ValidateWorkspaceID w)" "is_ok (validateSafeText ''approval proposer'' a maxActorBytes)"
    using P(1) by (simp_all add: ProposalInput_validateFields_def P(3-5) validateSafeText_ok split: if_splits)
  then show ?thesis
    using ok dig by (simp add: ProposalInput_ApprovalBinding_def ApprovalBinding_Validate_def P(2-5))
qed

text \<open>
  C5: a proposal is let through only for an operator of the proposal's own workspace
  acting as its proposer, with an untampered digest over a closed intent verb, and only by a
  policy other than the read-only one: the read hook can never authorise a proposal.
\<close>
theorem AuthorizeProposal_bound:
  assumes "AuthorizeProposal sha (Some e) mint elapsed ctx scope input st = (Inr (), st')" and "mint_ok mint"
  shows "sc_role scope = RoleOperator \<and> pi_workspaceID input = sc_workspaceID scope \<and>
    pi_actor input = sc_subject scope \<and> IntentVerb_Valid (pi_verb input) \<and>
    pi_resolvedDigest input = ProposalInput_digest sha input \<and>
    ef_hook e \<noteq> Some AllowReadHook_Decide"
proof -
  let ?rq = "\<lparr>rq_WorkspaceID = sc_workspaceID scope, rq_Actor = sc_subject scope, rq_Role = sc_role scope,
        rq_Action = ActionProposeIntent, rq_Verb = pi_verb input, rq_ArgumentsDigest = pi_resolvedDigest input\<rparr>"
  let ?iv = "is_ok (ProposalInput_validate sha input) \<and>
            pi_workspaceID input = sc_workspaceID scope \<and> pi_actor input = sc_subject scope"
  have "authorize (Some e) mint elapsed ctx scope ?rq ?iv ''proposal'' st = (Inr (), st')"
    using assms(1) by (simp add: AuthorizeProposal_def Let_def)
  then show ?thesis using assms(2)
  proof (cases rule: authorize_cases)
    case (body e' hook sink i out st1)
    from body(5,4) show ?thesis
    proof (cases rule: authorize_body_cases)
      case (decided d)
      then have d: "hook ?rq = Some d" "dc_Verdict d = VerdictAllow" by simp_all
      have "ef_hook e \<noteq> Some AllowReadHook_Decide"
      proof
        assume "ef_hook e = Some AllowReadHook_Decide"
        with body have "hook = AllowReadHook_Decide" by simp
        with d show False by (auto simp: AllowReadHook_Decide_def)
      qed
      moreover have "Role_Allows (sc_role scope) ActionProposeIntent" "?iv"
        using decided(1) by (simp_all add: admitted_def Authorize_ok)
      moreover have "IntentVerb_Valid (pi_verb input)" "pi_resolvedDigest input = ProposalInput_digest sha input"
        using \<open>?iv\<close>
        by (auto simp: is_ok_iff ProposalInput_validate_def ProposalInput_validateFields_def rbind_eq_Inr
            split: if_splits)
      ultimately show ?thesis by (simp add: Role_Allows_unfold)
    qed simp_all
  qed simp
qed

text \<open>
  The audit chain is disclosed to administrators only: an audit export passes only
  for the administrator role, and the audit verb smuggled through the ordinary read path is
  always refused.
\<close>
theorem audit_export_admin_only:
  assumes "mint_ok mint"
  shows "(sc_role scope = RoleAdmin \<or>
      fst (AuthorizeAuditExport sha enf mint elapsed ctx scope st) \<noteq> Inr ()) \<and>
    fst (AuthorizeRead enf mint elapsed ctx scope (NewReadInput sha VerbAuditExport args) st) \<noteq> Inr ()"
proof -
  have allowed: "Role_Allows (sc_role scope) (rq_Action rq) \<and> validForAction (rq_Verb rq) (rq_Action rq)"
    if "fst (authorize enf mint elapsed ctx scope rq True op st) = Inr ()" for rq op
  proof -
    obtain st' where "authorize enf mint elapsed ctx scope rq True op st = (Inr (), st')"
      using \<open>fst _ = _\<close> by (metis prod.collapse)
    then show ?thesis using assms
    proof (cases rule: authorize_cases)
      case (body e hook sink i out st1)
      from body(5,4) show ?thesis
        by (cases rule: authorize_body_cases) (simp_all add: admitted_def Authorize_ok Request_Validate_ok)
    qed simp
  qed
  have "sc_role scope = RoleAdmin"
    if "fst (AuthorizeAuditExport sha enf mint elapsed ctx scope st) = Inr ()"
    using allowed [OF that [unfolded AuthorizeAuditExport_def Let_def]] by (simp add: Role_Allows_unfold)
  moreover have "fst (AuthorizeRead enf mint elapsed ctx scope (NewReadInput sha VerbAuditExport args) st) \<noteq> Inr ()"
    using allowed [of "\<lparr>rq_WorkspaceID = sc_workspaceID scope, rq_Actor = sc_subject scope, rq_Role = sc_role scope,
        rq_Action = ActionRead, rq_Verb = VerbAuditExport,
        rq_ArgumentsDigest = ri_ArgumentsDigest (NewReadInput sha VerbAuditExport args)\<rparr>" "''read''"]
    by (auto simp: AuthorizeRead_def NewReadInput_def validForAction_def)
  ultimately show ?thesis by blast
qed

subsection \<open>Witnesses\<close>

definition sample_sha :: "string \<Rightarrow> string" where
  "sample_sha s = take 32 (rev s @ replicate 32 CHR ''0'')"

definition sample_enforcer :: Enforcer where
  "sample_enforcer = \<lparr>ef_hook = Some AllowReadHook_Decide,
     ef_auditor = Some (slog_Record (\<lambda>_. True) (\<lambda>_. True) 1000 True),
     ef_observer = True, ef_tracer = True, ef_now = 1000\<rparr>"

definition sample_open_enforcer :: Enforcer where
  "sample_open_enforcer = sample_enforcer\<lparr>ef_hook := Some (\<lambda>_. Some \<lparr>dc_Verdict = VerdictAllow, dc_ReasonCode = ''ok''\<rparr>)\<rparr>"

definition sample_scope :: "Role \<Rightarrow> Scope" where
  "sample_scope role = \<lparr>sc_workspaceID = ''payments'', sc_subject = ''alice'', sc_role = role\<rparr>"

definition sample_request :: "Role \<Rightarrow> Request" where
  "sample_request role = \<lparr>rq_WorkspaceID = ''payments'', rq_Actor = ''alice'', rq_Role = role,
     rq_Action = ActionRead, rq_Verb = VerbFleetRead,
     rq_ArgumentsDigest = ''sha256:'' @ hex_encode (sample_sha [])\<rparr>"

definition sample_mint :: "string option" where
  "sample_mint = Some (replicate 16 CHR ''m'')"

definition sample_pep_state :: pep_state where
  "sample_pep_state = \<lparr>st_hook = [], st_audit = [], st_observed = [], st_traces = []\<rparr>"

definition sample_run :: "(pep_error, unit) result \<times> pep_state" where
  "sample_run = authorize (Some sample_enforcer) sample_mint (5, 7) (Some None) (sample_scope RoleReader)
     (sample_request RoleReader) True ''read'' sample_pep_state"

lemma sample_run_ok: "fst sample_run = Inr ()"
  by code_simp

lemma sample_mint_ok: "mint_ok sample_mint"
  by code_simp

theorem authorize_allow_sound_witness:
  "\<exists>st'. authorize (Some sample_enforcer) sample_mint (5, 7) (Some None) (sample_scope RoleReader)
       (sample_request RoleReader) True ''read'' sample_pep_state = (Inr (), st') \<and>
     Role_Allows RoleReader ActionRead \<and> st_hook st' = [sample_request RoleReader] \<and> length (st_audit st') = 1"
proof -
  obtain st' where run: "authorize (Some sample_enforcer) sample_mint (5, 7) (Some None) (sample_scope RoleReader)
       (sample_request RoleReader) True ''read'' sample_pep_state = (Inr (), st')"
    using sample_run_ok by (metis sample_run_def prod.collapse)
  from authorize_allow_sound [OF run sample_mint_ok] run show ?thesis
    by (auto simp: sample_scope_def sample_request_def sample_pep_state_def)
qed

theorem authorize_fail_closed_witness:
  "\<exists>st'. authorize (Some (sample_enforcer\<lparr>ef_auditor := Some (\<lambda>_. False)\<rparr>)) sample_mint (5, 7) (Some None)
       (sample_scope RoleReader) (sample_request RoleReader) True ''read'' sample_pep_state =
         (Inl (PepError ''read'' AuditDecisionFailed None True), st') \<and>
     length (st_audit st') = 1 \<and>
     (\<nexists>ev. (ev, True) \<in> set (st_audit st') \<and> ae_Verdict ev = VerdictAllow)"
proof -
  let ?run = "authorize (Some (sample_enforcer\<lparr>ef_auditor := Some (\<lambda>_. False)\<rparr>)) sample_mint (5, 7) (Some None)
       (sample_scope RoleReader) (sample_request RoleReader) True ''read'' sample_pep_state"
  have "fst ?run = Inl (PepError ''read'' AuditDecisionFailed None True)" "length (st_audit (snd ?run)) = 1"
    by code_simp+
  then obtain st' where run: "?run = (Inl (PepError ''read'' AuditDecisionFailed None True), st')"
    and len: "length (st_audit st') = 1"
    by (metis prod.collapse)
  from authorize_fail_closed [OF run sample_mint_ok] run len show ?thesis
    by (auto simp: sample_pep_state_def)
qed

theorem authorize_events_valid_witness:
  "\<exists>st'. authorize (Some sample_enforcer) sample_mint (5, 7) (Some None) (sample_scope RoleReader)
       ((sample_request RoleReader)\<lparr>rq_Verb := ''kubectl.exec''\<rparr>) True ''read'' sample_pep_state =
         (Inl (PepError ''read'' InvalidPolicyRequest (Some ErrDenied) False), st') \<and>
     length (st_audit st') = 1 \<and> list_all (\<lambda>(ev, ok). AuditEvent_Validate 1000 ev = Inr ()) (st_audit st')"
proof -
  let ?run = "authorize (Some sample_enforcer) sample_mint (5, 7) (Some None) (sample_scope RoleReader)
       ((sample_request RoleReader)\<lparr>rq_Verb := ''kubectl.exec''\<rparr>) True ''read'' sample_pep_state"
  have "fst ?run = Inl (PepError ''read'' InvalidPolicyRequest (Some ErrDenied) False)"
    "length (st_audit (snd ?run)) = 1"
    by code_simp+
  then obtain st' where run: "?run = (Inl (PepError ''read'' InvalidPolicyRequest (Some ErrDenied) False), st')"
    and len: "length (st_audit st') = 1"
    by (metis prod.collapse)
  have "\<exists>new. st_audit st' = st_audit sample_pep_state @ new \<and>
      (\<forall>(ev, accepted) \<in> set new. AuditEvent_Validate 1000 ev = Inr ())"
    by (rule authorize_events_valid [OF run sample_mint_ok])
      (simp_all add: sample_request_def sample_scope_def sample_enforcer_def)
  with run len show ?thesis by (auto simp: sample_pep_state_def list_all_iff)
qed

definition sample_target :: ResourceRef where
  "sample_target = \<lparr>SourceKind = ''kubernetes'', RefScope = ''west'', RefKind = ''Deployment'',
     RefNamespace = ''apps'', RefName = ''api'', Attributes = []\<rparr>"

definition sample_proposal :: "(pep_invalid, ProposalInput) result" where
  "sample_proposal = NewProposalInput sample_sha ''intent-1'' ''payments'' ''alice'' VerbDeploymentRestart
     sample_target (''sha256:'' @ hex_encode (sample_sha ''{}''))"

lemma sample_proposal_ok: "is_ok sample_proposal"
  by code_simp

lemma length_sample_sha: "length (sample_sha s) = 32"
  by (simp add: sample_sha_def)

theorem proposal_digest_binds_witness:
  "\<exists>p q. sample_proposal = Inr p \<and> sample_proposal = Inr q \<and>
     pi_resolvedDigest p = pi_resolvedDigest q \<and> p = q"
proof -
  obtain p q where p: "sample_proposal = Inr p" and q: "sample_proposal = Inr q"
    using sample_proposal_ok by (auto simp: is_ok_iff)
  have "Inr p = (Inr q :: (pep_invalid, ProposalInput) result)" by (rule trans [OF p [symmetric] q])
  then have "p = q" by (rule sum.inject(2) [THEN iffD1])
  then have same: "pi_resolvedDigest p = pi_resolvedDigest q"
    "join (proposal_values p) [NUL] = join (proposal_values q) [NUL]" by auto
  from proposal_digest_binds [OF p [unfolded sample_proposal_def] q [unfolded sample_proposal_def] same(1)]
  have "p = q" using same(2) by blast
  with p q same(1) show ?thesis by blast
qed

theorem proposal_binding_roundtrip_witness:
  "\<exists>p b. sample_proposal = Inr p \<and> ProposalInput_validate sample_sha p = Inr () \<and>
     ProposalInput_ApprovalBinding sample_sha p = Inr b \<and> ApprovalBinding_Validate b = Inr () \<and>
     ab_proposer b = ''alice''"
proof -
  obtain p where p: "sample_proposal = Inr p" using sample_proposal_ok by (auto simp: is_ok_iff)
  from proposal_binding_roundtrip [OF p [unfolded sample_proposal_def] length_sample_sha] p
  show ?thesis by auto
qed

theorem AuthorizeProposal_bound_witness:
  "\<exists>p st'. sample_proposal = Inr p \<and>
     AuthorizeProposal sample_sha (Some sample_open_enforcer) sample_mint (5, 7) (Some None)
       (sample_scope RoleOperator) p sample_pep_state = (Inr (), st') \<and>
     pi_actor p = ''alice'' \<and> pi_resolvedDigest p = ProposalInput_digest sample_sha p"
proof -
  let ?run = "\<lambda>p. AuthorizeProposal sample_sha (Some sample_open_enforcer) sample_mint (5, 7) (Some None)
       (sample_scope RoleOperator) p sample_pep_state"
  have ok: "case sample_proposal of Inl _ \<Rightarrow> False | Inr p \<Rightarrow> is_ok (fst (?run p))" by code_simp
  obtain p where p: "sample_proposal = Inr p" using sample_proposal_ok by (auto simp: is_ok_iff)
  obtain st' where run: "?run p = (Inr (), st')"
  proof -
    have "is_ok (fst (?run p))" using ok unfolding p sum.case .
    then have "fst (?run p) = Inr ()" by (auto simp: is_ok_iff)
    with that show thesis by (metis prod.collapse)
  qed
  from AuthorizeProposal_bound [OF run sample_mint_ok] run p show ?thesis
    by (auto simp: sample_scope_def)
qed

theorem audit_export_admin_only_witness:
  "mint_ok sample_mint \<and>
   fst (AuthorizeAuditExport sample_sha (Some sample_enforcer) sample_mint (5, 7) (Some None)
      (sample_scope RoleAdmin) sample_pep_state) = Inr () \<and>
   fst (AuthorizeRead (Some sample_enforcer) sample_mint (5, 7) (Some None) (sample_scope RoleAdmin)
      (NewReadInput sample_sha VerbAuditExport []) sample_pep_state) \<noteq> Inr ()"
proof -
  have "fst (AuthorizeAuditExport sample_sha (Some sample_enforcer) sample_mint (5, 7) (Some None)
      (sample_scope RoleAdmin) sample_pep_state) = Inr ()" by code_simp
  with audit_export_admin_only [OF sample_mint_ok] sample_mint_ok show ?thesis by blast
qed

end
