(* ===== verification/Go_Encoding.thy ===== *)
theory Go_Encoding
  imports Go_Strings "HOL-Library.Word"
begin

text \<open>
  Encodings of the Go standard library that the audit documents are built from, with their
  round trips: decimal numbers, length-prefixed framing, unpadded base64url
  (\<open>base64.RawURLEncoding\<close>) and big-endian 64-bit integers (\<open>binary.BigEndian\<close>).
\<close>

subsection \<open>Decimal numbers\<close>

definition decimal_value :: "string \<Rightarrow> nat" where
  "decimal_value s = foldl (\<lambda>a c. 10 * a + (byte_of c - 48)) 0 s"

lemma byte_of_digit: "d < 10 \<Longrightarrow> byte_of (digit_char d) = 48 + d"
  by (simp add: digit_char_def byte_of_char_of)

lemma nat_decimal_value: "decimal_value (nat_decimal n) = n"
proof (induction n rule: nat_decimal.induct)
  case (1 n)
  show ?case
  proof (cases "n < 10")
    case True
    then show ?thesis by (simp add: nat_decimal.simps [of n] decimal_value_def byte_of_digit)
  next
    case False
    then show ?thesis using 1
      by (simp add: nat_decimal.simps [of n] decimal_value_def byte_of_digit)
  qed
qed

lemma nat_decimal_inj: "nat_decimal m = nat_decimal n \<longleftrightarrow> m = n"
  by (metis nat_decimal_value)

lemma nat_decimal_digits: "list_all is_digit (nat_decimal n)"
proof (induction n rule: nat_decimal.induct)
  case (1 n)
  have "is_digit (digit_char d)" if "d < 10" for d
    using that by (simp add: is_digit_def in_range_def byte_of_digit)
  with 1 show ?case by (subst nat_decimal.simps) simp
qed

lemma nat_decimal_no_char: "\<not> is_digit c \<Longrightarrow> c \<notin> set (nat_decimal n)"
  using nat_decimal_digits [of n] by (auto simp: list_all_iff)

lemma not_digit [simp]: "\<not> is_digit CHR '':''" "\<not> is_digit CHR ''-''"
  by (simp_all add: is_digit_def in_range_def byte_of_def)

lemma nat_decimal_not_minus: "nat_decimal n \<noteq> CHR ''-'' # s"
  using nat_decimal_no_char [of "CHR ''-''" n] by auto

lemma int_decimal_inj: "int_decimal i = int_decimal j \<longleftrightarrow> i = j"
  using nat_decimal_not_minus
  by (auto simp: int_decimal_def nat_decimal_inj eq_commute [of "CHR ''-'' # _"])

subsection \<open>Length-prefixed framing\<close>

definition frame :: "string \<Rightarrow> string" where
  "frame v = nat_decimal (length v) @ '':'' @ v"

lemma frame_inj:
  assumes "frame v @ r = frame v' @ r'"
  shows "v = v' \<and> r = r'"
proof -
  have "nat_decimal (length v) @ CHR '':'' # v @ r = nat_decimal (length v') @ CHR '':'' # v' @ r'"
    using assms by (simp add: frame_def)
  then have "nat_decimal (length v) = nat_decimal (length v') \<and> v @ r = v' @ r'"
    by (rule split_at_sep) (simp_all add: nat_decimal_no_char)
  then show ?thesis by (auto simp: nat_decimal_inj)
qed

definition frames :: "string list \<Rightarrow> string" where
  "frames vs = concat (map frame vs)"

lemma frames_simps [simp]: "frames [] = []" "frames (v # vs) = frame v @ frames vs"
  by (simp_all add: frames_def)

lemma frames_inj:
  assumes "frames vs @ r = frames vs' @ r'" and "length vs = length vs'"
  shows "vs = vs' \<and> r = r'"
  using assms
proof (induction vs arbitrary: vs')
  case (Cons v vs)
  then obtain v' vs'' where vs': "vs' = v' # vs''" by (cases vs') auto
  from Cons.prems have "frame v @ (frames vs @ r) = frame v' @ (frames vs'' @ r')" by (simp add: vs')
  from frame_inj [OF this] Cons.IH [of vs''] Cons.prems(2) show ?case by (simp add: vs')
qed simp

subsection \<open>Unpadded base64url\<close>

definition b64_digit :: "nat \<Rightarrow> char" where
  "b64_digit d =
     (if d < 26 then char_of (65 + d) else if d < 52 then char_of (71 + d) else if d < 62 then char_of (d - 4)
      else if d = 62 then CHR ''-'' else CHR ''_'')"

definition b64_value :: "char \<Rightarrow> nat option" where
  "b64_value c =
     (let b = byte_of c in
      if 65 \<le> b \<and> b \<le> 90 then Some (b - 65)
      else if 97 \<le> b \<and> b \<le> 122 then Some (b - 71)
      else if 48 \<le> b \<and> b \<le> 57 then Some (b + 4)
      else if b = 45 then Some 62
      else if b = 95 then Some 63
      else None)"

fun b64_encode :: "string \<Rightarrow> string" where
  "b64_encode [] = []"
| "b64_encode [a] = [b64_digit (byte_of a div 4), b64_digit (byte_of a mod 4 * 16)]"
| "b64_encode [a, b] =
     [b64_digit (byte_of a div 4), b64_digit (byte_of a mod 4 * 16 + byte_of b div 16), b64_digit (byte_of b mod 16 * 4)]"
| "b64_encode (a # b # c # cs) =
     b64_digit (byte_of a div 4) # b64_digit (byte_of a mod 4 * 16 + byte_of b div 16) #
     b64_digit (byte_of b mod 16 * 4 + byte_of c div 64) # b64_digit (byte_of c mod 64) # b64_encode cs"

text \<open>
  \<open>Strict().DecodeString\<close>: the padding bits of a short last group must be zero. The standard
  decoder also skips carriage returns and line feeds, so they are removed first.
\<close>

fun b64_groups :: "string \<Rightarrow> string option" where
  "b64_groups [] = Some []"
| "b64_groups [p] = None"
| "b64_groups [p, q] =
     (case (b64_value p, b64_value q) of
        (Some x, Some y) \<Rightarrow> if y mod 16 = 0 then Some [char_of (x * 4 + y div 16)] else None
      | _ \<Rightarrow> None)"
| "b64_groups [p, q, r] =
     (case (b64_value p, b64_value q, b64_value r) of
        (Some x, Some y, Some z) \<Rightarrow>
          if z mod 4 = 0 then Some [char_of (x * 4 + y div 16), char_of (y mod 16 * 16 + z div 4)] else None
      | _ \<Rightarrow> None)"
| "b64_groups (p # q # r # s # cs) =
     (case (b64_value p, b64_value q, b64_value r, b64_value s, b64_groups cs) of
        (Some x, Some y, Some z, Some t, Some rest) \<Rightarrow>
          Some (char_of (x * 4 + y div 16) # char_of (y mod 16 * 16 + z div 4) # char_of (z mod 4 * 64 + t) # rest)
      | _ \<Rightarrow> None)"

definition b64_decode_strict :: "string \<Rightarrow> string option" where
  "b64_decode_strict s = b64_groups (filter (\<lambda>c. byte_of c \<noteq> 10 \<and> byte_of c \<noteq> 13) s)"

lemma b64_value_digit: "d < 64 \<Longrightarrow> b64_value (b64_digit d) = Some d"
  by (auto simp: b64_digit_def b64_value_def byte_of_char_of byte_of_def Let_def)

lemma b64_digit_printable: "d < 64 \<Longrightarrow> byte_of (b64_digit d) \<noteq> 10 \<and> byte_of (b64_digit d) \<noteq> 13"
  by (auto simp: b64_digit_def byte_of_char_of byte_of_def)

lemma b64_parts:
  "byte_of a div 4 < 64" "byte_of a mod 4 * 16 < 64" "byte_of a mod 4 * 16 + byte_of b div 16 < 64"
  "byte_of b mod 16 * 4 < 64" "byte_of b mod 16 * 4 + byte_of c div 64 < 64" "byte_of c mod 64 < 64"
proof -
  have "byte_of a div 4 < 64" "byte_of b div 16 < 16" "byte_of c div 64 < 4"
    by (rule less_mult_imp_div_less, simp)+
  moreover have "byte_of a mod 4 < 4" "byte_of b mod 16 < 16" "byte_of c mod 64 < 64" by simp_all
  ultimately show "byte_of a div 4 < 64" "byte_of a mod 4 * 16 < 64" "byte_of a mod 4 * 16 + byte_of b div 16 < 64"
    "byte_of b mod 16 * 4 < 64" "byte_of b mod 16 * 4 + byte_of c div 64 < 64" "byte_of c mod 64 < 64"
    by linarith+
qed

lemma b64_join:
  "byte_of a div 4 * 4 + (byte_of a mod 4 * 16 + byte_of b div 16) div 16 = byte_of a"
  "(byte_of a mod 4 * 16 + byte_of b div 16) mod 16 * 16 + (byte_of b mod 16 * 4 + byte_of c div 64) div 4 = byte_of b"
  "(byte_of b mod 16 * 4 + byte_of c div 64) mod 4 * 64 + byte_of c mod 64 = byte_of c"
  "byte_of a div 4 * 4 + byte_of a mod 4 * 16 div 16 = byte_of a"
  "(byte_of a mod 4 * 16 + byte_of b div 16) mod 16 * 16 + byte_of b mod 16 * 4 div 4 = byte_of b"
proof -
  have b: "byte_of b div 16 < 16" and c: "byte_of c div 64 < 4"
    by (rule less_mult_imp_div_less, simp)+
  show "byte_of a div 4 * 4 + (byte_of a mod 4 * 16 + byte_of b div 16) div 16 = byte_of a"
    "(byte_of a mod 4 * 16 + byte_of b div 16) mod 16 * 16 + (byte_of b mod 16 * 4 + byte_of c div 64) div 4 = byte_of b"
    "(byte_of b mod 16 * 4 + byte_of c div 64) mod 4 * 64 + byte_of c mod 64 = byte_of c"
    "byte_of a div 4 * 4 + byte_of a mod 4 * 16 div 16 = byte_of a"
    "(byte_of a mod 4 * 16 + byte_of b div 16) mod 16 * 16 + byte_of b mod 16 * 4 div 4 = byte_of b"
    using b c by (simp_all add: mod_div_mult_eq div_mult_mod_eq mult.commute)
qed

lemma b64_encode_printable: "filter (\<lambda>c. byte_of c \<noteq> 10 \<and> byte_of c \<noteq> 13) (b64_encode s) = b64_encode s"
  by (induction s rule: b64_encode.induct) (simp_all add: b64_digit_printable b64_parts)

lemma b64_groups_encode: "b64_groups (b64_encode s) = Some s"
proof (induction s rule: b64_encode.induct)
  case (2 a)
  show ?case using b64_join(4) [of a] by (simp add: b64_value_digit b64_parts)
next
  case (3 a b)
  show ?case using b64_join(1,5) [of a b] by (simp add: b64_value_digit b64_parts)
next
  case (4 a b c cs)
  then show ?case using b64_join(1) [of a b] b64_join(2) [of a b c] b64_join(3) [of b c]
    by (simp only: b64_encode.simps b64_groups.simps b64_value_digit b64_parts option.case prod.case char_of_byte_of)
qed simp

lemma b64_roundtrip: "b64_decode_strict (b64_encode s) = Some s"
  by (simp add: b64_decode_strict_def b64_encode_printable b64_groups_encode)

lemma length_b64_encode: "length (b64_encode s) = (4 * length s + 2) div 3"
  by (induction s rule: b64_encode.induct) auto

subsection \<open>Big-endian 64-bit integers\<close>

fun be_bytes :: "nat \<Rightarrow> nat \<Rightarrow> string" where
  "be_bytes 0 n = []"
| "be_bytes (Suc k) n = be_bytes k (n div 256) @ [char_of (n mod 256)]"

definition be_value :: "string \<Rightarrow> nat" where
  "be_value s = foldl (\<lambda>a c. 256 * a + byte_of c) 0 s"

lemma length_be_bytes [simp]: "length (be_bytes k n) = k"
  by (induction k arbitrary: n) auto

lemma be_value_bytes: "n < 256 ^ k \<Longrightarrow> be_value (be_bytes k n) = n"
proof (induction k arbitrary: n)
  case (Suc k)
  then have "n div 256 < 256 ^ k" by (simp add: less_mult_imp_div_less mult.commute)
  moreover have "byte_of (char_of (n mod 256)) = n mod 256" by (simp add: byte_of_char_of del: char_of_mod_256)
  ultimately show ?case using Suc.IH [of "n div 256"] by (simp add: be_value_def del: char_of_mod_256)
qed (simp add: be_value_def)

lemma be_value_snoc: "be_value (s @ [c]) = 256 * be_value s + byte_of c"
  by (simp add: be_value_def)

lemma be_bytes_value: "length s = k \<Longrightarrow> be_bytes k (be_value s) = s"
proof (induction k arbitrary: s)
  case (Suc k)
  then obtain t c where s: "s = t @ [c]" "length t = k" by (metis length_Suc_conv_rev)
  with Suc.IH [of t] show ?case by (simp add: be_value_snoc)
qed simp

lemma be_value_less: "be_value s < 256 ^ length s"
proof (induction s rule: rev_induct)
  case (snoc c s)
  then have "be_value s + 1 \<le> 256 ^ length s" by simp
  then have "256 * (be_value s + 1) \<le> 256 * 256 ^ length s" by (rule mult_le_mono2)
  with byte_of_less [of c] show ?case unfolding be_value_snoc by (simp del: byte_of_less)
qed (simp add: be_value_def)

definition PutUint64 :: "64 word \<Rightarrow> string" where
  "PutUint64 v = be_bytes 8 (unat v)"

definition Uint64 :: "string \<Rightarrow> 64 word" where
  "Uint64 s = of_nat (be_value s)"

lemma Uint64_PutUint64 [simp]: "Uint64 (PutUint64 v) = v"
proof -
  have "unat v < 2 ^ 64" by (rule order_less_le_trans [OF unsigned_less]) simp
  then show ?thesis by (simp add: Uint64_def PutUint64_def be_value_bytes)
qed

lemma PutUint64_Uint64: "length s = 8 \<Longrightarrow> PutUint64 (Uint64 s) = s"
  using be_value_less [of s] by (simp add: Uint64_def PutUint64_def unsigned_of_nat take_bit_nat_eq_self be_bytes_value)

lemma length_PutUint64 [simp]: "length (PutUint64 v) = 8"
  by (simp add: PutUint64_def)

end
