(* ===== verification/Audit_Chain.thy ===== *)
theory Audit_Chain
  imports Policy_PEP Go_Encoding
begin

text \<open>
  The portable audit export (\<open>internal/auditrecord/export.go\<close>): entries, their canonical
  length-prefixed encoding, the SHA-256 chain over them and its offline verification. SHA-256
  (\<open>sha\<close>) and the RFC 3339 formatter (\<open>fmt\<close>) are parameters; int64 and int16 fields are words
  read with \<open>sint\<close>. A \<open>time.Time\<close> is its instant and whether its location is UTC.
\<close>

subsection \<open>Documents\<close>

abbreviation SchemaV1 :: string where "SchemaV1 \<equiv> ''sith.policy-audit-export/v1''"
abbreviation HashAlgorithm :: string where "HashAlgorithm \<equiv> ''sha-256''"
abbreviation MaxEntries :: nat where "MaxEntries \<equiv> 512"
abbreviation policyAuditHashDomain :: string where "policyAuditHashDomain \<equiv> ''sith-policy-audit-chain/v1''"
abbreviation approvalAuditHashDomain :: string where "approvalAuditHashDomain \<equiv> ''sith-approval-audit-chain/v2''"
abbreviation approvalExpiryAuditHashDomain :: string where
  "approvalExpiryAuditHashDomain \<equiv> ''sith-approval-audit-chain/v3''"

record Entry =
  au_Sequence :: "64 word"
  au_FormatVersion :: "16 word"
  au_RecordedAt :: Time
  au_RecordedUTC :: bool
  au_TraceID :: string
  au_Actor :: string
  au_Role :: string
  au_Action :: string
  au_Verb :: string
  au_Verdict :: string
  au_ReasonCode :: string
  au_EventKind :: string
  au_EvidenceDigest :: string
  au_PreviousHash :: string
  au_EntryHash :: string

record Chain =
  ch_HashAlgorithm :: string
  ch_HeadSequence :: "64 word"
  ch_HeadHash :: string

record Export =
  ex_Schema :: string
  ex_WorkspaceID :: string
  ex_Chain :: Chain
  ex_Entries :: "Entry list"

datatype audit_error =
    ExportEnvelopeInvalid
  | ExportHeadInvalid
  | SequenceBoundaryInvalid
  | EntryInvalid "64 word"
  | EntryHashInvalid "64 word"
  | HashInputInvalid
  | PreviousHashInvalid

subsection \<open>Field checks\<close>

definition workspaceInvalid :: "string \<Rightarrow> bool" where
  "workspaceInvalid w = (\<not> is_ok (ValidateWorkspaceID w))"

definition lowercaseHex :: "string \<Rightarrow> bool" where
  "lowercaseHex value = list_all (\<lambda>(r, n). hex_rune r) (range_runes value)"

definition validTraceID :: "string \<Rightarrow> bool" where
  "validTraceID value = (if length value \<noteq> 32 then False else lowercaseHex value)"

definition validHash :: "string \<Rightarrow> bool" where
  "validHash value = (length value = 71 \<and> has_prefix value ''sha256:'' \<and> lowercaseHex (drop 7 value))"

definition validVerdict :: "string \<Rightarrow> bool" where
  "validVerdict value = (value = VerdictAllow \<or> value = VerdictDeny \<or> value = VerdictRequireApproval)"

definition safeText :: "string \<Rightarrow> nat \<Rightarrow> bool" where
  "safeText value maximum =
     (if value = [] \<or> \<not> utf8_valid value \<or> trim_space value \<noteq> value \<or> length value > maximum then False
      else list_all (\<lambda>(r, n). \<not> is_control r) (range_runes value))"

definition validReasonCode :: "string \<Rightarrow> bool" where
  "validReasonCode value =
     (if \<not> safeText value 64 then False else list_all (\<lambda>(r, n). reason_rune r) (range_runes value))"

definition policy_shape :: "Entry \<Rightarrow> bool" where
  "policy_shape e =
     (let action = au_Action e; verb = au_Verb e in
      if au_EventKind e \<noteq> ''policy-decision'' \<or> au_EvidenceDigest e \<noteq> [] then False
      else if verb = ''invalid'' then
        (if action \<noteq> ActionRead \<and> action \<noteq> ActionExportAudit \<and> action \<noteq> ActionProposeIntent then False
         else au_Verdict e = VerdictDeny \<and> au_ReasonCode e = ''invalid-request'')
      else if action = ActionRead \<and> (\<not> PVerb_Valid verb \<or> verb = VerbAuditExport) then False
      else if action = ActionExportAudit \<and> verb \<noteq> VerbAuditExport then False
      else if action = ActionProposeIntent \<and> \<not> IntentVerb_Valid verb then False
      else if action \<noteq> ActionRead \<and> action \<noteq> ActionExportAudit \<and> action \<noteq> ActionProposeIntent then False
      else if \<not> Role_Allows (au_Role e) action \<and>
          (au_Verdict e \<noteq> VerdictDeny \<or> (au_ReasonCode e \<noteq> ''role-denied'' \<and> au_ReasonCode e \<noteq> ''invalid-request''))
        then False
      else True)"

definition approval_shape :: "Entry \<Rightarrow> bool" where
  "approval_shape e =
     (if \<not> validHash (au_EvidenceDigest e) \<or> au_Verb e \<noteq> ''approval.grant'' \<or> au_Verdict e \<noteq> VerdictAllow \<or>
         au_ReasonCode e \<noteq> au_EventKind e then False
      else (au_EventKind e = ''approval-created'' \<and> au_Role e = RoleApprover \<and> au_Action e = ActionApproveIntent) \<or>
        (au_EventKind e = ''approval-consumed'' \<and> au_Role e = RoleOperator \<and> au_Action e = ActionProposeIntent))"

definition validEntryShape :: "Entry \<Rightarrow> bool" where
  "validEntryShape e =
     (if au_FormatVersion e = 1 then policy_shape e
      else if au_FormatVersion e = 2 \<or> au_FormatVersion e = 3 then approval_shape e
      else False)"

text \<open>The condition shared by the sequence check and the hash input check.\<close>

definition entry_fields_ok :: "Entry \<Rightarrow> bool" where
  "entry_fields_ok e \<longleftrightarrow>
     au_RecordedAt e \<noteq> 0 \<and> au_RecordedUTC e \<and> au_RecordedAt e mod 1000 = 0 \<and>
     validTraceID (au_TraceID e) \<and> safeText (au_Actor e) 256 \<and> Role_Valid (au_Role e) \<and>
     validVerdict (au_Verdict e) \<and> validReasonCode (au_ReasonCode e) \<and> validEntryShape e"

subsection \<open>The canonical encoding and the chain\<close>

definition appendCanonicalString :: "string \<Rightarrow> string \<Rightarrow> string" where
  "appendCanonicalString target value = target @ nat_decimal (length value) @ '':'' @ value"

definition hash_domain :: "16 word \<Rightarrow> string" where
  "hash_domain version =
     (if version = 2 then approvalAuditHashDomain
      else if version = 3 then approvalExpiryAuditHashDomain
      else policyAuditHashDomain)"

definition canonical_entry :: "(Time \<Rightarrow> string) \<Rightarrow> string \<Rightarrow> Entry \<Rightarrow> string \<Rightarrow> string" where
  "canonical_entry fmt w e previousHash =
     (let canonical = fold (\<lambda>v acc. appendCanonicalString acc v)
            [hash_domain (au_FormatVersion e), int_decimal (sint (au_FormatVersion e)), int_decimal (sint (au_Sequence e))] [];
          canonical = canonical @ previousHash;
          canonical = fold (\<lambda>v acc. appendCanonicalString acc v)
            [fmt (au_RecordedAt e), au_TraceID e, w, au_Actor e, au_Role e, au_Action e, au_Verb e, au_Verdict e,
             au_ReasonCode e] canonical
      in if au_FormatVersion e = 2 \<or> au_FormatVersion e = 3
         then fold (\<lambda>v acc. appendCanonicalString acc v) [au_EventKind e, au_EvidenceDigest e] canonical
         else canonical)"

definition RecomputeEntryHash ::
  "(string \<Rightarrow> string) \<Rightarrow> (Time \<Rightarrow> string) \<Rightarrow> string \<Rightarrow> Entry \<Rightarrow> (audit_error, string) result" where
  "RecomputeEntryHash sha fmt w e =
     (if workspaceInvalid w \<or> sint (au_Sequence e) \<le> 0 \<or> \<not> validHash (au_PreviousHash e) \<or> \<not> entry_fields_ok e
      then Inl HashInputInvalid
      else case hex_decode (trim_prefix (au_PreviousHash e) ''sha256:'') of
        None \<Rightarrow> Inl PreviousHashInvalid
      | Some previousHash \<Rightarrow>
          if length previousHash \<noteq> 32 then Inl PreviousHashInvalid
          else Inr (''sha256:'' @ hex_encode (sha (canonical_entry fmt w e previousHash))))"

definition zeroHash :: string where
  "zeroHash = ''sha256:'' @ replicate 64 CHR ''0''"

fun entry_sequence ::
  "(string \<Rightarrow> string) \<Rightarrow> (Time \<Rightarrow> string) \<Rightarrow> string \<Rightarrow> bool \<Rightarrow> 64 word \<Rightarrow> string \<Rightarrow> Entry list
     \<Rightarrow> (audit_error, string) result" where
  "entry_sequence sha fmt w verifyHashes sequence previous [] = Inr previous"
| "entry_sequence sha fmt w verifyHashes sequence previous (e # es) =
     (if sint sequence \<le> 0 \<or> au_Sequence e \<noteq> sequence \<or> \<not> entry_fields_ok e \<or>
         au_PreviousHash e \<noteq> previous \<or> \<not> validHash (au_EntryHash e) then Inl (EntryInvalid sequence)
      else if verifyHashes \<and> RecomputeEntryHash sha fmt w e \<noteq> Inr (au_EntryHash e) then Inl (EntryHashInvalid sequence)
      else entry_sequence sha fmt w verifyHashes (sequence + 1) (au_EntryHash e) es)"

definition validateEntrySequence ::
  "(string \<Rightarrow> string) \<Rightarrow> (Time \<Rightarrow> string) \<Rightarrow> string \<Rightarrow> Entry list \<Rightarrow> 64 word \<Rightarrow> string \<Rightarrow> bool
     \<Rightarrow> (audit_error, string) result" where
  "validateEntrySequence sha fmt w entries startSequence previousHash verifyHashes =
     (if workspaceInvalid w \<or> entries = [] \<or> sint startSequence \<le> 0 \<or> \<not> validHash previousHash
      then Inl SequenceBoundaryInvalid
      else entry_sequence sha fmt w verifyHashes startSequence previousHash entries)"

definition Export_validateForWorkspace ::
  "(string \<Rightarrow> string) \<Rightarrow> (Time \<Rightarrow> string) \<Rightarrow> Export \<Rightarrow> string \<Rightarrow> bool \<Rightarrow> (audit_error, unit) result" where
  "Export_validateForWorkspace sha fmt ex w verifyHashes =
     (if ex_Schema ex \<noteq> SchemaV1 \<or> ex_WorkspaceID ex \<noteq> w \<or> workspaceInvalid w \<or>
         ch_HashAlgorithm (ex_Chain ex) \<noteq> HashAlgorithm \<or> ex_Entries ex = [] \<or> length (ex_Entries ex) > MaxEntries \<or>
         ch_HeadSequence (ex_Chain ex) \<noteq> of_nat (length (ex_Entries ex)) \<or> \<not> validHash (ch_HeadHash (ex_Chain ex))
      then Inl ExportEnvelopeInvalid
      else rbind (validateEntrySequence sha fmt w (ex_Entries ex) 1 zeroHash verifyHashes) (\<lambda>previous.
        if previous \<noteq> ch_HeadHash (ex_Chain ex) then Inl ExportHeadInvalid else Inr ()))"

definition Export_VerifyForWorkspace ::
  "(string \<Rightarrow> string) \<Rightarrow> (Time \<Rightarrow> string) \<Rightarrow> Export \<Rightarrow> string \<Rightarrow> (audit_error, unit) result" where
  "Export_VerifyForWorkspace sha fmt ex w = Export_validateForWorkspace sha fmt ex w True"

definition Export_ValidateForWorkspace ::
  "(string \<Rightarrow> string) \<Rightarrow> (Time \<Rightarrow> string) \<Rightarrow> Export \<Rightarrow> string \<Rightarrow> (audit_error, unit) result" where
  "Export_ValidateForWorkspace sha fmt ex w = Export_validateForWorkspace sha fmt ex w False"

definition Export_Verify ::
  "(string \<Rightarrow> string) \<Rightarrow> (Time \<Rightarrow> string) \<Rightarrow> Export \<Rightarrow> (audit_error, unit) result" where
  "Export_Verify sha fmt ex = Export_VerifyForWorkspace sha fmt ex (ex_WorkspaceID ex)"

subsection \<open>The canonical encoding is injective\<close>

lemma append_frame: "appendCanonicalString t v = t @ frame v"
  by (simp add: appendCanonicalString_def frame_def)

lemma fold_frames: "fold (\<lambda>v acc. appendCanonicalString acc v) vs acc = acc @ frames vs"
  by (induction vs arbitrary: acc) (simp_all add: append_frame)

definition entry_tail :: "Entry \<Rightarrow> string list" where
  "entry_tail e = (if au_FormatVersion e = 2 \<or> au_FormatVersion e = 3 then [au_EventKind e, au_EvidenceDigest e] else [])"

lemma canonical_frames:
  "canonical_entry fmt w e ph =
     frames [hash_domain (au_FormatVersion e), int_decimal (sint (au_FormatVersion e)), int_decimal (sint (au_Sequence e))] @
     ph @ frames ([fmt (au_RecordedAt e), au_TraceID e, w, au_Actor e, au_Role e, au_Action e, au_Verb e,
       au_Verdict e, au_ReasonCode e] @ entry_tail e)"
  by (simp add: canonical_entry_def append_frame entry_tail_def Let_def)

text \<open>What an entry's hash binds: every field but the hash itself, the time as it is printed.\<close>

definition bound_fields where
  "bound_fields fmt w (e :: Entry) =
     (w, au_Sequence e, au_FormatVersion e, fmt (au_RecordedAt e),
      [au_TraceID e, au_Actor e, au_Role e, au_Action e, au_Verb e, au_Verdict e, au_ReasonCode e, au_EventKind e,
       au_EvidenceDigest e, au_PreviousHash e])"

lemma sint_inj: "sint (x :: 'a::len word) = sint y \<longleftrightarrow> x = y"
  by (metis of_int_sint scast_id)

lemma frames_equal: "length vs = length vs' \<Longrightarrow> frames vs = frames vs' \<Longrightarrow> vs = vs'"
  using frames_inj [of vs "[]" vs' "[]"] by simp

lemma canonical_inj:
  assumes eq: "canonical_entry fmt w e ph = canonical_entry fmt w' e' ph'" and len: "length ph = length ph'"
  shows "ph = ph' \<and> w = w' \<and> au_FormatVersion e = au_FormatVersion e' \<and> au_Sequence e = au_Sequence e' \<and>
    fmt (au_RecordedAt e) = fmt (au_RecordedAt e') \<and> au_TraceID e = au_TraceID e' \<and> au_Actor e = au_Actor e' \<and>
    au_Role e = au_Role e' \<and> au_Action e = au_Action e' \<and> au_Verb e = au_Verb e' \<and> au_Verdict e = au_Verdict e' \<and>
    au_ReasonCode e = au_ReasonCode e' \<and> entry_tail e = entry_tail e'"
proof -
  note parts = frames_inj [OF eq [unfolded canonical_frames]]
  have head: "au_FormatVersion e = au_FormatVersion e'" "au_Sequence e = au_Sequence e'"
    using parts by (simp_all add: int_decimal_inj sint_inj)
  have rest: "ph = ph'"
    "frames ([fmt (au_RecordedAt e), au_TraceID e, w, au_Actor e, au_Role e, au_Action e, au_Verb e,
       au_Verdict e, au_ReasonCode e] @ entry_tail e) =
     frames ([fmt (au_RecordedAt e'), au_TraceID e', w', au_Actor e', au_Role e', au_Action e', au_Verb e',
       au_Verdict e', au_ReasonCode e'] @ entry_tail e')"
    using parts len by (simp_all del: frames_simps append_Cons)
  have "length (entry_tail e) = length (entry_tail e')" by (simp add: entry_tail_def head)
  with frames_equal [OF _ rest(2)] rest(1) head show ?thesis by simp
qed

subsection \<open>Hashes\<close>

lemma decode_rune_high: "128 \<le> byte_of c \<Longrightarrow> 128 \<le> fst (decode_rune c cs)"
  by (auto simp: decode_rune_def decode2_def decode3_def decode4_def second3_def second4_def in_range_def
      rune_error_def Let_def split: list.split)

lemma runes_small_ascii:
  assumes "list_all (\<lambda>(r, n). P r) (range_runes s)" and "\<And>r. P r \<Longrightarrow> r < 128"
  shows "is_ascii s \<and> list_all (\<lambda>c. P (byte_of c)) s"
  using assms(1)
proof (induction s)
  case (Cons c cs)
  have "byte_of c < 128"
  proof (rule ccontr)
    assume "\<not> byte_of c < 128"
    then have "128 \<le> fst (decode_rune c cs)" by (intro decode_rune_high) simp
    moreover have "P (fst (decode_rune c cs))" using Cons.prems by (simp add: Let_def case_prod_unfold)
    ultimately show False using assms(2) by fastforce
  qed
  then show ?case using Cons by (simp add: Let_def decode_rune_ascii is_ascii_def)
qed (simp add: is_ascii_def)

lemma lowercaseHex_iff: "lowercaseHex s \<longleftrightarrow> list_all is_lower_hex s"
proof
  assume "lowercaseHex s"
  then have "list_all (\<lambda>c. hex_rune (byte_of c)) s" unfolding lowercaseHex_def
    by (rule runes_small_ascii [THEN conjunct2]) (auto simp: hex_rune_def)
  then show "list_all is_lower_hex s" by (simp add: list_all_iff hex_rune_def is_lower_hex_def in_range_def)
next
  assume h: "list_all is_lower_hex s"
  then have "is_ascii s" by (simp add: is_ascii_def list_all_iff is_lower_hex_ascii)
  with h show "lowercaseHex s"
    by (simp add: lowercaseHex_def range_runes_ascii list_all_iff is_lower_hex_ascii)
qed

lemma validHash_iff: "validHash v \<longleftrightarrow> (\<exists>h. v = ''sha256:'' @ h \<and> length h = 64 \<and> list_all is_lower_hex h)"
proof
  assume "validHash v"
  then have v: "length v = 71" "has_prefix v ''sha256:''" "list_all is_lower_hex (drop 7 v)"
    by (simp_all add: validHash_def lowercaseHex_iff)
  have "length ''sha256:'' = 7" by simp
  with has_prefix_split [OF v(2)] have "v = ''sha256:'' @ drop 7 v" by metis
  with v show "\<exists>h. v = ''sha256:'' @ h \<and> length h = 64 \<and> list_all is_lower_hex h"
    by (intro exI [of _ "drop 7 v"]) simp
qed (auto simp: validHash_def lowercaseHex_iff has_prefix_def)

lemma validHash_decode:
  assumes "validHash v"
  obtains raw where "hex_decode (trim_prefix v ''sha256:'') = Some raw" "length raw = 32" "v = ''sha256:'' @ hex_encode raw"
proof -
  obtain h where h: "v = ''sha256:'' @ h" "length h = 64" "list_all is_lower_hex h"
    using assms by (auto simp: validHash_iff)
  obtain raw where raw: "hex_decode h = Some raw" "length raw = 32"
    using hex_decode_lower [OF h(3), of 32] h(2) by auto
  have "hex_encode raw = h"
    by (rule hex_decode_lower_inj [OF hex_roundtrip raw(1) hex_encode_lower h(3)])
  with raw h(1) show thesis by (intro that [of raw]) (simp_all add: trim_prefix_def has_prefix_def)
qed

lemma hex_hash_valid: "length raw = 32 \<Longrightarrow> validHash (''sha256:'' @ hex_encode raw)"
  by (auto simp: validHash_iff hex_encode_lower)

lemma validHash_zero [simp]: "validHash zeroHash"
  unfolding validHash_iff zeroHash_def
  by (intro exI [of _ "replicate 64 CHR ''0''"]) (simp add: list_all_iff is_lower_hex_def in_range_def byte_of_def)

lemma Recompute_Inr:
  assumes "RecomputeEntryHash sha fmt w e = Inr h"
  obtains raw where "au_PreviousHash e = ''sha256:'' @ hex_encode raw" "length raw = 32" "entry_fields_ok e"
    "h = ''sha256:'' @ hex_encode (sha (canonical_entry fmt w e raw))"
proof -
  have ok: "validHash (au_PreviousHash e)" "entry_fields_ok e"
    using assms by (auto simp: RecomputeEntryHash_def split: if_splits)
  obtain raw where raw: "hex_decode (trim_prefix (au_PreviousHash e) ''sha256:'') = Some raw" "length raw = 32"
    "au_PreviousHash e = ''sha256:'' @ hex_encode raw"
    by (rule validHash_decode [OF ok(1)])
  from assms raw ok show thesis by (intro that [of raw]) (auto simp: RecomputeEntryHash_def split: if_splits)
qed

text \<open>The bytes whose digest an entry carries (for an entry whose previous hash is well formed).\<close>

definition sealed_bytes :: "(Time \<Rightarrow> string) \<Rightarrow> string \<times> Entry \<Rightarrow> string" where
  "sealed_bytes fmt = (\<lambda>(w, e).
     canonical_entry fmt w e (case hex_decode (trim_prefix (au_PreviousHash e) ''sha256:'') of None \<Rightarrow> [] | Some raw \<Rightarrow> raw))"

definition sealed :: "(string \<Rightarrow> string) \<Rightarrow> (Time \<Rightarrow> string) \<Rightarrow> string \<times> Entry \<Rightarrow> bool" where
  "sealed sha fmt = (\<lambda>(w, e). RecomputeEntryHash sha fmt w e = Inr (au_EntryHash e))"

lemma sealed_pair: "sealed sha fmt (w, e) \<longleftrightarrow> RecomputeEntryHash sha fmt w e = Inr (au_EntryHash e)"
  by (simp add: sealed_def)

lemma sealed_hash:
  assumes "sealed sha fmt (w, e)"
  obtains raw where "sealed_bytes fmt (w, e) = canonical_entry fmt w e raw" "length raw = 32"
    "au_PreviousHash e = ''sha256:'' @ hex_encode raw" "entry_fields_ok e"
    "au_EntryHash e = ''sha256:'' @ hex_encode (sha (sealed_bytes fmt (w, e)))"
proof -
  from assms have "RecomputeEntryHash sha fmt w e = Inr (au_EntryHash e)" by (simp add: sealed_def)
  then obtain raw where raw: "au_PreviousHash e = ''sha256:'' @ hex_encode raw" "length raw = 32" "entry_fields_ok e"
    "au_EntryHash e = ''sha256:'' @ hex_encode (sha (canonical_entry fmt w e raw))"
    by (rule Recompute_Inr)
  moreover have "sealed_bytes fmt (w, e) = canonical_entry fmt w e raw"
    by (simp add: sealed_bytes_def raw(1) trim_prefix_def has_prefix_def hex_roundtrip)
  ultimately show thesis by (intro that [of raw]) simp_all
qed

lemma tail_determines:
  assumes "entry_fields_ok e" "entry_fields_ok e'" "au_FormatVersion e = au_FormatVersion e'" "entry_tail e = entry_tail e'"
  shows "au_EventKind e = au_EventKind e' \<and> au_EvidenceDigest e = au_EvidenceDigest e'"
proof (cases "au_FormatVersion e = 1")
  case True
  with assms show ?thesis by (auto simp: entry_fields_ok_def validEntryShape_def policy_shape_def Let_def split: if_splits)
next
  case False
  then have "au_FormatVersion e = 2 \<or> au_FormatVersion e = 3"
    using assms(1) by (auto simp: entry_fields_ok_def validEntryShape_def split: if_splits)
  with assms(3,4) show ?thesis by (auto simp: entry_tail_def)
qed

lemma sealed_binds:
  assumes "sealed sha fmt (w, e)" "sealed sha fmt (w', e')" "sealed_bytes fmt (w, e) = sealed_bytes fmt (w', e')"
  shows "bound_fields fmt w e = bound_fields fmt w' e' \<and> au_EntryHash e = au_EntryHash e'"
proof -
  obtain raw where r: "sealed_bytes fmt (w, e) = canonical_entry fmt w e raw" "length raw = 32"
    "au_PreviousHash e = ''sha256:'' @ hex_encode raw" "entry_fields_ok e"
    "au_EntryHash e = ''sha256:'' @ hex_encode (sha (sealed_bytes fmt (w, e)))"
    by (rule sealed_hash [OF assms(1)])
  obtain raw' where r': "sealed_bytes fmt (w', e') = canonical_entry fmt w' e' raw'" "length raw' = 32"
    "au_PreviousHash e' = ''sha256:'' @ hex_encode raw'" "entry_fields_ok e'"
    "au_EntryHash e' = ''sha256:'' @ hex_encode (sha (sealed_bytes fmt (w', e')))"
    by (rule sealed_hash [OF assms(2)])
  have "canonical_entry fmt w e raw = canonical_entry fmt w' e' raw'" using assms(3) r(1) r'(1) by simp
  note same = canonical_inj [OF this, unfolded r(2) r'(2), OF refl]
  with tail_determines [OF r(4) r'(4)] r(3,5) r'(3,5) assms(3) show ?thesis by (simp add: bound_fields_def)
qed

subsection \<open>Hash chains\<close>

text \<open>
  What a chain of sealed items needs from its seal: equal seals come from equal digests, and
  equal sealed bytes from items that agree on everything the seal binds, the link included.
\<close>

locale hash_chain =
  fixes genuine :: "'e \<Rightarrow> bool"
    and link :: "'e \<Rightarrow> 'h"
    and seal :: "'e \<Rightarrow> 'h"
    and bytes :: "'e \<Rightarrow> 'b"
    and digest :: "'b \<Rightarrow> 'd"
    and content :: "'e \<Rightarrow> 'c"
  assumes seal_digest: "genuine a \<Longrightarrow> genuine b \<Longrightarrow> seal a = seal b \<Longrightarrow> digest (bytes a) = digest (bytes b)"
    and bytes_content: "genuine a \<Longrightarrow> genuine b \<Longrightarrow> bytes a = bytes b \<Longrightarrow> content a = content b \<and> link a = link b"
begin

fun linked :: "'h \<Rightarrow> 'e list \<Rightarrow> 'h \<Rightarrow> bool" where
  "linked p [] q \<longleftrightarrow> p = q"
| "linked p (e # es) q \<longleftrightarrow> genuine e \<and> link e = p \<and> linked (seal e) es q"

lemma linked_append: "linked p (xs @ ys) q \<longleftrightarrow> (\<exists>m. linked p xs m \<and> linked m ys q)"
  by (induction xs arbitrary: p) auto

lemma linked_snoc: "linked p (xs @ [e]) q \<longleftrightarrow> linked p xs (link e) \<and> genuine e \<and> seal e = q"
  by (auto simp: linked_append)

definition collision :: "'e list \<Rightarrow> 'e list \<Rightarrow> bool" where
  "collision xs ys \<longleftrightarrow> (\<exists>a \<in> set xs. \<exists>b \<in> set ys. bytes a \<noteq> bytes b \<and> digest (bytes a) = digest (bytes b))"

text \<open>A head commits to the whole chain: equal heads over equally long chains, or a collision.\<close>

lemma head_commits:
  assumes "linked p xs q" and "linked p' ys q" and "length xs = length ys"
  shows "map content xs = map content ys \<or> collision xs ys"
  using assms
proof (induction xs arbitrary: ys q rule: rev_induct)
  case (snoc a xs)
  then obtain b ys' where ys: "ys = ys' @ [b]" by (cases ys rule: rev_cases) auto
  have a: "linked p xs (link a)" "genuine a" "seal a = q" and b: "linked p' ys' (link b)" "genuine b" "seal b = q"
    using snoc.prems by (simp_all add: ys linked_snoc)
  have digests: "digest (bytes a) = digest (bytes b)" by (rule seal_digest [OF a(2) b(2)]) (simp add: a(3) b(3))
  show ?case
  proof (cases "bytes a = bytes b")
    case True
    with a(2) b(2) bytes_content have same: "content a = content b" "link a = link b" by blast+
    have "length xs = length ys'" using snoc.prems(3) by (simp add: ys)
    from snoc.IH [OF a(1) _ this] b(1) same(2) have "map content xs = map content ys' \<or> collision xs ys'" by simp
    then show ?thesis
    proof
      assume "map content xs = map content ys'"
      with same(1) show ?thesis by (simp add: ys)
    next
      assume "collision xs ys'"
      then have "collision (xs @ [a]) ys" unfolding collision_def ys by (metis UnI1 set_append)
      then show ?thesis ..
    qed
  next
    case False
    with digests have "collision (xs @ [a]) ys" unfolding collision_def ys by (metis in_set_conv_decomp)
    then show ?thesis ..
  qed
qed simp

end

interpretation audit: hash_chain "sealed sha fmt" "\<lambda>(w, e). au_PreviousHash e" "\<lambda>(w, e). au_EntryHash e"
  "sealed_bytes fmt" sha "\<lambda>(w, e). (bound_fields fmt w e, au_EntryHash e)" for sha fmt
proof
  fix a b :: "string \<times> Entry"
  assume ab: "sealed sha fmt a" "sealed sha fmt b"
  obtain w e w' e' where [simp]: "a = (w, e)" "b = (w', e')" by (cases a; cases b)
  show "sha (sealed_bytes fmt a) = sha (sealed_bytes fmt b)"
    if "(case a of (w, e) \<Rightarrow> au_EntryHash e) = (case b of (w, e) \<Rightarrow> au_EntryHash e)"
  proof -
    obtain raw where "au_EntryHash e = ''sha256:'' @ hex_encode (sha (sealed_bytes fmt (w, e)))"
      using ab(1) by (auto elim: sealed_hash)
    moreover obtain raw' where "au_EntryHash e' = ''sha256:'' @ hex_encode (sha (sealed_bytes fmt (w', e')))"
      using ab(2) by (auto elim: sealed_hash)
    ultimately show ?thesis using that by (simp add: hex_encode_inj)
  qed
  show "(case a of (w, e) \<Rightarrow> (bound_fields fmt w e, au_EntryHash e)) = (case b of (w, e) \<Rightarrow> (bound_fields fmt w e, au_EntryHash e)) \<and>
    (case a of (w, e) \<Rightarrow> au_PreviousHash e) = (case b of (w, e) \<Rightarrow> au_PreviousHash e)"
    if "sealed_bytes fmt a = sealed_bytes fmt b"
    using sealed_binds [of sha fmt w e w' e'] ab that by (simp add: bound_fields_def)
qed

subsection \<open>Verification refines the chain\<close>

fun numbered :: "64 word \<Rightarrow> Entry list \<Rightarrow> bool" where
  "numbered s [] = True"
| "numbered s (e # es) = (0 < sint s \<and> au_Sequence e = s \<and> numbered (s + 1) es)"

lemma numbered_append: "numbered s (xs @ ys) \<longleftrightarrow> numbered s xs \<and> numbered (s + of_nat (length xs)) ys"
  by (induction xs arbitrary: s) (auto simp: algebra_simps)

text \<open>What a verified run of entries is, with the workspace bound into every item.\<close>

definition verified_run ::
  "(string \<Rightarrow> string) \<Rightarrow> (Time \<Rightarrow> string) \<Rightarrow> string \<Rightarrow> 64 word \<Rightarrow> string \<Rightarrow> Entry list \<Rightarrow> string \<Rightarrow> bool" where
  "verified_run sha fmt w s p es q \<longleftrightarrow> numbered s es \<and> audit.linked sha fmt p (map (Pair w) es) q \<and>
     list_all (\<lambda>e. validHash (au_EntryHash e)) es"

lemma entry_sequence_verified:
  "entry_sequence sha fmt w True s p es = Inr q \<longleftrightarrow> verified_run sha fmt w s p es q"
proof (induction es arbitrary: s p)
  case (Cons e es)
  have fields: "entry_fields_ok e" if "RecomputeEntryHash sha fmt w e = Inr h" for h
    using that by (rule Recompute_Inr)
  show ?case using Cons.IH fields by (auto simp: verified_run_def sealed_pair not_le)
qed (auto simp: verified_run_def)

lemma verified_run_append:
  "verified_run sha fmt w s p (xs @ ys) q \<longleftrightarrow>
     (\<exists>m. verified_run sha fmt w s p xs m \<and> verified_run sha fmt w (s + of_nat (length xs)) m ys q)"
  by (auto simp: verified_run_def numbered_append audit.linked_append)

definition entry_collision ::
  "(string \<Rightarrow> string) \<Rightarrow> (Time \<Rightarrow> string) \<Rightarrow> string \<Rightarrow> Entry list \<Rightarrow> string \<Rightarrow> Entry list \<Rightarrow> bool" where
  "entry_collision sha fmt w es w' es' \<longleftrightarrow> (\<exists>e \<in> set es. \<exists>e' \<in> set es'.
     sealed_bytes fmt (w, e) \<noteq> sealed_bytes fmt (w', e') \<and> sha (sealed_bytes fmt (w, e)) = sha (sealed_bytes fmt (w', e')))"

lemma collision_iff:
  "audit.collision fmt sha (map (Pair w) es) (map (Pair w') es') \<longleftrightarrow> entry_collision sha fmt w es w' es'"
  by (auto simp: audit.collision_def entry_collision_def)

lemma entry_eqI:
  assumes "bound_fields fmt w e = bound_fields fmt w' e'" "au_EntryHash e = au_EntryHash e'" "inj fmt"
    "au_RecordedUTC e" "au_RecordedUTC e'"
  shows "e = e'"
  using assms by (cases e; cases e') (auto simp: bound_fields_def dest: injD)

lemma verified_run_fields: "verified_run sha fmt w s p es q \<Longrightarrow> e \<in> set es \<Longrightarrow> entry_fields_ok e"
proof (induction es arbitrary: s p)
  case (Cons d es)
  then show ?case
    by (cases "e = d") (auto simp: verified_run_def sealed_pair elim: Recompute_Inr)
qed simp

lemma verified_runs_commit:
  assumes "verified_run sha fmt w s p es q" "verified_run sha fmt w' s' p' es' q" "length es = length es'" "inj fmt"
  shows "es = es' \<or> entry_collision sha fmt w es w' es'"
proof -
  have "map (\<lambda>(w, e). (bound_fields fmt w e, au_EntryHash e)) (map (Pair w) es) =
      map (\<lambda>(w, e). (bound_fields fmt w e, au_EntryHash e)) (map (Pair w') es') \<or> entry_collision sha fmt w es w' es'"
    unfolding collision_iff [symmetric] by (rule audit.head_commits [of sha fmt p _ q p']) (use assms in \<open>simp_all add: verified_run_def\<close>)
  moreover have "es = es'" if same: "map (\<lambda>e. (bound_fields fmt w e, au_EntryHash e)) es =
      map (\<lambda>e. (bound_fields fmt w' e, au_EntryHash e)) es'"
  proof (rule nth_equalityI [OF assms(3)])
    fix i assume i: "i < length es"
    then have i': "i < length es'" using assms(3) by simp
    have "(bound_fields fmt w (es ! i), au_EntryHash (es ! i)) = (bound_fields fmt w' (es' ! i), au_EntryHash (es' ! i))"
      using arg_cong [OF same, of "\<lambda>l. l ! i"] i i' by simp
    moreover have "entry_fields_ok (es ! i)" "entry_fields_ok (es' ! i)"
      using verified_run_fields [OF assms(1)] verified_run_fields [OF assms(2)] i i' by simp_all
    ultimately show "es ! i = es' ! i" using assms(4) by (intro entry_eqI [of fmt w _ w']) (simp_all add: entry_fields_ok_def)
  qed
  ultimately show ?thesis by (auto simp: comp_def)
qed

lemma verified_run_last:
  assumes "verified_run sha fmt w s p es q" and "es \<noteq> []"
  shows "sealed sha fmt (w, last es) \<and> au_EntryHash (last es) = q \<and> au_Sequence (last es) = s + of_nat (length es - 1)"
proof -
  obtain xs e where es: "es = xs @ [e]" using assms(2) by (metis append_butlast_last_id)
  from assms(1) show ?thesis by (simp add: es verified_run_def numbered_append audit.linked_snoc)
qed

lemma Export_Verify_Inr:
  "Export_Verify sha fmt ex = Inr () \<longleftrightarrow>
     ex_Schema ex = SchemaV1 \<and> \<not> workspaceInvalid (ex_WorkspaceID ex) \<and> ch_HashAlgorithm (ex_Chain ex) = HashAlgorithm \<and>
     ex_Entries ex \<noteq> [] \<and> length (ex_Entries ex) \<le> MaxEntries \<and>
     ch_HeadSequence (ex_Chain ex) = of_nat (length (ex_Entries ex)) \<and> validHash (ch_HeadHash (ex_Chain ex)) \<and>
     verified_run sha fmt (ex_WorkspaceID ex) 1 zeroHash (ex_Entries ex) (ch_HeadHash (ex_Chain ex))"
  unfolding Export_Verify_def Export_VerifyForWorkspace_def Export_validateForWorkspace_def validateEntrySequence_def
    entry_sequence_verified [symmetric]
  by (auto simp: rbind_eq_Inr not_less split: if_splits)

subsection \<open>Properties\<close>

text \<open>
  C6: the head hash of an audit export is a binding commitment. Two exports that pass offline
  verification and carry the same head hash are the same document, workspace, length and every
  field of every entry included, unless they exhibit two different entry encodings with the
  same SHA-256 digest. (The time formatter is assumed to print different instants differently.)
\<close>
theorem export_head_commits:
  assumes "Export_Verify sha fmt ex = Inr ()" and "Export_Verify sha fmt ex' = Inr ()"
    and "ch_HeadHash (ex_Chain ex) = ch_HeadHash (ex_Chain ex')" and "inj fmt"
  shows "ex = ex' \<or> entry_collision sha fmt (ex_WorkspaceID ex) (ex_Entries ex) (ex_WorkspaceID ex') (ex_Entries ex')"
proof -
  note v = assms(1) [unfolded Export_Verify_Inr] and v' = assms(2) [unfolded Export_Verify_Inr]
  let ?w = "ex_WorkspaceID ex" and ?w' = "ex_WorkspaceID ex'" and ?es = "ex_Entries ex" and ?es' = "ex_Entries ex'"
  have run: "verified_run sha fmt ?w 1 zeroHash ?es (ch_HeadHash (ex_Chain ex))" and ne: "?es \<noteq> []"
    and run': "verified_run sha fmt ?w' 1 zeroHash ?es' (ch_HeadHash (ex_Chain ex))" and ne': "?es' \<noteq> []"
    using v v' assms(3) by simp_all
  note l = verified_run_last [OF run ne] and l' = verified_run_last [OF run' ne']
  show ?thesis
  proof (cases "sealed_bytes fmt (?w, last ?es) = sealed_bytes fmt (?w', last ?es')")
    case False
    have "sha (sealed_bytes fmt (?w, last ?es)) = sha (sealed_bytes fmt (?w', last ?es'))"
      using audit.seal_digest [of sha fmt "(?w, last ?es)" "(?w', last ?es')"] l l' by simp
    with False last_in_set [OF ne] last_in_set [OF ne'] show ?thesis unfolding entry_collision_def by blast
  next
    case True
    with sealed_binds [OF _ _ True] l l' have same: "?w = ?w'" "au_Sequence (last ?es) = au_Sequence (last ?es')"
      by (auto simp: bound_fields_def)
    have "of_nat (length ?es) = (of_nat (length ?es') :: 64 word)"
      using same(2) l l' ne ne' by (simp add: of_nat_diff Suc_leI)
    moreover have "length ?es < 2 ^ 64" "length ?es' < 2 ^ 64" using v v' by simp_all
    ultimately have len: "length ?es = length ?es'"
      by (simp add: word_of_nat_eq_iff take_bit_nat_eq_self)
    from verified_runs_commit [OF run run' len assms(4)] same(1) v v' assms(3) len show ?thesis
      by (cases ex; cases ex'; cases "ex_Chain ex"; cases "ex_Chain ex'") auto
  qed
qed

definition toy_sha :: "string \<Rightarrow> string" where
  "toy_sha s = replicate 24 NUL @ be_bytes 8 (sum_list (map byte_of s))"

definition sample_entry_head :: Entry where
  "sample_entry_head = \<lparr>au_Sequence = 1, au_FormatVersion = 1, au_RecordedAt = 5000, au_RecordedUTC = True,
     au_TraceID = replicate 32 CHR ''a'', au_Actor = ''alice'', au_Role = RoleReader, au_Action = ActionRead,
     au_Verb = VerbFleetRead, au_Verdict = VerdictAllow, au_ReasonCode = ''read-allowed'',
     au_EventKind = ''policy-decision'', au_EvidenceDigest = [], au_PreviousHash = zeroHash, au_EntryHash = []\<rparr>"

definition seal_entry :: "Entry \<Rightarrow> Entry" where
  "seal_entry e = e\<lparr>au_EntryHash := (case RecomputeEntryHash toy_sha int_decimal ''local'' e of Inr h \<Rightarrow> h | Inl _ \<Rightarrow> [])\<rparr>"

definition sample_entries :: "Entry list" where
  "sample_entries =
     (let e1 = seal_entry sample_entry_head;
          e2 = seal_entry (sample_entry_head\<lparr>au_Sequence := 2, au_RecordedAt := 7000, au_PreviousHash := au_EntryHash e1\<rparr>)
      in [e1, e2])"

definition sample_export :: Export where
  "sample_export = \<lparr>ex_Schema = SchemaV1, ex_WorkspaceID = ''local'',
     ex_Chain = \<lparr>ch_HashAlgorithm = HashAlgorithm, ch_HeadSequence = 2, ch_HeadHash = au_EntryHash (sample_entries ! 1)\<rparr>,
     ex_Entries = sample_entries\<rparr>"

lemma sample_export_ok: "Export_Verify toy_sha int_decimal sample_export = Inr ()"
  by code_simp

lemma inj_int_decimal: "inj int_decimal"
  by (simp add: inj_def int_decimal_inj)

theorem export_head_commits_witness:
  "length (ex_Entries sample_export) = 2 \<and> Export_Verify toy_sha int_decimal sample_export = Inr () \<and>
   (sample_export = sample_export \<or> entry_collision toy_sha int_decimal (ex_WorkspaceID sample_export)
      (ex_Entries sample_export) (ex_WorkspaceID sample_export) (ex_Entries sample_export))"
proof -
  have "length (ex_Entries sample_export) = 2" by code_simp
  with export_head_commits [OF sample_export_ok sample_export_ok refl inj_int_decimal] sample_export_ok
  show ?thesis by blast
qed

end
