(* ===== verification/Audit_Page.thy ===== *)
theory Audit_Page
  imports Audit_Chain
begin

text \<open>
  Paged audit exports (\<open>internal/auditrecord/page.go\<close>): the fixed-size continuation cursor, page
  validation against a request and a snapshot, and the incremental verifier over an ordered
  sequence of pages. int64 arithmetic is 64-bit word arithmetic, read with \<open>sint\<close>.
\<close>

subsection \<open>Pages, requests and cursors\<close>

abbreviation PageSchemaV1 :: string where "PageSchemaV1 \<equiv> ''sith.policy-audit-page/v1''"
abbreviation PageCursorChars :: nat where "PageCursorChars \<equiv> 151"
abbreviation pageCursorBytes :: nat where "pageCursorBytes \<equiv> 113"
abbreviation pageCursorDomain :: string where "pageCursorDomain \<equiv> ''sith-policy-audit-page-cursor/v1''"

definition pageCursorVersion :: char where
  "pageCursorVersion = char_of (1 :: nat)"

record Page =
  pg_Schema :: string
  pg_WorkspaceID :: string
  pg_Snapshot :: Chain
  pg_StartSequence :: "64 word"
  pg_PreviousHash :: string
  pg_Entries :: "Entry list"
  pg_NextCursor :: string

record PageRequest =
  pr_workspaceDigest :: string
  pr_initial :: bool
  pr_headSequence :: "64 word"
  pr_headHash :: string
  pr_nextSequence :: "64 word"
  pr_previousHash :: string

datatype page_error =
    FirstPageWorkspaceInvalid
  | CursorInvalid
  | CursorBoundaryInvalid
  | CanonicalCursorInvalid
  | RequestWorkspaceInvalid
  | FirstRequestInvalid
  | ContinuationRequestInvalid
  | PageRequestMismatch
  | PageEnvelopeInvalid
  | PageRangeInvalid
  | PageEntries audit_error
  | FinalPageHeadInvalid
  | IntermediateBoundaryInvalid
  | IntermediateCursorInvalid
  | SequenceClosed
  | PageNotVerified page_error
  | NotFromGenesis
  | SnapshotInconsistent
  | OrderInvalid
  | SequenceIncomplete

definition pageWorkspaceDigest :: "(string \<Rightarrow> string) \<Rightarrow> string \<Rightarrow> string" where
  "pageWorkspaceDigest sha w = sha (appendCanonicalString (appendCanonicalString [] pageCursorDomain) w)"

definition decodeHash :: "string \<Rightarrow> string option" where
  "decodeHash value =
     (if \<not> validHash value then None
      else case hex_decode (drop 7 value) of
        None \<Rightarrow> None
      | Some decoded \<Rightarrow> if length decoded \<noteq> 32 then None else Some decoded)"

definition FirstPage :: "(string \<Rightarrow> string) \<Rightarrow> string \<Rightarrow> (page_error, PageRequest) result" where
  "FirstPage sha w =
     (if workspaceInvalid w then Inl FirstPageWorkspaceInvalid
      else Inr \<lparr>pr_workspaceDigest = pageWorkspaceDigest sha w, pr_initial = True, pr_headSequence = 0, pr_headHash = [],
        pr_nextSequence = 0, pr_previousHash = []\<rparr>)"

definition PageRequest_ValidateForWorkspace ::
  "(string \<Rightarrow> string) \<Rightarrow> PageRequest \<Rightarrow> string \<Rightarrow> (page_error, unit) result" where
  "PageRequest_ValidateForWorkspace sha rq w =
     (if workspaceInvalid w then Inl RequestWorkspaceInvalid
      else if pr_workspaceDigest rq \<noteq> pageWorkspaceDigest sha w then Inl RequestWorkspaceInvalid
      else if pr_initial rq then
        (if pr_headSequence rq \<noteq> 0 \<or> pr_headHash rq \<noteq> [] \<or> pr_nextSequence rq \<noteq> 0 \<or> pr_previousHash rq \<noteq> []
         then Inl FirstRequestInvalid else Inr ())
      else if sint (pr_headSequence rq) \<le> 1 \<or> sint (pr_nextSequence rq) \<le> 1 \<or>
          sint (pr_nextSequence rq) > sint (pr_headSequence rq) \<or> \<not> validHash (pr_headHash rq) \<or> \<not> validHash (pr_previousHash rq)
        then Inl ContinuationRequestInvalid
      else Inr ())"

text \<open>Bytes \<open>[i:j]\<close> of a slice.\<close>

definition byte_slice :: "nat \<Rightarrow> nat \<Rightarrow> string \<Rightarrow> string" where
  "byte_slice i j s = take (j - i) (drop i s)"

definition ContinuePage :: "(string \<Rightarrow> string) \<Rightarrow> string \<Rightarrow> string \<Rightarrow> (page_error, PageRequest) result" where
  "ContinuePage sha w encoded =
     (if workspaceInvalid w \<or> length encoded \<noteq> PageCursorChars then Inl CursorInvalid
      else case b64_decode_strict encoded of
        None \<Rightarrow> Inl CursorInvalid
      | Some payload \<Rightarrow>
          if length payload \<noteq> pageCursorBytes \<or> b64_encode payload \<noteq> encoded \<or> hd payload \<noteq> pageCursorVersion
          then Inl CursorInvalid
          else if byte_slice 1 33 payload \<noteq> pageWorkspaceDigest sha w then Inl CursorInvalid
          else let headUnsigned = Uint64 (byte_slice 33 41 payload); nextUnsigned = Uint64 (byte_slice 73 81 payload) in
            if unat headUnsigned > 2 ^ 63 - 1 \<or> unat nextUnsigned > 2 ^ 63 - 1 then Inl CursorInvalid
            else let request = \<lparr>pr_workspaceDigest = pageWorkspaceDigest sha w, pr_initial = False,
                   pr_headSequence = headUnsigned, pr_headHash = ''sha256:'' @ hex_encode (byte_slice 41 73 payload),
                   pr_nextSequence = nextUnsigned, pr_previousHash = ''sha256:'' @ hex_encode (byte_slice 81 113 payload)\<rparr>
              in if \<not> is_ok (PageRequest_ValidateForWorkspace sha request w) then Inl CursorInvalid else Inr request)"

definition EncodePageCursor ::
  "(string \<Rightarrow> string) \<Rightarrow> string \<Rightarrow> 64 word \<Rightarrow> string \<Rightarrow> 64 word \<Rightarrow> string \<Rightarrow> (page_error, string) result" where
  "EncodePageCursor sha w headSequence headHash nextSequence previousHash =
     (if workspaceInvalid w \<or> sint headSequence \<le> 1 \<or> sint nextSequence \<le> 1 \<or> sint nextSequence > sint headSequence \<or>
         \<not> validHash headHash \<or> \<not> validHash previousHash then Inl CursorBoundaryInvalid
      else case (decodeHash headHash, decodeHash previousHash) of
        (Some headBytes, Some previousBytes) \<Rightarrow>
          let payload = [pageCursorVersion] @ pageWorkspaceDigest sha w @ PutUint64 headSequence @ headBytes @
                PutUint64 nextSequence @ previousBytes;
              encoded = b64_encode payload
          in if length encoded \<noteq> PageCursorChars then Inl CanonicalCursorInvalid else Inr encoded
      | _ \<Rightarrow> Inl CursorBoundaryInvalid)"

subsection \<open>Validating a page\<close>

definition page_end :: "Page \<Rightarrow> 64 word" where
  "page_end page = pg_StartSequence page + of_nat (length (pg_Entries page)) - 1"

definition Page_validateForWorkspace ::
  "(string \<Rightarrow> string) \<Rightarrow> (Time \<Rightarrow> string) \<Rightarrow> Page \<Rightarrow> string \<Rightarrow> bool \<Rightarrow> (page_error, unit) result" where
  "Page_validateForWorkspace sha fmt page w verifyHashes =
     (if pg_Schema page \<noteq> PageSchemaV1 \<or> pg_WorkspaceID page \<noteq> w \<or> workspaceInvalid w \<or>
         ch_HashAlgorithm (pg_Snapshot page) \<noteq> HashAlgorithm \<or> sint (ch_HeadSequence (pg_Snapshot page)) \<le> 0 \<or>
         \<not> validHash (ch_HeadHash (pg_Snapshot page)) \<or> sint (pg_StartSequence page) \<le> 0 \<or>
         \<not> validHash (pg_PreviousHash page) \<or> pg_Entries page = [] \<or> length (pg_Entries page) > MaxEntries
      then Inl PageEnvelopeInvalid
      else if sint (page_end page) < sint (pg_StartSequence page) \<or>
          sint (page_end page) > sint (ch_HeadSequence (pg_Snapshot page)) then Inl PageRangeInvalid
      else case validateEntrySequence sha fmt w (pg_Entries page) (pg_StartSequence page) (pg_PreviousHash page) verifyHashes of
        Inl e \<Rightarrow> Inl (PageEntries e)
      | Inr lastHash \<Rightarrow>
          if page_end page = ch_HeadSequence (pg_Snapshot page) then
            (if pg_NextCursor page \<noteq> [] \<or> lastHash \<noteq> ch_HeadHash (pg_Snapshot page) then Inl FinalPageHeadInvalid else Inr ())
          else if length (pg_Entries page) \<noteq> MaxEntries \<or> pg_NextCursor page = [] then Inl IntermediateBoundaryInvalid
          else case ContinuePage sha w (pg_NextCursor page) of
            Inl _ \<Rightarrow> Inl IntermediateCursorInvalid
          | Inr next \<Rightarrow>
              if pr_headSequence next \<noteq> ch_HeadSequence (pg_Snapshot page) \<or> pr_headHash next \<noteq> ch_HeadHash (pg_Snapshot page) \<or>
                 pr_nextSequence next \<noteq> page_end page + 1 \<or> pr_previousHash next \<noteq> lastHash
              then Inl IntermediateCursorInvalid else Inr ())"

definition PageRequest_ValidatePage ::
  "(string \<Rightarrow> string) \<Rightarrow> (Time \<Rightarrow> string) \<Rightarrow> PageRequest \<Rightarrow> Page \<Rightarrow> (page_error, unit) result" where
  "PageRequest_ValidatePage sha fmt rq page =
     (if \<not> is_ok (PageRequest_ValidateForWorkspace sha rq (pg_WorkspaceID page)) then Inl PageRequestMismatch
      else if \<not> is_ok (Page_validateForWorkspace sha fmt page (pg_WorkspaceID page) False) then Inl PageRequestMismatch
      else if pr_initial rq then
        (if pg_StartSequence page \<noteq> 1 \<or> pg_PreviousHash page \<noteq> zeroHash then Inl PageRequestMismatch else Inr ())
      else if ch_HeadSequence (pg_Snapshot page) \<noteq> pr_headSequence rq \<or> ch_HeadHash (pg_Snapshot page) \<noteq> pr_headHash rq \<or>
          pg_StartSequence page \<noteq> pr_nextSequence rq \<or> pg_PreviousHash page \<noteq> pr_previousHash rq
        then Inl PageRequestMismatch
      else Inr ())"

subsection \<open>Verifying a sequence of pages\<close>

record PageSequenceResult =
  ps_Schema :: string
  ps_WorkspaceID :: string
  ps_Pages :: nat
  ps_Entries :: "64 word"
  ps_Chain :: Chain

record PageSequenceVerifier =
  pv_initialized :: bool
  pv_complete :: bool
  pv_workspaceID :: string
  pv_chain :: Chain
  pv_nextSequence :: "64 word"
  pv_previousHash :: string
  pv_pages :: nat

definition new_verifier :: PageSequenceVerifier where
  "new_verifier = \<lparr>pv_initialized = False, pv_complete = False, pv_workspaceID = [],
     pv_chain = \<lparr>ch_HashAlgorithm = [], ch_HeadSequence = 0, ch_HeadHash = []\<rparr>, pv_nextSequence = 0,
     pv_previousHash = [], pv_pages = 0\<rparr>"

definition Verifier_Add ::
  "(string \<Rightarrow> string) \<Rightarrow> (Time \<Rightarrow> string) \<Rightarrow> Page \<Rightarrow> PageSequenceVerifier
     \<Rightarrow> (page_error, unit) result \<times> PageSequenceVerifier" where
  "Verifier_Add sha fmt page v =
     (if pv_complete v then (Inl SequenceClosed, v)
      else let w = pg_WorkspaceID page in
        case Page_validateForWorkspace sha fmt page w True of
          Inl e \<Rightarrow> (Inl (PageNotVerified e), v)
        | Inr _ \<Rightarrow>
            if \<not> pv_initialized v \<and> (pg_StartSequence page \<noteq> 1 \<or> pg_PreviousHash page \<noteq> zeroHash) then (Inl NotFromGenesis, v)
            else if pv_initialized v \<and> (w \<noteq> pv_workspaceID v \<or> pg_Snapshot page \<noteq> pv_chain v) then (Inl SnapshotInconsistent, v)
            else
              let v = (if \<not> pv_initialized v
                       then v\<lparr>pv_initialized := True, pv_workspaceID := w, pv_chain := pg_Snapshot page,
                              pv_nextSequence := 1, pv_previousHash := zeroHash\<rparr> else v) in
              if pg_StartSequence page \<noteq> pv_nextSequence v \<or> pg_PreviousHash page \<noteq> pv_previousHash v then (Inl OrderInvalid, v)
              else
                (Inr (), v\<lparr>pv_nextSequence := page_end page + 1,
                  pv_previousHash := au_EntryHash (last (pg_Entries page)), pv_pages := pv_pages v + 1,
                  pv_complete := (if pg_NextCursor page = [] then True else pv_complete v)\<rparr>))"

definition Verifier_Finish :: "PageSequenceVerifier \<Rightarrow> (page_error, PageSequenceResult) result" where
  "Verifier_Finish v =
     (if \<not> pv_initialized v \<or> \<not> pv_complete v \<or> pv_nextSequence v - 1 \<noteq> ch_HeadSequence (pv_chain v) \<or>
         pv_previousHash v \<noteq> ch_HeadHash (pv_chain v) then Inl SequenceIncomplete
      else Inr \<lparr>ps_Schema = PageSchemaV1, ps_WorkspaceID = pv_workspaceID v, ps_Pages = pv_pages v,
        ps_Entries = ch_HeadSequence (pv_chain v), ps_Chain = pv_chain v\<rparr>)"

text \<open>Feeding documents in order; the caller stops at the first error.\<close>

fun add_pages ::
  "(string \<Rightarrow> string) \<Rightarrow> (Time \<Rightarrow> string) \<Rightarrow> Page list \<Rightarrow> PageSequenceVerifier \<Rightarrow> (page_error, PageSequenceVerifier) result" where
  "add_pages sha fmt [] v = Inr v"
| "add_pages sha fmt (p # ps) v =
     (case Verifier_Add sha fmt p v of (Inl e, _) \<Rightarrow> Inl e | (Inr _, v') \<Rightarrow> add_pages sha fmt ps v')"

subsection \<open>64-bit integers\<close>

lemma uint64_range: "0 \<le> uint (x :: 64 word)" "uint x < 18446744073709551616"
  using uint_lt2p [of x] by simp_all

lemma sint64: "sint (x :: 64 word) = (if uint x < 9223372036854775808 then uint x else uint x - 18446744073709551616)"
proof -
  have s: "sint x = (uint x + 9223372036854775808) mod 18446744073709551616 - 9223372036854775808"
    by (simp add: sint_uint signed_take_bit_eq_take_bit_shift take_bit_eq_mod)
  show ?thesis
  proof (cases "uint x < 9223372036854775808")
    case True
    with uint64_range [of x] show ?thesis by (simp add: s)
  next
    case False
    have "(uint x + 9223372036854775808) mod 18446744073709551616 =
        (uint x - 9223372036854775808 + 18446744073709551616) mod 18446744073709551616"
      by (rule arg_cong [of _ _ "\<lambda>y. y mod 18446744073709551616"]) simp
    also have "\<dots> = uint x - 9223372036854775808"
      unfolding mod_add_self2 using False uint64_range [of x] by (intro mod_pos_pos_trivial) simp_all
    finally show ?thesis using False by (simp add: s)
  qed
qed

lemma sint64_pos: "0 < sint (x :: 64 word) \<Longrightarrow> unat x < 2 ^ 63"
proof -
  assume "0 < sint x"
  then have "uint x < 9223372036854775808" using uint64_range [of x] by (simp add: sint64 split: if_splits)
  then have "int (unat x) < int (2 ^ 63)" by simp
  then show ?thesis by (simp only: of_nat_less_iff)
qed

lemma uint_offset: "uint (s + of_nat n :: 64 word) = (uint s + int n) mod 18446744073709551616"
  by (simp add: uint_word_ariths unsigned_of_nat take_bit_eq_mod zmod_int mod_add_right_eq)

lemma sint_pred: "0 < sint (x :: 64 word) \<Longrightarrow> sint (x - 1) = sint x - 1"
proof -
  assume pos: "0 < sint x"
  have x: "0 < uint x" "uint x < 9223372036854775808" using pos uint64_range [of x] by (auto simp: sint64 split: if_splits)
  have "uint (x - 1) = uint x - 1" using x by (simp add: uint_word_ariths)
  with x show ?thesis by (simp add: sint64)
qed

text \<open>A page whose range check passed does not wrap around.\<close>

lemma page_no_wrap:
  fixes s :: "64 word"
  assumes "0 < sint s" "0 < n" "n \<le> MaxEntries" "sint s \<le> sint (s + of_nat n - 1)"
  shows "sint (s + of_nat n - 1) = sint s + int n - 1"
proof -
  have s: "sint s = uint s" "uint s < 9223372036854775808" using assms(1) uint64_range [of s] by (auto simp: sint64 split: if_splits)
  have "s + of_nat n - 1 = s + of_nat (n - 1)" using assms(2) by (simp add: of_nat_diff)
  then have u: "uint (s + of_nat n - 1) = (uint s + int (n - 1)) mod 18446744073709551616" by (simp only: uint_offset)
  have "uint s + int (n - 1) < 18446744073709551616" "0 \<le> uint s + int (n - 1)" using s(2) assms(3) uint64_range [of s] by simp_all
  with u have u': "uint (s + of_nat n - 1) = uint s + int (n - 1)" by simp
  then have "uint (s + of_nat n - 1) < 9223372036854775808"
    using assms(4) assms(3) s by (simp add: sint64 split: if_splits)
  with u' s assms(2) show ?thesis by (simp add: sint64 of_nat_diff)
qed

subsection \<open>The cursor round trip\<close>

lemma payload_parts:
  assumes "length payload = 113"
  shows "payload = [hd payload] @ byte_slice 1 33 payload @ byte_slice 33 41 payload @ byte_slice 41 73 payload @
    byte_slice 73 81 payload @ byte_slice 81 113 payload"
proof -
  have slice: "drop i payload = byte_slice i j payload @ drop j payload" if "i \<le> j" for i j
    using that append_take_drop_id [of "j - i" "drop i payload"] by (simp add: byte_slice_def)
  have "payload = hd payload # drop 1 payload" using assms by (cases payload) auto
  also have "drop 1 payload = byte_slice 1 33 payload @ byte_slice 33 41 payload @ byte_slice 41 73 payload @
      byte_slice 73 81 payload @ byte_slice 81 113 payload @ drop 113 payload"
    using slice [of 1 33] slice [of 33 41] slice [of 41 73] slice [of 73 81] slice [of 81 113] by simp
  finally show ?thesis using assms by simp
qed

lemma decodeHash_hex: "length raw = 32 \<Longrightarrow> decodeHash (''sha256:'' @ hex_encode raw) = Some raw"
  using hex_hash_valid [of raw] by (simp add: decodeHash_def hex_roundtrip)

lemma decodeHash_Some:
  assumes "decodeHash h = Some raw"
  shows "length raw = 32 \<and> h = ''sha256:'' @ hex_encode raw"
proof -
  have v: "validHash h" using assms by (auto simp: decodeHash_def split: if_splits)
  then obtain raw' where "length raw' = 32" "h = ''sha256:'' @ hex_encode raw'" by (rule validHash_decode)
  with assms decodeHash_hex [of raw'] show ?thesis by simp
qed

lemma cursor_payload_slices:
  assumes "length d = 32" "length hb = 32" "length pb = 32"
    and "payload = [c] @ d @ PutUint64 hs @ hb @ PutUint64 ns @ pb"
  shows "length payload = 113" "hd payload = c" "byte_slice 1 33 payload = d" "byte_slice 33 41 payload = PutUint64 hs"
    "byte_slice 41 73 payload = hb" "byte_slice 73 81 payload = PutUint64 ns" "byte_slice 81 113 payload = pb"
  using assms by (simp_all add: byte_slice_def)

text \<open>
  The page cursor is a canonical encoding. A string parses as a continuation of a workspace
  exactly when it is the encoding of that continuation's snapshot and boundary for that
  workspace, so encoding then parsing returns every component unchanged, and no second string
  parses to the same continuation. (SHA-256 yields 32 bytes.)
\<close>
theorem cursor_canonical:
  assumes "\<forall>s. length (sha s) = 32"
  shows "ContinuePage sha w encoded = Inr rq \<longleftrightarrow>
    \<not> pr_initial rq \<and> pr_workspaceDigest rq = pageWorkspaceDigest sha w \<and>
    EncodePageCursor sha w (pr_headSequence rq) (pr_headHash rq) (pr_nextSequence rq) (pr_previousHash rq) = Inr encoded"
  (is "?parsed \<longleftrightarrow> ?encoded")
proof
  let ?d = "pageWorkspaceDigest sha w"
  have d: "length ?d = 32" using assms by (simp add: pageWorkspaceDigest_def)
  {
    assume ?parsed
    then obtain payload where p: "b64_decode_strict encoded = Some payload" "length payload = 113" "b64_encode payload = encoded"
      "hd payload = pageCursorVersion" "byte_slice 1 33 payload = ?d" "\<not> workspaceInvalid w" "length encoded = PageCursorChars"
      and rq: "rq = \<lparr>pr_workspaceDigest = ?d, pr_initial = False,
         pr_headSequence = Uint64 (byte_slice 33 41 payload), pr_headHash = ''sha256:'' @ hex_encode (byte_slice 41 73 payload),
         pr_nextSequence = Uint64 (byte_slice 73 81 payload), pr_previousHash = ''sha256:'' @ hex_encode (byte_slice 81 113 payload)\<rparr>"
      and ok: "is_ok (PageRequest_ValidateForWorkspace sha rq w)"
      by (auto simp: ContinuePage_def Let_def split: if_splits option.splits)
    have len: "length (byte_slice 33 41 payload) = 8" "length (byte_slice 41 73 payload) = 32"
      "length (byte_slice 73 81 payload) = 8" "length (byte_slice 81 113 payload) = 32"
      using p(2) by (simp_all add: byte_slice_def)
    have hashes: "decodeHash (pr_headHash rq) = Some (byte_slice 41 73 payload)"
      "decodeHash (pr_previousHash rq) = Some (byte_slice 81 113 payload)"
      using decodeHash_hex [OF len(2)] decodeHash_hex [OF len(4)] by (simp_all only: rq PageRequest.select_convs)
    have "[pageCursorVersion] @ ?d @ PutUint64 (pr_headSequence rq) @ byte_slice 41 73 payload @
        PutUint64 (pr_nextSequence rq) @ byte_slice 81 113 payload = payload"
      using payload_parts [OF p(2)] p(4,5) len by (simp add: rq PutUint64_Uint64)
    with ok p hashes show ?encoded
      by (simp add: EncodePageCursor_def PageRequest_ValidateForWorkspace_def Let_def rq split: if_splits)
  }
  {
    assume e: ?encoded
    then obtain hb pb where h: "decodeHash (pr_headHash rq) = Some hb" "decodeHash (pr_previousHash rq) = Some pb"
      and enc: "encoded = b64_encode ([pageCursorVersion] @ ?d @ PutUint64 (pr_headSequence rq) @ hb @
          PutUint64 (pr_nextSequence rq) @ pb)"
      and ok: "\<not> workspaceInvalid w" "1 < sint (pr_headSequence rq)" "1 < sint (pr_nextSequence rq)"
        "sint (pr_nextSequence rq) \<le> sint (pr_headSequence rq)" "validHash (pr_headHash rq)" "validHash (pr_previousHash rq)"
        "length encoded = PageCursorChars"
      by (auto simp: EncodePageCursor_def Let_def not_le not_less split: if_splits option.splits)
    define payload where "payload = [pageCursorVersion] @ ?d @ PutUint64 (pr_headSequence rq) @ hb @
          PutUint64 (pr_nextSequence rq) @ pb"
    have raw: "length hb = 32" "pr_headHash rq = ''sha256:'' @ hex_encode hb" "length pb = 32"
      "pr_previousHash rq = ''sha256:'' @ hex_encode pb"
      using decodeHash_Some [OF h(1)] decodeHash_Some [OF h(2)] by simp_all
    note sl = cursor_payload_slices [OF d raw(1,3) payload_def]
    have small: "unat (pr_headSequence rq) \<le> 2 ^ 63 - 1" "unat (pr_nextSequence rq) \<le> 2 ^ 63 - 1"
      using sint64_pos [of "pr_headSequence rq"] sint64_pos [of "pr_nextSequence rq"] ok(2,3) by simp_all
    have rq: "rq = \<lparr>pr_workspaceDigest = ?d, pr_initial = False, pr_headSequence = pr_headSequence rq,
        pr_headHash = ''sha256:'' @ hex_encode hb, pr_nextSequence = pr_nextSequence rq,
        pr_previousHash = ''sha256:'' @ hex_encode pb\<rparr>"
      using e raw by (cases rq) simp
    have valid: "is_ok (PageRequest_ValidateForWorkspace sha rq w)"
      using e ok by (simp add: PageRequest_ValidateForWorkspace_def not_le not_less)
    have dec: "b64_decode_strict encoded = Some payload" by (simp only: enc b64_roundtrip payload_def)
    have again: "b64_encode payload = encoded" by (simp only: enc payload_def)
    show ?parsed
      using ok(1,7) dec again small valid sl rq by (simp add: ContinuePage_def Let_def)
  }
qed

lemma toy_sha_length: "length (toy_sha s) = 32"
  by (simp add: toy_sha_def)

definition sample_cursor :: "(page_error, string) result" where
  "sample_cursor = EncodePageCursor toy_sha ''local'' 700 zeroHash 513 zeroHash"

theorem cursor_canonical_witness:
  "\<exists>encoded rq. sample_cursor = Inr encoded \<and> ContinuePage toy_sha ''local'' encoded = Inr rq \<and>
     pr_headSequence rq = 700 \<and> pr_nextSequence rq = 513"
proof -
  have "is_ok sample_cursor" by code_simp
  then obtain encoded where e: "sample_cursor = Inr encoded" by (auto simp: is_ok_iff)
  define rq where "rq = \<lparr>pr_workspaceDigest = pageWorkspaceDigest toy_sha ''local'', pr_initial = False,
    pr_headSequence = 700, pr_headHash = zeroHash, pr_nextSequence = 513, pr_previousHash = zeroHash\<rparr>"
  have "\<forall>s. length (toy_sha s) = 32" by (simp add: toy_sha_length)
  from cursor_canonical [OF this, of "''local''" encoded rq] e have "ContinuePage toy_sha ''local'' encoded = Inr rq"
    by (simp add: sample_cursor_def rq_def)
  with e show ?thesis by (intro exI [of _ encoded] exI [of _ rq]) (simp add: rq_def)
qed

subsection \<open>A verified page sequence is the whole chain\<close>

lemma verified_run_last_hash:
  "verified_run sha fmt w s p es q \<Longrightarrow> es \<noteq> [] \<Longrightarrow> au_EntryHash (last es) = q"
  using verified_run_last by blast

lemma page_verified:
  assumes "Page_validateForWorkspace sha fmt page w True = Inr ()"
  shows "verified_run sha fmt w (pg_StartSequence page) (pg_PreviousHash page) (pg_Entries page)
      (au_EntryHash (last (pg_Entries page))) \<and> pg_Entries page \<noteq> [] \<and> \<not> workspaceInvalid w \<and>
    sint (page_end page) = sint (pg_StartSequence page) + int (length (pg_Entries page)) - 1"
proof -
  let ?es = "pg_Entries page"
  have env: "\<not> workspaceInvalid w" "?es \<noteq> []" "length ?es \<le> MaxEntries" "0 < sint (pg_StartSequence page)"
    "sint (pg_StartSequence page) \<le> sint (page_end page)"
    using assms by (auto simp: Page_validateForWorkspace_def not_le not_less split: if_splits)
  obtain q where "entry_sequence sha fmt w True (pg_StartSequence page) (pg_PreviousHash page) ?es = Inr q"
    using assms by (auto simp: Page_validateForWorkspace_def validateEntrySequence_def split: if_splits sum.splits)
  then have run: "verified_run sha fmt w (pg_StartSequence page) (pg_PreviousHash page) ?es q"
    by (simp add: entry_sequence_verified)
  have "sint (page_end page) = sint (pg_StartSequence page) + int (length ?es) - 1"
    using page_no_wrap [OF env(4), of "length ?es"] env by (simp add: page_end_def)
  with env run verified_run_last_hash [OF run env(2)] show ?thesis by simp
qed

definition verifier_inv ::
  "(string \<Rightarrow> string) \<Rightarrow> (Time \<Rightarrow> string) \<Rightarrow> Entry list \<Rightarrow> nat \<Rightarrow> PageSequenceVerifier \<Rightarrow> bool" where
  "verifier_inv sha fmt es n v \<longleftrightarrow>
     pv_pages v = n \<and>
     (if pv_initialized v then
        verified_run sha fmt (pv_workspaceID v) 1 zeroHash es (pv_previousHash v) \<and> es \<noteq> [] \<and>
        \<not> workspaceInvalid (pv_workspaceID v) \<and>
        pv_nextSequence v = 1 + of_nat (length es) \<and> sint (pv_nextSequence v - 1) = int (length es)
      else es = [])"

lemma verifier_inv_new: "verifier_inv sha fmt [] 0 new_verifier"
  by (simp add: verifier_inv_def new_verifier_def)

lemma Verifier_Add_ok:
  assumes "Verifier_Add sha fmt page v = (Inr (), v')"
  shows "Page_validateForWorkspace sha fmt page (pg_WorkspaceID page) True = Inr ()"
    and "pv_initialized v' \<and> pv_workspaceID v' = pg_WorkspaceID page \<and> pv_chain v' = pg_Snapshot page \<and>
      pv_nextSequence v' = page_end page + 1 \<and> pv_previousHash v' = au_EntryHash (last (pg_Entries page)) \<and>
      pv_pages v' = pv_pages v + 1"
    and "if pv_initialized v then pg_WorkspaceID page = pv_workspaceID v \<and> pg_StartSequence page = pv_nextSequence v \<and>
        pg_PreviousHash page = pv_previousHash v
      else pg_StartSequence page = 1 \<and> pg_PreviousHash page = zeroHash"
  using assms by (auto simp: Verifier_Add_def Let_def split: if_splits sum.splits)

lemma verifier_inv_Add:
  assumes "verifier_inv sha fmt es n v" and "Verifier_Add sha fmt page v = (Inr (), v')"
  shows "verifier_inv sha fmt (es @ pg_Entries page) (Suc n) v'"
proof -
  note ok = Verifier_Add_ok [OF assms(2)] and pv = page_verified [OF Verifier_Add_ok(1) [OF assms(2)]]
  have start: "pg_StartSequence page = 1 + of_nat (length es)"
    "verified_run sha fmt (pg_WorkspaceID page) 1 zeroHash es (pg_PreviousHash page)"
    using ok(3) assms(1) by (auto simp: verifier_inv_def verified_run_def split: if_splits)
  have run: "verified_run sha fmt (pg_WorkspaceID page) 1 zeroHash (es @ pg_Entries page) (pv_previousHash v')"
    unfolding verified_run_append using start pv ok(2) by auto
  have next_seq: "pv_nextSequence v' = 1 + of_nat (length (es @ pg_Entries page))"
    using ok(2) start(1) by (simp add: page_end_def)
  have pos: "0 < sint (pg_StartSequence page)"
    using ok(1) by (auto simp: Page_validateForWorkspace_def not_le split: if_splits)
  have "sint (pg_StartSequence page) = 1 + int (length es)"
  proof (cases "pv_initialized v")
    case False
    with ok(3) assms(1) show ?thesis by (simp add: verifier_inv_def)
  next
    case True
    have "pg_StartSequence page = pv_nextSequence v" using ok(3) by (simp add: True)
    moreover have "sint (pv_nextSequence v - 1) = int (length es)"
      using assms(1) [unfolded verifier_inv_def if_P [OF True]] by blast
    ultimately have "sint (pg_StartSequence page - 1) = int (length es)" by simp
    moreover have "sint (pg_StartSequence page - 1) = sint (pg_StartSequence page) - 1" by (rule sint_pred [OF pos])
    ultimately show ?thesis by simp
  qed
  with pv ok(2) have "sint (pv_nextSequence v' - 1) = int (length (es @ pg_Entries page))" by simp
  with run next_seq ok(2) pv assms(1) show ?thesis by (simp add: verifier_inv_def)
qed

lemma add_pages_inv:
  "verifier_inv sha fmt es n v \<Longrightarrow> add_pages sha fmt pages v = Inr v' \<Longrightarrow>
     verifier_inv sha fmt (es @ concat (map pg_Entries pages)) (n + length pages) v'"
proof (induction pages arbitrary: es n v)
  case (Cons p ps)
  obtain v1 where v1: "Verifier_Add sha fmt p v = (Inr (), v1)" "add_pages sha fmt ps v1 = Inr v'"
    using Cons.prems(2) by (auto split: prod.splits sum.splits)
  from Cons.IH [OF verifier_inv_Add [OF Cons.prems(1) v1(1)] v1(2)] show ?case by simp
qed simp

text \<open>Accepted pages all name the workspace and the snapshot that the verifier took from the first of them.\<close>

lemma Verifier_Add_snapshot:
  assumes "Verifier_Add sha fmt page v = (Inr (), v')"
  shows "pv_initialized v'" and "pg_WorkspaceID page = pv_workspaceID v'" and "pg_Snapshot page = pv_chain v'"
    and "pv_initialized v \<Longrightarrow> pv_workspaceID v' = pv_workspaceID v \<and> pv_chain v' = pv_chain v"
  using assms by (auto simp: Verifier_Add_def Let_def split: if_splits sum.splits)

lemma add_pages_snapshot:
  assumes "add_pages sha fmt pages v = Inr v'"
  shows "(pv_initialized v \<longrightarrow> pv_workspaceID v' = pv_workspaceID v \<and> pv_chain v' = pv_chain v) \<and>
    (\<forall>page \<in> set pages. pg_WorkspaceID page = pv_workspaceID v' \<and> pg_Snapshot page = pv_chain v')"
  using assms
proof (induction pages arbitrary: v)
  case (Cons page pages)
  obtain v1 where v1: "Verifier_Add sha fmt page v = (Inr (), v1)" "add_pages sha fmt pages v1 = Inr v'"
    using Cons.prems by (auto split: prod.splits sum.splits)
  from Verifier_Add_snapshot [OF v1(1)] Cons.IH [OF v1(2)] show ?case by auto
qed simp

text \<open>
  C7: incremental page verification proves the whole chain. When every page of an ordered
  sequence is accepted and the verifier finishes, the concatenated entries of all pages pass
  the monolithic chain verification from genesis to the declared head, and the reported counts
  of entries and pages are exact, so that no page can be skipped, reordered or repeated; and every
  page names the reported workspace and carries the reported snapshot, none is taken from
  another.
\<close>
theorem page_sequence_is_chain:
  assumes "add_pages sha fmt pages new_verifier = Inr v" and "Verifier_Finish v = Inr res"
    and "entries = concat (map pg_Entries pages)"
  shows "validateEntrySequence sha fmt (ps_WorkspaceID res) entries 1 zeroHash True = Inr (ch_HeadHash (ps_Chain res)) \<and>
    sint (ps_Entries res) = int (length entries) \<and> sint (ch_HeadSequence (ps_Chain res)) = int (length entries) \<and>
    ps_Pages res = length pages \<and>
    (\<forall>page \<in> set pages. pg_WorkspaceID page = ps_WorkspaceID res \<and> pg_Snapshot page = ps_Chain res)"
proof -
  have inv: "verifier_inv sha fmt entries (length pages) v"
    using add_pages_inv [OF verifier_inv_new assms(1)] assms(3) by simp
  have fin: "pv_initialized v" "pv_nextSequence v - 1 = ch_HeadSequence (pv_chain v)"
    "pv_previousHash v = ch_HeadHash (pv_chain v)"
    "ps_WorkspaceID res = pv_workspaceID v" "ps_Pages res = pv_pages v" "ps_Entries res = ch_HeadSequence (pv_chain v)"
    "ps_Chain res = pv_chain v"
    using assms(2) by (auto simp: Verifier_Finish_def split: if_splits)
  with inv add_pages_snapshot [OF assms(1)] show ?thesis
    by (simp add: verifier_inv_def validateEntrySequence_def entry_sequence_verified)
qed

definition sample_page :: Page where
  "sample_page = \<lparr>pg_Schema = PageSchemaV1, pg_WorkspaceID = ''local'', pg_Snapshot = ex_Chain sample_export,
     pg_StartSequence = 1, pg_PreviousHash = zeroHash, pg_Entries = sample_entries, pg_NextCursor = []\<rparr>"

theorem page_sequence_is_chain_witness:
  "\<exists>v res. add_pages toy_sha int_decimal [sample_page] new_verifier = Inr v \<and> Verifier_Finish v = Inr res \<and>
     sint (ps_Entries res) = 2 \<and> ps_Pages res = 1 \<and> pg_Snapshot sample_page = ps_Chain res"
proof -
  have "case add_pages toy_sha int_decimal [sample_page] new_verifier of Inl _ \<Rightarrow> False | Inr v \<Rightarrow> is_ok (Verifier_Finish v)"
    by code_simp
  then obtain v res where v: "add_pages toy_sha int_decimal [sample_page] new_verifier = Inr v" "Verifier_Finish v = Inr res"
    unfolding case_ok_iff is_ok_iff by blast
  have "length (concat (map pg_Entries [sample_page])) = 2" by code_simp
  with page_sequence_is_chain [OF v refl] v show ?thesis
    by (intro exI [of _ v] exI [of _ res]) simp
qed

end
