(* ===== verification/Hub_Ledger.thy ===== *)
theory Hub_Ledger
  imports Audit_Page
begin

text \<open>
  The hub's durable ledger (\<open>internal/hubdb/policy_audit.go\<close>, \<open>approvals.go\<close> and the transaction
  boundary of \<open>app.go\<close>): the per-workspace hash-chained audit log and single-use approval grants. The
  tables are lists and maps; a transaction is one step that commits on success and leaves
  the tables alone on error. Same-workspace writers are serialised by the row locks the statements
  take. Of the schema's constraints the model has the primary keys, the unique grant key, the foreign
  keys to workspaces and row security; PostgreSQL's statement time is the argument \<open>now\<close> (timestamps
  have microsecond resolution), the process clock is \<open>wall\<close>, random bytes are arguments.
\<close>

subsection \<open>Tables\<close>

record policyAuditEntry =
  pa_sequence :: "64 word"
  pa_format :: "16 word"
  pa_recordedAt :: Time
  pa_traceID :: string
  pa_workspaceID :: string
  pa_actor :: string
  pa_role :: string
  pa_action :: string
  pa_verb :: string
  pa_verdict :: string
  pa_reasonCode :: string
  pa_eventKind :: string
  pa_evidence :: string
  pa_previousHash :: string
  pa_entryHash :: string

record approval_grant =
  ag_workspace :: string
  ag_id :: string
  ag_intent :: string
  ag_proposer :: string
  ag_approver :: string
  ag_digest :: string
  ag_version :: int
  ag_approvedAt :: Time
  ag_expiresAt :: Time
  ag_consumedAt :: "Time option"

record Ledger =
  lg_workspaces :: "string list"
  lg_memberships :: "(string \<times> string, Role) gomap"
  lg_grants :: "approval_grant list"
  lg_heads :: "(string, 64 word \<times> string) gomap"
  lg_entries :: "policyAuditEntry list"

datatype ledger_error =
    ScopeInvalid
  | EventInvalid pep_invalid
  | EntryMetadataInvalid
  | DerivedScope tenancy_error
  | HeadInvalid
  | HashUnavailable
  | ConstraintViolation
  | GrantUnavailable
  | MintUnavailable
  | TraceUnavailable trace_error
  | NotInitialized
  | OverExportLimit
  | ContinuityInvalid "64 word"
  | RetainedEventInvalid "64 word"
  | RetainedHashInvalid "64 word"
  | HeadMismatch
  | AdminRequired
  | RequestInvalid
  | AnchorInvalid
  | SnapshotUnavailable
  | RangeIncomplete
  | PageConstruction page_error

definition truncate_us :: "Time \<Rightarrow> Time" where
  "truncate_us t = t - t mod 1000"

abbreviation policyDecisionEventKind :: string where "policyDecisionEventKind \<equiv> ''policy-decision''"
abbreviation approvalCreatedEventKind :: string where "approvalCreatedEventKind \<equiv> ''approval-created''"
abbreviation approvalConsumedEventKind :: string where "approvalConsumedEventKind \<equiv> ''approval-consumed''"
abbreviation approvalAuditVerb :: string where "approvalAuditVerb \<equiv> ''approval.grant''"
abbreviation approvalExpiryEvidenceHashDomain :: string where
  "approvalExpiryEvidenceHashDomain \<equiv> ''sith-approval-grant-evidence/v2''"
definition approvalGrantEvidenceVersion :: int where
  "approvalGrantEvidenceVersion = 2"

subsection \<open>Entries\<close>

definition auditHashString :: "string \<Rightarrow> string" where
  "auditHashString value = ''sha256:'' @ hex_encode value"

definition portablePolicyAuditEntry :: "policyAuditEntry \<Rightarrow> Entry" where
  "portablePolicyAuditEntry e =
     \<lparr>au_Sequence = pa_sequence e, au_FormatVersion = pa_format e, au_RecordedAt = truncate_us (pa_recordedAt e),
      au_RecordedUTC = True, au_TraceID = pa_traceID e, au_Actor = pa_actor e, au_Role = pa_role e,
      au_Action = pa_action e, au_Verb = pa_verb e, au_Verdict = pa_verdict e, au_ReasonCode = pa_reasonCode e,
      au_EventKind = pa_eventKind e, au_EvidenceDigest = pa_evidence e,
      au_PreviousHash = auditHashString (pa_previousHash e), au_EntryHash = auditHashString (pa_entryHash e)\<rparr>"

definition policyAuditEntryHash :: "(string \<Rightarrow> string) \<Rightarrow> (Time \<Rightarrow> string) \<Rightarrow> policyAuditEntry \<Rightarrow> string" where
  "policyAuditEntryHash sha fmt e =
     (case RecomputeEntryHash sha fmt (pa_workspaceID e) (portablePolicyAuditEntry e) of
        Inl _ \<Rightarrow> []
      | Inr recomputed \<Rightarrow>
          (case hex_decode (trim_prefix recomputed ''sha256:'') of
             None \<Rightarrow> []
           | Some decoded \<Rightarrow> if length decoded \<noteq> 32 then [] else decoded))"

text \<open>The pattern \<open>^sha256:[0-9a-f]{64}$\<close>.\<close>

definition approvalEvidencePattern :: "string \<Rightarrow> bool" where
  "approvalEvidencePattern s =
     (has_prefix s ''sha256:'' \<and> length (drop 7 s) = 64 \<and> list_all is_lower_hex (drop 7 s))"

definition lifecycle_scope :: "policyAuditEntry \<Rightarrow> (tenancy_error, Scope) result" where
  "lifecycle_scope e =
     rbind (NewPrincipal (pa_actor e) [(pa_workspaceID e, pa_role e)]) (\<lambda>p. Principal_Scope p (pa_workspaceID e))"

definition validatePolicyAuditEntry :: "Time \<Rightarrow> policyAuditEntry \<Rightarrow> (ledger_error, unit) result" where
  "validatePolicyAuditEntry wall e =
     (if pa_format e = 1 then
        (if pa_eventKind e \<noteq> policyDecisionEventKind \<or> pa_evidence e \<noteq> [] then Inl EntryMetadataInvalid
         else case AuditEvent_Validate wall
                \<lparr>ae_At = pa_recordedAt e, ae_TraceID = pa_traceID e, ae_WorkspaceID = pa_workspaceID e,
                 ae_Actor = pa_actor e, ae_Role = pa_role e, ae_Action = pa_action e, ae_Verb = pa_verb e,
                 ae_Verdict = pa_verdict e, ae_ReasonCode = pa_reasonCode e\<rparr> of
           Inl err \<Rightarrow> Inl (EventInvalid err)
         | Inr _ \<Rightarrow> Inr ())
      else if pa_format e = 2 \<or> pa_format e = 3 then
        (if pa_recordedAt e = 0 \<or> pa_recordedAt e > wall + 60 * 1000000000 \<or> \<not> ID_Valid (pa_traceID e) \<or>
            \<not> approvalEvidencePattern (pa_evidence e) \<or> pa_verb e \<noteq> approvalAuditVerb \<or>
            pa_verdict e \<noteq> VerdictAllow \<or> pa_reasonCode e \<noteq> pa_eventKind e then Inl EntryMetadataInvalid
         else case lifecycle_scope e of
           Inl err \<Rightarrow> Inl (DerivedScope err)
         | Inr _ \<Rightarrow>
             if pa_eventKind e = approvalCreatedEventKind then
               (if pa_role e \<noteq> RoleApprover \<or> pa_action e \<noteq> ActionApproveIntent then Inl EntryMetadataInvalid else Inr ())
             else if pa_eventKind e = approvalConsumedEventKind then
               (if pa_role e \<noteq> RoleOperator \<or> pa_action e \<noteq> ActionProposeIntent then Inl EntryMetadataInvalid else Inr ())
             else Inl EntryMetadataInvalid)
      else Inl EntryMetadataInvalid)"

definition expiringApprovalGrantEvidenceDigest ::
  "(string \<Rightarrow> string) \<Rightarrow> (Time \<Rightarrow> string) \<Rightarrow> string \<Rightarrow> string \<Rightarrow> string \<Rightarrow> string \<Rightarrow> string \<Rightarrow> string \<Rightarrow> Time \<Rightarrow> Time
     \<Rightarrow> string" where
  "expiringApprovalGrantEvidenceDigest sha fmt w identifier intentID proposer approver resolvedDigest approvedAt expiresAt =
     ''sha256:'' @ hex_encode (sha (fold (\<lambda>v acc. appendCanonicalString acc v)
       [approvalExpiryEvidenceHashDomain, w, identifier, intentID, proposer, approver, resolvedDigest,
        fmt (truncate_us approvedAt), fmt (truncate_us expiresAt)] []))"

subsection \<open>Appending\<close>

definition genesis_head :: "64 word \<times> string" where
  "genesis_head = (0, replicate 32 NUL)"

text \<open>
  \<open>appendPolicyAuditEntryTx\<close> inside a transaction of workspace \<open>w\<close>: row security refuses rows of
  another workspace, and a head needs an existing workspace.
\<close>

definition appendPolicyAuditEntryTx ::
  "(string \<Rightarrow> string) \<Rightarrow> (Time \<Rightarrow> string) \<Rightarrow> Time \<Rightarrow> string \<Rightarrow> policyAuditEntry \<Rightarrow> Ledger \<Rightarrow> (ledger_error, Ledger) result" where
  "appendPolicyAuditEntryTx sha fmt wall w e db =
     rbind (validatePolicyAuditEntry wall e) (\<lambda>_.
       let ws = pa_workspaceID e in
       if ws \<noteq> w \<or> \<not> List.member (lg_workspaces db) ws then Inl ConstraintViolation
       else
         let db = (case map_of (lg_heads db) ws of
                     Some _ \<Rightarrow> db | None \<Rightarrow> db\<lparr>lg_heads := gm_put ws genesis_head (lg_heads db)\<rparr>);
             (lastSequence, lastHash) = gm_get genesis_head (lg_heads db) ws in
         if sint lastSequence < 0 \<or> sint lastSequence = 2 ^ 63 - 1 \<or> length lastHash \<noteq> 32 then Inl HeadInvalid
         else
           let e = e\<lparr>pa_sequence := lastSequence + 1, pa_previousHash := lastHash\<rparr>;
               e = e\<lparr>pa_entryHash := policyAuditEntryHash sha fmt e\<rparr> in
           if length (pa_entryHash e) \<noteq> 32 then Inl HashUnavailable
           else if list_ex (\<lambda>r. pa_workspaceID r = ws \<and> pa_sequence r = pa_sequence e) (lg_entries db) then Inl ConstraintViolation
           else Inr (db\<lparr>lg_entries := lg_entries db @ [e],
                        lg_heads := gm_put ws (pa_sequence e, pa_entryHash e) (lg_heads db)\<rparr>))"

text \<open>A transaction: the scope is checked, and an error rolls everything back.\<close>

definition InWorkspace ::
  "Scope \<Rightarrow> (Ledger \<Rightarrow> (ledger_error, Ledger) result) \<Rightarrow> Ledger \<Rightarrow> (ledger_error, unit) result \<times> Ledger" where
  "InWorkspace scope run db =
     (if sc_subject scope = [] \<or> \<not> Role_Valid (sc_role scope) \<or> \<not> is_ok (RequireWorkspace scope (sc_workspaceID scope))
      then (Inl ScopeInvalid, db)
      else case run db of Inl e \<Rightarrow> (Inl e, db) | Inr db' \<Rightarrow> (Inr (), db'))"

definition auditEventScope :: "AuditEvent \<Rightarrow> (tenancy_error, Scope) result" where
  "auditEventScope ev =
     rbind (NewPrincipal (ae_Actor ev) [(ae_WorkspaceID ev, ae_Role ev)]) (\<lambda>p. Principal_Scope p (ae_WorkspaceID ev))"

definition event_entry :: "AuditEvent \<Rightarrow> policyAuditEntry" where
  "event_entry ev =
     \<lparr>pa_sequence = 0, pa_format = 1, pa_recordedAt = truncate_us (ae_At ev), pa_traceID = ae_TraceID ev,
      pa_workspaceID = ae_WorkspaceID ev, pa_actor = ae_Actor ev, pa_role = ae_Role ev, pa_action = ae_Action ev,
      pa_verb = ae_Verb ev, pa_verdict = ae_Verdict ev, pa_reasonCode = ae_ReasonCode ev,
      pa_eventKind = policyDecisionEventKind, pa_evidence = [], pa_previousHash = [], pa_entryHash = []\<rparr>"

definition AppDB_Record ::
  "(string \<Rightarrow> string) \<Rightarrow> (Time \<Rightarrow> string) \<Rightarrow> Time \<Rightarrow> AuditEvent \<Rightarrow> Ledger \<Rightarrow> (ledger_error, unit) result \<times> Ledger" where
  "AppDB_Record sha fmt wall ev db =
     (case AuditEvent_Validate wall ev of
        Inl e \<Rightarrow> (Inl (EventInvalid e), db)
      | Inr _ \<Rightarrow>
          (case auditEventScope ev of
             Inl e \<Rightarrow> (Inl (DerivedScope e), db)
           | Inr scope \<Rightarrow>
               InWorkspace scope (appendPolicyAuditEntryTx sha fmt wall (sc_workspaceID scope) (event_entry ev)) db))"

subsection \<open>Approval grants\<close>

definition approvalGrantIDPattern :: "string \<Rightarrow> bool" where
  "approvalGrantIDPattern s = (length s = 22 \<and> list_all (\<lambda>c. b64_value c \<noteq> None) s)"

text \<open>The random source: None when reading sixteen bytes fails.\<close>

definition newApprovalGrantID :: "string option \<Rightarrow> (ledger_error, string) result" where
  "newApprovalGrantID random =
     (case random of
        None \<Rightarrow> Inl MintUnavailable
      | Some payload \<Rightarrow>
          (let identifier = b64_encode payload in
           if \<not> approvalGrantIDPattern identifier then Inl MintUnavailable else Inr identifier))"

definition lifecycle_entry ::
  "Time \<Rightarrow> string \<Rightarrow> string \<Rightarrow> Scope \<Rightarrow> Action \<Rightarrow> string \<Rightarrow> string \<Rightarrow> policyAuditEntry" where
  "lifecycle_entry recordedAt traceID w scope action eventKind evidence =
     \<lparr>pa_sequence = 0, pa_format = 3, pa_recordedAt = truncate_us recordedAt, pa_traceID = traceID, pa_workspaceID = w,
      pa_actor = sc_subject scope, pa_role = sc_role scope, pa_action = action, pa_verb = approvalAuditVerb,
      pa_verdict = VerdictAllow, pa_reasonCode = eventKind, pa_eventKind = eventKind, pa_evidence = evidence,
      pa_previousHash = [], pa_entryHash = []\<rparr>"

definition grant_evidence :: "(string \<Rightarrow> string) \<Rightarrow> (Time \<Rightarrow> string) \<Rightarrow> approval_grant \<Rightarrow> string" where
  "grant_evidence sha fmt g =
     expiringApprovalGrantEvidenceDigest sha fmt (ag_workspace g) (ag_id g) (ag_intent g) (ag_proposer g)
       (ag_approver g) (ag_digest g) (ag_approvedAt g) (ag_expiresAt g)"

definition create_grant_tx ::
  "(string \<Rightarrow> string) \<Rightarrow> (Time \<Rightarrow> string) \<Rightarrow> Time \<Rightarrow> Time \<Rightarrow> Scope \<Rightarrow> ApprovalBinding \<Rightarrow> string \<Rightarrow> string \<Rightarrow> Ledger
     \<Rightarrow> (ledger_error, Ledger) result" where
  "create_grant_tx sha fmt wall now approver binding identifier traceID db =
     (let w = ab_workspaceID binding in
      case (map_of (lg_memberships db) (w, ab_proposer binding), map_of (lg_memberships db) (w, sc_subject approver)) of
        (Some proposerRole, Some currentApproverRole) \<Rightarrow>
          if \<not> Role_Allows proposerRole ActionProposeIntent \<or> currentApproverRole \<noteq> sc_role approver \<or>
             \<not> Role_Allows currentApproverRole ActionApproveIntent then Inl GrantUnavailable
          else
            let approvedAt = truncate_us now;
                g = \<lparr>ag_workspace = w, ag_id = identifier, ag_intent = ab_intentID binding,
                     ag_proposer = ab_proposer binding, ag_approver = sc_subject approver,
                     ag_digest = ab_resolvedDigest binding, ag_version = approvalGrantEvidenceVersion,
                     ag_approvedAt = approvedAt, ag_expiresAt = approvedAt + 600 * 1000000000, ag_consumedAt = None\<rparr> in
            if list_ex (\<lambda>r. ag_workspace r = w \<and> (ag_id r = identifier \<or>
                 ag_intent r = ag_intent g \<and> ag_approver r = ag_approver g \<and> ag_digest r = ag_digest g)) (lg_grants db)
            then Inl GrantUnavailable
            else if \<not> List.member (lg_workspaces db) w then Inl ConstraintViolation
            else appendPolicyAuditEntryTx sha fmt wall (sc_workspaceID approver)
              (lifecycle_entry approvedAt traceID w approver ActionApproveIntent approvalCreatedEventKind (grant_evidence sha fmt g))
              (db\<lparr>lg_grants := lg_grants db @ [g]\<rparr>)
      | _ \<Rightarrow> Inl GrantUnavailable)"

definition createApprovalGrant ::
  "(string \<Rightarrow> string) \<Rightarrow> (Time \<Rightarrow> string) \<Rightarrow> Time \<Rightarrow> Time \<Rightarrow> string option \<Rightarrow> string option \<Rightarrow> go_context \<Rightarrow> Scope
     \<Rightarrow> ApprovalBinding \<Rightarrow> Ledger \<Rightarrow> (ledger_error, string) result \<times> Ledger" where
  "createApprovalGrant sha fmt wall now random mint ctx approver binding db =
     (if \<not> is_ok (ApprovalBinding_Validate binding) \<or> \<not> is_ok (Authorize approver ActionApproveIntent) \<or>
         \<not> is_ok (RequireWorkspace approver (ab_workspaceID binding)) \<or> sc_subject approver = ab_proposer binding
      then (Inl GrantUnavailable, db)
      else case newApprovalGrantID random of
        Inl e \<Rightarrow> (Inl e, db)
      | Inr identifier \<Rightarrow>
          (case Ensure mint (Some ctx) of
             Inl e \<Rightarrow> (Inl (TraceUnavailable e), db)
           | Inr (_, traceID) \<Rightarrow>
               (case InWorkspace approver (create_grant_tx sha fmt wall now approver binding identifier traceID) db of
                  (Inl e, db') \<Rightarrow> (Inl e, db')
                | (Inr _, db') \<Rightarrow> (Inr identifier, db'))))"

text \<open>The predicate of the conditional update.\<close>

definition grant_spendable :: "Time \<Rightarrow> ApprovalBinding \<Rightarrow> string \<Rightarrow> approval_grant \<Rightarrow> bool" where
  "grant_spendable now binding identifier g \<longleftrightarrow>
     ag_workspace g = ab_workspaceID binding \<and> ag_id g = identifier \<and> ag_intent g = ab_intentID binding \<and>
     ag_proposer g = ab_proposer binding \<and> ag_digest g = ab_resolvedDigest binding \<and>
     ag_version g = approvalGrantEvidenceVersion \<and> ag_consumedAt g = None \<and>
     ag_approvedAt g \<le> truncate_us now \<and> truncate_us now < ag_expiresAt g"

definition consume_grant_tx ::
  "(string \<Rightarrow> string) \<Rightarrow> (Time \<Rightarrow> string) \<Rightarrow> Time \<Rightarrow> Time \<Rightarrow> Scope \<Rightarrow> ApprovalBinding \<Rightarrow> string \<Rightarrow> string \<Rightarrow> Ledger
     \<Rightarrow> (ledger_error, Ledger) result" where
  "consume_grant_tx sha fmt wall now proposer binding identifier traceID db =
     (let w = ab_workspaceID binding in
      case map_of (lg_memberships db) (w, ab_proposer binding) of
        None \<Rightarrow> Inl GrantUnavailable
      | Some currentRole \<Rightarrow>
          if currentRole \<noteq> sc_role proposer \<or> \<not> Role_Allows currentRole ActionProposeIntent then Inl GrantUnavailable
          else case find (grant_spendable now binding identifier) (lg_grants db) of
            None \<Rightarrow> Inl GrantUnavailable
          | Some g \<Rightarrow>
              appendPolicyAuditEntryTx sha fmt wall (sc_workspaceID proposer)
                (lifecycle_entry now traceID w proposer ActionProposeIntent approvalConsumedEventKind (grant_evidence sha fmt g))
                (db\<lparr>lg_grants := map (\<lambda>r. if grant_spendable now binding identifier r
                      then r\<lparr>ag_consumedAt := Some (truncate_us now)\<rparr> else r) (lg_grants db)\<rparr>))"

definition ConsumeApprovalGrant ::
  "(string \<Rightarrow> string) \<Rightarrow> (Time \<Rightarrow> string) \<Rightarrow> Time \<Rightarrow> Time \<Rightarrow> string option \<Rightarrow> go_context \<Rightarrow> Scope \<Rightarrow> ApprovalBinding
     \<Rightarrow> string \<Rightarrow> Ledger \<Rightarrow> (ledger_error, unit) result \<times> Ledger" where
  "ConsumeApprovalGrant sha fmt wall now mint ctx proposer binding identifier db =
     (if \<not> is_ok (ApprovalBinding_Validate binding) \<or> \<not> approvalGrantIDPattern identifier \<or>
         \<not> is_ok (Authorize proposer ActionProposeIntent) \<or> \<not> is_ok (RequireWorkspace proposer (ab_workspaceID binding)) \<or>
         sc_subject proposer \<noteq> ab_proposer binding
      then (Inl GrantUnavailable, db)
      else case Ensure mint (Some ctx) of
        Inl e \<Rightarrow> (Inl (TraceUnavailable e), db)
      | Inr (_, traceID) \<Rightarrow>
          InWorkspace proposer (consume_grant_tx sha fmt wall now proposer binding identifier traceID) db)"

subsection \<open>Reading and exporting the chain\<close>

fun verify_rows ::
  "(string \<Rightarrow> string) \<Rightarrow> (Time \<Rightarrow> string) \<Rightarrow> Time \<Rightarrow> string \<Rightarrow> nat option \<Rightarrow> 64 word \<Rightarrow> string \<Rightarrow> policyAuditEntry list
     \<Rightarrow> (ledger_error, 64 word \<times> string) result" where
  "verify_rows sha fmt wall w room expectedSequence expectedPrevious [] = Inr (expectedSequence, expectedPrevious)"
| "verify_rows sha fmt wall w room expectedSequence expectedPrevious (e # es) =
     (if pa_sequence e \<noteq> expectedSequence \<or> pa_workspaceID e \<noteq> w \<or> length (pa_previousHash e) \<noteq> 32 \<or>
         length (pa_entryHash e) \<noteq> 32 \<or> pa_previousHash e \<noteq> expectedPrevious then Inl (ContinuityInvalid expectedSequence)
      else if \<not> is_ok (validatePolicyAuditEntry wall e) then Inl (RetainedEventInvalid expectedSequence)
      else if length (policyAuditEntryHash sha fmt e) \<noteq> 32 \<or> pa_entryHash e \<noteq> policyAuditEntryHash sha fmt e
        then Inl (RetainedHashInvalid expectedSequence)
      else if room = Some 0 then Inl OverExportLimit
      else verify_rows sha fmt wall w (map_option (\<lambda>k. k - 1) room) (expectedSequence + 1) (pa_entryHash e) es)"

definition workspace_rows :: "string \<Rightarrow> Ledger \<Rightarrow> policyAuditEntry list" where
  "workspace_rows w db = sort_key (\<lambda>e. sint (pa_sequence e)) (filter (\<lambda>e. pa_workspaceID e = w) (lg_entries db))"

text \<open>\<open>retainLimit = 0\<close> verifies without retaining rows; otherwise \<open>room\<close> counts the rows still retainable.\<close>

definition readVerifiedPolicyAuditChainTx ::
  "(string \<Rightarrow> string) \<Rightarrow> (Time \<Rightarrow> string) \<Rightarrow> Time \<Rightarrow> Scope \<Rightarrow> nat \<Rightarrow> Ledger
     \<Rightarrow> (ledger_error, policyAuditEntry list \<times> 64 word \<times> string) result" where
  "readVerifiedPolicyAuditChainTx sha fmt wall scope retainLimit db =
     (let w = sc_workspaceID scope in
      case map_of (lg_heads db) w of
        None \<Rightarrow> Inl NotInitialized
      | Some (headSequence, headHash) \<Rightarrow>
          if sint headSequence \<le> 0 \<or> length headHash \<noteq> 32 then Inl HeadInvalid
          else if retainLimit > 0 \<and> sint headSequence > int retainLimit then Inl OverExportLimit
          else rbind (verify_rows sha fmt wall w (if retainLimit > 0 then Some retainLimit else None) 1 (replicate 32 NUL)
              (workspace_rows w db)) (\<lambda>(expectedSequence, expectedPrevious).
            if expectedSequence - 1 \<noteq> headSequence \<or> expectedPrevious \<noteq> headHash then Inl HeadMismatch
            else Inr (if retainLimit > 0 then workspace_rows w db else [], headSequence, headHash)))"

definition newPolicyAuditExport :: "string \<Rightarrow> policyAuditEntry list \<Rightarrow> 64 word \<Rightarrow> string \<Rightarrow> Export" where
  "newPolicyAuditExport w entries headSequence headHash =
     \<lparr>ex_Schema = SchemaV1, ex_WorkspaceID = w,
      ex_Chain = \<lparr>ch_HashAlgorithm = HashAlgorithm, ch_HeadSequence = headSequence, ch_HeadHash = auditHashString headHash\<rparr>,
      ex_Entries = map portablePolicyAuditEntry entries\<rparr>"

text \<open>A read-only snapshot transaction returns a value and changes nothing.\<close>

definition inWorkspaceReadSnapshot ::
  "Scope \<Rightarrow> (Ledger \<Rightarrow> (ledger_error, 'a) result) \<Rightarrow> Ledger \<Rightarrow> (ledger_error, 'a) result" where
  "inWorkspaceReadSnapshot scope run db =
     (if sc_subject scope = [] \<or> \<not> Role_Valid (sc_role scope) \<or> \<not> is_ok (RequireWorkspace scope (sc_workspaceID scope))
      then Inl ScopeInvalid else run db)"

definition VerifyPolicyAuditChain ::
  "(string \<Rightarrow> string) \<Rightarrow> (Time \<Rightarrow> string) \<Rightarrow> Time \<Rightarrow> Scope \<Rightarrow> Ledger \<Rightarrow> (ledger_error, unit) result" where
  "VerifyPolicyAuditChain sha fmt wall scope db =
     inWorkspaceReadSnapshot scope (\<lambda>db. rbind (readVerifiedPolicyAuditChainTx sha fmt wall scope 0 db) (\<lambda>_. Inr ())) db"

definition ExportPolicyAuditChain ::
  "(string \<Rightarrow> string) \<Rightarrow> (Time \<Rightarrow> string) \<Rightarrow> Time \<Rightarrow> Scope \<Rightarrow> Ledger \<Rightarrow> (ledger_error, Export) result" where
  "ExportPolicyAuditChain sha fmt wall scope db =
     (if \<not> is_ok (Authorize scope ActionExportAudit) then Inl AdminRequired
      else inWorkspaceReadSnapshot scope (\<lambda>db.
        rbind (readVerifiedPolicyAuditChainTx sha fmt wall scope MaxEntries db) (\<lambda>(entries, headSequence, headHash).
          Inr (newPolicyAuditExport (sc_workspaceID scope) entries headSequence headHash))) db)"

subsection \<open>Exporting a page\<close>

definition retained_hash :: "string \<Rightarrow> 64 word \<Rightarrow> Ledger \<Rightarrow> string option" where
  "retained_hash w s db =
     map_option pa_entryHash (find (\<lambda>e. pa_workspaceID e = w \<and> pa_sequence e = s) (lg_entries db))"

definition anchored :: "string \<Rightarrow> 64 word \<Rightarrow> string \<Rightarrow> Ledger \<Rightarrow> bool" where
  "anchored w s expected db =
     (case retained_hash w s db of None \<Rightarrow> False | Some h \<Rightarrow> length h = 32 \<and> auditHashString h = expected)"

fun verify_page_rows ::
  "(string \<Rightarrow> string) \<Rightarrow> (Time \<Rightarrow> string) \<Rightarrow> Time \<Rightarrow> string \<Rightarrow> 64 word \<Rightarrow> string \<Rightarrow> policyAuditEntry list
     \<Rightarrow> (ledger_error, 64 word \<times> string) result" where
  "verify_page_rows sha fmt wall w expectedSequence expectedPrevious [] = Inr (expectedSequence, expectedPrevious)"
| "verify_page_rows sha fmt wall w expectedSequence expectedPrevious (e # es) =
     (if pa_sequence e \<noteq> expectedSequence \<or> pa_workspaceID e \<noteq> w \<or> length (pa_previousHash e) \<noteq> 32 \<or>
         length (pa_entryHash e) \<noteq> 32 \<or> auditHashString (pa_previousHash e) \<noteq> expectedPrevious
      then Inl (ContinuityInvalid expectedSequence)
      else if \<not> is_ok (validatePolicyAuditEntry wall e) then Inl (RetainedEventInvalid expectedSequence)
      else if length (policyAuditEntryHash sha fmt e) \<noteq> 32 \<or> pa_entryHash e \<noteq> policyAuditEntryHash sha fmt e
        then Inl (RetainedHashInvalid expectedSequence)
      else verify_page_rows sha fmt wall w (expectedSequence + 1) (auditHashString (pa_entryHash e)) es)"

definition newPolicyAuditPage ::
  "(string \<Rightarrow> string) \<Rightarrow> (Time \<Rightarrow> string) \<Rightarrow> string \<Rightarrow> policyAuditEntry list \<Rightarrow> 64 word \<Rightarrow> string \<Rightarrow> 64 word \<Rightarrow> string
     \<Rightarrow> (ledger_error, Page) result" where
  "newPolicyAuditPage sha fmt w entries headSequence headHash startSequence previousHash =
     (let records = map portablePolicyAuditEntry entries;
          page = \<lparr>pg_Schema = PageSchemaV1, pg_WorkspaceID = w,
            pg_Snapshot = \<lparr>ch_HashAlgorithm = HashAlgorithm, ch_HeadSequence = headSequence, ch_HeadHash = headHash\<rparr>,
            pg_StartSequence = startSequence, pg_PreviousHash = previousHash, pg_Entries = records, pg_NextCursor = []\<rparr>;
          endSequence = startSequence + of_nat (length records) - 1;
          withCursor =
            (if sint endSequence < sint headSequence then
               (case EncodePageCursor sha w headSequence headHash (endSequence + 1) (au_EntryHash (last records)) of
                  Inl e \<Rightarrow> Inl (PageConstruction e)
                | Inr cursor \<Rightarrow> Inr (page\<lparr>pg_NextCursor := cursor\<rparr>))
             else Inr page)
      in rbind withCursor (\<lambda>page.
           case Page_validateForWorkspace sha fmt page w True of
             Inl e \<Rightarrow> Inl (PageConstruction e)
           | Inr _ \<Rightarrow> Inr page))"

text \<open>The snapshot and boundary a request asks for, after its anchors were checked.\<close>

definition page_boundary ::
  "PageRequest \<Rightarrow> 64 word \<Rightarrow> string \<Rightarrow> string \<Rightarrow> Ledger \<Rightarrow> (ledger_error, 64 word \<times> string \<times> 64 word \<times> string) result" where
  "page_boundary request currentHeadSequence currentHeadHash w db =
     (if pr_initial request then
        Inr (currentHeadSequence, auditHashString currentHeadHash, 1, auditHashString (replicate 32 NUL))
      else if sint (pr_headSequence request) > sint currentHeadSequence \<or>
          sint (pr_nextSequence request) > sint (pr_headSequence request) then Inl SnapshotUnavailable
      else if \<not> anchored w (pr_nextSequence request - 1) (pr_previousHash request) db then Inl AnchorInvalid
      else Inr (pr_headSequence request, pr_headHash request, pr_nextSequence request, pr_previousHash request))"

definition readVerifiedPolicyAuditPageTx ::
  "(string \<Rightarrow> string) \<Rightarrow> (Time \<Rightarrow> string) \<Rightarrow> Time \<Rightarrow> Scope \<Rightarrow> PageRequest \<Rightarrow> Ledger \<Rightarrow> (ledger_error, Page) result" where
  "readVerifiedPolicyAuditPageTx sha fmt wall scope request db =
     (let w = sc_workspaceID scope in
      case map_of (lg_heads db) w of
        None \<Rightarrow> Inl NotInitialized
      | Some (currentHeadSequence, currentHeadHash) \<Rightarrow>
          if sint currentHeadSequence \<le> 0 \<or> length currentHeadHash \<noteq> 32 then Inl HeadInvalid
          else if retained_hash w currentHeadSequence db \<noteq> Some currentHeadHash then Inl AnchorInvalid
          else rbind (page_boundary request currentHeadSequence currentHeadHash w db)
            (\<lambda>(snapshotHeadSequence, snapshotHeadHash, nextSequence, previousHash).
              if \<not> anchored w snapshotHeadSequence snapshotHeadHash db then Inl AnchorInvalid
              else
                let endSequence = (if sint (snapshotHeadSequence - nextSequence + 1) > int MaxEntries
                       then nextSequence + of_nat MaxEntries - 1 else snapshotHeadSequence);
                    rows = filter (\<lambda>e. sint nextSequence \<le> sint (pa_sequence e) \<and> sint (pa_sequence e) \<le> sint endSequence)
                      (workspace_rows w db) in
                rbind (verify_page_rows sha fmt wall w nextSequence previousHash rows) (\<lambda>(expectedSequence, expectedPrevious).
                  if expectedSequence \<noteq> endSequence + 1 \<or> int (length rows) \<noteq> sint (endSequence - nextSequence + 1) then Inl RangeIncomplete
                  else if endSequence = snapshotHeadSequence \<and> expectedPrevious \<noteq> snapshotHeadHash then Inl HeadMismatch
                  else newPolicyAuditPage sha fmt w rows snapshotHeadSequence snapshotHeadHash nextSequence previousHash)))"

definition ExportPolicyAuditPage ::
  "(string \<Rightarrow> string) \<Rightarrow> (Time \<Rightarrow> string) \<Rightarrow> Time \<Rightarrow> Scope \<Rightarrow> PageRequest \<Rightarrow> Ledger \<Rightarrow> (ledger_error, Page) result" where
  "ExportPolicyAuditPage sha fmt wall scope request db =
     (if \<not> is_ok (Authorize scope ActionExportAudit) then Inl AdminRequired
      else if \<not> is_ok (PageRequest_ValidateForWorkspace sha request (sc_workspaceID scope)) then Inl RequestInvalid
      else inWorkspaceReadSnapshot scope (readVerifiedPolicyAuditPageTx sha fmt wall scope request) db)"

end
