(* ===== verification/Ledger_Correct.thy ===== *)
theory Ledger_Correct
  imports Hub_Ledger
begin

text \<open>
  Correctness of the hub's ledger: every reachable audit log is an unbroken hash chain from genesis to
  its head, exports verify offline, and approval grants are
  exact, time-boxed, separated in duty and single-use.
\<close>

subsection \<open>Operations as steps\<close>

datatype ledger_op =
    LRecord Time AuditEvent
  | LCreate Time Time "string option" "string option" go_context Scope ApprovalBinding
  | LConsume Time Time "string option" go_context Scope ApprovalBinding string
  | LMembers "(string \<times> string, Role) gomap"
  | LWorkspace string

fun ledger_exec :: "(string \<Rightarrow> string) \<Rightarrow> (Time \<Rightarrow> string) \<Rightarrow> ledger_op \<Rightarrow> Ledger \<Rightarrow> Ledger" where
  "ledger_exec sha fmt (LRecord wall ev) db = snd (AppDB_Record sha fmt wall ev db)"
| "ledger_exec sha fmt (LCreate wall now random mint ctx approver binding) db =
     snd (createApprovalGrant sha fmt wall now random mint ctx approver binding db)"
| "ledger_exec sha fmt (LConsume wall now mint ctx proposer binding identifier) db =
     snd (ConsumeApprovalGrant sha fmt wall now mint ctx proposer binding identifier db)"
| "ledger_exec sha fmt (LMembers ms) db = db\<lparr>lg_memberships := ms\<rparr>"
| "ledger_exec sha fmt (LWorkspace w) db = db\<lparr>lg_workspaces := w # lg_workspaces db\<rparr>"

definition ledger_step :: "(string \<Rightarrow> string) \<Rightarrow> (Time \<Rightarrow> string) \<Rightarrow> Ledger \<Rightarrow> ledger_op \<Rightarrow> Ledger \<Rightarrow> bool" where
  "ledger_step sha fmt db oper db' \<longleftrightarrow> db' = ledger_exec sha fmt oper db"

definition empty_ledger :: Ledger where
  "empty_ledger = \<lparr>lg_workspaces = [], lg_memberships = [], lg_grants = [], lg_heads = [], lg_entries = []\<rparr>"

abbreviation ledger_reach :: "(string \<Rightarrow> string) \<Rightarrow> (Time \<Rightarrow> string) \<Rightarrow> Ledger \<Rightarrow> bool" where
  "ledger_reach sha fmt \<equiv> reach (\<lambda>db. db = empty_ledger) (ledger_step sha fmt)"

subsection \<open>Sealing a row\<close>

lemma hash_selects:
  "au_Sequence (e\<lparr>au_EntryHash := h\<rparr>) = au_Sequence e"
  "au_FormatVersion (e\<lparr>au_EntryHash := h\<rparr>) = au_FormatVersion e"
  "au_RecordedAt (e\<lparr>au_EntryHash := h\<rparr>) = au_RecordedAt e"
  "au_RecordedUTC (e\<lparr>au_EntryHash := h\<rparr>) = au_RecordedUTC e"
  "au_TraceID (e\<lparr>au_EntryHash := h\<rparr>) = au_TraceID e"
  "au_Actor (e\<lparr>au_EntryHash := h\<rparr>) = au_Actor e"
  "au_Role (e\<lparr>au_EntryHash := h\<rparr>) = au_Role e"
  "au_Action (e\<lparr>au_EntryHash := h\<rparr>) = au_Action e"
  "au_Verb (e\<lparr>au_EntryHash := h\<rparr>) = au_Verb e"
  "au_Verdict (e\<lparr>au_EntryHash := h\<rparr>) = au_Verdict e"
  "au_ReasonCode (e\<lparr>au_EntryHash := h\<rparr>) = au_ReasonCode e"
  "au_EventKind (e\<lparr>au_EntryHash := h\<rparr>) = au_EventKind e"
  "au_EvidenceDigest (e\<lparr>au_EntryHash := h\<rparr>) = au_EvidenceDigest e"
  "au_PreviousHash (e\<lparr>au_EntryHash := h\<rparr>) = au_PreviousHash e"
  by simp_all

lemma shape_ignores_hash [simp]: "validEntryShape (e\<lparr>au_EntryHash := h\<rparr>) = validEntryShape e"
  unfolding validEntryShape_def policy_shape_def approval_shape_def hash_selects ..

lemma fields_ignore_hash [simp]: "entry_fields_ok (e\<lparr>au_EntryHash := h\<rparr>) = entry_fields_ok e"
  unfolding entry_fields_ok_def shape_ignores_hash hash_selects ..

lemma canonical_ignores_hash [simp]: "canonical_entry fmt w (e\<lparr>au_EntryHash := h\<rparr>) ph = canonical_entry fmt w e ph"
  unfolding canonical_entry_def hash_selects ..

lemma Recompute_ignores_hash [simp]:
  "RecomputeEntryHash sha fmt w (e\<lparr>au_EntryHash := h\<rparr>) = RecomputeEntryHash sha fmt w e"
  unfolding RecomputeEntryHash_def fields_ignore_hash canonical_ignores_hash hash_selects ..

lemma zero_hash_text: "auditHashString (replicate 32 NUL) = zeroHash"
  by code_simp

lemma auditHashString_inj: "auditHashString x = auditHashString y \<longleftrightarrow> x = y"
  by (simp add: auditHashString_def hex_encode_inj)

lemma portable_with_hash:
  "portablePolicyAuditEntry (e\<lparr>pa_entryHash := h\<rparr>) = (portablePolicyAuditEntry e)\<lparr>au_EntryHash := auditHashString h\<rparr>"
  by (simp add: portablePolicyAuditEntry_def)

lemma policyAuditEntryHash_sealed:
  assumes "length (policyAuditEntryHash sha fmt e) = 32" and "pa_entryHash e' = policyAuditEntryHash sha fmt e"
    and "e' = e\<lparr>pa_entryHash := pa_entryHash e'\<rparr>"
  shows "sealed sha fmt (pa_workspaceID e, portablePolicyAuditEntry e')"
proof -
  obtain h where h: "RecomputeEntryHash sha fmt (pa_workspaceID e) (portablePolicyAuditEntry e) = Inr h"
    using assms(1) by (auto simp: policyAuditEntryHash_def split: sum.splits)
  then obtain raw where raw: "h = ''sha256:'' @ hex_encode (sha (canonical_entry fmt (pa_workspaceID e) (portablePolicyAuditEntry e) raw))"
    by (rule Recompute_Inr)
  have "hex_decode (trim_prefix h ''sha256:'') = Some (sha (canonical_entry fmt (pa_workspaceID e) (portablePolicyAuditEntry e) raw))"
    by (simp add: raw trim_prefix_def has_prefix_def hex_roundtrip)
  with assms(1) h have "policyAuditEntryHash sha fmt e = sha (canonical_entry fmt (pa_workspaceID e) (portablePolicyAuditEntry e) raw)"
    by (auto simp: policyAuditEntryHash_def split: if_splits)
  then have hash: "auditHashString (pa_entryHash e') = h" by (simp add: assms(2) raw auditHashString_def)
  have "portablePolicyAuditEntry e' = (portablePolicyAuditEntry e)\<lparr>au_EntryHash := auditHashString (pa_entryHash e')\<rparr>"
    by (subst assms(3)) (simp add: portable_with_hash)
  with h hash show ?thesis by (simp add: sealed_pair)
qed

subsection \<open>The chain invariant\<close>

definition rows_of :: "string \<Rightarrow> Ledger \<Rightarrow> policyAuditEntry list" where
  "rows_of w db = filter (\<lambda>e. pa_workspaceID e = w) (lg_entries db)"

definition head_of :: "string \<Rightarrow> Ledger \<Rightarrow> 64 word \<times> string" where
  "head_of w db = gm_get genesis_head (lg_heads db) w"

definition row_ok :: "policyAuditEntry \<Rightarrow> bool" where
  "row_ok e \<longleftrightarrow> length (pa_entryHash e) = 32 \<and> length (pa_previousHash e) = 32 \<and>
     (\<exists>wall. is_ok (validatePolicyAuditEntry wall e))"

definition chain_ok :: "(string \<Rightarrow> string) \<Rightarrow> (Time \<Rightarrow> string) \<Rightarrow> Ledger \<Rightarrow> string \<Rightarrow> bool" where
  "chain_ok sha fmt db w \<longleftrightarrow>
     (let rows = rows_of w db; head = head_of w db in
      verified_run sha fmt w 1 zeroHash (map portablePolicyAuditEntry rows) (auditHashString (snd head)) \<and>
      fst head = of_nat (length rows) \<and> sint (fst head) = int (length rows) \<and> length (snd head) = 32 \<and>
      (\<forall>e \<in> set rows. row_ok e))"

definition grant_ok :: "approval_grant \<Rightarrow> bool" where
  "grant_ok g \<longleftrightarrow> ag_proposer g \<noteq> ag_approver g \<and> ag_expiresAt g = ag_approvedAt g + 600 * 1000000000 \<and>
     (\<forall>t. ag_consumedAt g = Some t \<longrightarrow> ag_approvedAt g \<le> t \<and> t < ag_expiresAt g)"

definition grant_key :: "approval_grant \<Rightarrow> string \<times> string" where
  "grant_key g = (ag_workspace g, ag_id g)"

definition created_entry :: "(string \<Rightarrow> string) \<Rightarrow> (Time \<Rightarrow> string) \<Rightarrow> approval_grant \<Rightarrow> policyAuditEntry \<Rightarrow> bool" where
  "created_entry sha fmt g e \<longleftrightarrow> pa_workspaceID e = ag_workspace g \<and> pa_eventKind e = approvalCreatedEventKind \<and>
     pa_actor e = ag_approver g \<and> pa_role e = RoleApprover \<and> pa_evidence e = grant_evidence sha fmt g"

definition ledger_ok :: "(string \<Rightarrow> string) \<Rightarrow> (Time \<Rightarrow> string) \<Rightarrow> Ledger \<Rightarrow> bool" where
  "ledger_ok sha fmt db \<longleftrightarrow> (\<forall>w. chain_ok sha fmt db w) \<and> (\<forall>g \<in> set (lg_grants db). grant_ok g) \<and>
     distinct (map grant_key (lg_grants db)) \<and>
     (\<forall>g \<in> set (lg_grants db). \<exists>e \<in> set (lg_entries db). created_entry sha fmt g e)"

lemma chain_ok_cong:
  assumes "chain_ok sha fmt db w" and "lg_entries db' = lg_entries db" and "gm_get genesis_head (lg_heads db') w = gm_get genesis_head (lg_heads db) w"
  shows "chain_ok sha fmt db' w"
  using assms by (simp add: chain_ok_def rows_of_def head_of_def)

lemma sint_succ: "0 \<le> sint (x :: 64 word) \<Longrightarrow> sint x \<noteq> 2 ^ 63 - 1 \<Longrightarrow> sint (x + 1) = sint x + 1"
proof -
  assume "0 \<le> sint x" "sint x \<noteq> 2 ^ 63 - 1"
  then have x: "uint x < 9223372036854775807" using uint64_range [of x] by (auto simp: sint64 split: if_splits)
  then have "uint (x + 1) = uint x + 1" using uint64_range [of x] by (simp add: uint_word_ariths)
  with x show ?thesis by (simp add: sint64)
qed

text \<open>What a successful append did.\<close>

lemma append_Inr:
  assumes "appendPolicyAuditEntryTx sha fmt wall w e db = Inr db'"
  obtains e' lastSequence lastHash where "(lastSequence, lastHash) = head_of w db" "pa_workspaceID e = w" "is_ok (validatePolicyAuditEntry wall e)"
    "0 \<le> sint lastSequence" "sint lastSequence \<noteq> 2 ^ 63 - 1" "length lastHash = 32"
    "e' = e\<lparr>pa_sequence := lastSequence + 1, pa_previousHash := lastHash, pa_entryHash := pa_entryHash e'\<rparr>"
    "pa_entryHash e' = policyAuditEntryHash sha fmt (e\<lparr>pa_sequence := lastSequence + 1, pa_previousHash := lastHash\<rparr>)"
    "length (pa_entryHash e') = 32"
    "lg_entries db' = lg_entries db @ [e']" "lg_grants db' = lg_grants db" "lg_workspaces db' = lg_workspaces db"
    "lg_memberships db' = lg_memberships db"
    "head_of w db' = (pa_sequence e', pa_entryHash e')" "\<forall>v. v \<noteq> w \<longrightarrow> head_of v db' = head_of v db"
proof -
  obtain lastSequence lastHash where head: "head_of w db = (lastSequence, lastHash)" by (cases "head_of w db")
  define e1 where "e1 = e\<lparr>pa_sequence := lastSequence + 1, pa_previousHash := lastHash\<rparr>"
  define e' where "e' = e1\<lparr>pa_entryHash := policyAuditEntryHash sha fmt e1\<rparr>"
  define db1 where "db1 = (case map_of (lg_heads db) w of Some _ \<Rightarrow> db | None \<Rightarrow> db\<lparr>lg_heads := gm_put w genesis_head (lg_heads db)\<rparr>)"
  have h2: "gm_get genesis_head (lg_heads db1) v = head_of v db" for v
    by (cases "map_of (lg_heads db) w") (simp_all add: db1_def head_of_def gm_get_def)
  have h1: "gm_get genesis_head (lg_heads db1) w = (lastSequence, lastHash)" by (simp add: h2 head)
  have valid: "is_ok (validatePolicyAuditEntry wall e)" and ws: "pa_workspaceID e = w"
    using assms by (auto simp: appendPolicyAuditEntryTx_def rbind_def Let_def split: sum.splits if_splits)
  have eq: "appendPolicyAuditEntryTx sha fmt wall w e db =
      (if \<not> List.member (lg_workspaces db) w then Inl ConstraintViolation
       else if sint lastSequence < 0 \<or> sint lastSequence = 2 ^ 63 - 1 \<or> length lastHash \<noteq> 32 then Inl HeadInvalid
       else if length (pa_entryHash e') \<noteq> 32 then Inl HashUnavailable
       else if list_ex (\<lambda>r. pa_workspaceID r = w \<and> pa_sequence r = pa_sequence e') (lg_entries db1) then Inl ConstraintViolation
       else Inr (db1\<lparr>lg_entries := lg_entries db1 @ [e'], lg_heads := gm_put w (pa_sequence e', pa_entryHash e') (lg_heads db1)\<rparr>))"
    using valid ws h1
    by (auto simp: appendPolicyAuditEntryTx_def is_ok_iff Let_def db1_def [symmetric] e'_def e1_def)
  have same: "lg_entries db1 = lg_entries db" "lg_grants db1 = lg_grants db" "lg_workspaces db1 = lg_workspaces db"
    "lg_memberships db1 = lg_memberships db"
    by (auto simp: db1_def split: option.split)
  have ok: "0 \<le> sint lastSequence" "sint lastSequence \<noteq> 2 ^ 63 - 1" "length lastHash = 32" "length (pa_entryHash e') = 32"
    and db': "db' = db1\<lparr>lg_entries := lg_entries db1 @ [e'], lg_heads := gm_put w (pa_sequence e', pa_entryHash e') (lg_heads db1)\<rparr>"
    using assms unfolding eq by (auto split: if_splits)
  show thesis
    by (rule that [of lastSequence lastHash e', OF head [symmetric] ws valid ok(1-3) _ _ ok(4)])
      (simp_all add: db' same e'_def e1_def head_of_def h2 [unfolded head_of_def])
qed

lemma validate_same:
  assumes "pa_format e' = pa_format e" "pa_recordedAt e' = pa_recordedAt e" "pa_traceID e' = pa_traceID e"
    "pa_workspaceID e' = pa_workspaceID e" "pa_actor e' = pa_actor e" "pa_role e' = pa_role e" "pa_action e' = pa_action e"
    "pa_verb e' = pa_verb e" "pa_verdict e' = pa_verdict e" "pa_reasonCode e' = pa_reasonCode e"
    "pa_eventKind e' = pa_eventKind e" "pa_evidence e' = pa_evidence e"
  shows "validatePolicyAuditEntry wall e' = validatePolicyAuditEntry wall e"
  unfolding validatePolicyAuditEntry_def lifecycle_scope_def assms ..

lemma append_keeps_chain:
  assumes "appendPolicyAuditEntryTx sha fmt wall w e db = Inr db'" and "\<forall>v. chain_ok sha fmt db v"
  shows "\<forall>v. chain_ok sha fmt db' v"
proof
  fix v
  from assms(1) obtain e' lastSequence lastHash where a: "(lastSequence, lastHash) = head_of w db" "pa_workspaceID e = w"
    "is_ok (validatePolicyAuditEntry wall e)" "0 \<le> sint lastSequence" "sint lastSequence \<noteq> 2 ^ 63 - 1" "length lastHash = 32"
    "e' = e\<lparr>pa_sequence := lastSequence + 1, pa_previousHash := lastHash, pa_entryHash := pa_entryHash e'\<rparr>"
    "pa_entryHash e' = policyAuditEntryHash sha fmt (e\<lparr>pa_sequence := lastSequence + 1, pa_previousHash := lastHash\<rparr>)"
    "length (pa_entryHash e') = 32" "lg_entries db' = lg_entries db @ [e']" "lg_grants db' = lg_grants db"
    "lg_workspaces db' = lg_workspaces db" "lg_memberships db' = lg_memberships db"
    "head_of w db' = (pa_sequence e', pa_entryHash e')" "\<forall>v. v \<noteq> w \<longrightarrow> head_of v db' = head_of v db"
    by (rule append_Inr)
  define e1 where "e1 = e\<lparr>pa_sequence := lastSequence + 1, pa_previousHash := lastHash\<rparr>"
  have e': "e' = e1\<lparr>pa_entryHash := pa_entryHash e'\<rparr>" using a(7) by (simp add: e1_def)
  have sel: "pa_workspaceID e' = w" "pa_sequence e' = lastSequence + 1" "pa_previousHash e' = lastHash"
    using a(2) by (subst a(7), simp)+
  show "chain_ok sha fmt db' v"
  proof (cases "v = w")
    case False
    with assms(2) a(10,15) sel(1) show ?thesis by (simp add: chain_ok_def rows_of_def)
  next
    case True
    have old: "chain_ok sha fmt db w" using assms(2) by blast
    have rows: "rows_of w db' = rows_of w db @ [e']" by (simp add: rows_of_def a(10) sel(1))
    have h0: "fst (head_of w db) = lastSequence" "snd (head_of w db) = lastHash" by (simp_all add: a(1) [symmetric])
    have h: "lastSequence = of_nat (length (rows_of w db))" "sint lastSequence = int (length (rows_of w db))"
      "verified_run sha fmt w 1 zeroHash (map portablePolicyAuditEntry (rows_of w db)) (auditHashString lastHash)"
      using old [unfolded chain_ok_def Let_def h0] by blast+
    have seal: "sealed sha fmt (w, portablePolicyAuditEntry e')"
      using policyAuditEntryHash_sealed [of sha fmt e1 e'] a(2,8,9) e' by (simp add: e1_def)
    have ns: "sint (lastSequence + 1) = int (length (rows_of w db)) + 1" using sint_succ [OF a(4,5)] h(2) by simp
    have one: "verified_run sha fmt w (1 + of_nat (length (rows_of w db))) (auditHashString lastHash)
        [portablePolicyAuditEntry e'] (auditHashString (pa_entryHash e'))"
      using seal ns h(1) a(9) hex_hash_valid [of "pa_entryHash e'"]
      by (simp add: verified_run_def portablePolicyAuditEntry_def sel add.commute auditHashString_def)
    have run: "verified_run sha fmt w 1 zeroHash (map portablePolicyAuditEntry (rows_of w db'))
        (auditHashString (pa_entryHash e'))"
      unfolding rows map_append verified_run_append using h(3) one by auto
    have "validatePolicyAuditEntry wall e' = validatePolicyAuditEntry wall e"
      by (rule validate_same; subst a(7); simp)
    with a(3,6,9) sel(3) have "row_ok e'" unfolding row_ok_def by metis
    with run old ns a(9,14) h(1) sel(2) True show ?thesis
      by (simp add: chain_ok_def Let_def rows)
  qed
qed

lemma append_entry:
  assumes "appendPolicyAuditEntryTx sha fmt wall w e db = Inr db'"
  obtains e' where "lg_entries db' = lg_entries db @ [e']" "lg_grants db' = lg_grants db"
    "pa_workspaceID e' = w" "pa_workspaceID e = w" "pa_eventKind e' = pa_eventKind e" "pa_actor e' = pa_actor e" "pa_role e' = pa_role e"
    "pa_evidence e' = pa_evidence e" "is_ok (validatePolicyAuditEntry wall e)"
proof (rule append_Inr [OF assms])
  fix e' lastSequence lastHash
  assume a: "pa_workspaceID e = w" "is_ok (validatePolicyAuditEntry wall e)"
    "e' = e\<lparr>pa_sequence := lastSequence + 1, pa_previousHash := lastHash, pa_entryHash := pa_entryHash e'\<rparr>"
    "lg_entries db' = lg_entries db @ [e']" "lg_grants db' = lg_grants db"
  have sel: "pa_workspaceID e' = pa_workspaceID e" "pa_eventKind e' = pa_eventKind e" "pa_actor e' = pa_actor e"
    "pa_role e' = pa_role e" "pa_evidence e' = pa_evidence e"
    by (subst a(3), simp)+
  show thesis by (rule that [OF a(4,5) _ a(1) sel(2-5) a(2)]) (simp add: sel(1) a(1))
qed

subsection \<open>Every transaction keeps the invariant\<close>

lemma InWorkspace_cases:
  obtains (rollback) "snd (InWorkspace scope run db) = db" "\<not> is_ok (fst (InWorkspace scope run db))"
  | (commit) db' where "run db = Inr db'" "InWorkspace scope run db = (Inr (), db')" "sc_subject scope \<noteq> []"
proof -
  show thesis
  proof (cases "sc_subject scope = [] \<or> \<not> Role_Valid (sc_role scope) \<or> \<not> is_ok (RequireWorkspace scope (sc_workspaceID scope))")
    case True
    then show thesis by (intro rollback) (auto simp: InWorkspace_def)
  next
    case False
    then show thesis using rollback commit by (cases "run db") (auto simp: InWorkspace_def)
  qed
qed

lemma ledger_ok_cong:
  assumes "ledger_ok sha fmt db" "lg_entries db' = lg_entries db" "lg_heads db' = lg_heads db" "lg_grants db' = lg_grants db"
  shows "ledger_ok sha fmt db'"
  using assms chain_ok_cong by (fastforce simp: ledger_ok_def)

lemma ledger_ok_append:
  assumes "appendPolicyAuditEntryTx sha fmt wall w e db = Inr db'" "\<forall>v. chain_ok sha fmt db v"
    "\<forall>g \<in> set (lg_grants db). grant_ok g" "distinct (map grant_key (lg_grants db))"
    "\<forall>g \<in> set (lg_grants db). \<exists>x \<in> set (lg_entries db'). created_entry sha fmt g x"
  shows "ledger_ok sha fmt db'"
proof -
  obtain e' where "lg_grants db' = lg_grants db" using assms(1) by (rule append_entry)
  with assms append_keeps_chain [OF assms(1,2)] show ?thesis by (simp add: ledger_ok_def)
qed

lemma ledger_ok_Record:
  assumes "ledger_ok sha fmt db"
  shows "ledger_ok sha fmt (snd (AppDB_Record sha fmt wall ev db))"
proof (cases "\<exists>scope. is_ok (AuditEvent_Validate wall ev) \<and> auditEventScope ev = Inr scope")
  case False
  with assms show ?thesis by (auto simp: AppDB_Record_def is_ok_iff split: sum.split)
next
  case True
  then obtain scope where s: "is_ok (AuditEvent_Validate wall ev)" "auditEventScope ev = Inr scope" by blast
  let ?run = "appendPolicyAuditEntryTx sha fmt wall (sc_workspaceID scope) (event_entry ev)"
  have r: "AppDB_Record sha fmt wall ev db = InWorkspace scope ?run db" using s by (auto simp: AppDB_Record_def is_ok_iff)
  show ?thesis
  proof (cases rule: InWorkspace_cases [of scope ?run db])
    case rollback
    with assms show ?thesis by (simp add: r)
  next
    case (commit db')
    obtain e' where e': "lg_entries db' = lg_entries db @ [e']" using commit(1) by (rule append_entry)
    have "ledger_ok sha fmt db'"
      by (rule ledger_ok_append [OF commit(1)]) (use assms in \<open>auto simp: ledger_ok_def e'\<close>)
    with commit(2) show ?thesis by (simp add: r)
  qed
qed

text \<open>What creating a grant did.\<close>

lemma create_grant_tx_Inr:
  assumes "create_grant_tx sha fmt wall now approver binding identifier traceID db = Inr db'"
  obtains g where "g = \<lparr>ag_workspace = ab_workspaceID binding, ag_id = identifier, ag_intent = ab_intentID binding,
      ag_proposer = ab_proposer binding, ag_approver = sc_subject approver, ag_digest = ab_resolvedDigest binding,
      ag_version = approvalGrantEvidenceVersion, ag_approvedAt = truncate_us now,
      ag_expiresAt = truncate_us now + 600 * 1000000000, ag_consumedAt = None\<rparr>"
    "appendPolicyAuditEntryTx sha fmt wall (sc_workspaceID approver)
       (lifecycle_entry (truncate_us now) traceID (ab_workspaceID binding) approver ActionApproveIntent
          approvalCreatedEventKind (grant_evidence sha fmt g)) (db\<lparr>lg_grants := lg_grants db @ [g]\<rparr>) = Inr db'"
    "grant_key g \<notin> grant_key ` set (lg_grants db)"
proof -
  define g where "g = \<lparr>ag_workspace = ab_workspaceID binding, ag_id = identifier, ag_intent = ab_intentID binding,
      ag_proposer = ab_proposer binding, ag_approver = sc_subject approver, ag_digest = ab_resolvedDigest binding,
      ag_version = approvalGrantEvidenceVersion, ag_approvedAt = truncate_us now,
      ag_expiresAt = truncate_us now + 600 * 1000000000, ag_consumedAt = None\<rparr>"
  have run: "appendPolicyAuditEntryTx sha fmt wall (sc_workspaceID approver)
       (lifecycle_entry (truncate_us now) traceID (ab_workspaceID binding) approver ActionApproveIntent
          approvalCreatedEventKind (grant_evidence sha fmt g)) (db\<lparr>lg_grants := lg_grants db @ [g]\<rparr>) = Inr db'"
    and fresh: "\<not> list_ex (\<lambda>r. ag_workspace r = ab_workspaceID binding \<and> (ag_id r = identifier \<or>
        ag_intent r = ag_intent g \<and> ag_approver r = ag_approver g \<and> ag_digest r = ag_digest g)) (lg_grants db)"
    using assms unfolding create_grant_tx_def Let_def g_def [symmetric]
    by (auto split: option.splits if_splits)
  have "grant_key g \<notin> grant_key ` set (lg_grants db)"
    using fresh by (auto simp: list_ex_iff grant_key_def g_def)
  with run show thesis by (intro that [OF g_def])
qed

lemma lifecycle_role:
  assumes "is_ok (validatePolicyAuditEntry wall (lifecycle_entry t i w scope a k ev))"
  shows "k = approvalCreatedEventKind \<Longrightarrow> sc_role scope = RoleApprover"
    and "k = approvalConsumedEventKind \<Longrightarrow> sc_role scope = RoleOperator"
  using assms by (auto simp: validatePolicyAuditEntry_def lifecycle_entry_def is_ok_def split: if_splits sum.splits)

lemma ledger_ok_create_tx:
  assumes "ledger_ok sha fmt db" "create_grant_tx sha fmt wall now approver binding identifier traceID db = Inr db'"
    "sc_subject approver \<noteq> ab_proposer binding"
  shows "ledger_ok sha fmt db'"
proof (rule create_grant_tx_Inr [OF assms(2)])
  fix g
  assume g: "g = \<lparr>ag_workspace = ab_workspaceID binding, ag_id = identifier, ag_intent = ab_intentID binding,
      ag_proposer = ab_proposer binding, ag_approver = sc_subject approver, ag_digest = ab_resolvedDigest binding,
      ag_version = approvalGrantEvidenceVersion, ag_approvedAt = truncate_us now,
      ag_expiresAt = truncate_us now + 600 * 1000000000, ag_consumedAt = None\<rparr>"
    and run: "appendPolicyAuditEntryTx sha fmt wall (sc_workspaceID approver)
       (lifecycle_entry (truncate_us now) traceID (ab_workspaceID binding) approver ActionApproveIntent
          approvalCreatedEventKind (grant_evidence sha fmt g)) (db\<lparr>lg_grants := lg_grants db @ [g]\<rparr>) = Inr db'"
    and fresh: "grant_key g \<notin> grant_key ` set (lg_grants db)"
  let ?e = "lifecycle_entry (truncate_us now) traceID (ab_workspaceID binding) approver ActionApproveIntent
      approvalCreatedEventKind (grant_evidence sha fmt g)"
  obtain e' where e': "lg_entries db' = lg_entries db @ [e']" "pa_workspaceID e' = pa_workspaceID ?e"
    "pa_eventKind e' = pa_eventKind ?e" "pa_actor e' = pa_actor ?e" "pa_role e' = pa_role ?e" "pa_evidence e' = pa_evidence ?e"
    "is_ok (validatePolicyAuditEntry wall ?e)"
    by (rule append_entry [OF run]) simp
  have "created_entry sha fmt g e'"
    using e'(2-6) lifecycle_role(1) [OF e'(7)] by (simp add: created_entry_def lifecycle_entry_def g)
  moreover have "grant_ok g" using assms(3) by (simp add: g grant_ok_def)
  moreover have "\<forall>v. chain_ok sha fmt (db\<lparr>lg_grants := lg_grants db @ [g]\<rparr>) v"
    using assms(1) by (auto simp: ledger_ok_def intro: chain_ok_cong)
  ultimately show ?thesis
    using assms(1) fresh by (intro ledger_ok_append [OF run]) (auto simp: ledger_ok_def e'(1))
qed

lemma ledger_ok_create:
  assumes "ledger_ok sha fmt db"
  shows "ledger_ok sha fmt (snd (createApprovalGrant sha fmt wall now random mint ctx approver binding db))"
proof -
  have "ledger_ok sha fmt (snd (InWorkspace approver (create_grant_tx sha fmt wall now approver binding i tr) db))"
    if "sc_subject approver \<noteq> ab_proposer binding" for i tr
    by (cases rule: InWorkspace_cases [of approver "create_grant_tx sha fmt wall now approver binding i tr" db])
      (use assms ledger_ok_create_tx [OF assms _ that] in simp_all)
  with assms show ?thesis
    by (auto simp: createApprovalGrant_def split: sum.split prod.split) (metis snd_conv)+
qed

lemma grant_marks [simp]:
  "grant_key (g\<lparr>ag_consumedAt := t\<rparr>) = grant_key g" "grant_evidence sha fmt (g\<lparr>ag_consumedAt := t\<rparr>) = grant_evidence sha fmt g"
  "created_entry sha fmt (g\<lparr>ag_consumedAt := t\<rparr>) e = created_entry sha fmt g e"
  by (simp_all add: grant_key_def grant_evidence_def created_entry_def)

definition spend :: "Time \<Rightarrow> ApprovalBinding \<Rightarrow> string \<Rightarrow> approval_grant \<Rightarrow> approval_grant" where
  "spend now binding identifier r =
     (if grant_spendable now binding identifier r then r\<lparr>ag_consumedAt := Some (truncate_us now)\<rparr> else r)"

lemma spend_simps [simp]:
  "grant_key (spend now b i g) = grant_key g" "created_entry sha fmt (spend now b i g) e = created_entry sha fmt g e"
  "grant_ok g \<Longrightarrow> grant_ok (spend now b i g)"
  by (auto simp: spend_def grant_ok_def grant_spendable_def)

lemma consume_grant_tx_Inr:
  assumes "consume_grant_tx sha fmt wall now proposer binding identifier traceID db = Inr db'"
  obtains g where "g \<in> set (lg_grants db)" "grant_spendable now binding identifier g"
    "map_of (lg_memberships db) (ab_workspaceID binding, ab_proposer binding) = Some (sc_role proposer)"
    "appendPolicyAuditEntryTx sha fmt wall (sc_workspaceID proposer)
       (lifecycle_entry now traceID (ab_workspaceID binding) proposer ActionProposeIntent approvalConsumedEventKind
          (grant_evidence sha fmt g)) (db\<lparr>lg_grants := map (spend now binding identifier) (lg_grants db)\<rparr>) = Inr db'"
  using assms unfolding consume_grant_tx_def Let_def spend_def [abs_def]
  by (auto split: option.splits if_splits simp: find_Some_iff in_set_conv_nth)

lemma ledger_ok_consume:
  assumes "ledger_ok sha fmt db"
  shows "ledger_ok sha fmt (snd (ConsumeApprovalGrant sha fmt wall now mint ctx proposer binding identifier db))"
proof -
  have tx: "ledger_ok sha fmt db'" if "consume_grant_tx sha fmt wall now proposer binding identifier tr db = Inr db'" for tr db'
  proof (rule consume_grant_tx_Inr [OF that])
    fix g
    let ?db = "db\<lparr>lg_grants := map (spend now binding identifier) (lg_grants db)\<rparr>"
    assume run: "appendPolicyAuditEntryTx sha fmt wall (sc_workspaceID proposer)
       (lifecycle_entry now tr (ab_workspaceID binding) proposer ActionProposeIntent approvalConsumedEventKind
          (grant_evidence sha fmt g)) ?db = Inr db'"
    obtain e' where e': "lg_entries db' = lg_entries db @ [e']" using run by (rule append_entry) simp
    have "\<forall>v. chain_ok sha fmt ?db v" using assms by (auto simp: ledger_ok_def intro: chain_ok_cong)
    then show "ledger_ok sha fmt db'"
      using assms by (intro ledger_ok_append [OF run]) (auto simp: ledger_ok_def e' comp_def)
  qed
  have "ledger_ok sha fmt (snd (InWorkspace proposer (consume_grant_tx sha fmt wall now proposer binding identifier tr) db))" for tr
    by (cases rule: InWorkspace_cases [of proposer "consume_grant_tx sha fmt wall now proposer binding identifier tr" db])
      (use assms tx in simp_all)
  with assms show ?thesis by (auto simp: ConsumeApprovalGrant_def split: sum.split prod.split)
qed

lemma ledger_ok_empty: "ledger_ok sha fmt empty_ledger"
proof -
  have "sint (0 :: 64 word) = 0" by simp
  then show ?thesis
    by (simp add: ledger_ok_def empty_ledger_def chain_ok_def rows_of_def head_of_def genesis_head_def verified_run_def
        zero_hash_text)
qed

lemma ledger_ok_exec: "ledger_ok sha fmt db \<Longrightarrow> ledger_ok sha fmt (ledger_exec sha fmt oper db)"
  by (cases oper) (auto simp: ledger_ok_Record ledger_ok_create ledger_ok_consume intro: ledger_ok_cong)

interpretation ledger: safety_system "\<lambda>db. db = empty_ledger" "ledger_step sha fmt" "ledger_ok sha fmt" for sha fmt
  by unfold_locales (simp_all add: ledger_ok_empty ledger_step_def ledger_ok_exec)

subsection \<open>Exports\<close>

lemma policyAuditEntryHash_same:
  "policyAuditEntryHash sha fmt (e\<lparr>pa_entryHash := h\<rparr>) = policyAuditEntryHash sha fmt e"
  by (simp add: policyAuditEntryHash_def portable_with_hash)

lemma row_sealed:
  assumes "pa_entryHash e = policyAuditEntryHash sha fmt e" "length (pa_entryHash e) = 32"
  shows "sealed sha fmt (pa_workspaceID e, portablePolicyAuditEntry e)"
  using policyAuditEntryHash_sealed [of sha fmt e e] assms by simp

lemma sealed_row:
  assumes "sealed sha fmt (pa_workspaceID e, portablePolicyAuditEntry e)" "length (pa_entryHash e) = 32"
  shows "policyAuditEntryHash sha fmt e = pa_entryHash e"
proof -
  have "RecomputeEntryHash sha fmt (pa_workspaceID e) (portablePolicyAuditEntry e) = Inr (auditHashString (pa_entryHash e))"
    using assms(1) by (simp add: sealed_pair portablePolicyAuditEntry_def)
  moreover have "hex_decode (trim_prefix (auditHashString (pa_entryHash e)) ''sha256:'') = Some (pa_entryHash e)"
    by (simp add: auditHashString_def trim_prefix_def has_prefix_def hex_roundtrip)
  ultimately show ?thesis using assms(2) by (simp add: policyAuditEntryHash_def)
qed

lemma verify_rows_run:
  assumes "verify_rows sha fmt wall w room s p rows = Inr (s', p')" "length p = 32" "0 < sint s" "sint s + int (length rows) < 2 ^ 63"
  shows "verified_run sha fmt w s (auditHashString p) (map portablePolicyAuditEntry rows) (auditHashString p') \<and>
    s' = s + of_nat (length rows) \<and> length p' = 32"
  using assms
proof (induction rows arbitrary: room s p)
  case (Cons e rows)
  have ok: "pa_sequence e = s" "pa_workspaceID e = w" "length (pa_entryHash e) = 32" "pa_previousHash e = p"
    "pa_entryHash e = policyAuditEntryHash sha fmt e"
    and rest: "verify_rows sha fmt wall w (map_option (\<lambda>k. k - 1) room) (s + 1) (pa_entryHash e) rows = Inr (s', p')"
    using Cons.prems(1) by (auto split: if_splits)
  have "sint (s + 1) = sint s + 1" by (rule sint_succ) (use Cons.prems(3,4) in simp_all)
  with Cons.IH [OF rest ok(3)] Cons.prems(3,4)
  have ih: "verified_run sha fmt w (s + 1) (auditHashString (pa_entryHash e)) (map portablePolicyAuditEntry rows) (auditHashString p')"
    "s' = s + 1 + of_nat (length rows)" "length p' = 32" by simp_all
  have "sealed sha fmt (w, portablePolicyAuditEntry e)" using row_sealed [OF ok(5,3)] ok(2) by simp
  moreover have "validHash (auditHashString (pa_entryHash e))" using hex_hash_valid [OF ok(3)] by (simp add: auditHashString_def)
  ultimately show ?case
    using ih ok Cons.prems(3) by (simp add: verified_run_def) (simp add: portablePolicyAuditEntry_def)
qed (simp add: verified_run_def)

lemma read_chain_Inr:
  assumes "readVerifiedPolicyAuditChainTx sha fmt wall scope MaxEntries db = Inr (entries, headSequence, headHash)"
  shows "entries = workspace_rows (sc_workspaceID scope) db \<and> 0 < sint headSequence \<and> length entries \<le> MaxEntries \<and>
    (\<exists>s' p'. verify_rows sha fmt wall (sc_workspaceID scope) (Some MaxEntries) 1 (replicate 32 NUL) entries = Inr (s', p') \<and>
       s' - 1 = headSequence \<and> p' = headHash)"
proof -
  have room: "length rows \<le> n" if "verify_rows sha fmt wall w (Some n) s p rows = Inr x" for w n s p x and rows :: "policyAuditEntry list"
    using that
  proof (induction rows arbitrary: n s p)
    case (Cons e rows)
    then have "0 < n" "length rows \<le> n - 1" by (auto split: if_splits)
    then show ?case by simp
  qed simp
  show ?thesis
    using assms room by (fastforce simp: readVerifiedPolicyAuditChainTx_def Let_def rbind_eq_Inr not_le split: option.splits if_splits prod.splits)
qed

text \<open>
  C11: an exported audit chain always verifies offline. Whatever the tables hold, tampered with or not,
  an export that the database hands out was asked for by an administrator's scope, is for the
  workspace of that scope and passes the portable document's full verification.
\<close>
theorem export_verifies:
  assumes "ExportPolicyAuditChain sha fmt wall scope db = Inr ex" and "\<not> workspaceInvalid (sc_workspaceID scope)"
  shows "sc_role scope = RoleAdmin \<and> ex_WorkspaceID ex = sc_workspaceID scope \<and> Export_Verify sha fmt ex = Inr ()"
proof -
  let ?w = "sc_workspaceID scope"
  obtain entries hs hh where r: "readVerifiedPolicyAuditChainTx sha fmt wall scope MaxEntries db = Inr (entries, hs, hh)"
    "ex = newPolicyAuditExport ?w entries hs hh" and admin: "is_ok (Authorize scope ActionExportAudit)"
    using assms(1) by (auto simp: ExportPolicyAuditChain_def inWorkspaceReadSnapshot_def rbind_eq_Inr split: if_splits)
  note rd = read_chain_Inr [OF r(1)]
  obtain s' p' where v: "verify_rows sha fmt wall ?w (Some MaxEntries) 1 (replicate 32 NUL) entries = Inr (s', p')"
    "s' - 1 = hs" "p' = hh" using rd by blast
  have len: "length entries \<le> MaxEntries" using rd by blast
  have run: "verified_run sha fmt ?w 1 zeroHash (map portablePolicyAuditEntry entries) (auditHashString hh)"
    "s' = 1 + of_nat (length entries)" "length hh = 32"
    using verify_rows_run [OF v(1)] len v(3) by (simp_all add: zero_hash_text)
  have "entries \<noteq> []" using rd run(2) v(2) by auto
  moreover have "sc_role scope = RoleAdmin"
    using admin by (auto simp: Authorize_def Role_Allows_def split: if_splits)
  moreover have "validHash (auditHashString hh)" using hex_hash_valid [OF run(3)] by (simp add: auditHashString_def)
  ultimately show ?thesis
    using run(1,2) len v(2) assms(2) by (simp add: Export_Verify_Inr r(2) newPolicyAuditExport_def)
qed

lemma event_wall:
  assumes "is_ok (AuditEvent_Validate wall x)" "ae_At x \<le> wall' + 60 * 1000000000"
  shows "AuditEvent_Validate wall' x = AuditEvent_Validate wall x"
proof -
  have a: "\<not> (ae_At x = 0 \<or> ae_At x > wall + 60 * 1000000000)"
    by (rule notI) (use assms(1) in \<open>simp add: AuditEvent_Validate_def\<close>)
  with assms(2) have b: "\<not> (ae_At x = 0 \<or> ae_At x > wall' + 60 * 1000000000)" by simp
  show ?thesis unfolding AuditEvent_Validate_def if_not_P [OF a] if_not_P [OF b] ..
qed

lemma validate_mono:
  assumes "is_ok (validatePolicyAuditEntry wall e)" "pa_recordedAt e \<le> wall' + 60 * 1000000000"
  shows "is_ok (validatePolicyAuditEntry wall' e)"
proof (cases "pa_format e = 1")
  case True
  let ?x = "\<lparr>ae_At = pa_recordedAt e, ae_TraceID = pa_traceID e, ae_WorkspaceID = pa_workspaceID e,
       ae_Actor = pa_actor e, ae_Role = pa_role e, ae_Action = pa_action e, ae_Verb = pa_verb e,
       ae_Verdict = pa_verdict e, ae_ReasonCode = pa_reasonCode e\<rparr>"
  have "is_ok (AuditEvent_Validate wall ?x)"
    using assms(1) True unfolding validatePolicyAuditEntry_def
    by (simp add: is_ok_iff split: if_splits sum.splits)
  from event_wall [OF this, of wall'] assms(2) have eq: "AuditEvent_Validate wall' ?x = AuditEvent_Validate wall ?x" by simp
  show ?thesis using assms(1) unfolding validatePolicyAuditEntry_def if_P [OF True] eq .
next
  case False
  let ?bad = "\<lambda>wall. pa_recordedAt e = 0 \<or> pa_recordedAt e > wall + 60 * 1000000000 \<or> \<not> ID_Valid (pa_traceID e) \<or>
            \<not> approvalEvidencePattern (pa_evidence e) \<or> pa_verb e \<noteq> approvalAuditVerb \<or>
            pa_verdict e \<noteq> VerdictAllow \<or> pa_reasonCode e \<noteq> pa_eventKind e"
  have a: "\<not> ?bad wall"
    by (rule notI) (use assms(1) False in \<open>simp add: validatePolicyAuditEntry_def split: if_splits\<close>)
  with assms(2) have b: "\<not> ?bad wall'" by simp
  show ?thesis
    using assms(1) unfolding validatePolicyAuditEntry_def if_not_P [OF False] if_not_P [OF a] if_not_P [OF b] .
qed

lemma run_verify_rows:
  assumes "verified_run sha fmt w s (auditHashString p) (map portablePolicyAuditEntry rows) q"
    "\<forall>e \<in> set rows. row_ok e \<and> pa_recordedAt e \<le> wall + 60 * 1000000000 \<and> pa_workspaceID e = w" "length rows \<le> n"
  shows "\<exists>p'. verify_rows sha fmt wall w (Some n) s p rows = Inr (s + of_nat (length rows), p') \<and> auditHashString p' = q"
  using assms
proof (induction rows arbitrary: s p n)
  case (Cons e rows)
  have row: "row_ok e" "pa_workspaceID e = w" and wall: "pa_recordedAt e \<le> wall + 60 * 1000000000" using Cons.prems(2) by simp_all
  have seal: "sealed sha fmt (pa_workspaceID e, portablePolicyAuditEntry e)" using Cons.prems(1) row(2) by (simp add: verified_run_def)
  have link: "pa_previousHash e = p" "pa_sequence e = s"
    using Cons.prems(1) by (simp_all add: verified_run_def) (simp_all add: portablePolicyAuditEntry_def auditHashString_inj)
  have valid: "is_ok (validatePolicyAuditEntry wall e)"
    using row(1) wall validate_mono unfolding row_ok_def by blast
  have rest: "verified_run sha fmt w (s + 1) (auditHashString (pa_entryHash e)) (map portablePolicyAuditEntry rows) q"
    using Cons.prems(1) by (simp add: verified_run_def) (simp add: portablePolicyAuditEntry_def)
  obtain m where n: "n = Suc m" "length rows \<le> m" using Cons.prems(3) by (cases n) auto
  obtain p' where "verify_rows sha fmt wall w (Some m) (s + 1) (pa_entryHash e) rows = Inr (s + 1 + of_nat (length rows), p')"
    "auditHashString p' = q"
    using Cons.IH [OF rest _ n(2)] Cons.prems(2) by auto
  with row valid link sealed_row [OF seal] n(1) show ?case by (simp add: row_ok_def algebra_simps)
qed (simp add: verified_run_def auditHashString_inj)

text \<open>The rows of a workspace are stored in the order of their sequence numbers.\<close>

lemma numbered_sorted:
  assumes "numbered s es" "0 \<le> sint s" "sint s + int (length es) \<le> 2 ^ 63 - 1"
  shows "sorted (map (\<lambda>e. sint (au_Sequence e)) es) \<and> (\<forall>e \<in> set es. sint s \<le> sint (au_Sequence e))"
  using assms
proof (induction es arbitrary: s)
  case (Cons e es)
  have "sint (s + 1) = sint s + 1" by (rule sint_succ) (use Cons.prems(2,3) in simp_all)
  with Cons.IH [of "s + 1"] Cons.prems show ?case by fastforce
qed simp

lemma workspace_rows_ok:
  assumes "chain_ok sha fmt db w" "length (rows_of w db) \<le> MaxEntries"
  shows "workspace_rows w db = rows_of w db"
proof -
  have "numbered 1 (map portablePolicyAuditEntry (rows_of w db))"
    using assms(1) by (simp add: chain_ok_def Let_def verified_run_def)
  from numbered_sorted [OF this] assms(2)
  have "sorted (map (\<lambda>e. sint (pa_sequence e)) (rows_of w db))"
    by (simp add: comp_def portablePolicyAuditEntry_def)
  then show ?thesis unfolding workspace_rows_def rows_of_def by (rule sort_key_id_if_sorted)
qed

text \<open>
  C12: an honest ledger can always be exported. In every reachable database, a workspace that has
  between one and 512 retained entries, none of them stamped more than a minute ahead of the reader's
  clock, exports to its administrator, and the document lists exactly the retained entries in
  the order they were appended, under the stored head.
\<close>
theorem honest_export_available:
  assumes "ledger_reach sha fmt db" and "sc_role scope = RoleAdmin" and "sc_subject scope \<noteq> []" and "sc_workspaceID scope \<noteq> []"
    and "rows = rows_of (sc_workspaceID scope) db" and "0 < length rows" and "length rows \<le> MaxEntries"
    and "\<forall>e \<in> set rows. pa_recordedAt e \<le> wall + 60 * 1000000000"
    and "map_of (lg_heads db) (sc_workspaceID scope) \<noteq> None"
  shows "ExportPolicyAuditChain sha fmt wall scope db =
    Inr (newPolicyAuditExport (sc_workspaceID scope) rows (of_nat (length rows)) (snd (head_of (sc_workspaceID scope) db)))"
proof -
  let ?w = "sc_workspaceID scope"
  have ok: "chain_ok sha fmt db ?w" using ledger.reach_inv [OF assms(1)] by (simp add: ledger_ok_def)
  obtain hs hh where head: "map_of (lg_heads db) ?w = Some (hs, hh)" using assms(9) by auto
  then have h: "head_of ?w db = (hs, hh)" by (simp add: head_of_def gm_get_def)
  have hs: "hs = of_nat (length rows)" "sint hs = int (length rows)" "length hh = 32"
    using ok [unfolded chain_ok_def Let_def h fst_conv snd_conv assms(5) [symmetric]] by blast+
  have wr: "workspace_rows ?w db = rows" using workspace_rows_ok [OF ok] assms(5,7) by simp
  have run: "verified_run sha fmt ?w 1 (auditHashString (replicate 32 NUL)) (map portablePolicyAuditEntry rows) (auditHashString hh)"
    using ok by (simp add: chain_ok_def Let_def h assms(5) zero_hash_text)
  have "\<forall>e \<in> set rows. row_ok e \<and> pa_recordedAt e \<le> wall + 60 * 1000000000 \<and> pa_workspaceID e = ?w"
    using ok assms(5,8) by (auto simp: chain_ok_def Let_def rows_of_def)
  from run_verify_rows [OF run this assms(7)] obtain p'
    where v: "verify_rows sha fmt wall ?w (Some MaxEntries) 1 (replicate 32 NUL) rows = Inr (1 + of_nat (length rows), p')"
      "auditHashString p' = auditHashString hh" by blast
  have "readVerifiedPolicyAuditChainTx sha fmt wall scope MaxEntries db = Inr (rows, hs, hh)"
    using v hs assms(6,7) by (simp add: readVerifiedPolicyAuditChainTx_def head wr auditHashString_inj Let_def)
  then show ?thesis
    using assms(2-4) hs(1) h
    by (simp add: ExportPolicyAuditChain_def inWorkspaceReadSnapshot_def Authorize_def Role_Allows_def Role_Valid_def
        RequireWorkspace_def)
qed

subsection \<open>Approval grants\<close>

lemma consume_Inr:
  assumes "ConsumeApprovalGrant sha fmt wall now mint ctx proposer binding identifier db = (Inr (), db')"
  obtains traceID where "consume_grant_tx sha fmt wall now proposer binding identifier traceID db = Inr db'"
    "sc_subject proposer = ab_proposer binding" "sc_workspaceID proposer = ab_workspaceID binding"
    "Role_Allows (sc_role proposer) ActionProposeIntent"
proof -
  obtain c traceID where guards: "is_ok (Authorize proposer ActionProposeIntent)" "is_ok (RequireWorkspace proposer (ab_workspaceID binding))"
      "sc_subject proposer = ab_proposer binding"
    and run: "InWorkspace proposer (consume_grant_tx sha fmt wall now proposer binding identifier traceID) db = (Inr (), db')"
    using assms by (auto simp: ConsumeApprovalGrant_def split: if_splits sum.splits)
  from run have "consume_grant_tx sha fmt wall now proposer binding identifier traceID db = Inr db'"
    by (auto simp: InWorkspace_def split: if_splits sum.splits)
  with guards show thesis by (intro that) (auto simp: Authorize_def RequireWorkspace_def split: if_splits)
qed

text \<open>
  C9: spending an approval is exact. When a grant is consumed in a reachable database, it is the stored
  grant with that identifier for exactly this workspace, intent, proposer and resolved digest; it was
  approved by somebody other than the proposer, no more than ten minutes ago, and had not been spent; its
  creation by that approver, in the approver role, is in the audit log with the same evidence digest;
  and afterwards the grant is marked spent and the consumption is the newest audit entry.
\<close>
theorem grant_consumption_sound:
  assumes "ledger_reach sha fmt db"
    and "ConsumeApprovalGrant sha fmt wall now mint ctx proposer binding identifier db = (Inr (), db')"
  shows "\<exists>g e. g \<in> set (lg_grants db) \<and> ag_workspace g = ab_workspaceID binding \<and> ag_id g = identifier \<and>
    ag_intent g = ab_intentID binding \<and> ag_proposer g = sc_subject proposer \<and> ag_digest g = ab_resolvedDigest binding \<and>
    ag_approver g \<noteq> sc_subject proposer \<and> ag_consumedAt g = None \<and>
    ag_approvedAt g \<le> truncate_us now \<and> truncate_us now < ag_approvedAt g + 600 * 1000000000 \<and>
    (\<exists>c \<in> set (lg_entries db). created_entry sha fmt g c) \<and>
    g\<lparr>ag_consumedAt := Some (truncate_us now)\<rparr> \<in> set (lg_grants db') \<and>
    lg_entries db' = lg_entries db @ [e] \<and> pa_eventKind e = approvalConsumedEventKind \<and>
    pa_actor e = sc_subject proposer \<and> pa_evidence e = grant_evidence sha fmt g"
proof -
  have inv: "ledger_ok sha fmt db" by (rule ledger.reach_inv [OF assms(1)])
  obtain traceID where tx: "consume_grant_tx sha fmt wall now proposer binding identifier traceID db = Inr db'"
    and who: "sc_subject proposer = ab_proposer binding"
    using consume_Inr [OF assms(2)] by metis
  obtain g where g: "g \<in> set (lg_grants db)" "grant_spendable now binding identifier g"
    and run: "appendPolicyAuditEntryTx sha fmt wall (sc_workspaceID proposer)
       (lifecycle_entry now traceID (ab_workspaceID binding) proposer ActionProposeIntent approvalConsumedEventKind
          (grant_evidence sha fmt g)) (db\<lparr>lg_grants := map (spend now binding identifier) (lg_grants db)\<rparr>) = Inr db'"
    using consume_grant_tx_Inr [OF tx] by metis
  obtain e where e: "lg_entries db' = lg_entries db @ [e]" "lg_grants db' = map (spend now binding identifier) (lg_grants db)"
    "pa_eventKind e = approvalConsumedEventKind" "pa_actor e = sc_subject proposer" "pa_evidence e = grant_evidence sha fmt g"
    by (rule append_entry [OF run]) (simp add: lifecycle_entry_def)
  have "spend now binding identifier g = g\<lparr>ag_consumedAt := Some (truncate_us now)\<rparr>" using g(2) by (simp add: spend_def)
  then have spent: "g\<lparr>ag_consumedAt := Some (truncate_us now)\<rparr> \<in> set (lg_grants db')"
    using g(1) by (metis e(2) imageI set_map)
  have gok: "grant_ok g" "\<exists>c \<in> set (lg_entries db). created_entry sha fmt g c" using inv g(1) by (auto simp: ledger_ok_def)
  show ?thesis
    by (rule exI [of _ g], rule exI [of _ e]) (use g gok spent e who in \<open>auto simp: grant_spendable_def grant_ok_def\<close>)
qed

text \<open>A grant that was spent: its key is taken and every row under it is consumed.\<close>

definition spent :: "string \<Rightarrow> string \<Rightarrow> Ledger \<Rightarrow> bool" where
  "spent w i db \<longleftrightarrow> (w, i) \<in> grant_key ` set (lg_grants db) \<and>
     (\<forall>g \<in> set (lg_grants db). grant_key g = (w, i) \<longrightarrow> ag_consumedAt g \<noteq> None)"

lemma spent_append: "appendPolicyAuditEntryTx sha fmt wall v e db = Inr db' \<Longrightarrow> spent w i db' = spent w i db"
  by (erule append_entry) (simp add: spent_def)

lemma spent_InWorkspace:
  assumes "spent w i db" "\<And>db'. run db = Inr db' \<Longrightarrow> spent w i db'"
  shows "spent w i (snd (InWorkspace scope run db))"
  using assms by (auto simp: InWorkspace_def split: sum.split)

lemma spent_create_tx:
  assumes "spent w i db" "create_grant_tx sha fmt wall now approver binding identifier traceID db = Inr db'"
  shows "spent w i db'"
proof (rule create_grant_tx_Inr [OF assms(2)])
  fix g
  assume run: "appendPolicyAuditEntryTx sha fmt wall (sc_workspaceID approver)
       (lifecycle_entry (truncate_us now) traceID (ab_workspaceID binding) approver ActionApproveIntent
          approvalCreatedEventKind (grant_evidence sha fmt g)) (db\<lparr>lg_grants := lg_grants db @ [g]\<rparr>) = Inr db'"
    and fresh: "grant_key g \<notin> grant_key ` set (lg_grants db)"
  have "spent w i (db\<lparr>lg_grants := lg_grants db @ [g]\<rparr>)" using assms(1) fresh by (auto simp: spent_def)
  with spent_append [OF run] show ?thesis by simp
qed

lemma spend_keys: "grant_key ` set (map (spend now b k) gs) = grant_key ` set gs"
  by (simp add: image_image)

lemma spend_consumed: "ag_consumedAt g \<noteq> None \<Longrightarrow> ag_consumedAt (spend now b k g) \<noteq> None"
  by (simp add: spend_def)

lemma spent_update:
  "spent w i (db\<lparr>lg_grants := gs\<rparr>) \<longleftrightarrow> (w, i) \<in> grant_key ` set gs \<and>
     (\<forall>g \<in> set gs. grant_key g = (w, i) \<longrightarrow> ag_consumedAt g \<noteq> None)"
  by (simp add: spent_def)

lemma spent_spend:
  assumes "spent w i db"
  shows "spent w i (db\<lparr>lg_grants := map (spend now b k) (lg_grants db)\<rparr>)"
  unfolding spent_update spend_keys
proof (intro conjI ballI impI)
  show "(w, i) \<in> grant_key ` set (lg_grants db)" using assms unfolding spent_def by (rule conjunct1)
  fix h assume h: "h \<in> set (map (spend now b k) (lg_grants db))" "grant_key h = (w, i)"
  then obtain g where g: "g \<in> set (lg_grants db)" "h = spend now b k g" by auto
  with h(2) assms have "ag_consumedAt g \<noteq> None" by (simp add: spent_def)
  then show "ag_consumedAt h \<noteq> None" unfolding g(2) by (rule spend_consumed)
qed

lemma spent_consume_tx:
  assumes "spent w i db" "consume_grant_tx sha fmt wall now proposer binding identifier traceID db = Inr db'"
  shows "spent w i db'"
proof (rule consume_grant_tx_Inr [OF assms(2)])
  fix g
  let ?db = "db\<lparr>lg_grants := map (spend now binding identifier) (lg_grants db)\<rparr>"
  assume run: "appendPolicyAuditEntryTx sha fmt wall (sc_workspaceID proposer)
       (lifecycle_entry now traceID (ab_workspaceID binding) proposer ActionProposeIntent approvalConsumedEventKind
          (grant_evidence sha fmt g)) ?db = Inr db'"
  have "spent w i ?db" by (rule spent_spend [OF assms(1)])
  with spent_append [OF run] show ?thesis by simp
qed

lemma spent_exec: "spent w i db \<Longrightarrow> spent w i (ledger_exec sha fmt oper db)"
proof (cases oper)
  case (LRecord wall ev)
  assume "spent w i db"
  then show ?thesis
    using spent_append by (auto simp: LRecord AppDB_Record_def intro!: spent_InWorkspace split: sum.split)
next
  case (LCreate wall now random mint ctx approver binding)
  assume s: "spent w i db"
  have "spent w i (snd (InWorkspace approver (create_grant_tx sha fmt wall now approver binding j tr) db))" for j tr
    by (rule spent_InWorkspace [OF s]) (rule spent_create_tx [OF s])
  with s show ?thesis
    by (auto simp: LCreate createApprovalGrant_def split: sum.split prod.split) (metis snd_conv)+
next
  case (LConsume wall now mint ctx proposer binding j)
  assume s: "spent w i db"
  have "spent w i (snd (InWorkspace proposer (consume_grant_tx sha fmt wall now proposer binding j tr) db))" for tr
    by (rule spent_InWorkspace [OF s]) (rule spent_consume_tx [OF s])
  with s show ?thesis by (auto simp: LConsume ConsumeApprovalGrant_def split: sum.split prod.split)
qed (simp_all add: spent_def)

interpretation spent_grant: safety_system "spent w i" "ledger_step sha fmt" "spent w i" for w i sha fmt
  by unfold_locales (simp_all add: ledger_step_def spent_exec)

lemma spent_refuses:
  assumes "spent (ab_workspaceID binding) identifier db"
  shows "\<not> is_ok (fst (ConsumeApprovalGrant sha fmt wall now mint ctx proposer binding identifier db))"
proof
  assume "is_ok (fst (ConsumeApprovalGrant sha fmt wall now mint ctx proposer binding identifier db))"
  then obtain db' where "ConsumeApprovalGrant sha fmt wall now mint ctx proposer binding identifier db = (Inr (), db')"
    by (cases "ConsumeApprovalGrant sha fmt wall now mint ctx proposer binding identifier db") (auto simp: is_ok_iff)
  then obtain tr where "consume_grant_tx sha fmt wall now proposer binding identifier tr db = Inr db'" by (rule consume_Inr)
  then obtain g where "g \<in> set (lg_grants db)" "grant_spendable now binding identifier g" by (rule consume_grant_tx_Inr)
  with assms show False by (auto simp: spent_def grant_spendable_def grant_key_def)
qed

text \<open>
  C8: an approval is spent at most once. After a grant was consumed, in every later state of the database,
  whatever requests, grants, membership changes and clock readings came between, consuming that identifier
  in that workspace is refused, for every proposer and every proposal.
\<close>
theorem grant_single_use:
  assumes "ledger_reach sha fmt db"
    and "ConsumeApprovalGrant sha fmt wall now mint ctx proposer binding identifier db = (Inr (), db1)"
    and "reach (\<lambda>d. d = db1) (ledger_step sha fmt) db2"
    and "ab_workspaceID binding' = ab_workspaceID binding"
  shows "\<not> is_ok (fst (ConsumeApprovalGrant sha fmt wall' now' mint' ctx' proposer' binding' identifier db2))"
proof -
  have inv: "ledger_ok sha fmt db" by (rule ledger.reach_inv [OF assms(1)])
  obtain tr where tx: "consume_grant_tx sha fmt wall now proposer binding identifier tr db = Inr db1"
    using assms(2) by (rule consume_Inr)
  then obtain g where g: "g \<in> set (lg_grants db)" "grant_spendable now binding identifier g"
    and run: "appendPolicyAuditEntryTx sha fmt wall (sc_workspaceID proposer)
       (lifecycle_entry now tr (ab_workspaceID binding) proposer ActionProposeIntent approvalConsumedEventKind
          (grant_evidence sha fmt g)) (db\<lparr>lg_grants := map (spend now binding identifier) (lg_grants db)\<rparr>) = Inr db1"
    using consume_grant_tx_Inr [OF tx] by metis
  have key: "grant_key g = (ab_workspaceID binding, identifier)" using g(2) by (simp add: grant_spendable_def grant_key_def)
  have only: "h = g" if "h \<in> set (lg_grants db)" "grant_key h = grant_key g" for h
    using inv that g(1) by (auto simp: ledger_ok_def distinct_map inj_on_def)
  have "spent (ab_workspaceID binding) identifier (db\<lparr>lg_grants := map (spend now binding identifier) (lg_grants db)\<rparr>)"
    unfolding spent_update spend_keys
  proof (intro conjI ballI impI)
    show "(ab_workspaceID binding, identifier) \<in> grant_key ` set (lg_grants db)" using g(1) key by (metis imageI)
    fix h assume h: "h \<in> set (map (spend now binding identifier) (lg_grants db))" "grant_key h = (ab_workspaceID binding, identifier)"
    then obtain h0 where h0: "h0 \<in> set (lg_grants db)" "h = spend now binding identifier h0" by auto
    then have "h0 = g" using h(2) key by (intro only) simp_all
    then show "ag_consumedAt h \<noteq> None" using g(2) h0(2) by (simp add: spend_def)
  qed
  then have "spent (ab_workspaceID binding) identifier db1" using spent_append [OF run] by simp
  with assms(3) have "reach (spent (ab_workspaceID binding) identifier) (ledger_step sha fmt) db2"
    by (induction rule: reach.induct) (auto intro: reach.intros)
  from spent_refuses [of binding' "identifier"] spent_grant.reach_inv [OF this] assms(4) show ?thesis by simp
qed

subsection \<open>Witnesses\<close>

lemma ledger_run_reach: "ledger_reach sha fmt (fold (ledger_exec sha fmt) opers empty_ledger)"
proof -
  have "ledger_reach sha fmt (fold (ledger_exec sha fmt) opers db)" if "ledger_reach sha fmt db" for db
    using that
  proof (induction opers arbitrary: db)
    case (Cons x xs)
    have "ledger_reach sha fmt (ledger_exec sha fmt x db)"
      by (rule reach_step [OF Cons.prems, of x]) (simp add: ledger_step_def)
    then show ?case by (simp add: Cons.IH)
  qed simp
  then show ?thesis by (simp add: reach_init)
qed

definition fixed_time :: "Time \<Rightarrow> string" where
  "fixed_time t = ''t''"

definition sample_binding :: ApprovalBinding where
  "sample_binding = \<lparr>ab_intentID = ''intent-1'', ab_workspaceID = ''local'', ab_proposer = ''alice'',
     ab_resolvedDigest = ''sha256:'' @ replicate 64 CHR ''b''\<rparr>"

definition local_scope :: "string \<Rightarrow> Role \<Rightarrow> Scope" where
  "local_scope subject role = \<lparr>sc_workspaceID = ''local'', sc_subject = subject, sc_role = role\<rparr>"

definition sample_ledger :: Ledger where
  "sample_ledger = fold (ledger_exec sample_sha fixed_time)
     [LWorkspace ''local'', LMembers [((''local'', ''alice''), RoleOperator), ((''local'', ''bob''), RoleApprover)],
      LCreate 7000000 7000000 (Some (replicate 16 CHR ''r'')) None (Some (replicate 32 CHR ''a''))
        (local_scope ''bob'' RoleApprover) sample_binding] empty_ledger"

definition sample_grant_id :: string where
  "sample_grant_id = b64_encode (replicate 16 CHR ''r'')"

definition spend_sample :: "Time \<Rightarrow> Ledger \<Rightarrow> (ledger_error, unit) result \<times> Ledger" where
  "spend_sample now = ConsumeApprovalGrant sample_sha fixed_time now now None (Some (replicate 32 CHR ''c''))
     (local_scope ''alice'' RoleOperator) sample_binding sample_grant_id"

definition export_sample :: "Ledger \<Rightarrow> (ledger_error, Export) result" where
  "export_sample = ExportPolicyAuditChain sample_sha fixed_time 9000000 (local_scope ''carol'' RoleAdmin)"

text \<open>What the witnesses need of the sample ledger, evaluated once.\<close>

definition sample_checks :: "Ledger \<Rightarrow> bool" where
  "sample_checks db = (is_ok (fst (spend_sample 8000000 db)) \<and> is_ok (export_sample db) \<and> length (rows_of ''local'' db) = 1 \<and>
     list_all (\<lambda>e. pa_recordedAt e \<le> 9000000 + 60 * 1000000000) (rows_of ''local'' db) \<and>
     map_of (lg_heads db) ''local'' \<noteq> None \<and> List.member (lg_workspaces db) ''local'')"

lemma sample_ledger_checks: "sample_checks sample_ledger"
  by code_simp

lemma sample_ledger_reach: "ledger_reach sample_sha fixed_time sample_ledger"
  unfolding sample_ledger_def by (rule ledger_run_reach)

lemma sample_ledger_facts:
  "is_ok (fst (spend_sample 8000000 sample_ledger))" "is_ok (export_sample sample_ledger)"
  "length (rows_of ''local'' sample_ledger) = 1"
  "list_all (\<lambda>e. pa_recordedAt e \<le> 9000000 + 60 * 1000000000) (rows_of ''local'' sample_ledger)"
  "map_of (lg_heads sample_ledger) ''local'' \<noteq> None" "List.member (lg_workspaces sample_ledger) ''local''"
  using sample_ledger_checks unfolding sample_checks_def by blast+

theorem export_verifies_witness:
  "\<exists>ex. ExportPolicyAuditChain sample_sha fixed_time 9000000 (local_scope ''carol'' RoleAdmin) sample_ledger = Inr ex \<and>
     ex_WorkspaceID ex = ''local'' \<and> Export_Verify sample_sha fixed_time ex = Inr ()"
proof -
  obtain ex where ex: "ExportPolicyAuditChain sample_sha fixed_time 9000000 (local_scope ''carol'' RoleAdmin) sample_ledger = Inr ex"
    using sample_ledger_facts(2) by (auto simp: is_ok_iff export_sample_def)
  have ws: "sc_workspaceID (local_scope ''carol'' RoleAdmin) = ''local''" by (simp add: local_scope_def)
  have "\<not> workspaceInvalid ''local''" by code_simp
  with export_verifies [OF ex] ex show ?thesis by (auto simp: ws)
qed

theorem honest_export_available_witness:
  "ExportPolicyAuditChain sample_sha fixed_time 9000000 (local_scope ''carol'' RoleAdmin) sample_ledger =
     Inr (newPolicyAuditExport ''local'' (rows_of ''local'' sample_ledger) 1 (snd (head_of ''local'' sample_ledger)))"
proof -
  have ws: "sc_workspaceID (local_scope ''carol'' RoleAdmin) = ''local''" "sc_role (local_scope ''carol'' RoleAdmin) = RoleAdmin"
    "sc_subject (local_scope ''carol'' RoleAdmin) \<noteq> []" by (simp_all add: local_scope_def)
  have "ExportPolicyAuditChain sample_sha fixed_time 9000000 (local_scope ''carol'' RoleAdmin) sample_ledger =
     Inr (newPolicyAuditExport ''local'' (rows_of ''local'' sample_ledger) (of_nat (length (rows_of ''local'' sample_ledger)))
       (snd (head_of ''local'' sample_ledger)))"
    using honest_export_available [OF sample_ledger_reach ws(2,3) _ refl _ _ _ _, of 9000000, unfolded ws] sample_ledger_facts(3-5)
    by (simp add: list_all_iff)
  with sample_ledger_facts(3) show ?thesis by simp
qed

lemma spend_sample_run:
  "ConsumeApprovalGrant sample_sha fixed_time 8000000 8000000 None (Some (replicate 32 CHR ''c''))
     (local_scope ''alice'' RoleOperator) sample_binding sample_grant_id sample_ledger = (Inr (), snd (spend_sample 8000000 sample_ledger))"
proof -
  have "fst (spend_sample 8000000 sample_ledger) = Inr ()" using sample_ledger_facts(1) by (auto simp: is_ok_iff)
  then show ?thesis by (metis spend_sample_def prod.collapse)
qed

theorem grant_consumption_sound_witness:
  "\<exists>g. g \<in> set (lg_grants sample_ledger) \<and> ag_id g = sample_grant_id \<and> ag_approver g \<noteq> ''alice'' \<and> ag_consumedAt g = None \<and>
     g\<lparr>ag_consumedAt := Some (truncate_us 8000000)\<rparr> \<in> set (lg_grants (snd (spend_sample 8000000 sample_ledger)))"
proof -
  have "sc_subject (local_scope ''alice'' RoleOperator) = ''alice''" by (simp add: local_scope_def)
  with grant_consumption_sound [OF sample_ledger_reach spend_sample_run] show ?thesis by metis
qed

theorem grant_single_use_witness:
  "is_ok (fst (spend_sample 8000000 sample_ledger)) \<and>
   \<not> is_ok (fst (spend_sample 8500000 (snd (spend_sample 8000000 sample_ledger))))"
proof -
  have "reach (\<lambda>d. d = snd (spend_sample 8000000 sample_ledger)) (ledger_step sample_sha fixed_time) (snd (spend_sample 8000000 sample_ledger))"
    by (simp add: reach_init)
  from grant_single_use [OF sample_ledger_reach spend_sample_run this refl] sample_ledger_facts(1)
  show ?thesis unfolding spend_sample_def by blast
qed

end
