(* ===== verification/Ledger_Record.thy ===== *)
theory Ledger_Record
  imports Ledger_Correct
begin

text \<open>
  The policy enforcement point and the ledger together: the checks an event passes before it is
  offered to a sink imply every check the ledger makes before it appends the event.
\<close>

subsection \<open>Two validators agree\<close>

lemma ID_Valid_trace: "ID_Valid i \<Longrightarrow> validTraceID i"
proof -
  assume i: "ID_Valid i"
  then obtain raw where raw: "i = hex_encode raw" "length i = 32"
    by (auto simp: ID_Valid_def idBytes_def split: if_splits option.splits)
  then show ?thesis using hex_encode_lower [of raw] by (simp add: validTraceID_def lowercaseHex_iff)
qed

lemma safeText_of_validate: "is_ok (validateSafeText name v m) \<Longrightarrow> safeText v m"
  by (auto simp: validateSafeText_def safeText_def has_control_def list_ex_iff list_all_iff split: if_splits)

lemma safeText_mono: "safeText v m \<Longrightarrow> m \<le> n \<Longrightarrow> safeText v n"
  by (auto simp: safeText_def split: if_splits)

lemma reason_code_valid:
  assumes "is_ok (validateReasonCode v)"
  shows "validReasonCode v"
proof -
  have v: "v \<noteq> []" "trim_space v = v" "length v \<le> 64" "list_all (\<lambda>(r, n). reason_rune r) (range_runes v)"
    using assms by (auto simp: validateReasonCode_def maxReasonCodeBytes_def list_ex_iff list_all_iff split: if_splits)
  have small: "r < 128 \<and> \<not> is_control r \<and> r \<noteq> rune_error" if "reason_rune r" for r
    using that by (auto simp: reason_rune_def is_control_def rune_error_def)
  have bytes: "is_ascii v \<and> list_all (\<lambda>c. reason_rune (byte_of c)) v"
    by (rule runes_small_ascii [OF v(4)]) (simp add: small)
  have "utf8_valid v" using v(4) small by (fastforce simp: utf8_valid_def list_all_iff)
  moreover have "list_all (\<lambda>(r, n). \<not> is_control r) (range_runes v)" using v(4) small by (fastforce simp: list_all_iff)
  ultimately show ?thesis using v by (simp add: validReasonCode_def safeText_def)
qed

lemma event_checks:
  assumes "AuditEvent_Validate wall ev = Inr ()"
  shows "ae_At ev \<noteq> 0" "ae_At ev \<le> wall + 60 * 1000000000" "ID_Valid (ae_TraceID ev)" "is_ok (ValidateWorkspaceID (ae_WorkspaceID ev))"
    "is_ok (validateSafeText ''policy audit actor'' (ae_Actor ev) maxActorBytes)" "Role_Valid (ae_Role ev)"
    "ae_Verdict ev \<in> {VerdictAllow, VerdictDeny, VerdictRequireApproval}" "is_ok (validateReasonCode (ae_ReasonCode ev))"
    "ae_Action ev = ActionRead \<or> ae_Action ev = ActionExportAudit \<or> ae_Action ev = ActionProposeIntent"
    "Role_Allows (ae_Role ev) (ae_Action ev) \<or> ae_Verdict ev = VerdictDeny \<and> (ae_ReasonCode ev = ''role-denied'' \<or> ae_ReasonCode ev = ''invalid-request'')"
    "ae_Verb ev = invalidVerb \<Longrightarrow> ae_Verdict ev = VerdictDeny \<and> ae_ReasonCode ev = ''invalid-request''"
    "ae_Verb ev \<noteq> invalidVerb \<Longrightarrow> validForAction (ae_Verb ev) (ae_Action ev)"
  using assms unfolding AuditEvent_Validate_def Decision_Validate_def
  by (auto simp: rbind_eq_Inr is_ok_iff split: if_splits sum.splits)

lemma event_scope:
  assumes "AuditEvent_Validate wall ev = Inr ()"
  shows "auditEventScope ev = Inr \<lparr>sc_workspaceID = ae_WorkspaceID ev, sc_subject = ae_Actor ev, sc_role = ae_Role ev\<rparr>"
proof -
  note c = event_checks [OF assms]
  have "validateIdentity name (ae_WorkspaceID ev) = Inr ()" for name
    using c(4) by (simp add: ValidateWorkspaceID_def validateIdentity_ok_iff validateIdentity_Inr)
  moreover have "validateIdentity name (ae_Actor ev) = Inr ()" for name
    using c(5) by (simp add: validateSafeText_ok validateIdentity_Inr maxActorBytes_def maxIdentityLength_def)
  ultimately show ?thesis
    using c(6) by (simp add: auditEventScope_def NewPrincipal_def Membership_Validate_def Principal_Scope_def)
qed

lemma truncated_pos: "1000 \<le> t \<Longrightarrow> truncate_us t \<noteq> 0 \<and> truncate_us t \<le> t \<and> truncate_us t mod 1000 = 0"
  by (auto simp: truncate_us_def mod_diff_eq minus_mod_eq_mult_div)

lemma event_entry_valid:
  assumes "AuditEvent_Validate wall ev = Inr ()" "1000 \<le> ae_At ev"
  shows "is_ok (validatePolicyAuditEntry wall (event_entry ev))"
proof -
  let ?x = "ev\<lparr>ae_At := truncate_us (ae_At ev)\<rparr>"
  have same: "ae_TraceID ?x = ae_TraceID ev" "ae_WorkspaceID ?x = ae_WorkspaceID ev" "ae_Actor ?x = ae_Actor ev"
    "ae_Role ?x = ae_Role ev" "ae_Action ?x = ae_Action ev" "ae_Verb ?x = ae_Verb ev" "ae_Verdict ?x = ae_Verdict ev"
    "ae_ReasonCode ?x = ae_ReasonCode ev" by simp_all
  have late: "\<not> (ae_At ev = 0 \<or> ae_At ev > wall + 60 * 1000000000)" "\<not> (ae_At ?x = 0 \<or> ae_At ?x > wall + 60 * 1000000000)"
    using truncated_pos [OF assms(2)] event_checks(1,2) [OF assms(1)] by auto
  have "AuditEvent_Validate wall ?x = AuditEvent_Validate wall ev"
    unfolding AuditEvent_Validate_def same if_not_P [OF late(1)] if_not_P [OF late(2)] ..
  with assms(1) show ?thesis
    by (cases ev) (simp add: validatePolicyAuditEntry_def event_entry_def)
qed

lemma event_record:
  fixes s p ev
  defines "r \<equiv> portablePolicyAuditEntry ((event_entry ev)\<lparr>pa_sequence := s, pa_previousHash := p\<rparr>)"
  shows "au_Sequence r = s" "au_FormatVersion r = 1" "au_RecordedAt r = truncate_us (truncate_us (ae_At ev))" "au_RecordedUTC r"
    "au_TraceID r = ae_TraceID ev" "au_Actor r = ae_Actor ev" "au_Role r = ae_Role ev" "au_Action r = ae_Action ev"
    "au_Verb r = ae_Verb ev" "au_Verdict r = ae_Verdict ev" "au_ReasonCode r = ae_ReasonCode ev"
    "au_EventKind r = policyDecisionEventKind" "au_EvidenceDigest r = []" "au_PreviousHash r = auditHashString p"
  by (simp_all add: r_def portablePolicyAuditEntry_def event_entry_def)

lemma event_policy_shape:
  assumes "AuditEvent_Validate wall ev = Inr ()"
  shows "policy_shape (portablePolicyAuditEntry ((event_entry ev)\<lparr>pa_sequence := s, pa_previousHash := p\<rparr>))"
proof (cases "ae_Verb ev = invalidVerb")
  case True
  with event_checks(9,11) [OF assms] show ?thesis by (auto simp: policy_shape_def event_record)
next
  case False
  note c = event_checks(9,10,12) [OF assms]
  have "validForAction (ae_Verb ev) (ae_Action ev)" using c(3) False by blast
  with c(1) have "(ae_Action ev = ActionRead \<and> PVerb_Valid (ae_Verb ev) \<and> ae_Verb ev \<noteq> VerbAuditExport) \<or>
      (ae_Action ev = ActionExportAudit \<and> ae_Verb ev = VerbAuditExport) \<or>
      (ae_Action ev = ActionProposeIntent \<and> IntentVerb_Valid (ae_Verb ev))"
    by (elim disjE) (simp_all add: validForAction_def)
  with c(2) False show ?thesis unfolding policy_shape_def event_record Let_def
    by (elim disjE conjE) simp_all
qed

lemma event_shape:
  assumes "AuditEvent_Validate wall ev = Inr ()" "1000 \<le> ae_At ev"
  shows "entry_fields_ok (portablePolicyAuditEntry ((event_entry ev)\<lparr>pa_sequence := s, pa_previousHash := p\<rparr>))"
proof -
  note c = event_checks [OF assms(1)]
  have "safeText (ae_Actor ev) 256" using safeText_of_validate [OF c(5)] by (simp add: maxActorBytes_def)
  moreover have "truncate_us (truncate_us (ae_At ev)) = truncate_us (ae_At ev)"
    using truncated_pos [OF assms(2)] by (simp add: truncate_us_def)
  moreover have "validVerdict (ae_Verdict ev)" using c(7) by (simp add: validVerdict_def)
  ultimately show ?thesis
    unfolding entry_fields_ok_def validEntryShape_def event_record
    using truncated_pos [OF assms(2)] ID_Valid_trace [OF c(3)] c(6) reason_code_valid [OF c(8)] event_policy_shape [OF assms(1)]
    by (simp add: event_record(4))
qed

subsection \<open>Appending succeeds\<close>

lemma append_succeeds:
  assumes "head_of w db = (ls, lh)" "pa_workspaceID e = w" "is_ok (validatePolicyAuditEntry wall e)" "List.member (lg_workspaces db) w"
    "0 \<le> sint ls" "sint ls \<noteq> 2 ^ 63 - 1" "length lh = 32"
    "length (policyAuditEntryHash sha fmt (e\<lparr>pa_sequence := ls + 1, pa_previousHash := lh\<rparr>)) = 32"
    "\<forall>r \<in> set (rows_of w db). pa_sequence r \<noteq> ls + 1"
  shows "is_ok (appendPolicyAuditEntryTx sha fmt wall w e db)"
proof -
  define db1 where "db1 = (case map_of (lg_heads db) w of Some _ \<Rightarrow> db | None \<Rightarrow> db\<lparr>lg_heads := gm_put w genesis_head (lg_heads db)\<rparr>)"
  have head: "gm_get genesis_head (lg_heads db1) w = (ls, lh)"
    using assms(1) by (cases "map_of (lg_heads db) w") (simp_all add: db1_def head_of_def gm_get_def)
  have "\<not> list_ex (\<lambda>r. pa_workspaceID r = w \<and> pa_sequence r = ls + 1) (lg_entries db1)"
    using assms(9) by (auto simp: db1_def list_ex_iff rows_of_def split: option.splits)
  then show ?thesis
    using assms(2-8) head
    by (simp add: appendPolicyAuditEntryTx_def is_ok_iff Let_def db1_def [symmetric])
qed

lemma numbered_below:
  assumes "numbered s es" "0 \<le> sint s" "sint s + int (length es) \<le> 2 ^ 63 - 1" "e \<in> set es"
  shows "sint (au_Sequence e) < sint s + int (length es)"
  using assms
proof (induction es arbitrary: s)
  case (Cons x es)
  have "sint (s + 1) = sint s + 1" by (rule sint_succ) (use Cons.prems(2,3) in simp_all)
  with Cons.IH [of "s + 1"] Cons.prems show ?case by auto
qed simp

lemma next_sequence_free:
  assumes "chain_ok sha fmt db w" "length (rows_of w db) < 2 ^ 63 - 1" "r \<in> set (rows_of w db)"
  shows "pa_sequence r \<noteq> fst (head_of w db) + 1"
proof -
  have n: "numbered 1 (map portablePolicyAuditEntry (rows_of w db))" "sint (fst (head_of w db)) = int (length (rows_of w db))"
    using assms(1) unfolding chain_ok_def Let_def verified_run_def by blast+
  have "sint (au_Sequence (portablePolicyAuditEntry r)) < 1 + int (length (rows_of w db))"
    using numbered_below [OF n(1)] assms(2,3) by fastforce
  moreover have "sint (fst (head_of w db) + 1) = int (length (rows_of w db)) + 1"
    using sint_succ [of "fst (head_of w db)"] n(2) assms(2) by simp
  ultimately show ?thesis by (auto simp: portablePolicyAuditEntry_def)
qed

lemma policyAuditEntryHash_length:
  assumes "\<forall>s. length (sha s) = 32" "\<not> workspaceInvalid (pa_workspaceID e)" "0 < sint (pa_sequence e)"
    "length (pa_previousHash e) = 32" "entry_fields_ok (portablePolicyAuditEntry e)"
  shows "length (policyAuditEntryHash sha fmt e) = 32"
proof -
  let ?r = "portablePolicyAuditEntry e"
  have sel: "au_Sequence ?r = pa_sequence e" "au_PreviousHash ?r = ''sha256:'' @ hex_encode (pa_previousHash e)"
    by (simp_all add: portablePolicyAuditEntry_def auditHashString_def)
  have "RecomputeEntryHash sha fmt (pa_workspaceID e) ?r =
      Inr (''sha256:'' @ hex_encode (sha (canonical_entry fmt (pa_workspaceID e) ?r (pa_previousHash e))))"
    unfolding RecomputeEntryHash_def sel using assms hex_hash_valid [OF assms(4)]
    by (simp add: trim_prefix_def has_prefix_def hex_roundtrip)
  then show ?thesis
    using assms(1) by (simp add: policyAuditEntryHash_def trim_prefix_def has_prefix_def hex_roundtrip)
qed

lemma event_entry_fields:
  assumes "e' = (event_entry ev)\<lparr>pa_sequence := s, pa_previousHash := p, pa_entryHash := h\<rparr>"
  shows "pa_traceID e' = ae_TraceID ev \<and> pa_workspaceID e' = ae_WorkspaceID ev \<and> pa_actor e' = ae_Actor ev \<and> pa_role e' = ae_Role ev \<and>
    pa_action e' = ae_Action ev \<and> pa_verb e' = ae_Verb ev \<and> pa_verdict e' = ae_Verdict ev \<and> pa_reasonCode e' = ae_ReasonCode ev \<and>
    pa_recordedAt e' = truncate_us (ae_At ev) \<and> pa_previousHash e' = p"
  by (simp add: assms event_entry_def)

text \<open>
  C10: every policy decision can be made durable. In every reachable database, an event that the
  enforcement point's sinks accept, for a workspace that exists, is recorded: the log grows by exactly one entry
  with the event's trace, actor, role, action, verb, verdict and reason, as the new head
  of the workspace's chain, and grants, memberships and the other workspaces' heads stay as they were. The hypotheses
  left are SHA-256's output length, a time of at least one microsecond, and fewer than 2^63 - 1 retained entries.
\<close>
theorem policy_events_recordable:
  assumes "ledger_reach sha fmt db" and "AuditEvent_Validate wall ev = Inr ()" and "1000 \<le> ae_At ev"
    and "List.member (lg_workspaces db) (ae_WorkspaceID ev)" and "\<forall>s. length (sha s) = 32"
    and "length (rows_of (ae_WorkspaceID ev) db) < 2 ^ 63 - 1"
  shows "\<exists>db' e. AppDB_Record sha fmt wall ev db = (Inr (), db') \<and> lg_entries db' = lg_entries db @ [e] \<and>
    pa_traceID e = ae_TraceID ev \<and> pa_workspaceID e = ae_WorkspaceID ev \<and> pa_actor e = ae_Actor ev \<and> pa_role e = ae_Role ev \<and>
    pa_action e = ae_Action ev \<and> pa_verb e = ae_Verb ev \<and> pa_verdict e = ae_Verdict ev \<and> pa_reasonCode e = ae_ReasonCode ev \<and>
    pa_recordedAt e = truncate_us (ae_At ev) \<and> pa_previousHash e = snd (head_of (ae_WorkspaceID ev) db) \<and>
    head_of (ae_WorkspaceID ev) db' = (pa_sequence e, pa_entryHash e) \<and>
    lg_grants db' = lg_grants db \<and> lg_memberships db' = lg_memberships db \<and>
    (\<forall>v. v = ae_WorkspaceID ev \<or> head_of v db' = head_of v db)"
proof -
  let ?w = "ae_WorkspaceID ev" and ?e = "event_entry ev"
  have chain: "chain_ok sha fmt db ?w" using ledger.reach_inv [OF assms(1)] by (simp add: ledger_ok_def)
  obtain ls lh where head: "head_of ?w db = (ls, lh)" by (cases "head_of ?w db")
  have h: "sint ls = int (length (rows_of ?w db))" "length lh = 32"
    using chain [unfolded chain_ok_def Let_def head fst_conv snd_conv] by blast+
  note c = event_checks [OF assms(2)]
  have ws: "pa_workspaceID ?e = ?w" by (simp add: event_entry_def)
  have pos: "0 \<le> sint ls" "sint ls \<noteq> 2 ^ 63 - 1" "0 < sint (ls + 1)"
    using h(1) assms(6) sint_succ [of ls] by simp_all
  have "length (policyAuditEntryHash sha fmt (?e\<lparr>pa_sequence := ls + 1, pa_previousHash := lh\<rparr>)) = 32"
    by (rule policyAuditEntryHash_length [OF assms(5)])
      (use c(4) pos h(2) ws event_shape [OF assms(2,3)] in \<open>simp_all add: workspaceInvalid_def\<close>)
  then have "is_ok (appendPolicyAuditEntryTx sha fmt wall ?w ?e db)"
    using append_succeeds [OF head ws event_entry_valid [OF assms(2,3)] assms(4) pos(1,2) h(2)]
      next_sequence_free [OF chain assms(6)] head by simp
  then obtain db' where run: "appendPolicyAuditEntryTx sha fmt wall ?w ?e db = Inr db'" by (auto simp: is_ok_iff)
  have "ae_Actor ev \<noteq> []" "?w \<noteq> []"
    using c(4,5) by (auto simp: ValidateWorkspaceID_def validateIdentity_ok_iff validateSafeText_ok)
  with run c(6) have "AppDB_Record sha fmt wall ev db = (Inr (), db')"
    by (simp add: AppDB_Record_def assms(2) event_scope [OF assms(2)] InWorkspace_def RequireWorkspace_def)
  moreover from run obtain e' where "e' = ?e\<lparr>pa_sequence := ls + 1, pa_previousHash := lh, pa_entryHash := pa_entryHash e'\<rparr>"
    "lg_entries db' = lg_entries db @ [e']" "lg_grants db' = lg_grants db" "lg_memberships db' = lg_memberships db"
    "head_of ?w db' = (pa_sequence e', pa_entryHash e')" "\<forall>v. v \<noteq> ?w \<longrightarrow> head_of v db' = head_of v db"
    by (rule append_Inr) (use head in force)
  moreover from this(1) have "pa_traceID e' = ae_TraceID ev \<and> pa_workspaceID e' = ?w \<and> pa_actor e' = ae_Actor ev \<and> pa_role e' = ae_Role ev \<and>
      pa_action e' = ae_Action ev \<and> pa_verb e' = ae_Verb ev \<and> pa_verdict e' = ae_Verdict ev \<and> pa_reasonCode e' = ae_ReasonCode ev \<and>
      pa_recordedAt e' = truncate_us (ae_At ev) \<and> pa_previousHash e' = lh"
    by (rule event_entry_fields)
  ultimately show ?thesis using head by (intro exI [of _ db'] exI [of _ e']) auto
qed

definition sample_event :: AuditEvent where
  "sample_event = \<lparr>ae_At = 5000000, ae_TraceID = replicate 32 CHR ''a'', ae_WorkspaceID = ''local'', ae_Actor = ''alice'',
     ae_Role = RoleReader, ae_Action = ActionRead, ae_Verb = VerbFleetRead, ae_Verdict = VerdictAllow,
     ae_ReasonCode = ''read-allowed''\<rparr>"

theorem policy_events_recordable_witness:
  "\<exists>db' e. AppDB_Record sample_sha fixed_time 6000000 sample_event sample_ledger = (Inr (), db') \<and>
     lg_entries db' = lg_entries sample_ledger @ [e] \<and> pa_actor e = ''alice'' \<and> lg_grants db' = lg_grants sample_ledger"
proof -
  have "AuditEvent_Validate 6000000 sample_event = Inr ()" by code_simp
  moreover have "ae_WorkspaceID sample_event = ''local''" "ae_Actor sample_event = ''alice''" "1000 \<le> ae_At sample_event"
    by (simp_all add: sample_event_def)
  moreover have "\<forall>s. length (sample_sha s) = 32" by (simp add: length_sample_sha)
  ultimately show ?thesis using policy_events_recordable [OF sample_ledger_reach] sample_ledger_facts(3,6) by fastforce
qed

end
