(* ===== verification/Brain_Rules.thy ===== *)
theory Brain_Rules
  imports Cache_Store Go_Encoding "HOL-Library.Product_Lexorder"
begin

text \<open>
  The investigation engine (\<open>internal/brain\<close>): the evidence model, the rule catalog, the evaluation
  of every rule on every entity, the correlation of verdicts across clusters, ranking, the
  projection of the local cache into evidence, and the remediation candidates. Iterating a Go map
  visits its keys in an order of the runtime's choosing: the record \<open>map_order\<close> of three
  permutations stands for that choice. \<open>sort.Slice\<close> and \<open>sort.SliceStable\<close> are stable sorts by the key the
  comparison reads; the former may order citations differently that agree in every compared field.
\<close>

subsection \<open>Evidence and verdicts\<close>

type_synonym RuleID = string
type_synonym Status = string

abbreviation RuleBadDeploy :: RuleID where "RuleBadDeploy \<equiv> ''R1''"
abbreviation RuleOOMKilled :: RuleID where "RuleOOMKilled \<equiv> ''R2''"
abbreviation RuleCrashLoop :: RuleID where "RuleCrashLoop \<equiv> ''R3''"
abbreviation RuleConfigDrift :: RuleID where "RuleConfigDrift \<equiv> ''R4''"
abbreviation RuleCertExpiry :: RuleID where "RuleCertExpiry \<equiv> ''R5''"
abbreviation RuleNodePressure :: RuleID where "RuleNodePressure \<equiv> ''R6''"
abbreviation RuleImagePull :: RuleID where "RuleImagePull \<equiv> ''R7''"
abbreviation RuleArgoSyncFail :: RuleID where "RuleArgoSyncFail \<equiv> ''R8''"
abbreviation RuleWorkflowFail :: RuleID where "RuleWorkflowFail \<equiv> ''R9''"

abbreviation StatusConfirmed :: Status where "StatusConfirmed \<equiv> ''confirmed''"
abbreviation StatusDetected :: Status where "StatusDetected \<equiv> ''detected''"
abbreviation StatusUnconfirmed :: Status where "StatusUnconfirmed \<equiv> ''unconfirmed''"

abbreviation argoGraphSource :: string where "argoGraphSource \<equiv> ''argocd''"
abbreviation githubGraphSource :: string where "githubGraphSource \<equiv> ''github''"
abbreviation OTelContainerImageRepoDigests :: string where
  "OTelContainerImageRepoDigests \<equiv> ''container.image.repo_digests''"

record LensCoverage =
  lc_Available :: bool
  lc_Stale :: bool
  lc_Reason :: string

record Observation =
  ob_Ref :: ResourceRef
  ob_Lens :: Lens
  ob_Key :: string
  ob_Value :: string
  ob_ObservedAt :: Time
  ob_Source :: string
  ob_Stale :: bool

record Investigation =
  iv_Workspace :: string
  iv_Observations :: "Observation list"
  iv_Coverage :: "(Lens, LensCoverage) gomap"

record Citation =
  ci_Ref :: ResourceRef
  ci_Lens :: Lens
  ci_Predicate :: string
  ci_Observed :: string
  ci_Weight :: int
  ci_ObservedAt :: Time
  ci_Source :: string
  ci_Stale :: bool

record Advisory =
  ad_Command :: string
  ad_PRDiff :: string
  ad_Sensitive :: bool

type_synonym ProvenanceRequirement = string

record RemediationCandidate =
  rm_Verb :: Verb
  rm_RequiredProvenance :: "ProvenanceRequirement list"

record Verdict =
  vd_Rule :: RuleID
  vd_FailureMode :: string
  vd_Status :: Status
  vd_Hypothesis :: string
  vd_Scope :: string
  vd_Ref :: ResourceRef
  vd_Score :: int
  vd_FleetWide :: bool
  vd_Clusters :: "string list"
  vd_CauseOf :: "RuleID list"
  vd_MissingLenses :: "Lens list"
  vd_Citations :: "Citation list"
  vd_Advisory :: Advisory
  vd_RemediationCandidate :: "RemediationCandidate option"

record Result =
  rs_Workspace :: string
  rs_Verdicts :: "Verdict list"

datatype brain_error =
    WorkspaceRequired
  | IncompleteReference nat
  | IncompleteObservation nat
  | NotCanonical
  | MalformedCandidate

fun validate_observations :: "nat \<Rightarrow> Observation list \<Rightarrow> (brain_error, unit) result" where
  "validate_observations i [] = Inr ()"
| "validate_observations i (x # xs) =
     (if RefScope (ob_Ref x) = [] \<or> RefKind (ob_Ref x) = [] \<or> RefName (ob_Ref x) = [] then Inl (IncompleteReference i)
      else if ob_Lens x = [] \<or> trim_space (ob_Key x) = [] \<or> trim_space (ob_Value x) = [] then Inl (IncompleteObservation i)
      else validate_observations (Suc i) xs)"

definition Investigation_Validate :: "Investigation \<Rightarrow> (brain_error, unit) result" where
  "Investigation_Validate input =
     (if trim_space (iv_Workspace input) = [] then Inl WorkspaceRequired
      else validate_observations 0 (iv_Observations input))"

definition verdict_key :: "Verdict \<Rightarrow> bool \<times> int \<times> string \<times> string \<times> string \<times> string" where
  "verdict_key v = (\<not> vd_FleetWide v, - vd_Score v, vd_Rule v, vd_Scope v, vd_Hypothesis v, ResourceRef_String (vd_Ref v))"

definition sortVerdicts :: "Verdict list \<Rightarrow> Verdict list" where
  "sortVerdicts vs = sort_key verdict_key vs"

subsection \<open>Remediation candidates\<close>

definition canonicalRemediationRequirementsFor :: "Verb \<Rightarrow> ProvenanceRequirement list option" where
  "canonicalRemediationRequirementsFor verb =
     (if verb = VerbArgoCDRollback then Some [''argocd.application.target'', ''argocd.revision'']
      else if verb = VerbGitOpsOpenPR then
        Some [''git.repository'', ''git.base-ref'', ''git.base-commit'', ''git.file-path'', ''git.observed-blob'', ''git.desired-content'']
      else None)"

definition RemediationCandidate_Validate :: "RemediationCandidate \<Rightarrow> (brain_error, unit) result" where
  "RemediationCandidate_Validate c =
     (case canonicalRemediationRequirementsFor (rm_Verb c) of
        None \<Rightarrow> Inl NotCanonical
      | Some expected \<Rightarrow>
          if \<not> IntentVerb_Valid (rm_Verb c) \<or> rm_RequiredProvenance c \<noteq> expected then Inl NotCanonical else Inr ())"

text \<open>\<open>intent.Verb\<close> and \<open>""\<close>, its zero value: no reviewed requirements.\<close>

definition remediationCandidateFor :: "Verb \<Rightarrow> RemediationCandidate option" where
  "remediationCandidateFor verb =
     map_option (\<lambda>requirements. \<lparr>rm_Verb = verb, rm_RequiredProvenance = requirements\<rparr>)
       (canonicalRemediationRequirementsFor verb)"

definition cloneRemediationCandidate :: "RemediationCandidate option \<Rightarrow> RemediationCandidate option" where
  "cloneRemediationCandidate c =
     map_option (\<lambda>c. \<lparr>rm_Verb = rm_Verb c, rm_RequiredProvenance = rm_RequiredProvenance c\<rparr>) c"

text \<open>
  The JSON codec is a parameter: \<open>enc\<close> renders the wire value, \<open>dec\<close> is the strict decoder of exactly one
  value, and \<open>scan\<close> reads the members of the outermost object (None on a token error, the first
  component False when the document is no object).
\<close>

definition RemediationCandidate_MarshalJSON ::
  "(RemediationCandidate \<Rightarrow> string) \<Rightarrow> RemediationCandidate \<Rightarrow> (brain_error, string) result" where
  "RemediationCandidate_MarshalJSON enc c =
     (if \<not> is_ok (RemediationCandidate_Validate c) then Inl NotCanonical else Inr (enc c))"

fun reject_members :: "string list \<Rightarrow> string list \<Rightarrow> (brain_error, unit) result" where
  "reject_members seen [] = Inr ()"
| "reject_members seen (name # names) =
     (if name \<noteq> ''verb'' \<and> name \<noteq> ''required_provenance'' then Inl MalformedCandidate
      else if List.member seen name then Inl MalformedCandidate
      else reject_members (name # seen) names)"

definition rejectDuplicateRemediationCandidateMembers ::
  "(string \<Rightarrow> (bool \<times> string list) option) \<Rightarrow> string \<Rightarrow> (brain_error, unit) result" where
  "rejectDuplicateRemediationCandidateMembers scan payload =
     (case scan payload of
        None \<Rightarrow> Inl MalformedCandidate
      | Some (isObject, members) \<Rightarrow> if \<not> isObject then Inr () else reject_members [] members)"

definition RemediationCandidate_UnmarshalJSON ::
  "(string \<Rightarrow> (bool \<times> string list) option) \<Rightarrow> (string \<Rightarrow> RemediationCandidate option) \<Rightarrow> string
     \<Rightarrow> (brain_error, RemediationCandidate) result" where
  "RemediationCandidate_UnmarshalJSON scan dec payload =
     rbind (rejectDuplicateRemediationCandidateMembers scan payload) (\<lambda>_.
     case dec payload of
       None \<Rightarrow> Inl MalformedCandidate
     | Some decoded \<Rightarrow> rbind (RemediationCandidate_Validate decoded) (\<lambda>_. Inr decoded))"

subsection \<open>The rule catalog\<close>

record predicate =
  pd_lens :: Lens
  pd_key :: string
  pd_values :: "string list"
  pd_weight :: int

record rule =
  ru_id :: RuleID
  ru_failureMode :: string
  ru_rootCause :: string
  ru_sourceKind :: string
  ru_resourceKind :: string
  ru_exactTrigger :: bool
  ru_trigger :: predicate
  ru_signals :: "predicate list"
  ru_required :: "Lens list"
  ru_strengthener :: "Lens list"
  ru_advisory :: Advisory
  ru_remediation :: Verb

definition pred :: "Lens \<Rightarrow> string \<Rightarrow> string list \<Rightarrow> int \<Rightarrow> predicate" where
  "pred lens key vals weight = \<lparr>pd_lens = lens, pd_key = key, pd_values = vals, pd_weight = weight\<rparr>"

definition advise :: "string \<Rightarrow> string \<Rightarrow> bool \<Rightarrow> Advisory" where
  "advise command diff sensitive = \<lparr>ad_Command = command, ad_PRDiff = diff, ad_Sensitive = sensitive\<rparr>"

definition bad_deploy_rule :: rule where
  "bad_deploy_rule =
     \<lparr>ru_id = RuleBadDeploy, ru_failureMode = ''bad deploy'',
      ru_rootCause = ''a recent workload change introduced a regression'', ru_sourceKind = [], ru_resourceKind = [],
      ru_exactTrigger = False, ru_trigger = pred LensLive ''workload.status'' [''degraded'', ''progressing''] 2,
      ru_signals = [pred LensTimeline ''change.kind'' [''deploy'', ''rollout'', ''argocd-sync'', ''image-change''] 3,
        pred LensDesired ''desired.changed'' [''true''] 1],
      ru_required = [LensLive, LensTimeline], ru_strengthener = [LensDesired, LensTelemetry],
      ru_advisory = advise ''kubectl --context {context} rollout undo {kind}/{name} -n {namespace}'' [] False,
      ru_remediation = VerbArgoCDRollback\<rparr>"

definition oom_rule :: rule where
  "oom_rule =
     \<lparr>ru_id = RuleOOMKilled, ru_failureMode = ''OOMKilled'',
      ru_rootCause = ''the container was terminated for exceeding available memory'', ru_sourceKind = [], ru_resourceKind = [],
      ru_exactTrigger = False, ru_trigger = pred LensLive ''pod.reason'' [''oomkilled''] 3,
      ru_signals = [pred LensLive ''pod.restarts'' [] 1, pred LensTelemetry ''memory.variant'' [] 2, pred LensTimeline ''change.kind'' [] 1],
      ru_required = [LensLive], ru_strengthener = [LensTelemetry],
      ru_advisory = advise [] ''increase spec.template.spec.containers[].resources.limits.memory after validating measured usage'' False,
      ru_remediation = VerbGitOpsOpenPR\<rparr>"

definition crash_loop_rule :: rule where
  "crash_loop_rule =
     \<lparr>ru_id = RuleCrashLoop, ru_failureMode = ''CrashLoopBackOff'',
      ru_rootCause = ''the container repeatedly exits and Kubernetes is backing off restarts'', ru_sourceKind = [], ru_resourceKind = [],
      ru_exactTrigger = False, ru_trigger = pred LensLive ''pod.failure'' [''crashloopbackoff'', ''repeated-error''] 3,
      ru_signals = [pred LensLive ''pod.restarts'' [] 1, pred LensTelemetry ''logs.cause'' [] 3, pred LensTimeline ''change.kind'' [] 2],
      ru_required = [LensLive], ru_strengthener = [LensTelemetry],
      ru_advisory = advise ''kubectl --context {context} logs {name} -n {namespace} --previous'' [] False, ru_remediation = []\<rparr>"

definition config_drift_rule :: rule where
  "config_drift_rule =
     \<lparr>ru_id = RuleConfigDrift, ru_failureMode = ''config drift'',
      ru_rootCause = ''live state differs from the declared desired state'', ru_sourceKind = [], ru_resourceKind = [],
      ru_exactTrigger = False, ru_trigger = pred LensDesired ''desired.drift'' [''true'', ''outofsync''] 3,
      ru_signals = [pred LensTimeline ''change.kind'' [''kubectl-edit'', ''kubectl-patch'', ''sync-failed''] 2],
      ru_required = [LensLive, LensDesired], ru_strengthener = [LensTimeline],
      ru_advisory = advise [] ''reconcile the cited field delta in Git, or revert the out-of-band live mutation'' False,
      ru_remediation = VerbGitOpsOpenPR\<rparr>"

definition cert_expiry_rule :: rule where
  "cert_expiry_rule =
     \<lparr>ru_id = RuleCertExpiry, ru_failureMode = ''certificate expiry'',
      ru_rootCause = ''a certificate is expired or inside the renewal safety window'', ru_sourceKind = [], ru_resourceKind = [],
      ru_exactTrigger = False, ru_trigger = pred LensLive ''certificate.expiry'' [''expired'', ''lt-7d''] 3,
      ru_signals = [pred LensTelemetry ''certificate.renewal'' [] 2],
      ru_required = [LensLive], ru_strengthener = [LensTelemetry],
      ru_advisory = advise ''inspect the issuer and renewal controller for {name} in {namespace}'' [] True, ru_remediation = []\<rparr>"

definition node_pressure_rule :: rule where
  "node_pressure_rule =
     \<lparr>ru_id = RuleNodePressure, ru_failureMode = ''node pressure'',
      ru_rootCause = ''node capacity or readiness is disrupting scheduled workloads'', ru_sourceKind = [], ru_resourceKind = [],
      ru_exactTrigger = False,
      ru_trigger = pred LensLive ''node.condition'' [''memorypressure'', ''diskpressure'', ''pidpressure'', ''notready''] 3,
      ru_signals = [pred LensLive ''event.reason'' [''evicted'', ''failedscheduling''] 2, pred LensTelemetry ''node.saturation'' [] 2],
      ru_required = [LensLive], ru_strengthener = [LensTelemetry],
      ru_advisory = advise ''inspect capacity and autoscaler state for node {name} before any cordon or drain'' [] True,
      ru_remediation = []\<rparr>"

definition image_pull_rule :: rule where
  "image_pull_rule =
     \<lparr>ru_id = RuleImagePull, ru_failureMode = ''image pull failure'',
      ru_rootCause = ''Kubernetes reports that it cannot pull a Pod image; the waiting reason does not identify the underlying registry, reference, network, rate-limit, or platform cause'',
      ru_sourceKind = [], ru_resourceKind = [],
      ru_exactTrigger = False, ru_trigger = pred LensLive ''pod.reason'' [''imagepullbackoff'', ''errimagepull''] 3,
      ru_signals = [], ru_required = [LensLive], ru_strengthener = [],
      ru_advisory = advise ''kubectl --context {context} describe pod {name} -n {namespace}'' [] True, ru_remediation = []\<rparr>"

definition argo_sync_rule :: rule where
  "argo_sync_rule =
     \<lparr>ru_id = RuleArgoSyncFail, ru_failureMode = ''Argo CD sync failure'',
      ru_rootCause = ''Argo CD reports that the Application sync operation failed; the normalized operation phase does not identify whether the underlying cause is rendering, validation, authorization, a hook, network access, the Kubernetes API, a resource, or another failure'',
      ru_sourceKind = argoGraphSource, ru_resourceKind = ''Application'',
      ru_exactTrigger = True, ru_trigger = pred LensTimeline ''change.kind'' [''sync-failed''] 3,
      ru_signals = [], ru_required = [LensTimeline], ru_strengthener = [],
      ru_advisory = advise ''kubectl --context {context} describe application.argoproj.io {name} -n {namespace}'' [] True,
      ru_remediation = []\<rparr>"

definition workflow_fail_rule :: rule where
  "workflow_fail_rule =
     \<lparr>ru_id = RuleWorkflowFail, ru_failureMode = ''GitHub Actions workflow-run failure'',
      ru_rootCause = ''GitHub reports that the completed workflow run failed; the normalized conclusion does not identify which job or step failed, or whether the underlying cause is code, configuration, credentials, permissions, capacity, a dependency, or another failure'',
      ru_sourceKind = githubGraphSource, ru_resourceKind = ''WorkflowRun'',
      ru_exactTrigger = True, ru_trigger = pred LensTimeline ''change.kind'' [''workflow-run-failed''] 3,
      ru_signals = [], ru_required = [LensTimeline], ru_strengthener = [],
      ru_advisory = advise ''inspect GitHub Actions workflow run {name} owned by {namespace} and its failed jobs and logs before considering a rerun'' [] True,
      ru_remediation = []\<rparr>"

definition catalog :: "rule list" where
  "catalog = [bad_deploy_rule, oom_rule, crash_loop_rule, config_drift_rule, cert_expiry_rule, node_pressure_rule,
     image_pull_rule, argo_sync_rule, workflow_fail_rule]"

end
