(* ===== verification/Brain_Evaluate.thy ===== *)
theory Brain_Evaluate
  imports Brain_Rules
begin

text \<open>
  Evaluation (\<open>brain/evaluate.go\<close>) and the projection of the local cache into evidence (\<open>brain/cache.go\<close>).
\<close>

subsection \<open>Matching and coverage\<close>

definition value_matches :: "unicode_case \<Rightarrow> predicate \<Rightarrow> bool \<Rightarrow> Observation \<Rightarrow> bool" where
  "value_matches u p exact x =
     (pd_values p = [] \<or> list_ex (\<lambda>expected. ob_Value x = expected \<or> (\<not> exact \<and> equal_fold u (ob_Value x) expected)) (pd_values p))"

text \<open>The loop of \<open>match\<close>: the first fresh match wins, the last stale one is the fallback.\<close>

fun match_loop ::
  "unicode_case \<Rightarrow> predicate \<Rightarrow> bool \<Rightarrow> Observation option \<Rightarrow> Observation list \<Rightarrow> Observation option" where
  "match_loop u p exact stale [] = stale"
| "match_loop u p exact stale (x # xs) =
     (if ob_Lens x \<noteq> pd_lens p \<or> ob_Key x \<noteq> pd_key p then match_loop u p exact stale xs
      else if \<not> value_matches u p exact x then match_loop u p exact stale xs
      else if \<not> ob_Stale x then Some x
      else match_loop u p exact (Some x) xs)"

definition match :: "unicode_case \<Rightarrow> predicate \<Rightarrow> Observation list \<Rightarrow> bool \<Rightarrow> Observation option" where
  "match u p xs exact = match_loop u p exact None xs"

definition unavailable :: "Lens \<Rightarrow> (Lens, LensCoverage) gomap \<Rightarrow> Observation list \<Rightarrow> bool" where
  "unavailable lens cov xs =
     (case map_of cov lens of
        None \<Rightarrow> True
      | Some state \<Rightarrow>
          if \<not> lc_Available state \<or> lc_Stale state then True
          else \<not> list_ex (\<lambda>x. ob_Lens x = lens \<and> \<not> ob_Stale x) xs)"

definition citation :: "predicate \<Rightarrow> Observation \<Rightarrow> Citation" where
  "citation signal x =
     \<lparr>ci_Ref = ob_Ref x, ci_Lens = ob_Lens x, ci_Predicate = pd_key signal, ci_Observed = ob_Value x,
      ci_Weight = pd_weight signal, ci_ObservedAt = ob_ObservedAt x, ci_Source = ob_Source x, ci_Stale = ob_Stale x\<rparr>"

definition evidenceCitation :: "Observation \<Rightarrow> Citation" where
  "evidenceCitation x =
     \<lparr>ci_Ref = ob_Ref x, ci_Lens = ob_Lens x, ci_Predicate = ob_Key x, ci_Observed = ob_Value x,
      ci_Weight = 0, ci_ObservedAt = ob_ObservedAt x, ci_Source = ob_Source x, ci_Stale = ob_Stale x\<rparr>"

definition citation_key :: "Citation \<Rightarrow> int \<times> string \<times> string \<times> string \<times> string \<times> int \<times> string \<times> bool" where
  "citation_key c = (- ci_Weight c, ResourceRef_String (ci_Ref c), ci_Lens c, ci_Predicate c, ci_Observed c,
     ci_ObservedAt c, ci_Source c, ci_Stale c)"

definition sortCitations :: "Citation list \<Rightarrow> Citation list" where
  "sortCitations cs = sort_key citation_key cs"

subsection \<open>Advisories\<close>

definition shellQuote :: "string \<Rightarrow> string" where
  "shellQuote value = [CHR 0x27] @ concat (map (\<lambda>c. if c = CHR 0x27 then [CHR 0x27, CHR 0x5C, CHR 0x27, CHR 0x27] else [c]) value) @ [CHR 0x27]"

definition advisory_pairs :: "unicode_case \<Rightarrow> ResourceRef \<Rightarrow> (string \<times> string) list" where
  "advisory_pairs u ref =
     [(''{kind}'', to_lower u (RefKind ref)), (''{name}'', shellQuote (RefName ref)),
      (''{namespace}'', shellQuote (RefNamespace ref)), (''{context}'', shellQuote (RefScope ref))]"

definition renderAdvisory :: "unicode_case \<Rightarrow> Advisory \<Rightarrow> ResourceRef \<Rightarrow> Advisory" where
  "renderAdvisory u template ref =
     template\<lparr>ad_Command := replacer (advisory_pairs u ref) (ad_Command template),
              ad_PRDiff := replacer (advisory_pairs u ref) (ad_PRDiff template)\<rparr>"

subsection \<open>One rule on one entity\<close>

definition appliesTo :: "rule \<Rightarrow> Observation \<Rightarrow> bool" where
  "appliesTo candidate x =
     (if ru_sourceKind candidate \<noteq> [] \<and> SourceKind (ob_Ref x) \<noteq> ru_sourceKind candidate then False
      else ru_resourceKind candidate = [] \<or> RefKind (ob_Ref x) = ru_resourceKind candidate)"

definition applicableObservations :: "rule \<Rightarrow> Observation list \<Rightarrow> Observation list" where
  "applicableObservations candidate xs =
     (if ru_sourceKind candidate = [] \<and> ru_resourceKind candidate = [] then xs
      else filter (appliesTo candidate) xs)"

definition signal_matches :: "unicode_case \<Rightarrow> predicate list \<Rightarrow> Observation list \<Rightarrow> (predicate \<times> Observation) list" where
  "signal_matches u signals xs =
     concat (map (\<lambda>s. case match u s xs False of None \<Rightarrow> [] | Some x \<Rightarrow> [(s, x)]) signals)"

definition missing_lenses :: "rule \<Rightarrow> (Lens, LensCoverage) gomap \<Rightarrow> Observation list \<Rightarrow> Lens list \<times> Status" where
  "missing_lenses candidate cov xs =
     (let missing = filter (\<lambda>lens. unavailable lens cov xs) (ru_required candidate) in
      if missing \<noteq> [] then (missing, StatusUnconfirmed)
      else let weak = filter (\<lambda>lens. unavailable lens cov xs) (ru_strengthener candidate) in
        (weak, if weak \<noteq> [] then StatusDetected else StatusConfirmed))"

definition evaluateRule ::
  "unicode_case \<Rightarrow> rule \<Rightarrow> Observation list \<Rightarrow> (Lens, LensCoverage) gomap \<Rightarrow> Verdict option" where
  "evaluateRule u candidate observations cov =
     (let xs = applicableObservations candidate observations in
      case match u (ru_trigger candidate) xs (ru_exactTrigger candidate) of
        None \<Rightarrow> None
      | Some trigger \<Rightarrow>
          (let ref = ob_Ref trigger;
               found = (ru_trigger candidate, trigger) # signal_matches u (ru_signals candidate) xs;
               (missing, status) = missing_lenses candidate cov xs
           in Some \<lparr>vd_Rule = ru_id candidate, vd_FailureMode = ru_failureMode candidate, vd_Status = status,
                vd_Hypothesis = ru_rootCause candidate, vd_Scope = RefScope ref, vd_Ref = ref,
                vd_Score = sum_list (map (\<lambda>(s, x). pd_weight s) found), vd_FleetWide = False, vd_Clusters = [],
                vd_CauseOf = [], vd_MissingLenses = missing,
                vd_Citations = sortCitations (map (\<lambda>(s, x). citation s x) found),
                vd_Advisory = renderAdvisory u (ru_advisory candidate) ref,
                vd_RemediationCandidate = remediationCandidateFor (ru_remediation candidate)\<rparr>))"

definition rule_indexes :: "Verdict list \<Rightarrow> (RuleID, nat) gomap" where
  "rule_indexes vs = fold (\<lambda>(i, v) m. gm_put (vd_Rule v) i m) (zip [0..<length vs] vs) []"

definition blame :: "Verdict \<Rightarrow> Verdict" where
  "blame v = v\<lparr>vd_CauseOf := [RuleCrashLoop], vd_Score := vd_Score v + 100,
     vd_Hypothesis := vd_Hypothesis v @ ''; it is the likely root cause of the CrashLoopBackOff''\<rparr>"

definition compose :: "Verdict list \<Rightarrow> Verdict list" where
  "compose vs =
     (case (map_of (rule_indexes vs) RuleBadDeploy, map_of (rule_indexes vs) RuleCrashLoop) of
        (Some badDeploy, Some _) \<Rightarrow> vs[badDeploy := blame (vs ! badDeploy)]
      | _ \<Rightarrow> vs)"

subsection \<open>Correlating the fleet\<close>

definition entityKey :: "ResourceRef \<Rightarrow> string" where
  "entityKey ref = join [RefScope ref, RefNamespace ref, RefKind ref, RefName ref] [NUL]"

definition supportsFleetCorrelation :: "RuleID \<Rightarrow> bool" where
  "supportsFleetCorrelation r =
     List.member [RuleBadDeploy, RuleOOMKilled, RuleCrashLoop, RuleConfigDrift, RuleCertExpiry, RuleNodePressure] r"

definition correlationRefKey :: "ResourceRef \<Rightarrow> string" where
  "correlationRefKey ref =
     join ([SourceKind ref, RefScope ref, RefKind ref, RefNamespace ref, RefName ref] @
       concat (map (\<lambda>key. [key, gm_get [] (Attributes ref) key]) (sort (map fst (Attributes ref))))) [NUL]"

definition preferCorrelationObservation :: "Observation \<Rightarrow> Observation \<Rightarrow> bool" where
  "preferCorrelationObservation candidate current =
     (if ob_ObservedAt candidate \<noteq> ob_ObservedAt current then ob_ObservedAt candidate > ob_ObservedAt current
      else if ob_Source candidate \<noteq> ob_Source current then ob_Source candidate < ob_Source current
      else if ob_Value candidate \<noteq> ob_Value current then ob_Value candidate < ob_Value current
      else if correlationRefKey (ob_Ref candidate) \<noteq> correlationRefKey (ob_Ref current)
        then correlationRefKey (ob_Ref candidate) < correlationRefKey (ob_Ref current)
      else ob_Lens candidate < ob_Lens current)"

definition uniqueClusters :: "Verdict list \<Rightarrow> string list" where
  "uniqueClusters vs = sorted_set (map (\<lambda>v. RefScope (vd_Ref v)) vs)"

definition unionLenses :: "Lens list \<Rightarrow> Lens list \<Rightarrow> Lens list" where
  "unionLenses left right = sorted_set (left @ right)"

definition confidenceRank :: "Status \<Rightarrow> int" where
  "confidenceRank status = (if status = StatusConfirmed then 3 else if status = StatusDetected then 2 else 1)"

type_synonym group_key = "RuleID \<times> string"
type_synonym group_member = "Verdict \<times> Observation"
type_synonym groups = "(group_key, (string, group_member) gomap) gomap"

definition group_step :: "Verdict \<Rightarrow> string \<Rightarrow> Observation \<Rightarrow> groups \<Rightarrow> groups" where
  "group_step v entity x groups =
     (if ob_Key x \<noteq> OTelContainerImageRepoDigests \<or> ob_Stale x then groups
      else case ImageDigestFromRepoDigest (ob_Value x) of
        Inl _ \<Rightarrow> groups
      | Inr digest \<Rightarrow>
          (let key = (vd_Rule v, digest);
               members = gm_get [] groups key;
               members = (case map_of members entity of
                   None \<Rightarrow> gm_put entity (v, x) members
                 | Some (_, current) \<Rightarrow> if preferCorrelationObservation x current then gm_put entity (v, x) members else members)
           in gm_put key members groups))"

definition group_verdict :: "(string, Observation list) gomap \<Rightarrow> Verdict \<Rightarrow> groups \<Rightarrow> groups" where
  "group_verdict byEntity v groups =
     (if \<not> supportsFleetCorrelation (vd_Rule v) then groups
      else fold (group_step v (entityKey (vd_Ref v))) (gm_get [] byEntity (entityKey (vd_Ref v))) groups)"

record map_order =
  mo_entities :: "string list \<Rightarrow> string list"
  mo_groups :: "group_key list \<Rightarrow> group_key list"
  mo_members :: "string list \<Rightarrow> string list"

definition zero_observation :: Observation where
  "zero_observation =
     \<lparr>ob_Ref = \<lparr>SourceKind = [], RefScope = [], RefKind = [], RefNamespace = [], RefName = [], Attributes = []\<rparr>, ob_Lens = [],
      ob_Key = [], ob_Value = [], ob_ObservedAt = 0, ob_Source = [], ob_Stale = False\<rparr>"

definition absorb :: "(string, group_member) gomap \<Rightarrow> Verdict \<Rightarrow> Verdict \<Rightarrow> Verdict" where
  "absorb members v correlated =
     (let correlated = correlated\<lparr>vd_Citations := vd_Citations correlated @ vd_Citations v @
            [evidenceCitation (case map_of members (entityKey (vd_Ref v)) of None \<Rightarrow> zero_observation | Some (_, x) \<Rightarrow> x)],
            vd_MissingLenses := unionLenses (vd_MissingLenses correlated) (vd_MissingLenses v)\<rparr>
      in if confidenceRank (vd_Status v) < confidenceRank (vd_Status correlated)
         then correlated\<lparr>vd_Status := vd_Status v\<rparr> else correlated)"

definition correlate_group :: "map_order \<Rightarrow> group_key \<Rightarrow> (string, group_member) gomap \<Rightarrow> Verdict option" where
  "correlate_group ord key members =
     (let group = sortVerdicts (map (\<lambda>e. fst (the (map_of members e))) (mo_members ord (map fst members)));
          clusters = uniqueClusters group in
      if length clusters < 2 then None
      else
        let first = hd group;
            correlated = first\<lparr>vd_RemediationCandidate := cloneRemediationCandidate (vd_RemediationCandidate first),
              vd_FleetWide := True, vd_Scope := ''fleet'', vd_Clusters := clusters,
              vd_Score := vd_Score first + 1000 + int (length clusters),
              vd_Hypothesis := vd_Hypothesis first @ '' across '' @ nat_decimal (length clusters) @
                '' clusters running image '' @ snd key, vd_Citations := []\<rparr>;
            correlated = fold (absorb members) group correlated
        in Some (correlated\<lparr>vd_Citations := sortCitations (vd_Citations correlated)\<rparr>))"

definition correlateFleet :: "map_order \<Rightarrow> Verdict list \<Rightarrow> (string, Observation list) gomap \<Rightarrow> Verdict list" where
  "correlateFleet ord verdicts byEntity =
     (let groups = fold (group_verdict byEntity) verdicts [] in
      concat (map (\<lambda>key. case correlate_group ord key (the (map_of groups key)) of None \<Rightarrow> [] | Some v \<Rightarrow> [v])
        (mo_groups ord (map fst groups))))"

definition group_observations :: "Observation list \<Rightarrow> (string, Observation list) gomap" where
  "group_observations xs =
     fold (\<lambda>x m. gm_put (entityKey (ob_Ref x)) (gm_get [] m (entityKey (ob_Ref x)) @ [x]) m) xs []"

definition entity_verdicts :: "unicode_case \<Rightarrow> (Lens, LensCoverage) gomap \<Rightarrow> Observation list \<Rightarrow> Verdict list" where
  "entity_verdicts u cov xs =
     compose (concat (map (\<lambda>r. case evaluateRule u r xs cov of None \<Rightarrow> [] | Some v \<Rightarrow> [v]) catalog))"

definition Evaluate :: "unicode_case \<Rightarrow> map_order \<Rightarrow> Investigation \<Rightarrow> (brain_error, Result) result" where
  "Evaluate u ord input =
     rbind (Investigation_Validate input) (\<lambda>_.
     let byEntity = group_observations (iv_Observations input);
         verdicts = concat (map (\<lambda>e. entity_verdicts u (iv_Coverage input) (the (map_of byEntity e)))
           (mo_entities ord (map fst byEntity)));
         verdicts = correlateFleet ord verdicts byEntity @ verdicts
     in Inr \<lparr>rs_Workspace = iv_Workspace input, rs_Verdicts = sortVerdicts verdicts\<rparr>)"

subsection \<open>Evidence from the cache\<close>

definition coverageReason :: "Snapshot \<Rightarrow> string" where
  "coverageReason snapshot =
     (let cov = sn_Coverage snapshot in
      if Reachable cov = 0 then ''no reachable kubeconfig context''
      else if Stale cov \<noteq> [] then ''one or more kubeconfig contexts are stale''
      else if Unreachable cov \<noteq> [] then ''one or more kubeconfig contexts are unreachable''
      else if Truncated cov \<noteq> [] then ''one or more kubeconfig contexts returned truncated evidence''
      else [])"

definition timelineChange :: "unicode_case \<Rightarrow> string \<Rightarrow> string" where
  "timelineChange u reason =
     (let r = to_lower u reason in
      if r = ''scalingreplicaset'' \<or> r = ''successfulcreate'' \<or> r = ''successfuldelete'' then ''rollout''
      else if r = ''syncsucceeded'' \<or> r = ''operationcompleted'' then ''argocd-sync''
      else [])"

definition hasObservation :: "Observation list \<Rightarrow> string \<Rightarrow> bool" where
  "hasObservation xs key = list_ex (\<lambda>x. ob_Key x = key) xs"

definition record_ref :: "Record \<Rightarrow> ResourceRef" where
  "record_ref r =
     (if RefScope (Ref (rc_Fact r)) = [] then
        \<lparr>SourceKind = ''kubeconfig'', RefScope = rc_Cluster r, RefKind = rc_Kind r, RefNamespace = rc_Namespace r,
         RefName = rc_Name r, Attributes = []\<rparr>
      else Ref (rc_Fact r))"

definition add_observation :: "Record \<Rightarrow> ResourceRef \<Rightarrow> Lens \<Rightarrow> string \<Rightarrow> string \<Rightarrow> Observation" where
  "add_observation r ref lens key value =
     \<lparr>ob_Ref = ref, ob_Lens = lens, ob_Key = key, ob_Value = value, ob_ObservedAt = rc_ObservedAt r,
      ob_Source = Source (rc_Fact r), ob_Stale = rc_Stale r\<rparr>"

definition pod_reason_step ::
  "unicode_case \<Rightarrow> Record \<Rightarrow> (string \<Rightarrow> string \<Rightarrow> Observation) \<Rightarrow> string \<Rightarrow> Observation list \<times> bool \<Rightarrow> Observation list \<times> bool" where
  "pod_reason_step u r add reason acc =
     (let (result, crashFailure) = acc;
          (result, crashFailure) =
            (if equal_fold u reason ''CrashLoopBackOff'' then (result @ [add ''pod.failure'' reason], True)
             else (result @ [add ''pod.reason'' reason], crashFailure))
      in (result, crashFailure \<or> (equal_fold u reason ''Error'' \<and> rc_Restarts r \<ge> 2)))"

definition pod_observations :: "unicode_case \<Rightarrow> Record \<Rightarrow> (string \<Rightarrow> string \<Rightarrow> Observation) \<Rightarrow> Observation list" where
  "pod_observations u r add =
     (let reasons = (if rc_Reasons r = [] \<and> rc_Status r \<noteq> [] then [rc_Status r] else rc_Reasons r);
          (result, crashFailure) = fold (pod_reason_step u r add) reasons ([], False)
      in result @
         (if crashFailure \<and> \<not> hasObservation result ''pod.failure'' then [add ''pod.failure'' ''repeated-error''] else []) @
         (if rc_Restarts r > 0 then [add ''pod.restarts'' (int_decimal (rc_Restarts r))] else []) @
         (case rc_ImageRepoDigests r of
            [repoDigest] \<Rightarrow> if is_ok (ImageDigestFromRepoDigest repoDigest) then [add OTelContainerImageRepoDigests repoDigest] else []
          | _ \<Rightarrow> []))"

definition event_ref :: "Record \<Rightarrow> ResourceRef \<Rightarrow> ResourceRef" where
  "event_ref r ref =
     (case cut (rc_Ready r) ''/'' of
        Some (involvedKind, involvedName) \<Rightarrow>
          if involvedKind \<noteq> [] \<and> involvedName \<noteq> [] then ref\<lparr>RefKind := involvedKind, RefName := involvedName\<rparr> else ref
      | None \<Rightarrow> ref)"

definition recordObservations :: "unicode_case \<Rightarrow> Record \<Rightarrow> Observation list" where
  "recordObservations u r =
     (let ref = record_ref r; add = add_observation r ref LensLive in
      if rc_Kind r = ''Pod'' then pod_observations u r add
      else if List.member [''Deployment'', ''StatefulSet'', ''DaemonSet'', ''Rollout''] (rc_Kind r) then
        (if rc_Status r \<noteq> [] then [add ''workload.status'' (rc_Status r)] else [])
      else if rc_Kind r = ''Node'' then
        (if equal_fold u (rc_Status r) ''NotReady'' then [add ''node.condition'' ''NotReady''] else []) @
        map (add ''node.condition'') (rc_Conditions r)
      else if rc_Kind r = ''Event'' then
        (if rc_Reason r \<noteq> [] then
           add_observation r (event_ref r ref) LensLive ''event.reason'' (rc_Reason r) #
           (if timelineChange u (rc_Reason r) \<noteq> []
            then [add_observation r (event_ref r ref) LensTimeline ''change.kind'' (timelineChange u (rc_Reason r))] else [])
         else [])
      else [])"

definition cache_coverage :: "Snapshot \<Rightarrow> (Lens, LensCoverage) gomap" where
  "cache_coverage snapshot =
     [(LensLive, \<lparr>lc_Available = Reachable (sn_Coverage snapshot) > 0, lc_Stale = False, lc_Reason = coverageReason snapshot\<rparr>),
      (LensDesired, \<lparr>lc_Available = False, lc_Stale = False, lc_Reason = ''no desired-state connector is available''\<rparr>),
      (LensTimeline, \<lparr>lc_Available = False, lc_Stale = False, lc_Reason = ''no fresh timeline events are available''\<rparr>),
      (LensTelemetry, \<lparr>lc_Available = False, lc_Stale = False, lc_Reason = ''no reachable Prometheus or Loki connector is available''\<rparr>)]"

definition from_record :: "unicode_case \<Rightarrow> string \<Rightarrow> Record \<Rightarrow> Investigation \<Rightarrow> Investigation" where
  "from_record u workspace r input =
     (if rc_Workspace r \<noteq> workspace then input
      else
        let input = input\<lparr>iv_Observations := iv_Observations input @ recordObservations u r\<rparr> in
        if rc_Kind r = ''Event'' \<and> \<not> rc_Stale r
        then input\<lparr>iv_Coverage := gm_put LensTimeline \<lparr>lc_Available = True, lc_Stale = False, lc_Reason = []\<rparr> (iv_Coverage input)\<rparr>
        else input)"

definition FromCache :: "unicode_case \<Rightarrow> string \<Rightarrow> Snapshot \<Rightarrow> Investigation" where
  "FromCache u workspace snapshot =
     fold (from_record u workspace) (sn_Records snapshot)
       \<lparr>iv_Workspace = workspace, iv_Observations = [], iv_Coverage = cache_coverage snapshot\<rparr>"

end
