(* ===== verification/Brain_Correct.thy ===== *)
theory Brain_Correct
  imports Brain_Evaluate "HOL-Library.Multiset"
begin

text \<open>
  Correctness of investigations: every verdict rests on the evidence of its own entity, confidence is exactly
  the absence of missing lenses, fleet-wide verdicts rest on one image digest in at least two
  clusters, and the ranked answer does not depend on the order in which Go's maps are iterated.
\<close>

subsection \<open>Observations by entity\<close>

definition entity_rows :: "Observation list \<Rightarrow> string \<Rightarrow> Observation list" where
  "entity_rows xs e = filter (\<lambda>x. entityKey (ob_Ref x) = e) xs"

lemma group_observations_snoc:
  "group_observations (xs @ [x]) =
     gm_put (entityKey (ob_Ref x)) (gm_get [] (group_observations xs) (entityKey (ob_Ref x)) @ [x]) (group_observations xs)"
  by (simp add: group_observations_def)

lemma group_observations_lookup:
  "map_of (group_observations xs) e = (if entity_rows xs e = [] then None else Some (entity_rows xs e))"
proof (induction xs rule: rev_induct)
  case (snoc x xs)
  then show ?case
    by (auto simp: group_observations_snoc entity_rows_def gm_get_def)
qed (simp add: group_observations_def entity_rows_def)

lemma group_observations_wf: "gm_wf (group_observations xs)"
proof (induction xs rule: rev_induct)
  case (snoc x xs)
  then show ?case by (simp add: group_observations_snoc)
qed (simp add: group_observations_def)

subsection \<open>What one rule concludes\<close>

lemma match_loop_Some:
  "match_loop u p exact st xs = Some x \<Longrightarrow> st = Some x \<or> x \<in> set xs \<and> ob_Lens x = pd_lens p \<and> ob_Key x = pd_key p \<and> value_matches u p exact x"
proof (induction xs arbitrary: st)
  case (Cons y ys)
  have "\<lbrakk>match_loop u p exact (Some y) ys = Some x; ob_Lens y = pd_lens p; ob_Key y = pd_key p; value_matches u p exact y\<rbrakk> \<Longrightarrow> ?case"
    using Cons.IH [of "Some y"] by auto
  with Cons.prems Cons.IH [of st] show ?case by (auto split: if_splits)
qed simp

lemma match_Some:
  "match u p xs exact = Some x \<Longrightarrow> x \<in> set xs \<and> ob_Lens x = pd_lens p \<and> ob_Key x = pd_key p \<and> value_matches u p exact x"
  using match_loop_Some by (fastforce simp: match_def)

text \<open>A citation quotes an observation.\<close>

definition quotes :: "Observation \<Rightarrow> Citation \<Rightarrow> bool" where
  "quotes x c \<longleftrightarrow> ci_Ref c = ob_Ref x \<and> ci_Lens c = ob_Lens x \<and> ci_Predicate c = ob_Key x \<and> ci_Observed c = ob_Value x \<and>
     ci_ObservedAt c = ob_ObservedAt x \<and> ci_Source c = ob_Source x \<and> ci_Stale c = ob_Stale x"

definition fresh_lens :: "(Lens, LensCoverage) gomap \<Rightarrow> Observation list \<Rightarrow> Lens \<Rightarrow> bool" where
  "fresh_lens cov xs lens \<longleftrightarrow> (\<exists>state. map_of cov lens = Some state \<and> lc_Available state \<and> \<not> lc_Stale state) \<and>
     (\<exists>x \<in> set xs. ob_Lens x = lens \<and> \<not> ob_Stale x)"

lemma unavailable_iff: "unavailable lens cov xs \<longleftrightarrow> \<not> fresh_lens cov xs lens"
  by (auto simp: unavailable_def fresh_lens_def list_ex_iff split: option.splits)

definition verdict_ok :: "(Lens, LensCoverage) gomap \<Rightarrow> Observation list \<Rightarrow> Verdict \<Rightarrow> bool" where
  "verdict_ok cov xs v \<longleftrightarrow> \<not> vd_FleetWide v \<and> vd_Scope v = RefScope (vd_Ref v) \<and> (\<exists>x \<in> set xs. vd_Ref v = ob_Ref x) \<and>
     (\<forall>c \<in> set (vd_Citations v). \<exists>x \<in> set xs. quotes x c) \<and> vd_Citations v \<noteq> [] \<and>
     (vd_Status v = StatusConfirmed \<longleftrightarrow> vd_MissingLenses v = []) \<and>
     (\<exists>r \<in> set catalog. vd_Rule v = ru_id r \<and>
        (vd_Status v = StatusConfirmed \<longrightarrow> (\<forall>lens \<in> set (ru_required r @ ru_strengthener r). fresh_lens cov xs lens)))"

lemma applicable_subset: "set (applicableObservations r xs) \<subseteq> set xs"
  by (auto simp: applicableObservations_def)

lemma fresh_lens_mono: "fresh_lens cov xs lens \<Longrightarrow> set xs \<subseteq> set ys \<Longrightarrow> fresh_lens cov ys lens"
  by (auto simp: fresh_lens_def)

lemma found_quotes:
  assumes "match u (ru_trigger r) xs ex = Some t" "(s, x) \<in> set ((ru_trigger r, t) # signal_matches u (ru_signals r) xs)"
  shows "x \<in> set xs \<and> quotes x (citation s x)"
proof -
  have "x \<in> set xs \<and> ob_Key x = pd_key s"
    using assms match_Some [OF assms(1)] match_Some [of u s xs False x]
    by (auto simp: signal_matches_def split: option.splits)
  then show ?thesis by (simp add: quotes_def citation_def)
qed

lemma missing_lenses_confirmed:
  "missing_lenses r cov xs = (missing, status) \<Longrightarrow>
     (status = StatusConfirmed \<longleftrightarrow> missing = []) \<and>
     (status = StatusConfirmed \<longrightarrow> (\<forall>lens \<in> set (ru_required r @ ru_strengthener r). fresh_lens cov xs lens))"
  by (auto simp: missing_lenses_def Let_def filter_empty_conv unavailable_iff split: if_splits)

lemma evaluateRule_ok:
  assumes "evaluateRule u r xs cov = Some v" "r \<in> set catalog"
  shows "verdict_ok cov xs v \<and> vd_Rule v = ru_id r"
proof -
  let ?ys = "applicableObservations r xs"
  obtain t where t: "match u (ru_trigger r) ?ys (ru_exactTrigger r) = Some t"
    using assms(1) by (auto simp: evaluateRule_def Let_def split: option.splits)
  let ?found = "(ru_trigger r, t) # signal_matches u (ru_signals r) ?ys"
  obtain missing status where m: "missing_lenses r cov ?ys = (missing, status)" by fastforce
  have v: "vd_Rule v = ru_id r" "\<not> vd_FleetWide v" "vd_Scope v = RefScope (ob_Ref t)" "vd_Ref v = ob_Ref t" "vd_Status v = status"
    "vd_MissingLenses v = missing" "vd_Citations v = sortCitations (map (\<lambda>(s, x). citation s x) ?found)"
    using assms(1) by (auto simp: evaluateRule_def Let_def t m)
  have cs: "set (vd_Citations v) = (\<lambda>(s, x). citation s x) ` set ?found"
    unfolding v(7) sortCitations_def set_sort set_map ..
  have "\<exists>x \<in> set xs. quotes x c" if mem: "c \<in> set (vd_Citations v)" for c
  proof -
    obtain s x where "(s, x) \<in> set ?found" "c = citation s x" using mem [unfolded cs] by (metis (no_types, lifting) imageE case_prod_unfold prod.collapse)
    with found_quotes [OF t] applicable_subset [of r xs] show ?thesis by blast
  qed
  moreover have "vd_Citations v \<noteq> []" using cs by (metis list.set_intros(1) empty_iff image_eqI list.set(1))
  moreover have "t \<in> set xs" using match_Some [OF t] applicable_subset by blast
  moreover have "\<forall>lens \<in> set (ru_required r @ ru_strengthener r). fresh_lens cov xs lens" if "status = StatusConfirmed"
    using missing_lenses_confirmed [OF m] that fresh_lens_mono [OF _ applicable_subset] by blast
  moreover have "status = StatusConfirmed \<longleftrightarrow> missing = []" using missing_lenses_confirmed [OF m] by (rule conjunct1)
  ultimately show ?thesis
    unfolding verdict_ok_def v(1-6) using v(2) assms(2) by blast
qed

lemma blame_ok: "verdict_ok cov xs v \<Longrightarrow> verdict_ok cov xs (blame v)"
proof -
  have "vd_FleetWide (blame v) = vd_FleetWide v" "vd_Scope (blame v) = vd_Scope v" "vd_Ref (blame v) = vd_Ref v"
    "vd_Citations (blame v) = vd_Citations v" "vd_Status (blame v) = vd_Status v" "vd_MissingLenses (blame v) = vd_MissingLenses v"
    "vd_Rule (blame v) = vd_Rule v" by (simp_all add: blame_def)
  then show "verdict_ok cov xs v \<Longrightarrow> verdict_ok cov xs (blame v)" unfolding verdict_ok_def by metis
qed

lemma compose_cases: "compose vs = vs \<or> (\<exists>i. compose vs = vs[i := blame (vs ! i)])"
  by (auto simp: compose_def split: option.splits)

lemma compose_ok: "\<forall>v \<in> set vs. verdict_ok cov xs v \<Longrightarrow> v \<in> set (compose vs) \<Longrightarrow> verdict_ok cov xs v"
proof -
  assume ok: "\<forall>v \<in> set vs. verdict_ok cov xs v" and v: "v \<in> set (compose vs)"
  have upd: "w \<in> set vs \<or> (\<exists>i < length vs. w = blame (vs ! i))" if w: "w \<in> set (vs[i := blame (vs ! i)])" for w i
  proof (cases "i < length vs")
    case True
    with w set_update_subset_insert [of vs i "blame (vs ! i)"] show ?thesis by blast
  qed (use w in \<open>simp add: list_update_beyond\<close>)
  have "v \<in> set vs \<or> (\<exists>i < length vs. v = blame (vs ! i))" using compose_cases [of vs]
  proof
    assume "compose vs = vs"
    with v show ?thesis by simp
  next
    assume "\<exists>i. compose vs = vs[i := blame (vs ! i)]"
    with v upd show ?thesis by metis
  qed
  with ok show ?thesis using blame_ok nth_mem by blast
qed

lemma compose_rules: "map vd_Rule (compose vs) = map vd_Rule vs"
proof -
  have "map vd_Rule (vs[i := blame (vs ! i)]) = map vd_Rule vs" for i
    by (cases "i < length vs") (simp_all add: map_update blame_def list_update_same_conv list_update_beyond)
  then show ?thesis using compose_cases [of vs] by metis
qed

lemma entity_verdicts_ok: "v \<in> set (entity_verdicts u cov xs) \<Longrightarrow> verdict_ok cov xs v"
  unfolding entity_verdicts_def
  by (rule compose_ok [of _ cov xs]) (auto split: option.splits dest: sym evaluateRule_ok)

lemma catalog_ids: "distinct (map ru_id catalog)"
  by code_simp

lemma distinct_concat_select:
  assumes "distinct (map f rs)" "\<And>r v. r \<in> set rs \<Longrightarrow> h r = Some v \<Longrightarrow> g v = f r"
  shows "distinct (map g (concat (map (\<lambda>r. case h r of None \<Rightarrow> [] | Some v \<Rightarrow> [v]) rs)))"
  using assms
proof (induction rs)
  case (Cons r rs)
  have "g v \<in> f ` set rs" if "v \<in> set (concat (map (\<lambda>r. case h r of None \<Rightarrow> [] | Some v \<Rightarrow> [v]) rs))" for v
    using that Cons.prems(2) by (fastforce split: option.splits)
  with Cons show ?case by (fastforce split: option.splits)
qed simp

lemma entity_verdicts_rules: "distinct (map vd_Rule (entity_verdicts u cov xs))"
  unfolding entity_verdicts_def compose_rules
  by (rule distinct_concat_select [of ru_id]) (auto simp: catalog_ids dest: evaluateRule_ok)

subsection \<open>Groups across the fleet\<close>

definition slot :: "groups \<Rightarrow> group_key \<Rightarrow> string \<Rightarrow> group_member option" where
  "slot g k e = map_of (gm_get [] g k) e"

definition groups_ok :: "groups \<Rightarrow> bool" where
  "groups_ok g \<longleftrightarrow> gm_wf g \<and> (\<forall>k m. map_of g k = Some m \<longrightarrow> gm_wf m \<and> m \<noteq> [])"

lemma groups_okD: "groups_ok g \<Longrightarrow> map_of g k = Some m \<Longrightarrow> gm_wf m \<and> m \<noteq> []"
  unfolding groups_ok_def by blast

definition carries :: "Observation \<Rightarrow> string \<Rightarrow> bool" where
  "carries x d \<longleftrightarrow> ob_Key x = OTelContainerImageRepoDigests \<and> \<not> ob_Stale x \<and> ImageDigestFromRepoDigest (ob_Value x) = Inr d"

definition slot_update :: "Verdict \<Rightarrow> string \<Rightarrow> Observation \<Rightarrow> group_member option \<Rightarrow> group_member option" where
  "slot_update v d x old =
     (if \<not> carries x d then old
      else case old of None \<Rightarrow> Some (v, x) | Some (w, c) \<Rightarrow> if preferCorrelationObservation x c then Some (v, x) else old)"

lemma group_step_cases:
  "group_step v e x g = g \<and> (\<forall>d. \<not> carries x d) \<or>
   (\<exists>d m. carries x d \<and> group_step v e x g = gm_put (vd_Rule v, d) m g \<and> (gm_wf (gm_get [] g (vd_Rule v, d)) \<longrightarrow> gm_wf m) \<and> m \<noteq> [] \<and>
      (\<forall>e'. map_of m e' = (if e' = e then slot_update v d x (slot g (vd_Rule v, d) e) else slot g (vd_Rule v, d) e')))"
proof (cases "\<exists>d. carries x d")
  case False
  then show ?thesis by (auto simp: group_step_def carries_def split: sum.split)
next
  case True
  then obtain d where d: "carries x d" ..
  define old where "old = gm_get [] g (vd_Rule v, d)"
  define m where "m = (case map_of old e of None \<Rightarrow> gm_put e (v, x) old
     | Some (_, c) \<Rightarrow> if preferCorrelationObservation x c then gm_put e (v, x) old else old)"
  have "group_step v e x g = gm_put (vd_Rule v, d) m g"
    using d unfolding m_def old_def by (simp add: group_step_def carries_def Let_def)
  moreover have "gm_wf old \<longrightarrow> gm_wf m" by (auto simp: m_def split: option.split)
  moreover have "map_of m e \<noteq> None" by (auto simp: m_def split: option.split)
  then have "m \<noteq> []" by auto
  moreover have "map_of m e' = (if e' = e then slot_update v d x (slot g (vd_Rule v, d) e) else slot g (vd_Rule v, d) e')" for e'
    using d by (auto simp: m_def slot_def slot_update_def old_def [symmetric] split: option.split)
  ultimately show ?thesis using d old_def by blast
qed

lemma carries_unique: "carries x d \<Longrightarrow> carries x d' \<Longrightarrow> d = d'"
  by (simp add: carries_def)

lemma slot_step:
  "slot (group_step v e x g) k e' = (if e' = e \<and> vd_Rule v = fst k then slot_update v (snd k) x (slot g k e) else slot g k e')"
  using group_step_cases [of v e x g]
proof
  assume "group_step v e x g = g \<and> (\<forall>d. \<not> carries x d)"
  then show ?thesis by (simp add: slot_update_def)
next
  assume "\<exists>d m. carries x d \<and> group_step v e x g = gm_put (vd_Rule v, d) m g \<and> (gm_wf (gm_get [] g (vd_Rule v, d)) \<longrightarrow> gm_wf m) \<and> m \<noteq> [] \<and>
      (\<forall>e'. map_of m e' = (if e' = e then slot_update v d x (slot g (vd_Rule v, d) e) else slot g (vd_Rule v, d) e'))"
  then obtain d m where d: "carries x d" and s: "group_step v e x g = gm_put (vd_Rule v, d) m g"
    and m: "\<And>e'. map_of m e' = (if e' = e then slot_update v d x (slot g (vd_Rule v, d) e) else slot g (vd_Rule v, d) e')" by blast
  show ?thesis
  proof (cases "k = (vd_Rule v, d)")
    case True
    then show ?thesis using m [of e'] by (simp add: s slot_def [of "gm_put _ _ _"])
  next
    case False
    then have "slot_update v (snd k) x (slot g k e) = slot g k e" if "vd_Rule v = fst k"
      using carries_unique [OF d, of "snd k"] that by (auto simp: slot_update_def)
    with False show ?thesis by (auto simp: s slot_def)
  qed
qed

lemma groups_ok_step: "groups_ok g \<Longrightarrow> groups_ok (group_step v e x g)"
proof -
  assume ok: "groups_ok g"
  have "gm_wf (gm_get [] g k)" for k
  proof (cases "map_of g k")
    case (Some m)
    with groups_okD [OF ok] show ?thesis by (simp add: gm_get_def)
  qed (simp add: gm_get_def)
  then consider "group_step v e x g = g" | k m where "group_step v e x g = gm_put k m g" "gm_wf m" "m \<noteq> []"
    using group_step_cases [of v e x g] by blast
  then show ?thesis
  proof cases
    case (2 k m)
    have "gm_wf n \<and> n \<noteq> []" if "map_of (gm_put k m g) j = Some n" for j n
      using that 2(2,3) groups_okD [OF ok, of j] by (cases "j = k") auto
    moreover have "gm_wf (gm_put k m g)" using ok by (simp add: groups_ok_def)
    ultimately show ?thesis unfolding 2(1) groups_ok_def by blast
  qed (simp add: ok)
qed

definition slot_verdict :: "Observation list \<Rightarrow> string \<Rightarrow> Verdict \<Rightarrow> group_member option \<Rightarrow> group_member option" where
  "slot_verdict xs d v old = fold (slot_update v d) xs old"

lemma slot_fold_step:
  "slot (fold (group_step v e) xs g) k e' = (if e' = e \<and> vd_Rule v = fst k then slot_verdict xs (snd k) v (slot g k e) else slot g k e')"
  by (induction xs arbitrary: g) (simp_all add: slot_step slot_verdict_def)

lemma slot_groups:
  "slot (fold (group_verdict byEntity) vs g) k e =
     fold (slot_verdict (gm_get [] byEntity e) (snd k))
       (filter (\<lambda>v. vd_Rule v = fst k \<and> supportsFleetCorrelation (vd_Rule v)) (filter (\<lambda>v. entityKey (vd_Ref v) = e) vs)) (slot g k e)"
  by (induction vs arbitrary: g) (auto simp: group_verdict_def slot_fold_step)

lemma groups_ok_fold: "groups_ok g \<Longrightarrow> groups_ok (fold (group_verdict byEntity) vs g)"
proof -
  have "groups_ok g \<Longrightarrow> groups_ok (fold (group_step v e) xs g)" for v e xs g
    by (induction xs arbitrary: g) (simp_all add: groups_ok_step)
  then show "groups_ok g \<Longrightarrow> groups_ok (fold (group_verdict byEntity) vs g)"
    by (induction vs arbitrary: g) (simp_all add: group_verdict_def)
qed

lemma groups_ok_Nil: "groups_ok []"
  by (simp add: groups_ok_def)

lemma groups_ok_keys: "groups_ok g \<Longrightarrow> k \<in> set (map fst g) \<longleftrightarrow> (\<exists>e. slot g k e \<noteq> None)"
proof -
  assume ok: "groups_ok g"
  show ?thesis
  proof (cases "map_of g k")
    case None
    then have "k \<notin> set (map fst g)" by (simp add: map_of_eq_None_iff)
    with None show ?thesis by (simp add: slot_def gm_get_def)
  next
    case (Some m)
    with groups_okD [OF ok] have "m \<noteq> []" by blast
    then obtain e p where "map_of m e = Some p" by (metis list.exhaust map_of_Cons_code(2) surj_pair)
    with Some show ?thesis by (metis (mono_tags) gm_get_def map_of_eq_None_iff option.distinct(1) option.case(2) slot_def list.set_map)
  qed
qed

text \<open>Every stored member is a verdict of its entity, with a fresh observation of the group's image.\<close>

lemma slot_update_mem:
  "slot_update v d x old = Some (w, c) \<Longrightarrow> old = Some (w, c) \<or> w = v \<and> c = x \<and> carries x d"
  by (auto simp: slot_update_def split: if_splits option.splits)

lemma slot_verdict_mem:
  "slot_verdict xs d v old = Some (w, c) \<Longrightarrow> old = Some (w, c) \<or> w = v \<and> c \<in> set xs \<and> carries c d"
proof (induction xs arbitrary: old)
  case (Cons x xs)
  have "slot_verdict xs d v (slot_update v d x old) = Some (w, c)" using Cons.prems by (simp add: slot_verdict_def)
  from Cons.IH [OF this] slot_update_mem [of v d x old w c] show ?case by auto
qed (simp add: slot_verdict_def)

lemma slot_fold_mem:
  "fold (slot_verdict xs d) vs old = Some (w, c) \<Longrightarrow> old = Some (w, c) \<or> w \<in> set vs \<and> c \<in> set xs \<and> carries c d"
proof (induction vs arbitrary: old)
  case (Cons v vs)
  have "fold (slot_verdict xs d) vs (slot_verdict xs d v old) = Some (w, c)" using Cons.prems by simp
  from Cons.IH [OF this] slot_verdict_mem [of xs d v old w c] show ?case by auto
qed simp

abbreviation fleet_groups :: "(string, Observation list) gomap \<Rightarrow> Verdict list \<Rightarrow> groups" where
  "fleet_groups byEntity vs \<equiv> fold (group_verdict byEntity) vs []"

lemma group_member_ok:
  assumes "slot (fleet_groups byEntity vs) k e = Some (v, x)"
  shows "v \<in> set vs \<and> entityKey (vd_Ref v) = e \<and> vd_Rule v = fst k \<and> x \<in> set (gm_get [] byEntity e) \<and> carries x (snd k)"
  using slot_fold_mem [of "gm_get [] byEntity e" "snd k" _ None v x] assms
  unfolding slot_groups by (force simp: slot_def [of "[]"])

lemma members_slot: "map_of (fleet_groups byEntity vs) k = Some m \<Longrightarrow> map_of m e = slot (fleet_groups byEntity vs) k e"
  by (simp add: slot_def gm_get_def)

subsection \<open>Independence of the iteration order\<close>

definition order_ok :: "map_order \<Rightarrow> bool" where
  "order_ok ord \<longleftrightarrow> (\<forall>xs. mset (mo_entities ord xs) = mset xs) \<and> (\<forall>xs. mset (mo_groups ord xs) = mset xs) \<and>
     (\<forall>xs. mset (mo_members ord xs) = mset xs)"

lemma sort_key_unique:
  assumes "mset xs = mset ys" "inj_on f (set xs)"
  shows "sort_key f xs = sort_key f ys"
proof -
  have "mset (map f (sort_key f xs)) = mset (map f (sort_key f ys))" using assms(1) by simp
  from properties_for_sort [OF this sorted_sort_key] properties_for_sort [OF refl sorted_sort_key]
  have "map f (sort_key f xs) = map f (sort_key f ys)" by metis
  moreover have "set ys = set xs" using assms(1) by (metis set_mset_mset)
  ultimately show ?thesis using assms(2) by (intro map_inj_on [of f]) simp_all
qed

lemma filter_own:
  assumes "distinct ks" "\<forall>k \<in> set ks. \<forall>v \<in> set (V k). f v = k"
  shows "filter (\<lambda>v. f v = e) (concat (map V ks)) = (if e \<in> set ks then V e else [])"
  using assms
proof (induction ks)
  case (Cons k ks)
  have "filter (\<lambda>v. f v = e) (V k) = (if k = e then V e else [])"
    using Cons.prems(2) by (auto simp: filter_id_conv filter_empty_conv)
  with Cons show ?case by auto
qed simp

lemma split_last_sep: "a @ c # n = b @ c # m \<Longrightarrow> c \<notin> set n \<Longrightarrow> c \<notin> set m \<Longrightarrow> a = b \<and> n = m"
proof -
  assume eq: "a @ c # n = b @ c # m" and no: "c \<notin> set n" "c \<notin> set m"
  have "rev n @ c # rev a = rev m @ c # rev b" using arg_cong [OF eq, of rev] by simp
  from split_at_sep [OF this] no show ?thesis by simp
qed

text \<open>No resource text but the scope holds a slash, as Kubernetes names do not.\<close>

definition slash_free :: "ResourceRef \<Rightarrow> bool" where
  "slash_free r \<longleftrightarrow> CHR ''/'' \<notin> set (SourceKind r) \<and> CHR ''/'' \<notin> set (RefKind r) \<and> CHR ''/'' \<notin> set (RefNamespace r) \<and>
     CHR ''/'' \<notin> set (RefName r)"

lemma ref_string_shape:
  "ResourceRef_String r = SourceKind r @ '':'' @ RefScope r @ CHR ''/'' # RefKind r @
     (if RefNamespace r = [] then [] else CHR ''/'' # RefNamespace r) @ CHR ''/'' # RefName r"
  by (simp add: ResourceRef_String_def)

lemma slash_count:
  "slash_free r \<Longrightarrow> count_list (ResourceRef_String r) CHR ''/'' = count_list (RefScope r) CHR ''/'' + (if RefNamespace r = [] then 2 else 3)"
  by (simp add: ref_string_shape slash_free_def)

lemma ref_string_entity:
  assumes "slash_free r" "slash_free q" "RefScope r = RefScope q" "ResourceRef_String r = ResourceRef_String q"
  shows "entityKey r = entityKey q"
proof -
  define s where "s = CHR ''/''"
  note free = assms(1,2) [unfolded slash_free_def, folded s_def]
  note str = assms(4) [unfolded ref_string_shape, folded s_def]
  have ns: "RefNamespace r = [] \<longleftrightarrow> RefNamespace q = []"
    using slash_count [OF assms(1)] slash_count [OF assms(2)] assms(3,4) by (simp split: if_splits)
  have name: "SourceKind r @ '':'' @ RefScope r @ s # RefKind r @ (if RefNamespace r = [] then [] else s # RefNamespace r) =
      SourceKind q @ '':'' @ RefScope q @ s # RefKind q @ (if RefNamespace q = [] then [] else s # RefNamespace q) \<and> RefName r = RefName q"
    by (rule split_last_sep [where c = s]) (use str in simp, (use free in blast)+)
  have "RefKind r = RefKind q \<and> RefNamespace r = RefNamespace q"
  proof (cases "RefNamespace r = []")
    case True
    with name ns have "(SourceKind r @ '':'' @ RefScope r) @ s # RefKind r = (SourceKind q @ '':'' @ RefScope q) @ s # RefKind q" by simp
    from split_last_sep [OF this] free True ns show ?thesis by simp
  next
    case False
    with name ns have eq: "(SourceKind r @ '':'' @ RefScope r @ s # RefKind r) @ s # RefNamespace r =
        (SourceKind q @ '':'' @ RefScope q @ s # RefKind q) @ s # RefNamespace q" by simp
    from split_last_sep [OF eq] free have "(SourceKind r @ '':'' @ RefScope r) @ s # RefKind r =
        (SourceKind q @ '':'' @ RefScope q) @ s # RefKind q" "RefNamespace r = RefNamespace q" by simp_all
    from split_last_sep [OF this(1)] this(2) free show ?thesis by simp
  qed
  with name assms(3) show ?thesis by (simp add: entityKey_def)
qed

subsection \<open>The verdicts of an investigation\<close>

definition all_verdicts :: "unicode_case \<Rightarrow> map_order \<Rightarrow> Investigation \<Rightarrow> Verdict list" where
  "all_verdicts u ord input =
     (let byEntity = group_observations (iv_Observations input) in
      concat (map (\<lambda>e. entity_verdicts u (iv_Coverage input) (the (map_of byEntity e))) (mo_entities ord (map fst byEntity))))"

lemma Evaluate_unfold:
  "Evaluate u ord input = rbind (Investigation_Validate input) (\<lambda>_. Inr \<lparr>rs_Workspace = iv_Workspace input,
     rs_Verdicts = sortVerdicts (correlateFleet ord (all_verdicts u ord input) (group_observations (iv_Observations input)) @
       all_verdicts u ord input)\<rparr>)"
  by (simp add: Evaluate_def all_verdicts_def Let_def)

lemma order_sets:
  assumes "order_ok ord"
  shows "set (mo_entities ord es) = set es" "set (mo_groups ord ks) = set ks" "set (mo_members ord es) = set es"
    "distinct es \<Longrightarrow> distinct (mo_entities ord es)"
  using assms unfolding order_ok_def by (metis mset_eq_setD, metis mset_eq_setD, metis mset_eq_setD, metis mset_eq_imp_distinct_iff)

lemma entity_lookup: "e \<in> set (map fst (group_observations xs)) \<Longrightarrow> map_of (group_observations xs) e = Some (entity_rows xs e)"
  using group_observations_lookup [of xs e] by (metis map_of_eq_None_iff list.set_map)

lemma gm_get_rows: "gm_get [] (group_observations xs) e = entity_rows xs e"
  by (simp add: gm_get_def group_observations_lookup)

lemma verdict_mem:
  assumes "order_ok ord" "v \<in> set (all_verdicts u ord input)"
  shows "v \<in> set (entity_verdicts u (iv_Coverage input) (entity_rows (iv_Observations input) (entityKey (vd_Ref v)))) \<and>
    verdict_ok (iv_Coverage input) (entity_rows (iv_Observations input) (entityKey (vd_Ref v))) v"
proof -
  let ?xs = "iv_Observations input"
  obtain e where e: "e \<in> set (map fst (group_observations ?xs))" "v \<in> set (entity_verdicts u (iv_Coverage input) (entity_rows ?xs e))"
    using assms(2) entity_lookup [of _ ?xs] by (auto simp: all_verdicts_def Let_def order_sets [OF assms(1)])
  from entity_verdicts_ok [OF e(2)] have "entityKey (vd_Ref v) = e"
    by (auto simp: verdict_ok_def entity_rows_def)
  with e(2) entity_verdicts_ok [OF e(2)] show ?thesis by simp
qed

lemma filter_all_verdicts:
  assumes "order_ok ord"
  shows "filter (\<lambda>v. entityKey (vd_Ref v) = e) (all_verdicts u ord input) =
    (if e \<in> set (map fst (group_observations (iv_Observations input)))
     then entity_verdicts u (iv_Coverage input) (entity_rows (iv_Observations input) e) else [])"
proof -
  let ?xs = "iv_Observations input"
  let ?V = "\<lambda>e. entity_verdicts u (iv_Coverage input) (the (map_of (group_observations ?xs) e))"
  have "entityKey (vd_Ref v) = k" if "k \<in> set (map fst (group_observations ?xs))" "v \<in> set (?V k)" for k v
    using entity_verdicts_ok [OF that(2)] entity_lookup [OF that(1)] by (auto simp: verdict_ok_def entity_rows_def)
  moreover have "distinct (map fst (group_observations ?xs))" using group_observations_wf by (simp add: gm_wf_def)
  ultimately have "filter (\<lambda>v. entityKey (vd_Ref v) = e) (all_verdicts u ord input) = (if e \<in> set (map fst (group_observations ?xs)) then ?V e else [])"
    unfolding all_verdicts_def Let_def
    by (subst filter_own [of _ ?V "\<lambda>v. entityKey (vd_Ref v)"]) (simp_all add: order_sets [OF assms])
  then show ?thesis using entity_lookup [of e ?xs] by simp
qed

lemma mset_concat_map: "mset ks = mset ls \<Longrightarrow> mset (concat (map f ks)) = mset (concat (map f ls))"
proof -
  have "mset (concat (map f ks)) = \<Sum>\<^sub># (image_mset (\<lambda>k. mset (f k)) (mset ks))" for ks
    by (induction ks) simp_all
  then show "mset ks = mset ls \<Longrightarrow> mset (concat (map f ks)) = mset (concat (map f ls))" by simp
qed

lemma mset_all_verdicts: "order_ok ord \<Longrightarrow> order_ok ord' \<Longrightarrow> mset (all_verdicts u ord input) = mset (all_verdicts u ord' input)"
  unfolding all_verdicts_def Let_def by (rule mset_concat_map) (simp add: order_ok_def)

lemma verdict_key_inj:
  assumes "order_ok ord" "\<forall>x \<in> set (iv_Observations input). slash_free (ob_Ref x)"
  shows "inj_on verdict_key (set (all_verdicts u ord input))"
proof (rule inj_onI)
  fix v w
  assume v: "v \<in> set (all_verdicts u ord input)" and w: "w \<in> set (all_verdicts u ord input)" and key: "verdict_key v = verdict_key w"
  note ok = verdict_mem [OF assms(1) v] verdict_mem [OF assms(1) w]
  obtain x y where xy: "x \<in> set (iv_Observations input)" "y \<in> set (iv_Observations input)" "vd_Ref v = ob_Ref x" "vd_Ref w = ob_Ref y"
    using ok by (auto simp: verdict_ok_def entity_rows_def)
  have free: "slash_free (vd_Ref v)" "slash_free (vd_Ref w)" using assms(2) xy by simp_all
  have eq: "vd_Scope v = vd_Scope w" "ResourceRef_String (vd_Ref v) = ResourceRef_String (vd_Ref w)" "vd_Rule v = vd_Rule w"
    using key unfolding verdict_key_def by blast+
  have "RefScope (vd_Ref v) = RefScope (vd_Ref w)" using eq(1) ok unfolding verdict_ok_def by metis
  from ref_string_entity [OF free this eq(2)] have e: "entityKey (vd_Ref v) = entityKey (vd_Ref w)" .
  let ?L = "entity_verdicts u (iv_Coverage input) (entity_rows (iv_Observations input) (entityKey (vd_Ref w)))"
  have "inj_on vd_Rule (set ?L)" using entity_verdicts_rules unfolding distinct_map by blast
  moreover have "v \<in> set ?L" "w \<in> set ?L" using ok e by simp_all
  ultimately show "v = w" using eq(3) unfolding inj_on_def by blast
qed

subsection \<open>Fleet-wide verdicts\<close>

lemma absorb_keeps:
  "vd_Rule (fold (absorb m) vs w) = vd_Rule w" "vd_FleetWide (fold (absorb m) vs w) = vd_FleetWide w"
  "vd_Hypothesis (fold (absorb m) vs w) = vd_Hypothesis w" "vd_Ref (fold (absorb m) vs w) = vd_Ref w"
  "vd_Clusters (fold (absorb m) vs w) = vd_Clusters w"
  by (induction vs arbitrary: w) (simp_all add: absorb_def Let_def)

lemma absorb_cong: "map_of m = map_of m' \<Longrightarrow> absorb m = absorb m'"
  by (intro ext) (simp add: absorb_def)

definition group_of :: "map_order \<Rightarrow> (string, group_member) gomap \<Rightarrow> Verdict list" where
  "group_of ord m = sortVerdicts (map (\<lambda>e. fst (the (map_of m e))) (mo_members ord (map fst m)))"

definition correlated_of :: "group_key \<Rightarrow> (string, group_member) gomap \<Rightarrow> Verdict list \<Rightarrow> Verdict" where
  "correlated_of k m grp =
     (let first = hd grp; clusters = uniqueClusters grp;
          w = fold (absorb m) grp (first\<lparr>vd_RemediationCandidate := cloneRemediationCandidate (vd_RemediationCandidate first),
              vd_FleetWide := True, vd_Scope := ''fleet'', vd_Clusters := clusters,
              vd_Score := vd_Score first + 1000 + int (length clusters),
              vd_Hypothesis := vd_Hypothesis first @ '' across '' @ nat_decimal (length clusters) @
                '' clusters running image '' @ snd k, vd_Citations := []\<rparr>)
      in w\<lparr>vd_Citations := sortCitations (vd_Citations w)\<rparr>)"

lemma correlate_group_eq:
  "correlate_group ord k m =
     (if length (uniqueClusters (group_of ord m)) < 2 then None else Some (correlated_of k m (group_of ord m)))"
  by (simp add: correlate_group_def group_of_def correlated_of_def Let_def)

lemma set_group_of: "order_ok ord \<Longrightarrow> set (group_of ord m) = (\<lambda>e. fst (the (map_of m e))) ` fst ` set m"
  by (simp add: group_of_def sortVerdicts_def order_sets)

lemma group_mem:
  assumes "order_ok ord" "map_of (fleet_groups byEntity vs) k = Some m" "v \<in> set (group_of ord m)"
  shows "\<exists>x. v \<in> set vs \<and> vd_Rule v = fst k \<and> map_of m (entityKey (vd_Ref v)) = Some (v, x) \<and>
    x \<in> set (gm_get [] byEntity (entityKey (vd_Ref v))) \<and> carries x (snd k)"
proof -
  obtain e where e: "e \<in> fst ` set m" "v = fst (the (map_of m e))"
    using assms(3) unfolding set_group_of [OF assms(1)] by blast
  then obtain w x where wx: "map_of m e = Some (w, x)" by (metis map_of_eq_None_iff not_Some_eq surj_pair)
  with e(2) have "w = v" by simp
  with wx have mem: "map_of m e = Some (v, x)" by simp
  then have "slot (fleet_groups byEntity vs) k e = Some (v, x)" using members_slot [OF assms(2), of e] by simp
  from group_member_ok [OF this] mem show ?thesis by blast
qed

lemma correlated_fields:
  "vd_Rule (correlated_of k m grp) = vd_Rule (hd grp)" "vd_FleetWide (correlated_of k m grp)"
  "vd_Ref (correlated_of k m grp) = vd_Ref (hd grp)" "vd_Clusters (correlated_of k m grp) = uniqueClusters grp"
  "\<exists>pre. vd_Hypothesis (correlated_of k m grp) = pre @ snd k"
  by (simp_all add: correlated_of_def Let_def absorb_keeps)

lemma digest_length: "carries x d \<Longrightarrow> length d = 71"
proof -
  assume "carries x d"
  then have "ValidateImageDigest d = Inr ()" unfolding carries_def using ImageDigestFromRepoDigest_Inr by blast
  then show ?thesis by (auto simp: ValidateImageDigest_Inr)
qed

lemma hypothesis_digest: "p @ d = q @ d' \<Longrightarrow> length d = length d' \<Longrightarrow> d = d'"
  by simp

lemma groups_agree:
  fixes input :: Investigation and u :: unicode_case and ord ord' :: map_order
  assumes "order_ok ord" "order_ok ord'"
  defines "xs \<equiv> iv_Observations input"
  defines "g \<equiv> fleet_groups (group_observations xs) (all_verdicts u ord input)"
  defines "g' \<equiv> fleet_groups (group_observations xs) (all_verdicts u ord' input)"
  shows "mset (map fst g) = mset (map fst g')" and "map_of g k = Some m \<Longrightarrow> \<exists>m'. map_of g' k = Some m' \<and> map_of m = map_of m' \<and> mset (map fst m) = mset (map fst m')"
proof -
  have same: "slot g k e = slot g' k e" for k e
    unfolding g_def g'_def slot_groups filter_all_verdicts [OF assms(1)] filter_all_verdicts [OF assms(2)] ..
  have ok: "groups_ok g" "groups_ok g'" unfolding g_def g'_def by (rule groups_ok_fold [OF groups_ok_Nil])+
  have dom: "set (map fst g) = set (map fst g')"
    by (rule set_eqI) (simp only: groups_ok_keys [OF ok(1)] groups_ok_keys [OF ok(2)] same)
  have distinct: "distinct (map fst g)" "distinct (map fst g')" using ok unfolding groups_ok_def gm_wf_def by blast+
  from set_eq_iff_mset_eq_distinct [OF this] dom show "mset (map fst g) = mset (map fst g')" by blast
  assume m: "map_of g k = Some m"
  then have "k \<in> set (map fst g')" unfolding dom [symmetric] using map_of_SomeD [OF m] by force
  then obtain m' where m': "map_of g' k = Some m'" by (cases "map_of g' k") (simp_all add: map_of_eq_None_iff)
  have eq: "map_of m = map_of m'" by (rule ext) (use same [of k] m m' in \<open>simp add: slot_def gm_get_def\<close>)
  have "distinct (map fst m)" "distinct (map fst m')" using groups_okD [OF ok(1) m] groups_okD [OF ok(2) m'] by (simp_all add: gm_wf_def)
  moreover have "set (map fst m) = set (map fst m')" using arg_cong [OF eq, of dom] by (simp add: dom_map_of_conv_image_fst)
  ultimately have "mset (map fst m) = mset (map fst m')" using set_eq_iff_mset_eq_distinct by blast
  with m' eq show "\<exists>m'. map_of g' k = Some m' \<and> map_of m = map_of m' \<and> mset (map fst m) = mset (map fst m')" by blast
qed

lemma correlate_group_agree:
  assumes "order_ok ord" "order_ok ord'" "map_of m = map_of m'" "mset (map fst m) = mset (map fst m')"
    "inj_on verdict_key (set (group_of ord m))"
  shows "correlate_group ord k m = correlate_group ord' k m'"
proof -
  let ?f = "\<lambda>e. fst (the (map_of m e))"
  have "mset (map ?f (mo_members ord (map fst m))) = mset (map ?f (mo_members ord' (map fst m')))"
    using assms(1,2,4) unfolding order_ok_def by (simp add: mset_map)
  moreover have "inj_on verdict_key (set (map ?f (mo_members ord (map fst m))))"
    using assms(5) by (simp add: group_of_def sortVerdicts_def)
  ultimately have "group_of ord m = group_of ord' m'"
    unfolding group_of_def sortVerdicts_def assms(3) [symmetric] by (rule sort_key_unique)
  then show ?thesis by (simp add: correlate_group_eq correlated_of_def absorb_cong [OF assms(3)])
qed

definition fleet_verdicts :: "unicode_case \<Rightarrow> map_order \<Rightarrow> Investigation \<Rightarrow> Verdict list" where
  "fleet_verdicts u ord input = correlateFleet ord (all_verdicts u ord input) (group_observations (iv_Observations input))"

lemma fleet_verdict_cases:
  assumes "order_ok ord" "v \<in> set (fleet_verdicts u ord input)"
  obtains k m where "map_of (fleet_groups (group_observations (iv_Observations input)) (all_verdicts u ord input)) k = Some m"
    "v = correlated_of k m (group_of ord m)" "2 \<le> length (uniqueClusters (group_of ord m))"
proof -
  let ?g = "fleet_groups (group_observations (iv_Observations input)) (all_verdicts u ord input)"
  obtain k where k: "k \<in> set (map fst ?g)" "correlate_group ord k (the (map_of ?g k)) = Some v"
  proof -
    obtain k where k: "k \<in> set (mo_groups ord (map fst ?g))"
      "v \<in> set (case correlate_group ord k (the (map_of ?g k)) of None \<Rightarrow> [] | Some v \<Rightarrow> [v])"
      using assms(2) unfolding fleet_verdicts_def correlateFleet_def Let_def set_concat set_map by blast
    have "correlate_group ord k (the (map_of ?g k)) = Some v"
      using k(2) by (cases "correlate_group ord k (the (map_of ?g k))") simp_all
    with k(1) show thesis unfolding order_sets(2) [OF assms(1)] by (rule that)
  qed
  then obtain m where "map_of ?g k = Some m" by (metis map_of_eq_None_iff not_Some_eq list.set_map)
  with k(2) show thesis by (intro that [of k m]) (auto simp: correlate_group_eq split: if_splits)
qed

lemma group_of_inj:
  assumes "order_ok ord" "\<forall>x \<in> set (iv_Observations input). slash_free (ob_Ref x)"
    "map_of (fleet_groups (group_observations (iv_Observations input)) (all_verdicts u ord input)) k = Some m"
  shows "inj_on verdict_key (set (group_of ord m))"
  by (rule inj_on_subset [OF verdict_key_inj [OF assms(1,2)]]) (use group_mem [OF assms(1,3)] in blast)

lemma group_of_nonempty: "2 \<le> length (uniqueClusters grp) \<Longrightarrow> hd grp \<in> set grp"
  by (cases grp) (simp_all add: uniqueClusters_def)

lemma fleet_verdict_key:
  assumes "order_ok ord" "map_of (fleet_groups byEntity vs) k = Some m" "2 \<le> length (uniqueClusters (group_of ord m))"
  shows "vd_Rule (correlated_of k m (group_of ord m)) = fst k" "length (snd k) = 71"
  using group_mem [OF assms(1,2) group_of_nonempty [OF assms(3)]] digest_length
  by (auto simp: correlated_fields)

lemma fleet_key_inj:
  assumes "order_ok ord"
  shows "inj_on verdict_key (set (fleet_verdicts u ord input))"
proof (rule inj_onI)
  fix v w
  assume v: "v \<in> set (fleet_verdicts u ord input)" and w: "w \<in> set (fleet_verdicts u ord input)" and key: "verdict_key v = verdict_key w"
  let ?g = "fleet_groups (group_observations (iv_Observations input)) (all_verdicts u ord input)"
  obtain k m where a: "map_of ?g k = Some m" "v = correlated_of k m (group_of ord m)" "2 \<le> length (uniqueClusters (group_of ord m))"
    by (rule fleet_verdict_cases [OF assms v])
  obtain k' m' where b: "map_of ?g k' = Some m'" "w = correlated_of k' m' (group_of ord m')" "2 \<le> length (uniqueClusters (group_of ord m'))"
    by (rule fleet_verdict_cases [OF assms w])
  have eq: "vd_Rule v = vd_Rule w" "vd_Hypothesis v = vd_Hypothesis w" using key by (simp_all add: verdict_key_def)
  obtain p q where "vd_Hypothesis v = p @ snd k" "vd_Hypothesis w = q @ snd k'" using correlated_fields(5) a(2) b(2) by metis
  with eq(2) have "p @ snd k = q @ snd k'" by simp
  then have "snd k = snd k'"
    by (rule hypothesis_digest) (simp add: fleet_verdict_key(2) [OF assms a(1,3)] fleet_verdict_key(2) [OF assms b(1,3)])
  moreover have "fst k = fst k'"
    using eq(1) fleet_verdict_key(1) [OF assms a(1,3)] fleet_verdict_key(1) [OF assms b(1,3)] a(2) b(2) by simp
  ultimately have "k = k'" by (rule prod_eqI [rotated])
  with a b show "v = w" by simp
qed

lemma mset_fleet_verdicts:
  assumes "order_ok ord" "order_ok ord'" "\<forall>x \<in> set (iv_Observations input). slash_free (ob_Ref x)"
  shows "mset (fleet_verdicts u ord input) = mset (fleet_verdicts u ord' input)"
proof -
  let ?g = "fleet_groups (group_observations (iv_Observations input)) (all_verdicts u ord input)"
  let ?g' = "fleet_groups (group_observations (iv_Observations input)) (all_verdicts u ord' input)"
  let ?F = "\<lambda>ord g k. case correlate_group ord k (the (map_of g k)) of None \<Rightarrow> [] | Some v \<Rightarrow> [v]"
  have same: "?F ord ?g k = ?F ord' ?g' k" if k: "k \<in> set (map fst ?g)" for k
  proof -
    obtain m where m: "map_of ?g k = Some m" using k by (cases "map_of ?g k") (simp_all add: map_of_eq_None_iff)
    then obtain m' where m': "map_of ?g' k = Some m'" "map_of m = map_of m'" "mset (map fst m) = mset (map fst m')"
      using groups_agree(2) [OF assms(1,2)] by blast
    from correlate_group_agree [OF assms(1,2) m'(2,3) group_of_inj [OF assms(1,3) m]] show ?thesis by (simp only: m m'(1) option.sel)
  qed
  have perm: "mset (mo_groups ord (map fst ?g)) = mset (mo_groups ord' (map fst ?g'))"
    using groups_agree(1) [OF assms(1,2)] assms(1,2) unfolding order_ok_def by metis
  have eq: "map (?F ord ?g) (mo_groups ord (map fst ?g)) = map (?F ord' ?g') (mo_groups ord (map fst ?g))"
    by (rule map_cong [OF refl]) (rule same, simp only: order_sets(2) [OF assms(1)])
  show ?thesis
    unfolding fleet_verdicts_def correlateFleet_def Let_def eq by (rule mset_concat_map [OF perm])
qed

text \<open>
  C23: an investigation's answer is deterministic. Whatever order the Go runtime chooses for the three
  maps the evaluation iterates over (entities, correlation groups, group members), the ranked result is the same,
  as long as the source kinds, kinds, namespaces and names of the evidence hold no slash.
\<close>
theorem Evaluate_deterministic:
  assumes "order_ok ord" and "order_ok ord'" and "\<forall>x \<in> set (iv_Observations input). slash_free (ob_Ref x)"
  shows "Evaluate u ord input = Evaluate u ord' input"
proof -
  let ?v = "fleet_verdicts u ord input @ all_verdicts u ord input"
  have perm: "mset ?v = mset (fleet_verdicts u ord' input @ all_verdicts u ord' input)"
    using mset_fleet_verdicts [OF assms] mset_all_verdicts [OF assms(1,2)] by simp
  have "\<not> vd_FleetWide v" if "v \<in> set (all_verdicts u ord input)" for v
    using verdict_mem [OF assms(1) that] by (simp add: verdict_ok_def)
  moreover have "vd_FleetWide v" if "v \<in> set (fleet_verdicts u ord input)" for v
    using fleet_verdict_cases [OF assms(1) that] correlated_fields(2) by metis
  ultimately have "inj_on verdict_key (set ?v)"
    using fleet_key_inj [OF assms(1), of u input] verdict_key_inj [OF assms(1,3), of u]
    unfolding set_append by (auto simp: inj_on_Un verdict_key_def)
  from sort_key_unique [OF perm this] show ?thesis
    by (simp add: Evaluate_unfold fleet_verdicts_def sortVerdicts_def)
qed

subsection \<open>Evidence behind every verdict\<close>

lemma absorb_status:
  "vd_Status (fold (absorb m) vs w) = StatusConfirmed \<longleftrightarrow> vd_Status w = StatusConfirmed \<and> (\<forall>v \<in> set vs. vd_Status v = StatusConfirmed)"
proof (induction vs arbitrary: w)
  case (Cons v vs)
  have "vd_Status (absorb m v w) = StatusConfirmed \<longleftrightarrow> vd_Status w = StatusConfirmed \<and> vd_Status v = StatusConfirmed"
    by (auto simp: absorb_def Let_def confidenceRank_def)
  with Cons show ?case by auto
qed simp

lemma absorb_missing:
  "set (vd_MissingLenses (fold (absorb m) vs w)) = set (vd_MissingLenses w) \<union> (\<Union>v \<in> set vs. set (vd_MissingLenses v))"
proof (induction vs arbitrary: w)
  case (Cons v vs)
  have "set (vd_MissingLenses (absorb m v w)) = set (vd_MissingLenses w) \<union> set (vd_MissingLenses v)"
    by (simp add: absorb_def Let_def unionLenses_def)
  with Cons show ?case by auto
qed simp

lemma absorb_citations:
  "set (vd_Citations (fold (absorb m) vs w)) = set (vd_Citations w) \<union> (\<Union>v \<in> set vs. set (vd_Citations v) \<union>
     {evidenceCitation (case map_of m (entityKey (vd_Ref v)) of None \<Rightarrow> zero_observation | Some (_, x) \<Rightarrow> x)})"
proof (induction vs arbitrary: w)
  case (Cons v vs)
  have "set (vd_Citations (absorb m v w)) = set (vd_Citations w) \<union> (set (vd_Citations v) \<union>
     {evidenceCitation (case map_of m (entityKey (vd_Ref v)) of None \<Rightarrow> zero_observation | Some (_, x) \<Rightarrow> x)})"
    by (auto simp: absorb_def Let_def)
  with Cons show ?case by auto
qed simp

definition evidenced :: "Investigation \<Rightarrow> Verdict \<Rightarrow> bool" where
  "evidenced input v \<longleftrightarrow> (vd_Status v = StatusConfirmed \<longleftrightarrow> vd_MissingLenses v = []) \<and> vd_Citations v \<noteq> [] \<and>
     (\<forall>c \<in> set (vd_Citations v). \<exists>x \<in> set (iv_Observations input). quotes x c) \<and>
     (\<exists>r \<in> set catalog. vd_Rule v = ru_id r \<and> (vd_Status v = StatusConfirmed \<longrightarrow>
        (\<forall>lens \<in> set (ru_required r @ ru_strengthener r).
           fresh_lens (iv_Coverage input) (entity_rows (iv_Observations input) (entityKey (vd_Ref v))) lens)))"

lemma rows_subset: "x \<in> set (entity_rows xs e) \<Longrightarrow> x \<in> set xs"
  by (simp add: entity_rows_def)

lemma entity_verdict_evidenced:
  assumes "order_ok ord" "v \<in> set (all_verdicts u ord input)"
  shows "evidenced input v"
  using verdict_mem [OF assms] rows_subset unfolding evidenced_def verdict_ok_def by blast

lemma quotes_evidence: "quotes x (evidenceCitation x)"
  by (simp add: quotes_def evidenceCitation_def)

lemma correlated_citations:
  "set (vd_Citations (correlated_of k m grp)) = (\<Union>v \<in> set grp. set (vd_Citations v) \<union>
      {evidenceCitation (case map_of m (entityKey (vd_Ref v)) of None \<Rightarrow> zero_observation | Some (_, x) \<Rightarrow> x)})"
  by (simp add: correlated_of_def Let_def sortCitations_def absorb_citations)

lemma correlated_evidenced:
  assumes "order_ok ord" "map_of (fleet_groups (group_observations (iv_Observations input)) (all_verdicts u ord input)) k = Some m"
    "2 \<le> length (uniqueClusters (group_of ord m))"
  shows "evidenced input (correlated_of k m (group_of ord m))"
proof -
  let ?G = "group_of ord m" and ?w = "correlated_of k m (group_of ord m)"
  have hd: "hd ?G \<in> set ?G" by (rule group_of_nonempty [OF assms(3)])
  have mem: "\<exists>x. v \<in> set (all_verdicts u ord input) \<and> map_of m (entityKey (vd_Ref v)) = Some (v, x) \<and> x \<in> set (iv_Observations input)"
    if "v \<in> set ?G" for v
    using group_mem [OF assms(1,2) that] rows_subset unfolding gm_get_rows by blast
  have ev: "evidenced input v" if "v \<in> set ?G" for v using mem [OF that] entity_verdict_evidenced [OF assms(1)] by blast
  have status: "vd_Status ?w = StatusConfirmed \<longleftrightarrow> (\<forall>v \<in> set ?G. vd_Status v = StatusConfirmed)"
    using hd by (auto simp: correlated_of_def Let_def absorb_status)
  have missing: "set (vd_MissingLenses ?w) = (\<Union>v \<in> set ?G. set (vd_MissingLenses v))"
    using hd by (auto simp: correlated_of_def Let_def absorb_missing)
  have cites: "set (vd_Citations ?w) = (\<Union>v \<in> set ?G. set (vd_Citations v) \<union>
      {evidenceCitation (case map_of m (entityKey (vd_Ref v)) of None \<Rightarrow> zero_observation | Some (_, x) \<Rightarrow> x)})"
    by (rule correlated_citations)
  have 1: "vd_Status ?w = StatusConfirmed \<longleftrightarrow> vd_MissingLenses ?w = []"
  proof -
    have "vd_Status v = StatusConfirmed \<longleftrightarrow> set (vd_MissingLenses v) = {}" if "v \<in> set ?G" for v
      using ev [OF that] unfolding evidenced_def by simp
    then show ?thesis unfolding status set_empty [symmetric] missing UNION_empty_conv by blast
  qed
  have 2: "\<exists>x \<in> set (iv_Observations input). quotes x c" if "c \<in> set (vd_Citations ?w)" for c
  proof -
    from that obtain v where v: "v \<in> set ?G" and c: "c \<in> set (vd_Citations v) \<or>
        c = evidenceCitation (case map_of m (entityKey (vd_Ref v)) of None \<Rightarrow> zero_observation | Some (_, x) \<Rightarrow> x)"
      unfolding cites by blast
    from mem [OF v] obtain x where "map_of m (entityKey (vd_Ref v)) = Some (v, x)" "x \<in> set (iv_Observations input)" by blast
    with c ev [OF v] quotes_evidence show ?thesis unfolding evidenced_def by auto
  qed
  have 3: "vd_Citations ?w \<noteq> []" unfolding set_empty [symmetric] cites using hd by blast
  obtain r where r: "r \<in> set catalog" "vd_Rule (hd ?G) = ru_id r" "vd_Status (hd ?G) = StatusConfirmed \<longrightarrow>
      (\<forall>lens \<in> set (ru_required r @ ru_strengthener r).
         fresh_lens (iv_Coverage input) (entity_rows (iv_Observations input) (entityKey (vd_Ref (hd ?G)))) lens)"
    using ev [OF hd] unfolding evidenced_def by blast
  have 4: "vd_Status ?w = StatusConfirmed \<longrightarrow> (\<forall>lens \<in> set (ru_required r @ ru_strengthener r).
         fresh_lens (iv_Coverage input) (entity_rows (iv_Observations input) (entityKey (vd_Ref (hd ?G)))) lens)"
    unfolding status using r(3) hd by blast
  show ?thesis
    unfolding evidenced_def correlated_fields(1,3)
    by (intro conjI ballI bexI [OF _ r(1)]) (fact 1 3 2 r(2) 4)+
qed

text \<open>
  C24: verdicts are honest about their evidence. Every verdict of an investigation cites at
  least one signal, and every citation quotes an observation of the input, its staleness included; the verdict
  is confirmed exactly when no lens is missing, and then every lens its rule requires or that
  strengthens it is declared available and fresh and has a fresh observation of the verdict's own entity. A
  fleet-wide verdict names at least two clusters and ends with one image digest, and for each of the clusters the result also
  has a verdict of the same rule on a single entity of that cluster, for which a fresh observation reports that digest; the fleet-wide verdict
  cites that observation and everything the single verdict cites.
\<close>
theorem verdicts_evidenced:
  assumes "order_ok ord" and "Evaluate u ord input = Inr res" and "v \<in> set (rs_Verdicts res)"
  shows "evidenced input v \<and>
    (vd_FleetWide v \<longrightarrow> 2 \<le> length (vd_Clusters v) \<and> distinct (vd_Clusters v) \<and>
       (\<exists>digest pre. vd_Hypothesis v = pre @ digest \<and> (\<forall>c \<in> set (vd_Clusters v). \<exists>w \<in> set (rs_Verdicts res).
          \<not> vd_FleetWide w \<and> vd_Rule w = vd_Rule v \<and> RefScope (vd_Ref w) = c \<and> set (vd_Citations w) \<subseteq> set (vd_Citations v) \<and>
          (\<exists>x \<in> set (iv_Observations input). entityKey (ob_Ref x) = entityKey (vd_Ref w) \<and> carries x digest \<and>
             evidenceCitation x \<in> set (vd_Citations v)))))"
proof -
  have "v \<in> set (fleet_verdicts u ord input) \<or> v \<in> set (all_verdicts u ord input)"
    using assms(2,3) by (auto simp: Evaluate_unfold rbind_eq_Inr sortVerdicts_def fleet_verdicts_def)
  then show ?thesis
  proof
    assume v: "v \<in> set (all_verdicts u ord input)"
    with entity_verdict_evidenced [OF assms(1) v] verdict_mem [OF assms(1) v] show ?thesis by (simp add: verdict_ok_def)
  next
    assume "v \<in> set (fleet_verdicts u ord input)"
    then obtain k m where g: "map_of (fleet_groups (group_observations (iv_Observations input)) (all_verdicts u ord input)) k = Some m"
      "v = correlated_of k m (group_of ord m)" "2 \<le> length (uniqueClusters (group_of ord m))"
      by (rule fleet_verdict_cases [OF assms(1)])
    let ?G = "group_of ord m"
    have "?G \<noteq> []" using g(3) by (auto simp: uniqueClusters_def)
    then have rule: "vd_Rule v = fst k" using group_mem [OF assms(1) g(1), of "hd ?G"] by (auto simp: g(2) correlated_fields)
    have "\<exists>w \<in> set (rs_Verdicts res). \<not> vd_FleetWide w \<and> vd_Rule w = vd_Rule v \<and> RefScope (vd_Ref w) = c \<and>
        set (vd_Citations w) \<subseteq> set (vd_Citations v) \<and>
        (\<exists>x \<in> set (iv_Observations input). entityKey (ob_Ref x) = entityKey (vd_Ref w) \<and> carries x (snd k) \<and>
           evidenceCitation x \<in> set (vd_Citations v))"
      if c: "c \<in> set (vd_Clusters v)" for c
    proof -
      obtain w where w: "w \<in> set (group_of ord m)" "RefScope (vd_Ref w) = c"
        using c by (auto simp: g(2) correlated_fields uniqueClusters_def)
      from group_mem [OF assms(1) g(1) w(1)] obtain x where x: "w \<in> set (all_verdicts u ord input)" "vd_Rule w = fst k"
        "map_of m (entityKey (vd_Ref w)) = Some (w, x)"
        "x \<in> set (entity_rows (iv_Observations input) (entityKey (vd_Ref w)))" "carries x (snd k)"
        unfolding gm_get_rows by blast
      have "w \<in> set (rs_Verdicts res)" using x(1) assms(2) by (auto simp: Evaluate_unfold rbind_eq_Inr sortVerdicts_def)
      moreover have "\<not> vd_FleetWide w" using verdict_mem [OF assms(1) x(1)] by (simp add: verdict_ok_def)
      moreover have "set (vd_Citations w) \<subseteq> set (vd_Citations v)" "evidenceCitation x \<in> set (vd_Citations v)"
        using w(1) x(3) unfolding g(2) correlated_citations by force+
      moreover have "x \<in> set (iv_Observations input)" "entityKey (ob_Ref x) = entityKey (vd_Ref w)" using x(4) by (simp_all add: entity_rows_def)
      moreover have "vd_Rule w = vd_Rule v" using x(2) rule by simp
      ultimately show ?thesis using x(5) w(2) by blast
    qed
    moreover have "vd_Clusters v = uniqueClusters (group_of ord m)" by (simp add: g(2) correlated_fields)
    moreover have "distinct (vd_Clusters v)" by (simp add: g(2) correlated_fields uniqueClusters_def)
    moreover have "evidenced input v" unfolding g(2) by (rule correlated_evidenced [OF assms(1) g(1,3)])
    moreover obtain pre where "vd_Hypothesis v = pre @ snd k" using correlated_fields(5) [of k m ?G] by (auto simp: g(2))
    ultimately show ?thesis using g(3) by (intro conjI impI exI [of _ "snd k"] exI [of _ pre]) simp_all
  qed
qed

subsection \<open>Witnesses\<close>

definition sample_observation :: "string \<Rightarrow> string \<Rightarrow> string \<Rightarrow> Observation" where
  "sample_observation cluster key value =
     \<lparr>ob_Ref = \<lparr>SourceKind = ''kubeconfig'', RefScope = cluster, RefKind = ''Pod'', RefNamespace = ''apps'', RefName = ''api'', Attributes = []\<rparr>,
      ob_Lens = LensLive, ob_Key = key, ob_Value = value, ob_ObservedAt = 5000, ob_Source = cluster, ob_Stale = False\<rparr>"

definition sample_investigation :: Investigation where
  "sample_investigation =
     \<lparr>iv_Workspace = ''local'',
      iv_Observations = [sample_observation ''east'' ''pod.reason'' ''OOMKilled'', sample_observation ''west'' ''pod.reason'' ''OOMKilled'',
        sample_observation ''east'' OTelContainerImageRepoDigests sample_repo_digest,
        sample_observation ''west'' OTelContainerImageRepoDigests sample_repo_digest],
      iv_Coverage = [(LensLive, \<lparr>lc_Available = True, lc_Stale = False, lc_Reason = []\<rparr>)]\<rparr>"

definition listed_order :: map_order where
  "listed_order = \<lparr>mo_entities = (\<lambda>xs. xs), mo_groups = (\<lambda>xs. xs), mo_members = (\<lambda>xs. xs)\<rparr>"

definition reversed_order :: map_order where
  "reversed_order = \<lparr>mo_entities = rev, mo_groups = rev, mo_members = rev\<rparr>"

lemma sample_orders: "order_ok listed_order" "order_ok reversed_order"
  by (simp_all add: order_ok_def listed_order_def reversed_order_def)

lemma sample_fleet_wide:
  "case Evaluate ascii_case listed_order sample_investigation of Inl _ \<Rightarrow> False | Inr res \<Rightarrow> list_ex vd_FleetWide (rs_Verdicts res)"
  by code_simp

lemma sample_slash_free: "\<forall>x \<in> set (iv_Observations sample_investigation). slash_free (ob_Ref x)"
  by (simp add: sample_investigation_def sample_observation_def slash_free_def)

theorem Evaluate_deterministic_witness:
  "is_ok (Evaluate ascii_case listed_order sample_investigation) \<and>
   Evaluate ascii_case listed_order sample_investigation = Evaluate ascii_case reversed_order sample_investigation"
proof
  show "is_ok (Evaluate ascii_case listed_order sample_investigation)"
    using sample_fleet_wide unfolding case_ok_iff is_ok_iff by blast
qed (rule Evaluate_deterministic [OF sample_orders sample_slash_free])

theorem verdicts_evidenced_witness:
  "\<exists>res v. Evaluate ascii_case listed_order sample_investigation = Inr res \<and> v \<in> set (rs_Verdicts res) \<and> vd_FleetWide v \<and>
     2 \<le> length (vd_Clusters v) \<and> vd_Citations v \<noteq> []"
proof -
  obtain res where res: "Evaluate ascii_case listed_order sample_investigation = Inr res" "list_ex vd_FleetWide (rs_Verdicts res)"
    using sample_fleet_wide by (cases "Evaluate ascii_case listed_order sample_investigation") simp_all
  then obtain v where v: "v \<in> set (rs_Verdicts res)" "vd_FleetWide v" by (auto simp: list_ex_iff)
  from verdicts_evidenced [OF sample_orders(1) res(1) v(1)] v res(1) show ?thesis by (auto simp: evidenced_def)
qed

end
