(* ===== verification/Brain_Advisory.thy ===== *)
theory Brain_Advisory
  imports Brain_Evaluate
begin

text \<open>
  Advisory commands and the shell. The reference definition \<open>sh_words\<close> reads a command line the way a POSIX
  shell splits it into words, for the quoting the renderer uses: single quotes, the backslash and
  spaces. A character that a shell would interpret outside quotes makes the line refused.
\<close>

subsection \<open>The shell's reading of a command line\<close>

definition sh_plain :: "char \<Rightarrow> bool" where
  "sh_plain c \<longleftrightarrow> (let b = byte_of c in (97 \<le> b \<and> b \<le> 122) \<or> (65 \<le> b \<and> b \<le> 90) \<or> (48 \<le> b \<and> b \<le> 57) \<or> b = 45 \<or> b = 46 \<or> b = 47 \<or> b = 95)"

definition cur_word :: "string option \<Rightarrow> string" where
  "cur_word cur = (case cur of None \<Rightarrow> [] | Some w \<Rightarrow> w)"

fun sh_scan :: "bool \<Rightarrow> string option \<Rightarrow> string \<Rightarrow> string list option" where
  "sh_scan quoted cur [] = (if quoted then None else Some (case cur of None \<Rightarrow> [] | Some w \<Rightarrow> [w]))"
| "sh_scan True cur (c # cs) =
     (if c = CHR 0x27 then sh_scan False cur cs else sh_scan True (Some (cur_word cur @ [c])) cs)"
| "sh_scan False cur (c # cs) =
     (if c = CHR 0x27 then sh_scan True (Some (cur_word cur)) cs
      else if c = CHR 0x5C then (case cs of [] \<Rightarrow> None | d # ds \<Rightarrow> sh_scan False (Some (cur_word cur @ [d])) ds)
      else if c = CHR '' '' then
        (case cur of None \<Rightarrow> sh_scan False None cs | Some w \<Rightarrow> map_option (\<lambda>ws. w # ws) (sh_scan False None cs))
      else if sh_plain c then sh_scan False (Some (cur_word cur @ [c])) cs
      else None)"

definition sh_words :: "string \<Rightarrow> string list option" where
  "sh_words line = sh_scan False None line"

lemma sh_quoted:
  "sh_scan True (Some w) (concat (map (\<lambda>c. if c = CHR 0x27 then [CHR 0x27, CHR 0x5C, CHR 0x27, CHR 0x27] else [c]) v) @ CHR 0x27 # rest) =
     sh_scan False (Some (w @ v)) rest"
  by (induction v arbitrary: w) (simp_all add: cur_word_def)

lemma sh_shellQuote: "sh_scan False cur (shellQuote v @ rest) = sh_scan False (Some (cur_word cur @ v)) rest"
  by (simp add: shellQuote_def sh_quoted)

lemma sh_shellQuote_end: "sh_scan False cur (shellQuote v) = Some [cur_word cur @ v]"
  using sh_shellQuote [of cur v "[]"] by simp

lemma sh_plain_word: "list_all sh_plain v \<Longrightarrow> v \<noteq> [] \<Longrightarrow> sh_scan False cur (v @ rest) = sh_scan False (Some (cur_word cur @ v)) rest"
proof (induction v arbitrary: cur)
  case (Cons c v)
  have c: "c \<noteq> CHR 0x27" "c \<noteq> CHR 0x5C" "c \<noteq> CHR '' ''" "sh_plain c"
    using Cons.prems(1) by (auto simp: sh_plain_def byte_of_def)
  then have "sh_scan False cur ((c # v) @ rest) = sh_scan False (Some (cur_word cur @ [c])) (v @ rest)" by simp
  with Cons show ?case by (cases v) (simp_all add: cur_word_def)
qed simp

subsection \<open>Rendered commands\<close>

lemmas render_simps = renderAdvisory_def advise_def advisory_pairs_def has_prefix_def

lemma render_bad_deploy:
  "ad_Command (renderAdvisory u (ru_advisory bad_deploy_rule) ref) = ''kubectl --context '' @ shellQuote (RefScope ref) @
     '' rollout undo '' @ to_lower u (RefKind ref) @ ''/'' @ shellQuote (RefName ref) @ '' -n '' @ shellQuote (RefNamespace ref)"
  by (simp add: bad_deploy_rule_def render_simps)

lemma render_crash_loop:
  "ad_Command (renderAdvisory u (ru_advisory crash_loop_rule) ref) = ''kubectl --context '' @ shellQuote (RefScope ref) @
     '' logs '' @ shellQuote (RefName ref) @ '' -n '' @ shellQuote (RefNamespace ref) @ '' --previous''"
  by (simp add: crash_loop_rule_def render_simps)

lemma render_image_pull:
  "ad_Command (renderAdvisory u (ru_advisory image_pull_rule) ref) = ''kubectl --context '' @ shellQuote (RefScope ref) @
     '' describe pod '' @ shellQuote (RefName ref) @ '' -n '' @ shellQuote (RefNamespace ref)"
  by (simp add: image_pull_rule_def render_simps)

lemma render_argo_sync:
  "ad_Command (renderAdvisory u (ru_advisory argo_sync_rule) ref) = ''kubectl --context '' @ shellQuote (RefScope ref) @
     '' describe application.argoproj.io '' @ shellQuote (RefName ref) @ '' -n '' @ shellQuote (RefNamespace ref)"
  by (simp add: argo_sync_rule_def render_simps)

lemma catalog_commands:
  "\<forall>r \<in> set catalog. has_prefix (ad_Command (ru_advisory r)) ''kubectl'' \<longrightarrow> r \<in> {bad_deploy_rule, crash_loop_rule, image_pull_rule, argo_sync_rule}"
proof -
  have "\<not> has_prefix (ad_Command (ru_advisory r)) ''kubectl''"
    if "r \<in> {oom_rule, config_drift_rule, cert_expiry_rule, node_pressure_rule, workflow_fail_rule}" for r
    using that by (auto simp: oom_rule_def config_drift_rule_def cert_expiry_rule_def node_pressure_rule_def workflow_fail_rule_def advise_def
        has_prefix_def)
  then show ?thesis by (simp add: catalog_def)
qed

lemmas sh_simps = sh_words_def sh_shellQuote sh_shellQuote_end sh_plain_def byte_of_def cur_word_def

text \<open>
  C25: the kubectl commands an investigation prints are safe to paste. Whatever bytes the context, namespace
  and name of the resource hold, quotes, semicolons and line feeds included, a shell splits the
  rendered command into exactly the intended words, each value in one word of its own. Only the command for a bad
  deploy inserts the kind, and without quotes; for that command, and for no other, the lower-cased kind must be plain
  text and not empty. No other rule of the catalogue has a kubectl command.
\<close>
theorem advisory_commands_quoted:
  "(list_all sh_plain (to_lower u (RefKind ref)) \<and> to_lower u (RefKind ref) \<noteq> [] \<longrightarrow>
      sh_words (ad_Command (renderAdvisory u (ru_advisory bad_deploy_rule) ref)) =
        Some [''kubectl'', ''--context'', RefScope ref, ''rollout'', ''undo'', to_lower u (RefKind ref) @ ''/'' @ RefName ref, ''-n'', RefNamespace ref]) \<and>
    sh_words (ad_Command (renderAdvisory u (ru_advisory crash_loop_rule) ref)) =
      Some [''kubectl'', ''--context'', RefScope ref, ''logs'', RefName ref, ''-n'', RefNamespace ref, ''--previous''] \<and>
    sh_words (ad_Command (renderAdvisory u (ru_advisory image_pull_rule) ref)) =
      Some [''kubectl'', ''--context'', RefScope ref, ''describe'', ''pod'', RefName ref, ''-n'', RefNamespace ref] \<and>
    sh_words (ad_Command (renderAdvisory u (ru_advisory argo_sync_rule) ref)) =
      Some [''kubectl'', ''--context'', RefScope ref, ''describe'', ''application.argoproj.io'', RefName ref, ''-n'', RefNamespace ref] \<and>
    (\<forall>r \<in> set catalog. has_prefix (ad_Command (ru_advisory r)) ''kubectl'' \<longrightarrow> r \<in> {bad_deploy_rule, crash_loop_rule, image_pull_rule, argo_sync_rule})"
proof (intro conjI impI)
  assume "list_all sh_plain (to_lower u (RefKind ref)) \<and> to_lower u (RefKind ref) \<noteq> []"
  then have kind: "sh_scan False cur (to_lower u (RefKind ref) @ rest) = sh_scan False (Some (cur_word cur @ to_lower u (RefKind ref))) rest"
    for cur rest by (simp add: sh_plain_word)
  show "sh_words (ad_Command (renderAdvisory u (ru_advisory bad_deploy_rule) ref)) =
      Some [''kubectl'', ''--context'', RefScope ref, ''rollout'', ''undo'', to_lower u (RefKind ref) @ ''/'' @ RefName ref, ''-n'', RefNamespace ref]"
    unfolding render_bad_deploy by (simp add: sh_simps kind [unfolded cur_word_def])
qed (rule catalog_commands | simp add: sh_simps render_crash_loop render_image_pull render_argo_sync)+

definition hostile_ref :: ResourceRef where
  "hostile_ref = \<lparr>SourceKind = ''kubeconfig'', RefScope = ''dev'' @ [CHR 0x27] @ ''; printf injected #'', RefKind = ''Deployment'',
     RefNamespace = ''payments $(id)'', RefName = ''api'' @ [CHR 0x27, CHR 0x0A] @ ''&'', Attributes = []\<rparr>"

theorem advisory_commands_quoted_witness:
  "sh_words (ad_Command (renderAdvisory ascii_case (ru_advisory bad_deploy_rule) hostile_ref)) =
     Some [''kubectl'', ''--context'', RefScope hostile_ref, ''rollout'', ''undo'', ''deployment/'' @ RefName hostile_ref, ''-n'',
       RefNamespace hostile_ref] \<and>
   sh_words (ad_Command (renderAdvisory ascii_case (ru_advisory crash_loop_rule) (hostile_ref\<lparr>RefKind := ''x; id ''\<rparr>))) =
     Some [''kubectl'', ''--context'', RefScope hostile_ref, ''logs'', RefName hostile_ref, ''-n'', RefNamespace hostile_ref, ''--previous'']"
proof -
  have kind: "to_lower ascii_case (RefKind hostile_ref) = ''deployment''" by code_simp
  have "list_all sh_plain ''deployment''" by code_simp
  with advisory_commands_quoted [of ascii_case hostile_ref, unfolded kind]
    advisory_commands_quoted [of ascii_case "hostile_ref\<lparr>RefKind := ''x; id ''\<rparr>"] show ?thesis by simp
qed

text \<open>A kind that is not plain text is not quoted: the shell would interpret it.\<close>

lemma advisory_kind_unquoted:
  "sh_words (ad_Command (renderAdvisory ascii_case (ru_advisory bad_deploy_rule) (hostile_ref\<lparr>RefKind := ''x; id ''\<rparr>))) = None"
  by code_simp

end
