(* ===== verification/Go_JSON.thy ===== *)
theory Go_JSON
  imports Go_Text
begin

text \<open>
  \<open>encoding/json\<close> as the code uses it. A \<open>json.Decoder\<close> is read as the tokens it yields; the trees they
  spell out are \<open>json\<close>. Two packages walk the tokens of a document to reject repeated member names and deep nesting
  (\<open>intentargs\<close> and \<open>brain\<close>): the walk is written once, with the nesting limit and the check of a
  leaf as arguments, and shown to accept exactly the tokens of the admissible trees.
\<close>

subsection \<open>Tokens and trees\<close>

datatype jtoken = JDelim char | JString string | JScalar string

abbreviation "obj_open \<equiv> JDelim CHR ''{''"
abbreviation "obj_close \<equiv> JDelim CHR ''}''"
abbreviation "arr_open \<equiv> JDelim CHR ''[''"
abbreviation "arr_close \<equiv> JDelim CHR '']''"

text \<open>\<open>decoder.More\<close>: another element follows in the current array or object.\<close>

definition decoder_More :: "jtoken list \<Rightarrow> bool" where
  "decoder_More ts = (case ts of [] \<Rightarrow> False | t # _ \<Rightarrow> t \<noteq> obj_close \<and> t \<noteq> arr_close)"

lemma more_nonempty: "decoder_More ts \<Longrightarrow> ts \<noteq> []"
  by (auto simp: decoder_More_def)

datatype json = JObj "(string \<times> json) list" | JArr "json list" | JLeaf jtoken

text \<open>Leaves are strings and scalars; the tokens of a document in order.\<close>

fun leaf_ok :: "jtoken \<Rightarrow> bool" where
  "leaf_ok (JDelim c) = False"
| "leaf_ok (JString s) = True"
| "leaf_ok (JScalar s) = True"

fun json_wf :: "json \<Rightarrow> bool" where
  "json_wf (JObj ms) = list_all (\<lambda>(k, v). json_wf v) ms"
| "json_wf (JArr vs) = list_all json_wf vs"
| "json_wf (JLeaf t) = leaf_ok t"

fun json_tokens :: "json \<Rightarrow> jtoken list" where
  "json_tokens (JObj ms) = obj_open # concat (map (\<lambda>(k, v). JString k # json_tokens v) ms) @ [obj_close]"
| "json_tokens (JArr vs) = arr_open # concat (map json_tokens vs) @ [arr_close]"
| "json_tokens (JLeaf t) = [t]"

lemma more_simps [simp]: "decoder_More [] = False" "decoder_More (JString k # ts)" "decoder_More (JScalar k # ts)" "\<not> decoder_More (obj_close # ts)" "\<not> decoder_More (arr_close # ts)"
  by (simp_all add: decoder_More_def)

lemma more_tokens: "json_wf v \<Longrightarrow> decoder_More (json_tokens v @ ts)"
proof (cases v)
  case (JLeaf t)
  assume "json_wf v"
  then show ?thesis using JLeaf by (cases t) simp_all
qed (simp_all add: decoder_More_def)

text \<open>A decoded document; \<open>VNumber\<close> is a \<open>json.Number\<close>, \<open>VInt\<close> an \<open>int64\<close>.\<close>

datatype gvalue =
    VNumber string
  | VInt int
  | VString string
  | VBool bool
  | VNull
  | VArr "gvalue list"
  | VObj "(string \<times> gvalue) list"

text \<open>
  \<open>json.Unmarshal\<close> of a value into a Go type, when the value is not null unless the type takes it; null elements of a string slice become empty
  strings.
\<close>

fun unmarshal_bool :: "gvalue \<Rightarrow> bool option" where
  "unmarshal_bool (VBool b) = Some b"
| "unmarshal_bool v = None"

fun unmarshal_int64 :: "gvalue \<Rightarrow> int option" where
  "unmarshal_int64 (VNumber s) = parse_int64 s"
| "unmarshal_int64 v = None"

fun unmarshal_string :: "gvalue \<Rightarrow> string option" where
  "unmarshal_string (VString s) = Some s"
| "unmarshal_string v = None"

fun unmarshal_object :: "gvalue \<Rightarrow> (string, gvalue) gomap option" where
  "unmarshal_object (VObj ms) = Some ms"
| "unmarshal_object v = None"

fun unmarshal_element :: "gvalue \<Rightarrow> string option" where
  "unmarshal_element (VString s) = Some s"
| "unmarshal_element VNull = Some []"
| "unmarshal_element v = None"

fun unmarshal_strings :: "gvalue \<Rightarrow> string list option" where
  "unmarshal_strings (VArr vs) = those (map unmarshal_element vs)"
| "unmarshal_strings VNull = Some []"
| "unmarshal_strings v = None"

definition ok_option :: "('e, 'a) result \<Rightarrow> 'a option" where
  "ok_option r = (case r of Inl e \<Rightarrow> None | Inr x \<Rightarrow> Some x)"

subsection \<open>The guarded walk\<close>

datatype 'e walk_error =
    Unreadable
  | BadMember
  | RepeatedMember string
  | TooDeep
  | BadDelimiter
  | BadClosing
  | LeafRefused 'e

definition walk_close :: "jtoken \<Rightarrow> jtoken list \<Rightarrow> ('e walk_error, jtoken list) result" where
  "walk_close closing ts =
     (case ts of [] \<Rightarrow> Inl Unreadable | t # rest \<Rightarrow> if t = closing then Inr rest else Inl BadClosing)"

text \<open>
  Members and elements of a container are read at the container's depth; a delimiter at a depth that
  reaches the limit is refused before it is looked at.
\<close>

function (sequential, domintros) walk_object ::
    "nat \<Rightarrow> (jtoken \<Rightarrow> ('e, unit) result) \<Rightarrow> nat \<Rightarrow> string list \<Rightarrow> jtoken list \<Rightarrow> ('e walk_error, jtoken list) result"
  and walk_array :: "nat \<Rightarrow> (jtoken \<Rightarrow> ('e, unit) result) \<Rightarrow> nat \<Rightarrow> jtoken list \<Rightarrow> ('e walk_error, jtoken list) result"
  and walk_value :: "nat \<Rightarrow> (jtoken \<Rightarrow> ('e, unit) result) \<Rightarrow> nat \<Rightarrow> jtoken list \<Rightarrow> ('e walk_error, jtoken list) result" where
  "walk_object limit leaf depth seen ts =
     (if \<not> decoder_More ts then walk_close obj_close ts
      else case hd ts of
        JString name \<Rightarrow>
          if List.member seen name then Inl (RepeatedMember name)
          else case walk_value limit leaf depth (tl ts) of
            Inl e \<Rightarrow> Inl e
          | Inr rest \<Rightarrow> walk_object limit leaf depth (name # seen) rest
      | _ \<Rightarrow> Inl BadMember)"
| "walk_array limit leaf depth ts =
     (if \<not> decoder_More ts then walk_close arr_close ts
      else case walk_value limit leaf depth ts of
        Inl e \<Rightarrow> Inl e
      | Inr rest \<Rightarrow> walk_array limit leaf depth rest)"
| "walk_value limit leaf depth ts =
     (case ts of
        [] \<Rightarrow> Inl Unreadable
      | JDelim c # rest \<Rightarrow>
          if limit \<le> depth then Inl TooDeep
          else if c = CHR ''{'' then walk_object limit leaf (Suc depth) [] rest
          else if c = CHR ''['' then walk_array limit leaf (Suc depth) rest
          else Inl BadDelimiter
      | t # rest \<Rightarrow> (case leaf t of Inl e \<Rightarrow> Inl (LeafRefused e) | Inr _ \<Rightarrow> Inr rest))"
  by pat_completeness auto

lemma walk_close_eq: "walk_close c ts = Inr rest \<longleftrightarrow> ts = c # rest"
  by (auto simp: walk_close_def split: list.splits if_splits)

text \<open>What a walk that succeeds has read, in terms of the walks it made.\<close>

lemma walk_object_dest:
  assumes "walk_object limit leaf depth seen ts = Inr rest"
    and "walk_object limit leaf depth seen ts =
      (if \<not> decoder_More ts then walk_close obj_close ts
       else case hd ts of
         JString name \<Rightarrow>
           if List.member seen name then Inl (RepeatedMember name)
           else case walk_value limit leaf depth (tl ts) of
             Inl e \<Rightarrow> Inl e
           | Inr rest \<Rightarrow> walk_object limit leaf depth (name # seen) rest
       | _ \<Rightarrow> Inl BadMember)"
  obtains (closed) "ts = obj_close # rest"
  | (member) name body mid where "ts = JString name # body" "\<not> List.member seen name"
      "walk_value limit leaf depth body = Inr mid" "walk_object limit leaf depth (name # seen) mid = Inr rest"
proof (cases "decoder_More ts")
  case False
  with assms that(1) show ?thesis by (simp add: walk_close_eq)
next
  case True
  then obtain t body where ts: "ts = t # body" using more_nonempty by (cases ts) auto
  with True assms that(2) show ?thesis by (auto split: jtoken.splits if_splits sum.splits)
qed

lemma guarded_walk_consumes:
  "walk_object_walk_array_walk_value_dom (Inl (limit, leaf, depth, seen, ts)) \<Longrightarrow>
     walk_object limit leaf depth seen ts = Inr rest \<Longrightarrow> length rest < length ts"
  "walk_object_walk_array_walk_value_dom (Inr (Inl (limit, leaf, depth, ts))) \<Longrightarrow>
     walk_array limit leaf depth ts = Inr rest \<Longrightarrow> length rest < length ts"
  "walk_object_walk_array_walk_value_dom (Inr (Inr (limit, leaf, depth, ts))) \<Longrightarrow>
     walk_value limit leaf depth ts = Inr rest \<Longrightarrow> length rest < length ts"
proof (induction limit leaf depth seen ts and limit leaf depth ts and limit leaf depth ts
    arbitrary: rest and rest and rest rule: walk_object_walk_array_walk_value.pinduct)
  case (1 limit leaf depth seen ts)
  from 1(4) walk_object.psimps [OF 1(1)] show ?case
  proof (cases rule: walk_object_dest)
    case (member name body mid)
    then have more: "\<not> \<not> decoder_More ts" and hd: "hd ts = JString name" and tl: "tl ts = body" by simp_all
    have "length mid < length body"
      using 1(2) [OF more hd member(2)] member(3) by (simp add: tl)
    moreover have "length rest < length mid"
      using 1(3) [OF more hd member(2)] member(3,4) by (simp add: tl)
    ultimately show ?thesis by (simp add: member(1))
  qed simp
next
  case (2 limit leaf depth ts)
  show ?case
  proof (cases "decoder_More ts")
    case False
    with 2(1,4) show ?thesis by (simp add: walk_array.psimps walk_close_eq)
  next
    case True
    with 2(1,4) obtain mid where m: "walk_value limit leaf depth ts = Inr mid" "walk_array limit leaf depth mid = Inr rest"
      by (auto simp: walk_array.psimps split: sum.splits)
    with 2(2) [OF _ m(1)] 2(3) [OF _ m] True show ?thesis by fastforce
  qed
next
  case (3 limit leaf depth ts)
  then show ?case
    by (fastforce simp: walk_value.psimps split: list.splits jtoken.splits if_splits sum.splits)
qed

termination walk_object
  by (relation "measure (\<lambda>x. case x of Inl (limit, leaf, depth, seen, ts) \<Rightarrow> 2 * length ts
      | Inr (Inl (limit, leaf, depth, ts)) \<Rightarrow> 2 * length ts + 1 | Inr (Inr (limit, leaf, depth, ts)) \<Rightarrow> 2 * length ts)")
    (auto dest!: guarded_walk_consumes(3) more_nonempty simp: neq_Nil_conv split: list.splits)

declare walk_object.simps [simp del] walk_array.simps [simp del] walk_value.simps [simp del]

subsection \<open>The trees the walk accepts\<close>

text \<open>Distinct member names in every object, containers nested below the limit, every leaf acceptable.\<close>

fun json_ok :: "nat \<Rightarrow> (jtoken \<Rightarrow> ('e, unit) result) \<Rightarrow> nat \<Rightarrow> json \<Rightarrow> bool" where
  "json_ok limit leaf depth (JObj ms) =
     (depth < limit \<and> distinct (map fst ms) \<and> list_all (\<lambda>(k, v). json_ok limit leaf (Suc depth) v) ms)"
| "json_ok limit leaf depth (JArr vs) = (depth < limit \<and> list_all (json_ok limit leaf (Suc depth)) vs)"
| "json_ok limit leaf depth (JLeaf t) = is_ok (leaf t)"

abbreviation member_tokens :: "(string \<times> json) list \<Rightarrow> jtoken list" where
  "member_tokens ms \<equiv> concat (map (\<lambda>(k, v). JString k # json_tokens v) ms)"

text \<open>What is accepted is the text of an admissible tree.\<close>

lemma walk_sound:
  fixes leaf :: "jtoken \<Rightarrow> ('e, unit) result"
  shows "walk_object limit leaf depth seen ts = Inr rest \<Longrightarrow>
     \<exists>ms. ts = member_tokens ms @ obj_close # rest \<and> set seen \<inter> fst ` set ms = {} \<and> distinct (map fst ms) \<and>
       (\<forall>(k, v) \<in> set ms. json_wf v \<and> json_ok limit leaf depth v)"
    and "walk_array limit leaf depth ts = Inr rest \<Longrightarrow>
     \<exists>vs. ts = concat (map json_tokens vs) @ arr_close # rest \<and> (\<forall>v \<in> set vs. json_wf v \<and> json_ok limit leaf depth v)"
    and "walk_value limit leaf depth ts = Inr rest \<Longrightarrow>
     \<exists>v. ts = json_tokens v @ rest \<and> json_wf v \<and> json_ok limit leaf depth v"
proof (induction limit leaf depth seen ts and limit leaf depth ts and limit leaf depth ts
    arbitrary: rest and rest and rest rule: walk_object_walk_array_walk_value.induct)
  case (1 limit leaf depth seen ts)
  from 1(3) walk_object.simps show ?case
  proof (cases rule: walk_object_dest)
    case closed
    show ?thesis by (rule exI [of _ "[]"]) (simp add: closed)
  next
    case (member name body mid)
    then have more: "\<not> \<not> decoder_More ts" and hd: "hd ts = JString name" and tl: "tl ts = body" by simp_all
    obtain v where v: "body = json_tokens v @ mid" "json_wf v" "json_ok limit leaf depth v"
      using 1(1) [OF more hd member(2)] member(3) unfolding tl by blast
    obtain ms where ms: "mid = member_tokens ms @ obj_close # rest" "set (name # seen) \<inter> fst ` set ms = {}" "distinct (map fst ms)"
      "\<forall>(k, v) \<in> set ms. json_wf v \<and> json_ok limit leaf depth v"
      using 1(2) [OF more hd member(2)] member(3,4) unfolding tl by blast
    show ?thesis
      by (rule exI [of _ "(name, v) # ms"]) (use member(1,2) v ms in auto)
  qed
next
  case (2 limit leaf depth ts)
  show ?case
  proof (cases "decoder_More ts")
    case False
    with 2(3) have "ts = arr_close # rest" by (simp add: walk_array.simps walk_close_eq)
    then show ?thesis by (intro exI [of _ "[]"]) simp
  next
    case True
    with 2(3) obtain mid where m: "walk_value limit leaf depth ts = Inr mid" "walk_array limit leaf depth mid = Inr rest"
      by (auto simp: walk_array.simps [of limit leaf depth ts] split: sum.splits)
    obtain v where v: "ts = json_tokens v @ mid" "json_wf v" "json_ok limit leaf depth v"
      using 2(1) [OF _ m(1)] True by auto
    obtain vs where vs: "mid = concat (map json_tokens vs) @ arr_close # rest" "\<forall>v \<in> set vs. json_wf v \<and> json_ok limit leaf depth v"
      using 2(2) [OF _ m] True by auto
    show ?thesis by (rule exI [of _ "v # vs"]) (use v vs in auto)
  qed
next
  case (3 limit leaf depth ts)
  then obtain t body where ts: "ts = t # body" by (cases ts) (simp_all add: walk_value.simps)
  show ?case
  proof (cases t)
    case (JDelim c)
    with 3(3) ts consider "depth < limit" "c = CHR ''{''" "walk_object limit leaf (Suc depth) [] body = Inr rest"
      | "depth < limit" "c = CHR ''[''" "walk_array limit leaf (Suc depth) body = Inr rest"
      by (auto simp: walk_value.simps split: if_splits)
    then show ?thesis
    proof cases
      case 1
      obtain ms where "body = member_tokens ms @ obj_close # rest" "distinct (map fst ms)"
        "\<forall>(k, v) \<in> set ms. json_wf v \<and> json_ok limit leaf (Suc depth) v"
        using 3(1) [OF ts JDelim _ 1(2) 1(3)] 1(1) by auto
      with 1 show ?thesis by (intro exI [of _ "JObj ms"]) (auto simp: ts JDelim list_all_iff)
    next
      case 2
      have "c \<noteq> CHR ''{''" using 2(2) by simp
      with 2 obtain vs where "body = concat (map json_tokens vs) @ arr_close # rest"
        "\<forall>v \<in> set vs. json_wf v \<and> json_ok limit leaf (Suc depth) v"
        using 3(2) [OF ts JDelim _ _ 2(2) 2(3)] by auto
      with 2 show ?thesis by (intro exI [of _ "JArr vs"]) (auto simp: ts JDelim list_all_iff)
    qed
  next
    case (JString s)
    with 3(3) ts show ?thesis
      by (intro exI [of _ "JLeaf t"]) (auto simp: walk_value.simps is_ok_iff split: sum.splits)
  next
    case (JScalar s)
    with 3(3) ts show ?thesis
      by (intro exI [of _ "JLeaf t"]) (auto simp: walk_value.simps is_ok_iff split: sum.splits)
  qed
qed

text \<open>The text of every admissible tree is accepted.\<close>

lemma walk_object_complete:
  assumes "\<forall>(k, v) \<in> set ms. \<forall>rest. walk_value limit leaf depth (json_tokens v @ rest) = Inr rest"
    and "distinct (map fst ms)" and "set seen \<inter> fst ` set ms = {}"
  shows "walk_object limit leaf depth seen (member_tokens ms @ obj_close # rest) = Inr rest"
  using assms
proof (induction ms arbitrary: seen)
  case Nil
  show ?case by (simp add: walk_object.simps walk_close_eq)
next
  case (Cons m ms)
  obtain k v where m: "m = (k, v)" by (cases m)
  have "walk_object limit leaf depth (k # seen) (member_tokens ms @ obj_close # rest) = Inr rest"
    by (rule Cons.IH) (use Cons.prems m in auto)
  with Cons.prems show ?case by (simp add: m walk_object.simps [of _ _ _ _ "JString k # _"])
qed

lemma walk_array_complete:
  assumes "\<forall>v \<in> set vs. json_wf v \<and> (\<forall>rest. walk_value limit leaf depth (json_tokens v @ rest) = Inr rest)"
  shows "walk_array limit leaf depth (concat (map json_tokens vs) @ arr_close # rest) = Inr rest"
  using assms
proof (induction vs)
  case Nil
  show ?case by (simp add: walk_array.simps walk_close_eq)
next
  case (Cons v vs)
  let ?tail = "concat (map json_tokens vs) @ arr_close # rest"
  have "decoder_More (json_tokens v @ ?tail)" using Cons.prems by (simp add: more_tokens)
  with Cons show ?case by (simp add: walk_array.simps [of _ _ _ "json_tokens v @ ?tail"])
qed

lemma walk_value_complete:
  "json_wf v \<Longrightarrow> json_ok limit leaf depth v \<Longrightarrow> walk_value limit leaf depth (json_tokens v @ rest) = Inr rest"
proof (induction v arbitrary: depth rest)
  case (JObj ms)
  then have "\<forall>(k, v) \<in> set ms. \<forall>rest. walk_value limit leaf (Suc depth) (json_tokens v @ rest) = Inr rest"
    by (fastforce simp: list_all_iff)
  from walk_object_complete [OF this, of "[]" rest] JObj.prems show ?case by (simp add: walk_value.simps)
next
  case (JArr vs)
  then have "\<forall>v \<in> set vs. json_wf v \<and> (\<forall>rest. walk_value limit leaf (Suc depth) (json_tokens v @ rest) = Inr rest)"
    by (auto simp: list_all_iff)
  from walk_array_complete [OF this, of rest] JArr.prems show ?case by (simp add: walk_value.simps)
next
  case (JLeaf t)
  then show ?case by (cases t) (auto simp: walk_value.simps is_ok_iff)
qed

theorem walk_value_iff:
  "walk_value limit leaf depth ts = Inr rest \<longleftrightarrow>
     (\<exists>v. ts = json_tokens v @ rest \<and> json_wf v \<and> json_ok limit leaf depth v)"
  using walk_sound(3) [of limit leaf depth ts rest] walk_value_complete by blast

theorem walk_object_iff:
  "walk_object limit leaf depth [] ts = Inr rest \<longleftrightarrow>
     (\<exists>ms. ts = member_tokens ms @ obj_close # rest \<and> distinct (map fst ms) \<and>
       (\<forall>(k, v) \<in> set ms. json_wf v \<and> json_ok limit leaf depth v))"
proof
  assume "walk_object limit leaf depth [] ts = Inr rest"
  then show "\<exists>ms. ts = member_tokens ms @ obj_close # rest \<and> distinct (map fst ms) \<and>
      (\<forall>(k, v) \<in> set ms. json_wf v \<and> json_ok limit leaf depth v)"
    using walk_sound(1) by fastforce
next
  assume "\<exists>ms. ts = member_tokens ms @ obj_close # rest \<and> distinct (map fst ms) \<and>
      (\<forall>(k, v) \<in> set ms. json_wf v \<and> json_ok limit leaf depth v)"
  then obtain ms where ms: "ts = member_tokens ms @ obj_close # rest" "distinct (map fst ms)"
    "\<forall>(k, v) \<in> set ms. json_wf v \<and> json_ok limit leaf depth v" by blast
  then have "\<forall>(k, v) \<in> set ms. \<forall>rest. walk_value limit leaf depth (json_tokens v @ rest) = Inr rest"
    using walk_value_complete by fastforce
  from walk_object_complete [OF this ms(2), of "[]" rest] show "walk_object limit leaf depth [] ts = Inr rest"
    by (simp add: ms(1))
qed

text \<open>Admissible trees by their three features: unique member names, bounded nesting, acceptable leaves.\<close>

fun json_unique :: "json \<Rightarrow> bool" where
  "json_unique (JObj ms) = (distinct (map fst ms) \<and> list_all (\<lambda>(k, v). json_unique v) ms)"
| "json_unique (JArr vs) = list_all json_unique vs"
| "json_unique (JLeaf t) = True"

fun json_depth :: "json \<Rightarrow> nat" where
  "json_depth (JObj ms) = Suc (Max (insert 0 ((\<lambda>(k, v). json_depth v) ` set ms)))"
| "json_depth (JArr vs) = Suc (Max (insert 0 (json_depth ` set vs)))"
| "json_depth (JLeaf t) = 0"

fun json_leaves :: "json \<Rightarrow> jtoken list" where
  "json_leaves (JObj ms) = concat (map (\<lambda>(k, v). json_leaves v) ms)"
| "json_leaves (JArr vs) = concat (map json_leaves vs)"
| "json_leaves (JLeaf t) = [t]"

lemma nested_bound:
  assumes "finite S"
  shows "depth + Suc (Max (insert 0 S)) \<le> limit \<longleftrightarrow> depth < limit \<and> (\<forall>n \<in> S. n = 0 \<or> Suc depth + n \<le> limit)"
proof -
  have "Max (insert 0 S) \<le> m \<longleftrightarrow> (\<forall>n \<in> S. n \<le> m)" for m :: nat using assms by simp
  from this [of "limit - Suc depth"] show ?thesis by (auto; fastforce)
qed

lemma json_ok_iff:
  "json_ok limit leaf depth v \<longleftrightarrow>
     json_unique v \<and> (json_depth v = 0 \<or> depth + json_depth v \<le> limit) \<and> (\<forall>t \<in> set (json_leaves v). is_ok (leaf t))"
proof (induction v arbitrary: depth)
  case (JObj ms)
  have "json_ok limit leaf (Suc depth) v \<longleftrightarrow> json_unique v \<and> (json_depth v = 0 \<or> Suc depth + json_depth v \<le> limit) \<and>
      (\<forall>t \<in> set (json_leaves v). is_ok (leaf t))" if "(k, v) \<in> set ms" for k v
    using JObj [of "(k, v)" v "Suc depth"] that by auto
  then have kids: "(\<forall>(k, v) \<in> set ms. json_ok limit leaf (Suc depth) v) \<longleftrightarrow>
      (\<forall>(k, v) \<in> set ms. json_unique v \<and> (json_depth v = 0 \<or> Suc depth + json_depth v \<le> limit) \<and>
        (\<forall>t \<in> set (json_leaves v). is_ok (leaf t)))"
    by blast
  with nested_bound [of "(\<lambda>(k, v). json_depth v) ` set ms" depth limit] show ?case by (auto simp: list_all_iff)
next
  case (JArr vs)
  with nested_bound [of "json_depth ` set vs" depth limit] show ?case by (auto simp: list_all_iff)
qed simp

end
