(* ===== verification/Hub_Snapshot.thy ===== *)
theory Hub_Snapshot
  imports Fleet_CVE Go_JSON
begin

text \<open>
  What a registered spoke may send (\<open>hubfleet/collector.go\<close>): the checks on spoke metadata, on a
  snapshot and on every fact of it. \<open>json.Decoder\<close> is read as the tokens it yields: the
  parameter \<open>tokens\<close> gives the tokens of a payload and whether the input ended after them (False: a syntax
  error follows). The walk over the tokens is the code's. \<open>unmarshal\<close> parameters decode the two payloads
  that are read as values.
\<close>

subsection \<open>Text and spokes\<close>

datatype snapshot_error =
    TextInvalid string
  | TooManyLabels
  | DuplicateSpoke string
  | SpokeAt nat snapshot_error
  | SnapshotTime
  | TooManyFacts
  | FactAt nat snapshot_error
  | DuplicateFact string
  | FactKindRefused
  | FactSource
  | SecretRefused
  | AttributesRefused
  | FactTime
  | FactProvenance
  | DisplayRefused
  | PayloadSize
  | PayloadSyntax
  | PayloadNotObject
  | PayloadTrailing
  | DuplicateKey string
  | SensitiveKey string
  | UnknownKey string
  | KeyNotString
  | UnexpectedDelimiter
  | ImageDigestsInvalid
  | CVEInvalid

definition validateText :: "string \<Rightarrow> string \<Rightarrow> nat \<Rightarrow> bool \<Rightarrow> (snapshot_error, unit) result" where
  "validateText name value maximum allowEmpty =
     (if value = [] \<and> allowEmpty then Inr ()
      else if value = [] \<or> trim_space value \<noteq> value \<or> length value > maximum then Inl (TextInvalid name)
      else if has_control value then Inl (TextInvalid name)
      else Inr ())"

record Spoke =
  sp_ID :: string
  sp_ManagedClusterRef :: string
  sp_Labels :: "(string, string) gomap"

fun validate_labels :: "(string, string) gomap \<Rightarrow> (snapshot_error, unit) result" where
  "validate_labels [] = Inr ()"
| "validate_labels ((key, value) # rest) =
     rbind (validateText ''spoke label key'' key 256 False) (\<lambda>_.
     rbind (validateText ''spoke label value'' value 256 True) (\<lambda>_. validate_labels rest))"

definition Spoke_Validate :: "Spoke \<Rightarrow> (snapshot_error, unit) result" where
  "Spoke_Validate spoke =
     rbind (validateText ''spoke ID'' (sp_ID spoke) 256 False) (\<lambda>_.
     rbind (validateText ''managed cluster reference'' (sp_ManagedClusterRef spoke) 1024 False) (\<lambda>_.
     if length (sp_Labels spoke) > 64 then Inl TooManyLabels else validate_labels (sp_Labels spoke)))"

fun validate_spokes_loop :: "nat \<Rightarrow> string list \<Rightarrow> Spoke list \<Rightarrow> (snapshot_error, unit) result" where
  "validate_spokes_loop i seen [] = Inr ()"
| "validate_spokes_loop i seen (s # ss) =
     (case Spoke_Validate s of
        Inl e \<Rightarrow> Inl (SpokeAt i e)
      | Inr _ \<Rightarrow>
          if List.member seen (sp_ID s) then Inl (DuplicateSpoke (sp_ID s))
          else validate_spokes_loop (Suc i) (sp_ID s # seen) ss)"

text \<open>\<open>validateSpokes\<close> also sorts the slice in place, by identifier.\<close>

definition validateSpokes :: "Spoke list \<Rightarrow> (snapshot_error, Spoke list) result" where
  "validateSpokes spokes = rbind (validate_spokes_loop 0 [] spokes) (\<lambda>_. Inr (sort_key sp_ID spokes))"

subsection \<open>Walking the tokens of a payload\<close>

definition isSensitiveKey :: "unicode_case \<Rightarrow> string \<Rightarrow> bool" where
  "isSensitiveKey u key =
     List.member [''token'', ''accesstoken'', ''idtoken'', ''authorization'', ''kubeconfig'', ''server'', ''endpoint'', ''password'',
       ''credential'', ''credentials'', ''secret'', ''data'', ''stringdata'', ''binarydata'', ''clientkeydata'', ''clientcertificatedata'']
       (replacer [(''_'', []), (''.'', []), (''-'', []), ('' '', [])] (to_lower u (trim_space key)))"

definition close_with :: "jtoken \<Rightarrow> jtoken list \<Rightarrow> (snapshot_error, jtoken list) result" where
  "close_with closing ts =
     (case ts of [] \<Rightarrow> Inl PayloadSyntax | t # rest \<Rightarrow> if t = closing then Inr rest else Inl PayloadSyntax)"

text \<open>
  The three mutually recursive walks; \<open>allowed\<close> is None where the code passes a nil set, \<open>seen\<close> holds the keys
  of the current object.
\<close>

function (sequential, domintros) validateJSONObject ::
    "unicode_case \<Rightarrow> string list option \<Rightarrow> string list \<Rightarrow> jtoken list \<Rightarrow> (snapshot_error, jtoken list) result"
  and validateJSONArray :: "unicode_case \<Rightarrow> jtoken list \<Rightarrow> (snapshot_error, jtoken list) result"
  and validateJSONValue :: "unicode_case \<Rightarrow> jtoken list \<Rightarrow> (snapshot_error, jtoken list) result" where
  "validateJSONObject u allowed seen ts =
     (if \<not> decoder_More ts then close_with obj_close ts
      else case hd ts of
        JString key \<Rightarrow>
          if List.member seen key then Inl (DuplicateKey key)
          else if isSensitiveKey u key then Inl (SensitiveKey key)
          else if allowed \<noteq> None \<and> \<not> List.member (the allowed) key then Inl (UnknownKey key)
          else case validateJSONValue u (tl ts) of
            Inl e \<Rightarrow> Inl e
          | Inr rest \<Rightarrow> validateJSONObject u allowed (key # seen) rest
      | _ \<Rightarrow> Inl KeyNotString)"
| "validateJSONArray u ts =
     (if \<not> decoder_More ts then close_with arr_close ts
      else case validateJSONValue u ts of
        Inl e \<Rightarrow> Inl e
      | Inr rest \<Rightarrow> validateJSONArray u rest)"
| "validateJSONValue u ts =
     (case ts of
        [] \<Rightarrow> Inl PayloadSyntax
      | JDelim c # rest \<Rightarrow>
          if c = CHR ''{'' then validateJSONObject u None [] rest
          else if c = CHR ''['' then validateJSONArray u rest
          else Inl UnexpectedDelimiter
      | _ # rest \<Rightarrow> Inr rest)"
  by pat_completeness auto

text \<open>Every walk that succeeds leaves fewer tokens than it was given.\<close>

lemma close_with_less: "close_with c ts = Inr rest \<Longrightarrow> length rest < length ts"
  by (auto simp: close_with_def split: list.splits if_splits)

lemma walk_consumes:
  "validateJSONObject_validateJSONArray_validateJSONValue_dom (Inl (u, allowed, seen, ts)) \<Longrightarrow>
     validateJSONObject u allowed seen ts = Inr rest \<Longrightarrow> length rest < length ts"
  "validateJSONObject_validateJSONArray_validateJSONValue_dom (Inr (Inl (u, ts))) \<Longrightarrow>
     validateJSONArray u ts = Inr rest \<Longrightarrow> length rest < length ts"
  "validateJSONObject_validateJSONArray_validateJSONValue_dom (Inr (Inr (u, ts))) \<Longrightarrow>
     validateJSONValue u ts = Inr rest \<Longrightarrow> length rest < length ts"
proof (induction u allowed seen ts and u ts and u ts arbitrary: rest and rest and rest
    rule: validateJSONObject_validateJSONArray_validateJSONValue.pinduct)
  case (1 u allowed seen ts)
  show ?case
  proof (cases "decoder_More ts")
    case False
    with 1(1,4) show ?thesis by (simp add: validateJSONObject.psimps close_with_less)
  next
    case True
    with 1(1,4) obtain key mid where k: "hd ts = JString key" "\<not> List.member seen key" "\<not> isSensitiveKey u key"
      "\<not> (allowed \<noteq> None \<and> \<not> List.member (the allowed) key)" "validateJSONValue u (tl ts) = Inr mid"
      "validateJSONObject u allowed (key # seen) mid = Inr rest"
      by (auto simp: validateJSONObject.psimps split: jtoken.splits if_splits sum.splits)
    have "length mid < length (tl ts)" by (rule 1(2)) (use True k in auto)
    moreover have "length rest < length mid" by (rule 1(3)) (use True k in auto)
    ultimately show ?thesis using more_nonempty [OF True] by (cases ts) simp_all
  qed
next
  case (2 u ts)
  show ?case
  proof (cases "decoder_More ts")
    case False
    with 2(1,4) show ?thesis by (simp add: validateJSONArray.psimps close_with_less)
  next
    case True
    with 2(1,4) obtain mid where m: "validateJSONValue u ts = Inr mid" "validateJSONArray u mid = Inr rest"
      by (auto simp: validateJSONArray.psimps split: sum.splits)
    with 2(2) [OF _ m(1)] 2(3) [OF _ m] True show ?thesis by fastforce
  qed
next
  case (3 u ts)
  then show ?case
    by (fastforce simp: validateJSONValue.psimps split: list.splits jtoken.splits if_splits)
qed

termination validateJSONObject
  by (relation "measure (\<lambda>x. case x of Inl (u, allowed, seen, ts) \<Rightarrow> 2 * length ts
      | Inr (Inl (u, ts)) \<Rightarrow> 2 * length ts + 1 | Inr (Inr (u, ts)) \<Rightarrow> 2 * length ts)")
    (auto dest!: walk_consumes(3) more_nonempty simp: neq_Nil_conv split: list.splits)

declare validateJSONObject.simps [simp del] validateJSONArray.simps [simp del] validateJSONValue.simps [simp del]

subsection \<open>Facts\<close>

definition maxSnapshotFacts :: nat where "maxSnapshotFacts = 1100"
definition maxObservedBytes :: nat where "maxObservedBytes = 256 * 1024"
definition maxFutureSkew :: int where "maxFutureSkew = 30 * 1000000000"
definition defaultSnapshotAge :: int where "defaultSnapshotAge = 300 * 1000000000"
definition maxSnapshotAge :: int where "maxSnapshotAge = 3600 * 1000000000"

abbreviation OCMSourceKind :: string where "OCMSourceKind \<equiv> ''ocm-spoke''"
abbreviation snapshotProtocolVersion :: string where "snapshotProtocolVersion \<equiv> ''1.0.0''"

definition observedKeys :: "FactKind \<Rightarrow> string list option" where
  "observedKeys kind =
     (if kind = FactInventory then
        Some [''resource'', ''status'', ''replicas'', ''available_replicas'', ''ready'', ''generation'', ''image_digests'']
      else if kind = FactHealth then Some [''status'']
      else if kind = FactCVE then Some [''image'', ''ids'', ''severity'']
      else None)"

type_synonym tokenizer = "string \<Rightarrow> jtoken list \<times> bool"

definition validateObserved :: "unicode_case \<Rightarrow> tokenizer \<Rightarrow> FactKind \<Rightarrow> string \<Rightarrow> (snapshot_error, unit) result" where
  "validateObserved u tokens kind observed =
     (if observed = [] \<or> length observed > maxObservedBytes then Inl PayloadSize
      else let (ts, ended) = tokens observed in
        case ts of
          [] \<Rightarrow> Inl PayloadSyntax
        | t # rest \<Rightarrow>
            if t \<noteq> obj_open then Inl PayloadNotObject
            else rbind (validateJSONObject u (observedKeys kind) [] rest) (\<lambda>rest.
              if rest \<noteq> [] then Inl PayloadTrailing
              else if \<not> ended then Inl PayloadSyntax
              else Inr ()))"

text \<open>The codec's two readings of a payload: the digests of an inventory fact, and a CVE observation.\<close>

record payload_api =
  pl_tokens :: tokenizer
  pl_imageDigests :: "string \<Rightarrow> string list option option option"
  pl_cve :: "string \<Rightarrow> CVEObservation option"

fun digests_sorted :: "string \<Rightarrow> string list \<Rightarrow> (snapshot_error, unit) result" where
  "digests_sorted previous [] = Inr ()"
| "digests_sorted previous (d # ds) =
     (if \<not> is_ok (ValidateImageDigest d) then Inl ImageDigestsInvalid
      else if previous \<noteq> [] \<and> previous \<ge> d then Inl ImageDigestsInvalid
      else digests_sorted d ds)"

text \<open>
  \<open>pl_imageDigests\<close> decodes the payload to an object (None: it fails), looks for the member (Some None: absent)
  and decodes it to strings (None inside: it fails).
\<close>

definition validateInventoryImageDigests :: "payload_api \<Rightarrow> Evidence \<Rightarrow> (snapshot_error, unit) result" where
  "validateInventoryImageDigests api e =
     (case pl_imageDigests api (Observed e) of
        None \<Rightarrow> Inl PayloadSyntax
      | Some None \<Rightarrow> Inr ()
      | Some (Some decoded) \<Rightarrow>
          if RefKind (Ref e) \<noteq> ''Pod'' then Inl ImageDigestsInvalid
          else case decoded of
            None \<Rightarrow> Inl ImageDigestsInvalid
          | Some digests \<Rightarrow>
              if digests = [] \<or> length digests > 64 then Inl ImageDigestsInvalid else digests_sorted [] digests)"

definition validateCVEObservation :: "unicode_case \<Rightarrow> payload_api \<Rightarrow> Evidence \<Rightarrow> (snapshot_error, unit) result" where
  "validateCVEObservation u api e =
     (if RefKind (Ref e) \<noteq> ''Image'' \<or> RefNamespace (Ref e) \<noteq> [] then Inl CVEInvalid
      else case pl_cve api (Observed e) of
        None \<Rightarrow> Inl CVEInvalid
      | Some observation \<Rightarrow>
          if \<not> is_ok (ValidateCVEObservation u observation) then Inl CVEInvalid
          else if RefName (Ref e) \<noteq> co_Image observation then Inl CVEInvalid
          else Inr ())"

definition validateDisplay :: "DisplayField list \<Rightarrow> (snapshot_error, unit) result" where
  "validateDisplay display = (if display \<noteq> [] then Inl DisplayRefused else Inr ())"

definition validateEvidence ::
  "unicode_case \<Rightarrow> payload_api \<Rightarrow> Spoke \<Rightarrow> Evidence \<Rightarrow> Time \<Rightarrow> Time \<Rightarrow> int \<Rightarrow> (snapshot_error, unit) result" where
  "validateEvidence u api spoke e snapshotObservedAt now maximumAge =
     (if FKind e \<noteq> FactInventory \<and> FKind e \<noteq> FactHealth \<and> FKind e \<noteq> FactCVE then Inl FactKindRefused
      else if SourceKind (Ref e) \<noteq> OCMSourceKind \<or> RefScope (Ref e) \<noteq> sp_ID spoke \<or> Source e \<noteq> sp_ID spoke then Inl FactSource
      else rbind (validateText ''resource kind'' (RefKind (Ref e)) 128 False) (\<lambda>_.
        if equal_fold u (RefKind (Ref e)) ''secret'' then Inl SecretRefused
        else rbind (validateText ''resource name'' (RefName (Ref e)) 256 False) (\<lambda>_.
        rbind (validateText ''resource namespace'' (RefNamespace (Ref e)) 256 True) (\<lambda>_.
        if Attributes (Ref e) \<noteq> [] then Inl AttributesRefused
        else if ObservedAt e = 0 \<or> ObservedAt e > snapshotObservedAt + maxFutureSkew \<or> now - ObservedAt e > maximumAge
          then Inl FactTime
        else if Adapter (FProvenance e) \<noteq> OCMSourceKind \<or> ProtocolV (FProvenance e) \<noteq> snapshotProtocolVersion \<or>
          DeepLink (FProvenance e) \<noteq> [] then Inl FactProvenance
        else if NativeID (FProvenance e) \<noteq> [] \<or> Collector (FProvenance e) \<noteq> [] then Inl FactProvenance
        else rbind (validateObserved u (pl_tokens api) (FKind e) (Observed e)) (\<lambda>_.
        rbind (if FKind e = FactInventory then validateInventoryImageDigests api e else Inr ()) (\<lambda>_.
        rbind (if FKind e = FactCVE then validateCVEObservation u api e else Inr ()) (\<lambda>_.
        validateDisplay (Display e))))))))"

record SpokeSnapshot =
  ss_ObservedAt :: Time
  ss_Facts :: "Evidence list"

definition fact_key :: "Evidence \<Rightarrow> string" where
  "fact_key e = FKind e @ [NUL] @ ResourceRef_String (Ref e)"

fun validate_facts ::
  "unicode_case \<Rightarrow> payload_api \<Rightarrow> Spoke \<Rightarrow> Time \<Rightarrow> Time \<Rightarrow> int \<Rightarrow> nat \<Rightarrow> string list \<Rightarrow> Evidence list \<Rightarrow> (snapshot_error, unit) result" where
  "validate_facts u api spoke observedAt now maximumAge i seen [] = Inr ()"
| "validate_facts u api spoke observedAt now maximumAge i seen (e # es) =
     (case validateEvidence u api spoke e observedAt now maximumAge of
        Inl err \<Rightarrow> Inl (FactAt i err)
      | Inr _ \<Rightarrow>
          if List.member seen (fact_key e) then Inl (DuplicateFact (ResourceRef_String (Ref e)))
          else validate_facts u api spoke observedAt now maximumAge (Suc i) (fact_key e # seen) es)"

definition validateSnapshot ::
  "unicode_case \<Rightarrow> payload_api \<Rightarrow> Spoke \<Rightarrow> SpokeSnapshot \<Rightarrow> Time \<Rightarrow> int \<Rightarrow> (snapshot_error, unit) result" where
  "validateSnapshot u api spoke snapshot now maximumAge =
     rbind (Spoke_Validate spoke) (\<lambda>_.
     if ss_ObservedAt snapshot = 0 \<or> ss_ObservedAt snapshot > now + maxFutureSkew \<or> now - ss_ObservedAt snapshot > maximumAge
     then Inl SnapshotTime
     else if length (ss_Facts snapshot) > maxSnapshotFacts then Inl TooManyFacts
     else validate_facts u api spoke (ss_ObservedAt snapshot) now maximumAge 0 [] (ss_Facts snapshot))"

definition ValidateSnapshot ::
  "unicode_case \<Rightarrow> payload_api \<Rightarrow> Spoke \<Rightarrow> SpokeSnapshot \<Rightarrow> Time \<Rightarrow> (snapshot_error, unit) result" where
  "ValidateSnapshot u api spoke snapshot now = validateSnapshot u api spoke snapshot now defaultSnapshotAge"

subsection \<open>Payloads as trees\<close>

text \<open>No object at any depth has a repeated or sensitive member name.\<close>

fun json_clean :: "unicode_case \<Rightarrow> json \<Rightarrow> bool" where
  "json_clean u (JObj ms) = (distinct (map fst ms) \<and> list_all (\<lambda>(k, v). \<not> isSensitiveKey u k \<and> json_clean u v) ms)"
| "json_clean u (JArr vs) = list_all (json_clean u) vs"
| "json_clean u (JLeaf t) = True"

lemma object_walk:
  assumes "\<forall>(k, v) \<in> set ms. \<forall>rest. (if json_clean u v then validateJSONValue u (json_tokens v @ rest) = Inr rest
      else \<not> is_ok (validateJSONValue u (json_tokens v @ rest)))"
  shows "if set seen \<inter> fst ` set ms = {} \<and> distinct (map fst ms) \<and> list_all (\<lambda>(k, v). \<not> isSensitiveKey u k \<and> json_clean u v) ms \<and>
        (\<forall>k \<in> fst ` set ms. allowed = None \<or> k \<in> set (the allowed))
      then validateJSONObject u allowed seen (concat (map (\<lambda>(k, v). JString k # json_tokens v) ms) @ obj_close # rest) = Inr rest
      else \<not> is_ok (validateJSONObject u allowed seen (concat (map (\<lambda>(k, v). JString k # json_tokens v) ms) @ obj_close # rest))"
  using assms
proof (induction ms arbitrary: seen)
  case Nil
  show ?case by (simp add: validateJSONObject.simps close_with_def)
next
  case (Cons m ms)
  obtain k v where m: "m = (k, v)" by (cases m)
  let ?tail = "concat (map (\<lambda>(k, v). JString k # json_tokens v) ms) @ obj_close # rest"
  have ih: "if set (k # seen) \<inter> fst ` set ms = {} \<and> distinct (map fst ms) \<and> list_all (\<lambda>(k, v). \<not> isSensitiveKey u k \<and> json_clean u v) ms \<and>
        (\<forall>k \<in> fst ` set ms. allowed = None \<or> k \<in> set (the allowed))
      then validateJSONObject u allowed (k # seen) ?tail = Inr rest else \<not> is_ok (validateJSONObject u allowed (k # seen) ?tail)"
    by (rule Cons.IH) (use Cons.prems in simp)
  have step: "validateJSONObject u allowed seen (JString k # json_tokens v @ ?tail) =
      (if List.member seen k then Inl (DuplicateKey k) else if isSensitiveKey u k then Inl (SensitiveKey k)
       else if allowed \<noteq> None \<and> \<not> List.member (the allowed) k then Inl (UnknownKey k)
       else case validateJSONValue u (json_tokens v @ ?tail) of Inl e \<Rightarrow> Inl e | Inr rest \<Rightarrow> validateJSONObject u allowed (k # seen) rest)"
    by (subst validateJSONObject.simps) simp
  have val: "if json_clean u v then validateJSONValue u (json_tokens v @ ?tail) = Inr ?tail
      else \<not> is_ok (validateJSONValue u (json_tokens v @ ?tail))" using Cons.prems by (simp add: m)
  show ?case
  proof (cases "List.member seen k \<or> isSensitiveKey u k \<or> (allowed \<noteq> None \<and> \<not> List.member (the allowed) k) \<or> \<not> json_clean u v")
    case True
    then have "\<not> is_ok (validateJSONObject u allowed seen (JString k # json_tokens v @ ?tail))"
      using val unfolding step by (auto split: sum.splits)
    with True show ?thesis by (auto simp: m)
  next
    case False
    then have "validateJSONObject u allowed seen (JString k # json_tokens v @ ?tail) = validateJSONObject u allowed (k # seen) ?tail"
      using val unfolding step by auto
    with False ih show ?thesis by (auto simp: m split: if_splits)
  qed
qed

lemma array_walk:
  assumes "\<forall>v \<in> set vs. json_wf v \<and> (\<forall>rest. (if json_clean u v then validateJSONValue u (json_tokens v @ rest) = Inr rest
      else \<not> is_ok (validateJSONValue u (json_tokens v @ rest))))"
  shows "if list_all (json_clean u) vs then validateJSONArray u (concat (map json_tokens vs) @ arr_close # rest) = Inr rest
      else \<not> is_ok (validateJSONArray u (concat (map json_tokens vs) @ arr_close # rest))"
  using assms
proof (induction vs)
  case Nil
  show ?case by (simp add: validateJSONArray.simps close_with_def)
next
  case (Cons v vs)
  let ?tail = "concat (map json_tokens vs) @ arr_close # rest"
  have step: "validateJSONArray u (json_tokens v @ ?tail) =
      (case validateJSONValue u (json_tokens v @ ?tail) of Inl e \<Rightarrow> Inl e | Inr rest \<Rightarrow> validateJSONArray u rest)"
    using more_tokens [of v ?tail] Cons.prems by (subst validateJSONArray.simps) simp
  have val: "if json_clean u v then validateJSONValue u (json_tokens v @ ?tail) = Inr ?tail
      else \<not> is_ok (validateJSONValue u (json_tokens v @ ?tail))" using Cons.prems by simp
  have ih: "if list_all (json_clean u) vs then validateJSONArray u ?tail = Inr rest else \<not> is_ok (validateJSONArray u ?tail)"
    by (rule Cons.IH) (use Cons.prems in simp)
  show ?case
  proof (cases "json_clean u v")
    case True
    with val ih step show ?thesis by simp
  next
    case False
    with val have "\<not> is_ok (validateJSONArray u (json_tokens v @ ?tail))" unfolding step by (auto split: sum.splits)
    with False show ?thesis by simp
  qed
qed

lemma value_walk:
  "json_wf v \<Longrightarrow> if json_clean u v then validateJSONValue u (json_tokens v @ rest) = Inr rest
     else \<not> is_ok (validateJSONValue u (json_tokens v @ rest))"
proof (induction v arbitrary: rest)
  case (JObj ms)
  have "\<forall>(k, v) \<in> set ms. \<forall>rest. (if json_clean u v then validateJSONValue u (json_tokens v @ rest) = Inr rest
      else \<not> is_ok (validateJSONValue u (json_tokens v @ rest)))"
    using JObj by (fastforce simp: list_all_iff)
  from object_walk [OF this, where seen = "[]" and allowed = None and rest = rest] show ?case
    by (simp add: validateJSONValue.simps split: if_splits)
next
  case (JArr vs)
  have "\<forall>v \<in> set vs. json_wf v \<and> (\<forall>rest. (if json_clean u v then validateJSONValue u (json_tokens v @ rest) = Inr rest
      else \<not> is_ok (validateJSONValue u (json_tokens v @ rest))))"
    using JArr by (simp add: list_all_iff)
  from array_walk [OF this, where rest = rest] show ?case
    by (simp add: validateJSONValue.simps split: if_splits)
next
  case (JLeaf t)
  then show ?case by (cases t) (simp_all add: validateJSONValue.simps)
qed

text \<open>
  C22: the payload check of a spoke's fact accepts exactly the normalized profile. On a payload of acceptable
  size whose tokens are those of a JSON document, it succeeds if and only if the document is
  an object, its member names are distinct and belong to the profile of the fact's kind, and no object at any
  depth below repeats a name or uses one of the sensitive names (token, kubeconfig, password and the like, whatever
  their case and punctuation).
\<close>
theorem validateObserved_exact:
  assumes "json_wf doc" and "tokens payload = (json_tokens doc, True)" and "payload \<noteq> []" and "length payload \<le> maxObservedBytes"
  shows "validateObserved u tokens kind payload = Inr () \<longleftrightarrow>
    (\<exists>ms. doc = JObj ms \<and> json_clean u doc \<and> (\<forall>keys. observedKeys kind = Some keys \<longrightarrow> fst ` set ms \<subseteq> set keys))"
proof (cases doc)
  case (JObj ms)
  have "\<forall>(k, v) \<in> set ms. \<forall>rest. (if json_clean u v then validateJSONValue u (json_tokens v @ rest) = Inr rest
      else \<not> is_ok (validateJSONValue u (json_tokens v @ rest)))"
    using assms(1) value_walk by (fastforce simp: JObj list_all_iff)
  from object_walk [OF this, where seen = "[]" and allowed = "observedKeys kind" and rest = "[]"]
  have "is_ok (validateJSONObject u (observedKeys kind) [] (concat (map (\<lambda>(k, v). JString k # json_tokens v) ms) @ [obj_close])) \<longleftrightarrow>
      json_clean u doc \<and> (\<forall>keys. observedKeys kind = Some keys \<longrightarrow> fst ` set ms \<subseteq> set keys)"
    and "is_ok (validateJSONObject u (observedKeys kind) [] (concat (map (\<lambda>(k, v). JString k # json_tokens v) ms) @ [obj_close])) \<Longrightarrow>
      validateJSONObject u (observedKeys kind) [] (concat (map (\<lambda>(k, v). JString k # json_tokens v) ms) @ [obj_close]) = Inr []"
    by (cases "observedKeys kind"; fastforce simp: JObj split: if_splits)+
  then show ?thesis
    using assms by (auto simp: validateObserved_def JObj rbind_eq_Inr is_ok_iff)
next
  case (JArr vs)
  with assms show ?thesis by (simp add: validateObserved_def)
next
  case (JLeaf t)
  with assms show ?thesis by (cases t) (simp_all add: validateObserved_def)
qed

definition sample_doc :: json where
  "sample_doc = JObj [(''status'', JLeaf (JString ''healthy'')), (''ready'', JLeaf (JScalar ''true''))]"

definition sample_leak :: json where
  "sample_leak = JObj [(''resource'', JArr [JObj [(''Access-Token'', JLeaf (JString ''x''))]])]"

definition sample_tokenizer :: tokenizer where
  "sample_tokenizer s = (json_tokens (if s = ''doc'' then sample_doc else sample_leak), True)"

theorem validateObserved_exact_witness:
  "validateObserved ascii_case sample_tokenizer FactInventory ''doc'' = Inr () \<and>
   validateObserved ascii_case sample_tokenizer FactInventory ''leak'' \<noteq> Inr ()"
proof -
  have wf: "json_wf sample_doc" "json_wf sample_leak" by code_simp+
  have tok: "sample_tokenizer ''doc'' = (json_tokens sample_doc, True)" "sample_tokenizer ''leak'' = (json_tokens sample_leak, True)"
    by (simp_all add: sample_tokenizer_def)
  have size: "length ''doc'' \<le> maxObservedBytes" "length ''leak'' \<le> maxObservedBytes" by (simp_all add: maxObservedBytes_def)
  have clean: "json_clean ascii_case sample_doc" "\<not> json_clean ascii_case sample_leak" by code_simp+
  have keys: "\<forall>keys. observedKeys FactInventory = Some keys \<longrightarrow> {''status'', ''ready''} \<subseteq> set keys" by (simp add: observedKeys_def)
  have "validateObserved ascii_case sample_tokenizer FactInventory ''doc'' = Inr ()"
    using validateObserved_exact [of sample_doc sample_tokenizer "''doc''" ascii_case FactInventory] wf(1) tok(1) size(1) clean(1) keys
    by (auto simp: sample_doc_def)
  moreover have "validateObserved ascii_case sample_tokenizer FactInventory ''leak'' \<noteq> Inr ()"
    using validateObserved_exact [of sample_leak sample_tokenizer "''leak''" ascii_case FactInventory] wf(2) tok(2) size(2) clean(2) by blast
  ultimately show ?thesis ..
qed

end
