(* ===== verification/Hub_Collector.thy ===== *)
theory Hub_Collector
  imports Hub_Snapshot Fleet_Model Tracing
begin

text \<open>
  The spoke collector (\<open>hubfleet/collector.go\<close>, \<open>hubfleet/metrics.go\<close>): the bounded worker pool
  that polls every registered spoke of a workspace.  The select loop of \<open>collectWorkspace\<close> and its
  workers are a transition system whose events are the communications between them: the admission
  of a spoke to an idle worker, the reply of the transport, the hand-over of a result, the
  cancellation of the lifecycle context and the shutdown that waits for every worker.  Replies of
  the transport and of the store are carried by the events, so the theorems hold for every
  transport and store.
\<close>

section \<open>Configuration\<close>

definition defaultSpokeTimeout :: int where "defaultSpokeTimeout = 5 * 1000000000"
definition maxSpokeTimeout :: int where "maxSpokeTimeout = 30 * 1000000000"
definition defaultSpokeConcurrency :: int where "defaultSpokeConcurrency = 4"
definition maximumSpokeConcurrency :: int where "maximumSpokeConcurrency = 64"

text \<open>\<open>cc_required\<close>: lifecycle context, store, transport and policy enforcer are all present.\<close>

record CollectorConfig =
  cc_required :: bool
  cc_SpokeTimeout :: int
  cc_MaxSnapshotAge :: int
  cc_MaxConcurrentSpokes :: int

datatype collector_error = CollectorParts | CollectorTimeout | CollectorAge | CollectorConcurrency

definition or_default :: "int \<Rightarrow> int \<Rightarrow> int" where
  "or_default v d = (if v = 0 then d else v)"

definition NewCollector :: "CollectorConfig \<Rightarrow> (collector_error, CollectorConfig) result" where
  "NewCollector config =
     (if \<not> cc_required config then Inl CollectorParts
      else let timeout = or_default (cc_SpokeTimeout config) defaultSpokeTimeout in
        if timeout < 1000000000 \<or> timeout > maxSpokeTimeout then Inl CollectorTimeout
        else let age = or_default (cc_MaxSnapshotAge config) defaultSnapshotAge in
          if age < 1000000000 \<or> age > maxSnapshotAge then Inl CollectorAge
          else let concurrent = or_default (cc_MaxConcurrentSpokes config) defaultSpokeConcurrency in
            if concurrent < 1 \<or> concurrent > maximumSpokeConcurrency then Inl CollectorConcurrency
            else Inr (config\<lparr>cc_SpokeTimeout := timeout, cc_MaxSnapshotAge := age,
                             cc_MaxConcurrentSpokes := concurrent\<rparr>))"

section \<open>One spoke\<close>

type_synonym FailureKind = string

abbreviation FailureTransport :: FailureKind where "FailureTransport \<equiv> ''transport''"
abbreviation FailureDeadline :: FailureKind where "FailureDeadline \<equiv> ''deadline''"
abbreviation FailureInvalidSnapshot :: FailureKind where "FailureInvalidSnapshot \<equiv> ''invalid-snapshot''"

datatype SnapshotOutcome =
    SnapshotOutcomeSuccess | SnapshotOutcomeTransport | SnapshotOutcomeDeadline | SnapshotOutcomeInvalidSnapshot
  | SnapshotOutcomeStoreError | SnapshotOutcomeCanceled

definition snapshotOutcomeForFailure :: "FailureKind \<Rightarrow> SnapshotOutcome" where
  "snapshotOutcomeForFailure failure =
     (if failure = FailureDeadline then SnapshotOutcomeDeadline
      else if failure = FailureInvalidSnapshot then SnapshotOutcomeInvalidSnapshot
      else SnapshotOutcomeTransport)"

datatype collect_error =
    ListSpokes
  | BadSpokes snapshot_error
  | RefreshCanceled
  | FlightPanicked
  | PersistSnapshot string
  | PersistFailure string
  | FlightTrace trace_error

datatype transport_error = DeadlineExceeded | TransportFailed

definition failureFor :: "transport_error \<Rightarrow> FailureKind" where
  "failureFor e = (if e = DeadlineExceeded then FailureDeadline else FailureTransport)"

text \<open>
  What one call of the transport came to: a panic (of the transport or of the injected clock), or
  a snapshot and an error, and whether the spoke's own deadline had passed when it returned.
\<close>

record transport_reply =
  tp_panics :: bool
  tp_snapshot :: SpokeSnapshot
  tp_error :: "transport_error option"
  tp_expired :: bool

record spokeCollectionResult =
  sr_spoke :: Spoke
  sr_snapshot :: SpokeSnapshot
  sr_failure :: FailureKind
  sr_err :: "collect_error option"
  sr_attemptedAt :: Time

definition zero_snapshot :: SpokeSnapshot where
  "zero_snapshot = \<lparr>ss_ObservedAt = 0, ss_Facts = []\<rparr>"

text \<open>\<open>None\<close> is the source's \<open>ok = false\<close>: the collection was cancelled and the worker leaves.\<close>

definition collectSpoke ::
  "unicode_case \<Rightarrow> payload_api \<Rightarrow> int \<Rightarrow> bool \<Rightarrow> Spoke \<Rightarrow> Time \<Rightarrow> transport_reply \<Rightarrow> spokeCollectionResult option" where
  "collectSpoke u api maxAge cancelled spoke attemptedAt reply =
     (let result = \<lparr>sr_spoke = spoke, sr_snapshot = zero_snapshot, sr_failure = [], sr_err = None,
                    sr_attemptedAt = attemptedAt\<rparr>;
          collectionErr = (if tp_error reply = None \<and> tp_expired reply then Some DeadlineExceeded
                           else tp_error reply)
      in if tp_panics reply then Some (result\<lparr>sr_err := Some FlightPanicked\<rparr>)
         else if cancelled then None
         else case collectionErr of
           Some e \<Rightarrow> Some (result\<lparr>sr_failure := failureFor e\<rparr>)
         | None \<Rightarrow>
             if \<not> is_ok (validateSnapshot u api spoke (tp_snapshot reply) attemptedAt maxAge)
             then Some (result\<lparr>sr_failure := FailureInvalidSnapshot\<rparr>)
             else Some (result\<lparr>sr_snapshot := tp_snapshot reply\<rparr>))"

text \<open>A call of the store: it returns (with whether an older snapshot is retained), fails or panics.\<close>

datatype store_reply = StoreOK bool | StoreFails | StorePanics

text \<open>The writes the store accepted.\<close>

datatype store_op =
    Replaced Spoke SpokeSnapshot Time
  | Marked Spoke FailureKind Time bool

definition recordFailure ::
  "spokeCollectionResult \<Rightarrow> bool option \<Rightarrow> Coverage \<Rightarrow> (collect_error, Coverage) result" where
  "recordFailure result marked coverage =
     (case marked of
        None \<Rightarrow> Inl (PersistFailure (sp_ID (sr_spoke result)))
      | Some retained \<Rightarrow>
          (let c = coverage\<lparr>Unreachable := Unreachable coverage @ [sp_ID (sr_spoke result)]\<rparr>
           in Inr (if retained then c\<lparr>Stale := Stale c @ [sp_ID (sr_spoke result)]\<rparr> else c)))"

text \<open>
  \<open>persistSpokeResult\<close>: the new coverage or the error, the accepted writes and the outcomes given
  to the observer.  \<open>reply\<close> is \<open>None\<close> when the store returned an error.
\<close>

definition persistSpokeResult ::
  "spokeCollectionResult \<Rightarrow> bool option \<Rightarrow> Coverage \<Rightarrow>
   (collect_error, Coverage) result \<times> store_op list \<times> SnapshotOutcome list" where
  "persistSpokeResult result reply coverage =
     (if sr_failure result \<noteq> [] then
        (case recordFailure result reply coverage of
           Inl e \<Rightarrow> (Inl e, [], [SnapshotOutcomeStoreError])
         | Inr c \<Rightarrow> (Inr c,
             [Marked (sr_spoke result) (sr_failure result) (sr_attemptedAt result) (reply = Some True)],
             [snapshotOutcomeForFailure (sr_failure result)]))
      else if reply = None then
        (Inl (PersistSnapshot (sp_ID (sr_spoke result))), [], [SnapshotOutcomeStoreError])
      else (Inr (coverage\<lparr>Reachable := Reachable coverage + 1\<rparr>),
            [Replaced (sr_spoke result) (sr_snapshot result) (sr_attemptedAt result)],
            [SnapshotOutcomeSuccess]))"

section \<open>The worker pool\<close>

datatype worker =
    WIdle
  | WPolling Spoke
  | WSending spokeCollectionResult
  | WExited

text \<open>How \<open>collectWorkspace\<close> ends: it returns, or a panic of the store leaves it.\<close>

datatype collect_outcome = Ret Coverage "collect_error option" | Panicked

text \<open>
  \<open>Draining outcome observeCanceled\<close> is the closure \<open>shutdown\<close>: the collection context is cancelled,
  the jobs channel is closed and the wait group has not been released yet.
\<close>

datatype pool_main =
    Looping
  | Draining collect_outcome bool
  | Returned collect_outcome

record pool =
  po_main :: pool_main
  po_next :: nat
  po_inFlight :: int
  po_active :: "(string, Time) gomap"
  po_coverage :: Coverage
  po_workers :: "worker list"
  po_cancelled :: bool
  po_store :: "store_op list"
  po_observed :: "SnapshotOutcome list"

datatype pool_event =
    LifecycleCancel
  | Admit nat Time
  | TransportReply nat Time transport_reply
  | WorkerExit nat
  | ResultReceived nat store_reply
  | CancelSeen
  | LoopDone
  | Drained

definition pool_returned :: "pool \<Rightarrow> bool" where
  "pool_returned p = (case po_main p of Returned out \<Rightarrow> True | _ \<Rightarrow> False)"

text \<open>The collection context: cancelled with its parent, or by \<open>shutdown\<close>.\<close>

definition collection_done :: "pool \<Rightarrow> bool" where
  "collection_done p \<longleftrightarrow> po_cancelled p \<or> po_main p \<noteq> Looping"

definition loop_condition :: "Spoke list \<Rightarrow> pool \<Rightarrow> bool" where
  "loop_condition spokes p \<longleftrightarrow> po_next p < length spokes \<or> po_inFlight p > 0"

definition shutdown :: "pool \<Rightarrow> collect_outcome \<Rightarrow> bool \<Rightarrow> pool" where
  "shutdown p out observeCanceled = p\<lparr>po_main := Draining out observeCanceled\<rparr>"

text \<open>The branch of the select that received \<open>result\<close> from worker \<open>i\<close>.\<close>

definition receive_result :: "pool \<Rightarrow> nat \<Rightarrow> spokeCollectionResult \<Rightarrow> store_reply \<Rightarrow> pool" where
  "receive_result p0 i result reply =
     (let p = p0\<lparr>po_workers := (po_workers p0)[i := WIdle]\<rparr> in
      if po_cancelled p then shutdown p (Ret (po_coverage p) (Some RefreshCanceled)) True
      else let p = p\<lparr>po_active := gm_del (sp_ID (sr_spoke result)) (po_active p),
                     po_inFlight := po_inFlight p - 1\<rparr> in
        case sr_err result of
          Some e \<Rightarrow> shutdown p (Ret (po_coverage p) (Some e)) True
        | None \<Rightarrow>
            if reply = StorePanics then shutdown p Panicked True
            else (case persistSpokeResult result
                     (case reply of StoreOK retained \<Rightarrow> Some retained | _ \<Rightarrow> None) (po_coverage p) of
                    (Inl e, ops, seen) \<Rightarrow>
                      shutdown (p\<lparr>po_store := po_store p @ ops, po_observed := po_observed p @ seen\<rparr>)
                        (Ret (po_coverage p) (Some e)) True
                  | (Inr c, ops, seen) \<Rightarrow>
                      p\<lparr>po_coverage := c, po_store := po_store p @ ops,
                        po_observed := po_observed p @ seen\<rparr>))"

definition sorted_coverage :: "Coverage \<Rightarrow> Coverage" where
  "sorted_coverage c = c\<lparr>Unreachable := sort (Unreachable c), Stale := sort (Stale c)\<rparr>"

fun pool_exec ::
  "unicode_case \<Rightarrow> payload_api \<Rightarrow> int \<Rightarrow> Spoke list \<Rightarrow> pool \<Rightarrow> pool_event \<Rightarrow> pool option" where
  "pool_exec u api maxAge spokes p LifecycleCancel =
     (if po_cancelled p \<or> pool_returned p then None else Some (p\<lparr>po_cancelled := True\<rparr>))"
| "pool_exec u api maxAge spokes p (Admit i startedAt) =
     (if po_main p = Looping \<and> po_next p < length spokes \<and> i < length (po_workers p) \<and>
         po_workers p ! i = WIdle
      then let spoke = spokes ! po_next p in
        Some (p\<lparr>po_workers := (po_workers p)[i := WPolling spoke],
                po_active := gm_put (sp_ID spoke) startedAt (po_active p),
                po_next := po_next p + 1, po_inFlight := po_inFlight p + 1\<rparr>)
      else None)"
| "pool_exec u api maxAge spokes p (TransportReply i attemptedAt reply) =
     (if i < length (po_workers p) then
        (case po_workers p ! i of
           WPolling spoke \<Rightarrow>
             Some (p\<lparr>po_workers := (po_workers p)[i :=
               (case collectSpoke u api maxAge (collection_done p) spoke attemptedAt reply of
                  None \<Rightarrow> WExited
                | Some result \<Rightarrow> WSending result)]\<rparr>)
         | _ \<Rightarrow> None)
      else None)"
| "pool_exec u api maxAge spokes p (WorkerExit i) =
     (if collection_done p \<and> i < length (po_workers p) then
        (case po_workers p ! i of
           WPolling spoke \<Rightarrow> None
         | WExited \<Rightarrow> None
         | _ \<Rightarrow> Some (p\<lparr>po_workers := (po_workers p)[i := WExited]\<rparr>))
      else None)"
| "pool_exec u api maxAge spokes p (ResultReceived i reply) =
     (if po_main p = Looping \<and> loop_condition spokes p \<and> i < length (po_workers p) then
        (case po_workers p ! i of
           WSending result \<Rightarrow> Some (receive_result p i result reply)
         | _ \<Rightarrow> None)
      else None)"
| "pool_exec u api maxAge spokes p CancelSeen =
     (if po_main p = Looping \<and> loop_condition spokes p \<and> po_cancelled p
      then Some (shutdown p (Ret (po_coverage p) (Some RefreshCanceled)) True) else None)"
| "pool_exec u api maxAge spokes p LoopDone =
     (if po_main p = Looping \<and> \<not> loop_condition spokes p
      then Some (shutdown p (Ret (sorted_coverage (po_coverage p)) None) False) else None)"
| "pool_exec u api maxAge spokes p Drained =
     (case po_main p of
        Draining out observeCanceled \<Rightarrow>
          (if list_all (\<lambda>w. w = WExited) (po_workers p)
           then Some (p\<lparr>po_main := Returned out, po_observed := po_observed p @
                  (if observeCanceled then replicate (length (po_active p)) SnapshotOutcomeCanceled else [])\<rparr>)
           else None)
      | _ \<Rightarrow> None)"

fun pool_run ::
  "unicode_case \<Rightarrow> payload_api \<Rightarrow> int \<Rightarrow> Spoke list \<Rightarrow> pool \<Rightarrow> pool_event list \<Rightarrow> pool option" where
  "pool_run u api maxAge spokes p [] = Some p"
| "pool_run u api maxAge spokes p (e # es) =
     (case pool_exec u api maxAge spokes p e of
        None \<Rightarrow> None
      | Some p' \<Rightarrow> pool_run u api maxAge spokes p' es)"

text \<open>The state \<open>collectWorkspace\<close> enters its loop with.\<close>

definition pool_start :: "int \<Rightarrow> Spoke list \<Rightarrow> pool" where
  "pool_start maxConcurrent spokes =
     \<lparr>po_main = Looping, po_next = 0, po_inFlight = 0, po_active = [],
      po_coverage = zero_coverage\<lparr>Requested := int (length spokes)\<rparr>,
      po_workers = replicate (nat (min maxConcurrent (int (length spokes)))) WIdle,
      po_cancelled = False, po_store = [], po_observed = []\<rparr>"

text \<open>
  The head of \<open>collectWorkspace\<close>: the registered spokes are listed and validated; with none the
  empty coverage is returned at once, otherwise the pool starts on the sorted spokes.
\<close>

definition collectWorkspace ::
  "int \<Rightarrow> Spoke list option \<Rightarrow> collect_outcome + (Spoke list \<times> pool)" where
  "collectWorkspace maxConcurrent registered =
     (case registered of
        None \<Rightarrow> Inl (Ret zero_coverage (Some ListSpokes))
      | Some spokes \<Rightarrow>
          (case validateSpokes spokes of
             Inl e \<Rightarrow> Inl (Ret zero_coverage (Some (BadSpokes e)))
           | Inr ordered \<Rightarrow>
               if ordered = [] then Inl (Ret zero_coverage None)
               else Inr (ordered, pool_start maxConcurrent ordered)))"

end
