(* ===== verification/Hub_Search.thy ===== *)
theory Hub_Search
  imports Hub_Snapshot Policy_PEP Go_Encoding
begin

text \<open>
  The read services of the hub (\<open>hubfleet/correlation.go\<close>, \<open>image_search.go\<close>, \<open>inventory_search.go\<close>,
  \<open>cve_search.go\<close>, \<open>source.go\<close>): each one validates a bounded request, submits a digest of its
  canonical arguments to the policy enforcement point and only then queries the stored fleet.  The
  store behind \<open>FleetQuerier\<close> and \<open>FleetReader\<close> is a parameter; the queries that reach it are
  returned with the result.
\<close>

section \<open>Services\<close>

type_synonym issued = "(Scope \<times> FleetQuery \<times> int \<times> Time) list"

datatype search_error =
    ServiceParts
  | ServiceFreshness
  | SearchTrace trace_error
  | SearchScope tenancy_error
  | SearchRequest
  | SearchPolicy pep_error
  | SearchStore

record search_service =
  sv_querier :: "(Scope \<Rightarrow> FleetQuery \<Rightarrow> int \<Rightarrow> Time \<Rightarrow> QueryResult option) option"
  sv_pep :: "Enforcer option"
  sv_freshness :: int
  sv_now :: Time

text \<open>The checks shared by \<open>NewCorrelator\<close>, \<open>NewImageSearcher\<close>, \<open>NewInventorySearcher\<close>, \<open>NewCVESearcher\<close>.\<close>

definition new_search_service :: "search_service \<Rightarrow> (search_error, search_service) result" where
  "new_search_service config =
     (if sv_querier config = None \<or> sv_pep config = None then Inl ServiceParts
      else let freshness = (if sv_freshness config = 0 then defaultSnapshotAge else sv_freshness config) in
        if freshness < 1000000000 \<or> freshness > maxSnapshotAge then Inl ServiceFreshness
        else Inr (config\<lparr>sv_freshness := freshness\<rparr>))"

definition NewCorrelator :: "search_service \<Rightarrow> (search_error, search_service) result" where
  "NewCorrelator = new_search_service"

definition NewImageSearcher :: "search_service \<Rightarrow> (search_error, search_service) result" where
  "NewImageSearcher = new_search_service"

definition NewInventorySearcher :: "search_service \<Rightarrow> (search_error, search_service) result" where
  "NewInventorySearcher = new_search_service"

definition NewCVESearcher :: "search_service \<Rightarrow> (search_error, search_service) result" where
  "NewCVESearcher = new_search_service"

text \<open>What a call brings along: random bytes for a trace identifier, observed times and its context.\<close>

record search_env =
  se_mint :: "string option"
  se_elapsed :: "int \<times> int"
  se_ctx :: "go_context option"

definition zero_selector :: Selector where
  "zero_selector = \<lparr>sl_ResourceKind = [], sl_Namespace = [], sl_Name = [], sl_NamePrefix = [], sl_Labels = [],
     sl_Health = [], sl_HealthNot = [], sl_Image = [], sl_CVE = []\<rparr>"

text \<open>The call of \<open>QueryFleet\<close> at the end of every service.\<close>

definition query_fleet ::
  "search_service \<Rightarrow> Scope \<Rightarrow> FleetQuery \<Rightarrow> (search_error, QueryResult) result \<times> issued" where
  "query_fleet sv scope query =
     (case sv_querier sv of
        None \<Rightarrow> (Inl ServiceParts, [])
      | Some querier \<Rightarrow>
          ((case querier scope query (sv_freshness sv) (sv_now sv) of None \<Rightarrow> Inl SearchStore | Some r \<Rightarrow> Inr r),
           [(scope, query, sv_freshness sv, sv_now sv)]))"

text \<open>The policy decision on the digest of the canonical arguments, then the query.\<close>

definition authorize_and_query ::
  "(string \<Rightarrow> string) \<Rightarrow> search_service \<Rightarrow> search_env \<Rightarrow> go_context option \<Rightarrow> Scope \<Rightarrow> PVerb \<Rightarrow> string \<Rightarrow> FleetQuery \<Rightarrow> pep_state
     \<Rightarrow> (search_error, QueryResult) result \<times> issued \<times> pep_state" where
  "authorize_and_query sha sv env ctx scope verb canonicalArguments query st =
     (case AuthorizeRead (sv_pep sv) (se_mint env) (se_elapsed env) ctx scope (NewReadInput sha verb canonicalArguments) st of
        (Inl e, st') \<Rightarrow> (Inl (SearchPolicy e), [], st')
      | (Inr _, st') \<Rightarrow> (case query_fleet sv scope query of (r, qs) \<Rightarrow> (r, qs, st')))"

section \<open>Correlation\<close>

record CorrelationRequest =
  cr_ResourceKind :: string
  cr_Name :: string
  cr_Namespace :: string
  cr_HealthNot :: string
  cr_Limit :: int

definition limit_ok :: "int \<Rightarrow> bool" where
  "limit_ok limit \<longleftrightarrow> \<not> (limit < 0 \<or> limit > 1000)"

definition CorrelationRequest_Validate :: "unicode_case \<Rightarrow> CorrelationRequest \<Rightarrow> bool" where
  "CorrelationRequest_Validate u request \<longleftrightarrow>
     list_all (\<lambda>(name, value, maximum, empty). is_ok (validateText name value maximum empty))
       [(''resource kind'', cr_ResourceKind request, 128, False),
        (''resource name'', cr_Name request, 256, False),
        (''resource namespace'', cr_Namespace request, 256, True)] \<and>
     is_ok (FleetQuery_Validate \<lparr>fq_Kinds = [FactHealth], fq_Scopes = [],
       fq_Selector = zero_selector\<lparr>sl_HealthNot := cr_HealthNot request\<rparr>, fq_Limit = 0\<rparr>) \<and>
     limit_ok (cr_Limit request) \<and>
     \<not> equal_fold u (cr_ResourceKind request) ''secret''"

definition correlation_arguments :: "CorrelationRequest \<Rightarrow> string" where
  "correlation_arguments request =
     join [cr_ResourceKind request, cr_Name request, cr_Namespace request, cr_HealthNot request,
           int_decimal (cr_Limit request)] [NUL]"

definition correlation_query :: "CorrelationRequest \<Rightarrow> FleetQuery" where
  "correlation_query request =
     \<lparr>fq_Kinds = [FactHealth], fq_Scopes = [],
      fq_Selector = zero_selector\<lparr>sl_ResourceKind := cr_ResourceKind request, sl_Name := cr_Name request,
        sl_Namespace := cr_Namespace request, sl_HealthNot := cr_HealthNot request\<rparr>,
      fq_Limit = cr_Limit request\<rparr>"

definition Correlate ::
  "unicode_case \<Rightarrow> (string \<Rightarrow> string) \<Rightarrow> search_service \<Rightarrow> search_env \<Rightarrow> Scope \<Rightarrow> CorrelationRequest \<Rightarrow> pep_state
     \<Rightarrow> (search_error, QueryResult) result \<times> issued \<times> pep_state" where
  "Correlate u sha sv env scope request st =
     (if sv_querier sv = None \<or> sv_pep sv = None \<or> se_ctx env = None then (Inl ServiceParts, [], st)
      else case Authorize scope ActionRead of
        Inl e \<Rightarrow> (Inl (SearchScope e), [], st)
      | Inr _ \<Rightarrow>
          if \<not> CorrelationRequest_Validate u request then (Inl SearchRequest, [], st)
          else authorize_and_query sha sv env (se_ctx env) scope VerbFleetCorrelate
                 (correlation_arguments request) (correlation_query request) st)"

section \<open>Searches\<close>

text \<open>
  The searches share their head, in this order: parts, trace context, scope, request; \<open>valid\<close> is
  the service's own validation.
\<close>

definition traced_search ::
  "(string \<Rightarrow> string) \<Rightarrow> search_service \<Rightarrow> search_env \<Rightarrow> Scope \<Rightarrow> bool \<Rightarrow> PVerb \<Rightarrow> string \<Rightarrow> FleetQuery \<Rightarrow> pep_state
     \<Rightarrow> (search_error, QueryResult) result \<times> issued \<times> pep_state" where
  "traced_search sha sv env scope valid verb canonicalArguments query st =
     (if sv_querier sv = None \<or> sv_pep sv = None \<or> se_ctx env = None then (Inl ServiceParts, [], st)
      else case Ensure (se_mint env) (se_ctx env) of
        Inl e \<Rightarrow> (Inl (SearchTrace e), [], st)
      | Inr (ctx, _) \<Rightarrow>
          (case Authorize scope ActionRead of
             Inl e \<Rightarrow> (Inl (SearchScope e), [], st)
           | Inr _ \<Rightarrow>
               if \<not> valid then (Inl SearchRequest, [], st)
               else authorize_and_query sha sv env (Some ctx) scope verb canonicalArguments query st))"

record ImageSearchRequest =
  ir_Digest :: string
  ir_Limit :: int

definition ImageSearchRequest_validate :: "ImageSearchRequest \<Rightarrow> bool" where
  "ImageSearchRequest_validate request \<longleftrightarrow> is_ok (ValidateImageDigest (ir_Digest request)) \<and> limit_ok (ir_Limit request)"

definition image_arguments :: "ImageSearchRequest \<Rightarrow> string" where
  "image_arguments request = ir_Digest request @ [NUL] @ int_decimal (ir_Limit request)"

definition image_query :: "FactKind \<Rightarrow> string \<Rightarrow> ImageSearchRequest \<Rightarrow> FleetQuery" where
  "image_query kind resource request =
     \<lparr>fq_Kinds = [kind], fq_Scopes = [],
      fq_Selector = zero_selector\<lparr>sl_ResourceKind := resource, sl_Image := ir_Digest request\<rparr>,
      fq_Limit = ir_Limit request\<rparr>"

definition ImageSearcher_Search ::
  "(string \<Rightarrow> string) \<Rightarrow> search_service \<Rightarrow> search_env \<Rightarrow> Scope \<Rightarrow> ImageSearchRequest \<Rightarrow> pep_state
     \<Rightarrow> (search_error, QueryResult) result \<times> issued \<times> pep_state" where
  "ImageSearcher_Search sha sv env scope request st =
     traced_search sha sv env scope (ImageSearchRequest_validate request) VerbFleetImageSearch
       (image_arguments request) (image_query FactInventory ''Pod'' request) st"

definition CVESearcher_Search ::
  "(string \<Rightarrow> string) \<Rightarrow> search_service \<Rightarrow> search_env \<Rightarrow> Scope \<Rightarrow> ImageSearchRequest \<Rightarrow> pep_state
     \<Rightarrow> (search_error, QueryResult) result \<times> issued \<times> pep_state" where
  "CVESearcher_Search sha sv env scope request st =
     traced_search sha sv env scope (ImageSearchRequest_validate request) VerbFleetCVESearch
       (image_arguments request) (image_query FactCVE ''Image'' request) st"

record CVEIdentifierSearchRequest =
  vr_Identifier :: string
  vr_Limit :: int

definition CVEIdentifierSearchRequest_validate :: "unicode_case \<Rightarrow> CVEIdentifierSearchRequest \<Rightarrow> bool" where
  "CVEIdentifierSearchRequest_validate u request \<longleftrightarrow>
     NormalizeCVEIdentifier u (vr_Identifier request) = Inr (vr_Identifier request) \<and> limit_ok (vr_Limit request)"

definition cve_arguments :: "CVEIdentifierSearchRequest \<Rightarrow> string" where
  "cve_arguments request = vr_Identifier request @ [NUL] @ int_decimal (vr_Limit request)"

definition cve_query :: "CVEIdentifierSearchRequest \<Rightarrow> FleetQuery" where
  "cve_query request =
     \<lparr>fq_Kinds = [FactCVE], fq_Scopes = [],
      fq_Selector = zero_selector\<lparr>sl_ResourceKind := ''Image'', sl_CVE := vr_Identifier request\<rparr>,
      fq_Limit = vr_Limit request\<rparr>"

definition SearchByIdentifier ::
  "unicode_case \<Rightarrow> (string \<Rightarrow> string) \<Rightarrow> search_service \<Rightarrow> search_env \<Rightarrow> Scope \<Rightarrow> CVEIdentifierSearchRequest \<Rightarrow> pep_state
     \<Rightarrow> (search_error, QueryResult) result \<times> issued \<times> pep_state" where
  "SearchByIdentifier u sha sv env scope request st =
     traced_search sha sv env scope (CVEIdentifierSearchRequest_validate u request) VerbFleetCVEIdentifierSearch
       (cve_arguments request) (cve_query request) st"

record InventorySearchRequest =
  nr_ResourceKind :: string
  nr_Namespace :: string
  nr_Name :: string
  nr_Limit :: int

definition InventorySearchRequest_Validate :: "InventorySearchRequest \<Rightarrow> bool" where
  "InventorySearchRequest_Validate request \<longleftrightarrow>
     list_all (\<lambda>(name, value, maximum, empty). is_ok (validateText name value maximum empty))
       [(''resource kind'', nr_ResourceKind request, 128, False),
        (''resource namespace'', nr_Namespace request, 256, True),
        (''resource name'', nr_Name request, 256, True)] \<and>
     nr_ResourceKind request \<in> {''Deployment'', ''Pod'', ''Rollout''} \<and>
     limit_ok (nr_Limit request)"

definition inventory_arguments :: "InventorySearchRequest \<Rightarrow> string" where
  "inventory_arguments request =
     join [nr_ResourceKind request, nr_Namespace request, nr_Name request, int_decimal (nr_Limit request)] [NUL]"

definition inventory_query :: "InventorySearchRequest \<Rightarrow> FleetQuery" where
  "inventory_query request =
     \<lparr>fq_Kinds = [FactInventory], fq_Scopes = [],
      fq_Selector = zero_selector\<lparr>sl_ResourceKind := nr_ResourceKind request, sl_Namespace := nr_Namespace request,
        sl_Name := nr_Name request\<rparr>,
      fq_Limit = nr_Limit request\<rparr>"

definition InventorySearcher_Search ::
  "(string \<Rightarrow> string) \<Rightarrow> search_service \<Rightarrow> search_env \<Rightarrow> Scope \<Rightarrow> InventorySearchRequest \<Rightarrow> pep_state
     \<Rightarrow> (search_error, QueryResult) result \<times> issued \<times> pep_state" where
  "InventorySearcher_Search sha sv env scope request st =
     traced_search sha sv env scope (InventorySearchRequest_Validate request) VerbFleetInventorySearch
       (inventory_arguments request) (inventory_query request) st"

section \<open>The fleet source\<close>

datatype FleetReadOutcome = ReadComplete | ReadDegraded | ReadEmpty | ReadError

datatype FleetFreshnessOutcome = FreshnessFresh | FreshnessStale | FreshnessUnknown | FreshnessEmpty | FreshnessError

record FleetReadObservation =
  fo_Outcome :: FleetReadOutcome
  fo_Freshness :: FleetFreshnessOutcome

definition FleetReadObservation_Valid :: "FleetReadObservation \<Rightarrow> bool" where
  "FleetReadObservation_Valid observation =
     (case fo_Outcome observation of
        ReadComplete \<Rightarrow> fo_Freshness observation = FreshnessFresh
      | ReadDegraded \<Rightarrow> fo_Freshness observation = FreshnessStale \<or> fo_Freshness observation = FreshnessUnknown
      | ReadEmpty \<Rightarrow> fo_Freshness observation = FreshnessEmpty
      | ReadError \<Rightarrow> fo_Freshness observation = FreshnessError)"

fun observed_scopes_loop :: "(string, Time) gomap \<Rightarrow> Cluster list \<Rightarrow> (string, Time) gomap option" where
  "observed_scopes_loop observed [] = Some observed"
| "observed_scopes_loop observed (c # cs) =
     (if trim_space (cl_Name c) = [] then None
      else if map_of observed (cl_Name c) \<noteq> None then None
      else observed_scopes_loop (gm_put (cl_Name c) (cl_ObservedAt c) observed) cs)"

definition observedFleetScopes :: "FleetResult \<Rightarrow> (string, Time) gomap option" where
  "observedFleetScopes result =
     (if int (length (fr_Clusters result)) \<noteq> Requested (fr_Coverage result) then None
      else observed_scopes_loop [] (fr_Clusters result))"

definition fleetFreshnessOutcome :: "FleetResult \<Rightarrow> CoverageAssessment \<Rightarrow> FleetFreshnessOutcome" where
  "fleetFreshnessOutcome result assessment =
     (let valid = observedFleetScopes result;
          observed = (case valid of None \<Rightarrow> [] | Some m \<Rightarrow> m) in
      if as_Inconsistent assessment \<or> valid = None then FreshnessUnknown
      else if as_Stale assessment \<noteq> [] then
        (if list_ex (\<lambda>scope. case map_of observed scope of None \<Rightarrow> True | Some t \<Rightarrow> t = 0) (as_Stale assessment)
         then FreshnessUnknown else FreshnessStale)
      else if Requested (fr_Coverage result) = 0 then FreshnessEmpty
      else if \<not> as_Complete assessment then FreshnessUnknown
      else if list_ex (\<lambda>(k, t). t = 0) observed then FreshnessUnknown
      else FreshnessFresh)"

definition fleet_observation :: "FleetResult \<Rightarrow> FleetReadObservation" where
  "fleet_observation result =
     (let assessment = Assessment (fr_Coverage result) in
      \<lparr>fo_Outcome =
         (if \<not> as_Complete assessment \<or> int (length (fr_Clusters result)) \<noteq> Requested (fr_Coverage result)
          then ReadDegraded
          else if Requested (fr_Coverage result) = 0 then ReadEmpty
          else ReadComplete),
       fo_Freshness = fleetFreshnessOutcome result assessment\<rparr>)"

definition observeFleetRead :: "bool \<Rightarrow> FleetReadObservation \<Rightarrow> FleetReadObservation list" where
  "observeFleetRead observer observation =
     (if \<not> observer \<or> \<not> FleetReadObservation_Valid observation then [] else [observation])"

record fleet_source =
  so_reader :: "(Scope \<Rightarrow> int \<Rightarrow> Time \<Rightarrow> FleetResult option) option"
  so_scope :: Scope
  so_pep :: "Enforcer option"
  so_observer :: bool
  so_freshness :: int
  so_now :: Time

definition NewSource :: "fleet_source \<Rightarrow> (search_error, fleet_source) result" where
  "NewSource config =
     (if so_reader config = None \<or> sc_workspaceID (so_scope config) = [] \<or> so_pep config = None then Inl ServiceParts
      else case Authorize (so_scope config) ActionRead of
        Inl e \<Rightarrow> Inl (SearchScope e)
      | Inr _ \<Rightarrow>
          let freshness = (if so_freshness config = 0 then defaultSnapshotAge else so_freshness config) in
          if freshness < 1000000000 \<or> freshness > maxSnapshotAge then Inl ServiceFreshness
          else Inr (config\<lparr>so_freshness := freshness\<rparr>))"

definition Source_Fleet ::
  "(string \<Rightarrow> string) \<Rightarrow> fleet_source \<Rightarrow> search_env \<Rightarrow> pep_state
     \<Rightarrow> (search_error, FleetResult) result \<times> FleetReadObservation list \<times> pep_state" where
  "Source_Fleet sha source env st =
     (case so_reader source of
        None \<Rightarrow> (Inl ServiceParts, [], st)
      | Some reader \<Rightarrow>
          if so_pep source = None \<or> se_ctx env = None then (Inl ServiceParts, [], st)
          else case Ensure (se_mint env) (se_ctx env) of
            Inl e \<Rightarrow> (Inl (SearchTrace e), [], st)
          | Inr (ctx, _) \<Rightarrow>
              (case AuthorizeRead (so_pep source) (se_mint env) (se_elapsed env) (Some ctx) (so_scope source)
                      (NewReadInput sha VerbFleetRead []) st of
                 (Inl e, st') \<Rightarrow> (Inl (SearchPolicy e), [], st')
               | (Inr _, st') \<Rightarrow>
                   (case reader (so_scope source) (so_freshness source) (so_now source) of
                      None \<Rightarrow> (Inl SearchStore,
                        observeFleetRead (so_observer source) \<lparr>fo_Outcome = ReadError, fo_Freshness = FreshnessError\<rparr>, st')
                    | Some result \<Rightarrow>
                        (Inr result, observeFleetRead (so_observer source) (fleet_observation result), st'))))"

section \<open>Reads of the hub\<close>

datatype hub_read =
    ReadCorrelation CorrelationRequest
  | ReadImage ImageSearchRequest
  | ReadImageCVE ImageSearchRequest
  | ReadCVE CVEIdentifierSearchRequest
  | ReadInventory InventorySearchRequest

fun hub_read_run ::
  "unicode_case \<Rightarrow> (string \<Rightarrow> string) \<Rightarrow> search_service \<Rightarrow> search_env \<Rightarrow> Scope \<Rightarrow> hub_read \<Rightarrow> pep_state
     \<Rightarrow> (search_error, QueryResult) result \<times> issued \<times> pep_state" where
  "hub_read_run u sha sv env scope (ReadCorrelation r) st = Correlate u sha sv env scope r st"
| "hub_read_run u sha sv env scope (ReadImage r) st = ImageSearcher_Search sha sv env scope r st"
| "hub_read_run u sha sv env scope (ReadImageCVE r) st = CVESearcher_Search sha sv env scope r st"
| "hub_read_run u sha sv env scope (ReadCVE r) st = SearchByIdentifier u sha sv env scope r st"
| "hub_read_run u sha sv env scope (ReadInventory r) st = InventorySearcher_Search sha sv env scope r st"

fun read_verb :: "hub_read \<Rightarrow> PVerb" where
  "read_verb (ReadCorrelation r) = VerbFleetCorrelate"
| "read_verb (ReadImage r) = VerbFleetImageSearch"
| "read_verb (ReadImageCVE r) = VerbFleetCVESearch"
| "read_verb (ReadCVE r) = VerbFleetCVEIdentifierSearch"
| "read_verb (ReadInventory r) = VerbFleetInventorySearch"

fun read_valid :: "unicode_case \<Rightarrow> hub_read \<Rightarrow> bool" where
  "read_valid u (ReadCorrelation r) = CorrelationRequest_Validate u r"
| "read_valid u (ReadImage r) = ImageSearchRequest_validate r"
| "read_valid u (ReadImageCVE r) = ImageSearchRequest_validate r"
| "read_valid u (ReadCVE r) = CVEIdentifierSearchRequest_validate u r"
| "read_valid u (ReadInventory r) = InventorySearchRequest_Validate r"

fun read_arguments :: "hub_read \<Rightarrow> string" where
  "read_arguments (ReadCorrelation r) = correlation_arguments r"
| "read_arguments (ReadImage r) = image_arguments r"
| "read_arguments (ReadImageCVE r) = image_arguments r"
| "read_arguments (ReadCVE r) = cve_arguments r"
| "read_arguments (ReadInventory r) = inventory_arguments r"

fun read_query :: "hub_read \<Rightarrow> FleetQuery" where
  "read_query (ReadCorrelation r) = correlation_query r"
| "read_query (ReadImage r) = image_query FactInventory ''Pod'' r"
| "read_query (ReadImageCVE r) = image_query FactCVE ''Image'' r"
| "read_query (ReadCVE r) = cve_query r"
| "read_query (ReadInventory r) = inventory_query r"

lemma authorize_and_query_issued:
  assumes "authorize_and_query sha sv env ctx scope verb args query st = (r, qs, st')" "qs \<noteq> []"
  shows "fst (AuthorizeRead (sv_pep sv) (se_mint env) (se_elapsed env) ctx scope (NewReadInput sha verb args) st) = Inr ()"
    "qs = [(scope, query, sv_freshness sv, sv_now sv)]"
  using assms by (auto simp: authorize_and_query_def query_fleet_def split: prod.splits sum.splits option.splits)

lemma traced_search_issued:
  assumes "traced_search sha sv env scope valid verb args query st = (r, qs, st')" "qs \<noteq> []"
  obtains ctx where "valid" "Role_Allows (sc_role scope) ActionRead"
    "fst (AuthorizeRead (sv_pep sv) (se_mint env) (se_elapsed env) ctx scope (NewReadInput sha verb args) st) = Inr ()"
    "qs = [(scope, query, sv_freshness sv, sv_now sv)]"
proof -
  obtain ctx i where "valid" "Authorize scope ActionRead = Inr ()"
    "authorize_and_query sha sv env (Some ctx) scope verb args query st = (r, qs, st')"
    using assms by (auto simp: traced_search_def split: if_splits sum.splits prod.splits)
  with authorize_and_query_issued [OF this(3) assms(2)] that show ?thesis
    by (auto simp: Authorize_def split: if_splits)
qed

lemma Correlate_issued:
  assumes "Correlate u sha sv env scope request st = (r, qs, st')" "qs \<noteq> []"
  obtains ctx where "CorrelationRequest_Validate u request" "Role_Allows (sc_role scope) ActionRead"
    "fst (AuthorizeRead (sv_pep sv) (se_mint env) (se_elapsed env) ctx scope
       (NewReadInput sha VerbFleetCorrelate (correlation_arguments request)) st) = Inr ()"
    "qs = [(scope, correlation_query request, sv_freshness sv, sv_now sv)]"
proof -
  have "CorrelationRequest_Validate u request" "Authorize scope ActionRead = Inr ()"
    "authorize_and_query sha sv env (se_ctx env) scope VerbFleetCorrelate
       (correlation_arguments request) (correlation_query request) st = (r, qs, st')"
    using assms by (auto simp: Correlate_def split: if_splits sum.splits)
  with authorize_and_query_issued [OF this(3) assms(2)] that show ?thesis
    by (auto simp: Authorize_def split: if_splits)
qed

lemma hub_read_issued:
  assumes "hub_read_run u sha sv env scope rd st = (r, qs, st')" "qs \<noteq> []"
  obtains ctx where "read_valid u rd" "Role_Allows (sc_role scope) ActionRead"
    "fst (AuthorizeRead (sv_pep sv) (se_mint env) (se_elapsed env) ctx scope
       (NewReadInput sha (read_verb rd) (read_arguments rd)) st) = Inr ()"
    "qs = [(scope, read_query rd, sv_freshness sv, sv_now sv)]"
proof (cases rd)
  case (ReadCorrelation x)
  then show ?thesis using assms that by (auto elim!: Correlate_issued)
next
  case (ReadImage x)
  then show ?thesis using assms that by (auto simp: ImageSearcher_Search_def elim!: traced_search_issued)
next
  case (ReadImageCVE x)
  then show ?thesis using assms that by (auto simp: CVESearcher_Search_def elim!: traced_search_issued)
next
  case (ReadCVE x)
  then show ?thesis using assms that by (auto simp: SearchByIdentifier_def elim!: traced_search_issued)
next
  case (ReadInventory x)
  then show ?thesis using assms that by (auto simp: InventorySearcher_Search_def elim!: traced_search_issued)
qed

subsection \<open>The canonical arguments determine the request\<close>

lemma int_decimal_no_NUL: "NUL \<notin> set (int_decimal i)"
proof -
  have "\<not> is_digit NUL" by code_simp
  then show ?thesis using nat_decimal_no_char by (auto simp: int_decimal_def)
qed

lemma NUL_suffix_inj:
  assumes "x @ [NUL] @ int_decimal i = y @ [NUL] @ int_decimal j"
  shows "x = y \<and> i = j"
proof -
  have "rev (int_decimal i) @ NUL # rev x = rev (int_decimal j) @ NUL # rev y"
    using arg_cong [OF assms, of rev] by simp
  then have "rev (int_decimal i) = rev (int_decimal j) \<and> rev x = rev y"
    by (rule split_at_sep) (simp_all add: int_decimal_no_NUL)
  then show ?thesis by (simp add: int_decimal_inj)
qed

lemma validateText_no_NUL: "is_ok (validateText name v n b) \<Longrightarrow> NUL \<notin> set v"
  by (auto simp: validateText_def dest: no_control_no_NUL split: if_splits)

lemma health_no_NUL:
  "is_ok (FleetQuery_Validate \<lparr>fq_Kinds = [FactHealth], fq_Scopes = [],
     fq_Selector = zero_selector\<lparr>sl_HealthNot := h\<rparr>, fq_Limit = 0\<rparr>) \<Longrightarrow> h = [] \<or> validHealth h"
  by (auto simp: FleetQuery_Validate_def zero_selector_def Let_def split: if_splits option.splits)

lemma validHealth_no_NUL: "h = [] \<or> validHealth h \<Longrightarrow> NUL \<notin> set h"
  by (auto simp: validHealth_def)

lemma correlation_arguments_inj:
  assumes "CorrelationRequest_Validate u r" "CorrelationRequest_Validate u r'"
    and "correlation_arguments r = correlation_arguments r'"
  shows "r = r'"
proof -
  have ok: "NUL \<notin> set (cr_ResourceKind x) \<and> NUL \<notin> set (cr_Name x) \<and> NUL \<notin> set (cr_Namespace x) \<and> NUL \<notin> set (cr_HealthNot x)"
    if "CorrelationRequest_Validate u x" for x
    using that validHealth_no_NUL [OF health_no_NUL] unfolding CorrelationRequest_Validate_def
    by (auto dest: validateText_no_NUL)
  have "[cr_ResourceKind r, cr_Name r, cr_Namespace r, cr_HealthNot r, int_decimal (cr_Limit r)] =
      [cr_ResourceKind r', cr_Name r', cr_Namespace r', cr_HealthNot r', int_decimal (cr_Limit r')]"
    by (rule join_inj [OF assms(3) [unfolded correlation_arguments_def]])
      (simp_all add: ok [OF assms(1)] ok [OF assms(2)] int_decimal_no_NUL)
  then show ?thesis by (simp add: int_decimal_inj)
qed

lemma inventory_arguments_inj:
  assumes "InventorySearchRequest_Validate r" "InventorySearchRequest_Validate r'"
    and "inventory_arguments r = inventory_arguments r'"
  shows "r = r'"
proof -
  have ok: "NUL \<notin> set (nr_ResourceKind x) \<and> NUL \<notin> set (nr_Name x) \<and> NUL \<notin> set (nr_Namespace x)"
    if "InventorySearchRequest_Validate x" for x
    using that unfolding InventorySearchRequest_Validate_def by (auto dest: validateText_no_NUL)
  have "[nr_ResourceKind r, nr_Namespace r, nr_Name r, int_decimal (nr_Limit r)] =
      [nr_ResourceKind r', nr_Namespace r', nr_Name r', int_decimal (nr_Limit r')]"
    by (rule join_inj [OF assms(3) [unfolded inventory_arguments_def]])
      (simp_all add: ok [OF assms(1)] ok [OF assms(2)] int_decimal_no_NUL)
  then show ?thesis by (simp add: int_decimal_inj)
qed

lemma read_arguments_inj:
  assumes "read_valid u rd" "read_valid u rd'" "read_verb rd = read_verb rd'" "read_arguments rd = read_arguments rd'"
  shows "rd = rd'"
proof (cases rd; cases rd')
  fix r r' assume "rd = ReadCorrelation r" "rd' = ReadCorrelation r'"
  then show ?thesis using assms correlation_arguments_inj by auto
next
  fix r r' assume "rd = ReadInventory r" "rd' = ReadInventory r'"
  then show ?thesis using assms inventory_arguments_inj by auto
next
  fix r r' assume rd: "rd = ReadImage r" "rd' = ReadImage r'"
  then show ?thesis using assms NUL_suffix_inj by (auto simp: image_arguments_def intro: ImageSearchRequest.equality)
next
  fix r r' assume rd: "rd = ReadImageCVE r" "rd' = ReadImageCVE r'"
  then show ?thesis using assms NUL_suffix_inj by (auto simp: image_arguments_def intro: ImageSearchRequest.equality)
next
  fix r r' assume rd: "rd = ReadCVE r" "rd' = ReadCVE r'"
  then show ?thesis using assms NUL_suffix_inj by (auto simp: cve_arguments_def intro: CVEIdentifierSearchRequest.equality)
qed (use assms(3) in auto)

lemma ascii_kinds:
  "is_ascii ''Pod''" "is_ascii ''Image''" "is_ascii ''Deployment''" "is_ascii ''Rollout''" "is_ascii ''secret''"
  by code_simp+

lemma read_query_valid:
  assumes "read_valid u rd"
  shows "is_ok (FleetQuery_Validate (read_query rd)) \<and> fq_Limit (read_query rd) \<le> 1000 \<and>
    \<not> equal_fold u (sl_ResourceKind (fq_Selector (read_query rd))) ''secret''"
proof (cases rd)
  case (ReadCorrelation r)
  then show ?thesis using assms
    by (auto simp: CorrelationRequest_Validate_def correlation_query_def FleetQuery_Validate_def zero_selector_def
        limit_ok_def FactKind_Valid_def Let_def split: if_splits option.splits)
qed (use assms in \<open>auto simp: ImageSearchRequest_validate_def CVEIdentifierSearchRequest_validate_def
        InventorySearchRequest_Validate_def image_query_def cve_query_def inventory_query_def FleetQuery_Validate_def
        zero_selector_def limit_ok_def FactKind_Valid_def Let_def equal_fold_def ascii_kinds split: if_splits option.splits\<close>)

text \<open>
  C21: Every read of the hub is bound to the decision that allowed it.  When a correlation or a
  search sends a query to the stored fleet, the caller's role allows reads, the request passed its
  validation, and the policy enforcement point allowed exactly this verb with the digest of exactly
  these arguments; the one query sent is the request's own, in the caller's scope, well formed, with
  a limit of at most 1000 and never for Secrets.  The digest identifies the request: a valid request
  with the same policy input is the same request, unless it is a collision of SHA-256.
\<close>

theorem hub_reads_bound:
  assumes "hub_read_run u sha sv env scope rd st = (r, qs, st')" "qs \<noteq> []"
  shows "read_valid u rd \<and> Role_Allows (sc_role scope) ActionRead \<and>
    (\<exists>ctx. fst (AuthorizeRead (sv_pep sv) (se_mint env) (se_elapsed env) ctx scope
        (NewReadInput sha (read_verb rd) (read_arguments rd)) st) = Inr ()) \<and>
    qs = [(scope, read_query rd, sv_freshness sv, sv_now sv)] \<and>
    FleetQuery_Validate (read_query rd) = Inr () \<and> fq_Limit (read_query rd) \<le> 1000 \<and>
    \<not> equal_fold u (sl_ResourceKind (fq_Selector (read_query rd))) ''secret'' \<and>
    (\<forall>rd'. read_valid u rd' \<and>
        NewReadInput sha (read_verb rd') (read_arguments rd') = NewReadInput sha (read_verb rd) (read_arguments rd) \<longrightarrow>
      rd' = rd \<or> read_arguments rd' \<noteq> read_arguments rd \<and> sha (read_arguments rd') = sha (read_arguments rd))"
proof -
  from assms obtain ctx where ok: "read_valid u rd" "Role_Allows (sc_role scope) ActionRead"
    "fst (AuthorizeRead (sv_pep sv) (se_mint env) (se_elapsed env) ctx scope
       (NewReadInput sha (read_verb rd) (read_arguments rd)) st) = Inr ()"
    "qs = [(scope, read_query rd, sv_freshness sv, sv_now sv)]" by (rule hub_read_issued)
  have "rd' = rd \<or> read_arguments rd' \<noteq> read_arguments rd \<and> sha (read_arguments rd') = sha (read_arguments rd)"
    if "read_valid u rd'"
      "NewReadInput sha (read_verb rd') (read_arguments rd') = NewReadInput sha (read_verb rd) (read_arguments rd)" for rd'
  proof -
    have "read_verb rd' = read_verb rd" "sha (read_arguments rd') = sha (read_arguments rd)"
      using that(2) by (simp_all add: NewReadInput_def hex_encode_inj)
    then show ?thesis using read_arguments_inj [OF that(1) ok(1)] by blast
  qed
  then show ?thesis using ok read_query_valid [OF ok(1)] by (auto simp: is_ok_iff)
qed

text \<open>
  The condition of a correlation may be empty: validation, whose error text asks for one supported
  health status, lets the empty condition pass, and every health fact of the resource answers.
\<close>

lemma correlation_empty_condition:
  "CorrelationRequest_Validate ascii_case
     \<lparr>cr_ResourceKind = ''Pod'', cr_Name = ''web'', cr_Namespace = [], cr_HealthNot = [], cr_Limit = 0\<rparr>"
  by code_simp

subsection \<open>Observations of fleet reads\<close>

text \<open>
  Only a complete read can have an observation that \<open>Valid\<close> rejects: degraded, empty and failed reads
  always carry a matching freshness.
\<close>

lemma complete_assessment:
  "as_Complete (Assessment c) \<Longrightarrow> \<not> as_Inconsistent (Assessment c) \<and> as_Stale (Assessment c) = []"
  by (auto simp: Assessment_fields(5) assessment_gaps_def split: if_splits)

lemma empty_request_complete:
  assumes "\<not> as_Inconsistent (Assessment c)" "Requested c = 0"
  shows "as_Complete (Assessment c)"
proof -
  have "\<not> int (length (Stale c)) > Requested c" "\<not> int (length (Truncated c)) > Reachable c"
    "\<not> int (length (Unreachable c)) > Requested c - Reachable c" "\<not> Reachable c < 0" "\<not> Reachable c > Requested c"
    using assms(1) unfolding Assessment_Inconsistent by blast+
  then have len: "Reachable c = 0" "length (Stale c) = 0" "length (Truncated c) = 0" "length (Unreachable c) = 0"
    using assms(2) by linarith+
  then have "as_Unaccounted (Assessment c) = 0" using Assessment_Unaccounted [of c] assms by simp
  then show ?thesis using assms(1) len
    by (simp add: Assessment_fields assessment_gaps_def)
qed

lemma fleet_observation_valid:
  "FleetReadObservation_Valid (fleet_observation result) \<longleftrightarrow>
     fo_Outcome (fleet_observation result) \<noteq> ReadComplete \<or> fo_Freshness (fleet_observation result) = FreshnessFresh"
proof -
  let ?c = "fr_Coverage result" and ?a = "Assessment (fr_Coverage result)"
  have degraded: "fleetFreshnessOutcome result ?a \<in> {FreshnessStale, FreshnessUnknown}"
    if "\<not> as_Complete ?a \<or> int (length (fr_Clusters result)) \<noteq> Requested ?c"
    using that empty_request_complete [of ?c]
    by (auto simp: fleetFreshnessOutcome_def observedFleetScopes_def Let_def split: if_splits)
  have empty: "fleetFreshnessOutcome result ?a = FreshnessEmpty"
    if "as_Complete ?a" "int (length (fr_Clusters result)) = Requested ?c" "Requested ?c = 0"
    using that complete_assessment [of ?c]
    by (auto simp: fleetFreshnessOutcome_def observedFleetScopes_def Let_def)
  show ?thesis
    using degraded empty by (auto simp: FleetReadObservation_Valid_def fleet_observation_def Let_def)
qed

text \<open>
  The converse case exists: a complete read of a cluster that was never observed is given to no
  observer, although an observer is documented to receive one result for an authorised read.
\<close>

lemma complete_read_unobserved:
  "observeFleetRead True (fleet_observation
     \<lparr>fr_Clusters = [\<lparr>cl_Name = ''east'', cl_Context = [], cl_SourceKind = ''ocm-spoke'', cl_Reachable = True, cl_ObservedAt = 0\<rparr>],
      fr_Coverage = \<lparr>Requested = 1, Reachable = 1, Unreachable = [], Stale = [], Truncated = []\<rparr>\<rparr>) = []"
  by code_simp

subsection \<open>A correlation\<close>

definition sample_service :: search_service where
  "sample_service = \<lparr>sv_querier = Some (\<lambda>scope q f now. Some \<lparr>qr_Facts = [], qr_Coverage = zero_coverage\<rparr>),
     sv_pep = Some sample_enforcer, sv_freshness = defaultSnapshotAge, sv_now = 1000\<rparr>"

definition sample_env :: search_env where
  "sample_env = \<lparr>se_mint = sample_mint, se_elapsed = (5, 7), se_ctx = Some None\<rparr>"

definition sample_read :: hub_read where
  "sample_read = ReadCorrelation
     \<lparr>cr_ResourceKind = ''Pod'', cr_Name = ''web'', cr_Namespace = ''shop'', cr_HealthNot = ''Healthy'', cr_Limit = 12\<rparr>"

theorem hub_reads_bound_witness:
  "\<exists>r qs st'. hub_read_run ascii_case sample_sha sample_service sample_env (sample_scope RoleReader) sample_read
       sample_pep_state = (r, qs, st') \<and> map fst qs = [sample_scope RoleReader] \<and>
     Role_Allows RoleReader ActionRead \<and> FleetQuery_Validate (read_query sample_read) = Inr ()"
proof -
  let ?run = "hub_read_run ascii_case sample_sha sample_service sample_env (sample_scope RoleReader) sample_read sample_pep_state"
  obtain r qs st' where run: "?run = (r, qs, st')" by (metis prod_cases3)
  have "fst (snd ?run) \<noteq> []" by code_simp
  then have "qs \<noteq> []" using run by simp
  from hub_reads_bound [OF run this] run show ?thesis by (auto simp: sample_scope_def)
qed

end
