(* ===== verification/Hub_Fleet.thy ===== *)
theory Hub_Fleet
  imports Hub_Collector Hub_Search Hub_Ledger "HOL-Library.Product_Lexorder"
begin

text \<open>
  The fleet tables of the hub (\<open>hubdb/fleet.go\<close>): registered clusters with the state of their last
  collection, and the facts of their last snapshot.  Every method is one transaction over the rows
  its statements read and write.  Values that pass through \<open>jsonb\<close> columns come back as the functions
  of \<open>jsonb_api\<close> say, which also answer the JSON operators used in the conditions; timestamps keep
  microseconds.  Rows are ordered by the bytes of their text columns.  The check constraints of the
  migrations on fact rows and on failure marks are not modelled; the rows written have passed the validation
  of snapshots and failures.
\<close>

section \<open>Tables\<close>

record cluster_row =
  cw_workspace :: string
  cw_id :: string
  cw_ref :: string
  cw_labels :: "(string, string) gomap option"
  cw_lastSeen :: "Time option"
  cw_attemptedAt :: "Time option"
  cw_errorKind :: "string option"

record fact_row =
  fw_workspace :: string
  fw_id :: nat
  fw_cluster :: string
  fw_fact :: Evidence

record fleet_db =
  fd_clusters :: "cluster_row list"
  fd_facts :: "fact_row list"
  fd_nextID :: nat

datatype fleet_error =
    WorkspaceScope
  | ReadForbidden tenancy_error
  | LabelsInvalid
  | SpokeInvalid snapshot_error
  | AttemptTime
  | SnapshotRefused snapshot_error
  | FailureInvalid
  | SpokeNotRegistered
  | EncodeFailed
  | FreshnessInvalid
  | QueryInvalid query_error
  | QueryUnsupported
  | QueryLimit
  | ScopesInvalid
  | StoredFactMismatch
  | StoredFactUnregistered

text \<open>
  The database's view of JSON: what a marshalled value reads back as (\<open>None\<close> when it is refused on
  the way in), and the operators on a payload.
\<close>

record jsonb_api =
  jb_payload :: "string \<Rightarrow> string option"
  jb_ref :: "ResourceRef \<Rightarrow> ResourceRef option"
  jb_provenance :: "Provenance \<Rightarrow> Provenance option"
  jb_display :: "DisplayField list \<Rightarrow> DisplayField list option"
  jb_hasStatus :: "string \<Rightarrow> bool"
  jb_status :: "string \<Rightarrow> string option"
  jb_hasDigest :: "string \<Rightarrow> string \<Rightarrow> bool"
  jb_image :: "string \<Rightarrow> string option"
  jb_hasID :: "string \<Rightarrow> string \<Rightarrow> bool"

definition requireReadScope :: "Scope \<Rightarrow> (fleet_error, unit) result" where
  "requireReadScope scope =
     (if sc_workspaceID scope = [] \<or> \<not> is_ok (ValidateWorkspaceID (sc_workspaceID scope)) then Inl WorkspaceScope
      else case Authorize scope ActionRead of Inl e \<Rightarrow> Inl (ReadForbidden e) | Inr _ \<Rightarrow> Inr ())"

text \<open>One transaction: the scope is checked again, and an error rolls everything back.\<close>

definition fleet_tx ::
  "Scope \<Rightarrow> (fleet_db \<Rightarrow> (fleet_error, 'a \<times> fleet_db) result) \<Rightarrow> fleet_db \<Rightarrow> (fleet_error, 'a) result \<times> fleet_db" where
  "fleet_tx scope run db =
     (if sc_subject scope = [] \<or> \<not> Role_Valid (sc_role scope) \<or> \<not> is_ok (RequireWorkspace scope (sc_workspaceID scope))
      then (Inl WorkspaceScope, db)
      else case run db of Inl e \<Rightarrow> (Inl e, db) | Inr (x, db') \<Rightarrow> (Inr x, db'))"

section \<open>Registered spokes\<close>

definition scan_spoke :: "cluster_row \<Rightarrow> (fleet_error, Spoke) result" where
  "scan_spoke row =
     (case cw_labels row of
        None \<Rightarrow> Inl LabelsInvalid
      | Some labels \<Rightarrow>
          (let spoke = \<lparr>sp_ID = cw_id row, sp_ManagedClusterRef = cw_ref row, sp_Labels = labels\<rparr> in
           case Spoke_Validate spoke of Inl e \<Rightarrow> Inl (SpokeInvalid e) | Inr _ \<Rightarrow> Inr spoke))"

definition RegisteredSpokes :: "Scope \<Rightarrow> fleet_db \<Rightarrow> (fleet_error, Spoke list) result" where
  "RegisteredSpokes scope db =
     rbind (requireReadScope scope) (\<lambda>_.
       fst (fleet_tx scope (\<lambda>db.
         rbind (rmap scan_spoke (sort_key cw_id (filter (\<lambda>r. cw_workspace r = sc_workspaceID scope) (fd_clusters db))))
           (\<lambda>spokes. Inr (spokes, db))) db))"

section \<open>Writing a snapshot\<close>

definition validateCollectionInput ::
  "unicode_case \<Rightarrow> payload_api \<Rightarrow> Spoke \<Rightarrow> SpokeSnapshot \<Rightarrow> Time \<Rightarrow> (fleet_error, unit) result" where
  "validateCollectionInput u api spoke snapshot attemptedAt =
     (if attemptedAt = 0 then Inl AttemptTime
      else case ValidateSnapshot u api spoke snapshot attemptedAt of Inl e \<Rightarrow> Inl (SnapshotRefused e) | Inr _ \<Rightarrow> Inr ())"

text \<open>The row a statement of the collector addresses: workspace, identifier and cluster reference.\<close>

definition addressed :: "Scope \<Rightarrow> Spoke \<Rightarrow> cluster_row \<Rightarrow> bool" where
  "addressed scope spoke row \<longleftrightarrow>
     cw_workspace row = sc_workspaceID scope \<and> cw_id row = sp_ID spoke \<and> cw_ref row = sp_ManagedClusterRef spoke"

definition update_rows :: "(cluster_row \<Rightarrow> bool) \<Rightarrow> (cluster_row \<Rightarrow> cluster_row) \<Rightarrow> cluster_row list \<Rightarrow> cluster_row list" where
  "update_rows P f rows = map (\<lambda>r. if P r then f r else r) rows"

text \<open>A fact as its row reads back.\<close>

definition stored_fact :: "jsonb_api \<Rightarrow> Evidence \<Rightarrow> Evidence option" where
  "stored_fact jb e =
     (case (jb_ref jb (Ref e), jb_provenance jb (FProvenance e), jb_display jb (Display e), jb_payload jb (Observed e)) of
        (Some ref, Some prov, Some display, Some payload) \<Rightarrow>
          Some (e\<lparr>Ref := ref, FProvenance := prov, Display := display, Observed := payload, ObservedAt := truncate_us (ObservedAt e)\<rparr>)
      | _ \<Rightarrow> None)"

fun insert_facts :: "jsonb_api \<Rightarrow> Scope \<Rightarrow> Spoke \<Rightarrow> Evidence list \<Rightarrow> fleet_db \<Rightarrow> (fleet_error, fleet_db) result" where
  "insert_facts jb scope spoke [] db = Inr db"
| "insert_facts jb scope spoke (e # es) db =
     (case stored_fact jb e of
        None \<Rightarrow> Inl EncodeFailed
      | Some stored \<Rightarrow>
          insert_facts jb scope spoke es
            (db\<lparr>fd_facts := fd_facts db @ [\<lparr>fw_workspace = sc_workspaceID scope, fw_id = fd_nextID db,
                  fw_cluster = sp_ID spoke, fw_fact = stored\<rparr>],
                fd_nextID := fd_nextID db + 1\<rparr>))"

definition replace_snapshot_tx ::
  "jsonb_api \<Rightarrow> Scope \<Rightarrow> Spoke \<Rightarrow> SpokeSnapshot \<Rightarrow> Time \<Rightarrow> fleet_db \<Rightarrow> (fleet_error, unit \<times> fleet_db) result" where
  "replace_snapshot_tx jb scope spoke snapshot attemptedAt db =
     (if length (filter (addressed scope spoke) (fd_clusters db)) \<noteq> 1 then Inl SpokeNotRegistered
      else
        rbind (insert_facts jb scope spoke (ss_Facts snapshot)
          (db\<lparr>fd_clusters := update_rows (addressed scope spoke)
                (\<lambda>r. r\<lparr>cw_lastSeen := Some (truncate_us (ss_ObservedAt snapshot)),
                       cw_attemptedAt := Some (truncate_us attemptedAt), cw_errorKind := None\<rparr>) (fd_clusters db),
              fd_facts := filter (\<lambda>f. \<not> (fw_workspace f = sc_workspaceID scope \<and> fw_cluster f = sp_ID spoke)) (fd_facts db)\<rparr>))
          (\<lambda>db'. Inr ((), db')))"

definition ReplaceSnapshot ::
  "unicode_case \<Rightarrow> payload_api \<Rightarrow> jsonb_api \<Rightarrow> Scope \<Rightarrow> Spoke \<Rightarrow> SpokeSnapshot \<Rightarrow> Time \<Rightarrow> fleet_db
     \<Rightarrow> (fleet_error, unit) result \<times> fleet_db" where
  "ReplaceSnapshot u api jb scope spoke snapshot attemptedAt db =
     (case requireReadScope scope of
        Inl e \<Rightarrow> (Inl e, db)
      | Inr _ \<Rightarrow>
          (case validateCollectionInput u api spoke snapshot attemptedAt of
             Inl e \<Rightarrow> (Inl e, db)
           | Inr _ \<Rightarrow> fleet_tx scope (replace_snapshot_tx jb scope spoke snapshot attemptedAt) db))"

definition validFailureKind :: "FailureKind \<Rightarrow> bool" where
  "validFailureKind failure \<longleftrightarrow> failure \<in> {FailureTransport, FailureDeadline, FailureInvalidSnapshot}"

text \<open>The update returns the row's \<open>last_seen\<close>; the primary key lets it address one row at most.\<close>

definition mark_failure_tx ::
  "Scope \<Rightarrow> Spoke \<Rightarrow> FailureKind \<Rightarrow> Time \<Rightarrow> fleet_db \<Rightarrow> (fleet_error, bool \<times> fleet_db) result" where
  "mark_failure_tx scope spoke failure attemptedAt db =
     (case filter (addressed scope spoke) (fd_clusters db) of
        [] \<Rightarrow> Inl SpokeNotRegistered
      | row # _ \<Rightarrow>
          Inr (cw_lastSeen row \<noteq> None,
            db\<lparr>fd_clusters := update_rows (addressed scope spoke)
                 (\<lambda>r. r\<lparr>cw_attemptedAt := Some (truncate_us attemptedAt), cw_errorKind := Some failure\<rparr>) (fd_clusters db)\<rparr>))"

definition MarkSnapshotFailure ::
  "Scope \<Rightarrow> Spoke \<Rightarrow> FailureKind \<Rightarrow> Time \<Rightarrow> fleet_db \<Rightarrow> (fleet_error, bool) result \<times> fleet_db" where
  "MarkSnapshotFailure scope spoke failure attemptedAt db =
     (case requireReadScope scope of
        Inl e \<Rightarrow> (Inl e, db)
      | Inr _ \<Rightarrow>
          if \<not> is_ok (Spoke_Validate spoke) \<or> \<not> validFailureKind failure \<or> attemptedAt = 0 then (Inl FailureInvalid, db)
          else fleet_tx scope (mark_failure_tx scope spoke failure attemptedAt) db)"

section \<open>Reading\<close>

record clusterState =
  ct_id :: string
  ct_managedClusterRef :: string
  ct_lastSeen :: "Time option"
  ct_lastErrorKind :: string

definition row_state :: "cluster_row \<Rightarrow> clusterState" where
  "row_state r = \<lparr>ct_id = cw_id r, ct_managedClusterRef = cw_ref r, ct_lastSeen = cw_lastSeen r,
     ct_lastErrorKind = (case cw_errorKind r of None \<Rightarrow> [] | Some k \<Rightarrow> k)\<rparr>"

definition readClusterStates :: "string \<Rightarrow> string list \<Rightarrow> fleet_db \<Rightarrow> (string, clusterState) gomap \<times> string list" where
  "readClusterStates workspaceID requestedScopes db =
     (let rows = sort_key cw_id (filter (\<lambda>r. cw_workspace r = workspaceID \<and>
            (requestedScopes = [] \<or> List.member requestedScopes (cw_id r))) (fd_clusters db));
          states = fold (\<lambda>r m. gm_put (cw_id r) (row_state r) m) rows [] in
      (states, if requestedScopes = [] then map cw_id rows else requestedScopes))"

definition staleState :: "clusterState \<Rightarrow> int \<Rightarrow> Time \<Rightarrow> bool \<times> string" where
  "staleState state freshness now =
     (case ct_lastSeen state of
        None \<Rightarrow> (False, [])
      | Some seen \<Rightarrow>
          if ct_lastErrorKind state \<noteq> [] then (True, ''collection failed'')
          else if now - seen > freshness then (True, seconds_string (round_second (now - seen)))
          else (False, []))"

definition coverage_step ::
  "(string, clusterState) gomap \<Rightarrow> int \<Rightarrow> Time \<Rightarrow> string \<Rightarrow> Coverage \<Rightarrow> Coverage" where
  "coverage_step states freshness now i c =
     (let c = (case map_of states i of
                 None \<Rightarrow> c\<lparr>Unreachable := Unreachable c @ [i]\<rparr>
               | Some state \<Rightarrow>
                   if ct_lastSeen state = None \<or> ct_lastErrorKind state \<noteq> []
                   then c\<lparr>Unreachable := Unreachable c @ [i]\<rparr> else c)
      in case map_of states i of
           None \<Rightarrow> c
         | Some state \<Rightarrow>
             if ct_lastSeen state = None then c
             else let c = (if ct_lastErrorKind state = [] then c\<lparr>Reachable := Reachable c + 1\<rparr> else c)
               in if fst (staleState state freshness now) then c\<lparr>Stale := Stale c @ [i]\<rparr> else c)"

definition coverageFor :: "(string, clusterState) gomap \<Rightarrow> string list \<Rightarrow> int \<Rightarrow> Time \<Rightarrow> Coverage" where
  "coverageFor states requested freshness now =
     (let c = fold (coverage_step states freshness now) requested (zero_coverage\<lparr>Requested := int (length requested)\<rparr>)
      in c\<lparr>Unreachable := sort (Unreachable c), Stale := sort (Stale c)\<rparr>)"

definition maxFleetFreshness :: int where "maxFleetFreshness = 3600 * 1000000000"

definition validateFreshness :: "int \<Rightarrow> Time \<Rightarrow> (fleet_error, unit) result" where
  "validateFreshness freshness now =
     (if now = 0 \<or> freshness < 1000000000 \<or> freshness > maxFleetFreshness then Inl FreshnessInvalid else Inr ())"

definition ReadFleet :: "Scope \<Rightarrow> int \<Rightarrow> Time \<Rightarrow> fleet_db \<Rightarrow> (fleet_error, FleetResult) result" where
  "ReadFleet scope freshness now db =
     rbind (requireReadScope scope) (\<lambda>_.
     rbind (validateFreshness freshness now) (\<lambda>_.
     rbind (fst (fleet_tx scope (\<lambda>db. Inr (readClusterStates (sc_workspaceID scope) [] db, db)) db)) (\<lambda>(states, requested).
       Inr \<lparr>fr_Clusters = List.map_filter (\<lambda>i. case map_of states i of
              None \<Rightarrow> None
            | Some state \<Rightarrow> Some \<lparr>cl_Name = ct_id state, cl_Context = ct_managedClusterRef state,
                cl_SourceKind = OCMSourceKind,
                cl_Reachable = (ct_lastSeen state \<noteq> None \<and> ct_lastErrorKind state = []),
                cl_ObservedAt = (case ct_lastSeen state of None \<Rightarrow> 0 | Some t \<Rightarrow> t)\<rparr>) requested,
            fr_Coverage = coverageFor states requested freshness now\<rparr>)))"

section \<open>Querying facts\<close>

definition validateScopeSelector :: "string \<Rightarrow> bool" where
  "validateScopeSelector scope \<longleftrightarrow>
     \<not> (scope = [] \<or> trim_space scope \<noteq> scope \<or> length scope > 256) \<and>
     \<not> list_ex (\<lambda>(r, w). r < 32 \<or> r = 127) (range_runes scope)"

fun dedupe_scopes :: "string list \<Rightarrow> string list \<Rightarrow> string list option" where
  "dedupe_scopes requested [] = Some requested"
| "dedupe_scopes requested (s # ss) =
     (if \<not> validateScopeSelector s then None
      else dedupe_scopes (if List.member requested s then requested else requested @ [s]) ss)"

definition normalizeRequestedScopes :: "string list \<Rightarrow> (fleet_error, string list) result" where
  "normalizeRequestedScopes scopes =
     (if length scopes > 256 then Inl ScopesInvalid
      else case dedupe_scopes [] scopes of None \<Rightarrow> Inl ScopesInvalid | Some requested \<Rightarrow> Inr (sort requested))"

definition maxFleetFactLimit :: int where "maxFleetFactLimit = 1000"
definition defaultFleetFactLimit :: int where "defaultFleetFactLimit = 500"

text \<open>The selector rules: a vulnerability, an image, or a health condition fixes the kind of fact.\<close>

definition selector_supported :: "unicode_case \<Rightarrow> FleetQuery \<Rightarrow> bool" where
  "selector_supported u q =
     (let s = fq_Selector q; kinds = fq_Kinds q in
      if sl_CVE s \<noteq> [] then
        NormalizeCVEIdentifier u (sl_CVE s) = Inr (sl_CVE s) \<and>
        kinds = [FactCVE] \<and> sl_ResourceKind s = ''Image'' \<and> sl_Image s = [] \<and> sl_Namespace s = [] \<and>
        sl_Name s = [] \<and> sl_NamePrefix s = [] \<and> sl_Health s = [] \<and> sl_HealthNot s = []
      else if sl_Image s \<noteq> [] then
        is_ok (ValidateImageDigest (sl_Image s)) \<and>
        length kinds = 1 \<and> sl_Namespace s = [] \<and> sl_Name s = [] \<and> sl_NamePrefix s = [] \<and>
        sl_Health s = [] \<and> sl_HealthNot s = [] \<and>
        (if hd kinds = FactInventory then sl_ResourceKind s = ''Pod''
         else if hd kinds = FactCVE then sl_ResourceKind s = ''Image''
         else False)
      else (sl_Health s \<noteq> [] \<or> sl_HealthNot s \<noteq> []) \<longrightarrow> kinds = [FactHealth])"

definition normalizeFleetQuery :: "unicode_case \<Rightarrow> FleetQuery \<Rightarrow> (fleet_error, FleetQuery) result" where
  "normalizeFleetQuery u q =
     (case FleetQuery_Validate q of
        Inl e \<Rightarrow> Inl (QueryInvalid e)
      | Inr _ \<Rightarrow>
          if \<not> list_all (\<lambda>k. k = FactInventory \<or> k = FactHealth \<or> k = FactCVE) (fq_Kinds q) then Inl QueryUnsupported
          else if sl_Labels (fq_Selector q) \<noteq> [] then Inl QueryUnsupported
          else if \<not> selector_supported u q then Inl QueryUnsupported
          else if fq_Limit q > maxFleetFactLimit then Inl QueryLimit
          else rbind (normalizeRequestedScopes (fq_Scopes q)) (\<lambda>requested. Inr (q\<lparr>fq_Scopes := requested\<rparr>)))"

text \<open>
  The conjunction of conditions \<open>queryFacts\<close> assembles.  An image selector reads the first kind,
  which \<open>normalizeFleetQuery\<close> guarantees.
\<close>

definition fact_matches :: "jsonb_api \<Rightarrow> string \<Rightarrow> FleetQuery \<Rightarrow> fact_row \<Rightarrow> bool" where
  "fact_matches jb workspaceID q row \<longleftrightarrow>
     (let s = fq_Selector q; e = fw_fact row in
      fw_workspace row = workspaceID \<and>
      (fq_Scopes q = [] \<or> List.member (fq_Scopes q) (fw_cluster row)) \<and>
      (fq_Kinds q = [] \<or> List.member (fq_Kinds q) (FKind e)) \<and>
      (sl_ResourceKind s = [] \<or> RefKind (Ref e) = sl_ResourceKind s) \<and>
      (sl_Namespace s = [] \<or> RefNamespace (Ref e) = sl_Namespace s) \<and>
      (sl_NamePrefix s = [] \<or> has_prefix (RefName (Ref e)) (sl_NamePrefix s)) \<and>
      (sl_Name s = [] \<or> RefName (Ref e) = sl_Name s) \<and>
      (sl_Health s = [] \<or> jb_status jb (Observed e) = Some (sl_Health s)) \<and>
      (sl_HealthNot s = [] \<or> jb_hasStatus jb (Observed e) \<and>
         (case jb_status jb (Observed e) of None \<Rightarrow> False | Some v \<Rightarrow> v \<noteq> sl_HealthNot s)) \<and>
      (sl_Image s = [] \<or>
         (case fq_Kinds q of
            [] \<Rightarrow> True
          | k # _ \<Rightarrow>
              if k = FactInventory then jb_hasDigest jb (Observed e) (sl_Image s)
              else if k = FactCVE then jb_image jb (Observed e) = Some (sl_Image s)
              else True)) \<and>
      (sl_CVE s = [] \<or> jb_hasID jb (Observed e) (sl_CVE s)))"

definition row_order :: "fact_row \<Rightarrow> string \<times> int \<times> int" where
  "row_order row = (fw_cluster row, - ObservedAt (fw_fact row), - int (fw_id row))"

text \<open>Reading a row back checks that it belongs to the cluster it is stored under.\<close>

definition scan_fact :: "fact_row \<Rightarrow> (fleet_error, Evidence) result" where
  "scan_fact row =
     (let e = fw_fact row in
      if SourceKind (Ref e) \<noteq> OCMSourceKind \<or> RefScope (Ref e) \<noteq> fw_cluster row \<or> Source e \<noteq> fw_cluster row
      then Inl StoredFactMismatch else Inr e)"

definition queryFacts :: "jsonb_api \<Rightarrow> string \<Rightarrow> FleetQuery \<Rightarrow> fleet_db \<Rightarrow> (fleet_error, Evidence list) result" where
  "queryFacts jb workspaceID q db =
     (let limit = (if fq_Limit q = 0 then defaultFleetFactLimit else fq_Limit q) in
      rmap scan_fact (take (nat limit) (sort_key row_order (filter (fact_matches jb workspaceID q) (fd_facts db)))))"

definition stamp_fact ::
  "(string, clusterState) gomap \<Rightarrow> Scope \<Rightarrow> int \<Rightarrow> Time \<Rightarrow> Evidence \<Rightarrow> (fleet_error, Fact) result" where
  "stamp_fact states scope freshness now e =
     (case map_of states (RefScope (Ref e)) of
        None \<Rightarrow> Inl StoredFactUnregistered
      | Some state \<Rightarrow>
          (let (stale, staleFor) = staleState state freshness now in
           Inr (Evidence.extend e \<lparr>FWorkspace = sc_workspaceID scope, FStale = stale, FStaleFor = staleFor\<rparr>)))"

definition queryFleet ::
  "unicode_case \<Rightarrow> jsonb_api \<Rightarrow> Scope \<Rightarrow> FleetQuery \<Rightarrow> int \<Rightarrow> Time \<Rightarrow> fleet_db \<Rightarrow> (fleet_error, QueryResult) result" where
  "queryFleet u jb scope query freshness now db =
     rbind (requireReadScope scope) (\<lambda>_.
     rbind (normalizeFleetQuery u query) (\<lambda>q.
     rbind (validateFreshness freshness now) (\<lambda>_.
       fst (fleet_tx scope (\<lambda>db.
         (case readClusterStates (sc_workspaceID scope) (fq_Scopes q) db of
            (states, requested) \<Rightarrow>
              rbind (queryFacts jb (sc_workspaceID scope) q db) (\<lambda>es.
              rbind (rmap (stamp_fact states scope freshness now) es) (\<lambda>facts.
                Inr (\<lparr>qr_Facts = facts, qr_Coverage = coverageFor states requested freshness now\<rparr>, db))))) db))))"

definition QueryFleet ::
  "unicode_case \<Rightarrow> jsonb_api \<Rightarrow> Scope \<Rightarrow> FleetQuery \<Rightarrow> int \<Rightarrow> Time \<Rightarrow> fleet_db \<Rightarrow> (fleet_error, QueryResult) result" where
  "QueryFleet u jb scope query freshness now db = queryFleet u jb scope query freshness now db"

end
