(* ===== verification/Collector_Correct.thy ===== *)
theory Collector_Correct
  imports Hub_Collector "HOL-Library.Multiset"
begin

text \<open>
  Correctness of the spoke collector: its invariant, the bound on its concurrency, termination of
  every refresh and exactness of the coverage it reports.
\<close>

section \<open>Accounting for every spoke\<close>

fun worker_spoke :: "worker \<Rightarrow> Spoke list" where
  "worker_spoke (WPolling s) = [s]"
| "worker_spoke (WSending r) = [sr_spoke r]"
| "worker_spoke _ = []"

definition held :: "worker list \<Rightarrow> Spoke list" where
  "held ws = concat (map worker_spoke ws)"

fun op_spoke :: "store_op \<Rightarrow> Spoke" where
  "op_spoke (Replaced s snap t) = s"
| "op_spoke (Marked s f t retained) = s"

fun op_outcome :: "store_op \<Rightarrow> SnapshotOutcome" where
  "op_outcome (Replaced s snap t) = SnapshotOutcomeSuccess"
| "op_outcome (Marked s f t retained) = snapshotOutcomeForFailure f"

definition is_replaced :: "store_op \<Rightarrow> bool" where
  "is_replaced x = (case x of Replaced s snap t \<Rightarrow> True | _ \<Rightarrow> False)"

definition is_retained :: "store_op \<Rightarrow> bool" where
  "is_retained x = (case x of Marked s f t retained \<Rightarrow> retained | _ \<Rightarrow> False)"

lemma op_kinds [simp]:
  "is_replaced (Replaced s snap t)" "\<not> is_replaced (Marked s f t b)"
  "\<not> is_retained (Replaced s snap t)" "is_retained (Marked s f t b) = b"
  by (simp_all add: is_replaced_def is_retained_def)

text \<open>The coverage that the accepted writes amount to.\<close>

definition coverage_of :: "nat \<Rightarrow> store_op list \<Rightarrow> Coverage" where
  "coverage_of n ops =
     \<lparr>Requested = int n, Reachable = int (length (filter is_replaced ops)),
      Unreachable = map (sp_ID \<circ> op_spoke) (filter (Not \<circ> is_replaced) ops),
      Stale = map (sp_ID \<circ> op_spoke) (filter is_retained ops), Truncated = []\<rparr>"

text \<open>A snapshot is written only after it passed \<open>validateSnapshot\<close> for its spoke.\<close>

definition op_ok :: "unicode_case \<Rightarrow> payload_api \<Rightarrow> int \<Rightarrow> store_op \<Rightarrow> bool" where
  "op_ok u api maxAge x =
     (case x of Replaced s snap t \<Rightarrow> is_ok (validateSnapshot u api s snap t maxAge)
      | Marked s f t retained \<Rightarrow> f \<in> {FailureTransport, FailureDeadline, FailureInvalidSnapshot})"

definition result_ok :: "unicode_case \<Rightarrow> payload_api \<Rightarrow> int \<Rightarrow> spokeCollectionResult \<Rightarrow> bool" where
  "result_ok u api maxAge r \<longleftrightarrow> sr_err r = None \<longrightarrow>
     (if sr_failure r = [] then is_ok (validateSnapshot u api (sr_spoke r) (sr_snapshot r) (sr_attemptedAt r) maxAge)
      else sr_failure r \<in> {FailureTransport, FailureDeadline, FailureInvalidSnapshot})"

definition outcome_ok :: "nat \<Rightarrow> pool \<Rightarrow> bool" where
  "outcome_ok n p =
     (case po_main p of
        Looping \<Rightarrow> po_observed p = map op_outcome (po_store p)
      | Draining out obs \<Rightarrow> (case out of Panicked \<Rightarrow> True
          | Ret c e \<Rightarrow> if e = None then \<not> obs \<and> length (po_store p) = n \<and> c = sorted_coverage (po_coverage p) \<and>
                          po_observed p = map op_outcome (po_store p)
                      else c = po_coverage p)
      | Returned out \<Rightarrow> list_all (\<lambda>w. w = WExited) (po_workers p) \<and> (case out of Panicked \<Rightarrow> True
          | Ret c e \<Rightarrow> if e = None then length (po_store p) = n \<and> c = sorted_coverage (po_coverage p) \<and>
                          po_observed p = map op_outcome (po_store p)
                      else c = po_coverage p))"

definition pool_ok :: "unicode_case \<Rightarrow> payload_api \<Rightarrow> int \<Rightarrow> Spoke list \<Rightarrow> nat \<Rightarrow> pool \<Rightarrow> bool" where
  "pool_ok u api maxAge spokes wn p \<longleftrightarrow>
     length (po_workers p) = wn \<and> po_next p \<le> length spokes \<and>
     mset (held (po_workers p)) + mset (map op_spoke (po_store p)) \<subseteq># mset (take (po_next p) spokes) \<and>
     (po_main p = Looping \<longrightarrow> int (po_next p) = po_inFlight p + int (length (po_store p))) \<and>
     (\<not> collection_done p \<longrightarrow> WExited \<notin> set (po_workers p) \<and>
        int (length (held (po_workers p))) = po_inFlight p) \<and>
     (\<forall>r. WSending r \<in> set (po_workers p) \<longrightarrow> result_ok u api maxAge r) \<and>
     (\<forall>x \<in> set (po_store p). op_ok u api maxAge x) \<and>
     po_coverage p = coverage_of (length spokes) (po_store p) \<and>
     outcome_ok (length spokes) p"

lemma mset_held_update:
  "i < length ws \<Longrightarrow>
   mset (held (ws[i := w])) + mset (worker_spoke (ws ! i)) = mset (held ws) + mset (worker_spoke w)"
proof (induction ws arbitrary: i)
  case Nil
  then show ?case by simp
next
  case (Cons a ws)
  then show ?case by (cases i) (simp_all add: held_def ac_simps)
qed

lemma length_held_update:
  assumes "i < length ws"
  shows "length (held (ws[i := w])) + length (worker_spoke (ws ! i)) = length (held ws) + length (worker_spoke w)"
  using arg_cong [OF mset_held_update [OF assms, of w], of size] by simp

lemma set_held: "worker_spoke w = [s] \<Longrightarrow> w \<in> set ws \<Longrightarrow> s \<in> set (held ws)"
  unfolding held_def by force

lemma held_replicate_idle [simp]: "held (replicate n WIdle) = []"
  by (simp add: held_def)

lemma pool_ok_start: "pool_ok u api maxAge spokes (nat (min k (int (length spokes)))) (pool_start k spokes)"
  by (auto simp: pool_ok_def pool_start_def coverage_of_def zero_coverage_def collection_done_def outcome_ok_def)

lemma coverage_of_append:
  "coverage_of n (ops @ [Replaced s snap t]) = (coverage_of n ops)\<lparr>Reachable := Reachable (coverage_of n ops) + 1\<rparr>"
  "coverage_of n (ops @ [Marked s f t False]) =
     (coverage_of n ops)\<lparr>Unreachable := Unreachable (coverage_of n ops) @ [sp_ID s]\<rparr>"
  "coverage_of n (ops @ [Marked s f t True]) =
     (coverage_of n ops)\<lparr>Unreachable := Unreachable (coverage_of n ops) @ [sp_ID s],
                        Stale := Stale (coverage_of n ops) @ [sp_ID s]\<rparr>"
  by (simp_all add: coverage_of_def)

lemma collectSpoke_result:
  "collectSpoke u api maxAge c spoke t reply = Some r \<Longrightarrow> sr_spoke r = spoke \<and> result_ok u api maxAge r"
  by (auto simp: collectSpoke_def result_ok_def failureFor_def Let_def split: if_splits option.splits)

lemma collectSpoke_live: "collectSpoke u api maxAge False spoke t reply \<noteq> None"
  by (auto simp: collectSpoke_def Let_def split: option.splits)

text \<open>What a persisted result did: one accepted write, or an error and none.\<close>

lemma persist_snapshot:
  "sr_failure r = [] \<Longrightarrow> persistSpokeResult r (Some b) c =
     (Inr (c\<lparr>Reachable := Reachable c + 1\<rparr>),
      [Replaced (sr_spoke r) (sr_snapshot r) (sr_attemptedAt r)], [SnapshotOutcomeSuccess])"
  by (simp add: persistSpokeResult_def)

lemma persist_failure:
  "sr_failure r \<noteq> [] \<Longrightarrow> persistSpokeResult r (Some b) (coverage_of n ops) =
     (Inr (coverage_of n (ops @ [Marked (sr_spoke r) (sr_failure r) (sr_attemptedAt r) b])),
      [Marked (sr_spoke r) (sr_failure r) (sr_attemptedAt r) b], [snapshotOutcomeForFailure (sr_failure r)])"
  by (cases b) (simp_all add: persistSpokeResult_def recordFailure_def coverage_of_append)

lemma persist_refused:
  "\<exists>e. persistSpokeResult r None c = (Inl e, [], [SnapshotOutcomeStoreError])"
  by (simp add: persistSpokeResult_def recordFailure_def)

lemma persistSpokeResult_cases:
  assumes "persistSpokeResult r reply (coverage_of n ops) = (out, ops', seen)"
    and "result_ok u api maxAge r" "sr_err r = None"
  obtains (written) x where "out = Inr (coverage_of n (ops @ [x]))" "ops' = [x]" "seen = [op_outcome x]"
      "op_spoke x = sr_spoke r" "op_ok u api maxAge x"
    | (failed) e where "out = Inl e" "ops' = []" "seen = [SnapshotOutcomeStoreError]"
proof (cases reply)
  case None
  then show ?thesis using assms(1) persist_refused [of r "coverage_of n ops"] failed by auto
next
  case (Some b)
  show ?thesis
  proof (cases "sr_failure r = []")
    case True
    show ?thesis
    proof (rule written [of "Replaced (sr_spoke r) (sr_snapshot r) (sr_attemptedAt r)"])
      show "op_ok u api maxAge (Replaced (sr_spoke r) (sr_snapshot r) (sr_attemptedAt r))"
        using assms(2,3) True by (simp add: op_ok_def result_ok_def)
    qed (use assms(1) Some True in \<open>auto simp: persist_snapshot coverage_of_append\<close>)
  next
    case False
    show ?thesis
    proof (rule written [of "Marked (sr_spoke r) (sr_failure r) (sr_attemptedAt r) b"])
      show "op_ok u api maxAge (Marked (sr_spoke r) (sr_failure r) (sr_attemptedAt r) b)"
        using assms(2,3) False by (simp add: op_ok_def result_ok_def)
    qed (use assms(1) Some False in \<open>auto simp: persist_failure\<close>)
  qed
qed


section \<open>Every step keeps the invariant\<close>

lemma set_update_other: "WSending r \<in> set (ws[i := w]) \<Longrightarrow> w \<noteq> WSending r \<Longrightarrow> WSending r \<in> set ws"
  by (auto dest: subsetD [OF set_update_subset_insert])

lemma exited_update: "WExited \<in> set (ws[i := w]) \<Longrightarrow> w \<noteq> WExited \<Longrightarrow> WExited \<in> set ws"
  by (auto dest: subsetD [OF set_update_subset_insert])

lemma take_next_mset:
  "k < length xs \<Longrightarrow> mset (take (Suc k) xs) = mset (take k xs) + {#xs ! k#}"
  by (simp add: take_Suc_conv_app_nth)

text \<open>A worker that changes state without changing the spokes it and the store account for.\<close>

lemma pool_ok_worker:
  assumes ok: "pool_ok u api maxAge spokes wn p" and i: "i < length (po_workers p)"
    and sub: "mset (worker_spoke w) \<subseteq># mset (worker_spoke (po_workers p ! i))"
    and live: "\<not> collection_done p \<Longrightarrow> w \<noteq> WExited \<and> worker_spoke w = worker_spoke (po_workers p ! i)"
    and good: "\<And>r. w = WSending r \<Longrightarrow> result_ok u api maxAge r"
    and opened: "\<not> pool_returned p \<or> w = WExited"
  shows "pool_ok u api maxAge spokes wn (p\<lparr>po_workers := (po_workers p)[i := w]\<rparr>)"
proof -
  have "mset (held ((po_workers p)[i := w])) \<subseteq># mset (held (po_workers p))"
    using mset_held_update [OF i, of w] sub by (metis mset_subset_eq_mono_add_left_cancel mset_subset_eq_add_right subset_mset.add_le_cancel_right union_commute)
  moreover have "\<not> collection_done p \<Longrightarrow> length (held ((po_workers p)[i := w])) = length (held (po_workers p))"
    using length_held_update [OF i, of w] live by simp
  moreover have "\<not> collection_done p \<Longrightarrow> WExited \<in> set ((po_workers p)[i := w]) \<Longrightarrow> WExited \<in> set (po_workers p)"
    using live exited_update by blast
  moreover have "WSending r \<in> set ((po_workers p)[i := w]) \<Longrightarrow> result_ok u api maxAge r" for r
    using good set_update_other [of r "po_workers p" i w] ok unfolding pool_ok_def by blast
  moreover have "outcome_ok (length spokes) (p\<lparr>po_workers := (po_workers p)[i := w]\<rparr>)"
    using ok opened unfolding pool_ok_def outcome_ok_def pool_returned_def
    by (auto simp: list_all_iff split: pool_main.splits collect_outcome.splits if_splits dest: subsetD [OF set_update_subset_insert])
  ultimately show ?thesis
    using ok unfolding pool_ok_def collection_done_def
    by (auto intro: subset_mset.order_trans [OF subset_mset.add_right_mono])
qed


lemma pool_ok_exit:
  assumes "pool_ok u api maxAge spokes wn p" "pool_exec u api maxAge spokes p (WorkerExit i) = Some p'"
  shows "pool_ok u api maxAge spokes wn p'"
proof -
  have "p' = p\<lparr>po_workers := (po_workers p)[i := WExited]\<rparr>" "i < length (po_workers p)" "collection_done p"
    using assms(2) by (auto split: if_splits worker.splits)
  then show ?thesis using pool_ok_worker [OF assms(1), of i WExited] by simp
qed

lemma pool_ok_reply:
  assumes ok: "pool_ok u api maxAge spokes wn p"
    and step: "pool_exec u api maxAge spokes p (TransportReply i t reply) = Some p'"
  shows "pool_ok u api maxAge spokes wn p'"
proof -
  obtain s where i: "i < length (po_workers p)" "po_workers p ! i = WPolling s"
    and p': "p' = p\<lparr>po_workers := (po_workers p)[i :=
      (case collectSpoke u api maxAge (collection_done p) s t reply of None \<Rightarrow> WExited | Some r \<Rightarrow> WSending r)]\<rparr>"
    using step by (auto split: if_splits worker.splits)
  have running: "\<not> pool_returned p"
    using ok i nth_mem [OF i(1)]
    by (auto simp: pool_ok_def outcome_ok_def pool_returned_def list_all_iff split: pool_main.splits)
  show ?thesis unfolding p'
  proof (cases "collectSpoke u api maxAge (collection_done p) s t reply")
    case None
    then show "pool_ok u api maxAge spokes wn (p\<lparr>po_workers := (po_workers p)[i :=
      (case collectSpoke u api maxAge (collection_done p) s t reply of None \<Rightarrow> WExited | Some r \<Rightarrow> WSending r)]\<rparr>)"
      using pool_ok_worker [OF ok i(1), of WExited] collectSpoke_live by fastforce
  next
    case (Some r)
    then show "pool_ok u api maxAge spokes wn (p\<lparr>po_workers := (po_workers p)[i :=
      (case collectSpoke u api maxAge (collection_done p) s t reply of None \<Rightarrow> WExited | Some r \<Rightarrow> WSending r)]\<rparr>)"
      using pool_ok_worker [OF ok i(1), of "WSending r"] i(2) running collectSpoke_result [OF Some] by simp
  qed
qed

lemma pool_ok_admit:
  assumes ok: "pool_ok u api maxAge spokes wn p"
    and step: "pool_exec u api maxAge spokes p (Admit i t) = Some p'"
  shows "pool_ok u api maxAge spokes wn p'"
proof -
  let ?s = "spokes ! po_next p"
  have g: "po_main p = Looping" "po_next p < length spokes" "i < length (po_workers p)" "po_workers p ! i = WIdle"
    and p': "p' = p\<lparr>po_workers := (po_workers p)[i := WPolling ?s],
        po_active := gm_put (sp_ID ?s) t (po_active p), po_next := po_next p + 1, po_inFlight := po_inFlight p + 1\<rparr>"
    using step by (auto simp: Let_def split: if_splits)
  have held: "mset (held ((po_workers p)[i := WPolling ?s])) = mset (held (po_workers p)) + {#?s#}"
    using mset_held_update [OF g(3), of "WPolling ?s"] g(4) by simp
  have len: "length (held ((po_workers p)[i := WPolling ?s])) = length (held (po_workers p)) + 1"
    using length_held_update [OF g(3), of "WPolling ?s"] g(4) by simp
  have exited: "WExited \<in> set ((po_workers p)[i := WPolling ?s]) \<Longrightarrow> WExited \<in> set (po_workers p)"
    using exited_update by blast
  have sending: "WSending r \<in> set ((po_workers p)[i := WPolling ?s]) \<Longrightarrow> WSending r \<in> set (po_workers p)" for r
    using set_update_other by blast
  show ?thesis
    using ok g(1,2) len exited sending unfolding p' pool_ok_def outcome_ok_def collection_done_def
    by (auto simp: held take_next_mset)
qed

lemma pool_ok_receive:
  assumes ok: "pool_ok u api maxAge spokes wn p"
    and step: "pool_exec u api maxAge spokes p (ResultReceived i reply) = Some p'"
  shows "pool_ok u api maxAge spokes wn p'"
proof -
  obtain r where g: "po_main p = Looping" "i < length (po_workers p)" "po_workers p ! i = WSending r"
    and p': "p' = receive_result p i r reply"
    using step by (auto split: if_splits worker.splits)
  let ?ws = "(po_workers p)[i := WIdle]"
  have held: "mset (held (po_workers p)) = mset (held ?ws) + {#sr_spoke r#}"
    using mset_held_update [OF g(2), of WIdle] g(3) by simp
  have len: "length (held (po_workers p)) = length (held ?ws) + 1"
    using length_held_update [OF g(2), of WIdle] g(3) by simp
  have exited: "WExited \<in> set ?ws \<Longrightarrow> WExited \<in> set (po_workers p)"
    using exited_update by blast
  have sending: "WSending r \<in> set ?ws \<Longrightarrow> WSending r \<in> set (po_workers p)" for r
    using set_update_other by blast
  have r: "result_ok u api maxAge r"
    using ok nth_mem [OF g(2)] g(3) unfolding pool_ok_def by auto
  have sub: "mset (held ?ws) + image_mset op_spoke (mset (po_store p)) \<subseteq># mset (take (po_next p) spokes)"
    using ok unfolding pool_ok_def held
    by (auto dest!: mset_subset_eq_insertD subset_mset.less_imp_le)
  have cov: "po_coverage p = coverage_of (length spokes) (po_store p)"
    using ok unfolding pool_ok_def by blast
  show ?thesis
  proof (cases "po_cancelled p \<or> sr_err r \<noteq> None \<or> reply = StorePanics")
    case True
    then show ?thesis
      using ok g(1) exited sending sub unfolding p' pool_ok_def outcome_ok_def collection_done_def
      by (auto simp: receive_result_def shutdown_def Let_def split: option.splits)
  next
    case False
    obtain out ops seen where per: "persistSpokeResult r
        (case reply of StoreOK retained \<Rightarrow> Some retained | _ \<Rightarrow> None) (coverage_of (length spokes) (po_store p)) = (out, ops, seen)"
      by (metis prod_cases3)
    from per r False have e: "sr_err r = None" by simp
    from per r e show ?thesis
    proof (cases rule: persistSpokeResult_cases)
      case (written x)
      then show ?thesis
        using ok g(1) False exited sending len per cov unfolding p' pool_ok_def outcome_ok_def collection_done_def
        by (auto simp: receive_result_def held Let_def)
    next
      case (failed err)
      then show ?thesis
        using ok g(1) False exited sending sub per cov unfolding p' pool_ok_def outcome_ok_def collection_done_def
        by (auto simp: receive_result_def shutdown_def Let_def)
    qed
  qed
qed

lemma pool_ok_done:
  assumes ok: "pool_ok u api maxAge spokes wn p"
    and step: "pool_exec u api maxAge spokes p LoopDone = Some p'"
  shows "pool_ok u api maxAge spokes wn p'"
proof -
  have g: "po_main p = Looping" "\<not> loop_condition spokes p"
    and p': "p' = shutdown p (Ret (sorted_coverage (po_coverage p)) None) False"
    using step by (auto split: if_splits)
  have "po_next p = length spokes" using ok g unfolding pool_ok_def loop_condition_def by auto
  moreover have "int (length (held (po_workers p)) + length (po_store p)) \<le> int (po_next p)"
    using ok size_mset_mono [of _ "mset (take (po_next p) spokes)"] unfolding pool_ok_def by fastforce
  ultimately have "length (po_store p) = length spokes"
    using ok g unfolding pool_ok_def loop_condition_def by auto
  then show ?thesis
    using ok g(1) unfolding p' pool_ok_def outcome_ok_def collection_done_def shutdown_def by auto
qed

lemma pool_ok_step:
  assumes ok: "pool_ok u api maxAge spokes wn p" and step: "pool_exec u api maxAge spokes p e = Some p'"
  shows "pool_ok u api maxAge spokes wn p'"
proof (cases e)
  case LifecycleCancel
  then show ?thesis using ok step unfolding pool_ok_def outcome_ok_def collection_done_def
    by (auto split: if_splits pool_main.splits collect_outcome.splits)
next
  case CancelSeen
  then show ?thesis using ok step unfolding pool_ok_def outcome_ok_def collection_done_def
    by (auto simp: shutdown_def split: if_splits)
next
  case Drained
  then show ?thesis using ok step unfolding pool_ok_def outcome_ok_def collection_done_def
    by (auto split: if_splits pool_main.splits collect_outcome.splits)
next
  case (Admit i t)
  then show ?thesis using pool_ok_admit [OF ok] step by metis
next
  case (TransportReply i t reply)
  then show ?thesis using pool_ok_reply [OF ok] step by metis
next
  case (WorkerExit i)
  then show ?thesis using pool_ok_exit [OF ok] step by metis
next
  case (ResultReceived i reply)
  then show ?thesis using pool_ok_receive [OF ok] step by metis
next
  case LoopDone
  then show ?thesis using pool_ok_done [OF ok] step by metis
qed

interpretation pool: safety_system "\<lambda>p. p = pool_start k spokes" "\<lambda>p e p'. pool_exec u api maxAge spokes p e = Some p'"
  "pool_ok u api maxAge spokes (nat (min k (int (length spokes))))" for k spokes u api maxAge
  by unfold_locales (use pool_ok_start pool_ok_step in blast)+


lemma pool_run_reach:
  "reach init (\<lambda>p e p'. pool_exec u api maxAge spokes p e = Some p') p \<Longrightarrow>
   pool_run u api maxAge spokes p es = Some p' \<Longrightarrow>
   reach init (\<lambda>p e p'. pool_exec u api maxAge spokes p e = Some p') p'"
proof (induction es arbitrary: p)
  case Nil
  then show ?case by simp
next
  case (Cons e es)
  then show ?case by (auto split: option.splits intro: reach_step)
qed

lemma pool_run_ok:
  assumes "pool_run u api maxAge spokes (pool_start k spokes) es = Some p"
  shows "pool_ok u api maxAge spokes (nat (min k (int (length spokes)))) p"
  by (rule pool.reach_inv, rule pool_run_reach [OF reach_init assms]) simp

lemma validate_spokes_loop_ok:
  "validate_spokes_loop i seen ss = Inr () \<Longrightarrow>
   distinct (map sp_ID ss) \<and> sp_ID ` set ss \<inter> set seen = {} \<and> (\<forall>s \<in> set ss. is_ok (Spoke_Validate s))"
  by (induction i seen ss rule: validate_spokes_loop.induct) (auto split: sum.splits if_splits)

lemma collectWorkspace_start:
  assumes "collectWorkspace k registered = Inr (spokes, p0)"
  shows "spokes \<noteq> []" "distinct (map sp_ID spokes)" "\<And>s. s \<in> set spokes \<Longrightarrow> trim_space (sp_ID s) \<noteq> []"
    "p0 = pool_start k spokes"
proof -
  obtain regs where r: "registered = Some regs" "validate_spokes_loop 0 [] regs = Inr ()"
    and s: "spokes = sort_key sp_ID regs" "spokes \<noteq> []" "p0 = pool_start k spokes"
    using assms by (auto simp: collectWorkspace_def validateSpokes_def rbind_eq_Inr split: option.splits sum.splits if_splits)
  then show "spokes \<noteq> []" "p0 = pool_start k spokes" by simp_all
  have "distinct (map sp_ID regs)" and ok: "\<forall>s \<in> set regs. is_ok (Spoke_Validate s)"
    using validate_spokes_loop_ok [OF r(2)] by simp_all
  then show "distinct (map sp_ID spokes)" using s(1) by (simp add: distinct_map)
  show "trim_space (sp_ID x) \<noteq> []" if "x \<in> set spokes" for x
  proof -
    have "is_ok (Spoke_Validate x)" using ok that s(1) by simp
    then have "\<exists>y. validateText ''spoke ID'' (sp_ID x) 256 False = Inr y"
      unfolding is_ok_iff Spoke_Validate_def rbind_eq_Inr by blast
    then show ?thesis by (auto simp: validateText_def split: if_splits)
  qed
qed

lemma NewCollector_bounds:
  "NewCollector config = Inr c \<Longrightarrow> 1 \<le> cc_MaxConcurrentSpokes c \<and> cc_MaxConcurrentSpokes c \<le> maximumSpokeConcurrency"
  by (auto simp: NewCollector_def Let_def split: if_splits)

section \<open>Bounded concurrency\<close>

lemma length_held: "length (held ws) \<le> length ws"
proof (induction ws)
  case (Cons w ws)
  then show ?case by (cases w) (simp_all add: held_def)
qed (simp add: held_def)

lemma distinct_mset_sub:
  assumes "mset xs \<subseteq># mset ys" "distinct ys"
  shows "distinct xs"
proof -
  obtain zs where "mset ys = mset xs + mset zs"
    using assms(1) by (metis ex_mset subset_mset.add_diff_inverse)
  then have "mset ys = mset (xs @ zs)" by simp
  then show ?thesis using assms(2) mset_eq_imp_distinct_iff distinct_append by metis
qed

lemma pool_ok_distinct:
  assumes "pool_ok u api maxAge spokes wn p" "distinct (map sp_ID spokes)"
  shows "distinct (map sp_ID (held (po_workers p) @ map op_spoke (po_store p)))"
proof (rule distinct_mset_sub)
  have "mset (held (po_workers p) @ map op_spoke (po_store p)) \<subseteq># mset (take (po_next p) spokes)"
    using assms(1) unfolding pool_ok_def by simp
  then show "mset (map sp_ID (held (po_workers p) @ map op_spoke (po_store p))) \<subseteq># mset (map sp_ID (take (po_next p) spokes))"
    unfolding mset_map by (rule image_mset_subseteq_mono)
  show "distinct (map sp_ID (take (po_next p) spokes))"
    using assms(2) by (simp add: take_map [symmetric])
qed

text \<open>
  C19: Concurrency of a refresh is bounded, at every moment of every run of the pool, whatever
  the transport and the store do: at most \<open>MaxConcurrentSpokes\<close> spokes, never more than the 64 that
  \<open>NewCollector\<close> admits and never more than there are registered spokes, are being polled or waiting
  to be taken in; the loop's own counter \<open>inFlight\<close> is that number as long as nothing was
  cancelled; and no spoke is polled while it is already polled or already recorded.
\<close>

theorem collector_bounded:
  assumes "NewCollector config = Inr c"
    and "collectWorkspace (cc_MaxConcurrentSpokes c) registered = Inr (spokes, p0)"
    and "pool_run u api maxAge spokes p0 es = Some p"
  shows "int (length (held (po_workers p))) \<le> min (cc_MaxConcurrentSpokes c) (int (length spokes)) \<and>
    cc_MaxConcurrentSpokes c \<le> 64 \<and>
    (collection_done p \<or> po_inFlight p = int (length (held (po_workers p)))) \<and>
    distinct (map sp_ID (held (po_workers p) @ map op_spoke (po_store p)))"
proof -
  let ?w = "nat (min (cc_MaxConcurrentSpokes c) (int (length spokes)))"
  note start = collectWorkspace_start [OF assms(2)]
  have ok: "pool_ok u api maxAge spokes ?w p" using pool_run_ok assms(3) start(4) by blast
  then have "length (po_workers p) = ?w" unfolding pool_ok_def by blast
  then have "int (length (held (po_workers p))) \<le> min (cc_MaxConcurrentSpokes c) (int (length spokes))"
    using length_held [of "po_workers p"] NewCollector_bounds [OF assms(1)] by linarith
  moreover have "collection_done p \<or> po_inFlight p = int (length (held (po_workers p)))"
    using ok unfolding pool_ok_def by auto
  ultimately show ?thesis
    using pool_ok_distinct [OF ok start(2)] NewCollector_bounds [OF assms(1)]
    by (simp add: maximumSpokeConcurrency_def)
qed

section \<open>Termination\<close>

fun worker_weight :: "worker \<Rightarrow> nat" where
  "worker_weight WExited = 0"
| "worker_weight WIdle = 1"
| "worker_weight (WSending r) = 2"
| "worker_weight (WPolling s) = 3"

fun main_weight :: "pool_main \<Rightarrow> nat" where
  "main_weight Looping = 2"
| "main_weight (Draining out obs) = 1"
| "main_weight (Returned out) = 0"

definition pool_measure :: "nat \<Rightarrow> pool \<Rightarrow> nat" where
  "pool_measure n p = 3 * (n - po_next p) + sum_list (map worker_weight (po_workers p)) +
     main_weight (po_main p) + (if po_cancelled p then 0 else 1)"

lemma sum_weight_update:
  "i < length ws \<Longrightarrow> sum_list (map worker_weight (ws[i := w])) + worker_weight (ws ! i) =
     sum_list (map worker_weight ws) + worker_weight w"
proof (induction ws arbitrary: i)
  case (Cons a ws)
  then show ?case by (cases i) simp_all
qed simp

lemma receive_result_weight:
  "po_workers (receive_result p i r reply) = (po_workers p)[i := WIdle]"
  "po_next (receive_result p i r reply) = po_next p"
  "po_cancelled (receive_result p i r reply) = po_cancelled p"
  "po_main p = Looping \<Longrightarrow> main_weight (po_main (receive_result p i r reply)) \<le> 2"
  by (auto simp: receive_result_def shutdown_def Let_def split: option.splits prod.splits sum.splits)

lemma pool_measure_step:
  assumes "pool_exec u api maxAge spokes p e = Some p'"
  shows "pool_measure (length spokes) p' < pool_measure (length spokes) p"
proof (cases e)
  case (Admit i t)
  then show ?thesis using assms sum_weight_update [of i "po_workers p" "WPolling (spokes ! po_next p)"]
    by (auto simp: pool_measure_def Let_def split: if_splits)
next
  case (TransportReply i t reply)
  then obtain w where "p' = p\<lparr>po_workers := (po_workers p)[i := w]\<rparr>" "i < length (po_workers p)"
    "worker_weight w < worker_weight (po_workers p ! i)"
    using assms by (auto split: if_splits worker.splits option.splits)
  then show ?thesis using sum_weight_update [of i "po_workers p" w] by (auto simp: pool_measure_def)
next
  case (WorkerExit i)
  then have "p' = p\<lparr>po_workers := (po_workers p)[i := WExited]\<rparr>" "i < length (po_workers p)"
    "0 < worker_weight (po_workers p ! i)"
    using assms by (auto split: if_splits worker.splits)
  then show ?thesis using sum_weight_update [of i "po_workers p" WExited] by (auto simp: pool_measure_def)
next
  case (ResultReceived i reply)
  then obtain r where "p' = receive_result p i r reply" "i < length (po_workers p)" "po_workers p ! i = WSending r"
    "po_main p = Looping"
    using assms by (auto split: if_splits worker.splits)
  then show ?thesis
    using sum_weight_update [of i "po_workers p" WIdle] receive_result_weight [of p i r reply]
    by (simp add: pool_measure_def)
qed (use assms in \<open>auto simp: pool_measure_def shutdown_def split: if_splits pool_main.splits\<close>)

lemma pool_run_length:
  "pool_run u api maxAge spokes p es = Some p' \<Longrightarrow>
   length es + pool_measure (length spokes) p' \<le> pool_measure (length spokes) p"
proof (induction es arbitrary: p)
  case Nil
  then show ?case by simp
next
  case (Cons e es)
  then obtain q where q: "pool_exec u api maxAge spokes p e = Some q" "pool_run u api maxAge spokes q es = Some p'"
    by (auto split: option.splits)
  then show ?case using Cons.IH [OF q(2)] pool_measure_step [OF q(1)] by simp
qed

lemma pool_measure_start:
  "0 \<le> k \<Longrightarrow> pool_measure (length spokes) (pool_start k spokes) = 3 * length spokes + nat (min k (int (length spokes))) + 3"
  by (simp add: pool_measure_def pool_start_def sum_list_replicate)

text \<open>A worker that holds a spoke, or any worker once the collection is over, can move.\<close>

lemma worker_moves:
  assumes "i < length (po_workers p)" "po_workers p ! i = WPolling s"
  shows "\<exists>e p'. e \<noteq> LifecycleCancel \<and> pool_exec u api maxAge spokes p e = Some p'"
  using assms by (intro exI [of _ "TransportReply i t reply" for t reply]) auto

lemma held_worker:
  assumes "s \<in> set (held ws)"
  obtains i where "i < length ws" "ws ! i = WPolling s"
    | i r where "i < length ws" "ws ! i = WSending r"
proof -
  obtain w where w: "w \<in> set ws" "s \<in> set (worker_spoke w)" using assms by (auto simp: held_def)
  obtain i where i: "i < length ws" "ws ! i = w" using w(1) by (auto simp: in_set_conv_nth)
  with w(2) that show ?thesis by (cases w) auto
qed

lemma looping_moves:
  assumes ok: "pool_ok u api maxAge spokes wn p" and "0 < wn" and main: "po_main p = Looping"
  shows "\<exists>e p'. e \<noteq> LifecycleCancel \<and> pool_exec u api maxAge spokes p e = Some p'"
proof (cases "loop_condition spokes p \<and> \<not> po_cancelled p")
  case False
  then have "pool_exec u api maxAge spokes p CancelSeen \<noteq> None \<or> pool_exec u api maxAge spokes p LoopDone \<noteq> None"
    using main by auto
  then show ?thesis by (metis option.exhaust pool_event.distinct(9,11))
next
  case True
  then have live: "WExited \<notin> set (po_workers p)" "int (length (held (po_workers p))) = po_inFlight p"
    using ok main unfolding pool_ok_def collection_done_def by auto
  show ?thesis
  proof (cases "held (po_workers p) = []")
    case False
    then have "hd (held (po_workers p)) \<in> set (held (po_workers p))" by simp
    then show ?thesis
    proof (cases rule: held_worker)
      case (1 i)
      then show ?thesis by (rule worker_moves)
    next
      case (2 i r)
      then show ?thesis using main True
        by (intro exI [of _ "ResultReceived i StoreFails"]) simp
    qed
  next
    case idle: True
    have "0 < length (po_workers p)" using ok \<open>0 < wn\<close> unfolding pool_ok_def by simp
    moreover from this have "po_workers p ! 0 = WIdle"
      using idle live(1) nth_mem [of 0 "po_workers p"]
      by (cases "po_workers p ! 0") (auto simp: held_def)
    moreover have "po_next p < length spokes" using True idle live(2) unfolding loop_condition_def by simp
    ultimately show ?thesis using main by (intro exI [of _ "Admit 0 0"]) (simp add: Let_def)
  qed
qed

lemma draining_moves:
  assumes "po_main p = Draining out obs"
  shows "\<exists>e p'. e \<noteq> LifecycleCancel \<and> pool_exec u api maxAge spokes p e = Some p'"
proof (cases "list_all (\<lambda>w. w = WExited) (po_workers p)")
  case True
  then show ?thesis using assms by (intro exI [of _ Drained]) simp
next
  case False
  then obtain i where i: "i < length (po_workers p)" "po_workers p ! i \<noteq> WExited"
    by (auto simp: list_all_length)
  show ?thesis
  proof (cases "\<exists>s. po_workers p ! i = WPolling s")
    case True
    then show ?thesis using worker_moves [OF i(1)] by blast
  next
    case False
    then show ?thesis using i assms
      by (intro exI [of _ "WorkerExit i"]) (auto simp: collection_done_def split: worker.splits)
  qed
qed

lemma pool_moves:
  assumes "pool_ok u api maxAge spokes wn p" "0 < wn"
  shows "pool_returned p \<or> (\<exists>e p'. e \<noteq> LifecycleCancel \<and> pool_exec u api maxAge spokes p e = Some p')"
proof (cases "po_main p")
  case Looping
  then show ?thesis using looping_moves [OF assms] by blast
next
  case (Draining out obs)
  then show ?thesis using draining_moves by blast
next
  case (Returned out)
  then show ?thesis by (simp add: pool_returned_def)
qed

text \<open>
  C18: Every refresh terminates.  A run of the pool on \<open>n\<close> spokes has at most
  \<open>3 n + min MaxConcurrentSpokes n + 3\<close> events, however the select statements choose and whatever
  the transport and the store answer; and a pool that has not returned is never stuck: some event
  other than a cancellation of the lifecycle is enabled.  So when every call of the transport
  returns, \<open>collectWorkspace\<close> returns.
\<close>

theorem collector_terminates:
  assumes "NewCollector config = Inr c"
    and "collectWorkspace (cc_MaxConcurrentSpokes c) registered = Inr (spokes, p0)"
    and "pool_run u api maxAge spokes p0 es = Some p"
  shows "length es \<le> 3 * length spokes + nat (min (cc_MaxConcurrentSpokes c) (int (length spokes))) + 3 \<and>
    (pool_returned p \<or> (\<exists>e p'. e \<noteq> LifecycleCancel \<and> pool_exec u api maxAge spokes p e = Some p'))"
proof -
  let ?w = "nat (min (cc_MaxConcurrentSpokes c) (int (length spokes)))"
  note start = collectWorkspace_start [OF assms(2)]
  have ok: "pool_ok u api maxAge spokes ?w p" using pool_run_ok assms(3) start(4) by blast
  have "0 < ?w" using NewCollector_bounds [OF assms(1)] start(1) by simp
  then have "pool_returned p \<or> (\<exists>e p'. e \<noteq> LifecycleCancel \<and> pool_exec u api maxAge spokes p e = Some p')"
    by (rule pool_moves [OF ok])
  moreover have "length es \<le> 3 * length spokes + ?w + 3"
    using pool_run_length [OF assms(3)] pool_measure_start [of "cc_MaxConcurrentSpokes c" spokes]
      NewCollector_bounds [OF assms(1)] start(4) by simp
  ultimately show ?thesis by blast
qed

section \<open>The coverage that is returned\<close>

lemma coverage_of_consistent:
  assumes sub: "mset (map op_spoke ops) \<subseteq># mset spokes" and dist: "distinct (map sp_ID spokes)"
    and nonblank: "\<And>s. s \<in> set spokes \<Longrightarrow> trim_space (sp_ID s) \<noteq> []"
  shows "\<not> as_Inconsistent (Assessment (coverage_of (length spokes) ops))"
    "as_Unaccounted (Assessment (coverage_of (length spokes) ops)) = int (length spokes) - int (length ops)"
proof -
  let ?c = "coverage_of (length spokes) ops"
  have "mset (map (sp_ID \<circ> op_spoke) ops) \<subseteq># mset (map sp_ID spokes)"
    using image_mset_subseteq_mono [OF sub, of sp_ID] by (simp add: multiset.map_comp)
  then have ids: "distinct (map (sp_ID \<circ> op_spoke) ops)" by (rule distinct_mset_sub) (rule dist)
  have mem: "op_spoke x \<in> set spokes" if "x \<in> set ops" for x
    using set_mset_mono [OF sub] that by auto
  have scopes: "snd (coverageScopes (map (sp_ID \<circ> op_spoke) (filter P ops)))" for P
    using ids mem nonblank by (auto simp: coverageScopes_valid distinct_map_filter)
  have len: "length ops \<le> length spokes" using size_mset_mono [OF sub] by simp
  have split: "length (filter is_replaced ops) + length (filter (Not \<circ> is_replaced) ops) = length ops"
    using sum_length_filter_compl [of is_replaced ops] by (simp add: comp_def)
  have retained: "\<not> length spokes < length (filter is_retained ops)"
    using order_trans [OF length_filter_le len] by (simp add: not_less)
  have none: "snd (coverageScopes [])" by (simp add: coverageScopes_valid)
  show con: "\<not> as_Inconsistent (Assessment ?c)"
    unfolding Assessment_Inconsistent coverage_of_def Coverage.simps
    using scopes none len split retained by auto
  show "as_Unaccounted (Assessment ?c) = int (length spokes) - int (length ops)"
    using con split Assessment_Unaccounted [of ?c] by (simp add: coverage_of_def)
qed

lemma sort_idem: "sort (sort xs) = sort (xs :: 'a::linorder list)"
  by (rule sorted_sort_id) simp

lemma coverageScopes_sort [simp]: "coverageScopes (sort vs) = coverageScopes vs"
  by (simp add: coverageScopes_eq sort_idem)

lemma Assessment_sorted [simp]: "Assessment (sorted_coverage c) = Assessment c"
  by (simp add: Assessment_def sorted_coverage_def)

lemma sorted_coverage_of:
  "Requested (sorted_coverage (coverage_of n ops)) = int n"
  "Reachable (sorted_coverage (coverage_of n ops)) = int (length (filter is_replaced ops))"
  "Unreachable (sorted_coverage (coverage_of n ops)) = sort (map (sp_ID \<circ> op_spoke) (filter (Not \<circ> is_replaced) ops))"
  by (simp_all add: sorted_coverage_def coverage_of_def)

text \<open>
  C17: The coverage of a refresh is exact.  When \<open>collectWorkspace\<close> returns at all, every worker
  has exited, each snapshot it stored passed \<open>validateSnapshot\<close> for its own spoke and the coverage it
  returns, on every error path too, is never inconsistent in the sense of \<open>Coverage.Assessment\<close>.
  When it returns without error, exactly one write (a snapshot or a failure mark) was accepted for
  every registered spoke, the observer saw exactly one outcome per spoke, the coverage counts the
  snapshots as reachable and lists the failures, sorted, as unreachable, and no spoke is left
  unaccounted for.
\<close>

theorem collector_exact:
  assumes "collectWorkspace k registered = Inr (spokes, p0)"
    and "pool_run u api maxAge spokes p0 es = Some p"
    and "po_main p = Returned (Ret c e)"
  shows "set (po_workers p) \<subseteq> {WExited} \<and>
    (\<forall>s snap t. Replaced s snap t \<in> set (po_store p) \<longrightarrow> validateSnapshot u api s snap t maxAge = Inr ()) \<and>
    \<not> as_Inconsistent (Assessment c) \<and>
    (e = None \<longrightarrow>
       mset (map op_spoke (po_store p)) = mset spokes \<and>
       po_observed p = map op_outcome (po_store p) \<and>
       Requested c = int (length spokes) \<and>
       Reachable c = int (length (filter is_replaced (po_store p))) \<and>
       Unreachable c = sort (map (sp_ID \<circ> op_spoke) (filter (Not \<circ> is_replaced) (po_store p))) \<and>
       as_Unaccounted (Assessment c) = 0)"
proof -
  note start = collectWorkspace_start [OF assms(1)]
  have ok: "pool_ok u api maxAge spokes (nat (min k (int (length spokes)))) p"
    using pool_run_ok assms(2) start(4) by blast
  have cov: "po_coverage p = coverage_of (length spokes) (po_store p)" and out: "outcome_ok (length spokes) p"
    and writes: "\<forall>x \<in> set (po_store p). op_ok u api maxAge x"
    using ok unfolding pool_ok_def by simp_all
  have "mset (map op_spoke (po_store p)) \<subseteq># mset (take (po_next p) spokes)"
    using ok subset_mset.order_trans [OF mset_subset_eq_add_right] unfolding pool_ok_def by blast
  then have sub: "mset (map op_spoke (po_store p)) \<subseteq># mset spokes"
    by (rule subset_mset.order_trans) (metis append_take_drop_id mset_append mset_subset_eq_add_left)
  have c: "Assessment c = Assessment (coverage_of (length spokes) (po_store p))"
    using out assms(3) cov unfolding outcome_ok_def by (auto split: if_splits)
  note consistent = coverage_of_consistent [OF sub start(2,3)]
  have snaps: "validateSnapshot u api s snap t maxAge = Inr ()" if "Replaced s snap t \<in> set (po_store p)" for s snap t
    using writes that by (force simp: op_ok_def is_ok_iff)
  have success: "mset (map op_spoke (po_store p)) = mset spokes" "po_observed p = map op_outcome (po_store p)"
    "c = sorted_coverage (coverage_of (length spokes) (po_store p))" "length (po_store p) = length spokes" if "e = None"
  proof -
    show len: "length (po_store p) = length spokes" and "po_observed p = map op_outcome (po_store p)"
      and "c = sorted_coverage (coverage_of (length spokes) (po_store p))"
      using out assms(3) cov that unfolding outcome_ok_def by auto
    show "mset (map op_spoke (po_store p)) = mset spokes"
      using sub len by (metis length_map mset_subset_size size_mset subset_mset.le_neq_trans less_irrefl)
  qed
  have "set (po_workers p) \<subseteq> {WExited}"
    using out assms(3) unfolding outcome_ok_def by (auto simp: list_all_iff)
  then show ?thesis
    using snaps consistent success unfolding c by (auto simp: sorted_coverage_of)
qed

section \<open>A refresh of three spokes\<close>

definition sample_config :: CollectorConfig where
  "sample_config = \<lparr>cc_required = True, cc_SpokeTimeout = 0, cc_MaxSnapshotAge = 0, cc_MaxConcurrentSpokes = 2\<rparr>"

definition sample_spokes :: "Spoke list" where
  "sample_spokes = map (\<lambda>i. \<lparr>sp_ID = i, sp_ManagedClusterRef = ''ocm/'' @ i, sp_Labels = []\<rparr>) [''c'', ''a'', ''b'']"

definition sample_payloads :: payload_api where
  "sample_payloads = \<lparr>pl_tokens = sample_tokenizer, pl_imageDigests = (\<lambda>s. None), pl_cve = (\<lambda>s. None)\<rparr>"

text \<open>One spoke answers, one times out with an older snapshot retained, one is unreachable.\<close>

definition sample_events :: "pool_event list" where
  "sample_events =
     (let reply = \<lparr>tp_panics = False, tp_snapshot = \<lparr>ss_ObservedAt = 1000, ss_Facts = []\<rparr>, tp_error = None, tp_expired = False\<rparr>
      in [Admit 0 1, Admit 1 2, TransportReply 1 1000 (reply\<lparr>tp_expired := True\<rparr>), TransportReply 0 1001 reply,
          ResultReceived 1 (StoreOK True), Admit 1 3, ResultReceived 0 (StoreOK False),
          TransportReply 1 1002 (reply\<lparr>tp_error := Some TransportFailed\<rparr>), ResultReceived 1 (StoreOK False),
          LoopDone, WorkerExit 0, WorkerExit 1, Drained])"

definition sample_ordered :: "Spoke list" where
  "sample_ordered = sort_key sp_ID sample_spokes"

definition sample_pool :: pool where
  "sample_pool = the (pool_run ascii_case sample_payloads defaultSnapshotAge sample_ordered
     (pool_start 2 sample_ordered) sample_events)"

lemma sample_start: "collectWorkspace 2 (Some sample_spokes) = Inr (sample_ordered, pool_start 2 sample_ordered)"
  by code_simp

lemma sample_pool_run:
  "pool_run ascii_case sample_payloads defaultSnapshotAge sample_ordered (pool_start 2 sample_ordered) sample_events = Some sample_pool"
proof -
  have "pool_run ascii_case sample_payloads defaultSnapshotAge sample_ordered (pool_start 2 sample_ordered) sample_events \<noteq> None"
    by code_simp
  then show ?thesis by (simp add: sample_pool_def)
qed

lemma sample_config_ok:
  "NewCollector sample_config = Inr (sample_config\<lparr>cc_SpokeTimeout := defaultSpokeTimeout, cc_MaxSnapshotAge := defaultSnapshotAge\<rparr>)"
  by (simp add: NewCollector_def sample_config_def or_default_def defaultSpokeTimeout_def maxSpokeTimeout_def
      defaultSnapshotAge_def maxSnapshotAge_def maximumSpokeConcurrency_def)

lemma sample_concurrency:
  "cc_MaxConcurrentSpokes (sample_config\<lparr>cc_SpokeTimeout := defaultSpokeTimeout, cc_MaxSnapshotAge := defaultSnapshotAge\<rparr>) = 2"
  by (simp add: sample_config_def)

lemmas sample_collector = sample_config_ok sample_start [folded sample_concurrency] sample_pool_run [folded sample_concurrency]

text \<open>The same refresh in its middle: both workers busy, the third spoke still waiting.\<close>

definition sample_busy :: pool where
  "sample_busy = the (pool_run ascii_case sample_payloads defaultSnapshotAge sample_ordered
     (pool_start 2 sample_ordered) (take 3 sample_events))"

lemma sample_busy_run:
  "pool_run ascii_case sample_payloads defaultSnapshotAge sample_ordered (pool_start 2 sample_ordered) (take 3 sample_events) = Some sample_busy"
proof -
  have "pool_run ascii_case sample_payloads defaultSnapshotAge sample_ordered (pool_start 2 sample_ordered) (take 3 sample_events) \<noteq> None"
    by code_simp
  then show ?thesis by (simp add: sample_busy_def)
qed

theorem collector_bounded_witness:
  "length (held (po_workers sample_busy)) = 2 \<and> po_inFlight sample_busy = 2 \<and>
   distinct (map sp_ID (held (po_workers sample_busy) @ map op_spoke (po_store sample_busy)))"
proof -
  have "\<not> collection_done sample_busy" "length (held (po_workers sample_busy)) = 2" by code_simp+
  then show ?thesis
    using collector_bounded [OF sample_config_ok sample_start [folded sample_concurrency] sample_busy_run [folded sample_concurrency]]
    by simp
qed

theorem collector_terminates_witness:
  "length sample_events \<le> 14 \<and> pool_returned sample_pool"
proof -
  have "length sample_ordered = 3" "pool_returned sample_pool" by code_simp+
  then show ?thesis using collector_terminates [OF sample_collector] by (simp add: sample_concurrency)
qed

theorem collector_exact_witness:
  "mset (map op_spoke (po_store sample_pool)) = mset sample_spokes \<and>
   po_observed sample_pool = [SnapshotOutcomeDeadline, SnapshotOutcomeSuccess, SnapshotOutcomeTransport]"
proof -
  have "po_main sample_pool = Returned (Ret \<lparr>Requested = 3, Reachable = 1, Unreachable = [''b'', ''c''],
      Stale = [''b''], Truncated = []\<rparr> None)" by code_simp
  from collector_exact [OF sample_start sample_pool_run this]
  have "mset (map op_spoke (po_store sample_pool)) = mset sample_ordered" by simp
  moreover have "po_observed sample_pool = [SnapshotOutcomeDeadline, SnapshotOutcomeSuccess, SnapshotOutcomeTransport]" by code_simp
  ultimately show ?thesis by (simp add: sample_ordered_def)
qed

end
