(* ===== verification/Hub_Fleet_Correct.thy ===== *)
theory Hub_Fleet_Correct
  imports Hub_Fleet Collector_Correct
begin

text \<open>
  Correctness of the fleet tables: workspaces stay apart, coverage accounts for every requested
  cluster, a stored snapshot reads back, and the store accepts what the collector hands it.
\<close>

section \<open>Workspaces stay apart\<close>

text \<open>The rows of one workspace.\<close>

definition own_clusters :: "string \<Rightarrow> fleet_db \<Rightarrow> cluster_row list" where
  "own_clusters w db = filter (\<lambda>r. cw_workspace r = w) (fd_clusters db)"

definition own_facts :: "string \<Rightarrow> fleet_db \<Rightarrow> fact_row list" where
  "own_facts w db = filter (\<lambda>f. fw_workspace f = w) (fd_facts db)"

lemma fleet_tx_result:
  "fleet_tx scope run db = (Inr x, db') \<Longrightarrow> run db = Inr (x, db')"
  "fleet_tx scope run db = (Inl e, db') \<Longrightarrow> db' = db"
  by (auto simp: fleet_tx_def split: if_splits sum.splits prod.splits)

lemma insert_facts_own:
  "insert_facts jb scope spoke es db = Inr db' \<Longrightarrow> fd_clusters db' = fd_clusters db \<and>
     (w \<noteq> sc_workspaceID scope \<longrightarrow> own_facts w db' = own_facts w db)"
  by (induction es arbitrary: db) (fastforce simp: own_facts_def split: option.splits)+

lemma update_rows_other:
  assumes "\<And>r. P r \<Longrightarrow> cw_workspace r \<noteq> w" "\<And>r. cw_workspace (f r) = cw_workspace r"
  shows "filter (\<lambda>r. cw_workspace r = w) (update_rows P f rows) = filter (\<lambda>r. cw_workspace r = w) rows"
  unfolding update_rows_def using assms by (induction rows) auto

lemma replace_snapshot_other:
  assumes "replace_snapshot_tx jb scope spoke snapshot t db = Inr (x, db')" "w \<noteq> sc_workspaceID scope"
  shows "own_clusters w db' = own_clusters w db" "own_facts w db' = own_facts w db"
proof -
  let ?db = "db\<lparr>fd_clusters := update_rows (addressed scope spoke)
                (\<lambda>r. r\<lparr>cw_lastSeen := Some (truncate_us (ss_ObservedAt snapshot)),
                       cw_attemptedAt := Some (truncate_us t), cw_errorKind := None\<rparr>) (fd_clusters db),
              fd_facts := filter (\<lambda>f. \<not> (fw_workspace f = sc_workspaceID scope \<and> fw_cluster f = sp_ID spoke)) (fd_facts db)\<rparr>"
  have ins: "insert_facts jb scope spoke (ss_Facts snapshot) ?db = Inr db'"
    using assms(1) by (auto simp: replace_snapshot_tx_def rbind_eq_Inr split: if_splits)
  have c: "fd_clusters db' = fd_clusters ?db" and f: "own_facts w db' = own_facts w ?db"
    using insert_facts_own [OF ins, of w] assms(2) by simp_all
  have "own_clusters w ?db = own_clusters w db"
    unfolding own_clusters_def using assms(2) by (simp, intro update_rows_other) (auto simp: addressed_def)
  then show "own_clusters w db' = own_clusters w db" using c by (simp add: own_clusters_def)
  have "own_facts w ?db = own_facts w db"
    unfolding own_facts_def using assms(2) by (auto intro: filter_cong)
  then show "own_facts w db' = own_facts w db" using f by simp
qed

lemma ReplaceSnapshot_other:
  assumes "ReplaceSnapshot u api jb scope spoke snapshot t db = (out, db')" "w \<noteq> sc_workspaceID scope"
  shows "own_clusters w db' = own_clusters w db \<and> own_facts w db' = own_facts w db"
proof (cases out)
  case (Inl e)
  then have "db' = db" using assms(1) fleet_tx_result(2)
    by (auto simp: ReplaceSnapshot_def split: sum.splits)
  then show ?thesis by simp
next
  case (Inr x)
  then have "fleet_tx scope (replace_snapshot_tx jb scope spoke snapshot t) db = (Inr x, db')"
    using assms(1) by (auto simp: ReplaceSnapshot_def split: sum.splits)
  from fleet_tx_result(1) [OF this] show ?thesis using replace_snapshot_other assms(2) by blast
qed

lemma MarkSnapshotFailure_other:
  assumes "MarkSnapshotFailure scope spoke failure t db = (out, db')" "w \<noteq> sc_workspaceID scope"
  shows "own_clusters w db' = own_clusters w db \<and> own_facts w db' = own_facts w db"
proof (cases out)
  case (Inl e)
  then have "db' = db" using assms(1) fleet_tx_result(2)
    by (auto simp: MarkSnapshotFailure_def split: sum.splits if_splits)
  then show ?thesis by simp
next
  case (Inr x)
  then have "fleet_tx scope (mark_failure_tx scope spoke failure t) db = (Inr x, db')"
    using assms(1) by (auto simp: MarkSnapshotFailure_def split: sum.splits if_splits)
  from fleet_tx_result(1) [OF this]
  have db': "db' = db\<lparr>fd_clusters := update_rows (addressed scope spoke)
      (\<lambda>r. r\<lparr>cw_attemptedAt := Some (truncate_us t), cw_errorKind := Some failure\<rparr>) (fd_clusters db)\<rparr>"
    by (auto simp: mark_failure_tx_def split: list.splits)
  have "own_clusters w db' = own_clusters w db"
    unfolding db' own_clusters_def using assms(2) by (simp, intro update_rows_other) (auto simp: addressed_def)
  then show ?thesis unfolding db' by (simp add: own_facts_def)
qed

text \<open>Reads see the rows of their own workspace only.\<close>

lemma own_clusters_filter: "filter (\<lambda>r. cw_workspace r = w \<and> P r) (fd_clusters db) = filter P (own_clusters w db)"
  by (simp add: own_clusters_def)

lemma readClusterStates_own:
  "own_clusters w db = own_clusters w db' \<Longrightarrow> readClusterStates w scopes db = readClusterStates w scopes db'"
  unfolding readClusterStates_def by (simp add: own_clusters_filter)

lemma queryFacts_own:
  assumes "own_facts w db = own_facts w db'"
  shows "queryFacts jb w q db = queryFacts jb w q db'"
proof -
  have "filter (fact_matches jb w q) (fd_facts d) = filter (fact_matches jb w q) (own_facts w d)" for d
    unfolding own_facts_def filter_filter by (rule filter_cong) (auto simp: fact_matches_def Let_def)
  then show ?thesis using assms by (simp add: queryFacts_def)
qed

text \<open>A read transaction of equal bodies gives equal results.\<close>

lemma fleet_tx_read:
  assumes "\<And>d. run d = rbind (g d) (\<lambda>x. Inr (x, d))" "g db = g db'"
  shows "fst (fleet_tx scope run db) = fst (fleet_tx scope run db')"
  using assms by (auto simp: fleet_tx_def split: sum.splits) (auto simp: rbind_def split: sum.splits)

datatype fleet_write =
    WriteSnapshot Spoke SpokeSnapshot Time
  | WriteFailure Spoke FailureKind Time

fun apply_write :: "unicode_case \<Rightarrow> payload_api \<Rightarrow> jsonb_api \<Rightarrow> Scope \<Rightarrow> fleet_write \<Rightarrow> fleet_db \<Rightarrow> fleet_db" where
  "apply_write u api jb scope (WriteSnapshot spoke snapshot t) db = snd (ReplaceSnapshot u api jb scope spoke snapshot t db)"
| "apply_write u api jb scope (WriteFailure spoke failure t) db = snd (MarkSnapshotFailure scope spoke failure t db)"

lemma apply_write_other:
  assumes "w \<noteq> sc_workspaceID scope"
  shows "own_clusters w (apply_write u api jb scope x db) = own_clusters w db"
    "own_facts w (apply_write u api jb scope x db) = own_facts w db"
  using ReplaceSnapshot_other [OF surjective_pairing assms] MarkSnapshotFailure_other [OF surjective_pairing assms]
  by (cases x; simp)+

text \<open>
  C26: Workspaces of the fleet store are isolated.  Whatever a caller of one workspace writes
  (snapshots or failures, for any spoke, successfully or not), every read of another workspace, of
  its registered spokes, of its fleet or of its facts under any query, gives the same answer as
  before.
\<close>

theorem fleet_workspaces_isolated:
  assumes "sc_workspaceID reader \<noteq> sc_workspaceID writer"
  shows "RegisteredSpokes reader (apply_write u api jb writer x db) = RegisteredSpokes reader db \<and>
    ReadFleet reader freshness now (apply_write u api jb writer x db) = ReadFleet reader freshness now db \<and>
    QueryFleet u jb reader query freshness now (apply_write u api jb writer x db) = QueryFleet u jb reader query freshness now db"
proof (intro conjI)
  let ?w = "sc_workspaceID reader" and ?db = "apply_write u api jb writer x db"
  note same = apply_write_other [OF assms, of u api jb x db]
  show "RegisteredSpokes reader ?db = RegisteredSpokes reader db"
    unfolding RegisteredSpokes_def
    by (rule arg_cong [where f = "rbind _"], rule ext, rule fleet_tx_read
        [where g = "\<lambda>d. rmap scan_spoke (sort_key cw_id (own_clusters ?w d))"]) (simp_all add: same own_clusters_def [symmetric])
  have states: "readClusterStates ?w scopes ?db = readClusterStates ?w scopes db" for scopes
    using same(1) by (rule readClusterStates_own)
  have "fst (fleet_tx reader (\<lambda>db. Inr (readClusterStates ?w [] db, db)) ?db) =
      fst (fleet_tx reader (\<lambda>db. Inr (readClusterStates ?w [] db, db)) db)"
    by (rule fleet_tx_read [where g = "\<lambda>d. Inr (readClusterStates ?w [] d)"]) (simp_all add: states)
  then show "ReadFleet reader freshness now ?db = ReadFleet reader freshness now db"
    unfolding ReadFleet_def by simp
  have body: "fst (fleet_tx reader (\<lambda>db. case readClusterStates ?w (fq_Scopes q) db of (states, requested) \<Rightarrow>
        rbind (queryFacts jb ?w q db) (\<lambda>es. rbind (rmap (stamp_fact states reader freshness now) es) (\<lambda>facts.
          Inr (\<lparr>qr_Facts = facts, qr_Coverage = coverageFor states requested freshness now\<rparr>, db)))) ?db) =
      fst (fleet_tx reader (\<lambda>db. case readClusterStates ?w (fq_Scopes q) db of (states, requested) \<Rightarrow>
        rbind (queryFacts jb ?w q db) (\<lambda>es. rbind (rmap (stamp_fact states reader freshness now) es) (\<lambda>facts.
          Inr (\<lparr>qr_Facts = facts, qr_Coverage = coverageFor states requested freshness now\<rparr>, db)))) db)" for q
    by (rule fleet_tx_read [where g = "\<lambda>d. case readClusterStates ?w (fq_Scopes q) d of (states, requested) \<Rightarrow>
        rbind (queryFacts jb ?w q d) (\<lambda>es. rbind (rmap (stamp_fact states reader freshness now) es) (\<lambda>facts.
          Inr \<lparr>qr_Facts = facts, qr_Coverage = coverageFor states requested freshness now\<rparr>))"])
      (auto simp: states queryFacts_own [OF same(2)] rbind_def split: prod.splits sum.splits)
  show "QueryFleet u jb reader query freshness now ?db = QueryFleet u jb reader query freshness now db"
    unfolding QueryFleet_def queryFleet_def body ..
qed

section \<open>Coverage\<close>

definition cluster_live :: "(string, clusterState) gomap \<Rightarrow> string \<Rightarrow> bool" where
  "cluster_live states i = (case map_of states i of None \<Rightarrow> False
     | Some st \<Rightarrow> ct_lastSeen st \<noteq> None \<and> ct_lastErrorKind st = [])"

definition cluster_stale :: "(string, clusterState) gomap \<Rightarrow> int \<Rightarrow> Time \<Rightarrow> string \<Rightarrow> bool" where
  "cluster_stale states freshness now i = (case map_of states i of None \<Rightarrow> False
     | Some st \<Rightarrow> fst (staleState st freshness now))"

lemma coverage_step_eq:
  "coverage_step states freshness now i c =
     c\<lparr>Reachable := Reachable c + (if cluster_live states i then 1 else 0),
       Unreachable := Unreachable c @ (if cluster_live states i then [] else [i]),
       Stale := Stale c @ (if cluster_stale states freshness now i then [i] else [])\<rparr>"
  by (auto simp: coverage_step_def cluster_live_def cluster_stale_def staleState_def Let_def split: option.splits)

lemma coverage_fold:
  "fold (coverage_step states freshness now) ids c =
     c\<lparr>Reachable := Reachable c + int (length (filter (cluster_live states) ids)),
       Unreachable := Unreachable c @ filter (Not \<circ> cluster_live states) ids,
       Stale := Stale c @ filter (cluster_stale states freshness now) ids\<rparr>"
  by (induction ids arbitrary: c) (simp_all add: coverage_step_eq)

lemma coverageFor_eq:
  "coverageFor states ids freshness now =
     \<lparr>Requested = int (length ids), Reachable = int (length (filter (cluster_live states) ids)),
      Unreachable = sort (filter (Not \<circ> cluster_live states) ids),
      Stale = sort (filter (cluster_stale states freshness now) ids), Truncated = []\<rparr>"
  by (simp add: coverageFor_def coverage_fold zero_coverage_def Let_def)

lemma coverageFor_consistent:
  assumes "distinct ids" "\<And>i. i \<in> set ids \<Longrightarrow> trim_space i \<noteq> []"
  shows "\<not> as_Inconsistent (Assessment (coverageFor states ids freshness now))"
    "as_Unaccounted (Assessment (coverageFor states ids freshness now)) = 0"
proof -
  let ?c = "coverageFor states ids freshness now"
  have scopes: "snd (coverageScopes (sort (filter P ids)))" for P
    using assms by (auto simp: coverageScopes_valid)
  have none: "snd (coverageScopes [])" by (simp add: coverageScopes_valid)
  have split: "length (filter (cluster_live states) ids) + length (filter (Not \<circ> cluster_live states) ids) = length ids"
    using sum_length_filter_compl [of "cluster_live states" ids] by (simp add: comp_def)
  have le: "\<not> length ids < length (filter P ids)" for P by (simp add: not_less)
  show con: "\<not> as_Inconsistent (Assessment ?c)"
    unfolding Assessment_Inconsistent coverageFor_eq Coverage.simps using scopes none split le by auto
  show "as_Unaccounted (Assessment ?c) = 0"
    using con split Assessment_Unaccounted [of ?c] by (simp add: coverageFor_eq)
qed

lemma coverageFor_complete:
  assumes "distinct ids" "\<And>i. i \<in> set ids \<Longrightarrow> trim_space i \<noteq> []"
  shows "Complete (coverageFor states ids freshness now) \<longleftrightarrow>
    (\<forall>i \<in> set ids. cluster_live states i \<and> \<not> cluster_stale states freshness now i)"
  using coverageFor_consistent [OF assms, of states freshness now]
  by (auto simp: Complete_def Assessment_fields assessment_gaps_def coverageFor_eq filter_empty_conv)

text \<open>
  What the proofs use of the schema's constraints on registered clusters: the primary key, an identifier that is not empty (the check \<open>clusters_id_valid\<close>
  trims spaces only, so a blank identifier of other white space passes), and an error kind that is NULL or not empty.
\<close>

definition clusters_ok :: "fleet_db \<Rightarrow> bool" where
  "clusters_ok db \<longleftrightarrow> distinct (map (\<lambda>r. (cw_workspace r, cw_id r)) (fd_clusters db)) \<and>
     list_all (\<lambda>r. cw_id r \<noteq> [] \<and> cw_errorKind r \<noteq> Some []) (fd_clusters db)"

definition cluster_fresh :: "int \<Rightarrow> Time \<Rightarrow> cluster_row \<Rightarrow> bool" where
  "cluster_fresh freshness now r \<longleftrightarrow> cw_errorKind r = None \<and>
     (case cw_lastSeen r of None \<Rightarrow> False | Some seen \<Rightarrow> now - seen \<le> freshness)"

lemma find_SomeD: "find P xs = Some x \<Longrightarrow> x \<in> set xs \<and> P x"
  by (induction xs) (auto split: if_splits)

lemma states_fold:
  assumes "distinct (map cw_id rows)"
  shows "map_of (fold (\<lambda>r m. gm_put (cw_id r) (row_state r) m) rows m) i =
    (case find (\<lambda>r. cw_id r = i) rows of None \<Rightarrow> map_of m i | Some r \<Rightarrow> Some (row_state r))"
  using assms
proof (induction rows arbitrary: m)
  case (Cons r rows)
  have "cw_id x \<noteq> cw_id r" if "x \<in> set rows" for x
    using Cons.prems imageI [OF that, of cw_id] by auto
  then have "find (\<lambda>x. cw_id x = cw_id r) rows = None" by (auto simp: find_None_iff)
  then show ?case using Cons by (auto split: option.splits)
qed simp

text \<open>A key that is unique in a list is found exactly there.\<close>

lemma find_unique:
  assumes "inj_on key (set xs)"
  shows "find (\<lambda>x. key x = k) xs = Some x \<longleftrightarrow> x \<in> set xs \<and> key x = k"
proof
  assume "x \<in> set xs \<and> key x = k"
  moreover from this obtain y where y: "find (\<lambda>x. key x = k) xs = Some y"
    by (cases "find (\<lambda>x. key x = k) xs") (auto simp: find_None_iff)
  moreover have "y \<in> set xs \<and> key y = k" using y by (rule find_SomeD)
  ultimately show "find (\<lambda>x. key x = k) xs = Some x" using inj_onD [OF assms, of y x] by simp
qed (auto dest: find_SomeD)

lemma own_clusters_inj: "clusters_ok db \<Longrightarrow> inj_on cw_id (set (own_clusters w db))"
  unfolding clusters_ok_def own_clusters_def by (auto simp: distinct_map inj_on_def)

lemma own_clusters_distinct: "clusters_ok db \<Longrightarrow> distinct (map cw_id (own_clusters w db))"
  using own_clusters_inj [of db w] unfolding clusters_ok_def own_clusters_def by (auto simp: distinct_map)

lemma states_lookup:
  assumes "clusters_ok db"
  shows "map_of (fst (readClusterStates w scopes db)) i = Some st \<longleftrightarrow>
    (\<exists>r \<in> set (own_clusters w db). cw_id r = i \<and> (scopes = [] \<or> i \<in> set scopes) \<and> st = row_state r)"
proof -
  define rows where "rows = sort_key cw_id (filter (\<lambda>r. scopes = [] \<or> List.member scopes (cw_id r)) (own_clusters w db))"
  have set: "set rows = {r \<in> set (own_clusters w db). scopes = [] \<or> cw_id r \<in> set scopes}"
    by (auto simp: rows_def)
  have inj: "inj_on cw_id (set rows)" using own_clusters_inj [OF assms, of w] unfolding set by (auto simp: inj_on_def)
  have "distinct (map cw_id rows)"
    using inj own_clusters_distinct [OF assms, of w] by (simp add: distinct_map rows_def)
  from states_fold [OF this, of "[]" i]
  have "map_of (fst (readClusterStates w scopes db)) i = map_option row_state (find (\<lambda>r. cw_id r = i) rows)"
    unfolding rows_def by (simp add: readClusterStates_def own_clusters_filter Let_def split: option.splits)
  moreover have "find (\<lambda>r. cw_id r = i) rows = Some r \<longleftrightarrow> r \<in> set rows \<and> cw_id r = i" for r
    by (rule find_unique [OF inj])
  ultimately show ?thesis unfolding set by auto
qed

lemma requested_ids:
  "snd (readClusterStates w scopes db) = (if scopes = [] then map cw_id (sort_key cw_id (own_clusters w db)) else scopes)"
  by (simp add: readClusterStates_def own_clusters_filter Let_def)

lemma cluster_state_fresh:
  assumes "clusters_ok db" "scopes = [] \<or> i \<in> set scopes"
  shows "cluster_live (fst (readClusterStates w scopes db)) i \<and> \<not> cluster_stale (fst (readClusterStates w scopes db)) freshness now i \<longleftrightarrow>
    (\<exists>r \<in> set (own_clusters w db). cw_id r = i \<and> cluster_fresh freshness now r)"
proof (cases "map_of (fst (readClusterStates w scopes db)) i")
  case None
  then have "\<nexists>r. r \<in> set (own_clusters w db) \<and> cw_id r = i"
    using states_lookup [OF assms(1), of w scopes i] assms(2) by auto
  then show ?thesis using None by (auto simp: cluster_live_def)
next
  case (Some st)
  then obtain r where r: "r \<in> set (own_clusters w db)" "cw_id r = i" "st = row_state r"
    using states_lookup [OF assms(1), of w scopes i] by auto
  have uniq: "r' = r" if "r' \<in> set (own_clusters w db)" "cw_id r' = i" for r'
    using own_clusters_inj [OF assms(1), of w] r that by (metis inj_onD)
  have err: "cw_errorKind r \<noteq> Some []" using assms(1) r(1) by (auto simp: clusters_ok_def own_clusters_def list_all_iff)
  have "cluster_live (fst (readClusterStates w scopes db)) i \<and> \<not> cluster_stale (fst (readClusterStates w scopes db)) freshness now i \<longleftrightarrow>
      cluster_fresh freshness now r"
    using Some r err by (auto simp: cluster_live_def cluster_stale_def cluster_fresh_def staleState_def row_state_def split: option.splits)
  then show ?thesis using r uniq by blast
qed

text \<open>What the coverage of a read over the clusters \<open>scopes\<close> (all of them when empty) says.\<close>

lemma read_coverage:
  assumes ok: "clusters_ok db" and scopes: "distinct scopes" "\<And>i. i \<in> set scopes \<Longrightarrow> trim_space i \<noteq> []"
    and ids: "scopes = [] \<Longrightarrow> \<forall>r \<in> set (own_clusters w db). trim_space (cw_id r) \<noteq> []"
    and read: "readClusterStates w scopes db = (states, requested)"
  shows "\<not> as_Inconsistent (Assessment (coverageFor states requested freshness now))"
    "as_Unaccounted (Assessment (coverageFor states requested freshness now)) = 0"
    "Complete (coverageFor states requested freshness now) \<longleftrightarrow>
       (\<forall>i \<in> (if scopes = [] then cw_id ` set (own_clusters w db) else set scopes).
          \<exists>r \<in> set (own_clusters w db). cw_id r = i \<and> cluster_fresh freshness now r)"
proof -
  have st: "states = fst (readClusterStates w scopes db)" and rq: "requested = snd (readClusterStates w scopes db)"
    using read by simp_all
  have dist: "distinct requested"
    unfolding rq requested_ids using scopes(1) own_clusters_distinct [OF ok, of w] by (simp add: distinct_map)
  have blank: "trim_space i \<noteq> []" if "i \<in> set requested" for i
    using that ids scopes(2) unfolding rq requested_ids by (auto split: if_splits)
  show "\<not> as_Inconsistent (Assessment (coverageFor states requested freshness now))"
    "as_Unaccounted (Assessment (coverageFor states requested freshness now)) = 0"
    using coverageFor_consistent [OF dist blank] by blast+
  have asked: "set requested = (if scopes = [] then cw_id ` set (own_clusters w db) else set scopes)"
    by (simp add: rq requested_ids)
  have "cluster_live states i \<and> \<not> cluster_stale states freshness now i \<longleftrightarrow>
      (\<exists>r \<in> set (own_clusters w db). cw_id r = i \<and> cluster_fresh freshness now r)" if "i \<in> set requested" for i
    unfolding st by (rule cluster_state_fresh [OF ok]) (use that asked in \<open>auto split: if_splits\<close>)
  then have "Complete (coverageFor states requested freshness now) \<longleftrightarrow>
      (\<forall>i \<in> set requested. \<exists>r \<in> set (own_clusters w db). cw_id r = i \<and> cluster_fresh freshness now r)"
    using coverageFor_complete [OF dist blank, of states freshness now] by (simp cong: ball_cong)
  then show "Complete (coverageFor states requested freshness now) \<longleftrightarrow>
       (\<forall>i \<in> (if scopes = [] then cw_id ` set (own_clusters w db) else set scopes).
          \<exists>r \<in> set (own_clusters w db). cw_id r = i \<and> cluster_fresh freshness now r)"
    unfolding asked .
qed

lemma dedupe_scopes_Some:
  "dedupe_scopes acc ss = Some out \<Longrightarrow> distinct acc \<Longrightarrow>
   distinct out \<and> set out = set acc \<union> set ss \<and> (\<forall>s \<in> set ss. trim_space s = s \<and> s \<noteq> [])"
proof (induction ss arbitrary: acc)
  case (Cons s ss)
  let ?acc = "if s \<in> set acc then acc else acc @ [s]"
  have step: "validateScopeSelector s" "dedupe_scopes ?acc ss = Some out"
    using Cons.prems(1) by (auto split: if_splits)
  have "distinct ?acc" "set ?acc = insert s (set acc)" using Cons.prems(2) by auto
  with Cons.IH [OF step(2)] step(1) show ?case
    unfolding validateScopeSelector_def by auto
qed simp

lemma normalizeFleetQuery_scopes:
  assumes "normalizeFleetQuery u query = Inr q"
  shows "distinct (fq_Scopes q)" "set (fq_Scopes q) = set (fq_Scopes query)" "\<And>i. i \<in> set (fq_Scopes q) \<Longrightarrow> trim_space i \<noteq> []"
    "fq_Kinds q = fq_Kinds query" "fq_Selector q = fq_Selector query" "fq_Limit q = fq_Limit query"
proof -
  obtain out where out: "dedupe_scopes [] (fq_Scopes query) = Some out" "q = query\<lparr>fq_Scopes := sort out\<rparr>"
    using assms by (auto simp: normalizeFleetQuery_def normalizeRequestedScopes_def rbind_eq_Inr split: sum.splits if_splits option.splits)
  from dedupe_scopes_Some [OF out(1)] out(2)
  show "distinct (fq_Scopes q)" "set (fq_Scopes q) = set (fq_Scopes query)" "\<And>i. i \<in> set (fq_Scopes q) \<Longrightarrow> trim_space i \<noteq> []"
    "fq_Kinds q = fq_Kinds query" "fq_Selector q = fq_Selector query" "fq_Limit q = fq_Limit query" by auto
qed

lemma fleet_tx_Inr: "fst (fleet_tx scope run db) = Inr x \<Longrightarrow> \<exists>db'. run db = Inr (x, db')"
  by (auto simp: fleet_tx_def split: if_splits sum.splits)

lemma QueryFleet_Inr:
  assumes "QueryFleet u jb scope query freshness now db = Inr r"
  obtains q states requested es where "normalizeFleetQuery u query = Inr q"
    "readClusterStates (sc_workspaceID scope) (fq_Scopes q) db = (states, requested)"
    "queryFacts jb (sc_workspaceID scope) q db = Inr es"
    "rmap (stamp_fact states scope freshness now) es = Inr (qr_Facts r)"
    "qr_Coverage r = coverageFor states requested freshness now"
proof -
  obtain q where q: "normalizeFleetQuery u query = Inr q"
    and tx: "fst (fleet_tx scope (\<lambda>db. case readClusterStates (sc_workspaceID scope) (fq_Scopes q) db of (states, requested) \<Rightarrow>
        rbind (queryFacts jb (sc_workspaceID scope) q db) (\<lambda>es. rbind (rmap (stamp_fact states scope freshness now) es) (\<lambda>facts.
          Inr (\<lparr>qr_Facts = facts, qr_Coverage = coverageFor states requested freshness now\<rparr>, db)))) db) = Inr r"
    using assms unfolding QueryFleet_def queryFleet_def by (auto simp: rbind_eq_Inr)
  obtain states requested where s: "readClusterStates (sc_workspaceID scope) (fq_Scopes q) db = (states, requested)" by fastforce
  from fleet_tx_Inr [OF tx] s that [OF q s] show ?thesis by (auto simp: rbind_eq_Inr)
qed

text \<open>
  C28: Stored coverage is honest.  In a database with the schema's primary key and checks, the
  coverage of every successful fleet read and of every successful query is consistent and leaves no
  requested cluster unaccounted for, provided that, when the query names no cluster, no registered
  identifier of the workspace is blank; the schema alone does not forbid identifiers of Unicode white space, on
  which the coverage is then inconsistent.  And it is complete exactly when each requested cluster (each
  registered one, when the query names none) is registered in the caller's workspace, was collected
  without a recorded failure, and was seen within the freshness asked for.
\<close>

theorem stored_coverage_honest:
  assumes "clusters_ok db"
    and "(\<exists>r. ReadFleet scope freshness now db = Inr r \<and> c = fr_Coverage r \<and> asked = []) \<or>
         (\<exists>query r. QueryFleet u jb scope query freshness now db = Inr r \<and> c = qr_Coverage r \<and> asked = fq_Scopes query)"
    and "asked = [] \<longrightarrow> (\<forall>r \<in> set (own_clusters (sc_workspaceID scope) db). trim_space (cw_id r) \<noteq> [])"
  shows "\<not> as_Inconsistent (Assessment c) \<and> as_Unaccounted (Assessment c) = 0 \<and>
    (Complete c \<longleftrightarrow>
      (\<forall>i \<in> (if asked = [] then cw_id ` set (own_clusters (sc_workspaceID scope) db) else set asked).
         \<exists>r \<in> set (own_clusters (sc_workspaceID scope) db). cw_id r = i \<and> cluster_fresh freshness now r))"
  using assms(2)
proof (elim disjE exE conjE)
  fix r assume r: "ReadFleet scope freshness now db = Inr r" "c = fr_Coverage r" "asked = []"
  obtain states requested where s: "readClusterStates (sc_workspaceID scope) [] db = (states, requested)" by fastforce
  have "c = coverageFor states requested freshness now"
    using r(1,2) s by (auto simp: ReadFleet_def rbind_eq_Inr dest!: fleet_tx_Inr split: prod.splits)
  then show ?thesis using read_coverage [OF assms(1) _ _ _ s, of freshness now] assms(3) r(3) by simp
next
  fix query r assume r: "QueryFleet u jb scope query freshness now db = Inr r" "c = qr_Coverage r" "asked = fq_Scopes query"
  from r(1) obtain q states requested es where q: "normalizeFleetQuery u query = Inr q"
    and s: "readClusterStates (sc_workspaceID scope) (fq_Scopes q) db = (states, requested)"
    and c: "qr_Coverage r = coverageFor states requested freshness now" by (rule QueryFleet_Inr)
  note scopes = normalizeFleetQuery_scopes [OF q]
  have "fq_Scopes q = [] \<longleftrightarrow> asked = []" using scopes(2) r(3) by (metis set_empty)
  then show ?thesis
    using read_coverage [OF assms(1) scopes(1,3) _ s, of freshness now] assms(3) scopes(2) r(2,3) c by simp
qed

section \<open>Snapshots read back\<close>

lemma insert_facts_rows:
  "insert_facts jb scope spoke es db = Inr db' \<Longrightarrow>
   \<exists>rows. fd_facts db' = fd_facts db @ rows \<and> map fw_fact rows = map (the \<circ> stored_fact jb) es \<and>
     (\<forall>e \<in> set es. stored_fact jb e \<noteq> None) \<and>
     (\<forall>row \<in> set rows. fw_workspace row = sc_workspaceID scope \<and> fw_cluster row = sp_ID spoke)"
proof (induction es arbitrary: db)
  case Nil
  then show ?case by simp
next
  case (Cons e es)
  then obtain stored where s: "stored_fact jb e = Some stored" by (auto split: option.splits)
  let ?row = "\<lparr>fw_workspace = sc_workspaceID scope, fw_id = fd_nextID db, fw_cluster = sp_ID spoke, fw_fact = stored\<rparr>"
  have "insert_facts jb scope spoke es (db\<lparr>fd_facts := fd_facts db @ [?row], fd_nextID := fd_nextID db + 1\<rparr>) = Inr db'"
    using Cons.prems s by simp
  from Cons.IH [OF this] obtain rows where rows: "fd_facts db' = fd_facts db @ ?row # rows"
    "map fw_fact rows = map (the \<circ> stored_fact jb) es" "\<forall>e \<in> set es. stored_fact jb e \<noteq> None"
    "\<forall>row \<in> set rows. fw_workspace row = sc_workspaceID scope \<and> fw_cluster row = sp_ID spoke" by auto
  then show ?case using s by (intro exI [of _ "?row # rows"]) auto
qed

text \<open>What a successful \<open>ReplaceSnapshot\<close> leaves behind.\<close>

lemma ReplaceSnapshot_Inr:
  assumes "ReplaceSnapshot u api jb scope spoke snapshot t db = (Inr (), db')"
  obtains rows where
    "requireReadScope scope = Inr ()" "sc_subject scope \<noteq> []" "Role_Valid (sc_role scope)" "is_ok (RequireWorkspace scope (sc_workspaceID scope))"
    "ValidateSnapshot u api spoke snapshot t = Inr ()" "length (filter (addressed scope spoke) (fd_clusters db)) = 1"
    "fd_clusters db' = update_rows (addressed scope spoke) (\<lambda>r. r\<lparr>cw_lastSeen := Some (truncate_us (ss_ObservedAt snapshot)),
        cw_attemptedAt := Some (truncate_us t), cw_errorKind := None\<rparr>) (fd_clusters db)"
    "fd_facts db' = filter (\<lambda>f. \<not> (fw_workspace f = sc_workspaceID scope \<and> fw_cluster f = sp_ID spoke)) (fd_facts db) @ rows"
    "map fw_fact rows = map (the \<circ> stored_fact jb) (ss_Facts snapshot)"
    "\<forall>e \<in> set (ss_Facts snapshot). stored_fact jb e \<noteq> None"
    "\<forall>row \<in> set rows. fw_workspace row = sc_workspaceID scope \<and> fw_cluster row = sp_ID spoke"
proof -
  have tx: "fleet_tx scope (replace_snapshot_tx jb scope spoke snapshot t) db = (Inr (), db')"
    and head: "requireReadScope scope = Inr ()" "ValidateSnapshot u api spoke snapshot t = Inr ()"
    using assms by (auto simp: ReplaceSnapshot_def validateCollectionInput_def split: sum.splits if_splits)
  have guard: "sc_subject scope \<noteq> []" "Role_Valid (sc_role scope)" "is_ok (RequireWorkspace scope (sc_workspaceID scope))"
    using tx by (auto simp: fleet_tx_def split: if_splits)
  from fleet_tx_result(1) [OF tx] have one: "length (filter (addressed scope spoke) (fd_clusters db)) = 1"
    and ins: "insert_facts jb scope spoke (ss_Facts snapshot)
      (db\<lparr>fd_clusters := update_rows (addressed scope spoke) (\<lambda>r. r\<lparr>cw_lastSeen := Some (truncate_us (ss_ObservedAt snapshot)),
          cw_attemptedAt := Some (truncate_us t), cw_errorKind := None\<rparr>) (fd_clusters db),
        fd_facts := filter (\<lambda>f. \<not> (fw_workspace f = sc_workspaceID scope \<and> fw_cluster f = sp_ID spoke)) (fd_facts db)\<rparr>) = Inr db'"
    by (auto simp: replace_snapshot_tx_def rbind_eq_Inr split: if_splits)
  have clusters: "fd_clusters db' = update_rows (addressed scope spoke) (\<lambda>r. r\<lparr>cw_lastSeen := Some (truncate_us (ss_ObservedAt snapshot)),
        cw_attemptedAt := Some (truncate_us t), cw_errorKind := None\<rparr>) (fd_clusters db)"
    using insert_facts_own [OF ins] by simp
  from insert_facts_rows [OF ins] obtain rows where
    "fd_facts db' = filter (\<lambda>f. \<not> (fw_workspace f = sc_workspaceID scope \<and> fw_cluster f = sp_ID spoke)) (fd_facts db) @ rows"
    "map fw_fact rows = map (the \<circ> stored_fact jb) (ss_Facts snapshot)" "\<forall>e \<in> set (ss_Facts snapshot). stored_fact jb e \<noteq> None"
    "\<forall>row \<in> set rows. fw_workspace row = sc_workspaceID scope \<and> fw_cluster row = sp_ID spoke" by auto
  with head guard one clusters that show ?thesis by blast
qed

text \<open>The query for everything a cluster reported.\<close>

definition cluster_query :: "string \<Rightarrow> FleetQuery" where
  "cluster_query i = \<lparr>fq_Kinds = [], fq_Scopes = [i], fq_Selector = zero_selector, fq_Limit = maxFleetFactLimit\<rparr>"

lemma cluster_query_scopes [simp]: "fq_Scopes (cluster_query i) = [i]"
  by (simp add: cluster_query_def)

lemma cluster_query_matches:
  "fact_matches jb w (cluster_query i) row \<longleftrightarrow> fw_workspace row = w \<and> fw_cluster row = i"
  by (simp add: fact_matches_def cluster_query_def zero_selector_def)

lemma valid_id_scope: "is_ok (validateText name i 256 False) \<Longrightarrow> validateScopeSelector i"
  by (auto simp: validateText_def validateScopeSelector_def has_control_def is_control_def list_ex_iff split: if_splits)

lemma Spoke_Validate_id: "is_ok (Spoke_Validate spoke) \<Longrightarrow> is_ok (validateText ''spoke ID'' (sp_ID spoke) 256 False)"
  by (auto simp: Spoke_Validate_def is_ok_iff rbind_eq_Inr)

lemma cluster_query_normal:
  assumes "is_ok (Spoke_Validate spoke)"
  shows "normalizeFleetQuery u (cluster_query (sp_ID spoke)) = Inr (cluster_query (sp_ID spoke))"
proof -
  have "validateScopeSelector (sp_ID spoke)" using Spoke_Validate_id [OF assms] by (rule valid_id_scope)
  moreover have "FleetQuery_Validate (cluster_query (sp_ID spoke)) = Inr ()"
    by (simp add: FleetQuery_Validate_def cluster_query_def zero_selector_def maxFleetFactLimit_def Let_def)
  ultimately show ?thesis
    by (simp add: normalizeFleetQuery_def cluster_query_def selector_supported_def zero_selector_def maxFleetFactLimit_def
        normalizeRequestedScopes_def Let_def)
qed

lemma ValidateSnapshot_facts:
  assumes "validate_facts u api spoke t0 now age i seen es = Inr ()" "e \<in> set es"
  shows "\<exists>x. validateEvidence u api spoke e t0 now age = Inr x"
  using assms by (induction u api spoke t0 now age i seen es rule: validate_facts.induct) (auto split: sum.splits if_splits)

lemma validateEvidence_source:
  "validateEvidence u api spoke e t0 now age = Inr x \<Longrightarrow>
   SourceKind (Ref e) = OCMSourceKind \<and> RefScope (Ref e) = sp_ID spoke \<and> Source e = sp_ID spoke"
  by (auto simp: validateEvidence_def split: if_splits)

lemma ValidateSnapshot_sources:
  assumes "ValidateSnapshot u api spoke snapshot t = Inr ()"
  shows "is_ok (Spoke_Validate spoke)"
    "\<And>e. e \<in> set (ss_Facts snapshot) \<Longrightarrow> SourceKind (Ref e) = OCMSourceKind \<and> RefScope (Ref e) = sp_ID spoke \<and> Source e = sp_ID spoke"
proof -
  have facts: "validate_facts u api spoke (ss_ObservedAt snapshot) t defaultSnapshotAge 0 [] (ss_Facts snapshot) = Inr ()"
    using assms by (auto simp: ValidateSnapshot_def validateSnapshot_def rbind_eq_Inr split: if_splits)
  show "is_ok (Spoke_Validate spoke)"
    using assms by (auto simp: ValidateSnapshot_def validateSnapshot_def rbind_eq_Inr)
  show "SourceKind (Ref e) = OCMSourceKind \<and> RefScope (Ref e) = sp_ID spoke \<and> Source e = sp_ID spoke"
    if "e \<in> set (ss_Facts snapshot)" for e
    using ValidateSnapshot_facts [OF facts that] validateEvidence_source by blast
qed

lemma stored_fact_source:
  assumes "stored_fact jb e \<noteq> None" "jb_ref jb (Ref e) = Some (Ref e)"
  shows "Ref (the (stored_fact jb e)) = Ref e" "Source (the (stored_fact jb e)) = Source e"
  using assms by (auto simp: stored_fact_def split: option.splits)

lemma update_rows_ok:
  assumes "clusters_ok db" "\<And>r. cw_workspace (f r) = cw_workspace r \<and> cw_id (f r) = cw_id r \<and> cw_errorKind (f r) \<noteq> Some []"
    and "fd_clusters db' = update_rows P f (fd_clusters db)"
  shows "clusters_ok db'"
proof -
  have "map (\<lambda>r. (cw_workspace r, cw_id r)) (fd_clusters db') = map (\<lambda>r. (cw_workspace r, cw_id r)) (fd_clusters db)"
    unfolding assms(3) update_rows_def using assms(2) by simp
  moreover have "cw_id r \<noteq> [] \<and> cw_errorKind r \<noteq> Some []" if "r \<in> set (fd_clusters db')" for r
    using that assms(1,2) unfolding assms(3) clusters_ok_def update_rows_def by (auto simp: list_all_iff)
  ultimately show ?thesis using assms(1) unfolding clusters_ok_def by (simp add: list_all_iff)
qed

lemma addressed_row:
  assumes "length (filter (addressed scope spoke) rows) = 1"
  obtains r where "r \<in> set rows" "cw_workspace r = sc_workspaceID scope" "cw_id r = sp_ID spoke" "addressed scope spoke r"
proof -
  obtain r where "r \<in> set (filter (addressed scope spoke) rows)" using assms by (cases "filter (addressed scope spoke) rows") auto
  with that show ?thesis by (auto simp: addressed_def)
qed

lemma rmap_all_Inr: "(\<And>x. x \<in> set xs \<Longrightarrow> f x = Inr (g x)) \<Longrightarrow> rmap f xs = Inr (map g xs)"
  by (induction xs) simp_all

lemma truncate_extend [simp]: "Evidence.truncate (Evidence.extend e more_fields) = (e :: Evidence)"
  by (cases e) (simp add: Evidence.truncate_def Evidence.extend_def)

text \<open>The state of the cluster after its snapshot was stored.\<close>

lemma replaced_state:
  assumes ok: "clusters_ok db" and one: "length (filter (addressed scope spoke) (fd_clusters db)) = 1"
    and db': "fd_clusters db' = update_rows (addressed scope spoke) (\<lambda>r. r\<lparr>cw_lastSeen := Some seen,
        cw_attemptedAt := at, cw_errorKind := None\<rparr>) (fd_clusters db)"
  shows "clusters_ok db'"
    "\<exists>st. map_of (fst (readClusterStates (sc_workspaceID scope) [sp_ID spoke] db')) (sp_ID spoke) = Some st \<and>
       ct_lastSeen st = Some seen \<and> ct_lastErrorKind st = []"
proof -
  show ok': "clusters_ok db'" by (rule update_rows_ok [OF ok _ db']) simp
  from one obtain r where r: "r \<in> set (fd_clusters db)" "cw_workspace r = sc_workspaceID scope" "cw_id r = sp_ID spoke" "addressed scope spoke r"
    by (rule addressed_row)
  let ?r = "r\<lparr>cw_lastSeen := Some seen, cw_attemptedAt := at, cw_errorKind := None\<rparr>"
  have "?r \<in> set (own_clusters (sc_workspaceID scope) db')"
    unfolding own_clusters_def db' update_rows_def using r by (auto simp: image_iff intro!: bexI [of _ r])
  then have "map_of (fst (readClusterStates (sc_workspaceID scope) [sp_ID spoke] db')) (sp_ID spoke) = Some (row_state ?r)"
    unfolding states_lookup [OF ok'] using r(3) by (auto intro!: bexI [of _ ?r])
  then show "\<exists>st. map_of (fst (readClusterStates (sc_workspaceID scope) [sp_ID spoke] db')) (sp_ID spoke) = Some st \<and>
       ct_lastSeen st = Some seen \<and> ct_lastErrorKind st = []" by (simp add: row_state_def)
qed

lemma queryFacts_cluster:
  assumes "fd_facts db = filter (\<lambda>f. \<not> (fw_workspace f = w \<and> fw_cluster f = i)) old @ rows"
    and "\<And>row. row \<in> set rows \<Longrightarrow> fw_workspace row = w \<and> fw_cluster row = i \<and> scan_fact row = Inr (fw_fact row)"
    and "length rows \<le> nat maxFleetFactLimit"
  shows "queryFacts jb w (cluster_query i) db = Inr (map fw_fact (sort_key row_order rows))"
proof -
  have "filter (fact_matches jb w (cluster_query i)) (fd_facts db) = rows"
    unfolding assms(1) using assms(2) by (auto simp: cluster_query_matches filter_empty_conv filter_id_conv)
  moreover have "take (nat maxFleetFactLimit) (sort_key row_order rows) = sort_key row_order rows"
    using assms(3) by simp
  moreover have "rmap scan_fact (sort_key row_order rows) = Inr (map fw_fact (sort_key row_order rows))"
    by (rule rmap_all_Inr) (use assms(2) in simp)
  ultimately show ?thesis
    by (simp add: queryFacts_def cluster_query_def maxFleetFactLimit_def)
qed

text \<open>
  C27: A stored snapshot reads back.  After \<open>ReplaceSnapshot\<close> succeeded for a spoke, a query for that
  cluster in the same scope succeeds and returns exactly the snapshot's facts, each as its row
  stores it (the payload as \<open>jsonb\<close> text, times in microseconds), none left from an earlier
  snapshot, none marked stale while the snapshot is fresh; and the coverage is one cluster asked,
  one reached.  This needs references to survive their JSON columns, and a snapshot of at most the
  1000 facts that a query can return.
\<close>

theorem snapshot_roundtrip:
  assumes "clusters_ok db"
    and "ReplaceSnapshot u api jb scope spoke snapshot t db = (Inr (), db')"
    and "\<forall>e \<in> set (ss_Facts snapshot). jb_ref jb (Ref e) = Some (Ref e)"
    and "length (ss_Facts snapshot) \<le> 1000"
    and "validateFreshness freshness now = Inr ()" "now - truncate_us (ss_ObservedAt snapshot) \<le> freshness"
  shows "\<exists>r. QueryFleet u jb scope (cluster_query (sp_ID spoke)) freshness now db' = Inr r \<and>
    mset (map Evidence.truncate (qr_Facts r)) = mset (map (the \<circ> stored_fact jb) (ss_Facts snapshot)) \<and>
    (\<forall>f \<in> set (qr_Facts r). FWorkspace f = sc_workspaceID scope \<and> \<not> FStale f) \<and>
    qr_Coverage r = \<lparr>Requested = 1, Reachable = 1, Unreachable = [], Stale = [], Truncated = []\<rparr>"
proof -
  let ?w = "sc_workspaceID scope" and ?i = "sp_ID spoke"
  from assms(2) obtain rows where head: "requireReadScope scope = Inr ()" "sc_subject scope \<noteq> []" "Role_Valid (sc_role scope)"
      "is_ok (RequireWorkspace scope ?w)"
    and valid: "ValidateSnapshot u api spoke snapshot t = Inr ()"
    and one: "length (filter (addressed scope spoke) (fd_clusters db)) = 1"
    and clusters: "fd_clusters db' = update_rows (addressed scope spoke) (\<lambda>r. r\<lparr>cw_lastSeen := Some (truncate_us (ss_ObservedAt snapshot)),
        cw_attemptedAt := Some (truncate_us t), cw_errorKind := None\<rparr>) (fd_clusters db)"
    and facts: "fd_facts db' = filter (\<lambda>f. \<not> (fw_workspace f = ?w \<and> fw_cluster f = ?i)) (fd_facts db) @ rows"
    and rows: "map fw_fact rows = map (the \<circ> stored_fact jb) (ss_Facts snapshot)"
    and stored: "\<forall>e \<in> set (ss_Facts snapshot). stored_fact jb e \<noteq> None"
    and own: "\<forall>row \<in> set rows. fw_workspace row = ?w \<and> fw_cluster row = ?i"
    by (rule ReplaceSnapshot_Inr)
  note sources = ValidateSnapshot_sources [OF valid]
  from replaced_state [OF assms(1) one clusters] obtain st where
    st: "map_of (fst (readClusterStates ?w [?i] db')) ?i = Some st" "ct_lastSeen st = Some (truncate_us (ss_ObservedAt snapshot))"
      "ct_lastErrorKind st = []" by blast
  have ref: "Ref (fw_fact row) = Ref e \<and> Source (fw_fact row) = Source e"
    if "row \<in> set rows" "fw_fact row = the (stored_fact jb e)" "e \<in> set (ss_Facts snapshot)" for row e
    using stored_fact_source [OF bspec [OF stored that(3)]] assms(3) that by simp
  have scope: "SourceKind (Ref (fw_fact row)) = OCMSourceKind \<and> RefScope (Ref (fw_fact row)) = ?i \<and> Source (fw_fact row) = ?i"
    if "row \<in> set rows" for row
  proof -
    have "fw_fact row \<in> set (map (the \<circ> stored_fact jb) (ss_Facts snapshot))"
      unfolding rows [symmetric] using that by simp
    then obtain e where e: "e \<in> set (ss_Facts snapshot)" "fw_fact row = the (stored_fact jb e)" by auto
    then show ?thesis using ref [OF that e(2,1)] sources(2) [OF e(1)] by metis
  qed
  have "length rows = length (ss_Facts snapshot)" using arg_cong [OF rows, of length] by simp
  then have query: "queryFacts jb ?w (cluster_query ?i) db' = Inr (map fw_fact (sort_key row_order rows))"
    by (intro queryFacts_cluster [OF facts]) (use own scope assms(4) in \<open>auto simp: scan_fact_def maxFleetFactLimit_def\<close>)
  obtain states where read: "readClusterStates ?w [?i] db' = (states, [?i])"
    using requested_ids [of ?w "[?i]" db'] by (cases "readClusterStates ?w [?i] db'") simp
  then have st1: "map_of states ?i = Some st" using st(1) by simp
  let ?fact = "\<lambda>e. Evidence.extend e \<lparr>FWorkspace = ?w, FStale = False, FStaleFor = []\<rparr>"
  have stale: "staleState st freshness now = (False, [])" using st(2,3) assms(6) by (simp add: staleState_def)
  have stamp: "rmap (stamp_fact states scope freshness now) (map fw_fact (sort_key row_order rows)) =
      Inr (map ?fact (map fw_fact (sort_key row_order rows)))"
    by (rule rmap_all_Inr) (use scope st1 stale in \<open>auto simp: stamp_fact_def\<close>)
  have cov: "coverageFor states [?i] freshness now = \<lparr>Requested = 1, Reachable = 1, Unreachable = [], Stale = [], Truncated = []\<rparr>"
    using st1 st(2,3) stale by (simp add: coverageFor_eq cluster_live_def cluster_stale_def)
  let ?r = "\<lparr>qr_Facts = map ?fact (map fw_fact (sort_key row_order rows)),
    qr_Coverage = \<lparr>Requested = 1, Reachable = 1, Unreachable = [], Stale = [], Truncated = []\<rparr>\<rparr>"
  show ?thesis
  proof (intro exI [of _ ?r] conjI)
    show "QueryFleet u jb scope (cluster_query ?i) freshness now db' = Inr ?r"
      using head query stamp read cov cluster_query_normal [OF sources(1), of u] assms(5)
      by (simp add: QueryFleet_def queryFleet_def fleet_tx_def)
    have eq: "map Evidence.truncate (qr_Facts ?r) = map fw_fact (sort_key row_order rows)"
      by (simp add: comp_def)
    show "mset (map Evidence.truncate (qr_Facts ?r)) = mset (map (the \<circ> stored_fact jb) (ss_Facts snapshot))"
      unfolding eq rows [symmetric] by simp
    show "\<forall>f \<in> set (qr_Facts ?r). FWorkspace f = ?w \<and> \<not> FStale f" by (auto simp: Evidence.extend_def)
  qed simp
qed

section \<open>Collector and store\<close>

text \<open>The store accepts encodable facts for a registered spoke.\<close>

lemma insert_facts_accepts:
  "(\<And>e. e \<in> set es \<Longrightarrow> stored_fact jb e \<noteq> None) \<Longrightarrow> \<exists>db'. insert_facts jb scope spoke es db = Inr db'"
  by (induction es arbitrary: db) (auto split: option.splits)

definition store_admits :: "Scope \<Rightarrow> Spoke \<Rightarrow> fleet_db \<Rightarrow> bool" where
  "store_admits scope spoke db \<longleftrightarrow> requireReadScope scope = Inr () \<and> sc_subject scope \<noteq> [] \<and>
     length (filter (addressed scope spoke) (fd_clusters db)) = 1"

lemma store_admits_tx:
  assumes "store_admits scope spoke db"
  shows "fleet_tx scope run db = (case run db of Inl e \<Rightarrow> (Inl e, db) | Inr (x, db') \<Rightarrow> (Inr x, db'))"
proof -
  have "Role_Allows (sc_role scope) ActionRead" "sc_workspaceID scope \<noteq> []"
    using assms by (auto simp: store_admits_def requireReadScope_def Authorize_def split: if_splits sum.splits)
  then have "Role_Valid (sc_role scope)" "is_ok (RequireWorkspace scope (sc_workspaceID scope))"
    by (auto simp: Role_Allows_unfold RequireWorkspace_def)
  then show ?thesis using assms by (simp add: fleet_tx_def store_admits_def)
qed

lemma ReplaceSnapshot_accepts:
  assumes admits: "store_admits scope spoke db" and "t \<noteq> 0" "ValidateSnapshot u api spoke snapshot t = Inr ()"
    and facts: "\<And>e. e \<in> set (ss_Facts snapshot) \<Longrightarrow> stored_fact jb e \<noteq> None"
  shows "fst (ReplaceSnapshot u api jb scope spoke snapshot t db) = Inr ()"
proof -
  have one: "length (filter (addressed scope spoke) (fd_clusters db)) = 1" and scope: "requireReadScope scope = Inr ()"
    using admits by (simp_all add: store_admits_def)
  have "\<exists>db'. insert_facts jb scope spoke (ss_Facts snapshot) d = Inr db'" for d
    by (rule insert_facts_accepts) (rule facts)
  then have "\<exists>db'. replace_snapshot_tx jb scope spoke snapshot t db = Inr ((), db')"
    unfolding replace_snapshot_tx_def using one by (simp add: rbind_eq_Inr)
  then show ?thesis
    using assms(2,3) scope by (auto simp: ReplaceSnapshot_def validateCollectionInput_def store_admits_tx [OF admits])
qed

lemma MarkSnapshotFailure_accepts:
  assumes admits: "store_admits scope spoke db" and "t \<noteq> 0" "is_ok (Spoke_Validate spoke)" "validFailureKind failure"
  shows "\<exists>retained. fst (MarkSnapshotFailure scope spoke failure t db) = Inr retained"
proof -
  have scope: "requireReadScope scope = Inr ()" using admits by (simp add: store_admits_def)
  obtain r rs where "filter (addressed scope spoke) (fd_clusters db) = r # rs"
    using admits by (cases "filter (addressed scope spoke) (fd_clusters db)") (auto simp: store_admits_def)
  then show ?thesis
    using assms(2-4) scope by (simp add: MarkSnapshotFailure_def mark_failure_tx_def store_admits_tx [OF admits])
qed

text \<open>A stricter age limit accepts less.\<close>

lemma validateEvidence_mono:
  "validateEvidence u api spoke e t0 now age = Inr x \<Longrightarrow> age \<le> age' \<Longrightarrow> validateEvidence u api spoke e t0 now age' = Inr x"
  by (auto simp: validateEvidence_def rbind_eq_Inr split: if_splits)

lemma validate_facts_mono:
  "validate_facts u api spoke t0 now age i seen es = Inr x \<Longrightarrow> age \<le> age' \<Longrightarrow>
   validate_facts u api spoke t0 now age' i seen es = Inr x"
proof (induction es arbitrary: i seen)
  case (Cons e es)
  then obtain y where "validateEvidence u api spoke e t0 now age = Inr y" by (auto split: sum.splits)
  with validateEvidence_mono [OF this Cons.prems(2)] Cons show ?case by (auto split: if_splits)
qed simp

lemma validateSnapshot_mono:
  "is_ok (validateSnapshot u api spoke snapshot now age) \<Longrightarrow> age \<le> defaultSnapshotAge \<Longrightarrow>
   ValidateSnapshot u api spoke snapshot now = Inr ()"
  by (auto simp: ValidateSnapshot_def validateSnapshot_def is_ok_iff rbind_eq_Inr split: if_splits intro: validate_facts_mono)

text \<open>Registration survives every write of the collector.\<close>

lemma update_rows_addressed:
  assumes "\<And>r. cw_workspace (f r) = cw_workspace r \<and> cw_id (f r) = cw_id r \<and> cw_ref (f r) = cw_ref r"
  shows "length (filter (addressed scope spoke) (update_rows P f rows)) = length (filter (addressed scope spoke) rows)"
  unfolding update_rows_def using assms by (induction rows) (auto simp: addressed_def)

lemma apply_write_admits:
  assumes "store_admits scope spoke db"
  shows "store_admits scope spoke (apply_write u api jb scope x db)"
proof (cases x)
  case (WriteSnapshot s snapshot t)
  obtain out db' where run: "ReplaceSnapshot u api jb scope s snapshot t db = (out, db')" by fastforce
  show ?thesis
  proof (cases out)
    case (Inl e)
    then have "db' = db" using run fleet_tx_result(2) by (auto simp: ReplaceSnapshot_def split: sum.splits)
    then show ?thesis using WriteSnapshot run assms by simp
  next
    case (Inr z)
    then have "ReplaceSnapshot u api jb scope s snapshot t db = (Inr (), db')" using run by simp
    then have "fd_clusters db' = update_rows (addressed scope s) (\<lambda>r. r\<lparr>cw_lastSeen := Some (truncate_us (ss_ObservedAt snapshot)),
        cw_attemptedAt := Some (truncate_us t), cw_errorKind := None\<rparr>) (fd_clusters db)" by (rule ReplaceSnapshot_Inr)
    then show ?thesis using WriteSnapshot run assms
      by (simp add: store_admits_def update_rows_addressed)
  qed
next
  case (WriteFailure s failure t)
  then show ?thesis using assms
    by (auto simp: MarkSnapshotFailure_def store_admits_def fleet_tx_def mark_failure_tx_def update_rows_addressed
        split: sum.splits list.splits)
qed

lemma apply_writes_admit:
  "store_admits scope spoke db \<Longrightarrow> store_admits scope spoke (fold (apply_write u api jb scope) xs db)"
  by (induction xs arbitrary: db) (simp_all add: apply_write_admits)

lemma RegisteredSpokes_admit:
  assumes ok: "clusters_ok db" and reg: "RegisteredSpokes scope db = Inr spokes" and s: "spoke \<in> set spokes"
  shows "store_admits scope spoke db" "is_ok (Spoke_Validate spoke)"
proof -
  have guard: "requireReadScope scope = Inr ()" "sc_subject scope \<noteq> []"
    and rows: "rmap scan_spoke (sort_key cw_id (own_clusters (sc_workspaceID scope) db)) = Inr spokes"
    using reg by (auto simp: RegisteredSpokes_def rbind_eq_Inr fleet_tx_def own_clusters_def split: if_splits sum.splits)
  from rmap_Inr_all [OF rows s] obtain r where r: "r \<in> set (own_clusters (sc_workspaceID scope) db)" "scan_spoke r = Inr spoke" by auto
  then have spoke: "sp_ID spoke = cw_id r" "sp_ManagedClusterRef spoke = cw_ref r" and v: "is_ok (Spoke_Validate spoke)"
    by (auto simp: scan_spoke_def Let_def split: option.splits sum.splits)
  show "is_ok (Spoke_Validate spoke)" by (rule v)
  have in_r: "r \<in> set (fd_clusters db)" "cw_workspace r = sc_workspaceID scope" using r(1) by (auto simp: own_clusters_def)
  have "distinct (filter (addressed scope spoke) (fd_clusters db))"
    using ok by (auto simp: clusters_ok_def distinct_map)
  moreover have "set (filter (addressed scope spoke) (fd_clusters db)) = {r}"
    using ok in_r spoke unfolding clusters_ok_def by (auto simp: addressed_def distinct_map inj_on_def)
  ultimately have "length (filter (addressed scope spoke) (fd_clusters db)) = 1"
    by (metis distinct_card card.empty card.insert empty_iff finite.emptyI One_nat_def)
  then show "store_admits scope spoke db" using guard by (simp add: store_admits_def)
qed

text \<open>
  C29: The store keeps up with the collector.  Take the spokes registered in a workspace, run the
  collector on them with an age limit of at most the standard five minutes, and let any number of
  its writes reach the store.  Then every result a worker offers (that is not a panic and carries an
  attempt time) is accepted: a validated snapshot by \<open>ReplaceSnapshot\<close>, provided its facts can be
  encoded, and a failure by \<open>MarkSnapshotFailure\<close>.  So the store never aborts such a refresh.
\<close>

theorem store_accepts_collected:
  assumes "clusters_ok db" "RegisteredSpokes scope db = Inr registered"
    and "collectWorkspace k (Some registered) = Inr (spokes, p0)"
    and "maxAge \<le> defaultSnapshotAge" "pool_run u api maxAge spokes p0 es = Some p"
    and "WSending r \<in> set (po_workers p)" "sr_err r = None" "sr_attemptedAt r \<noteq> 0"
    and "\<forall>e \<in> set (ss_Facts (sr_snapshot r)). stored_fact jb e \<noteq> None"
  shows "(sr_failure r = [] \<longrightarrow> fst (ReplaceSnapshot u api jb scope (sr_spoke r) (sr_snapshot r) (sr_attemptedAt r)
            (fold (apply_write u api jb scope) writes db)) = Inr ()) \<and>
    (sr_failure r \<noteq> [] \<longrightarrow> (\<exists>retained. fst (MarkSnapshotFailure scope (sr_spoke r) (sr_failure r) (sr_attemptedAt r)
            (fold (apply_write u api jb scope) writes db)) = Inr retained))"
proof -
  have ok: "pool_ok u api maxAge spokes (nat (min k (int (length spokes)))) p"
    using pool_run_ok assms(5) collectWorkspace_start(4) [OF assms(3)] by blast
  have r: "result_ok u api maxAge r" using ok assms(6) unfolding pool_ok_def by blast
  have "sr_spoke r \<in> set (held (po_workers p))" by (rule set_held [OF _ assms(6)]) simp
  moreover have "mset (held (po_workers p)) + mset (map op_spoke (po_store p)) \<subseteq># mset (take (po_next p) spokes)"
    using ok unfolding pool_ok_def by blast
  note set_mset_mono [OF this]
  ultimately have "sr_spoke r \<in> set (take (po_next p) spokes)" by auto
  then have "sr_spoke r \<in> set registered"
    using assms(3) by (auto simp: collectWorkspace_def validateSpokes_def rbind_eq_Inr split: sum.splits if_splits dest: in_set_takeD)
  note reg = RegisteredSpokes_admit [OF assms(1,2) this]
  note admits = apply_writes_admit [OF reg(1), of u api jb writes]
  show ?thesis
  proof (intro conjI impI)
    assume "sr_failure r = []"
    then have "is_ok (validateSnapshot u api (sr_spoke r) (sr_snapshot r) (sr_attemptedAt r) maxAge)"
      using r assms(7) by (simp add: result_ok_def)
    from validateSnapshot_mono [OF this assms(4)] show "fst (ReplaceSnapshot u api jb scope (sr_spoke r) (sr_snapshot r) (sr_attemptedAt r)
            (fold (apply_write u api jb scope) writes db)) = Inr ()"
      using ReplaceSnapshot_accepts [OF admits assms(8)] assms(9) by blast
  next
    assume "sr_failure r \<noteq> []"
    then have "validFailureKind (sr_failure r)" using r assms(7) by (simp add: result_ok_def validFailureKind_def)
    then show "\<exists>retained. fst (MarkSnapshotFailure scope (sr_spoke r) (sr_failure r) (sr_attemptedAt r)
            (fold (apply_write u api jb scope) writes db)) = Inr retained"
      using MarkSnapshotFailure_accepts [OF admits assms(8) reg(2)] by blast
  qed
qed

text \<open>
  The age limit matters.  The collector accepts a longer limit, up to one hour, but the store always
  validates with the standard one: a snapshot between the two is handed over by the collector and
  refused by the store, which ends the refresh of every other spoke as well.
\<close>

lemma older_snapshot_refused:
  "\<exists>u api spoke snapshot t. is_ok (NewCollector \<lparr>cc_required = True, cc_SpokeTimeout = 0, cc_MaxSnapshotAge = maxSnapshotAge,
       cc_MaxConcurrentSpokes = 0\<rparr>) \<and>
     is_ok (validateSnapshot u api spoke snapshot t maxSnapshotAge) \<and> \<not> is_ok (validateCollectionInput u api spoke snapshot t)"
proof -
  let ?spoke = "\<lparr>sp_ID = ''a'', sp_ManagedClusterRef = ''ocm/a'', sp_Labels = []\<rparr>"
  let ?old = "\<lparr>ss_ObservedAt = 1000, ss_Facts = []\<rparr>"
  have "is_ok (NewCollector \<lparr>cc_required = True, cc_SpokeTimeout = 0, cc_MaxSnapshotAge = maxSnapshotAge, cc_MaxConcurrentSpokes = 0\<rparr>)"
    by code_simp
  moreover have "is_ok (validateSnapshot ascii_case sample_payloads ?spoke ?old 600000001000 maxSnapshotAge)" by code_simp
  moreover have "\<not> is_ok (validateCollectionInput ascii_case sample_payloads ?spoke ?old 600000001000)" by code_simp
  ultimately show ?thesis by blast
qed

section \<open>A workspace with three clusters\<close>

definition sample_jsonb :: jsonb_api where
  "sample_jsonb = \<lparr>jb_payload = Some, jb_ref = Some, jb_provenance = Some, jb_display = Some,
     jb_hasStatus = (\<lambda>p. False), jb_status = (\<lambda>p. None), jb_hasDigest = (\<lambda>p d. False), jb_image = (\<lambda>p. None), jb_hasID = (\<lambda>p i. False)\<rparr>"

definition sample_fleet :: fleet_db where
  "sample_fleet = \<lparr>fd_clusters = map (\<lambda>i. \<lparr>cw_workspace = ''payments'', cw_id = i, cw_ref = ''ocm/'' @ i, cw_labels = Some [],
       cw_lastSeen = None, cw_attemptedAt = None, cw_errorKind = None\<rparr>) [''a'', ''b'', ''c''],
     fd_facts = [], fd_nextID = 1\<rparr>"

definition sample_fact :: Evidence where
  "sample_fact = \<lparr>Ref = \<lparr>SourceKind = OCMSourceKind, RefScope = ''a'', RefKind = ''Pod'', RefNamespace = [], RefName = ''web'', Attributes = []\<rparr>,
     FKind = FactInventory, Observed = ''doc'', Display = [], ObservedAt = 5000, Source = ''a'',
     FProvenance = \<lparr>Adapter = OCMSourceKind, ProtocolV = snapshotProtocolVersion, NativeID = [], DeepLink = [], Collector = []\<rparr>\<rparr>"

definition sample_api :: payload_api where
  "sample_api = \<lparr>pl_tokens = sample_tokenizer, pl_imageDigests = (\<lambda>s. Some None), pl_cve = (\<lambda>s. None)\<rparr>"

definition sample_snapshot :: SpokeSnapshot where
  "sample_snapshot = \<lparr>ss_ObservedAt = 5000, ss_Facts = [sample_fact]\<rparr>"

definition sample_spoke :: Spoke where
  "sample_spoke = \<lparr>sp_ID = ''a'', sp_ManagedClusterRef = ''ocm/a'', sp_Labels = []\<rparr>"

abbreviation sample_reader :: Scope where
  "sample_reader \<equiv> sample_scope RoleReader"

lemma sample_fleet_ok: "clusters_ok sample_fleet"
  by code_simp

theorem fleet_workspaces_isolated_witness:
  "QueryFleet ascii_case sample_jsonb (sample_reader\<lparr>sc_workspaceID := ''billing''\<rparr>) (cluster_query ''a'') defaultSnapshotAge 6000
     (apply_write ascii_case sample_api sample_jsonb sample_reader (WriteSnapshot sample_spoke sample_snapshot 6000) sample_fleet) =
   QueryFleet ascii_case sample_jsonb (sample_reader\<lparr>sc_workspaceID := ''billing''\<rparr>) (cluster_query ''a'') defaultSnapshotAge 6000 sample_fleet"
proof -
  have "sc_workspaceID (sample_reader\<lparr>sc_workspaceID := ''billing''\<rparr>) \<noteq> sc_workspaceID sample_reader" by (simp add: sample_scope_def)
  from fleet_workspaces_isolated [OF this] show ?thesis by blast
qed

theorem snapshot_roundtrip_witness:
  "\<exists>db' r. ReplaceSnapshot ascii_case sample_api sample_jsonb sample_reader sample_spoke sample_snapshot 6000 sample_fleet = (Inr (), db') \<and>
     QueryFleet ascii_case sample_jsonb sample_reader (cluster_query ''a'') defaultSnapshotAge 6000 db' = Inr r \<and>
     map Evidence.truncate (qr_Facts r) = [sample_fact]"
proof -
  have "fst (ReplaceSnapshot ascii_case sample_api sample_jsonb sample_reader sample_spoke sample_snapshot 6000 sample_fleet) = Inr ()"
    by code_simp
  then obtain db' where run: "ReplaceSnapshot ascii_case sample_api sample_jsonb sample_reader sample_spoke sample_snapshot 6000 sample_fleet = (Inr (), db')"
    by (metis prod.collapse)
  have "validateFreshness defaultSnapshotAge 6000 = Inr ()" "6000 - truncate_us (ss_ObservedAt sample_snapshot) \<le> defaultSnapshotAge"
    by code_simp+
  from snapshot_roundtrip [OF sample_fleet_ok run _ _ this] obtain r where
    r: "QueryFleet ascii_case sample_jsonb sample_reader (cluster_query (sp_ID sample_spoke)) defaultSnapshotAge 6000 db' = Inr r"
      "mset (map Evidence.truncate (qr_Facts r)) = mset (map (the \<circ> stored_fact sample_jsonb) (ss_Facts sample_snapshot))"
    by (auto simp: sample_jsonb_def sample_snapshot_def)
  have "map (the \<circ> stored_fact sample_jsonb) (ss_Facts sample_snapshot) = [sample_fact]" by code_simp
  then have "map Evidence.truncate (qr_Facts r) = [sample_fact]" using r(2) by (metis mset_single_iff mset.simps)
  then show ?thesis using run r(1) by (auto simp: sample_spoke_def)
qed

theorem stored_coverage_honest_witness:
  "\<exists>r. ReadFleet sample_reader defaultSnapshotAge 6000 sample_fleet = Inr r \<and> \<not> Complete (fr_Coverage r) \<and>
     as_Unaccounted (Assessment (fr_Coverage r)) = 0"
proof -
  have "is_ok (ReadFleet sample_reader defaultSnapshotAge 6000 sample_fleet)" by code_simp
  then obtain r where r: "ReadFleet sample_reader defaultSnapshotAge 6000 sample_fleet = Inr r" by (auto simp: is_ok_iff)
  have "own_clusters (sc_workspaceID sample_reader) sample_fleet \<noteq> []" "\<forall>r \<in> set (own_clusters (sc_workspaceID sample_reader) sample_fleet). \<not> cluster_fresh defaultSnapshotAge 6000 r"
    by (simp_all add: own_clusters_def sample_fleet_def sample_scope_def cluster_fresh_def)
  moreover have "list_all (\<lambda>r. trim_space (cw_id r) \<noteq> []) (own_clusters (sc_workspaceID sample_reader) sample_fleet)" by code_simp
  then have "\<forall>r \<in> set (own_clusters (sc_workspaceID sample_reader) sample_fleet). trim_space (cw_id r) \<noteq> []" by (simp only: list_all_iff)
  ultimately show ?thesis
    using stored_coverage_honest [OF sample_fleet_ok, of sample_reader defaultSnapshotAge 6000 "fr_Coverage r" "[]" ascii_case sample_jsonb] r
    by fastforce
qed

text \<open>A cluster whose identifier is a no-break space satisfies the schema and makes the coverage inconsistent.\<close>

definition blank_fleet :: fleet_db where
  "blank_fleet = sample_fleet\<lparr>fd_clusters := map (\<lambda>r. r\<lparr>cw_id := [CHR 0xC2, CHR 0xA0]\<rparr>) (take 1 (fd_clusters sample_fleet))\<rparr>"

lemma blank_cluster_inconsistent:
  "clusters_ok blank_fleet \<and>
   (\<exists>r. ReadFleet sample_reader defaultSnapshotAge 6000 blank_fleet = Inr r \<and> as_Inconsistent (Assessment (fr_Coverage r)))"
proof
  show "clusters_ok blank_fleet" by code_simp
  have "case ReadFleet sample_reader defaultSnapshotAge 6000 blank_fleet of Inl _ \<Rightarrow> False | Inr r \<Rightarrow> as_Inconsistent (Assessment (fr_Coverage r))"
    by code_simp
  then show "\<exists>r. ReadFleet sample_reader defaultSnapshotAge 6000 blank_fleet = Inr r \<and> as_Inconsistent (Assessment (fr_Coverage r))"
    unfolding case_ok_iff by blast
qed

definition sample_result :: spokeCollectionResult where
  "sample_result = \<lparr>sr_spoke = \<lparr>sp_ID = ''b'', sp_ManagedClusterRef = ''ocm/b'', sp_Labels = []\<rparr>, sr_snapshot = zero_snapshot,
     sr_failure = FailureDeadline, sr_err = None, sr_attemptedAt = 1000\<rparr>"

theorem store_accepts_collected_witness:
  "\<exists>retained. fst (MarkSnapshotFailure sample_reader (sr_spoke sample_result) FailureDeadline 1000
     (apply_write ascii_case sample_payloads sample_jsonb sample_reader (WriteFailure sample_spoke FailureTransport 900) sample_fleet)) = Inr retained"
proof -
  have reg: "RegisteredSpokes sample_reader sample_fleet = Inr sample_ordered" by code_simp
  have start: "collectWorkspace 2 (Some sample_ordered) = Inr (sample_ordered, pool_start 2 sample_ordered)" by code_simp
  have "List.member (po_workers sample_busy) (WSending sample_result)" by code_simp
  then have sending: "WSending sample_result \<in> set (po_workers sample_busy)" by simp
  have r: "sr_err sample_result = None" "sr_attemptedAt sample_result \<noteq> 0"
    "\<forall>e \<in> set (ss_Facts (sr_snapshot sample_result)). stored_fact sample_jsonb e \<noteq> None" "sr_failure sample_result = FailureDeadline"
    by (simp_all add: sample_result_def zero_snapshot_def)
  from store_accepts_collected [OF sample_fleet_ok reg start order_refl sample_busy_run sending r(1-3),
      of "[WriteFailure sample_spoke FailureTransport 900]"] r(4)
  show ?thesis by (auto simp: sample_result_def)
qed

end
