(* ===== verification/Hub_Refresh.thy ===== *)
theory Hub_Refresh
  imports Hub_Collector Policy_PEP
begin

text \<open>
  The refresh coordinator (\<open>hubfleet/refresh_coordinator.go\<close>) and the entry point
  \<open>Collector.Collect\<close>: every caller is authorised on its own, then joins the one active refresh of
  its workspace.  Flights live in a heap indexed by the order of their creation; the goroutines
  started by \<open>go coordinator.run\<close> and the callers blocked in \<open>waitForRefresh\<close> are part of the
  state.
\<close>

section \<open>State\<close>

record refreshFlight =
  fl_done :: bool
  fl_coverage :: Coverage
  fl_err :: "collect_error option"

text \<open>
  A caller in \<open>waitForRefresh\<close>: its scope, its flight, and how many flights had finished when it
  entered.  A reply is what the flight gave it, or \<open>None\<close> when its own context ended first.
\<close>

record refresh_wait =
  wt_caller :: nat
  wt_scope :: Scope
  wt_flight :: nat
  wt_since :: nat

text \<open>\<open>rc_finished\<close> is the history of \<open>finish\<close>: flight, workspace and outcome, in order.\<close>

record refreshCoordinator =
  rc_flights :: "(string, nat) gomap"
  rc_heap :: "refreshFlight list"
  rc_running :: "(nat \<times> string) list"
  rc_waiting :: "refresh_wait list"
  rc_finished :: "(nat \<times> string \<times> Coverage \<times> collect_error option) list"
  rc_replies :: "(refresh_wait \<times> (Coverage \<times> collect_error option) option) list"

definition newRefreshCoordinator :: refreshCoordinator where
  "newRefreshCoordinator =
     \<lparr>rc_flights = [], rc_heap = [], rc_running = [], rc_waiting = [], rc_finished = [], rc_replies = []\<rparr>"

definition activeFlights :: "refreshCoordinator \<Rightarrow> nat" where
  "activeFlights co = length (rc_flights co)"

section \<open>Entering\<close>

datatype call_error =
    CallParts
  | CallScope tenancy_error
  | CallWorkspace
  | CallTrace trace_error
  | CallPolicy pep_error
  | CallCanceled

text \<open>
  \<open>refreshCoordinator.collect\<close> up to \<open>waitForRefresh\<close>, under the mutex: the flight of the workspace, or a new
  one whose goroutine is started.
\<close>

definition coordinator_collect ::
  "bool \<Rightarrow> string \<Rightarrow> refreshCoordinator \<Rightarrow> (call_error, nat) result \<times> refreshCoordinator" where
  "coordinator_collect cancelled workspaceID co =
     (if cancelled then (Inl CallCanceled, co)
      else case map_of (rc_flights co) workspaceID of
        Some flight \<Rightarrow> (Inr flight, co)
      | None \<Rightarrow>
          (let flight = length (rc_heap co) in
           (Inr flight, co\<lparr>rc_heap := rc_heap co @ [\<lparr>fl_done = False, fl_coverage = zero_coverage, fl_err = None\<rparr>],
                          rc_flights := gm_put workspaceID flight (rc_flights co),
                          rc_running := (flight, workspaceID) # rc_running co\<rparr>)))"

text \<open>
  One call of \<open>Collect\<close>: the enforcer with its state, the random bytes for a trace identifier, the
  elapsed times the enforcer observes, the caller's context and whether it has already ended.
\<close>

record refresh_call =
  cl_caller :: nat
  cl_enforcer :: "Enforcer option"
  cl_mint :: "string option"
  cl_elapsed :: "int \<times> int"
  cl_ctx :: "go_context option"
  cl_cancelled :: bool
  cl_scope :: Scope
  cl_policy :: pep_state

text \<open>The guards of \<open>Collect\<close> before it reaches the coordinator.\<close>

definition Collect_guard :: "(string \<Rightarrow> string) \<Rightarrow> refresh_call \<Rightarrow> (call_error, unit) result \<times> pep_state" where
  "Collect_guard sha call =
     (if cl_enforcer call = None \<or> cl_ctx call = None then (Inl CallParts, cl_policy call)
      else case Authorize (cl_scope call) ActionRead of
        Inl e \<Rightarrow> (Inl (CallScope e), cl_policy call)
      | Inr _ \<Rightarrow>
          if \<not> is_ok (ValidateWorkspaceID (sc_workspaceID (cl_scope call))) then (Inl CallWorkspace, cl_policy call)
          else case Ensure (cl_mint call) (cl_ctx call) of
            Inl e \<Rightarrow> (Inl (CallTrace e), cl_policy call)
          | Inr (ctx, _) \<Rightarrow>
              (case AuthorizeRead (cl_enforcer call) (cl_mint call) (cl_elapsed call) (Some ctx) (cl_scope call)
                      (NewReadInput sha VerbSpokeSnapshotRefresh []) (cl_policy call) of
                 (Inl e, st) \<Rightarrow> (Inl (CallPolicy e), st)
               | (Inr _, st) \<Rightarrow> (Inr (), st)))"

definition Collect ::
  "(string \<Rightarrow> string) \<Rightarrow> refresh_call \<Rightarrow> refreshCoordinator \<Rightarrow> (call_error, nat) result \<times> pep_state \<times> refreshCoordinator" where
  "Collect sha call co =
     (case Collect_guard sha call of
        (Inl e, st) \<Rightarrow> (Inl e, st, co)
      | (Inr _, st) \<Rightarrow>
          (case coordinator_collect (cl_cancelled call) (sc_workspaceID (cl_scope call)) co of
             (Inl e, co') \<Rightarrow> (Inl e, st, co')
           | (Inr flight, co') \<Rightarrow>
               (Inr flight, st, co'\<lparr>rc_waiting := \<lparr>wt_caller = cl_caller call, wt_scope = cl_scope call,
                  wt_flight = flight, wt_since = length (rc_finished co)\<rparr> # rc_waiting co'\<rparr>)))"

section \<open>Running and waiting\<close>

text \<open>
  The body of \<open>run\<close> and its deferred recovery: the lifecycle context carries no values, so a fresh
  trace identifier is minted; a panic of the work becomes an error with empty coverage.
\<close>

definition refresh_run :: "string option \<Rightarrow> collect_outcome \<Rightarrow> Coverage \<times> collect_error option" where
  "refresh_run mint work =
     (case Ensure mint (Some None) of
        Inl e \<Rightarrow> (zero_coverage, Some (FlightTrace e))
      | Inr _ \<Rightarrow> (case work of Panicked \<Rightarrow> (zero_coverage, Some FlightPanicked) | Ret c e \<Rightarrow> (c, e)))"

definition finish ::
  "string \<Rightarrow> nat \<Rightarrow> Coverage \<times> collect_error option \<Rightarrow> refreshCoordinator \<Rightarrow> refreshCoordinator" where
  "finish workspaceID flight result co =
     co\<lparr>rc_heap := (rc_heap co)[flight := \<lparr>fl_done = True, fl_coverage = fst result, fl_err = snd result\<rparr>],
        rc_flights := (if map_of (rc_flights co) workspaceID = Some flight
                       then gm_del workspaceID (rc_flights co) else rc_flights co),
        rc_finished := rc_finished co @ [(flight, workspaceID, fst result, snd result)]\<rparr>"

text \<open>
  \<open>waitForRefresh\<close>: \<open>None\<close> while it blocks; both of its selects prefer the finished flight over the
  end of the caller's context, which gives \<open>Some None\<close>.
\<close>

definition waitForRefresh :: "bool \<Rightarrow> refreshFlight \<Rightarrow> (Coverage \<times> collect_error option) option option" where
  "waitForRefresh cancelled flight =
     (if fl_done flight then Some (Some (fl_coverage flight, fl_err flight))
      else if cancelled then Some None
      else None)"

datatype refresh_event =
    CallEnters refresh_call
  | FlightEnds nat "string option" collect_outcome
  | CallResumes refresh_wait bool

fun refresh_exec :: "(string \<Rightarrow> string) \<Rightarrow> refreshCoordinator \<Rightarrow> refresh_event \<Rightarrow> refreshCoordinator option" where
  "refresh_exec sha co (CallEnters call) = Some (snd (snd (Collect sha call co)))"
| "refresh_exec sha co (FlightEnds flight mint work) =
     (case map_of (rc_running co) flight of
        None \<Rightarrow> None
      | Some workspaceID \<Rightarrow>
          Some (finish workspaceID flight (refresh_run mint work)
                  (co\<lparr>rc_running := AList.delete flight (rc_running co)\<rparr>)))"
| "refresh_exec sha co (CallResumes w cancelled) =
     (if List.member (rc_waiting co) w then
        (case waitForRefresh cancelled (rc_heap co ! wt_flight w) of
           None \<Rightarrow> None
         | Some reply \<Rightarrow> Some (co\<lparr>rc_waiting := remove1 w (rc_waiting co), rc_replies := (w, reply) # rc_replies co\<rparr>))
      else None)"

section \<open>The invariant\<close>

text \<open>
  Flights that run are exactly the registered ones; flights that finished are closed and hold the
  outcome of their run; every caller waits for a flight of its own workspace that had not finished
  when it came.
\<close>

definition refresh_ok :: "refreshCoordinator \<Rightarrow> bool" where
  "refresh_ok co \<longleftrightarrow>
     gm_wf (rc_flights co) \<and> distinct (map fst (rc_running co)) \<and>
     (\<forall>f ws. (f, ws) \<in> set (rc_running co) \<longleftrightarrow> map_of (rc_flights co) ws = Some f) \<and>
     (\<forall>f ws. (f, ws) \<in> set (rc_running co) \<longrightarrow> f < length (rc_heap co) \<and> \<not> fl_done (rc_heap co ! f)) \<and>
     (\<forall>f ws c e. (f, ws, c, e) \<in> set (rc_finished co) \<longrightarrow>
        f < length (rc_heap co) \<and> rc_heap co ! f = \<lparr>fl_done = True, fl_coverage = c, fl_err = e\<rparr>)"

definition wait_ok :: "refreshCoordinator \<Rightarrow> refresh_wait \<Rightarrow> bool" where
  "wait_ok co w \<longleftrightarrow> wt_since w \<le> length (rc_finished co) \<and>
     ((wt_flight w, sc_workspaceID (wt_scope w)) \<in> set (rc_running co) \<or>
      (\<exists>c e. (wt_flight w, sc_workspaceID (wt_scope w), c, e) \<in> set (drop (wt_since w) (rc_finished co))))"

definition reply_ok :: "refreshCoordinator \<Rightarrow> refresh_wait \<times> (Coverage \<times> collect_error option) option \<Rightarrow> bool" where
  "reply_ok co x = (case x of (w, None) \<Rightarrow> True
     | (w, Some (c, e)) \<Rightarrow>
         (wt_flight w, sc_workspaceID (wt_scope w), c, e) \<in> set (drop (wt_since w) (rc_finished co)))"

definition coordinator_ok :: "refreshCoordinator \<Rightarrow> bool" where
  "coordinator_ok co \<longleftrightarrow> refresh_ok co \<and> list_all (wait_ok co) (rc_waiting co) \<and> list_all (reply_ok co) (rc_replies co)"

lemma refresh_ok_start: "coordinator_ok newRefreshCoordinator"
  by (simp add: coordinator_ok_def refresh_ok_def newRefreshCoordinator_def)

text \<open>The waiters and the replies are not read by the other parts of the invariant.\<close>

lemma refresh_frames [simp]:
  "refresh_ok (co\<lparr>rc_waiting := ws\<rparr>) = refresh_ok co" "refresh_ok (co\<lparr>rc_replies := rs\<rparr>) = refresh_ok co"
  "wait_ok (co\<lparr>rc_waiting := ws\<rparr>) = wait_ok co" "wait_ok (co\<lparr>rc_replies := rs\<rparr>) = wait_ok co"
  "reply_ok (co\<lparr>rc_waiting := ws\<rparr>) = reply_ok co" "reply_ok (co\<lparr>rc_replies := rs\<rparr>) = reply_ok co"
  by (simp_all add: refresh_ok_def wait_ok_def reply_ok_def fun_eq_iff)

lemma refresh_ok_finished_fresh:
  "refresh_ok co \<Longrightarrow> (f, ws) \<in> set (rc_running co) \<Longrightarrow> (f, v, c, e) \<notin> set (rc_finished co)"
  unfolding refresh_ok_def by fastforce

text \<open>Entering: only \<open>rc_flights\<close>, the heap and the goroutines grow.\<close>

lemma coordinator_collect_ok:
  assumes ok: "refresh_ok co" and enter: "coordinator_collect b ws co = (Inr f, co')"
  shows "refresh_ok co'" "(f, ws) \<in> set (rc_running co')" "set (rc_running co) \<subseteq> set (rc_running co')"
    "rc_finished co' = rc_finished co" "rc_waiting co' = rc_waiting co" "rc_replies co' = rc_replies co"
proof -
  have "refresh_ok co' \<and> (f, ws) \<in> set (rc_running co') \<and> set (rc_running co) \<subseteq> set (rc_running co') \<and>
    rc_finished co' = rc_finished co \<and> rc_waiting co' = rc_waiting co \<and> rc_replies co' = rc_replies co"
  proof (cases "map_of (rc_flights co) ws")
    case (Some g)
    then have "f = g" "co' = co" using enter by (auto simp: coordinator_collect_def split: if_splits)
    then show ?thesis using ok Some unfolding refresh_ok_def by blast
  next
    case None
    have new: "co' = co\<lparr>rc_heap := rc_heap co @ [\<lparr>fl_done = False, fl_coverage = zero_coverage, fl_err = None\<rparr>],
        rc_flights := gm_put ws (length (rc_heap co)) (rc_flights co),
        rc_running := (length (rc_heap co), ws) # rc_running co\<rparr>" "f = length (rc_heap co)"
      using enter None by (auto simp: coordinator_collect_def Let_def split: if_splits)
    have small: "g < length (rc_heap co)" if "(g, v) \<in> set (rc_running co)" for g v
      using ok that unfolding refresh_ok_def by blast
    have old: "(g, v) \<in> set (rc_running co) \<longleftrightarrow> map_of (rc_flights co) v = Some g" for g v
      using ok unfolding refresh_ok_def by blast
    have "refresh_ok co'"
      unfolding refresh_ok_def
    proof (intro conjI allI impI)
      show "gm_wf (rc_flights co')" using ok unfolding new refresh_ok_def by simp
      show "distinct (map fst (rc_running co'))"
        using ok small unfolding new refresh_ok_def by fastforce
      show "((g, v) \<in> set (rc_running co')) = (map_of (rc_flights co') v = Some g)" for g v
        using None old unfolding new by auto
      show "g < length (rc_heap co')" "\<not> fl_done (rc_heap co' ! g)" if "(g, v) \<in> set (rc_running co')" for g v
        using ok that small unfolding new refresh_ok_def by (fastforce simp: nth_append)+
      show "g < length (rc_heap co')" "rc_heap co' ! g = \<lparr>fl_done = True, fl_coverage = c, fl_err = e\<rparr>"
        if "(g, v, c, e) \<in> set (rc_finished co')" for g v c e
        using ok that unfolding new refresh_ok_def by (fastforce simp: nth_append)+
    qed
    then show ?thesis unfolding new by auto
  qed
  then show "refresh_ok co'" "(f, ws) \<in> set (rc_running co')" "set (rc_running co) \<subseteq> set (rc_running co')"
    "rc_finished co' = rc_finished co" "rc_waiting co' = rc_waiting co" "rc_replies co' = rc_replies co" by simp_all
qed

lemma coordinator_collect_error:
  "coordinator_collect b ws co = (Inl e, co') \<Longrightarrow> co' = co"
  by (auto simp: coordinator_collect_def Let_def split: if_splits option.splits)

lemma wait_ok_mono:
  "wait_ok co w \<Longrightarrow> set (rc_running co) \<subseteq> set (rc_running co') \<Longrightarrow> rc_finished co' = rc_finished co \<Longrightarrow> wait_ok co' w"
  unfolding wait_ok_def by auto

text \<open>A guard that refuses leaves the coordinator alone; a call that passes registers one waiter.\<close>

lemma Collect_refused: "fst (Collect_guard sha call) \<noteq> Inr () \<Longrightarrow> snd (snd (Collect sha call co)) = co"
  by (auto simp: Collect_def split: prod.splits sum.splits)

lemma Collect_cases:
  obtains (refused) "snd (snd (Collect sha call co)) = co"
    | (joined) f co' where "coordinator_collect (cl_cancelled call) (sc_workspaceID (cl_scope call)) co = (Inr f, co')"
      "snd (snd (Collect sha call co)) = co'\<lparr>rc_waiting := \<lparr>wt_caller = cl_caller call, wt_scope = cl_scope call,
         wt_flight = f, wt_since = length (rc_finished co)\<rparr> # rc_waiting co'\<rparr>"
proof -
  obtain r st where g: "Collect_guard sha call = (r, st)" by fastforce
  obtain q co' where c: "coordinator_collect (cl_cancelled call) (sc_workspaceID (cl_scope call)) co = (q, co')" by fastforce
  show ?thesis
  proof (cases r)
    case (Inl e)
    then show ?thesis using refused g by (simp add: Collect_def)
  next
    case (Inr z)
    then show ?thesis using refused joined g c coordinator_collect_error
      by (cases q) (fastforce simp: Collect_def)+
  qed
qed

lemma coordinator_ok_enter:
  assumes ok: "coordinator_ok co"
  shows "coordinator_ok (snd (snd (Collect sha call co)))"
proof (cases rule: Collect_cases [of sha call co])
  case refused
  then show ?thesis using ok by simp
next
  case (joined f co')
  note keep = coordinator_collect_ok [OF _ joined(1)]
  have r: "refresh_ok co" using ok unfolding coordinator_ok_def by blast
  have "wait_ok co' w" if "wait_ok co w" for w
    by (rule wait_ok_mono [OF that keep(3) [OF r] keep(4) [OF r]])
  moreover have "reply_ok co' = reply_ok co" using keep(4) [OF r] by (simp add: reply_ok_def fun_eq_iff)
  moreover have "wait_ok co' \<lparr>wt_caller = cl_caller call, wt_scope = cl_scope call, wt_flight = f, wt_since = length (rc_finished co)\<rparr>"
    using keep(2,4) [OF r] by (simp add: wait_ok_def)
  ultimately show ?thesis
    using ok keep(1,5,6) [OF r] unfolding joined(2) coordinator_ok_def by (auto simp: list_all_iff)
qed


lemma coordinator_ok_finish:
  assumes ok: "coordinator_ok co" and run: "map_of (rc_running co) f = Some ws"
  shows "coordinator_ok (finish ws f result (co\<lparr>rc_running := AList.delete f (rc_running co)\<rparr>))"
    (is "coordinator_ok ?co'")
proof -
  have r: "refresh_ok co" using ok unfolding coordinator_ok_def by blast
  then have dist: "distinct (map fst (rc_running co))" unfolding refresh_ok_def by blast
  have mem: "(f, ws) \<in> set (rc_running co)" using run by (rule map_of_SomeD)
  then have reg: "map_of (rc_flights co) ws = Some f" using r unfolding refresh_ok_def by blast
  have running: "(g, v) \<in> set (rc_running ?co') \<longleftrightarrow> (g, v) \<in> set (rc_running co) \<and> g \<noteq> f" for g v
    by (simp add: finish_def AList.delete_eq) blast
  have flights: "map_of (rc_flights ?co') v = (if v = ws then None else map_of (rc_flights co) v)" for v
    using reg by (simp add: finish_def)
  have uniq: "v = ws" if "(f, v) \<in> set (rc_running co)" for v
    using that mem dist by (metis map_of_eq_Some_iff option.inject)
  have old: "(g, v) \<in> set (rc_running co) \<longleftrightarrow> map_of (rc_flights co) v = Some g" for g v
    using r unfolding refresh_ok_def by blast
  have iff: "(g, v) \<in> set (rc_running ?co') \<longleftrightarrow> map_of (rc_flights ?co') v = Some g" for g v
  proof (cases "v = ws")
    case True
    then show ?thesis unfolding running flights using old [of g ws] reg by auto
  next
    case False
    then have "(f, v) \<notin> set (rc_running co)" using uniq by blast
    then show ?thesis unfolding running flights using False old [of g v] by auto
  qed
  have fin: "rc_finished ?co' = rc_finished co @ [(f, ws, fst result, snd result)]"
    and heap: "rc_heap ?co' = (rc_heap co)[f := \<lparr>fl_done = True, fl_coverage = fst result, fl_err = snd result\<rparr>]"
    and same: "rc_waiting ?co' = rc_waiting co" "rc_replies ?co' = rc_replies co"
    by (simp_all add: finish_def)
  have lt: "f < length (rc_heap co)" using r mem unfolding refresh_ok_def by blast
  have "refresh_ok ?co'"
    unfolding refresh_ok_def
  proof (intro conjI allI impI)
    show "gm_wf (rc_flights ?co')" using r unfolding refresh_ok_def finish_def by simp
    show "distinct (map fst (rc_running ?co'))" using dist by (simp add: finish_def distinct_map_filter AList.delete_eq)
    show "((g, v) \<in> set (rc_running ?co')) = (map_of (rc_flights ?co') v = Some g)" for g v by (rule iff)
    show "g < length (rc_heap ?co')" "\<not> fl_done (rc_heap ?co' ! g)" if "(g, v) \<in> set (rc_running ?co')" for g v
      using r that unfolding running heap refresh_ok_def by auto
    show "g < length (rc_heap ?co')" "rc_heap ?co' ! g = \<lparr>fl_done = True, fl_coverage = c, fl_err = e\<rparr>"
      if "(g, v, c, e) \<in> set (rc_finished ?co')" for g v c e
    proof -
      have "(g, v, c, e) \<in> set (rc_finished co) \<and> g \<noteq> f \<or> g = f \<and> c = fst result \<and> e = snd result"
        using that refresh_ok_finished_fresh [OF r mem] unfolding fin by auto
      then show "g < length (rc_heap ?co')" "rc_heap ?co' ! g = \<lparr>fl_done = True, fl_coverage = c, fl_err = e\<rparr>"
        using r lt unfolding heap refresh_ok_def by auto
    qed
  qed
  moreover have "wait_ok ?co' w" if "wait_ok co w" for w
    using that uniq unfolding wait_ok_def fin running
    by (cases result) auto
  moreover have "reply_ok ?co' x" if "reply_ok co x" for x
    using that unfolding reply_ok_def fin by (auto split: prod.splits option.splits)
  ultimately show ?thesis using ok unfolding coordinator_ok_def same by (auto simp: list_all_iff)
qed

lemma wait_ok_flight:
  assumes "refresh_ok co" "wait_ok co w"
  shows "fl_done (rc_heap co ! wt_flight w) \<longleftrightarrow> (wt_flight w, sc_workspaceID (wt_scope w)) \<notin> set (rc_running co)"
    "fl_done (rc_heap co ! wt_flight w) \<Longrightarrow>
       (wt_flight w, sc_workspaceID (wt_scope w), fl_coverage (rc_heap co ! wt_flight w), fl_err (rc_heap co ! wt_flight w))
         \<in> set (drop (wt_since w) (rc_finished co))"
proof -
  have run: "\<not> fl_done (rc_heap co ! wt_flight w)" if "(wt_flight w, sc_workspaceID (wt_scope w)) \<in> set (rc_running co)"
    using assms(1) that unfolding refresh_ok_def by blast
  have fin: "rc_heap co ! wt_flight w = \<lparr>fl_done = True, fl_coverage = c, fl_err = e\<rparr>"
    if "(wt_flight w, sc_workspaceID (wt_scope w), c, e) \<in> set (drop (wt_since w) (rc_finished co))" for c e
    using assms(1) in_set_dropD [OF that] unfolding refresh_ok_def by blast
  from assms(2) consider "(wt_flight w, sc_workspaceID (wt_scope w)) \<in> set (rc_running co)"
    | c e where "(wt_flight w, sc_workspaceID (wt_scope w), c, e) \<in> set (drop (wt_since w) (rc_finished co))"
    unfolding wait_ok_def by blast
  note split = this
  show "fl_done (rc_heap co ! wt_flight w) \<longleftrightarrow> (wt_flight w, sc_workspaceID (wt_scope w)) \<notin> set (rc_running co)"
    using split by cases (use run fin in force)+
  show "(wt_flight w, sc_workspaceID (wt_scope w), fl_coverage (rc_heap co ! wt_flight w), fl_err (rc_heap co ! wt_flight w))
         \<in> set (drop (wt_since w) (rc_finished co))" if d: "fl_done (rc_heap co ! wt_flight w)"
    using split
  proof cases
    case 1
    then show ?thesis using run d by blast
  next
    case (2 c e)
    then show ?thesis using fin [OF 2] by simp
  qed
qed

lemma coordinator_ok_step:
  assumes ok: "coordinator_ok co" and step: "refresh_exec sha co e = Some co'"
  shows "coordinator_ok co'"
proof (cases e)
  case (CallEnters call)
  then show ?thesis using coordinator_ok_enter [OF ok] step by auto
next
  case (FlightEnds f mint work)
  then show ?thesis using coordinator_ok_finish [OF ok, of f _ "refresh_run mint work"] step by (auto split: option.splits)
next
  case (CallResumes w cancelled)
  then obtain reply where w: "w \<in> set (rc_waiting co)" and reply: "waitForRefresh cancelled (rc_heap co ! wt_flight w) = Some reply"
    and co': "co' = co\<lparr>rc_waiting := remove1 w (rc_waiting co), rc_replies := (w, reply) # rc_replies co\<rparr>"
    using step by (auto split: if_splits option.splits)
  have "refresh_ok co" "wait_ok co w" using ok w unfolding coordinator_ok_def by (auto simp: list_all_iff)
  then have "reply_ok co (w, reply)"
    using reply wait_ok_flight(2) by (auto simp: waitForRefresh_def reply_ok_def split: if_splits)
  then show ?thesis
    using ok notin_set_remove1 unfolding co' coordinator_ok_def
    by (force simp: list_all_iff)
qed

interpretation refresh: safety_system "\<lambda>co. co = newRefreshCoordinator" "\<lambda>co e co'. refresh_exec sha co e = Some co'"
  coordinator_ok for sha
  by unfold_locales (use refresh_ok_start coordinator_ok_step in blast)+


section \<open>Single flight\<close>

text \<open>
  C20: Refreshes are single-flight and never cross workspaces.  In every reachable state of the
  coordinator: no workspace has two running refreshes, and the registered flights are exactly the
  running ones; a caller that \<open>Collect\<close> refuses (scope, workspace, trace or policy) changes nothing; a
  caller that waits is blocked exactly as long as the refresh it joined, one of its own workspace,
  is still running, so it is never left behind; and an outcome handed to a caller is that of a
  refresh of the caller's own workspace which finished after the caller came in.
\<close>

theorem refresh_single_flight:
  assumes "reach (\<lambda>co. co = newRefreshCoordinator) (\<lambda>co e co'. refresh_exec sha co e = Some co') co"
  shows "distinct (map snd (rc_running co)) \<and> activeFlights co = length (rc_running co) \<and>
    (\<forall>call. fst (Collect_guard sha call) \<noteq> Inr () \<longrightarrow> refresh_exec sha co (CallEnters call) = Some co) \<and>
    (\<forall>w \<in> set (rc_waiting co). waitForRefresh False (rc_heap co ! wt_flight w) = None \<longleftrightarrow>
       (wt_flight w, sc_workspaceID (wt_scope w)) \<in> set (rc_running co)) \<and>
    (\<forall>w c e. (w, Some (c, e)) \<in> set (rc_replies co) \<longrightarrow>
       (wt_flight w, sc_workspaceID (wt_scope w), c, e) \<in> set (drop (wt_since w) (rc_finished co)))"
proof (intro conjI allI impI ballI)
  have ok: "coordinator_ok co" using assms by (rule refresh.reach_inv)
  then have r: "refresh_ok co" unfolding coordinator_ok_def by blast
  have dist: "distinct (map fst (rc_running co))" and wf: "gm_wf (rc_flights co)"
    and iff: "\<And>f ws. (f, ws) \<in> set (rc_running co) \<longleftrightarrow> map_of (rc_flights co) ws = Some f"
    using r unfolding refresh_ok_def by blast+
  show snd: "distinct (map snd (rc_running co))"
    using dist iff by (auto simp: distinct_map inj_on_def)
  have "set (rc_running co) = (\<lambda>(ws, f). (f, ws)) ` set (rc_flights co)"
    using iff gm_wf_in_iff [OF wf] by (force simp: image_iff)
  then have "card (set (rc_running co)) = card (set (rc_flights co))"
    by (simp add: card_image inj_on_def split_def prod_eq_iff)
  then show "activeFlights co = length (rc_running co)"
    using dist wf by (simp add: activeFlights_def gm_wf_def distinct_map distinct_card)
  show "refresh_exec sha co (CallEnters call) = Some co" if "fst (Collect_guard sha call) \<noteq> Inr ()" for call
    using Collect_refused [OF that] by simp
  show "waitForRefresh False (rc_heap co ! wt_flight w) = None \<longleftrightarrow>
      (wt_flight w, sc_workspaceID (wt_scope w)) \<in> set (rc_running co)" if "w \<in> set (rc_waiting co)" for w
    using wait_ok_flight(1) [OF r, of w] ok that
    by (auto simp: coordinator_ok_def list_all_iff waitForRefresh_def)
  show "(wt_flight w, sc_workspaceID (wt_scope w), c, e) \<in> set (drop (wt_since w) (rc_finished co))"
    if "(w, Some (c, e)) \<in> set (rc_replies co)" for w c e
    using ok that by (fastforce simp: coordinator_ok_def list_all_iff reply_ok_def)
qed

fun refresh_trace :: "(string \<Rightarrow> string) \<Rightarrow> refreshCoordinator \<Rightarrow> refresh_event list \<Rightarrow> refreshCoordinator option" where
  "refresh_trace sha co [] = Some co"
| "refresh_trace sha co (e # es) =
     (case refresh_exec sha co e of None \<Rightarrow> None | Some co' \<Rightarrow> refresh_trace sha co' es)"

lemma refresh_trace_reach:
  "reach init (\<lambda>co e co'. refresh_exec sha co e = Some co') co \<Longrightarrow> refresh_trace sha co es = Some co' \<Longrightarrow>
   reach init (\<lambda>co e co'. refresh_exec sha co e = Some co') co'"
proof (induction es arbitrary: co)
  case Nil
  then show ?case by simp
next
  case (Cons e es)
  then show ?case by (auto split: option.splits intro: reach_step)
qed

text \<open>Two callers of one workspace share a flight; one gives up, the other gets the coverage.\<close>

definition sample_call :: "nat \<Rightarrow> refresh_call" where
  "sample_call n = \<lparr>cl_caller = n, cl_enforcer = Some sample_enforcer, cl_mint = sample_mint, cl_elapsed = (5, 7),
     cl_ctx = Some None, cl_cancelled = False, cl_scope = sample_scope RoleReader, cl_policy = sample_pep_state\<rparr>"

definition sample_wait :: "nat \<Rightarrow> refresh_wait" where
  "sample_wait n = \<lparr>wt_caller = n, wt_scope = sample_scope RoleReader, wt_flight = 0, wt_since = 0\<rparr>"

definition sample_refresh :: "refreshCoordinator option" where
  "sample_refresh = refresh_trace sample_sha newRefreshCoordinator
     [CallEnters (sample_call 1), CallEnters (sample_call 2), CallResumes (sample_wait 1) True,
      FlightEnds 0 sample_mint (Ret (zero_coverage\<lparr>Requested := 1, Reachable := 1\<rparr>) None),
      CallResumes (sample_wait 2) True]"

theorem refresh_single_flight_witness:
  "\<exists>co. sample_refresh = Some co \<and>
     (sample_wait 2, Some (zero_coverage\<lparr>Requested := 1, Reachable := 1\<rparr>, None)) \<in> set (rc_replies co) \<and>
     (0, ''payments'', zero_coverage\<lparr>Requested := 1, Reachable := 1\<rparr>, None) \<in> set (rc_finished co)"
proof -
  have "(case sample_refresh of None \<Rightarrow> False | Some co \<Rightarrow>
      List.member (rc_replies co) (sample_wait 2, Some (zero_coverage\<lparr>Requested := 1, Reachable := 1\<rparr>, None)))"
    by code_simp
  then obtain co where co: "sample_refresh = Some co"
    and reply: "(sample_wait 2, Some (zero_coverage\<lparr>Requested := 1, Reachable := 1\<rparr>, None)) \<in> set (rc_replies co)"
    by (auto split: option.splits)
  have "reach (\<lambda>co. co = newRefreshCoordinator) (\<lambda>co e co'. refresh_exec sample_sha co e = Some co') co"
    by (rule refresh_trace_reach [OF reach_init co [unfolded sample_refresh_def]]) simp
  from refresh_single_flight [OF this] reply
  have "(wt_flight (sample_wait 2), sc_workspaceID (wt_scope (sample_wait 2)), zero_coverage\<lparr>Requested := 1, Reachable := 1\<rparr>, None)
      \<in> set (drop (wt_since (sample_wait 2)) (rc_finished co))" by blast
  then show ?thesis using co reply by (auto simp: sample_wait_def sample_scope_def)
qed

end
