(* ===== verification/Go_Path.thy ===== *)
theory Go_Path
  imports Go_Text
begin

text \<open>\<open>strings.Split\<close> and \<open>path.Clean\<close>, with what splitting, joining and cleaning have to do with each other.\<close>

text \<open>\<open>strings.Split\<close> with a one-character separator.\<close>

fun split_on :: "char \<Rightarrow> string \<Rightarrow> string list" where
  "split_on sep [] = [[]]"
| "split_on sep (c # cs) =
     (if c = sep then [] # split_on sep cs
      else case split_on sep cs of [] \<Rightarrow> [[c]] | w # ws \<Rightarrow> (c # w) # ws)"

text \<open>\<open>path.Clean\<close>, component by component: \<open>acc\<close> is the cleaned prefix.\<close>

definition clean_step :: "bool \<Rightarrow> string list \<Rightarrow> string \<Rightarrow> string list" where
  "clean_step rooted acc c =
     (if c = [] \<or> c = ''.'' then acc
      else if c = ''..'' then
        (if acc \<noteq> [] \<and> last acc \<noteq> ''..'' then butlast acc else if rooted then acc else acc @ [c])
      else acc @ [c])"

definition path_clean :: "string \<Rightarrow> string" where
  "path_clean p =
     (let rooted = has_prefix p ''/'';
          out = (if rooted then ''/'' else []) @ join (foldl (clean_step rooted) [] (split_on CHR ''/'' p)) ''/''
      in if out = [] then ''.'' else out)"

lemma split_on_not_Nil [simp]: "split_on sep s \<noteq> []"
  by (induction s) (auto split: list.splits)

lemma join_Cons: "ws \<noteq> [] \<Longrightarrow> join (w # ws) sep = w @ sep @ join ws sep"
  by (cases ws) simp_all

lemma join_split_on: "join (split_on sep s) [sep] = s"
proof (induction s)
  case (Cons c s)
  obtain w ws where split: "split_on sep s = w # ws" by (cases "split_on sep s") simp_all
  with Cons show ?case by (cases ws) (auto simp: join_Cons)
qed simp

lemma clean_good:
  "list_all (\<lambda>c. c \<noteq> [] \<and> c \<noteq> ''.'' \<and> c \<noteq> ''..'') cs \<Longrightarrow> foldl (clean_step rooted) acc cs = acc @ cs"
  by (induction cs arbitrary: acc) (auto simp: clean_step_def)

lemma split_on_slash_first: "has_prefix s [sep] \<Longrightarrow> [] \<in> set (split_on sep s)"
  by (cases s) (auto simp: has_prefix_def)

lemma split_on_last: "s \<noteq> [] \<Longrightarrow> last s = sep \<Longrightarrow> last (split_on sep s) = [] \<and> 2 \<le> length (split_on sep s)"
proof (induction s)
  case (Cons a s)
  obtain w ws where "split_on sep s = w # ws" by (cases "split_on sep s") simp_all
  with Cons show ?case by (cases "s = []"; cases ws) auto
qed simp

lemma split_on_slash_last: "s \<noteq> [] \<Longrightarrow> last s = sep \<Longrightarrow> [] \<in> set (split_on sep s)"
  using split_on_last [of s sep] last_in_set [of "split_on sep s"] by simp

lemma has_suffix_char: "has_suffix s [c] \<longleftrightarrow> s \<noteq> [] \<and> last s = c"
  by (cases s rule: rev_cases) (auto simp: has_suffix_def has_prefix_def)

lemma str_contains_char: "str_contains s [c] \<longleftrightarrow> c \<in> set s"
  by (induction s) (auto simp: str_contains_def has_prefix_def split: option.splits)

end
