(* ===== verification/Brain_Graph.thy ===== *)
theory Brain_Graph
  imports Brain_Rules Fleet_Graph Go_JSON Go_Path
begin

text \<open>
  Graph facts as evidence (\<open>brain/graph.go\<close>): the projection of reviewed Argo CD, GitHub and Elasticsearch facts into normalized
  observations. The record \<open>graph_codec\<close> stands for \<open>encoding/json\<close>: the tokens of a payload, its members as raw
  values, the first value decoded strictly with what follows it, and the text of the identity that is hashed.
  Times in that identity are rendered by the codec.
\<close>

subsection \<open>Payloads\<close>

abbreviation argoGraphProtocolVersion :: string where "argoGraphProtocolVersion \<equiv> ''1.0.0''"
abbreviation githubWorkflowGraphProtocolVersion :: string where "githubWorkflowGraphProtocolVersion \<equiv> ''workflow-runs/2026-03-10''"
abbreviation elasticsearchGraphSource :: string where "elasticsearchGraphSource \<equiv> ''elasticsearch''"
abbreviation elasticsearchGraphProtocolVersion :: string where "elasticsearchGraphProtocolVersion \<equiv> ''search/ecs-v1''"

definition maxArgoChangePayload :: nat where "maxArgoChangePayload = 16 * 1024"
definition maxGitHubWorkflowChangePayload :: nat where "maxGitHubWorkflowChangePayload = 4 * 1024"
definition maxElasticsearchLogCausePayload :: nat where "maxElasticsearchLogCausePayload = 4 * 1024"
definition maxElasticsearchCauseCount :: int where "maxElasticsearchCauseCount = 128"
definition maxElasticsearchCauseWindow :: int where "maxElasticsearchCauseWindow = 900 * 1000000000"
definition maxElasticsearchClockSkew :: int where "maxElasticsearchClockSkew = 300 * 1000000000"
definition maxGraphJSONDepth :: nat where "maxGraphJSONDepth = 64"

record argoChangePayload =
  ac_ChangeKind :: string
  ac_Revision :: string
  ac_Phase :: string
  ac_EventAt :: Time
  ac_HistoryID :: string
  ac_HistoryTruncated :: bool

record githubWorkflowChangePayload =
  gw_RunID :: int
  gw_WorkflowID :: int
  gw_RunAttempt :: int
  gw_ChangeKind :: string
  gw_Conclusion :: string
  gw_EventAt :: Time

record elasticsearchLogCausePayload =
  el_Key :: string
  el_Value :: string
  el_Count :: int
  el_FirstEventAt :: Time
  el_LastEventAt :: Time
  el_Container :: string

record log_cause_identity =
  li_Workspace :: string
  li_Scope :: string
  li_Namespace :: string
  li_Pod :: string
  li_Container :: string
  li_Cause :: string
  li_Count :: int
  li_FirstEventAt :: Time
  li_LastEventAt :: Time
  li_ObservedAt :: Time

text \<open>What follows the first value of a payload.\<close>

datatype trailer = TrailerEOF | TrailerValue | TrailerError

record graph_codec =
  gc_tokens :: "string \<Rightarrow> jtoken list \<times> bool"
  gc_fields :: "string \<Rightarrow> (string, string) gomap option"
  gc_argo :: "string \<Rightarrow> (argoChangePayload \<times> trailer) option"
  gc_github :: "string \<Rightarrow> (githubWorkflowChangePayload \<times> trailer) option"
  gc_elasticsearch :: "string \<Rightarrow> (elasticsearchLogCausePayload \<times> trailer) option"
  gc_identity :: "log_cause_identity \<Rightarrow> string option"

datatype fact_problem =
    NotTimelineChange
  | NotDerivedTelemetry
  | SourceOrProvenance
  | UnsupportedProtocol
  | UnexpectedProvenance
  | ResourceIdentity
  | EntityMissing
  | EntityPresent
  | EntityMismatch
  | EvidenceSource
  | UnexpectedFields
  | PayloadBytes
  | PayloadUndecodable
  | PayloadField string
  | PayloadTrailer
  | ContainerNull
  | ContainerEmpty
  | EventTime
  | PhaseInconsistent
  | HistoryMetadata
  | OperationProvenance
  | UnsupportedChange
  | UnsupportedKey
  | UnsupportedCause
  | CountOutOfRange
  | EventInterval
  | ClockSkew
  | ContainerIdentity
  | NativeIdentity
  | IdentifiersNotPositive
  | ConclusionNotFailure
  | ResourceName

datatype projection_error =
    ProjectionWorkspace
  | ProjectionGraph graph_error
  | ProjectionLens Lens
  | ArgoFact fact_problem
  | GitHubFact fact_problem
  | ElasticsearchFact fact_problem

text \<open>The walk that rejects repeated members; every leaf is acceptable.\<close>

definition consumeUniqueGraphJSON :: "nat \<Rightarrow> jtoken list \<Rightarrow> (unit walk_error, jtoken list) result" where
  "consumeUniqueGraphJSON depth ts = walk_value maxGraphJSONDepth (\<lambda>t. Inr ()) depth ts"

definition rejectDuplicateGraphJSON :: "graph_codec \<Rightarrow> string \<Rightarrow> bool" where
  "rejectDuplicateGraphJSON codec document =
     (let (ts, ended) = gc_tokens codec document in
      case consumeUniqueGraphJSON 0 ts of Inl e \<Rightarrow> False | Inr rest \<Rightarrow> rest = [] \<and> ended)"

definition check_trailer :: "('p \<times> trailer) option \<Rightarrow> (fact_problem, 'p) result" where
  "check_trailer decoded =
     (case decoded of
        None \<Rightarrow> Inl PayloadUndecodable
      | Some (payload, trail) \<Rightarrow> if trail \<noteq> TrailerEOF then Inl PayloadTrailer else Inr payload)"

definition decodeArgoChangePayload :: "graph_codec \<Rightarrow> string \<Rightarrow> (fact_problem, argoChangePayload) result" where
  "decodeArgoChangePayload codec raw = check_trailer (gc_argo codec raw)"

definition check_fields :: "string list \<Rightarrow> (string, string) gomap \<Rightarrow> (fact_problem, unit) result" where
  "check_fields allowed members =
     (case find (\<lambda>(field, raw). \<not> List.member allowed field) members of
        None \<Rightarrow> Inr ()
      | Some (field, raw) \<Rightarrow> Inl (PayloadField field))"

definition decodeGitHubWorkflowChangePayload ::
  "graph_codec \<Rightarrow> string \<Rightarrow> (fact_problem, githubWorkflowChangePayload) result" where
  "decodeGitHubWorkflowChangePayload codec raw =
     (if \<not> rejectDuplicateGraphJSON codec raw then Inl PayloadUndecodable
      else case gc_fields codec raw of
        None \<Rightarrow> Inl PayloadUndecodable
      | Some members \<Rightarrow>
          rbind (check_fields [''run_id'', ''workflow_id'', ''run_attempt'', ''change_kind'', ''conclusion'', ''event_at''] members) (\<lambda>_.
          check_trailer (gc_github codec raw)))"

definition decodeElasticsearchLogCausePayload ::
  "graph_codec \<Rightarrow> string \<Rightarrow> (fact_problem, elasticsearchLogCausePayload) result" where
  "decodeElasticsearchLogCausePayload codec raw =
     (if \<not> utf8_valid raw then Inl PayloadUndecodable
      else if \<not> rejectDuplicateGraphJSON codec raw then Inl PayloadUndecodable
      else case gc_fields codec raw of
        None \<Rightarrow> Inl PayloadUndecodable
      | Some members \<Rightarrow>
          rbind (check_fields [''key'', ''value'', ''count'', ''first_event_at'', ''last_event_at'', ''container''] members) (\<lambda>_.
          if map_option trim_space (map_of members ''container'') = Some ''null'' then Inl ContainerNull
          else rbind (check_trailer (gc_elasticsearch codec raw)) (\<lambda>payload.
            if map_of members ''container'' \<noteq> None \<and> el_Container payload = [] then Inl ContainerEmpty
            else Inr payload)))"

subsection \<open>Identities\<close>

definition validElasticsearchNativeID :: "string \<Rightarrow> string option" where
  "validElasticsearchNativeID native =
     (if \<not> has_prefix native ''sha256:'' then None
      else let digest = drop (length ''sha256:'') native in
        if length digest \<noteq> 64 then None
        else if list_all (\<lambda>(r, w). (48 \<le> r \<and> r \<le> 57) \<or> (97 \<le> r \<and> r \<le> 102)) (range_runes digest) then Some digest
        else None)"

definition elasticsearchLogCauseDigest ::
  "graph_codec \<Rightarrow> (string \<Rightarrow> string) \<Rightarrow> GraphFact \<Rightarrow> EntityRef \<Rightarrow> elasticsearchLogCausePayload \<Rightarrow> string option" where
  "elasticsearchLogCauseDigest codec sha gfact entity payload =
     (let f = gf_Fact gfact in
      map_option (\<lambda>identity. hex_encode (sha identity))
        (gc_identity codec \<lparr>li_Workspace = FWorkspace f, li_Scope = RefScope (Ref f), li_Namespace = RefNamespace (Ref f),
           li_Pod = en_Pod entity, li_Container = el_Container payload, li_Cause = el_Value payload, li_Count = el_Count payload,
           li_FirstEventAt = el_FirstEventAt payload, li_LastEventAt = el_LastEventAt payload, li_ObservedAt = ObservedAt f\<rparr>))"

definition validElasticsearchGraphText :: "string \<Rightarrow> bool" where
  "validElasticsearchGraphText value \<longleftrightarrow>
     \<not> (value = [] \<or> length value > 253 \<or> \<not> utf8_valid value \<or> trim_space value \<noteq> value) \<and> \<not> has_control value"

definition host_label :: "string \<Rightarrow> bool" where
  "host_label label \<longleftrightarrow>
     \<not> (label = [] \<or> length label > 63 \<or> hd label = CHR ''-'' \<or> last label = CHR ''-'') \<and>
     list_all (\<lambda>(r, w). (97 \<le> r \<and> r \<le> 122) \<or> (48 \<le> r \<and> r \<le> 57) \<or> r = 45) (range_runes label)"

definition validGitHubGraphHost :: "unicode_case \<Rightarrow> string \<Rightarrow> bool" where
  "validGitHubGraphHost u value \<longleftrightarrow>
     \<not> (value = [] \<or> length value > 253 \<or> trim_space value \<noteq> value \<or> to_lower u value \<noteq> value \<or>
        has_prefix value ''.'' \<or> has_suffix value ''.'') \<and>
     list_all host_label (split_on CHR ''.'' value)"

definition validGitHubGraphPathComponent :: "string \<Rightarrow> bool" where
  "validGitHubGraphPathComponent value \<longleftrightarrow>
     \<not> (value = [] \<or> length value > 100 \<or> trim_space value \<noteq> value \<or> value = ''.'' \<or> value = ''..'') \<and>
     list_all (\<lambda>(r, w). (97 \<le> r \<and> r \<le> 122) \<or> (65 \<le> r \<and> r \<le> 90) \<or> (48 \<le> r \<and> r \<le> 57) \<or> r = 45 \<or> r = 95 \<or> r = 46)
       (range_runes value)"

subsection \<open>Projection of one fact\<close>

text \<open>None: the fact is reviewed and carries no observation.\<close>

definition change_observation :: "GraphFact \<Rightarrow> string \<Rightarrow> Observation" where
  "change_observation gfact value =
     (let f = gf_Fact gfact in
      \<lparr>ob_Ref = Ref f, ob_Lens = LensTimeline, ob_Key = ''change.kind'', ob_Value = value, ob_ObservedAt = ObservedAt f,
       ob_Source = Source f, ob_Stale = FStale f\<rparr>)"

definition argo_change :: "GraphFact \<Rightarrow> argoChangePayload \<Rightarrow> (fact_problem, Observation option) result" where
  "argo_change gfact payload =
     (let f = gf_Fact gfact; ref = Ref f in
      if ac_ChangeKind payload = ''argocd-sync'' then
        (if List.member ['''', ''Succeeded'', ''Running'', ''Terminating''] (ac_Phase payload) then Inr None else Inl PhaseInconsistent)
      else if ac_ChangeKind payload = ''sync-failed'' then
        (if ac_Phase payload \<noteq> ''Failed'' \<and> ac_Phase payload \<noteq> ''Error'' then Inl PhaseInconsistent
         else if ac_HistoryID payload \<noteq> [] \<or> ac_HistoryTruncated payload then Inl HistoryMetadata
         else let native = NativeID (FProvenance f);
                  prefix = RefScope ref @ ''/'' @ RefNamespace ref @ ''/'' @ RefName ref @ ''#operation/'' in
           if \<not> has_prefix native prefix \<or> trim_space (drop (length prefix) native) = [] then Inl OperationProvenance
           else Inr (Some (change_observation gfact ''sync-failed'')))
      else Inl UnsupportedChange)"

definition observationFromArgoGraphFact ::
  "graph_codec \<Rightarrow> GraphFact \<Rightarrow> (projection_error, Observation option) result" where
  "observationFromArgoGraphFact codec gfact =
     (let f = gf_Fact gfact; p = FProvenance f; ref = Ref f in
      if SourceKind ref \<noteq> argoGraphSource \<and> Adapter p \<noteq> argoGraphSource then Inr None
      else if SourceKind ref \<noteq> argoGraphSource \<or> Adapter p \<noteq> argoGraphSource then Inl (ArgoFact SourceOrProvenance)
      else if ProtocolV p \<noteq> argoGraphProtocolVersion then Inl (ArgoFact UnsupportedProtocol)
      else case gf_Entity gfact of
        None \<Rightarrow> Inl (ArgoFact EntityMissing)
      | Some entity \<Rightarrow>
          if RefKind ref \<noteq> ''Application'' \<or> RefNamespace ref = [] \<or> en_Cluster entity \<noteq> RefScope ref \<or>
            en_Namespace entity \<noteq> RefNamespace ref \<or> en_Kind entity \<noteq> RefKind ref \<or> en_Name entity \<noteq> RefName ref \<or>
            en_Pod entity \<noteq> [] \<or> en_Node entity \<noteq> [] \<or> en_ImageDigest entity \<noteq> [] then Inl (ArgoFact EntityMismatch)
          else if Source f \<noteq> RefScope ref then Inl (ArgoFact EvidenceSource)
          else if Attributes ref \<noteq> [] \<or> Display f \<noteq> [] then Inl (ArgoFact UnexpectedFields)
          else if Observed f = [] \<or> length (Observed f) > maxArgoChangePayload then Inl (ArgoFact PayloadBytes)
          else case decodeArgoChangePayload codec (Observed f) of
            Inl e \<Rightarrow> Inl (ArgoFact e)
          | Inr payload \<Rightarrow>
              if ac_EventAt payload = 0 \<or> ac_EventAt payload \<noteq> ObservedAt f then Inl (ArgoFact EventTime)
              else case argo_change gfact payload of Inl e \<Rightarrow> Inl (ArgoFact e) | Inr r \<Rightarrow> Inr r)"

text \<open>The checks on a decoded log cause, up to the digest that binds it to the fact.\<close>

definition log_cause ::
  "graph_codec \<Rightarrow> (string \<Rightarrow> string) \<Rightarrow> GraphFact \<Rightarrow> EntityRef \<Rightarrow> elasticsearchLogCausePayload \<Rightarrow> (fact_problem, Observation option) result" where
  "log_cause codec sha gfact entity payload =
     (let f = gf_Fact gfact; ref = Ref f in
      if el_Key payload \<noteq> ''logs.cause'' then Inl UnsupportedKey
      else if \<not> List.member [''panic'', ''missing-config'', ''dependency-failure''] (el_Value payload) then Inl UnsupportedCause
      else if el_Count payload \<le> 0 \<or> el_Count payload > maxElasticsearchCauseCount then Inl CountOutOfRange
      else if el_FirstEventAt payload = 0 \<or> el_LastEventAt payload = 0 \<or> el_LastEventAt payload < el_FirstEventAt payload \<or>
        el_LastEventAt payload - el_FirstEventAt payload > maxElasticsearchCauseWindow then Inl EventInterval
      else if el_LastEventAt payload > ObservedAt f + maxElasticsearchClockSkew then Inl ClockSkew
      else if el_Container payload \<noteq> [] \<and> \<not> validElasticsearchGraphText (el_Container payload) then Inl ContainerIdentity
      else case validElasticsearchNativeID (NativeID (FProvenance f)) of
        None \<Rightarrow> Inl NativeIdentity
      | Some digest \<Rightarrow>
          (case elasticsearchLogCauseDigest codec sha gfact entity payload of
             None \<Rightarrow> Inl NativeIdentity
           | Some want \<Rightarrow>
               if digest \<noteq> want \<or> RefName ref \<noteq> ''log-'' @ take 32 want then Inl NativeIdentity
               else Inr (Some \<lparr>ob_Ref = \<lparr>SourceKind = elasticsearchGraphSource, RefScope = en_Cluster entity, RefKind = ''Pod'',
                    RefNamespace = en_Namespace entity, RefName = en_Pod entity, Attributes = []\<rparr>,
                  ob_Lens = LensTelemetry, ob_Key = ''logs.cause'', ob_Value = el_Value payload,
                  ob_ObservedAt = el_LastEventAt payload, ob_Source = Source f, ob_Stale = FStale f\<rparr>)))"

definition observationFromElasticsearchLogCauseGraphFact ::
  "graph_codec \<Rightarrow> (string \<Rightarrow> string) \<Rightarrow> GraphFact \<Rightarrow> (projection_error, Observation option) result" where
  "observationFromElasticsearchLogCauseGraphFact codec sha gfact =
     (let f = gf_Fact gfact; p = FProvenance f; ref = Ref f in
      if FKind f \<noteq> FactDerived \<or> gf_Lens gfact \<noteq> LensTelemetry then Inl (ElasticsearchFact NotDerivedTelemetry)
      else if SourceKind ref \<noteq> elasticsearchGraphSource \<or> Adapter p \<noteq> elasticsearchGraphSource
        then Inl (ElasticsearchFact SourceOrProvenance)
      else if ProtocolV p \<noteq> elasticsearchGraphProtocolVersion then Inl (ElasticsearchFact UnsupportedProtocol)
      else if DeepLink p \<noteq> [] \<or> Collector p \<noteq> [] then Inl (ElasticsearchFact UnexpectedProvenance)
      else if RefKind ref \<noteq> ''LogSignal'' \<or> RefScope ref = [] \<or> RefNamespace ref = [] then Inl (ElasticsearchFact ResourceIdentity)
      else case gf_Entity gfact of
        None \<Rightarrow> Inl (ElasticsearchFact EntityMissing)
      | Some entity \<Rightarrow>
          if en_Cluster entity \<noteq> RefScope ref \<or> en_Namespace entity \<noteq> RefNamespace ref \<or> en_Pod entity = [] \<or>
            en_Kind entity \<noteq> [] \<or> en_Name entity \<noteq> [] \<or> en_Node entity \<noteq> [] \<or> en_ImageDigest entity \<noteq> []
            then Inl (ElasticsearchFact EntityMismatch)
          else if Source f \<noteq> RefScope ref then Inl (ElasticsearchFact EvidenceSource)
          else if Attributes ref \<noteq> [] \<or> Display f \<noteq> [] then Inl (ElasticsearchFact UnexpectedFields)
          else if Observed f = [] \<or> length (Observed f) > maxElasticsearchLogCausePayload then Inl (ElasticsearchFact PayloadBytes)
          else case decodeElasticsearchLogCausePayload codec (Observed f) of
            Inl e \<Rightarrow> Inl (ElasticsearchFact e)
          | Inr payload \<Rightarrow>
              (case log_cause codec sha gfact entity payload of Inl e \<Rightarrow> Inl (ElasticsearchFact e) | Inr r \<Rightarrow> Inr r))"

definition workflow_change ::
  "unicode_case \<Rightarrow> GraphFact \<Rightarrow> githubWorkflowChangePayload \<Rightarrow> (fact_problem, Observation option) result" where
  "workflow_change u gfact payload =
     (let f = gf_Fact gfact; ref = Ref f in
      if gw_RunID payload \<le> 0 \<or> gw_WorkflowID payload \<le> 0 \<or> gw_RunAttempt payload \<le> 0 then Inl IdentifiersNotPositive
      else if gw_ChangeKind payload \<noteq> ''workflow-run-failed'' then Inl UnsupportedChange
      else if \<not> List.member [''failure'', ''timed_out'', ''startup_failure''] (gw_Conclusion payload) then Inl ConclusionNotFailure
      else if gw_EventAt payload = 0 \<or> gw_EventAt payload \<noteq> ObservedAt f then Inl EventTime
      else case cut (RefName ref) ''#'' of
        None \<Rightarrow> Inl ResourceName
      | Some (repository, runIdentity) \<Rightarrow>
          if str_contains runIdentity ''#'' \<or> \<not> validGitHubGraphPathComponent repository \<or>
            has_suffix (to_lower u repository) ''.git'' then Inl ResourceName
          else if runIdentity \<noteq> int_decimal (gw_RunID payload) @ ''-attempt-'' @ int_decimal (gw_RunAttempt payload) \<or>
            NativeID (FProvenance f) \<noteq> RefNamespace ref @ ''/'' @ RefName ref then Inl NativeIdentity
          else Inr (Some (change_observation gfact ''workflow-run-failed'')))"

definition observationFromGitHubWorkflowGraphFact ::
  "unicode_case \<Rightarrow> graph_codec \<Rightarrow> GraphFact \<Rightarrow> (projection_error, Observation option) result" where
  "observationFromGitHubWorkflowGraphFact u codec gfact =
     (let f = gf_Fact gfact; p = FProvenance f; ref = Ref f in
      if FKind f \<noteq> FactChange \<or> gf_Lens gfact \<noteq> LensTimeline then Inl (GitHubFact NotTimelineChange)
      else if SourceKind ref \<noteq> githubGraphSource \<or> Adapter p \<noteq> githubGraphSource then Inl (GitHubFact SourceOrProvenance)
      else if ProtocolV p \<noteq> githubWorkflowGraphProtocolVersion then Inl (GitHubFact UnsupportedProtocol)
      else if gf_Entity gfact \<noteq> None then Inl (GitHubFact EntityPresent)
      else if RefKind ref \<noteq> ''WorkflowRun'' \<or> \<not> validGitHubGraphHost u (RefScope ref) \<or>
        \<not> validGitHubGraphPathComponent (RefNamespace ref) then Inl (GitHubFact ResourceIdentity)
      else if Source f \<noteq> RefScope ref then Inl (GitHubFact EvidenceSource)
      else if Attributes ref \<noteq> [] \<or> Display f \<noteq> [] then Inl (GitHubFact UnexpectedFields)
      else if Observed f = [] \<or> length (Observed f) > maxGitHubWorkflowChangePayload then Inl (GitHubFact PayloadBytes)
      else case decodeGitHubWorkflowChangePayload codec (Observed f) of
        Inl e \<Rightarrow> Inl (GitHubFact e)
      | Inr payload \<Rightarrow> (case workflow_change u gfact payload of Inl e \<Rightarrow> Inl (GitHubFact e) | Inr r \<Rightarrow> Inr r))"

definition observationFromGraphFact ::
  "unicode_case \<Rightarrow> graph_codec \<Rightarrow> (string \<Rightarrow> string) \<Rightarrow> GraphFact \<Rightarrow> (projection_error, Observation option) result" where
  "observationFromGraphFact u codec sha gfact =
     (let f = gf_Fact gfact; p = FProvenance f; ref = Ref f in
      if ProtocolV p = elasticsearchGraphProtocolVersion then observationFromElasticsearchLogCauseGraphFact codec sha gfact
      else if ProtocolV p = githubWorkflowGraphProtocolVersion then observationFromGitHubWorkflowGraphFact u codec gfact
      else if (SourceKind ref = elasticsearchGraphSource \<or> Adapter p = elasticsearchGraphSource) \<and> RefKind ref = ''LogSignal''
        then observationFromElasticsearchLogCauseGraphFact codec sha gfact
      else if FKind f \<noteq> FactChange \<or> gf_Lens gfact \<noteq> LensTimeline then Inr None
      else if SourceKind ref = argoGraphSource \<or> Adapter p = argoGraphSource then observationFromArgoGraphFact codec gfact
      else if (SourceKind ref = githubGraphSource \<or> Adapter p = githubGraphSource) \<and> RefKind ref = ''WorkflowRun''
        then observationFromGitHubWorkflowGraphFact u codec gfact
      else Inr None)"

subsection \<open>Projection of a graph\<close>

fun project_coverage ::
  "(Lens, LensCoverage) gomap \<Rightarrow> (Lens, LensCoverage) gomap \<Rightarrow> (projection_error, (Lens, LensCoverage) gomap) result" where
  "project_coverage acc [] = Inr acc"
| "project_coverage acc ((lens, state) # rest) =
     (if \<not> Lens_Valid lens then Inl (ProjectionLens lens) else project_coverage (gm_put lens state acc) rest)"

fun project_facts ::
  "unicode_case \<Rightarrow> graph_codec \<Rightarrow> (string \<Rightarrow> string) \<Rightarrow> GraphFact list \<Rightarrow> Observation list \<Rightarrow> (projection_error, Observation list) result" where
  "project_facts u codec sha [] acc = Inr acc"
| "project_facts u codec sha (f # fs) acc =
     (case observationFromGraphFact u codec sha f of
        Inl e \<Rightarrow> Inl e
      | Inr None \<Rightarrow> project_facts u codec sha fs acc
      | Inr (Some x) \<Rightarrow> project_facts u codec sha fs (acc @ [x]))"

definition FromGraphFacts ::
  "unicode_case \<Rightarrow> (Time \<Rightarrow> string) \<Rightarrow> graph_codec \<Rightarrow> (string \<Rightarrow> string) \<Rightarrow> string \<Rightarrow> GraphFact list \<Rightarrow>
    (Lens, LensCoverage) gomap \<Rightarrow> (projection_error, Investigation) result" where
  "FromGraphFacts u fmt codec sha workspace facts cov =
     (if trim_space workspace = [] then Inl ProjectionWorkspace
      else case NewGraph u fmt workspace facts of
        Inl e \<Rightarrow> Inl (ProjectionGraph e)
      | Inr graph \<Rightarrow>
          rbind (project_coverage [] cov) (\<lambda>coverage.
          rbind (project_facts u codec sha (concat (map nd_Facts (gr_Nodes graph)) @ gr_Unattached graph) []) (\<lambda>observations.
          Inr \<lparr>iv_Workspace = workspace, iv_Observations = observations, iv_Coverage = coverage\<rparr>)))"

end
