(* ===== verification/Brain_Graph_Correct.thy ===== *)
theory Brain_Graph_Correct
  imports Brain_Graph Brain_Evaluate
begin

text \<open>
  Correctness of the projection: it succeeds exactly when every fact is either reviewed evidence or none of its business, it
  keeps one observation per such fact, and the investigation it yields is one the rule engine accepts.
\<close>

subsection \<open>The parts of the projection\<close>

definition projected :: "unicode_case \<Rightarrow> graph_codec \<Rightarrow> (string \<Rightarrow> string) \<Rightarrow> GraphFact \<Rightarrow> Observation list" where
  "projected u codec sha f = (case observationFromGraphFact u codec sha f of Inr (Some x) \<Rightarrow> [x] | _ \<Rightarrow> [])"

lemma project_facts_iff:
  "project_facts u codec sha fs acc = Inr xs \<longleftrightarrow>
     (\<forall>f \<in> set fs. is_ok (observationFromGraphFact u codec sha f)) \<and> xs = acc @ concat (map (projected u codec sha) fs)"
proof (induction fs arbitrary: acc)
  case (Cons f fs)
  then show ?case by (auto simp: projected_def split: sum.splits option.splits)
qed auto

lemma project_coverage_iff:
  "project_coverage acc cov = Inr c \<longleftrightarrow>
     (\<forall>(lens, state) \<in> set cov. Lens_Valid lens) \<and> c = fold (\<lambda>(lens, state) m. gm_put lens state m) cov acc"
  by (induction acc cov rule: project_coverage.induct) auto

lemma fold_put_copy:
  "distinct (map fst m) \<Longrightarrow> map_of (fold (\<lambda>(k, v) acc. gm_put k v acc) m acc) k = (case map_of m k of None \<Rightarrow> map_of acc k | Some v \<Rightarrow> Some v)"
proof (induction m arbitrary: acc)
  case (Cons p m)
  obtain a b where p: "p = (a, b)" by (cases p)
  from Cons.prems p have "map_of m a = None" and "distinct (map fst m)" by (auto simp: map_of_eq_None_iff)
  with Cons.IH [of "gm_put a b acc"] show ?case by (cases "k = a") (simp_all add: p split: option.split)
qed simp

subsection \<open>One fact\<close>

text \<open>The evidence behind an observation: which reviewed fact it is, and what in the fact proves it.\<close>

definition argo_evidence :: "graph_codec \<Rightarrow> GraphFact \<Rightarrow> bool" where
  "argo_evidence codec g \<longleftrightarrow>
     (let f = gf_Fact g; ref = Ref f in
      SourceKind ref = argoGraphSource \<and> Adapter (FProvenance f) = argoGraphSource \<and> RefKind ref = ''Application'' \<and>
      (\<exists>payload. decodeArgoChangePayload codec (Observed f) = Inr payload \<and> ac_ChangeKind payload = ''sync-failed'' \<and>
        ac_Phase payload \<in> {''Failed'', ''Error''} \<and> ac_EventAt payload = ObservedAt f))"

definition workflow_evidence :: "graph_codec \<Rightarrow> GraphFact \<Rightarrow> bool" where
  "workflow_evidence codec g \<longleftrightarrow>
     (let f = gf_Fact g; ref = Ref f in
      SourceKind ref = githubGraphSource \<and> Adapter (FProvenance f) = githubGraphSource \<and> RefKind ref = ''WorkflowRun'' \<and> gf_Entity g = None \<and>
      (\<exists>payload repository. decodeGitHubWorkflowChangePayload codec (Observed f) = Inr payload \<and>
        gw_Conclusion payload \<in> {''failure'', ''timed_out'', ''startup_failure''} \<and> gw_EventAt payload = ObservedAt f \<and>
        RefName ref = repository @ ''#'' @ int_decimal (gw_RunID payload) @ ''-attempt-'' @ int_decimal (gw_RunAttempt payload)))"

definition log_evidence :: "graph_codec \<Rightarrow> (string \<Rightarrow> string) \<Rightarrow> GraphFact \<Rightarrow> Observation \<Rightarrow> bool" where
  "log_evidence codec sha g x \<longleftrightarrow>
     (let f = gf_Fact g; ref = Ref f in
      SourceKind ref = elasticsearchGraphSource \<and> Adapter (FProvenance f) = elasticsearchGraphSource \<and> RefKind ref = ''LogSignal'' \<and>
      (\<exists>entity payload digest. gf_Entity g = Some entity \<and> decodeElasticsearchLogCausePayload codec (Observed f) = Inr payload \<and>
        elasticsearchLogCauseDigest codec sha g entity payload = Some digest \<and> NativeID (FProvenance f) = ''sha256:'' @ digest \<and>
        RefName ref = ''log-'' @ take 32 digest \<and>
        0 < el_Count payload \<and> el_Count payload \<le> 128 \<and> el_FirstEventAt payload \<le> el_LastEventAt payload \<and>
        el_LastEventAt payload - el_FirstEventAt payload \<le> 900000000000 \<and>
        el_LastEventAt payload \<le> ObservedAt f + 300000000000 \<and>
        RefScope (ob_Ref x) = RefScope ref \<and> RefNamespace (ob_Ref x) = RefNamespace ref \<and> RefKind (ob_Ref x) = ''Pod'' \<and>
        RefName (ob_Ref x) = en_Pod entity \<and> en_Pod entity \<noteq> [] \<and> SourceKind (ob_Ref x) = elasticsearchGraphSource \<and>
        ob_Value x = el_Value payload \<and> ob_ObservedAt x = el_LastEventAt payload))"

lemma observation_sources:
  assumes "observationFromGraphFact u codec sha g = Inr (Some x)"
  shows "observationFromArgoGraphFact codec g = Inr (Some x) \<or> observationFromGitHubWorkflowGraphFact u codec g = Inr (Some x) \<or>
    observationFromElasticsearchLogCauseGraphFact codec sha g = Inr (Some x)"
  using assms by (auto simp: observationFromGraphFact_def Let_def split: if_splits)

lemma argo_observation:
  assumes "observationFromArgoGraphFact codec g = Inr (Some x)"
  shows "argo_evidence codec g \<and> x = change_observation g ''sync-failed''"
proof -
  obtain payload where "decodeArgoChangePayload codec (Observed (gf_Fact g)) = Inr payload" "argo_change g payload = Inr (Some x)"
    "SourceKind (Ref (gf_Fact g)) = argoGraphSource" "Adapter (FProvenance (gf_Fact g)) = argoGraphSource"
    "RefKind (Ref (gf_Fact g)) = ''Application''" "ac_EventAt payload = ObservedAt (gf_Fact g)"
    using assms by (auto simp: observationFromArgoGraphFact_def Let_def split: if_splits option.splits sum.splits)
  then show ?thesis by (auto simp: argo_evidence_def argo_change_def Let_def split: if_splits)
qed

lemma workflow_observation:
  assumes "observationFromGitHubWorkflowGraphFact u codec g = Inr (Some x)"
  shows "workflow_evidence codec g \<and> x = change_observation g ''workflow-run-failed''"
proof -
  obtain payload where p: "decodeGitHubWorkflowChangePayload codec (Observed (gf_Fact g)) = Inr payload"
    "workflow_change u g payload = Inr (Some x)"
    "SourceKind (Ref (gf_Fact g)) = githubGraphSource" "Adapter (FProvenance (gf_Fact g)) = githubGraphSource"
    "RefKind (Ref (gf_Fact g)) = ''WorkflowRun''" "gf_Entity g = None"
    using assms by (auto simp: observationFromGitHubWorkflowGraphFact_def Let_def split: if_splits sum.splits)
  then obtain repository run where "cut (RefName (Ref (gf_Fact g))) ''#'' = Some (repository, run)"
    "run = int_decimal (gw_RunID payload) @ ''-attempt-'' @ int_decimal (gw_RunAttempt payload)"
    "gw_Conclusion payload \<in> {''failure'', ''timed_out'', ''startup_failure''}" "gw_EventAt payload = ObservedAt (gf_Fact g)"
    "x = change_observation g ''workflow-run-failed''"
    by (auto simp: workflow_change_def Let_def split: if_splits option.splits)
  with p cut_Some show ?thesis by (fastforce simp: workflow_evidence_def Let_def)
qed

lemma log_observation:
  assumes "observationFromElasticsearchLogCauseGraphFact codec sha g = Inr (Some x)"
  shows "log_evidence codec sha g x" and "ob_Lens x = LensTelemetry" and "ob_Key x = ''logs.cause''"
    and "ob_Value x \<in> {''panic'', ''missing-config'', ''dependency-failure''}"
    and "ob_Source x = Source (gf_Fact g)" and "ob_Stale x = FStale (gf_Fact g)"
proof -
  obtain entity payload where e: "gf_Entity g = Some entity" "log_cause codec sha g entity payload = Inr (Some x)"
    "decodeElasticsearchLogCausePayload codec (Observed (gf_Fact g)) = Inr payload"
    "SourceKind (Ref (gf_Fact g)) = elasticsearchGraphSource" "Adapter (FProvenance (gf_Fact g)) = elasticsearchGraphSource"
    "RefKind (Ref (gf_Fact g)) = ''LogSignal''" "en_Cluster entity = RefScope (Ref (gf_Fact g))"
    "en_Namespace entity = RefNamespace (Ref (gf_Fact g))" "en_Pod entity \<noteq> []"
    using assms
    by (auto simp: observationFromElasticsearchLogCauseGraphFact_def Let_def split: if_splits option.splits sum.splits)
  have native: "native = ''sha256:'' @ digest" if "validElasticsearchNativeID native = Some digest" for native digest
    using that has_prefix_split [of native "''sha256:''"] by (auto simp: validElasticsearchNativeID_def Let_def split: if_splits)
  show "log_evidence codec sha g x" "ob_Lens x = LensTelemetry" "ob_Key x = ''logs.cause''"
    "ob_Value x \<in> {''panic'', ''missing-config'', ''dependency-failure''}"
    "ob_Source x = Source (gf_Fact g)" "ob_Stale x = FStale (gf_Fact g)"
    using e by (auto simp: log_evidence_def log_cause_def Let_def maxElasticsearchCauseCount_def maxElasticsearchCauseWindow_def
        maxElasticsearchClockSkew_def dest!: native split: if_splits option.splits)
qed

lemma validated_ref:
  assumes "GraphFact_Validate g ws = Inr ()"
  shows "RefScope (Ref (gf_Fact g)) \<noteq> []" and "RefKind (Ref (gf_Fact g)) \<noteq> []" and "RefName (Ref (gf_Fact g)) \<noteq> []"
  using assms
  by (auto simp: GraphFact_Validate_def Let_def rbind_eq_Inr validate_texts_Inr validateEntityText_Inr split: if_splits)

text \<open>What the rule engine requires of an observation.\<close>

definition complete_observation :: "Observation \<Rightarrow> bool" where
  "complete_observation x \<longleftrightarrow>
     RefScope (ob_Ref x) \<noteq> [] \<and> RefKind (ob_Ref x) \<noteq> [] \<and> RefName (ob_Ref x) \<noteq> [] \<and>
     ob_Lens x \<noteq> [] \<and> trim_space (ob_Key x) \<noteq> [] \<and> trim_space (ob_Value x) \<noteq> []"

lemma validate_observations_iff: "validate_observations i xs = Inr () \<longleftrightarrow> list_all complete_observation xs"
  by (induction i xs rule: validate_observations.induct) (auto simp: complete_observation_def)

lemma keys_not_blank: "trim_space ''change.kind'' \<noteq> []" "trim_space ''logs.cause'' \<noteq> []" "trim_space ''sync-failed'' \<noteq> []"
    "trim_space ''workflow-run-failed'' \<noteq> []" "trim_space ''panic'' \<noteq> []" "trim_space ''missing-config'' \<noteq> []"
    "trim_space ''dependency-failure'' \<noteq> []"
  by code_simp+

lemma projected_complete:
  assumes "GraphFact_Validate g ws = Inr ()" and "x \<in> set (projected u codec sha g)"
  shows "complete_observation x"
proof -
  have "observationFromGraphFact u codec sha g = Inr (Some x)"
    using assms(2) by (auto simp: projected_def split: sum.splits option.splits)
  then consider "x = change_observation g ''sync-failed''" | "x = change_observation g ''workflow-run-failed''"
    | "observationFromElasticsearchLogCauseGraphFact codec sha g = Inr (Some x)"
    using observation_sources argo_observation workflow_observation by blast
  then show ?thesis
  proof cases
    case 3
    from log_observation [OF this] validated_ref [OF assms(1)] keys_not_blank show ?thesis
      by (auto simp: complete_observation_def log_evidence_def Let_def)
  qed (use validated_ref [OF assms(1)] keys_not_blank in \<open>simp_all add: complete_observation_def change_observation_def Let_def\<close>)
qed

subsection \<open>Properties\<close>

lemma FromGraphFacts_Inr:
  "FromGraphFacts u fmt codec sha ws facts cov = Inr input \<longleftrightarrow>
     (\<exists>g. NewGraph u fmt ws facts = Inr g \<and> (\<forall>(lens, state) \<in> set cov. Lens_Valid lens) \<and>
       (\<forall>f \<in> set facts. is_ok (observationFromGraphFact u codec sha f)) \<and>
       input = \<lparr>iv_Workspace = ws,
         iv_Observations = concat (map (projected u codec sha) (concat (map nd_Facts (gr_Nodes g)) @ gr_Unattached g)),
         iv_Coverage = fold (\<lambda>(lens, state) m. gm_put lens state m) cov []\<rparr>)"
proof (cases "NewGraph u fmt ws facts")
  case (Inl e)
  then show ?thesis by (simp add: FromGraphFacts_def)
next
  case (Inr g)
  let ?fs = "concat (map nd_Facts (gr_Nodes g)) @ gr_Unattached g"
  have "set ?fs = set facts" using NewGraph_facts(1) [OF Inr] by (metis set_mset_mset)
  then have "(\<forall>f \<in> set ?fs. is_ok (observationFromGraphFact u codec sha f)) \<longleftrightarrow>
      (\<forall>f \<in> set facts. is_ok (observationFromGraphFact u codec sha f))" by simp
  moreover have "trim_space ws \<noteq> []" using Inr by (auto simp: NewGraph_def split: if_splits)
  ultimately show ?thesis
    using Inr by (auto simp: FromGraphFacts_def rbind_eq_Inr project_coverage_iff project_facts_iff)
qed

text \<open>
  The projection of graph facts loses and invents nothing. It succeeds if and only if the facts form a graph of the
  workspace, every declared lens is known and no fact contradicts its own provenance, whatever the order of the facts. Its
  observations are then, one for one, those of the facts that carry one, and the declared coverage is kept as it was
  given.
\<close>
theorem FromGraphFacts_exact:
  assumes "gm_wf cov"
  shows "(is_ok (FromGraphFacts u fmt codec sha ws facts cov) \<longleftrightarrow>
      is_ok (NewGraph u fmt ws facts) \<and> (\<forall>(lens, state) \<in> set cov. Lens_Valid lens) \<and>
      (\<forall>f \<in> set facts. is_ok (observationFromGraphFact u codec sha f))) \<and>
    (\<forall>input. FromGraphFacts u fmt codec sha ws facts cov = Inr input \<longrightarrow>
      iv_Workspace input = ws \<and> map_of (iv_Coverage input) = map_of cov \<and>
      mset (iv_Observations input) = mset (concat (map (projected u codec sha) facts)))"
proof -
  have cov: "map_of (fold (\<lambda>(k, v) acc. gm_put k v acc) cov []) = map_of cov"
    using assms by (auto simp: fun_eq_iff gm_wf_def fold_put_copy split: option.splits)
  have "mset (concat (map (projected u codec sha) (concat (map nd_Facts (gr_Nodes g)) @ gr_Unattached g))) =
      mset (concat (map (projected u codec sha) facts))" if "NewGraph u fmt ws facts = Inr g" for g
    using NewGraph_facts(1) [OF that] by (metis mset_concat mset_map sum_mset_sum_list)
  with cov show ?thesis
    by (fastforce simp: FromGraphFacts_Inr is_ok_iff)
qed

text \<open>
  C32: projected evidence is grounded and usable. The rule engine accepts every investigation the projection yields, and each of its
  observations comes from a fact of the workspace: a failed Argo sync or a failed GitHub workflow run whose payload records that failure at the
  time of the fact, or a log cause of one pod with 1 to 128 occurrences within 15 minutes, not more than
  5 minutes ahead of its collection, whose native identity is the digest of exactly those values. Source and staleness are those of the
  fact.
\<close>
theorem graph_evidence_grounded:
  assumes "FromGraphFacts u fmt codec sha ws facts cov = Inr input"
  shows "is_ok (Evaluate u order input) \<and>
    (\<forall>x \<in> set (iv_Observations input). \<exists>g \<in> set facts. FWorkspace (gf_Fact g) = ws \<and>
      ob_Source x = Source (gf_Fact g) \<and> ob_Stale x = FStale (gf_Fact g) \<and>
      (argo_evidence codec g \<and> x = change_observation g ''sync-failed'' \<or>
       workflow_evidence codec g \<and> x = change_observation g ''workflow-run-failed'' \<or>
       log_evidence codec sha g x \<and> ob_Lens x = LensTelemetry \<and> ob_Key x = ''logs.cause'' \<and>
         ob_Value x \<in> {''panic'', ''missing-config'', ''dependency-failure''}))"
proof -
  obtain g where g: "NewGraph u fmt ws facts = Inr g"
    and input: "iv_Workspace input = ws"
      "iv_Observations input = concat (map (projected u codec sha) (concat (map nd_Facts (gr_Nodes g)) @ gr_Unattached g))"
    using assms by (auto simp: FromGraphFacts_Inr)
  have "set (concat (map nd_Facts (gr_Nodes g)) @ gr_Unattached g) = set facts"
    using NewGraph_facts(1) [OF g] by (metis set_mset_mset)
  moreover have "set (concat (map (projected u codec sha) fs)) = (\<Union>f \<in> set fs. set (projected u codec sha f))" for fs by simp
  ultimately have obs: "set (iv_Observations input) = (\<Union>f \<in> set facts. set (projected u codec sha f))"
    by (simp only: input(2))
  note valid = NewGraph_facts(2) [OF g]
  have ws: "trim_space ws \<noteq> []" using g by (auto simp: NewGraph_def split: if_splits)
  have "list_all complete_observation (iv_Observations input)"
    using projected_complete valid by (fastforce simp: list_all_iff obs)
  with ws have "Investigation_Validate input = Inr ()"
    by (simp add: Investigation_Validate_def input(1) validate_observations_iff)
  then have "is_ok (Evaluate u order input)" by (simp add: Evaluate_def Let_def)
  moreover have "\<exists>g \<in> set facts. FWorkspace (gf_Fact g) = ws \<and> ob_Source x = Source (gf_Fact g) \<and> ob_Stale x = FStale (gf_Fact g) \<and>
      (argo_evidence codec g \<and> x = change_observation g ''sync-failed'' \<or>
       workflow_evidence codec g \<and> x = change_observation g ''workflow-run-failed'' \<or>
       log_evidence codec sha g x \<and> ob_Lens x = LensTelemetry \<and> ob_Key x = ''logs.cause'' \<and>
         ob_Value x \<in> {''panic'', ''missing-config'', ''dependency-failure''})" if "x \<in> set (iv_Observations input)" for x
  proof -
    from that obtain f where f: "f \<in> set facts" "observationFromGraphFact u codec sha f = Inr (Some x)"
      unfolding obs by (auto simp: projected_def split: sum.splits option.splits)
    have "FWorkspace (gf_Fact f) = ws" using valid f(1) by (auto simp: GraphFact_Validate_def Let_def split: if_splits)
    with f(1) show ?thesis
      using observation_sources [OF f(2)] argo_observation [of codec f x] workflow_observation [of u codec f x] log_observation [of codec sha f x]
      by (intro bexI [of _ f]) (auto simp: change_observation_def Let_def)
  qed
  ultimately show ?thesis by blast
qed

lemma check_fields_ok:
  assumes "set (gm_keys members) \<subseteq> set allowed"
  shows "check_fields allowed members = Inr ()"
proof -
  have "find (\<lambda>(field, raw). \<not> List.member allowed field) members = None"
    using assms by (auto simp: find_None_iff)
  then show ?thesis by (simp add: check_fields_def)
qed

subsection \<open>Witnesses\<close>

definition sample_application :: ResourceRef where
  "sample_application = \<lparr>SourceKind = ''argocd'', RefScope = ''west'', RefKind = ''Application'', RefNamespace = ''argocd'', RefName = ''shop'', Attributes = []\<rparr>"

definition sample_sync_failure :: GraphFact where
  "sample_sync_failure = \<lparr>gf_Fact = \<lparr>Ref = sample_application, FKind = FactChange, Observed = ''payload'', Display = [], ObservedAt = 500, Source = ''west'',
       FProvenance = \<lparr>Adapter = ''argocd'', ProtocolV = ''1.0.0'', NativeID = ''west/argocd/shop#operation/7'', DeepLink = [], Collector = []\<rparr>,
       FWorkspace = ''payments'', FStale = False, FStaleFor = []\<rparr>, gf_Lens = LensTimeline,
     gf_Entity = Some \<lparr>en_Cluster = ''west'', en_Namespace = ''argocd'', en_Kind = ''Application'', en_Name = ''shop'', en_Pod = [],
       en_Node = [], en_ImageDigest = []\<rparr>\<rparr>"

definition sample_graph_codec :: graph_codec where
  "sample_graph_codec = \<lparr>gc_tokens = (\<lambda>d. ([obj_open, obj_close], True)), gc_fields = (\<lambda>d. Some []),
     gc_argo = (\<lambda>d. Some (\<lparr>ac_ChangeKind = ''sync-failed'', ac_Revision = [], ac_Phase = ''Failed'', ac_EventAt = 500, ac_HistoryID = [],
       ac_HistoryTruncated = False\<rparr>, TrailerEOF)),
     gc_github = (\<lambda>d. None), gc_elasticsearch = (\<lambda>d. None), gc_identity = (\<lambda>i. None)\<rparr>"

definition sample_coverage_map :: "(Lens, LensCoverage) gomap" where
  "sample_coverage_map = [(LensTimeline, \<lparr>lc_Available = True, lc_Stale = False, lc_Reason = []\<rparr>)]"

definition sample_projection :: "(projection_error, Investigation) result" where
  "sample_projection = FromGraphFacts ascii_case int_decimal sample_graph_codec (\<lambda>s. s) ''payments'' [sample_sync_failure] sample_coverage_map"

theorem FromGraphFacts_exact_witness:
  "is_ok sample_projection \<and> map_of (iv_Coverage (projr sample_projection)) = map_of sample_coverage_map"
proof -
  have ok: "is_ok sample_projection" by code_simp
  then obtain input where input: "sample_projection = Inr input" by (auto simp: is_ok_iff)
  have "gm_wf sample_coverage_map" by (simp add: sample_coverage_map_def gm_wf_def)
  from FromGraphFacts_exact [OF this] have "map_of (iv_Coverage input) = map_of sample_coverage_map"
    using input unfolding sample_projection_def by blast
  with ok show ?thesis by (simp add: input)
qed

theorem graph_evidence_grounded_witness:
  "\<exists>input. sample_projection = Inr input \<and> iv_Observations input = [change_observation sample_sync_failure ''sync-failed''] \<and>
     is_ok (Evaluate ascii_case \<lparr>mo_entities = id, mo_groups = id, mo_members = id\<rparr> input)"
proof -
  have run: "is_ok sample_projection" "iv_Observations (projr sample_projection) = [change_observation sample_sync_failure ''sync-failed'']"
    by code_simp+
  from run(1) obtain input where input: "sample_projection = Inr input" by (auto simp: is_ok_iff)
  have "iv_Observations input = [change_observation sample_sync_failure ''sync-failed'']" using run(2) by (simp add: input)
  moreover have "is_ok (Evaluate ascii_case \<lparr>mo_entities = id, mo_groups = id, mo_members = id\<rparr> input)"
    using graph_evidence_grounded [OF input [unfolded sample_projection_def]] by blast
  ultimately show ?thesis using input by blast
qed

end
