(* ===== verification/Connector_Elasticsearch.thy ===== *)
theory Connector_Elasticsearch
  imports Brain_Graph
begin

text \<open>
  The Elasticsearch connector (\<open>connector/elasticsearch/project.go\<close>): one search response of a pod's logs becomes at
  most three facts, one per class of cause. A response is read as the JSON value its bytes parse to, so a \<open>json.RawMessage\<close> is a
  subtree; the parser of JSON, the tokens of a document, the parser of time stamps and the two encoders are
  parameters (\<open>es_codec\<close>). The observation and the identity of a fact have the fields of \<open>elasticsearchLogCausePayload\<close> and
  \<open>log_cause_identity\<close>, the structures the investigation reads them back with.
\<close>

subsection \<open>Responses\<close>

definition es_maxResponseBytes :: nat where "es_maxResponseBytes = 1024 * 1024"
definition es_maxHits :: nat where "es_maxHits = 128"
definition es_maxMessageBytes :: nat where "es_maxMessageBytes = 16 * 1024"
definition es_maxIdentityText :: nat where "es_maxIdentityText = 253"
definition es_maxFactPayloadBytes :: nat where "es_maxFactPayloadBytes = 4 * 1024"
definition es_maxJSONDepth :: nat where "es_maxJSONDepth = 64"
definition es_maxQueryWindow :: int where "es_maxQueryWindow = 900 * 1000000000"
definition es_maxClockSkew :: int where "es_maxClockSkew = 300 * 1000000000"
definition es_maxCauseFacts :: nat where "es_maxCauseFacts = 3"

definition allowedHitFields :: "string list" where
  "allowedHitFields = [''@timestamp'', ''message'', ''orchestrator.cluster.name'', ''kubernetes.namespace'', ''kubernetes.pod.name'',
     ''kubernetes.container.name'']"

record es_Projection =
  ep_Workspace :: string
  ep_Scope :: string
  ep_Namespace :: string
  ep_Pod :: string
  ep_Container :: string
  ep_WindowStart :: Time
  ep_WindowEnd :: Time
  ep_ObservedAt :: Time
  ep_Response :: string

record shardSummary =
  sh_Total :: "int option"
  sh_Successful :: "int option"
  sh_Skipped :: "int option"
  sh_Failed :: "int option"

record searchHit =
  ht_Fields :: "(string, gvalue) gomap option"
  ht_SourcePresent :: bool
  ht_IgnoredPresent :: bool
  ht_IgnoredValuesPresent :: bool
  ht_HighlightPresent :: bool
  ht_InnerHitsPresent :: bool

text \<open>The envelope around the hits is flattened: \<open>se_Hits\<close> is None without it, Some None without its list.\<close>

record searchResponse =
  se_TimedOut :: "bool option"
  se_TerminatedEarly :: "bool option"
  se_Shards :: "shardSummary option"
  se_Hits :: "searchHit list option option"

record es_codec =
  ec_tokens :: "string \<Rightarrow> jtoken list \<times> bool"
  ec_parse :: "string \<Rightarrow> gvalue option"
  ec_time :: "string \<Rightarrow> Time option"
  ec_marshal :: "elasticsearchLogCausePayload \<Rightarrow> string option"
  ec_identity :: "log_cause_identity \<Rightarrow> string option"

datatype es_error =
    TextRefused string
  | WindowRequired
  | WindowOrder
  | WindowTooLong
  | WindowSkew
  | ResponseMissing
  | ResponseTooLarge
  | ResponseNotUTF8
  | ResponseMalformed
  | ObjectExpected string
  | FieldInvalid string
  | TimedOut
  | TerminatedEarly
  | ShardsMissing
  | ShardCounts
  | ShardsIncomplete
  | HitsMissing
  | TooManyHits
  | RawContentReturned
  | HitFieldsMissing
  | HitFieldNotAllowed
  | HitFieldRequired string
  | IdentityForeign
  | TimestampInvalid
  | OutsideWindow
  | MessageUnsafe
  | HitAt nat es_error
  | TooManyCauses
  | EncodingFailed
  | FactTooLarge
  | FactInvalid graph_error

definition objectFields :: "gvalue \<Rightarrow> string \<Rightarrow> (es_error, (string, gvalue) gomap) result" where
  "objectFields v label = (case v of VObj ms \<Rightarrow> Inr ms | _ \<Rightarrow> Inl (ObjectExpected label))"

definition decodeOptionalField ::
  "(gvalue \<Rightarrow> 'a option) \<Rightarrow> (string, gvalue) gomap \<Rightarrow> string \<Rightarrow> (es_error, 'a option) result" where
  "decodeOptionalField dec members name =
     (case map_of members name of
        None \<Rightarrow> Inr None
      | Some v \<Rightarrow>
          if v = VNull then Inl (FieldInvalid name)
          else case dec v of None \<Rightarrow> Inl (FieldInvalid name) | Some x \<Rightarrow> Inr (Some x))"

definition shardSummary_UnmarshalJSON :: "gvalue \<Rightarrow> (es_error, shardSummary) result" where
  "shardSummary_UnmarshalJSON v =
     rbind (objectFields v ''shard summary'') (\<lambda>members.
     rbind (decodeOptionalField unmarshal_int64 members ''total'') (\<lambda>total.
     rbind (decodeOptionalField unmarshal_int64 members ''successful'') (\<lambda>successful.
     rbind (decodeOptionalField unmarshal_int64 members ''skipped'') (\<lambda>skipped.
     rbind (decodeOptionalField unmarshal_int64 members ''failed'') (\<lambda>failed.
     Inr \<lparr>sh_Total = total, sh_Successful = successful, sh_Skipped = skipped, sh_Failed = failed\<rparr>)))))"

definition searchHit_UnmarshalJSON :: "gvalue \<Rightarrow> (es_error, searchHit) result" where
  "searchHit_UnmarshalJSON v =
     rbind (objectFields v ''search hit'') (\<lambda>members.
     rbind (decodeOptionalField unmarshal_object members ''fields'') (\<lambda>hitFields.
     let present = (\<lambda>name. map_of members name \<noteq> None) in
     Inr \<lparr>ht_Fields = hitFields, ht_SourcePresent = present ''_source'', ht_IgnoredPresent = present ''_ignored'',
       ht_IgnoredValuesPresent = present ''ignored_field_values'', ht_HighlightPresent = present ''highlight'',
       ht_InnerHitsPresent = present ''inner_hits''\<rparr>))"

fun unmarshal_hits :: "gvalue \<Rightarrow> searchHit list option" where
  "unmarshal_hits (VArr vs) = those (map (\<lambda>v. ok_option (searchHit_UnmarshalJSON v)) vs)"
| "unmarshal_hits v = None"

definition hitEnvelope_UnmarshalJSON :: "gvalue \<Rightarrow> (es_error, searchHit list option) result" where
  "hitEnvelope_UnmarshalJSON v =
     rbind (objectFields v ''hits envelope'') (\<lambda>members. decodeOptionalField unmarshal_hits members ''hits'')"

definition searchResponse_UnmarshalJSON :: "gvalue \<Rightarrow> (es_error, searchResponse) result" where
  "searchResponse_UnmarshalJSON v =
     rbind (objectFields v ''search response'') (\<lambda>members.
     rbind (decodeOptionalField unmarshal_bool members ''timed_out'') (\<lambda>timedOut.
     rbind (decodeOptionalField unmarshal_bool members ''terminated_early'') (\<lambda>early.
     rbind (decodeOptionalField (\<lambda>x. ok_option (shardSummary_UnmarshalJSON x)) members ''_shards'') (\<lambda>shards.
     rbind (decodeOptionalField (\<lambda>x. ok_option (hitEnvelope_UnmarshalJSON x)) members ''hits'') (\<lambda>hits.
     Inr \<lparr>se_TimedOut = timedOut, se_TerminatedEarly = early, se_Shards = shards, se_Hits = hits\<rparr>)))))"

subsection \<open>Validation\<close>

definition es_validateText :: "string \<Rightarrow> string \<Rightarrow> nat \<Rightarrow> bool \<Rightarrow> (es_error, unit) result" where
  "es_validateText label value maximum optional =
     (if value = [] then (if optional then Inr () else Inl (TextRefused label))
      else if length value > maximum \<or> \<not> utf8_valid value \<or> trim_space value \<noteq> value then Inl (TextRefused label)
      else if has_control value then Inl (TextRefused label)
      else Inr ())"

definition es_validateProjection :: "es_Projection \<Rightarrow> (es_error, unit) result" where
  "es_validateProjection input =
     rbind (es_validateText ''workspace'' (ep_Workspace input) es_maxIdentityText False) (\<lambda>_.
     rbind (es_validateText ''scope'' (ep_Scope input) es_maxIdentityText False) (\<lambda>_.
     rbind (es_validateText ''namespace'' (ep_Namespace input) es_maxIdentityText False) (\<lambda>_.
     rbind (es_validateText ''pod'' (ep_Pod input) es_maxIdentityText False) (\<lambda>_.
     rbind (es_validateText ''container'' (ep_Container input) es_maxIdentityText True) (\<lambda>_.
     if str_contains (ep_Scope input) ''/'' then Inl (TextRefused ''scope'')
     else if ep_WindowStart input = 0 \<or> ep_WindowEnd input = 0 \<or> ep_ObservedAt input = 0 then Inl WindowRequired
     else if \<not> ep_WindowStart input < ep_WindowEnd input then Inl WindowOrder
     else if ep_WindowEnd input - ep_WindowStart input > es_maxQueryWindow then Inl WindowTooLong
     else if ep_WindowEnd input > ep_ObservedAt input + es_maxClockSkew then Inl WindowSkew
     else if ep_Response input = [] then Inl ResponseMissing
     else if length (ep_Response input) > es_maxResponseBytes then Inl ResponseTooLarge
     else if \<not> utf8_valid (ep_Response input) then Inl ResponseNotUTF8
     else Inr ())))))"

definition es_consumeUniqueJSON :: "nat \<Rightarrow> jtoken list \<Rightarrow> (unit walk_error, jtoken list) result" where
  "es_consumeUniqueJSON depth ts = walk_value es_maxJSONDepth (\<lambda>t. Inr ()) depth ts"

definition es_rejectDuplicateJSON :: "es_codec \<Rightarrow> string \<Rightarrow> bool" where
  "es_rejectDuplicateJSON codec document =
     (let (ts, ended) = ec_tokens codec document in
      case es_consumeUniqueJSON 0 ts of Inl e \<Rightarrow> False | Inr rest \<Rightarrow> rest = [] \<and> ended)"

text \<open>Addition of \<open>int64\<close> values.\<close>

definition add_int64 :: "int \<Rightarrow> int \<Rightarrow> int" where
  "add_int64 a b = sint (word_of_int a + word_of_int b :: 64 word)"

definition validateSearchResponse :: "searchResponse \<Rightarrow> (es_error, searchHit list) result" where
  "validateSearchResponse response =
     (case se_TimedOut response of
        None \<Rightarrow> Inl TimedOut
      | Some timedOut \<Rightarrow>
          if timedOut then Inl TimedOut
          else if se_TerminatedEarly response = Some True then Inl TerminatedEarly
          else case se_Shards response of
            None \<Rightarrow> Inl ShardsMissing
          | Some shards \<Rightarrow>
              (case (sh_Total shards, sh_Successful shards, sh_Skipped shards, sh_Failed shards) of
                 (Some totalCount, Some successful, Some skipped, Some failed) \<Rightarrow>
                   if totalCount < 0 \<or> successful < 0 \<or> skipped < 0 \<or> failed < 0 then Inl ShardCounts
                   else if totalCount = 0 then Inl ShardsIncomplete
                   else if failed \<noteq> 0 \<or> add_int64 successful skipped \<noteq> totalCount then Inl ShardsIncomplete
                   else (case se_Hits response of
                     Some (Some hits) \<Rightarrow> if length hits > es_maxHits then Inl TooManyHits else Inr hits
                   | _ \<Rightarrow> Inl HitsMissing)
               | _ \<Rightarrow> Inl ShardCounts))"

definition optionalSingleString :: "(string, gvalue) gomap \<Rightarrow> string \<Rightarrow> nat \<Rightarrow> (es_error, string option) result" where
  "optionalSingleString members name maximum =
     (case map_of members name of
        None \<Rightarrow> Inr None
      | Some raw \<Rightarrow>
          (case unmarshal_strings raw of
             Some [value] \<Rightarrow> rbind (es_validateText name value maximum False) (\<lambda>_. Inr (Some value))
           | _ \<Rightarrow> Inl (FieldInvalid name)))"

definition requiredSingleString :: "(string, gvalue) gomap \<Rightarrow> string \<Rightarrow> nat \<Rightarrow> (es_error, string) result" where
  "requiredSingleString members name maximum =
     rbind (optionalSingleString members name maximum) (\<lambda>value.
     case value of None \<Rightarrow> Inl (HitFieldRequired name) | Some v \<Rightarrow> Inr v)"

definition requiredSingleMessage :: "(string, gvalue) gomap \<Rightarrow> (es_error, string) result" where
  "requiredSingleMessage members =
     (case map_of members ''message'' of
        None \<Rightarrow> Inl (HitFieldRequired ''message'')
      | Some raw \<Rightarrow>
          (case unmarshal_strings raw of
             Some [value] \<Rightarrow> if length value > es_maxMessageBytes \<or> \<not> utf8_valid value then Inl MessageUnsafe else Inr value
           | _ \<Rightarrow> Inl (FieldInvalid ''message'')))"

definition validateHit :: "es_codec \<Rightarrow> es_Projection \<Rightarrow> searchHit \<Rightarrow> (es_error, string \<times> Time) result" where
  "validateHit codec input hit =
     (if ht_SourcePresent hit then Inl RawContentReturned
      else if ht_IgnoredPresent hit \<or> ht_IgnoredValuesPresent hit then Inl RawContentReturned
      else if ht_HighlightPresent hit \<or> ht_InnerHitsPresent hit then Inl RawContentReturned
      else case ht_Fields hit of
        None \<Rightarrow> Inl HitFieldsMissing
      | Some members \<Rightarrow>
          if \<not> list_all (\<lambda>(name, raw). List.member allowedHitFields name) members then Inl HitFieldNotAllowed
          else
            rbind (requiredSingleString members ''@timestamp'' 64) (\<lambda>timestamp.
            rbind (requiredSingleMessage members) (\<lambda>message.
            rbind (requiredSingleString members ''orchestrator.cluster.name'' es_maxIdentityText) (\<lambda>cluster.
            rbind (requiredSingleString members ''kubernetes.namespace'' es_maxIdentityText) (\<lambda>namespace.
            rbind (requiredSingleString members ''kubernetes.pod.name'' es_maxIdentityText) (\<lambda>pod.
            rbind (optionalSingleString members ''kubernetes.container.name'' es_maxIdentityText) (\<lambda>container.
            if cluster \<noteq> ep_Scope input \<or> namespace \<noteq> ep_Namespace input \<or> pod \<noteq> ep_Pod input then Inl IdentityForeign
            else if ep_Container input \<noteq> [] \<and> container \<noteq> Some (ep_Container input) then Inl IdentityForeign
            else case ec_time codec timestamp of
              None \<Rightarrow> Inl TimestampInvalid
            | Some eventAt \<Rightarrow>
                if eventAt = 0 then Inl TimestampInvalid
                else if eventAt < ep_WindowStart input \<or> eventAt > ep_WindowEnd input then Inl OutsideWindow
                else Inr (message, eventAt))))))))"

subsection \<open>Classification\<close>

definition containsAny :: "string \<Rightarrow> string list \<Rightarrow> bool" where
  "containsAny value candidates \<longleftrightarrow> list_ex (\<lambda>candidate. str_contains value candidate) candidates"

definition indicatesMissingConfig :: "string \<Rightarrow> bool" where
  "indicatesMissingConfig message \<longleftrightarrow>
     containsAny message [''missing required'', ''not set'', ''is required'', ''not found'', ''does not exist'', ''no such file''] \<and>
     containsAny message [''environment variable'', ''env var'', ''configuration'', ''config'', ''configmap'', ''secret'']"

definition indicatesDependencyFailure :: "string \<Rightarrow> bool" where
  "indicatesDependencyFailure message \<longleftrightarrow>
     containsAny message [''connection refused'', ''connection reset by peer'', ''connection timed out'', ''context deadline exceeded'',
       ''dial tcp'', ''failed to connect'', ''i/o timeout'', ''no such host'', ''tls handshake timeout'', ''upstream connect error'']"

definition indicatesPanic :: "string \<Rightarrow> bool" where
  "indicatesPanic message \<longleftrightarrow>
     list_ex (\<lambda>line. let trimmed = trim_space line in
       list_ex (has_prefix trimmed) [''panic:'', ''fatal error:'', ''uncaught exception'', ''unhandled exception'', ''exception in thread'',
         ''traceback (most recent call last):'']) (split_on CHR 0x0A message)"

definition classifyMessage :: "unicode_case \<Rightarrow> string \<Rightarrow> string" where
  "classifyMessage u message =
     (let normalized = to_lower u message in
      if indicatesMissingConfig normalized then ''missing-config''
      else if indicatesDependencyFailure normalized then ''dependency-failure''
      else if indicatesPanic normalized then ''panic''
      else [])"

subsection \<open>Facts\<close>

record causeAggregate =
  ca_Count :: int
  ca_First :: Time
  ca_Last :: Time

definition observe_event :: "Time \<Rightarrow> causeAggregate option \<Rightarrow> causeAggregate" where
  "observe_event eventAt found =
     (let agg = (case found of None \<Rightarrow> \<lparr>ca_Count = 0, ca_First = eventAt, ca_Last = eventAt\<rparr> | Some a \<Rightarrow> a) in
      \<lparr>ca_Count = ca_Count agg + 1,
       ca_First = (if eventAt < ca_First agg then eventAt else ca_First agg),
       ca_Last = (if eventAt > ca_Last agg then eventAt else ca_Last agg)\<rparr>)"

fun aggregate_hits ::
  "unicode_case \<Rightarrow> es_codec \<Rightarrow> es_Projection \<Rightarrow> nat \<Rightarrow> searchHit list \<Rightarrow> (string, causeAggregate) gomap \<Rightarrow>
   (es_error, (string, causeAggregate) gomap) result" where
  "aggregate_hits u codec input index [] aggregates = Inr aggregates"
| "aggregate_hits u codec input index (hit # hits) aggregates =
     (case validateHit codec input hit of
        Inl e \<Rightarrow> Inl (HitAt index e)
      | Inr (message, eventAt) \<Rightarrow>
          let cause = classifyMessage u message in
          if cause = [] then aggregate_hits u codec input (Suc index) hits aggregates
          else aggregate_hits u codec input (Suc index) hits
                 (gm_put cause (observe_event eventAt (map_of aggregates cause)) aggregates))"

definition cause_observation :: "es_Projection \<Rightarrow> string \<Rightarrow> causeAggregate \<Rightarrow> elasticsearchLogCausePayload" where
  "cause_observation input cause agg =
     \<lparr>el_Key = ''logs.cause'', el_Value = cause, el_Count = ca_Count agg, el_FirstEventAt = ca_First agg,
      el_LastEventAt = ca_Last agg, el_Container = ep_Container input\<rparr>"

definition cause_identity :: "es_Projection \<Rightarrow> string \<Rightarrow> causeAggregate \<Rightarrow> log_cause_identity" where
  "cause_identity input cause agg =
     \<lparr>li_Workspace = ep_Workspace input, li_Scope = ep_Scope input, li_Namespace = ep_Namespace input, li_Pod = ep_Pod input,
      li_Container = ep_Container input, li_Cause = cause, li_Count = ca_Count agg, li_FirstEventAt = ca_First agg,
      li_LastEventAt = ca_Last agg, li_ObservedAt = ep_ObservedAt input\<rparr>"

definition cause_fact :: "es_Projection \<Rightarrow> string \<Rightarrow> string \<Rightarrow> GraphFact" where
  "cause_fact input encoded digest =
     \<lparr>gf_Fact = \<lparr>Ref = \<lparr>SourceKind = ''elasticsearch'', RefScope = ep_Scope input, RefKind = ''LogSignal'', RefNamespace = ep_Namespace input,
          RefName = ''log-'' @ hex_encode (take 16 digest), Attributes = []\<rparr>,
        FKind = FactDerived, Observed = encoded, Display = [], ObservedAt = ep_ObservedAt input, Source = ep_Scope input,
        FProvenance = \<lparr>Adapter = ''elasticsearch'', ProtocolV = ''search/ecs-v1'', NativeID = ''sha256:'' @ hex_encode digest, DeepLink = [],
          Collector = []\<rparr>,
        FWorkspace = ep_Workspace input, FStale = False, FStaleFor = []\<rparr>,
      gf_Lens = LensTelemetry,
      gf_Entity = Some \<lparr>en_Cluster = ep_Scope input, en_Namespace = ep_Namespace input, en_Kind = [], en_Name = [], en_Pod = ep_Pod input,
        en_Node = [], en_ImageDigest = []\<rparr>\<rparr>"

definition es_buildFact ::
  "es_codec \<Rightarrow> (string \<Rightarrow> string) \<Rightarrow> es_Projection \<Rightarrow> string \<Rightarrow> causeAggregate \<Rightarrow> (es_error, GraphFact) result" where
  "es_buildFact codec sha input cause agg =
     (case ec_marshal codec (cause_observation input cause agg) of
        None \<Rightarrow> Inl EncodingFailed
      | Some encoded \<Rightarrow>
          if length encoded > es_maxFactPayloadBytes then Inl FactTooLarge
          else case ec_identity codec (cause_identity input cause agg) of
            None \<Rightarrow> Inl EncodingFailed
          | Some identity \<Rightarrow>
              let g = cause_fact input encoded (sha identity) in
              (case GraphFact_Validate g (ep_Workspace input) of Inl e \<Rightarrow> Inl (FactInvalid e) | Inr _ \<Rightarrow> Inr g))"

definition search_hits :: "es_codec \<Rightarrow> es_Projection \<Rightarrow> (es_error, searchHit list) result" where
  "search_hits codec input =
     rbind (es_validateProjection input) (\<lambda>_.
     if \<not> es_rejectDuplicateJSON codec (ep_Response input) then Inl ResponseMalformed
     else case ec_parse codec (ep_Response input) of
       None \<Rightarrow> Inl ResponseMalformed
     | Some document \<Rightarrow>
         rbind (searchResponse_UnmarshalJSON document) (\<lambda>response. validateSearchResponse response))"

definition ProjectLogCauses ::
  "unicode_case \<Rightarrow> es_codec \<Rightarrow> (string \<Rightarrow> string) \<Rightarrow> es_Projection \<Rightarrow> (es_error, GraphFact list) result" where
  "ProjectLogCauses u codec sha input =
     rbind (search_hits codec input) (\<lambda>hits.
     rbind (aggregate_hits u codec input 0 hits []) (\<lambda>aggregates.
     let causes = sort (gm_keys aggregates) in
     if length causes > es_maxCauseFacts then Inl TooManyCauses
     else rmap (\<lambda>cause. es_buildFact codec sha input cause (the (map_of aggregates cause))) causes))"

end
