(* ===== verification/Elasticsearch_Correct.thy ===== *)
theory Elasticsearch_Correct
  imports Connector_Elasticsearch Brain_Graph_Correct
begin

text \<open>
  What a projected search response says: the facts are a function of the classes and times of the hits, and the
  investigation reads every one of them back as the observation it was built from.
\<close>

subsection \<open>Aggregation\<close>

definition cause_times :: "unicode_case \<Rightarrow> string \<Rightarrow> (string \<times> Time) list \<Rightarrow> Time list" where
  "cause_times u cause events = map snd (filter (\<lambda>(message, t). classifyMessage u message = cause) events)"

definition summary :: "Time list \<Rightarrow> causeAggregate" where
  "summary ts = \<lparr>ca_Count = int (length ts), ca_First = Min (set ts), ca_Last = Max (set ts)\<rparr>"

definition valid_events :: "es_codec \<Rightarrow> es_Projection \<Rightarrow> searchHit list \<Rightarrow> (string \<times> Time) list \<Rightarrow> bool" where
  "valid_events codec input hits events \<longleftrightarrow> list_all2 (\<lambda>hit event. validateHit codec input hit = Inr event) hits events"

definition aggregate_step :: "unicode_case \<Rightarrow> string \<times> Time \<Rightarrow> (string, causeAggregate) gomap \<Rightarrow> (string, causeAggregate) gomap" where
  "aggregate_step u = (\<lambda>(message, t) aggs. let cause = classifyMessage u message in
     if cause = [] then aggs else gm_put cause (observe_event t (map_of aggs cause)) aggs)"

definition causes :: "string list" where
  "causes = [''dependency-failure'', ''missing-config'', ''panic'']"

lemma classifyMessage_cases: "classifyMessage u m = [] \<or> classifyMessage u m \<in> set causes"
  by (simp add: classifyMessage_def causes_def Let_def)

lemma causes_set: "cause \<in> set causes \<Longrightarrow> cause \<noteq> []"
  by (auto simp: causes_def)

lemma cause_times_class: "cause_times u cause events \<noteq> [] \<Longrightarrow> cause = [] \<or> cause \<in> set causes"
  using classifyMessage_cases [of u] by (auto simp: cause_times_def filter_empty_conv)

lemma observe_event_summary:
  "observe_event t None = summary [t]"
  "ts \<noteq> [] \<Longrightarrow> observe_event t (Some (summary ts)) = summary (ts @ [t])"
proof -
  show "observe_event t None = summary [t]" by (simp add: observe_event_def summary_def Let_def)
  assume "ts \<noteq> []"
  then have "Min (set (ts @ [t])) = min t (Min (set ts))" "Max (set (ts @ [t])) = max t (Max (set ts))" by simp_all
  then show "observe_event t (Some (summary ts)) = summary (ts @ [t])"
    unfolding observe_event_def summary_def Let_def by (simp only: min_def max_def) auto
qed

lemma aggregate_hits_iff:
  "aggregate_hits u codec input i hits aggs = Inr out \<longleftrightarrow>
     (\<exists>events. valid_events codec input hits events \<and> out = fold (aggregate_step u) events aggs)"
proof (induction hits arbitrary: i aggs)
  case Nil
  then show ?case by (auto simp: valid_events_def)
next
  case (Cons hit hits)
  show ?case
  proof (cases "validateHit codec input hit")
    case (Inl e)
    then show ?thesis by (auto simp: valid_events_def list_all2_Cons1)
  next
    case (Inr event)
    have "aggregate_hits u codec input i (hit # hits) aggs = aggregate_hits u codec input (Suc i) hits (aggregate_step u event aggs)"
      using Inr by (cases event) (simp add: aggregate_step_def Let_def)
    moreover have "valid_events codec input (hit # hits) events \<longleftrightarrow> (\<exists>rest. events = event # rest \<and> valid_events codec input hits rest)" for events
      using Inr by (auto simp: valid_events_def list_all2_Cons1)
    moreover have "(\<exists>rest. valid_events codec input hits rest \<and> out = fold (aggregate_step u) rest (aggregate_step u event aggs)) \<longleftrightarrow>
        (\<exists>events. (\<exists>rest. events = event # rest \<and> valid_events codec input hits rest) \<and> out = fold (aggregate_step u) events aggs)"
      by auto
    ultimately show ?thesis by (simp only: Cons)
  qed
qed

lemma aggregates_wf: "gm_wf aggs \<Longrightarrow> gm_wf (fold (aggregate_step u) events aggs)"
  by (induction events arbitrary: aggs) (auto simp: aggregate_step_def Let_def split: prod.split)

lemma aggregates_lookup:
  "map_of (fold (aggregate_step u) events []) cause =
     (if cause = [] \<or> cause_times u cause events = [] then None else Some (summary (cause_times u cause events)))"
proof (induction events rule: rev_induct)
  case Nil
  then show ?case by (simp add: cause_times_def)
next
  case (snoc event events)
  then show ?case
    by (cases event) (auto simp: aggregate_step_def Let_def cause_times_def observe_event_summary)
qed

lemma aggregate_keys:
  "sort (gm_keys (fold (aggregate_step u) events [])) = filter (\<lambda>cause. cause_times u cause events \<noteq> []) causes"
  (is "sort ?keys = ?kept")
proof (rule sorted_distinct_set_unique)
  have "set ?keys = dom (map_of (fold (aggregate_step u) events []))" by (simp add: dom_map_of_conv_image_fst)
  also have "\<dots> = {cause. cause \<noteq> [] \<and> cause_times u cause events \<noteq> []}"
    by (auto simp: aggregates_lookup dom_def)
  also have "\<dots> = set ?kept"
    using cause_times_class causes_set by auto
  finally show "set (sort ?keys) = set ?kept" by simp
  show "distinct (sort ?keys)" using aggregates_wf [of "[]" u events] by (simp add: gm_wf_def)
  have "sorted causes" by code_simp
  then show "sorted ?kept" by (rule sorted_wrt_filter)
  show "distinct ?kept" by (rule distinct_filter) code_simp
qed simp

definition log_facts ::
  "es_codec \<Rightarrow> (string \<Rightarrow> string) \<Rightarrow> es_Projection \<Rightarrow> (string \<Rightarrow> Time list) \<Rightarrow> (es_error, GraphFact list) result" where
  "log_facts codec sha input timesOf =
     rmap (\<lambda>cause. es_buildFact codec sha input cause (summary (timesOf cause))) (filter (\<lambda>cause. timesOf cause \<noteq> []) causes)"

lemma ProjectLogCauses_valid:
  assumes "search_hits codec input = Inr hits" and "valid_events codec input hits events"
  shows "ProjectLogCauses u codec sha input = log_facts codec sha input (\<lambda>cause. cause_times u cause events)"
proof -
  let ?aggs = "fold (aggregate_step u) events []" and ?kept = "filter (\<lambda>cause. cause_times u cause events \<noteq> []) causes"
  have "aggregate_hits u codec input 0 hits [] = Inr ?aggs" using assms(2) by (auto simp: aggregate_hits_iff)
  moreover have "rmap (\<lambda>cause. es_buildFact codec sha input cause (the (map_of ?aggs cause))) ?kept =
      log_facts codec sha input (\<lambda>cause. cause_times u cause events)"
    unfolding log_facts_def by (rule rmap_cong) (use causes_set in \<open>auto simp: aggregates_lookup\<close>)
  moreover have "length ?kept \<le> es_maxCauseFacts"
    by (rule order_trans [OF length_filter_le]) (simp add: es_maxCauseFacts_def causes_def)
  ultimately show ?thesis using assms(1) unfolding ProjectLogCauses_def Let_def by (simp del: length_sort add: aggregate_keys)
qed

text \<open>
  A projected response is exactly the summary of its hits. The projection of a response gives facts if and only if the
  response is complete and every hit is a valid log line of the pod in the window; there is then one fact for every class of cause
  that occurs, in a fixed order, built from the number of lines of that class and their first and last time. Whatever the
  order in which the map of causes is walked, and the limit on the number of facts is never what refuses a response.
\<close>
theorem ProjectLogCauses_exact:
  "ProjectLogCauses u codec sha input = Inr facts \<longleftrightarrow>
     (\<exists>hits events. search_hits codec input = Inr hits \<and>
        list_all2 (\<lambda>hit event. validateHit codec input hit = Inr event) hits events \<and>
        list_all2 (\<lambda>cause g. es_buildFact codec sha input cause
            \<lparr>ca_Count = int (length (cause_times u cause events)), ca_First = Min (set (cause_times u cause events)),
             ca_Last = Max (set (cause_times u cause events))\<rparr> = Inr g)
          (filter (\<lambda>cause. cause_times u cause events \<noteq> []) [''dependency-failure'', ''missing-config'', ''panic'']) facts)"
  (is "?L \<longleftrightarrow> (\<exists>hits events. ?R hits events)")
proof
  assume L: ?L
  then obtain hits events where found: "search_hits codec input = Inr hits" "valid_events codec input hits events"
    by (auto simp: ProjectLogCauses_def rbind_eq_Inr aggregate_hits_iff)
  from L ProjectLogCauses_valid [OF found] have "?R hits events"
    using found by (simp add: log_facts_def rmap_Inr_iff summary_def valid_events_def causes_def del: filter.simps)
  then show "\<exists>hits events. ?R hits events" by blast
next
  assume "\<exists>hits events. ?R hits events"
  then obtain hits events where R: "?R hits events" by blast
  then have "valid_events codec input hits events" by (simp add: valid_events_def)
  with R show ?L
    by (simp add: ProjectLogCauses_valid log_facts_def rmap_Inr_iff summary_def causes_def del: filter.simps)
qed

lemma response_irrelevant:
  "ep_Workspace (input\<lparr>ep_Response := response\<rparr>) = ep_Workspace input"
  "ep_Scope (input\<lparr>ep_Response := response\<rparr>) = ep_Scope input"
  "ep_Namespace (input\<lparr>ep_Response := response\<rparr>) = ep_Namespace input"
  "ep_Pod (input\<lparr>ep_Response := response\<rparr>) = ep_Pod input"
  "ep_Container (input\<lparr>ep_Response := response\<rparr>) = ep_Container input"
  "ep_WindowStart (input\<lparr>ep_Response := response\<rparr>) = ep_WindowStart input"
  "ep_WindowEnd (input\<lparr>ep_Response := response\<rparr>) = ep_WindowEnd input"
  "ep_ObservedAt (input\<lparr>ep_Response := response\<rparr>) = ep_ObservedAt input"
  by simp_all

lemma es_buildFact_response: "es_buildFact codec sha (input\<lparr>ep_Response := response\<rparr>) = es_buildFact codec sha input"
  unfolding es_buildFact_def [abs_def] cause_observation_def cause_identity_def cause_fact_def response_irrelevant ..

text \<open>
  C38: raw log text does not leave the connector. Two complete responses whose valid hits have, in any order, the same
  classes at the same times give the same result, whatever their messages are.
\<close>
theorem log_messages_discarded:
  assumes "search_hits codec input = Inr hits" and "search_hits codec (input\<lparr>ep_Response := response\<rparr>) = Inr hits'"
    and "list_all2 (\<lambda>hit event. validateHit codec input hit = Inr event) hits events"
    and "list_all2 (\<lambda>hit event. validateHit codec input hit = Inr event) hits' events'"
    and "mset (map (\<lambda>(message, t). (classifyMessage u message, t)) events) = mset (map (\<lambda>(message, t). (classifyMessage u message, t)) events')"
  shows "ProjectLogCauses u codec sha input = ProjectLogCauses u codec sha (input\<lparr>ep_Response := response\<rparr>)"
proof -
  let ?times = "\<lambda>events cause. cause_times u cause events"
  have times: "mset (?times events cause) =
      image_mset snd (filter_mset (\<lambda>(c, t). c = cause) (mset (map (\<lambda>(message, t). (classifyMessage u message, t)) events)))" for events cause
    by (induction events) (auto simp: cause_times_def)
  have same: "mset (?times events cause) = mset (?times events' cause)" for cause
    unfolding times assms(5) ..
  have "summary (?times events cause) = summary (?times events' cause)" "(?times events cause = []) = (?times events' cause = [])" for cause
    using same [of cause] by (auto simp: summary_def dest: mset_eq_length mset_eq_setD)
  then have "log_facts codec sha input (?times events) = log_facts codec sha input (?times events')"
    by (simp add: log_facts_def)
  also have "\<dots> = log_facts codec sha (input\<lparr>ep_Response := response\<rparr>) (?times events')"
    by (simp add: log_facts_def es_buildFact_response)
  finally have facts: "log_facts codec sha input (?times events) = log_facts codec sha (input\<lparr>ep_Response := response\<rparr>) (?times events')" .
  have "validateHit codec (input\<lparr>ep_Response := response\<rparr>) = validateHit codec input"
    unfolding validateHit_def [abs_def] response_irrelevant ..
  then show ?thesis
    using facts assms ProjectLogCauses_valid [of codec input hits events u sha]
      ProjectLogCauses_valid [of codec "input\<lparr>ep_Response := response\<rparr>" hits' events' u sha]
    by (simp add: valid_events_def)
qed

subsection \<open>What the investigation reads back\<close>

text \<open>
  The encoder of the connector and the decoders of the investigation are the same library on the same fields: a marshalled
  payload is one JSON object of valid UTF-8 with the fields of the structure, decodes to the value it was made from, and
  has a container member if and only if there is a container.
\<close>

definition codec_agrees :: "es_codec \<Rightarrow> graph_codec \<Rightarrow> bool" where
  "codec_agrees ec gc \<longleftrightarrow>
     (\<forall>i. gc_identity gc i = ec_identity ec i) \<and>
     (\<forall>p d. ec_marshal ec p = Some d \<longrightarrow> utf8_valid (el_Key p) \<and> utf8_valid (el_Value p) \<and> utf8_valid (el_Container p) \<longrightarrow>
        d \<noteq> [] \<and> utf8_valid d \<and> rejectDuplicateGraphJSON gc d \<and> gc_elasticsearch gc d = Some (p, TrailerEOF) \<and>
        (\<exists>members. gc_fields gc d = Some members \<and>
           set (gm_keys members) \<subseteq> {''key'', ''value'', ''count'', ''first_event_at'', ''last_event_at'', ''container''} \<and>
           (map_of members ''container'' = None \<longleftrightarrow> el_Container p = []) \<and>
           map_option trim_space (map_of members ''container'') \<noteq> Some ''null''))"

definition cause_seen :: "es_Projection \<Rightarrow> string \<Rightarrow> Time \<Rightarrow> Observation" where
  "cause_seen input cause at =
     \<lparr>ob_Ref = \<lparr>SourceKind = ''elasticsearch'', RefScope = ep_Scope input, RefKind = ''Pod'', RefNamespace = ep_Namespace input,
        RefName = ep_Pod input, Attributes = []\<rparr>,
      ob_Lens = LensTelemetry, ob_Key = ''logs.cause'', ob_Value = cause, ob_ObservedAt = at, ob_Source = ep_Scope input, ob_Stale = False\<rparr>"

lemma es_validateText_Inr:
  "es_validateText label value maximum optional = Inr () \<longleftrightarrow>
     (value = [] \<and> optional) \<or> (value \<noteq> [] \<and> length value \<le> maximum \<and> utf8_valid value \<and> trim_space value = value \<and> \<not> has_control value)"
  by (auto simp: es_validateText_def)

lemma search_hits_Inr:
  assumes "search_hits codec input = Inr hits"
  shows "length hits \<le> 128" and "ep_Scope input \<noteq> []" and "ep_Namespace input \<noteq> []" and "ep_Pod input \<noteq> []"
    and "ep_Container input = [] \<or> validElasticsearchGraphText (ep_Container input)"
    and "ep_WindowEnd input - ep_WindowStart input \<le> 900 * 1000000000"
    and "ep_WindowEnd input \<le> ep_ObservedAt input + 300 * 1000000000"
proof -
  obtain response where r: "es_validateProjection input = Inr ()" "validateSearchResponse response = Inr hits"
    using assms by (auto simp: search_hits_def rbind_eq_Inr split: if_splits option.splits)
  show "length hits \<le> 128" using r(2) by (auto simp: validateSearchResponse_def es_maxHits_def split: option.splits if_splits)
  show "ep_Scope input \<noteq> []" "ep_Namespace input \<noteq> []" "ep_Pod input \<noteq> []"
    and "ep_Container input = [] \<or> validElasticsearchGraphText (ep_Container input)"
    and "ep_WindowEnd input - ep_WindowStart input \<le> 900 * 1000000000"
    and "ep_WindowEnd input \<le> ep_ObservedAt input + 300 * 1000000000"
    using r(1) by (auto simp: es_validateProjection_def rbind_eq_Inr es_validateText_Inr es_maxIdentityText_def validElasticsearchGraphText_def
        es_maxQueryWindow_def es_maxClockSkew_def split: if_splits)
qed

lemma validateHit_time:
  assumes "validateHit codec input hit = Inr (message, t)"
  shows "t \<noteq> 0" and "ep_WindowStart input \<le> t" and "t \<le> ep_WindowEnd input"
  using assms by (auto simp: validateHit_def rbind_eq_Inr split: if_splits option.splits)

lemma cause_times_window:
  assumes "valid_events codec input hits events" and "t \<in> set (cause_times u cause events)"
  shows "t \<noteq> 0 \<and> ep_WindowStart input \<le> t \<and> t \<le> ep_WindowEnd input"
proof -
  obtain m where "(m, t) \<in> set events" using assms(2) by (auto simp: cause_times_def)
  then obtain hit where "validateHit codec input hit = Inr (m, t)"
    using assms(1) by (auto simp: valid_events_def in_set_conv_nth list_all2_conv_all_nth)
  with validateHit_time [OF this] show ?thesis by blast
qed

lemma hex_digest_native:
  assumes "length digest = 32"
  shows "validElasticsearchNativeID (''sha256:'' @ hex_encode digest) = Some (hex_encode digest)"
proof -
  have "list_all is_lower_hex (hex_encode digest)" by (rule hex_encode_lower)
  then have "is_ascii (hex_encode digest)"
    by (auto simp: is_ascii_def list_all_iff is_lower_hex_def in_range_def)
  then show ?thesis
    using assms hex_encode_lower [of digest]
    by (auto simp: validElasticsearchNativeID_def has_prefix_def range_runes_ascii list_all_iff is_lower_hex_def in_range_def)
qed

lemma hex_encode_take: "hex_encode (take n s) = take (2 * n) (hex_encode s)"
  by (induction s arbitrary: n) (auto simp: take_Cons split: nat.split)

lemma decode_marshalled:
  assumes "codec_agrees ec gc" and "ec_marshal ec p = Some d"
    and "utf8_valid (el_Key p)" "utf8_valid (el_Value p)" "utf8_valid (el_Container p)"
  shows "d \<noteq> []" and "decodeElasticsearchLogCausePayload gc d = Inr p"
proof -
  obtain members where d: "d \<noteq> []" "utf8_valid d" "rejectDuplicateGraphJSON gc d" "gc_elasticsearch gc d = Some (p, TrailerEOF)"
    and m: "gc_fields gc d = Some members"
      "set (gm_keys members) \<subseteq> {''key'', ''value'', ''count'', ''first_event_at'', ''last_event_at'', ''container''}"
      "map_of members ''container'' = None \<longleftrightarrow> el_Container p = []"
      "map_option trim_space (map_of members ''container'') \<noteq> Some ''null''"
    using assms(1) [unfolded codec_agrees_def, THEN conjunct2, rule_format, OF assms(2)] assms(3-5) by auto
  show "d \<noteq> []" by (rule d(1))
  have "check_fields [''key'', ''value'', ''count'', ''first_event_at'', ''last_event_at'', ''container''] members = Inr ()"
    using m(2) by (intro check_fields_ok) (simp only: list.set)
  with d m show "decodeElasticsearchLogCausePayload gc d = Inr p"
    unfolding decodeElasticsearchLogCausePayload_def check_trailer_def by simp
qed

lemma summary_bounds:
  assumes "search_hits ec input = Inr hits" and "valid_events ec input hits events" and "cause_times u cause events \<noteq> []"
  defines "agg \<equiv> summary (cause_times u cause events)"
  shows "0 < ca_Count agg" and "ca_Count agg \<le> 128" and "ca_First agg \<noteq> 0" and "ca_Last agg \<noteq> 0"
    and "ca_First agg \<le> ca_Last agg" and "ca_Last agg - ca_First agg \<le> 900 * 1000000000"
    and "ca_Last agg \<le> ep_ObservedAt input + 300 * 1000000000"
proof -
  let ?ts = "cause_times u cause events"
  note hits = search_hits_Inr [OF assms(1)]
  have "length ?ts \<le> length events" by (simp add: cause_times_def)
  moreover have "length events = length hits" using assms(2) by (auto simp: valid_events_def dest: list_all2_lengthD)
  ultimately show "0 < ca_Count agg" "ca_Count agg \<le> 128" using hits(1) assms(3) by (simp_all add: agg_def summary_def)
  have fin: "finite (set ?ts)" "set ?ts \<noteq> {}" using assms(3) by simp_all
  have "Min (set ?ts) \<le> Max (set ?ts)" using fin by simp
  then show "ca_First agg \<noteq> 0" "ca_Last agg \<noteq> 0" "ca_First agg \<le> ca_Last agg" "ca_Last agg - ca_First agg \<le> 900 * 1000000000"
    "ca_Last agg \<le> ep_ObservedAt input + 300 * 1000000000"
    using cause_times_window [OF assms(2) Min_in [OF fin]] cause_times_window [OF assms(2) Max_in [OF fin]] hits(6,7)
    by (simp_all add: agg_def summary_def)
qed

definition pod_entity :: "es_Projection \<Rightarrow> EntityRef" where
  "pod_entity input = \<lparr>en_Cluster = ep_Scope input, en_Namespace = ep_Namespace input, en_Kind = [], en_Name = [], en_Pod = ep_Pod input,
     en_Node = [], en_ImageDigest = []\<rparr>"

lemma log_cause_accepted:
  assumes "cause \<in> set causes" and "0 < ca_Count agg" and "ca_Count agg \<le> 128" and "ca_First agg \<noteq> 0" and "ca_Last agg \<noteq> 0"
    and "ca_First agg \<le> ca_Last agg" and "ca_Last agg - ca_First agg \<le> 900 * 1000000000"
    and "ca_Last agg \<le> ep_ObservedAt input + 300 * 1000000000"
    and "ep_Container input = [] \<or> validElasticsearchGraphText (ep_Container input)"
    and "gc_identity gc (cause_identity input cause agg) = Some i" and "length (sha i) = 32"
  shows "log_cause gc sha (cause_fact input d (sha i)) (pod_entity input) (cause_observation input cause agg) =
    Inr (Some (cause_seen input cause (ca_Last agg)))"
proof -
  let ?g = "cause_fact input d (sha i)" and ?p = "cause_observation input cause agg"
  have payload: "el_Key ?p = ''logs.cause''" "el_Value ?p = cause" "el_Count ?p = ca_Count agg" "el_FirstEventAt ?p = ca_First agg"
    "el_LastEventAt ?p = ca_Last agg" "el_Container ?p = ep_Container input"
    by (simp_all add: cause_observation_def)
  have known: "List.member [''panic'', ''missing-config'', ''dependency-failure''] cause"
    using assms(1) by (auto simp: causes_def)
  have digest: "elasticsearchLogCauseDigest gc sha ?g (pod_entity input) ?p = Some (hex_encode (sha i))"
    using assms(10)
    by (simp add: elasticsearchLogCauseDigest_def cause_fact_def cause_observation_def cause_identity_def pod_entity_def)
  have named: "validElasticsearchNativeID (NativeID (FProvenance (gf_Fact ?g))) = Some (hex_encode (sha i))"
    "RefName (Ref (gf_Fact ?g)) = ''log-'' @ take 32 (hex_encode (sha i))"
    using hex_digest_native [of "sha i"] assms(11) by (simp_all add: cause_fact_def hex_encode_take)
  have "ObservedAt (gf_Fact ?g) = ep_ObservedAt input" "Source (gf_Fact ?g) = ep_Scope input" "\<not> FStale (gf_Fact ?g)"
    by (simp_all add: cause_fact_def)
  with assms(2-9) known digest named show ?thesis
    unfolding log_cause_def Let_def payload
    by (simp add: maxElasticsearchCauseCount_def maxElasticsearchCauseWindow_def maxElasticsearchClockSkew_def pod_entity_def cause_seen_def
        del: List.member_code)
qed

lemma cause_fact_read:
  assumes "ep_Scope input \<noteq> []" and "ep_Namespace input \<noteq> []" and "ep_Pod input \<noteq> []" and "d \<noteq> []" and "length d \<le> 4096"
    and "decodeElasticsearchLogCausePayload gc d = Inr p"
    and "log_cause gc sha (cause_fact input d digest) (pod_entity input) p = Inr seen"
  shows "observationFromGraphFact u gc sha (cause_fact input d digest) = Inr seen"
  using assms
  by (simp add: observationFromGraphFact_def observationFromElasticsearchLogCauseGraphFact_def cause_fact_def pod_entity_def
      maxElasticsearchLogCausePayload_def)

lemma summary_payload_accepted:
  assumes "search_hits ec input = Inr hits" and "valid_events ec input hits events" and "cause \<in> set causes"
    and "cause_times u cause events \<noteq> []" and "codec_agrees ec gc" and sha: "\<forall>s. length (sha s) = 32"
    and "es_buildFact ec sha input cause (summary (cause_times u cause events)) = Inr g"
  shows "observationFromGraphFact u gc sha g = Inr (Some (cause_seen input cause (Max (set (cause_times u cause events)))))"
proof -
  let ?agg = "summary (cause_times u cause events)"
  note hits = search_hits_Inr [OF assms(1)] and bounds = summary_bounds [OF assms(1,2,4)]
  obtain d i where d: "ec_marshal ec (cause_observation input cause ?agg) = Some d" "length d \<le> es_maxFactPayloadBytes"
    and i: "ec_identity ec (cause_identity input cause ?agg) = Some i" and g: "g = cause_fact input d (sha i)"
    using assms(7) by (auto simp: es_buildFact_def Let_def split: option.splits if_splits sum.splits)
  have "utf8_valid ''logs.cause''" "utf8_valid []" by code_simp+
  moreover have "utf8_valid cause" using assms(3) by (auto simp: causes_def) code_simp+
  ultimately have dec: "d \<noteq> []" "decodeElasticsearchLogCausePayload gc d = Inr (cause_observation input cause ?agg)"
    using decode_marshalled [OF assms(5) d(1)] hits(5) by (auto simp: cause_observation_def validElasticsearchGraphText_def)
  have "gc_identity gc (cause_identity input cause ?agg) = Some i" using i assms(5) by (simp add: codec_agrees_def)
  note log_cause_accepted [where d = d, OF assms(3) bounds hits(5) this sha [rule_format]]
  from cause_fact_read [OF hits(2-4) dec(1) _ dec(2) this] d(2) show ?thesis
    by (simp add: g es_maxFactPayloadBytes_def summary_def)
qed

text \<open>
  C37: connector and investigation agree on log causes. If both use the same JSON codec and the digest has 32 bytes, every fact the
  connector projects from a response is read by the investigation as one observation: the pod of the request, the class of
  the lines, and the time of the last of them. No projected fact contradicts the reader's checks of count, interval, clock
  skew, container or digest.
\<close>
theorem projected_causes_observed:
  assumes "codec_agrees ec gc" and "\<forall>s. length (sha s) = 32" and "ProjectLogCauses u ec sha input = Inr facts"
  shows "\<exists>hits events. search_hits ec input = Inr hits \<and>
    list_all2 (\<lambda>hit event. validateHit ec input hit = Inr event) hits events \<and>
    map (observationFromGraphFact u gc sha) facts =
      map (\<lambda>cause. Inr (Some (cause_seen input cause (Max (set (cause_times u cause events))))))
        (filter (\<lambda>cause. cause_times u cause events \<noteq> []) [''dependency-failure'', ''missing-config'', ''panic''])"
proof -
  obtain hits events where found: "search_hits ec input = Inr hits" "valid_events ec input hits events"
    using assms(3) by (auto simp: ProjectLogCauses_def rbind_eq_Inr aggregate_hits_iff)
  let ?kept = "filter (\<lambda>cause. cause_times u cause events \<noteq> []) causes"
  have built: "list_all2 (\<lambda>cause g. es_buildFact ec sha input cause (summary (cause_times u cause events)) = Inr g) ?kept facts"
    using assms(3) ProjectLogCauses_valid [OF found, of u sha] by (simp only: log_facts_def rmap_Inr_iff)
  have "list_all2 (\<lambda>cause g. observationFromGraphFact u gc sha g =
      Inr (Some (cause_seen input cause (Max (set (cause_times u cause events)))))) ?kept facts"
    using built
  proof (rule list.rel_mono_strong)
    fix cause g
    assume "cause \<in> set ?kept" and g: "es_buildFact ec sha input cause (summary (cause_times u cause events)) = Inr g"
    then have "cause \<in> set causes" "cause_times u cause events \<noteq> []" by simp_all
    from summary_payload_accepted [OF found this assms(1,2) g]
    show "observationFromGraphFact u gc sha g = Inr (Some (cause_seen input cause (Max (set (cause_times u cause events)))))" .
  qed
  then have "map (observationFromGraphFact u gc sha) facts =
      map (\<lambda>cause. Inr (Some (cause_seen input cause (Max (set (cause_times u cause events)))))) ?kept"
    by (induction rule: list_all2_induct) simp_all
  with found show ?thesis unfolding valid_events_def causes_def by (intro exI conjI)
qed

subsection \<open>Shards\<close>

text \<open>An accepted response is complete: the sum of shard counts that the code compares at 64 bits cannot wrap into agreement.\<close>

lemma add_int64_total:
  assumes "0 \<le> a" "a < 2 ^ 63" "0 \<le> b" "b < 2 ^ 63" "0 < t" and "add_int64 a b = t"
  shows "a + b = t"
proof -
  have "add_int64 a b = signed_take_bit 63 (a + b)"
    unfolding add_int64_def wi_hom_add by (simp add: sint_sbintrunc' del: of_int_add)
  also have "\<dots> = (a + b + 2 ^ 63) mod 2 ^ 64 - 2 ^ 63"
    by (simp add: signed_take_bit_eq_take_bit_shift take_bit_eq_mod)
  finally have wrapped: "(a + b + 2 ^ 63) mod 2 ^ 64 = t + 2 ^ 63" using assms(6) by simp
  show ?thesis
  proof (cases "a + b < 2 ^ 63")
    case True
    then show ?thesis using wrapped assms by simp
  next
    case False
    then have "(a + b + 2 ^ 63) mod 2 ^ 64 = a + b + 2 ^ 63 - 2 ^ 64"
      using assms by (simp add: mod_pos_geq)
    with wrapped assms show ?thesis by simp
  qed
qed

lemma unmarshal_int64_less: "unmarshal_int64 v = Some n \<Longrightarrow> n < 2 ^ 63"
proof (cases v)
  case (VNumber s)
  assume "unmarshal_int64 v = Some n"
  with VNumber have "parse_int64 s = Some n" by simp
  moreover have "0 \<le> digits_value body" if "list_all is_digit body" for body
  proof -
    have "0 \<le> foldl (\<lambda>acc c. acc * 10 + (int (byte_of c) - 48)) k body" if "0 \<le> k" for k
      using that \<open>list_all is_digit body\<close>
      by (induction body arbitrary: k) (simp_all add: is_digit_def in_range_def)
    then show ?thesis by (simp add: digits_value_def)
  qed
  ultimately show ?thesis by (force simp: parse_int64_def Let_def split: list.splits if_splits)
qed simp_all

lemma decoded_count_less:
  assumes "decodeOptionalField unmarshal_int64 members name = Inr (Some n)"
  shows "n < 2 ^ 63"
  using assms unmarshal_int64_less by (auto simp: decodeOptionalField_def split: option.splits if_splits)

lemma shard_counts_less:
  assumes "shardSummary_UnmarshalJSON v = Inr shards"
  shows "sh_Successful shards = Some n \<Longrightarrow> n < 2 ^ 63" and "sh_Skipped shards = Some n \<Longrightarrow> n < 2 ^ 63"
  using assms decoded_count_less by (auto simp: shardSummary_UnmarshalJSON_def rbind_eq_Inr)

lemma accepted_response_complete:
  assumes "search_hits codec input = Inr hits"
  obtains document response shards successful skipped where "ec_parse codec (ep_Response input) = Some document"
    "searchResponse_UnmarshalJSON document = Inr response" "se_TimedOut response = Some False" "se_TerminatedEarly response \<noteq> Some True"
    "se_Shards response = Some shards" "sh_Failed shards = Some 0" "sh_Successful shards = Some successful" "sh_Skipped shards = Some skipped"
    "sh_Total shards = Some (successful + skipped)" "0 < successful + skipped" "se_Hits response = Some (Some hits)"
proof -
  obtain document response where decoded: "ec_parse codec (ep_Response input) = Some document"
      "searchResponse_UnmarshalJSON document = Inr response" "validateSearchResponse response = Inr hits"
    using assms by (auto simp: search_hits_def rbind_eq_Inr split: if_splits option.splits)
  then obtain shards totalCount successful skipped where
    s: "se_TimedOut response = Some False" "se_TerminatedEarly response \<noteq> Some True" "se_Shards response = Some shards"
      "sh_Failed shards = Some 0" "sh_Successful shards = Some successful" "sh_Skipped shards = Some skipped"
      "sh_Total shards = Some totalCount" "0 \<le> successful" "0 \<le> skipped" "0 < totalCount" "add_int64 successful skipped = totalCount"
      "se_Hits response = Some (Some hits)"
    by (auto simp: validateSearchResponse_def split: option.splits if_splits)
  obtain members where "decodeOptionalField (\<lambda>x. ok_option (shardSummary_UnmarshalJSON x)) members ''_shards'' = Inr (Some shards)"
    using decoded(2) s(3) by (auto simp: searchResponse_UnmarshalJSON_def rbind_eq_Inr)
  then obtain v where "shardSummary_UnmarshalJSON v = Inr shards"
    by (auto simp: decodeOptionalField_def ok_option_def split: option.splits sum.splits if_splits)
  from add_int64_total [OF s(8) shard_counts_less(1) [OF this s(5)] s(9) shard_counts_less(2) [OF this s(6)] s(10,11)]
  show thesis using that decoded s by simp
qed

subsection \<open>Witnesses\<close>

definition sample_log_query :: es_Projection where
  "sample_log_query = \<lparr>ep_Workspace = ''payments'', ep_Scope = ''west'', ep_Namespace = ''shop'', ep_Pod = ''web-0'', ep_Container = [],
     ep_WindowStart = 100, ep_WindowEnd = 1000, ep_ObservedAt = 2000, ep_Response = ''first''\<rparr>"

definition sample_hit :: "string \<Rightarrow> string \<Rightarrow> gvalue" where
  "sample_hit at message = VObj [(''fields'', VObj [(''@timestamp'', VArr [VString at]), (''message'', VArr [VString message]),
     (''orchestrator.cluster.name'', VArr [VString ''west'']), (''kubernetes.namespace'', VArr [VString ''shop'']),
     (''kubernetes.pod.name'', VArr [VString ''web-0''])])]"

definition sample_search :: "gvalue list \<Rightarrow> gvalue" where
  "sample_search hits = VObj [(''timed_out'', VBool False),
     (''_shards'', VObj [(''total'', VNumber ''2''), (''successful'', VNumber ''1''), (''skipped'', VNumber ''1''), (''failed'', VNumber ''0'')]),
     (''hits'', VObj [(''hits'', VArr hits)])]"

definition sample_cause :: elasticsearchLogCausePayload where
  "sample_cause = cause_observation sample_log_query ''panic'' \<lparr>ca_Count = 2, ca_First = 200, ca_Last = 300\<rparr>"

definition sample_es_codec :: es_codec where
  "sample_es_codec = \<lparr>ec_tokens = (\<lambda>d. ([obj_open, obj_close], True)),
     ec_parse = (\<lambda>d. if d = ''first'' then Some (sample_search [sample_hit ''early'' ''panic: token 1'', sample_hit ''late'' ''fatal error: stack'',
         sample_hit ''late'' ''listening''])
       else Some (sample_search [sample_hit ''late'' ''PANIC: other'', sample_hit ''late'' ''ready'', sample_hit ''early'' ''Uncaught exception''])),
     ec_time = (\<lambda>s. if s = ''early'' then Some 200 else Some 300),
     ec_marshal = (\<lambda>p. if p = sample_cause then Some ''payload'' else None), ec_identity = (\<lambda>i. Some ''identity'')\<rparr>"

definition sample_log_reader :: graph_codec where
  "sample_log_reader = \<lparr>gc_tokens = (\<lambda>d. ([obj_open, obj_close], True)), gc_fields = (\<lambda>d. Some []), gc_argo = (\<lambda>d. None),
     gc_github = (\<lambda>d. None), gc_elasticsearch = (\<lambda>d. Some (sample_cause, TrailerEOF)), gc_identity = (\<lambda>i. Some ''identity'')\<rparr>"

abbreviation digest32 :: "string \<Rightarrow> string" where "digest32 \<equiv> \<lambda>s. replicate 32 CHR ''a''"

lemma sample_codecs_agree: "codec_agrees sample_es_codec sample_log_reader"
proof -
  have "utf8_valid ''payload''" "rejectDuplicateGraphJSON sample_log_reader ''payload''" by code_simp+
  then show ?thesis by (auto simp: codec_agrees_def sample_es_codec_def sample_log_reader_def sample_cause_def cause_observation_def sample_log_query_def)
qed

theorem projected_causes_observed_witness:
  "\<exists>facts cause at. ProjectLogCauses ascii_case sample_es_codec digest32 sample_log_query = Inr facts \<and>
     map (observationFromGraphFact ascii_case sample_log_reader digest32) facts = [Inr (Some (cause_seen sample_log_query cause at))]"
proof -
  have run: "is_ok (ProjectLogCauses ascii_case sample_es_codec digest32 sample_log_query)"
    "length (projr (ProjectLogCauses ascii_case sample_es_codec digest32 sample_log_query)) = 1" by code_simp+
  then obtain facts where facts: "ProjectLogCauses ascii_case sample_es_codec digest32 sample_log_query = Inr facts" "length facts = 1"
    by (auto simp: is_ok_iff)
  obtain cause_list seen where
    "map (observationFromGraphFact ascii_case sample_log_reader digest32) facts = map (\<lambda>cause. Inr (Some (cause_seen sample_log_query cause (seen cause)))) cause_list"
    using projected_causes_observed [OF sample_codecs_agree _ facts(1)] by force
  with facts show ?thesis by (cases cause_list) (auto simp: length_Suc_conv)
qed

theorem log_messages_discarded_witness:
  "ProjectLogCauses ascii_case sample_es_codec digest32 sample_log_query =
     ProjectLogCauses ascii_case sample_es_codec digest32 (sample_log_query\<lparr>ep_Response := ''second''\<rparr>)"
proof -
  let ?first = "[(''panic: token 1'', 200), (''fatal error: stack'', 300), (''listening'', 300)] :: (string \<times> Time) list"
  let ?second = "[(''PANIC: other'', 300), (''ready'', 300), (''Uncaught exception'', 200)] :: (string \<times> Time) list"
  let ?kinds = "\<lambda>(message, t). (classifyMessage ascii_case message, t)"
  obtain hits hits' where hits: "search_hits sample_es_codec sample_log_query = Inr hits"
      "search_hits sample_es_codec (sample_log_query\<lparr>ep_Response := ''second''\<rparr>) = Inr hits'"
    and "rmap (validateHit sample_es_codec sample_log_query) hits = Inr ?first" "rmap (validateHit sample_es_codec sample_log_query) hits' = Inr ?second"
  proof -
    have "rbind (search_hits sample_es_codec sample_log_query) (rmap (validateHit sample_es_codec sample_log_query)) = Inr ?first"
      "rbind (search_hits sample_es_codec (sample_log_query\<lparr>ep_Response := ''second''\<rparr>)) (rmap (validateHit sample_es_codec sample_log_query)) = Inr ?second"
      by code_simp+
    then show thesis using that by (auto simp: rbind_eq_Inr)
  qed
  moreover have "map ?kinds ?first = [(''panic'', 200), (''panic'', 300), ([], 300)]" "map ?kinds ?second = [(''panic'', 300), ([], 300), (''panic'', 200)]"
    by code_simp+
  then have "mset (map ?kinds ?first) = mset (map ?kinds ?second)" by (simp only:) simp
  ultimately show ?thesis using log_messages_discarded [OF hits] by (simp only: rmap_Inr_iff)
qed

end
