(* ===== verification/Intent_Args.thy ===== *)
theory Intent_Args
  imports Go_JSON
begin

text \<open>
  Argument schemas of governed intents (\<open>internal/intentargs\<close>): the strict reading of a JSON object, the policy a
  registered schema has to meet, compilation and validation. The schema library is a parameter
  (\<open>jsonschema_api\<close>): its type of schemas with the fields the policy reads, parsing, resolution and
  validation. A JSON document is read through the decoder's tokens and its decoded value. Ranging over the maps of
  sub-schemas visits them in the order of the association list.
\<close>

subsection \<open>Exact documents\<close>

definition MaxDocumentBytes :: nat where "MaxDocumentBytes = 64 * 1024"
definition MaxNestingDepth :: nat where "MaxNestingDepth = 32"
definition maxNumberBytes :: nat where "maxNumberBytes = 128"
definition maxExponent :: int where "maxExponent = 1000"
definition maxSchemaNodes :: nat where "maxSchemaNodes = 256"
definition maxSchemaDepth :: nat where "maxSchemaDepth = 16"
definition maxAnnotationBytes :: nat where "maxAnnotationBytes = 512"
definition maxAnnotationBytesTotal :: nat where "maxAnnotationBytesTotal = 4 * 1024"

datatype number_error = NumberTooLong | ExponentOutOfBounds

datatype args_error =
    DocumentEmpty
  | DocumentTooLarge
  | DocumentNotUTF8
  | RootUnreadable
  | RootNotObject
  | DocumentWalk "number_error walk_error"
  | TrailingData
  | DecodeFailed
  | NumberNotInt64
  | SchemaDecode
  | SchemaDialect
  | SchemaRoot
  | TooManyNodes
  | SchemaTooDeep
  | SchemaIdentifier
  | RemoteReference
  | RemoteDynamicReference
  | NonEnforcingKeyword
  | UnsupportedKeyword
  | NestedDialect
  | CustomVocabulary
  | CommentDefaultExample
  | AnnotationUnbounded string
  | AnnotationUnsafe string
  | OpenObjectSchema
  | ResolveFailed
  | SchemaUnavailable
  | MalformedDocument
  | SchemaMismatch

text \<open>The text after the first \<open>e\<close> or \<open>E\<close>, where there is one.\<close>

fun after_exponent :: "string \<Rightarrow> string option" where
  "after_exponent [] = None"
| "after_exponent (c # cs) = (if c = CHR ''e'' \<or> c = CHR ''E'' then Some cs else after_exponent cs)"

definition validateNumber :: "string \<Rightarrow> (number_error, unit) result" where
  "validateNumber text =
     (if length text > maxNumberBytes then Inl NumberTooLong
      else case after_exponent text of
        None \<Rightarrow> Inr ()
      | Some digits \<Rightarrow>
          (case parse_int64 digits of
             None \<Rightarrow> Inl ExponentOutOfBounds
           | Some e \<Rightarrow> if e < - maxExponent \<or> e > maxExponent then Inl ExponentOutOfBounds else Inr ()))"

text \<open>With \<open>UseNumber\<close> a scalar token is a number unless it is one of the three literals.\<close>

definition is_number :: "string \<Rightarrow> bool" where
  "is_number text \<longleftrightarrow> text \<noteq> ''true'' \<and> text \<noteq> ''false'' \<and> text \<noteq> ''null''"

fun inspect_leaf :: "jtoken \<Rightarrow> (number_error, unit) result" where
  "inspect_leaf (JScalar text) = (if is_number text then validateNumber text else Inr ())"
| "inspect_leaf (JString s) = Inr ()"
| "inspect_leaf (JDelim c) = Inr ()"

definition inspectValue :: "nat \<Rightarrow> jtoken list \<Rightarrow> (number_error walk_error, jtoken list) result" where
  "inspectValue depth ts = walk_value MaxNestingDepth inspect_leaf depth ts"

definition inspectArray :: "nat \<Rightarrow> jtoken list \<Rightarrow> (number_error walk_error, jtoken list) result" where
  "inspectArray depth ts = walk_array MaxNestingDepth inspect_leaf depth ts"

definition inspectObject :: "nat \<Rightarrow> jtoken list \<Rightarrow> (number_error walk_error, jtoken list) result" where
  "inspectObject depth ts = walk_object MaxNestingDepth inspect_leaf depth [] ts"

text \<open>
  \<open>big.Rat.SetString\<close> on a JSON number literal: the digits of the mantissa as one integer, scaled by a power
  of ten; \<open>IsInt\<close> and \<open>Num\<close> of the reduced fraction.
\<close>

fun before_exponent :: "string \<Rightarrow> string" where
  "before_exponent [] = []"
| "before_exponent (c # cs) = (if c = CHR ''e'' \<or> c = CHR ''E'' then [] else c # before_exponent cs)"

definition literal_integer :: "string \<Rightarrow> int option" where
  "literal_integer text =
     (let (neg, body) = (case text of [] \<Rightarrow> (False, []) | c # cs \<Rightarrow> if c = CHR ''-'' then (True, cs) else (False, text));
          mantissa = before_exponent body;
          (whole, fraction) = (case cut mantissa ''.'' of None \<Rightarrow> (mantissa, []) | Some (w, f) \<Rightarrow> (w, f));
          digits = whole @ fraction
      in if digits = [] \<or> \<not> list_all is_digit digits then None
         else case (case after_exponent body of None \<Rightarrow> Some 0 | Some e \<Rightarrow> parse_int64 e) of
           None \<Rightarrow> None
         | Some e \<Rightarrow>
             let scale = e - int (length fraction); v = (if neg then - digits_value digits else digits_value digits)
             in if 0 \<le> scale then Some (v * 10 ^ nat scale)
                else if v mod 10 ^ nat (- scale) = 0 then Some (v div 10 ^ nat (- scale)) else None)"

definition int64_literal :: "string \<Rightarrow> int option" where
  "int64_literal text =
     (case literal_integer text of
        None \<Rightarrow> None
      | Some i \<Rightarrow> if - (2 ^ 63) \<le> i \<and> i < 2 ^ 63 then Some i else None)"

lemma rmap_fundef_cong [fundef_cong]:
  "xs = ys \<Longrightarrow> (\<And>x. x \<in> set ys \<Longrightarrow> f x = g x) \<Longrightarrow> rmap f xs = rmap g ys"
  by (auto intro: rmap_cong)

fun normalizeNumbers :: "gvalue \<Rightarrow> (args_error, gvalue) result" where
  "normalizeNumbers (VNumber text) = (case int64_literal text of None \<Rightarrow> Inl NumberNotInt64 | Some i \<Rightarrow> Inr (VInt i))"
| "normalizeNumbers (VArr vs) = rbind (rmap normalizeNumbers vs) (\<lambda>ws. Inr (VArr ws))"
| "normalizeNumbers (VObj ms) =
     rbind (rmap (\<lambda>m. rbind (normalizeNumbers (snd m)) (\<lambda>w. Inr (fst m, w))) ms) (\<lambda>ns. Inr (VObj ns))"
| "normalizeNumbers v = Inr v"

record json_codec =
  jc_tokens :: "string \<Rightarrow> jtoken list \<times> bool"
  jc_decode :: "string \<Rightarrow> (string \<times> gvalue) list option"

definition decodeExactObject :: "json_codec \<Rightarrow> string \<Rightarrow> (args_error, gvalue) result" where
  "decodeExactObject codec document =
     (if document = [] then Inl DocumentEmpty
      else if length document > MaxDocumentBytes then Inl DocumentTooLarge
      else if \<not> utf8_valid document then Inl DocumentNotUTF8
      else let (ts, ended) = jc_tokens codec document in
        case ts of
          [] \<Rightarrow> Inl RootUnreadable
        | t # body \<Rightarrow>
            if t \<noteq> obj_open then Inl RootNotObject
            else case inspectObject 1 body of
              Inl e \<Rightarrow> Inl (DocumentWalk e)
            | Inr rest \<Rightarrow>
                if rest \<noteq> [] \<or> \<not> ended then Inl TrailingData
                else case jc_decode codec document of
                  None \<Rightarrow> Inl DecodeFailed
                | Some ms \<Rightarrow> normalizeNumbers (VObj ms))"

subsection \<open>The policy of registered schemas\<close>

abbreviation Draft2020 :: string where "Draft2020 \<equiv> ''https://json-schema.org/draft/2020-12/schema''"

text \<open>The schema library: a schema's fields as functions, nil pointers as None.\<close>

record ('s, 'r) jsonschema_api =
  sa_parse :: "string \<Rightarrow> 's option"
  sa_Resolve :: "'s \<Rightarrow> 'r option"
  sa_Validate :: "'r \<Rightarrow> gvalue \<Rightarrow> bool"
  sa_Equal :: "'s \<Rightarrow> 's \<Rightarrow> bool"
  sa_notAnything :: 's
  sa_ID :: "'s \<Rightarrow> string"
  sa_Schema :: "'s \<Rightarrow> string"
  sa_Ref :: "'s \<Rightarrow> string"
  sa_DynamicRef :: "'s \<Rightarrow> string"
  sa_Type :: "'s \<Rightarrow> string"
  sa_Types :: "'s \<Rightarrow> string list"
  sa_Format :: "'s \<Rightarrow> string"
  sa_ContentEncoding :: "'s \<Rightarrow> string"
  sa_ContentMediaType :: "'s \<Rightarrow> string"
  sa_ContentSchema :: "'s \<Rightarrow> 's option"
  sa_Extra :: "'s \<Rightarrow> (string, string) gomap"
  sa_Vocabulary :: "'s \<Rightarrow> (string, bool) gomap"
  sa_Comment :: "'s \<Rightarrow> string"
  sa_Default :: "'s \<Rightarrow> string"
  sa_Examples :: "'s \<Rightarrow> string list"
  sa_Title :: "'s \<Rightarrow> string"
  sa_Description :: "'s \<Rightarrow> string"
  sa_Defs :: "'s \<Rightarrow> (string, 's option) gomap"
  sa_Definitions :: "'s \<Rightarrow> (string, 's option) gomap"
  sa_DependencySchemas :: "'s \<Rightarrow> (string, 's option) gomap"
  sa_Properties :: "'s \<Rightarrow> (string, 's option) gomap"
  sa_PatternProperties :: "'s \<Rightarrow> (string, 's option) gomap"
  sa_DependentSchemas :: "'s \<Rightarrow> (string, 's option) gomap"
  sa_DependentRequired :: "'s \<Rightarrow> (string, string list) gomap"
  sa_MinProperties :: "'s \<Rightarrow> int option"
  sa_MaxProperties :: "'s \<Rightarrow> int option"
  sa_PrefixItems :: "'s \<Rightarrow> 's option list"
  sa_Items :: "'s \<Rightarrow> 's option"
  sa_ItemsArray :: "'s \<Rightarrow> 's option list"
  sa_AdditionalItems :: "'s \<Rightarrow> 's option"
  sa_Contains :: "'s \<Rightarrow> 's option"
  sa_UnevaluatedItems :: "'s \<Rightarrow> 's option"
  sa_AdditionalProperties :: "'s \<Rightarrow> 's option"
  sa_PropertyNames :: "'s \<Rightarrow> 's option"
  sa_UnevaluatedProperties :: "'s \<Rightarrow> 's option"
  sa_AllOf :: "'s \<Rightarrow> 's option list"
  sa_AnyOf :: "'s \<Rightarrow> 's option list"
  sa_OneOf :: "'s \<Rightarrow> 's option list"
  sa_Not :: "'s \<Rightarrow> 's option"
  sa_If :: "'s \<Rightarrow> 's option"
  sa_Then :: "'s \<Rightarrow> 's option"
  sa_Else :: "'s \<Rightarrow> 's option"

record schemaBudget =
  sb_nodes :: nat
  sb_annotationBytes :: nat

definition unsafe_annotation :: "string \<Rightarrow> bool" where
  "unsafe_annotation value \<longleftrightarrow>
     list_ex (\<lambda>(r, w). is_control r \<or> r \<in> {60, 62, 123, 125}) (range_runes value)"

definition validateAnnotation :: "string \<Rightarrow> string \<Rightarrow> schemaBudget \<Rightarrow> (args_error, schemaBudget) result" where
  "validateAnnotation label value budget =
     (if value = [] then Inr budget
      else let budget' = budget\<lparr>sb_annotationBytes := sb_annotationBytes budget + length value\<rparr> in
        if length value > maxAnnotationBytes \<or> sb_annotationBytes budget' > maxAnnotationBytesTotal \<or>
          \<not> utf8_valid value \<or> trim_space value \<noteq> value then Inl (AnnotationUnbounded label)
        else if unsafe_annotation value then Inl (AnnotationUnsafe label)
        else Inr budget')"

definition schemaMayMatchObject :: "('s, 'r) jsonschema_api \<Rightarrow> 's \<Rightarrow> bool" where
  "schemaMayMatchObject api s \<longleftrightarrow>
     sa_Type api s = ''object'' \<or> sa_Properties api s \<noteq> [] \<or> sa_PatternProperties api s \<noteq> [] \<or>
     sa_AdditionalProperties api s \<noteq> None \<or> sa_PropertyNames api s \<noteq> None \<or> sa_DependentSchemas api s \<noteq> [] \<or>
     sa_DependentRequired api s \<noteq> [] \<or> sa_MinProperties api s \<noteq> None \<or> sa_MaxProperties api s \<noteq> None \<or>
     List.member (sa_Types api s) ''object''"

definition isFalseSchema :: "('s, 'r) jsonschema_api \<Rightarrow> 's option \<Rightarrow> bool" where
  "isFalseSchema api s = (case s of None \<Rightarrow> False | Some t \<Rightarrow> sa_Equal api t (sa_notAnything api))"

definition childSchemas :: "('s, 'r) jsonschema_api \<Rightarrow> 's \<Rightarrow> 's option list" where
  "childSchemas api s =
     map snd (sa_Defs api s) @ map snd (sa_Definitions api s) @ map snd (sa_DependencySchemas api s) @
     map snd (sa_Properties api s) @ map snd (sa_PatternProperties api s) @ map snd (sa_DependentSchemas api s) @
     sa_PrefixItems api s @ [sa_Items api s] @ sa_ItemsArray api s @
     [sa_AdditionalItems api s, sa_Contains api s, sa_UnevaluatedItems api s] @
     [sa_AdditionalProperties api s, sa_PropertyNames api s, sa_UnevaluatedProperties api s] @
     sa_AllOf api s @ sa_AnyOf api s @ sa_OneOf api s @
     [sa_Not api s, sa_If api s, sa_Then api s, sa_Else api s, sa_ContentSchema api s]"

text \<open>The conditions on one schema, its children apart, in the order of the code.\<close>

definition schema_node ::
  "('s, 'r) jsonschema_api \<Rightarrow> 's \<Rightarrow> bool \<Rightarrow> nat \<Rightarrow> schemaBudget \<Rightarrow> (args_error, schemaBudget) result" where
  "schema_node api s root depth budget =
     (let budget = budget\<lparr>sb_nodes := sb_nodes budget + 1\<rparr> in
      if sb_nodes budget > maxSchemaNodes then Inl TooManyNodes
      else if depth > maxSchemaDepth then Inl SchemaTooDeep
      else if sa_ID api s \<noteq> [] then Inl SchemaIdentifier
      else if sa_Ref api s \<noteq> [] \<and> \<not> has_prefix (sa_Ref api s) ''#'' then Inl RemoteReference
      else if sa_DynamicRef api s \<noteq> [] \<and> \<not> has_prefix (sa_DynamicRef api s) ''#'' then Inl RemoteDynamicReference
      else if sa_Format api s \<noteq> [] \<or> sa_ContentEncoding api s \<noteq> [] \<or> sa_ContentMediaType api s \<noteq> [] \<or>
        sa_ContentSchema api s \<noteq> None then Inl NonEnforcingKeyword
      else if sa_Extra api s \<noteq> [] then Inl UnsupportedKeyword
      else if \<not> root \<and> sa_Schema api s \<noteq> [] then Inl NestedDialect
      else if sa_Vocabulary api s \<noteq> [] then Inl CustomVocabulary
      else if sa_Comment api s \<noteq> [] \<or> sa_Default api s \<noteq> [] \<or> sa_Examples api s \<noteq> [] then Inl CommentDefaultExample
      else rbind (validateAnnotation ''title'' (sa_Title api s) budget) (\<lambda>budget.
        rbind (validateAnnotation ''description'' (sa_Description api s) budget) (\<lambda>budget.
        if schemaMayMatchObject api s \<and> \<not> isFalseSchema api (sa_AdditionalProperties api s) then Inl OpenObjectSchema
        else Inr budget)))"

lemma schema_node_depth: "schema_node api s root depth budget = Inr b \<Longrightarrow> depth \<le> maxSchemaDepth"
  by (auto simp: schema_node_def Let_def split: if_splits)

function validateSchemaPolicy ::
    "('s, 'r) jsonschema_api \<Rightarrow> 's option \<Rightarrow> bool \<Rightarrow> nat \<Rightarrow> schemaBudget \<Rightarrow> (args_error, schemaBudget) result"
  and policy_children ::
    "('s, 'r) jsonschema_api \<Rightarrow> 's option list \<Rightarrow> nat \<Rightarrow> schemaBudget \<Rightarrow> (args_error, schemaBudget) result" where
  "validateSchemaPolicy api schema root depth budget =
     (case schema of
        None \<Rightarrow> Inr budget
      | Some s \<Rightarrow>
          (case schema_node api s root depth budget of
             Inl e \<Rightarrow> Inl e
           | Inr budget \<Rightarrow> policy_children api (childSchemas api s) (Suc depth) budget))"
| "policy_children api [] depth budget = Inr budget"
| "policy_children api (c # cs) depth budget =
     (case validateSchemaPolicy api c False depth budget of
        Inl e \<Rightarrow> Inl e
      | Inr budget \<Rightarrow> policy_children api cs depth budget)"
  by pat_completeness auto
termination
  by (relation "(\<lambda>x. case x of Inl (api, schema, root, depth, budget) \<Rightarrow> 2 + maxSchemaDepth - depth
      | Inr (api, cs, depth, budget) \<Rightarrow> 2 + maxSchemaDepth - depth) <*mlex*>
    measure (\<lambda>x. case x of Inl _ \<Rightarrow> 0 | Inr (api, cs, depth, budget) \<Rightarrow> Suc (length cs))")
    (auto simp: mlex_prod_def wf_mlex dest!: schema_node_depth)

declare validateSchemaPolicy.simps [simp del]

record 'r Schema =
  sm_raw :: string
  sm_resolved :: "'r option"

definition Compile :: "json_codec \<Rightarrow> ('s, 'r) jsonschema_api \<Rightarrow> string \<Rightarrow> (args_error, 'r Schema) result" where
  "Compile codec api document =
     rbind (decodeExactObject codec document) (\<lambda>_.
     case sa_parse api document of
       None \<Rightarrow> Inl SchemaDecode
     | Some parsed \<Rightarrow>
         if sa_Schema api parsed \<noteq> Draft2020 then Inl SchemaDialect
         else if sa_Type api parsed \<noteq> ''object'' \<or> sa_Types api parsed \<noteq> [] \<or> sa_Ref api parsed \<noteq> [] \<or>
           sa_DynamicRef api parsed \<noteq> [] then Inl SchemaRoot
         else rbind (validateSchemaPolicy api (Some parsed) True 1 \<lparr>sb_nodes = 0, sb_annotationBytes = 0\<rparr>) (\<lambda>_.
           case sa_Resolve api parsed of
             None \<Rightarrow> Inl ResolveFailed
           | Some resolved \<Rightarrow> Inr \<lparr>sm_raw = document, sm_resolved = Some resolved\<rparr>))"

definition Schema_Validate ::
  "json_codec \<Rightarrow> ('s, 'r) jsonschema_api \<Rightarrow> 'r Schema option \<Rightarrow> string \<Rightarrow> (args_error, unit) result" where
  "Schema_Validate codec api schema document =
     (case schema of
        None \<Rightarrow> Inl SchemaUnavailable
      | Some s \<Rightarrow>
          (case sm_resolved s of
             None \<Rightarrow> Inl SchemaUnavailable
           | Some resolved \<Rightarrow>
               (case decodeExactObject codec document of
                  Inl e \<Rightarrow> Inl MalformedDocument
                | Inr v \<Rightarrow> if \<not> sa_Validate api resolved v then Inl SchemaMismatch else Inr ())))"

definition Schema_JSON :: "'r Schema option \<Rightarrow> string" where
  "Schema_JSON schema = (case schema of None \<Rightarrow> [] | Some s \<Rightarrow> sm_raw s)"

end
