(* ===== verification/Remediation.thy ===== *)
theory Remediation
  imports Go_Path Brain_Rules Intent_Args Connector_Registry Tenancy
begin

text \<open>
  Resolution of remediation candidates (\<open>internal/remediation\<close>): provenance bundles, observed Git
  snapshots, desired changes and the resolver that turns one confirmed verdict and one bundle into a validated
  argument document. SHA-1 and SHA-256 are the parameters \<open>sha1\<close> and \<open>sha\<close>, Unicode case mapping is
  \<open>u\<close>; the code of a pull-request handler, of the JSON codec and of the schema library are parameters of
  \<open>Resolve\<close>. A resource reference is a value here, so the defensive copies leave it unchanged.
\<close>

subsection \<open>Text\<close>

definition maxIdentityBytes :: nat where "maxIdentityBytes = 512"
definition maxBundleContentBytes :: nat where "maxBundleContentBytes = 64 * 1024"
definition maxBundleValidity :: int where "maxBundleValidity = 300 * 1000000000"

text \<open>\<open>validateSafeText\<close> and \<open>validateMultilineText\<close> return one error or nil; here, whether it is nil.\<close>

definition text_ok :: "string \<Rightarrow> nat \<Rightarrow> bool \<Rightarrow> bool" where
  "text_ok value maximum allowEmpty \<longleftrightarrow>
     \<not> ((\<not> allowEmpty \<and> value = []) \<or> length value > maximum \<or> \<not> utf8_valid value \<or> trim_space value \<noteq> value \<or> NUL \<in> set value)"

definition safe_text :: "string \<Rightarrow> nat \<Rightarrow> bool \<Rightarrow> bool" where
  "safe_text value maximum allowEmpty \<longleftrightarrow> text_ok value maximum allowEmpty \<and> \<not> has_control value"

definition multiline_text :: "string \<Rightarrow> nat \<Rightarrow> bool \<Rightarrow> bool" where
  "multiline_text value maximum allowEmpty \<longleftrightarrow>
     text_ok value maximum allowEmpty \<and> \<not> list_ex (\<lambda>(r, w). is_control r \<and> r \<noteq> 10 \<and> r \<noteq> 9) (range_runes value)"

definition validBundleContent :: "string \<Rightarrow> bool" where
  "validBundleContent value \<longleftrightarrow> length value \<le> maxBundleContentBytes \<and> utf8_valid value \<and> NUL \<notin> set value"

definition valid_digest :: "unicode_case \<Rightarrow> string \<Rightarrow> bool" where
  "valid_digest u value \<longleftrightarrow>
     has_prefix value ''sha256:'' \<and> length value = length ''sha256:'' + 64 \<and>
     (let hexValue = trim_prefix value ''sha256:'' in hex_decode hexValue \<noteq> None \<and> hexValue = to_lower u hexValue)"

definition validObjectID :: "unicode_case \<Rightarrow> string \<Rightarrow> bool" where
  "validObjectID u value \<longleftrightarrow>
     (length value = 40 \<or> length value = 64) \<and> hex_decode value \<noteq> None \<and> value = to_lower u value"

definition validProvenanceBaseRef :: "unicode_case \<Rightarrow> string \<Rightarrow> bool" where
  "validProvenanceBaseRef u value \<longleftrightarrow>
     safe_text value maxIdentityBytes False \<and> \<not> equal_fold u value ''HEAD'' \<and> \<not> has_prefix value ''-'' \<and>
     \<not> has_prefix (to_lower u value) ''refs/'' \<and> \<not> validObjectID u value"

subsection \<open>References and identities\<close>

abbreviation gitHubSourceKind :: string where "gitHubSourceKind \<equiv> ''github''"
abbreviation openPRTargetKind :: string where "openPRTargetKind \<equiv> ''Repository''"
abbreviation GitOpsProvenanceVersion :: string where "GitOpsProvenanceVersion \<equiv> ''gitops-provenance/v1''"
abbreviation GitOpsSourceAdapterVersion :: string where "GitOpsSourceAdapterVersion \<equiv> ''github-gitops-provenance/2026-03-10''"

definition stable_ref :: "ResourceRef \<Rightarrow> bool" where
  "stable_ref ref \<longleftrightarrow>
     Attributes ref = [] \<and> safe_text (SourceKind ref) maxIdentityBytes False \<and> safe_text (RefScope ref) maxIdentityBytes False \<and>
     safe_text (RefKind ref) maxIdentityBytes False \<and> safe_text (RefNamespace ref) maxIdentityBytes True \<and>
     safe_text (RefName ref) maxIdentityBytes False"

definition sameResourceRef :: "ResourceRef \<Rightarrow> ResourceRef \<Rightarrow> bool" where
  "sameResourceRef left right \<longleftrightarrow>
     SourceKind left = SourceKind right \<and> RefScope left = RefScope right \<and> RefKind left = RefKind right \<and>
     RefNamespace left = RefNamespace right \<and> RefName left = RefName right \<and> Attributes left = [] \<and> Attributes right = []"

definition ref_parts :: "ResourceRef \<Rightarrow> string list" where
  "ref_parts r = [SourceKind r, RefScope r, RefKind r, RefNamespace r, RefName r]"

text \<open>The loop over the two arrays of parts: the first difference decides.\<close>

fun parts_less :: "string list \<Rightarrow> string list \<Rightarrow> bool" where
  "parts_less (l # ls) (r # rs) = (if l \<noteq> r then l < r else parts_less ls rs)"
| "parts_less ls rs = False"

definition resourceRefLess :: "ResourceRef \<Rightarrow> ResourceRef \<Rightarrow> bool" where
  "resourceRefLess left right = parts_less (ref_parts left) (ref_parts right)"

text \<open>\<open>sort.Slice\<close> by \<open>resourceRefLess\<close>; a slice with two references of equal parts is refused afterwards.\<close>

definition sort_refs :: "ResourceRef list \<Rightarrow> ResourceRef list" where
  "sort_refs refs = sort_key ref_parts refs"

record SourceIdentity =
  si_Kind :: string
  si_AdapterVersion :: string
  si_NativeID :: string

record HandlerContract =
  hc_Kind :: string
  hc_AdapterVersion :: string
  hc_SchemaDigest :: string

record RepositoryIdentity =
  ri_Host :: string
  ri_Owner :: string
  ri_Repository :: string

definition nativeID :: "RepositoryIdentity \<Rightarrow> string" where
  "nativeID r = ri_Host r @ ''/'' @ ri_Owner r @ ''/'' @ ri_Repository r"

definition handler_contract_ok :: "unicode_case \<Rightarrow> HandlerContract \<Rightarrow> bool" where
  "handler_contract_ok u c \<longleftrightarrow>
     safe_text (hc_Kind c) maxIdentityBytes False \<and> safe_text (hc_AdapterVersion c) maxIdentityBytes False \<and>
     valid_digest u (hc_SchemaDigest c)"

definition source_ok :: "SourceIdentity \<Rightarrow> bool" where
  "source_ok s \<longleftrightarrow>
     si_Kind s = gitHubSourceKind \<and> si_AdapterVersion s = GitOpsSourceAdapterVersion \<and>
     safe_text (si_NativeID s) maxIdentityBytes False"

definition repository_ok :: "unicode_case \<Rightarrow> RepositoryIdentity \<Rightarrow> bool" where
  "repository_ok u r \<longleftrightarrow>
     safe_text (ri_Host r) maxIdentityBytes False \<and> safe_text (ri_Owner r) maxIdentityBytes False \<and>
     safe_text (ri_Repository r) maxIdentityBytes False \<and> ri_Host r = to_lower u (ri_Host r) \<and>
     \<not> str_contains (ri_Host r) ''://'' \<and>
     \<not> contains_any (ri_Host r @ ri_Owner r @ ri_Repository r) [CHR ''/'', CHR 0x5C] \<and>
     \<not> has_suffix (to_lower u (ri_Repository r)) ''.git''"

definition targetMatchesRepository :: "ResourceRef \<Rightarrow> string \<Rightarrow> RepositoryIdentity \<Rightarrow> bool" where
  "targetMatchesRepository target sourceKind r \<longleftrightarrow>
     Attributes target = [] \<and> SourceKind target = sourceKind \<and> RefScope target = ri_Host r \<and>
     RefKind target = openPRTargetKind \<and> RefNamespace target = ri_Owner r \<and> RefName target = ri_Repository r"

subsection \<open>Provenance bundles\<close>

record GitOpsProvenanceInput =
  gi_Workspace :: WorkspaceID
  gi_Subject :: ResourceRef
  gi_Sources :: "SourceIdentity list"
  gi_ObservedAt :: Time
  gi_ValidUntil :: Time
  gi_Handler :: HandlerContract
  gi_Repository :: RepositoryIdentity
  gi_BaseRef :: string
  gi_BaseCommit :: string
  gi_FilePath :: string
  gi_ObservedBlobSHA :: string
  gi_DesiredContent :: string
  gi_Title :: string
  gi_Body :: string
  gi_CommitMessage :: string
  gi_EvidenceRefs :: "ResourceRef list"

record GitOpsProvenanceBundle =
  gp_version :: string
  gp_workspace :: WorkspaceID
  gp_subject :: ResourceRef
  gp_source :: SourceIdentity
  gp_observedAt :: Time
  gp_validUntil :: Time
  gp_handler :: HandlerContract
  gp_repository :: RepositoryIdentity
  gp_baseRef :: string
  gp_baseCommit :: string
  gp_filePath :: string
  gp_observedBlobSHA :: string
  gp_desiredContent :: string
  gp_title :: string
  gp_body :: string
  gp_commitMessage :: string
  gp_evidenceRefs :: "ResourceRef list"

datatype provenance_error = OneSourceRequired | BundleInvalid | EvidenceNotUnique

definition bundle_validate :: "unicode_case \<Rightarrow> GitOpsProvenanceBundle \<Rightarrow> bool" where
  "bundle_validate u b \<longleftrightarrow>
     gp_version b = GitOpsProvenanceVersion \<and> is_ok (ValidateWorkspaceID (gp_workspace b)) \<and>
     stable_ref (gp_subject b) \<and> gp_observedAt b \<noteq> 0 \<and> gp_validUntil b \<noteq> 0 \<and>
     gp_observedAt b < gp_validUntil b \<and> gp_validUntil b - gp_observedAt b \<le> maxBundleValidity \<and>
     source_ok (gp_source b) \<and> handler_contract_ok u (gp_handler b) \<and> si_Kind (gp_source b) = hc_Kind (gp_handler b) \<and>
     repository_ok u (gp_repository b) \<and> si_NativeID (gp_source b) = nativeID (gp_repository b) \<and>
     validProvenanceBaseRef u (gp_baseRef b) \<and> validObjectID u (gp_baseCommit b) \<and>
     safe_text (gp_filePath b) maxIdentityBytes False \<and> validObjectID u (gp_observedBlobSHA b) \<and>
     safe_text (gp_title b) maxIdentityBytes False \<and> multiline_text (gp_body b) (16 * 1024) True \<and>
     safe_text (gp_commitMessage b) maxIdentityBytes False \<and> validBundleContent (gp_desiredContent b) \<and>
     gp_evidenceRefs b \<noteq> [] \<and> list_all stable_ref (gp_evidenceRefs b)"

fun adjacent_same :: "ResourceRef list \<Rightarrow> bool" where
  "adjacent_same (a # b # rest) = (sameResourceRef a b \<or> adjacent_same (b # rest))"
| "adjacent_same _ = False"

definition bundle_of :: "GitOpsProvenanceInput \<Rightarrow> SourceIdentity \<Rightarrow> GitOpsProvenanceBundle" where
  "bundle_of input source = \<lparr>gp_version = GitOpsProvenanceVersion, gp_workspace = gi_Workspace input, gp_subject = gi_Subject input,
     gp_source = source, gp_observedAt = gi_ObservedAt input, gp_validUntil = gi_ValidUntil input, gp_handler = gi_Handler input,
     gp_repository = gi_Repository input, gp_baseRef = gi_BaseRef input, gp_baseCommit = gi_BaseCommit input,
     gp_filePath = gi_FilePath input, gp_observedBlobSHA = gi_ObservedBlobSHA input, gp_desiredContent = gi_DesiredContent input,
     gp_title = gi_Title input, gp_body = gi_Body input, gp_commitMessage = gi_CommitMessage input,
     gp_evidenceRefs = gi_EvidenceRefs input\<rparr>"

definition NewGitOpsProvenanceBundle ::
  "unicode_case \<Rightarrow> GitOpsProvenanceInput \<Rightarrow> (provenance_error, GitOpsProvenanceBundle) result" where
  "NewGitOpsProvenanceBundle u input =
     (case gi_Sources input of
        [source] \<Rightarrow>
          (let bundle = bundle_of input source in
           if \<not> bundle_validate u bundle then Inl BundleInvalid
           else let bundle = bundle\<lparr>gp_evidenceRefs := sort_refs (gp_evidenceRefs bundle)\<rparr> in
             if adjacent_same (gp_evidenceRefs bundle) then Inl EvidenceNotUnique else Inr bundle)
      | _ \<Rightarrow> Inl OneSourceRequired)"

subsection \<open>Observed Git state\<close>

abbreviation GitSourceSnapshotVersion :: string where "GitSourceSnapshotVersion \<equiv> ''git-source-snapshot/v1''"
abbreviation GitSourceSnapshotAdapterVersion :: string where
  "GitSourceSnapshotAdapterVersion \<equiv> ''github-git-source-snapshot/2026-03-10''"
definition maxGitSourceSnapshotContentBytes :: nat where "maxGitSourceSnapshotContentBytes = 64 * 1024"
definition maxGitSourceSnapshotValidity :: int where "maxGitSourceSnapshotValidity = 300 * 1000000000"
definition maxGitSourceSnapshotEvidenceRefs :: nat where "maxGitSourceSnapshotEvidenceRefs = 32"

text \<open>\<open>unicode.IsSpace\<close>.\<close>

definition is_space_rune :: "nat \<Rightarrow> bool" where
  "is_space_rune r \<longleftrightarrow>
     (9 \<le> r \<and> r \<le> 13) \<or> r \<in> {32, 133, 160, 5760, 8232, 8233, 8239, 8287, 12288} \<or> (8192 \<le> r \<and> r \<le> 8202)"

definition validGitSourceBaseRef :: "unicode_case \<Rightarrow> string \<Rightarrow> bool" where
  "validGitSourceBaseRef u value \<longleftrightarrow>
     \<not> (\<not> safe_text value maxIdentityBytes False \<or> has_prefix value ''.'' \<or> has_prefix value ''-'' \<or> has_prefix value ''/'' \<or>
        has_prefix (to_lower u value) ''refs/'' \<or> equal_fold u value ''HEAD'' \<or> value = ''@'' \<or> validObjectID u value \<or>
        has_suffix value ''.'' \<or> has_suffix value ''/'' \<or> str_contains value ''..'' \<or> str_contains value ''//'' \<or>
        str_contains value [CHR ''@'', CHR ''{''] \<or> has_suffix (to_lower u value) ''.lock'') \<and>
     \<not> list_ex (\<lambda>(r, w). is_space_rune r \<or> r \<in> {126, 94, 58, 63, 42, 91, 93, 92}) (range_runes value) \<and>
     \<not> list_ex (\<lambda>component. component = [] \<or> has_prefix component ''.'' \<or> has_suffix (to_lower u component) ''.lock'')
         (split_on CHR ''/'' value)"

definition validGitSourcePath :: "unicode_case \<Rightarrow> string \<Rightarrow> bool" where
  "validGitSourcePath u value \<longleftrightarrow>
     \<not> (\<not> safe_text value maxIdentityBytes False \<or> has_prefix value ''/'' \<or> has_suffix value ''/'' \<or>
        str_contains value [CHR 0x5C] \<or> path_clean value \<noteq> value) \<and>
     \<not> list_ex (\<lambda>component. component = [] \<or> component = ''.'' \<or> component = ''..'' \<or> equal_fold u component ''.git'')
         (split_on CHR ''/'' value)"

definition validGitSourceContent :: "string \<Rightarrow> bool" where
  "validGitSourceContent value \<longleftrightarrow>
     length value \<le> maxGitSourceSnapshotContentBytes \<and> utf8_valid value \<and> NUL \<notin> set value"

definition blob_payload :: "string \<Rightarrow> string" where
  "blob_payload content = ''blob '' @ nat_decimal (length content) @ [NUL] @ content"

definition gitSourceBlobMatchesContent ::
  "unicode_case \<Rightarrow> (string \<Rightarrow> string) \<Rightarrow> (string \<Rightarrow> string) \<Rightarrow> string \<Rightarrow> string \<Rightarrow> bool" where
  "gitSourceBlobMatchesContent u sha1 sha objectID content \<longleftrightarrow>
     validObjectID u objectID \<and>
     (if length objectID = 40 then objectID = hex_encode (sha1 (blob_payload content))
      else if length objectID = 64 then objectID = hex_encode (sha (blob_payload content))
      else False)"

record GitSourceSnapshotInput =
  sn_Workspace :: WorkspaceID
  sn_Subject :: ResourceRef
  sn_Sources :: "SourceIdentity list"
  sn_ObservedAt :: Time
  sn_ValidUntil :: Time
  sn_Repository :: RepositoryIdentity
  sn_BaseRef :: string
  sn_BaseCommit :: string
  sn_FilePath :: string
  sn_ObservedBlobSHA :: string
  sn_CurrentContent :: string
  sn_EvidenceRefs :: "ResourceRef list"

record GitSourceSnapshot =
  gs_version :: string
  gs_workspace :: WorkspaceID
  gs_subject :: ResourceRef
  gs_source :: SourceIdentity
  gs_observedAt :: Time
  gs_validUntil :: Time
  gs_repository :: RepositoryIdentity
  gs_baseRef :: string
  gs_baseCommit :: string
  gs_filePath :: string
  gs_observedBlobSHA :: string
  gs_currentContent :: string
  gs_evidenceRefs :: "ResourceRef list"

definition snapshot_source_ok :: "SourceIdentity \<Rightarrow> bool" where
  "snapshot_source_ok s \<longleftrightarrow>
     si_Kind s = gitHubSourceKind \<and> si_AdapterVersion s = GitSourceSnapshotAdapterVersion \<and>
     safe_text (si_NativeID s) maxIdentityBytes False"

definition gitSourceBlobRefMatches :: "ResourceRef \<Rightarrow> GitSourceSnapshot \<Rightarrow> bool" where
  "gitSourceBlobRefMatches ref s \<longleftrightarrow>
     SourceKind ref = si_Kind (gs_source s) \<and> RefScope ref = ri_Host (gs_repository s) \<and> RefKind ref = ''Blob'' \<and>
     RefNamespace ref = ri_Owner (gs_repository s) @ ''/'' @ ri_Repository (gs_repository s) \<and>
     RefName ref = gs_observedBlobSHA s \<and> Attributes ref = []"

text \<open>The loop over the evidence: each reference stable and above its predecessor, the two attachments collected.\<close>

fun evidence_scan ::
  "GitSourceSnapshot \<Rightarrow> ResourceRef option \<Rightarrow> bool \<Rightarrow> bool \<Rightarrow> ResourceRef list \<Rightarrow> bool" where
  "evidence_scan s prev subjectAttached blobAttached [] = (subjectAttached \<and> blobAttached)"
| "evidence_scan s prev subjectAttached blobAttached (ref # refs) =
     (if \<not> stable_ref ref \<or> (case prev of None \<Rightarrow> False | Some p \<Rightarrow> \<not> resourceRefLess p ref) then False
      else evidence_scan s (Some ref) (subjectAttached \<or> sameResourceRef ref (gs_subject s))
        (blobAttached \<or> gitSourceBlobRefMatches ref s) refs)"

definition snapshot_validate :: "unicode_case \<Rightarrow> (string \<Rightarrow> string) \<Rightarrow> (string \<Rightarrow> string) \<Rightarrow> GitSourceSnapshot \<Rightarrow> bool" where
  "snapshot_validate u sha1 sha s \<longleftrightarrow>
     gs_version s = GitSourceSnapshotVersion \<and> is_ok (ValidateWorkspaceID (gs_workspace s)) \<and>
     stable_ref (gs_subject s) \<and> snapshot_source_ok (gs_source s) \<and> repository_ok u (gs_repository s) \<and>
     si_NativeID (gs_source s) = nativeID (gs_repository s) \<and> gs_observedAt s \<noteq> 0 \<and> gs_validUntil s \<noteq> 0 \<and>
     gs_observedAt s < gs_validUntil s \<and> gs_validUntil s - gs_observedAt s \<le> maxGitSourceSnapshotValidity \<and>
     validGitSourceBaseRef u (gs_baseRef s) \<and> validObjectID u (gs_baseCommit s) \<and> validGitSourcePath u (gs_filePath s) \<and>
     validGitSourceContent (gs_currentContent s) \<and> length (gs_baseCommit s) = length (gs_observedBlobSHA s) \<and>
     gitSourceBlobMatchesContent u sha1 sha (gs_observedBlobSHA s) (gs_currentContent s) \<and>
     2 \<le> length (gs_evidenceRefs s) \<and> length (gs_evidenceRefs s) \<le> maxGitSourceSnapshotEvidenceRefs \<and>
     evidence_scan s None False False (gs_evidenceRefs s)"

datatype snapshot_build_error = SnapshotSource | SnapshotInvalid | TrustedTimeRequired

definition snapshot_of :: "GitSourceSnapshotInput \<Rightarrow> SourceIdentity \<Rightarrow> GitSourceSnapshot" where
  "snapshot_of input source = \<lparr>gs_version = GitSourceSnapshotVersion, gs_workspace = sn_Workspace input, gs_subject = sn_Subject input,
     gs_source = source, gs_observedAt = sn_ObservedAt input, gs_validUntil = sn_ValidUntil input,
     gs_repository = sn_Repository input, gs_baseRef = sn_BaseRef input, gs_baseCommit = sn_BaseCommit input,
     gs_filePath = sn_FilePath input, gs_observedBlobSHA = sn_ObservedBlobSHA input, gs_currentContent = sn_CurrentContent input,
     gs_evidenceRefs = sort_refs (sn_EvidenceRefs input)\<rparr>"

definition NewGitSourceSnapshot ::
  "unicode_case \<Rightarrow> (string \<Rightarrow> string) \<Rightarrow> (string \<Rightarrow> string) \<Rightarrow> GitSourceSnapshotInput \<Rightarrow> (snapshot_build_error, GitSourceSnapshot) result" where
  "NewGitSourceSnapshot u sha1 sha input =
     (case sn_Sources input of
        [source] \<Rightarrow>
          (let snapshot = snapshot_of input source in
           if \<not> snapshot_validate u sha1 sha snapshot then Inl SnapshotInvalid else Inr snapshot)
      | _ \<Rightarrow> Inl SnapshotSource)"

type_synonym GitSourceFreshness = string

abbreviation GitSourceFresh :: GitSourceFreshness where "GitSourceFresh \<equiv> ''fresh''"
abbreviation GitSourceFuture :: GitSourceFreshness where "GitSourceFuture \<equiv> ''future''"
abbreviation GitSourceStale :: GitSourceFreshness where "GitSourceStale \<equiv> ''stale''"

definition Snapshot_Freshness ::
  "unicode_case \<Rightarrow> (string \<Rightarrow> string) \<Rightarrow> (string \<Rightarrow> string) \<Rightarrow> GitSourceSnapshot \<Rightarrow> Time \<Rightarrow> (snapshot_build_error, GitSourceFreshness) result" where
  "Snapshot_Freshness u sha1 sha s now =
     (if \<not> snapshot_validate u sha1 sha s then Inl SnapshotInvalid
      else if now = 0 then Inl TrustedTimeRequired
      else if now < gs_observedAt s then Inr GitSourceFuture
      else if \<not> now < gs_validUntil s then Inr GitSourceStale
      else Inr GitSourceFresh)"

subsection \<open>Desired changes\<close>

abbreviation DesiredChangeVersion :: string where "DesiredChangeVersion \<equiv> ''desired-change/v1''"
definition maxDesiredChangeEvidenceRefs :: nat where "maxDesiredChangeEvidenceRefs = 32"

record DesiredChange =
  dh_version :: string
  dh_snapshot :: GitSourceSnapshot
  dh_transformerVersion :: string
  dh_desiredContent :: string
  dh_evidenceRefs :: "ResourceRef list"

definition isLowerAlphaNumeric :: "char \<Rightarrow> bool" where
  "isLowerAlphaNumeric c \<longleftrightarrow> in_range 97 122 c \<or> in_range 48 57 c"

definition transformer_part :: "string \<Rightarrow> bool" where
  "transformer_part part \<longleftrightarrow>
     \<not> (part = [] \<or> \<not> isLowerAlphaNumeric (hd part) \<or> \<not> isLowerAlphaNumeric (last part)) \<and>
     list_all (\<lambda>(r, w). (97 \<le> r \<and> r \<le> 122) \<or> (48 \<le> r \<and> r \<le> 57) \<or> r = 45 \<or> r = 95 \<or> r = 46) (range_runes part)"

definition validTransformerVersion :: "unicode_case \<Rightarrow> string \<Rightarrow> bool" where
  "validTransformerVersion u value \<longleftrightarrow>
     \<not> (\<not> safe_text value maxIdentityBytes False \<or> value \<noteq> to_lower u value) \<and>
     length (split_on CHR ''/'' value) = 2 \<and> list_all transformer_part (split_on CHR ''/'' value)"

definition change_validate :: "unicode_case \<Rightarrow> (string \<Rightarrow> string) \<Rightarrow> (string \<Rightarrow> string) \<Rightarrow> DesiredChange \<Rightarrow> bool" where
  "change_validate u sha1 sha c \<longleftrightarrow>
     dh_version c = DesiredChangeVersion \<and> snapshot_validate u sha1 sha (dh_snapshot c) \<and>
     validTransformerVersion u (dh_transformerVersion c) \<and> validGitSourceContent (dh_desiredContent c) \<and>
     dh_desiredContent c \<noteq> gs_currentContent (dh_snapshot c) \<and> 2 \<le> length (dh_evidenceRefs c) \<and>
     length (dh_evidenceRefs c) \<le> maxDesiredChangeEvidenceRefs \<and>
     evidence_scan (dh_snapshot c) None False False (dh_evidenceRefs c)"

definition newDesiredChange ::
  "unicode_case \<Rightarrow> (string \<Rightarrow> string) \<Rightarrow> (string \<Rightarrow> string) \<Rightarrow> GitSourceSnapshot \<Rightarrow> string \<Rightarrow> string \<Rightarrow> ResourceRef list \<Rightarrow>
    DesiredChange option" where
  "newDesiredChange u sha1 sha snapshot transformerVersion desiredContent evidenceRefs =
     (let change = \<lparr>dh_version = DesiredChangeVersion, dh_snapshot = snapshot, dh_transformerVersion = transformerVersion,
        dh_desiredContent = desiredContent, dh_evidenceRefs = sort_refs evidenceRefs\<rparr>
      in if \<not> change_validate u sha1 sha change then None else Some change)"

end
