(* ===== verification/Remediation_Resolve.thy ===== *)
theory Remediation_Resolve
  imports Remediation
begin

text \<open>
  The resolver (\<open>remediation/gitops.go\<close>). A handler is what it answers: the descriptor it shows at its \<open>n\<close>-th call during a
  resolution, which an upgrade in between may change, and the canonical form of an argument document.
  A context is whether it is done at its \<open>n\<close>-th inspection, a clock its successive readings.
\<close>

subsection \<open>Arguments and handlers\<close>

record fileChange =
  fc_Operation :: string
  fc_Path :: string
  fc_Content :: "string option"
  fc_ExpectedBlobSHA :: "string option"

record openPRArguments =
  oa_BaseRef :: string
  oa_ExpectedBaseSHA :: string
  oa_Title :: string
  oa_Body :: string
  oa_CommitMessage :: string
  oa_Changes :: "fileChange list"

text \<open>Everything the resolver calls that is not its own code.\<close>

record ('s, 'r) resolver_deps =
  rd_unicode :: unicode_case
  rd_sha :: "string \<Rightarrow> string"
  rd_codec :: json_codec
  rd_schemas :: "('s, 'r) jsonschema_api"
  rd_marshal :: "openPRArguments \<Rightarrow> string option"
  rd_unmarshal :: "string \<Rightarrow> openPRArguments option"

record GitOpsHandler =
  gh_Descriptor :: "nat \<Rightarrow> Descriptor"
  gh_CanonicalizeOpenPRArgs :: "string \<Rightarrow> (ResourceRef \<times> string) option"

record GitOpsResolver =
  gr_handler :: "GitOpsHandler option"
  gr_now :: "(nat \<Rightarrow> Time) option"

definition bundle_arguments :: "GitOpsProvenanceBundle \<Rightarrow> openPRArguments" where
  "bundle_arguments b = \<lparr>oa_BaseRef = gp_baseRef b, oa_ExpectedBaseSHA = gp_baseCommit b, oa_Title = gp_title b, oa_Body = gp_body b,
     oa_CommitMessage = gp_commitMessage b,
     oa_Changes = [\<lparr>fc_Operation = ''update'', fc_Path = gp_filePath b, fc_Content = Some (gp_desiredContent b),
       fc_ExpectedBlobSHA = Some (gp_observedBlobSHA b)\<rparr>]\<rparr>"

definition sha_digest :: "('s, 'r) resolver_deps \<Rightarrow> string \<Rightarrow> string" where
  "sha_digest deps document = ''sha256:'' @ hex_encode (rd_sha deps document)"

definition inspectHandler :: "('s, 'r) resolver_deps \<Rightarrow> Descriptor \<Rightarrow> (HandlerContract \<times> 'r Schema) option" where
  "inspectHandler deps d =
     (if ds_Kind d \<noteq> gitHubSourceKind \<or> ds_ConnKind d \<noteq> KindTypedAction \<or> ds_Owner d \<noteq> ''sith'' \<or>
        \<not> safe_text (ds_AdapterVersion d) maxIdentityBytes False \<or> ds_WireVersions d \<noteq> [CurrentWireVersion] \<or>
        ds_Capabilities d \<noteq> [CapPlan] \<or> ds_Verbs d \<noteq> [VerbGitOpsOpenPR] \<or> length (ds_ArgSchemas d) \<noteq> 1 then None
      else case map_of (ds_ArgSchemas d) VerbGitOpsOpenPR of
        None \<Rightarrow> None
      | Some raw \<Rightarrow>
          if raw = [] then None
          else case Compile (rd_codec deps) (rd_schemas deps) raw of
            Inl e \<Rightarrow> None
          | Inr schema \<Rightarrow>
              Some (\<lparr>hc_Kind = ds_Kind d, hc_AdapterVersion = ds_AdapterVersion d, hc_SchemaDigest = sha_digest deps raw\<rparr>, schema))"

datatype resolver_error = HandlerAndClockRequired | HandlerContractInvalid | HandlerRequired

definition NewGitOpsResolver ::
  "('s, 'r) resolver_deps \<Rightarrow> GitOpsHandler option \<Rightarrow> (nat \<Rightarrow> Time) option \<Rightarrow> (resolver_error, GitOpsResolver) result" where
  "NewGitOpsResolver deps handler now =
     (case handler of
        None \<Rightarrow> Inl HandlerAndClockRequired
      | Some h \<Rightarrow>
          if now = None then Inl HandlerAndClockRequired
          else if inspectHandler deps (gh_Descriptor h 0) = None then Inl HandlerContractInvalid
          else Inr \<lparr>gr_handler = handler, gr_now = now\<rparr>)"

definition HandlerContractFor ::
  "('s, 'r) resolver_deps \<Rightarrow> GitOpsHandler option \<Rightarrow> (resolver_error, HandlerContract) result" where
  "HandlerContractFor deps handler =
     (case handler of
        None \<Rightarrow> Inl HandlerRequired
      | Some h \<Rightarrow>
          (case inspectHandler deps (gh_Descriptor h 0) of
             None \<Rightarrow> Inl HandlerContractInvalid
           | Some (contract, schema) \<Rightarrow> Inr contract))"

subsection \<open>Resolutions\<close>

datatype AbstentionReason =
    ReasonCandidateMissing
  | ReasonCandidateInvalid
  | ReasonCandidateUnsupported
  | ReasonVerdictInvalid
  | ReasonVerdictUnconfirmed
  | ReasonFleetAmbiguous
  | ReasonProvenanceMissing
  | ReasonProvenanceAmbiguous
  | ReasonProvenanceInvalid
  | ReasonProvenanceFuture
  | ReasonProvenanceStale
  | ReasonWorkspaceMismatch
  | ReasonSubjectMismatch
  | ReasonHandlerContractDrift
  | ReasonHandlerRejected
  | ReasonHandlerTargetMismatch
  | ReasonHandlerOutputMismatch

datatype ResolutionStatus = ResolutionReady | ResolutionAbstained

record Resolution =
  rn_Status :: ResolutionStatus
  rn_Target :: ResourceRef
  rn_Arguments :: string
  rn_ArgumentsDigest :: string
  rn_EvidenceRefs :: "ResourceRef list"
  rn_Reasons :: "AbstentionReason list"

datatype resolve_error = ResolverRequired | ContextDone | WorkspaceInvalid | ClockInvalid

definition zero_resource :: ResourceRef where
  "zero_resource = \<lparr>SourceKind = [], RefScope = [], RefKind = [], RefNamespace = [], RefName = [], Attributes = []\<rparr>"

definition abstain :: "AbstentionReason \<Rightarrow> Resolution" where
  "abstain reason = \<lparr>rn_Status = ResolutionAbstained, rn_Target = zero_resource, rn_Arguments = [], rn_ArgumentsDigest = [],
     rn_EvidenceRefs = [], rn_Reasons = [reason]\<rparr>"

fun citations_scan :: "ResourceRef \<Rightarrow> bool \<Rightarrow> Citation list \<Rightarrow> bool" where
  "citations_scan ref attached [] = attached"
| "citations_scan ref attached (c # cs) =
     (if ci_Stale c \<or> \<not> stable_ref (ci_Ref c) then False
      else citations_scan ref (attached \<or> sameResourceRef (ci_Ref c) ref) cs)"

definition validBrainVerdictRef :: "Verdict \<Rightarrow> bool" where
  "validBrainVerdictRef v \<longleftrightarrow>
     stable_ref (vd_Ref v) \<and> vd_Citations v \<noteq> [] \<and> citations_scan (vd_Ref v) False (vd_Citations v)"

definition freshness :: "Time \<Rightarrow> GitOpsProvenanceBundle \<Rightarrow> (resolve_error, AbstentionReason option) result" where
  "freshness now b =
     (if now = 0 then Inl ClockInvalid
      else if now < gp_observedAt b then Inr (Some ReasonProvenanceFuture)
      else if \<not> now < gp_validUntil b then Inr (Some ReasonProvenanceStale)
      else Inr None)"

definition canonicalMatchesBundle :: "('s, 'r) resolver_deps \<Rightarrow> string \<Rightarrow> GitOpsProvenanceBundle \<Rightarrow> bool" where
  "canonicalMatchesBundle deps canonical b =
     (case rd_unmarshal deps canonical of
        None \<Rightarrow> False
      | Some decoded \<Rightarrow>
          (case oa_Changes decoded of
             [change] \<Rightarrow>
               oa_BaseRef decoded = gp_baseRef b \<and> oa_ExpectedBaseSHA decoded = gp_baseCommit b \<and>
               oa_Title decoded = gp_title b \<and> oa_Body decoded = gp_body b \<and> oa_CommitMessage decoded = gp_commitMessage b \<and>
               fc_Operation change = ''update'' \<and> fc_Path change = gp_filePath b \<and>
               fc_Content change = Some (gp_desiredContent b) \<and> fc_ExpectedBlobSHA change = Some (gp_observedBlobSHA b)
           | _ \<Rightarrow> False))"

text \<open>The checks on the verdict alone: the reason to abstain before any provenance is looked at.\<close>

definition candidate_reason :: "Verdict \<Rightarrow> GitOpsProvenanceBundle list \<Rightarrow> AbstentionReason option" where
  "candidate_reason v bundles =
     (case vd_RemediationCandidate v of
        None \<Rightarrow> Some ReasonCandidateMissing
      | Some c \<Rightarrow>
          if \<not> is_ok (RemediationCandidate_Validate c) then Some ReasonCandidateInvalid
          else if \<not> validBrainVerdictRef v then Some ReasonVerdictInvalid
          else if rm_Verb c \<noteq> VerbGitOpsOpenPR \<or> (vd_Rule v \<noteq> RuleOOMKilled \<and> vd_Rule v \<noteq> RuleConfigDrift)
            then Some ReasonCandidateUnsupported
          else if vd_FleetWide v then Some ReasonFleetAmbiguous
          else if vd_Status v \<noteq> StatusConfirmed then Some ReasonVerdictUnconfirmed
          else if bundles = [] then Some ReasonProvenanceMissing
          else if length bundles \<noteq> 1 then Some ReasonProvenanceAmbiguous
          else None)"

text \<open>From the inspection of the handler to the ready result.\<close>

definition resolve_handler ::
  "('s, 'r) resolver_deps \<Rightarrow> GitOpsHandler \<Rightarrow> (nat \<Rightarrow> Time) \<Rightarrow> (nat \<Rightarrow> bool) \<Rightarrow> GitOpsProvenanceBundle \<Rightarrow> (resolve_error, Resolution) result" where
  "resolve_handler deps h now isDone b =
     (case inspectHandler deps (gh_Descriptor h 0) of
        None \<Rightarrow> Inr (abstain ReasonHandlerContractDrift)
      | Some (contract, schema) \<Rightarrow>
          if contract \<noteq> gp_handler b \<or> si_Kind (gp_source b) \<noteq> hc_Kind contract then Inr (abstain ReasonHandlerContractDrift)
          else case rd_marshal deps (bundle_arguments b) of
            None \<Rightarrow> Inr (abstain ReasonProvenanceInvalid)
          | Some arguments \<Rightarrow>
              (case gh_CanonicalizeOpenPRArgs h arguments of
                 None \<Rightarrow> Inr (abstain ReasonHandlerRejected)
               | Some (target, canonical) \<Rightarrow>
                   if isDone 1 then Inl ContextDone
                   else if \<not> targetMatchesRepository target (hc_Kind contract) (gp_repository b)
                     then Inr (abstain ReasonHandlerTargetMismatch)
                   else if \<not> is_ok (Schema_Validate (rd_codec deps) (rd_schemas deps) (Some schema) canonical)
                     then Inr (abstain ReasonHandlerContractDrift)
                   else if \<not> canonicalMatchesBundle deps canonical b then Inr (abstain ReasonHandlerOutputMismatch)
                   else if map_option fst (inspectHandler deps (gh_Descriptor h 1)) \<noteq> Some contract
                     then Inr (abstain ReasonHandlerContractDrift)
                   else if isDone 2 then Inl ContextDone
                   else rbind (freshness (now 1) b) (\<lambda>reason.
                     case reason of
                       Some r \<Rightarrow> Inr (abstain r)
                     | None \<Rightarrow> Inr \<lparr>rn_Status = ResolutionReady, rn_Target = target, rn_Arguments = canonical,
                         rn_ArgumentsDigest = sha_digest deps canonical, rn_EvidenceRefs = gp_evidenceRefs b, rn_Reasons = []\<rparr>)))"

definition Resolve ::
  "('s, 'r) resolver_deps \<Rightarrow> GitOpsResolver option \<Rightarrow> (nat \<Rightarrow> bool) option \<Rightarrow> WorkspaceID \<Rightarrow> Verdict \<Rightarrow>
    GitOpsProvenanceBundle list \<Rightarrow> (resolve_error, Resolution) result" where
  "Resolve deps resolver ctx workspace verdict bundles =
     (case (Option.bind resolver gr_handler, Option.bind resolver gr_now, ctx) of
        (Some h, Some now, Some isDone) \<Rightarrow>
          if isDone 0 then Inl ContextDone
          else if \<not> is_ok (ValidateWorkspaceID workspace) then Inl WorkspaceInvalid
          else (case candidate_reason verdict bundles of
            Some reason \<Rightarrow> Inr (abstain reason)
          | None \<Rightarrow>
              let b = hd bundles in
              if \<not> bundle_validate (rd_unicode deps) b then Inr (abstain ReasonProvenanceInvalid)
              else rbind (freshness (now 0) b) (\<lambda>reason.
                case reason of
                  Some r \<Rightarrow> Inr (abstain r)
                | None \<Rightarrow>
                    if gp_workspace b \<noteq> workspace then Inr (abstain ReasonWorkspaceMismatch)
                    else if \<not> sameResourceRef (gp_subject b) (vd_Ref verdict) then Inr (abstain ReasonSubjectMismatch)
                    else resolve_handler deps h now isDone b))
      | _ \<Rightarrow> Inl ResolverRequired)"

end
