(* ===== verification/GitHub_Planner.thy ===== *)
theory GitHub_Planner
  imports Remediation_Resolve
begin

text \<open>
  The pull-request planner of the GitHub connector (\<open>connector/github/action_plan.go\<close>), the handler the resolver hands its arguments
  to. Its argument structure has the fields of \<open>openPRArguments\<close>, so the resolver's decoder reads both; the planner
  encodes it its own way, without absent contents, which is the parameter \<open>pn_marshal\<close>. Provider requests are only planned: a step has
  the parameters of its request, encoded by \<open>pn_step\<close>.
\<close>

subsection \<open>Policy\<close>

definition pr_maxIntentIDBytes :: nat where "pr_maxIntentIDBytes = 253"
definition maxBaseRefBytes :: nat where "maxBaseRefBytes = 128"
definition maxPRTitleBytes :: nat where "maxPRTitleBytes = 256"
definition maxPRBodyBytes :: nat where "maxPRBodyBytes = 8 * 1024"
definition maxCommitMessageBytes :: nat where "maxCommitMessageBytes = 512"
definition maxChanges :: nat where "maxChanges = 32"
definition maxChangePathBytes :: nat where "maxChangePathBytes = 512"
definition maxFileContentBytes :: nat where "maxFileContentBytes = 16 * 1024"
definition maxTotalContentBytes :: nat where "maxTotalContentBytes = 48 * 1024"
definition maxHostBytes :: nat where "maxHostBytes = 253"
definition maxOwnerBytes :: nat where "maxOwnerBytes = 100"
definition maxRepositoryBytes :: nat where "maxRepositoryBytes = 100"

abbreviation openPRProtocolVersion :: string where "openPRProtocolVersion \<equiv> ''gitops-open-pr/2026-03-10''"

definition openPRSchema :: string where
  \<open>openPRSchema = join [
     ''{'',
     ''  "$schema":"https://json-schema.org/draft/2020-12/schema",'',
     ''  "type":"object",'',
     ''  "properties":{'',
     ''    "base_ref":{"type":"string","minLength":1,"maxLength":128},'',
     ''    "expected_base_sha":{"type":"string","pattern":"^[0-9a-f]{40}([0-9a-f]{24})?$"},'',
     ''    "title":{"type":"string","minLength":1,"maxLength":256},'',
     ''    "body":{"type":"string","maxLength":8192},'',
     ''    "commit_message":{"type":"string","minLength":1,"maxLength":512},'',
     ''    "changes":{'',
     ''      "type":"array",'',
     ''      "minItems":1,'',
     ''      "maxItems":32,'',
     ''      "items":{'',
     ''        "type":"object",'',
     ''        "properties":{'',
     ''          "operation":{"type":"string","enum":["create","update","delete"]},'',
     ''          "path":{"type":"string","minLength":1,"maxLength":512},'',
     ''          "content":{"type":"string","maxLength":16384},'',
     ''          "expected_blob_sha":{"type":"string","pattern":"^[0-9a-f]{40}([0-9a-f]{24})?$"}'',
     ''        },'',
     ''        "required":["operation","path"],'',
     ''        "additionalProperties":false'',
     ''      }'',
     ''    }'',
     ''  },'',
     ''  "required":["base_ref","expected_base_sha","title","commit_message","changes"],'',
     ''  "additionalProperties":false'',
     ''}''] [CHR 0x0A]\<close>

text \<open>The text checks of the connector return one error or nil; here, whether it is nil.\<close>

definition github_text :: "string \<Rightarrow> nat \<Rightarrow> bool" where
  "github_text value maximum \<longleftrightarrow>
     \<not> (value = [] \<or> length value > maximum \<or> \<not> utf8_valid value \<or> trim_space value \<noteq> value) \<and> \<not> has_control value"

definition github_host :: "unicode_case \<Rightarrow> string \<Rightarrow> bool" where
  "github_host u value \<longleftrightarrow>
     github_text value maxHostBytes \<and> \<not> (to_lower u value \<noteq> value \<or> has_prefix value ''.'' \<or> has_suffix value ''.'') \<and>
     list_all (\<lambda>label. \<not> (label = [] \<or> length label > 63 \<or> hd label = CHR ''-'' \<or> last label = CHR ''-'') \<and>
       list_all (\<lambda>(r, w). (97 \<le> r \<and> r \<le> 122) \<or> (48 \<le> r \<and> r \<le> 57) \<or> r = 45) (range_runes label)) (split_on CHR ''.'' value)"

definition github_component :: "string \<Rightarrow> nat \<Rightarrow> bool" where
  "github_component value maximum \<longleftrightarrow>
     github_text value maximum \<and> value \<noteq> ''.'' \<and> value \<noteq> ''..'' \<and>
     list_all (\<lambda>(r, w). (97 \<le> r \<and> r \<le> 122) \<or> (65 \<le> r \<and> r \<le> 90) \<or> (48 \<le> r \<and> r \<le> 57) \<or> r = 45 \<or> r = 95 \<or> r = 46)
       (range_runes value)"

definition validCommitSHA :: "string \<Rightarrow> bool" where
  "validCommitSHA value \<longleftrightarrow>
     (length value = 40 \<or> length value = 64) \<and>
     list_all (\<lambda>(r, w). (48 \<le> r \<and> r \<le> 57) \<or> (97 \<le> r \<and> r \<le> 102)) (range_runes value)"

definition bounded_text :: "string \<Rightarrow> nat \<Rightarrow> bool \<Rightarrow> bool \<Rightarrow> bool" where
  "bounded_text value maximum allowEmpty allowMultiline \<longleftrightarrow>
     \<not> ((\<not> allowEmpty \<and> value = []) \<or> length value > maximum \<or> \<not> utf8_valid value \<or> trim_space value \<noteq> value) \<and>
     \<not> list_ex (\<lambda>(r, w). is_control r \<and> (\<not> allowMultiline \<or> (r \<noteq> 10 \<and> r \<noteq> 9))) (range_runes value)"

definition validFileContent :: "string \<Rightarrow> bool" where
  "validFileContent value \<longleftrightarrow>
     utf8_valid value \<and> NUL \<notin> set value \<and> \<not> list_ex (\<lambda>(r, w). is_control r \<and> r \<noteq> 10 \<and> r \<noteq> 9) (range_runes value)"

definition validBaseRef :: "unicode_case \<Rightarrow> string \<Rightarrow> bool" where
  "validBaseRef u value \<longleftrightarrow>
     \<not> (\<not> bounded_text value maxBaseRefBytes False False \<or> has_prefix value ''.'' \<or> has_prefix value ''-'' \<or>
        has_prefix (to_lower u value) ''refs/'' \<or> equal_fold u value ''HEAD'' \<or> validCommitSHA value \<or> has_prefix value ''/'' \<or>
        has_suffix value ''.'' \<or> has_suffix value ''/'' \<or> str_contains value ''..'' \<or> str_contains value ''//'' \<or>
        str_contains value [CHR ''@'', CHR ''{''] \<or> has_suffix (to_lower u value) ''.lock'') \<and>
     \<not> list_ex (\<lambda>(r, w). is_space_rune r \<or> r \<in> {126, 94, 58, 63, 42, 91, 93, 92}) (range_runes value) \<and>
     \<not> list_ex (\<lambda>component. component = [] \<or> has_prefix component ''.'' \<or> has_suffix (to_lower u component) ''.lock'')
         (split_on CHR ''/'' value)"

definition path_rune :: "nat \<Rightarrow> bool" where
  "path_rune r \<longleftrightarrow> (97 \<le> r \<and> r \<le> 122) \<or> (65 \<le> r \<and> r \<le> 90) \<or> (48 \<le> r \<and> r \<le> 57) \<or> r = 45 \<or> r = 95 \<or> r = 46 \<or> r = 47"

definition validChangePath :: "unicode_case \<Rightarrow> string \<Rightarrow> bool" where
  "validChangePath u value \<longleftrightarrow>
     \<not> (\<not> bounded_text value maxChangePathBytes False False \<or> has_prefix value ''/'' \<or> has_suffix value ''/'' \<or>
        str_contains value [CHR 0x5C] \<or> path_clean value \<noteq> value) \<and>
     list_all (\<lambda>(r, w). path_rune r) (range_runes value) \<and>
     (let components = split_on CHR ''/'' value in
      \<not> list_ex (\<lambda>component. component = [] \<or> component = ''.'' \<or> component = ''..'' \<or> to_lower u component = ''.git'' \<or>
          to_lower u component = ''.gitmodules'') components \<and>
      \<not> (length components > 1 \<and> to_lower u (components ! 0) = ''.github'' \<and> to_lower u (components ! 1) = ''workflows''))"

subsection \<open>The planner\<close>

record OpenPRPlannerConfig =
  op_Host :: string
  op_Owner :: string
  op_Repository :: string
  op_BaseRef :: string

record 'r OpenPRPlanner =
  pl_config :: OpenPRPlannerConfig
  pl_schema :: "'r Schema option"

record plannedChange =
  pc_Operation :: string
  pc_Path :: string
  pc_ExpectedBlobSHA :: string
  pc_ContentDigest :: string

datatype step_params =
    RefCheckParams string string
  | CommitLookupParams string
  | TreeVerifyParams string "plannedChange list"
  | TreePlanParams string "plannedChange list"
  | CommitPlanParams string string string
  | RefCreateParams string string
  | PullLookupParams string string
  | PullCreateParams string string string string

record DiffHunk =
  dh_Path :: string
  dh_Observed :: string
  dh_Desired :: string

record Diff =
  df_Ref :: ResourceRef
  df_Drifted :: bool
  df_Hunks :: "DiffHunk list"

record PlanStep =
  ps_Description :: string
  ps_API :: string
  ps_Params :: string

record ActionPlan =
  ap_IntentID :: string
  ap_Verb :: Verb
  ap_Target :: ResourceRef
  ap_Diff :: Diff
  ap_Steps :: "PlanStep list"
  ap_Reversible :: bool
  ap_Warnings :: "string list"

record planner_codec =
  pn_marshal :: "openPRArguments \<Rightarrow> string option"
  pn_step :: "step_params \<Rightarrow> string option"

datatype planner_error =
    PlannerRequired
  | PolicyInvalid
  | PlannerSchema
  | IntentWorkspace
  | IntentIdentifier
  | IntentVerb
  | IntentTarget
  | ArgsInvalid
  | ArgsDecode
  | ArgsPolicy
  | ChangePath
  | ChangePathsCollide
  | ChangeContent
  | CreatePrecondition
  | UpdatePrecondition
  | DeletePrecondition
  | ChangeOperation
  | ContentTooLarge
  | CanonicalizeFailed
  | StepEncoding

definition validateOpenPRConfig :: "unicode_case \<Rightarrow> OpenPRPlannerConfig \<Rightarrow> bool" where
  "validateOpenPRConfig u config \<longleftrightarrow>
     \<not> (\<not> github_host u (op_Host config) \<or> \<not> github_component (op_Owner config) maxOwnerBytes \<or>
        \<not> github_component (op_Repository config) maxRepositoryBytes \<or> has_suffix (to_lower u (op_Repository config)) ''.git'' \<or>
        \<not> validBaseRef u (op_BaseRef config))"

definition NewOpenPRPlanner ::
  "('s, 'r) resolver_deps \<Rightarrow> OpenPRPlannerConfig \<Rightarrow> (planner_error, 'r OpenPRPlanner) result" where
  "NewOpenPRPlanner deps config =
     (if \<not> validateOpenPRConfig (rd_unicode deps) config then Inl PolicyInvalid
      else case Compile (rd_codec deps) (rd_schemas deps) openPRSchema of
        Inl e \<Rightarrow> Inl PlannerSchema
      | Inr schema \<Rightarrow> Inr \<lparr>pl_config = config, pl_schema = Some schema\<rparr>)"

definition OpenPRPlanner_Descriptor :: Descriptor where
  "OpenPRPlanner_Descriptor = \<lparr>ds_Kind = ''github'', ds_ConnKind = KindTypedAction, ds_WireVersions = [CurrentWireVersion],
     ds_AdapterVersion = openPRProtocolVersion, ds_Owner = ''sith'', ds_Capabilities = [CapPlan], ds_Verbs = [VerbGitOpsOpenPR],
     ds_ArgSchemas = [(VerbGitOpsOpenPR, openPRSchema)]\<rparr>"

definition normalizedOpenPRTarget :: "OpenPRPlannerConfig \<Rightarrow> ResourceRef" where
  "normalizedOpenPRTarget config = \<lparr>SourceKind = ''github'', RefScope = op_Host config, RefKind = openPRTargetKind,
     RefNamespace = op_Owner config, RefName = op_Repository config, Attributes = []\<rparr>"

definition validateOpenPRIntent :: "OpenPRPlannerConfig \<Rightarrow> Intent \<Rightarrow> (planner_error, unit) result" where
  "validateOpenPRIntent config request =
     (let target = it_Target request in
      if \<not> is_ok (ValidateWorkspaceID (it_Workspace request)) then Inl IntentWorkspace
      else if \<not> bounded_text (it_ID request) pr_maxIntentIDBytes False False then Inl IntentIdentifier
      else if it_Verb request \<noteq> VerbGitOpsOpenPR then Inl IntentVerb
      else if SourceKind target \<noteq> ''github'' \<or> RefScope target \<noteq> op_Host config \<or> RefKind target \<noteq> openPRTargetKind \<or>
        RefNamespace target \<noteq> op_Owner config \<or> RefName target \<noteq> op_Repository config \<or> Attributes target \<noteq> [] then Inl IntentTarget
      else Inr ())"

fun check_operation :: "fileChange \<Rightarrow> (planner_error, unit) result" where
  "check_operation change =
     (if fc_Operation change = ''create'' then
        (if fc_Content change = None \<or> fc_ExpectedBlobSHA change \<noteq> None then Inl CreatePrecondition else Inr ())
      else if fc_Operation change = ''update'' then
        (case (fc_Content change, fc_ExpectedBlobSHA change) of
           (Some content, Some blob) \<Rightarrow> if validCommitSHA blob then Inr () else Inl UpdatePrecondition
         | _ \<Rightarrow> Inl UpdatePrecondition)
      else if fc_Operation change = ''delete'' then
        (case (fc_Content change, fc_ExpectedBlobSHA change) of
           (None, Some blob) \<Rightarrow> if validCommitSHA blob then Inr () else Inl DeletePrecondition
         | _ \<Rightarrow> Inl DeletePrecondition)
      else Inl ChangeOperation)"

definition change_content :: "fileChange \<Rightarrow> string" where
  "change_content change = (case fc_Content change of None \<Rightarrow> [] | Some content \<Rightarrow> content)"

fun validate_changes :: "unicode_case \<Rightarrow> string list \<Rightarrow> nat \<Rightarrow> fileChange list \<Rightarrow> (planner_error, unit) result" where
  "validate_changes u seen totalContent [] = Inr ()"
| "validate_changes u seen totalContent (change # changes) =
     (if \<not> validChangePath u (fc_Path change) then Inl ChangePath
      else let key = to_lower u (fc_Path change) in
        if List.member seen key then Inl ChangePathsCollide
        else let content = change_content change in
          if \<not> validFileContent content \<or> length content > maxFileContentBytes then Inl ChangeContent
          else rbind (check_operation change) (\<lambda>_.
            if totalContent + length content > maxTotalContentBytes then Inl ContentTooLarge
            else validate_changes u (key # seen) (totalContent + length content) changes))"

definition validateOpenPRArgs ::
  "unicode_case \<Rightarrow> OpenPRPlannerConfig \<Rightarrow> openPRArguments \<Rightarrow> (planner_error, unit) result" where
  "validateOpenPRArgs u config args =
     (if oa_BaseRef args \<noteq> op_BaseRef config \<or> \<not> validCommitSHA (oa_ExpectedBaseSHA args) \<or>
        \<not> bounded_text (oa_Title args) maxPRTitleBytes False False \<or> \<not> bounded_text (oa_Body args) maxPRBodyBytes True True \<or>
        \<not> bounded_text (oa_CommitMessage args) maxCommitMessageBytes False False \<or> oa_Changes args = [] \<or>
        length (oa_Changes args) > maxChanges then Inl ArgsPolicy
      else validate_changes u [] 0 (oa_Changes args))"

definition canonicalizeOpenPRArgs ::
  "('s, 'r) resolver_deps \<Rightarrow> planner_codec \<Rightarrow> 'r OpenPRPlanner option \<Rightarrow> string \<Rightarrow> (planner_error, openPRArguments \<times> string) result" where
  "canonicalizeOpenPRArgs deps codec planner arguments =
     (case planner of
        None \<Rightarrow> Inl PlannerRequired
      | Some p \<Rightarrow>
          if pl_schema p = None then Inl PlannerRequired
          else if \<not> is_ok (Schema_Validate (rd_codec deps) (rd_schemas deps) (pl_schema p) arguments) then Inl ArgsInvalid
          else case rd_unmarshal deps arguments of
            None \<Rightarrow> Inl ArgsDecode
          | Some args \<Rightarrow>
              rbind (validateOpenPRArgs (rd_unicode deps) (pl_config p) args) (\<lambda>_.
              let args = args\<lparr>oa_Changes := sort_key fc_Path (oa_Changes args)\<rparr> in
              (case pn_marshal codec args of
                 None \<Rightarrow> Inl CanonicalizeFailed
               | Some canonical \<Rightarrow> Inr (args, canonical))))"

definition CanonicalizeOpenPRArgs ::
  "('s, 'r) resolver_deps \<Rightarrow> planner_codec \<Rightarrow> 'r OpenPRPlanner option \<Rightarrow> string \<Rightarrow> (planner_error, ResourceRef \<times> string) result" where
  "CanonicalizeOpenPRArgs deps codec planner arguments =
     rbind (canonicalizeOpenPRArgs deps codec planner arguments) (\<lambda>(args, canonical).
     Inr (normalizedOpenPRTarget (pl_config (the planner)), canonical))"

definition planned_change :: "('s, 'r) resolver_deps \<Rightarrow> fileChange \<Rightarrow> plannedChange" where
  "planned_change deps change = \<lparr>pc_Operation = fc_Operation change, pc_Path = fc_Path change,
     pc_ExpectedBlobSHA = (case fc_ExpectedBlobSHA change of None \<Rightarrow> [] | Some blob \<Rightarrow> blob),
     pc_ContentDigest = (case fc_Content change of None \<Rightarrow> [] | Some content \<Rightarrow> sha_digest deps content)\<rparr>"

definition change_hunk :: "('s, 'r) resolver_deps \<Rightarrow> fileChange \<Rightarrow> DiffHunk" where
  "change_hunk deps change = \<lparr>dh_Path = fc_Path change,
     dh_Observed = (case fc_ExpectedBlobSHA change of None \<Rightarrow> ''absent'' | Some blob \<Rightarrow> ''blob:'' @ blob),
     dh_Desired = (case fc_Content change of None \<Rightarrow> ''deleted'' | Some content \<Rightarrow> sha_digest deps content)\<rparr>"

definition open_pr_calls ::
  "('s, 'r) resolver_deps \<Rightarrow> openPRArguments \<Rightarrow> plannedChange list \<Rightarrow> string \<Rightarrow> (string \<times> string \<times> step_params) list" where
  "open_pr_calls deps args changes headRef =
     [(''verify configured base ref'', ''GET /repos/{owner}/{repo}/git/ref/heads/{base}'', RefCheckParams (oa_BaseRef args) (oa_ExpectedBaseSHA args)),
      (''resolve the pinned base commit tree'', ''GET /repos/{owner}/{repo}/git/commits/{commit}'', CommitLookupParams (oa_ExpectedBaseSHA args)),
      (''verify exact path preconditions'', ''GET /repos/{owner}/{repo}/git/trees/{tree}'', TreeVerifyParams ''verified-base-tree'' changes),
      (''construct one immutable tree'', ''POST /repos/{owner}/{repo}/git/trees'', TreePlanParams ''verified-base-tree'' changes),
      (''construct one immutable commit'', ''POST /repos/{owner}/{repo}/git/commits'',
         CommitPlanParams (oa_ExpectedBaseSHA args) ''planned-tree'' (sha_digest deps (oa_CommitMessage args))),
      (''create deterministic proposal ref'', ''POST /repos/{owner}/{repo}/git/refs'', RefCreateParams headRef ''planned-commit''),
      (''reconcile an idempotent existing pull request'', ''GET /repos/{owner}/{repo}/pulls'', PullLookupParams headRef (oa_BaseRef args)),
      (''create the human-reviewed pull request'', ''POST /repos/{owner}/{repo}/pulls'',
         PullCreateParams headRef (oa_BaseRef args) (sha_digest deps (oa_Title args)) (sha_digest deps (oa_Body args)))]"

definition openPRPlanSteps ::
  "('s, 'r) resolver_deps \<Rightarrow> planner_codec \<Rightarrow> openPRArguments \<Rightarrow> plannedChange list \<Rightarrow> string \<Rightarrow> (planner_error, PlanStep list) result" where
  "openPRPlanSteps deps codec args changes headRef =
     rmap (\<lambda>(description, api, params).
       case pn_step codec params of
         None \<Rightarrow> Inl StepEncoding
       | Some encoded \<Rightarrow> Inr \<lparr>ps_Description = description, ps_API = api, ps_Params = encoded\<rparr>)
     (open_pr_calls deps args changes headRef)"

definition head_ref :: "('s, 'r) resolver_deps \<Rightarrow> OpenPRPlannerConfig \<Rightarrow> string \<Rightarrow> string \<Rightarrow> string" where
  "head_ref deps config workspace canonical =
     (let identityInput = join [workspace, op_Host config, op_Owner config, op_Repository config] [NUL] @ [NUL] in
      ''sith/intent-'' @ hex_encode (take 12 (rd_sha deps (identityInput @ canonical))))"

definition OpenPRPlanner_Plan ::
  "('s, 'r) resolver_deps \<Rightarrow> planner_codec \<Rightarrow> 'r OpenPRPlanner option \<Rightarrow> Intent \<Rightarrow> (planner_error, ActionPlan) result" where
  "OpenPRPlanner_Plan deps codec planner request =
     (case planner of
        None \<Rightarrow> Inl PlannerRequired
      | Some p \<Rightarrow>
          if pl_schema p = None then Inl PlannerRequired
          else
            rbind (validateOpenPRIntent (pl_config p) request) (\<lambda>_.
            rbind (canonicalizeOpenPRArgs deps codec planner (it_Args request)) (\<lambda>(args, canonical).
            let headRef = head_ref deps (pl_config p) (it_Workspace request) canonical;
                planned = map (planned_change deps) (oa_Changes args);
                hunks = map (change_hunk deps) (oa_Changes args);
                target = normalizedOpenPRTarget (pl_config p) in
            rbind (openPRPlanSteps deps codec args planned headRef) (\<lambda>steps.
            Inr \<lparr>ap_IntentID = it_ID request, ap_Verb = VerbGitOpsOpenPR, ap_Target = target,
              ap_Diff = \<lparr>df_Ref = target, df_Drifted = True, df_Hunks = hunks\<rparr>, ap_Steps = steps, ap_Reversible = True,
              ap_Warnings = []\<rparr>))))"

text \<open>The planner as the handler of the resolver and as a connector of the registry.\<close>

definition planner_handler :: "('s, 'r) resolver_deps \<Rightarrow> planner_codec \<Rightarrow> 'r OpenPRPlanner \<Rightarrow> GitOpsHandler" where
  "planner_handler deps codec planner = \<lparr>gh_Descriptor = (\<lambda>n. OpenPRPlanner_Descriptor),
     gh_CanonicalizeOpenPRArgs = (\<lambda>arguments. case CanonicalizeOpenPRArgs deps codec (Some planner) arguments of Inl e \<Rightarrow> None | Inr r \<Rightarrow> Some r)\<rparr>"

definition planner_connector ::
  "('s, 'r) resolver_deps \<Rightarrow> planner_codec \<Rightarrow> 'r OpenPRPlanner \<Rightarrow> (planner_error, ActionPlan) result Connector" where
  "planner_connector deps codec planner = \<lparr>cn_Kind = ''github'', cn_Capabilities = [CapPlan], cn_Descriptor = OpenPRPlanner_Descriptor,
     cn_isReader = False, cn_isDiffer = False, cn_isPlanner = True, cn_isExecutor = False, cn_isVerifier = False,
     cn_Plan = OpenPRPlanner_Plan deps codec (Some planner)\<rparr>"

end
