(* ===== verification/Remediation_Correct.thy ===== *)
theory Remediation_Correct
  imports Remediation_Resolve
begin

text \<open>
  Correctness of the resolution of remediation candidates: what a ready resolution rests on, which bundles, snapshots and
  changes can be constructed, and that a file path stays inside its repository.
\<close>

subsection \<open>References\<close>

lemma sameResourceRef_iff: "sameResourceRef a b \<longleftrightarrow> a = b \<and> Attributes a = []"
  by (cases a; cases b) (auto simp: sameResourceRef_def)

lemma parts_less_iff: "length xs = length ys \<Longrightarrow> parts_less xs ys \<longleftrightarrow> xs < ys"
  by (induction xs ys rule: parts_less.induct) auto

lemma resourceRefLess_iff: "resourceRefLess a b \<longleftrightarrow> ref_parts a < ref_parts b"
  by (simp add: resourceRefLess_def parts_less_iff ref_parts_def)

lemma ref_parts_inj: "Attributes a = [] \<Longrightarrow> Attributes b = [] \<Longrightarrow> ref_parts a = ref_parts b \<longleftrightarrow> a = b"
  by (cases a; cases b) (auto simp: ref_parts_def)

lemma stable_no_attributes: "stable_ref r \<Longrightarrow> Attributes r = []"
  by (simp add: stable_ref_def)

lemma sort_refs_simps [simp]: "set (sort_refs refs) = set refs" "length (sort_refs refs) = length refs"
    "distinct (sort_refs refs) = distinct refs"
  by (simp_all add: sort_refs_def)

lemma adjacent_same_iff:
  assumes "list_all stable_ref refs" and "sorted (map ref_parts refs)"
  shows "adjacent_same refs \<longleftrightarrow> \<not> distinct refs"
  using assms
proof (induction refs rule: adjacent_same.induct)
  case (1 a b rest)
  show ?case
  proof (cases "a = b")
    case True
    with 1 show ?thesis by (simp add: sameResourceRef_iff stable_no_attributes)
  next
    case False
    have "a \<notin> set rest"
    proof
      assume "a \<in> set rest"
      with 1(3) have "ref_parts a = ref_parts b" by (auto intro: order.antisym)
      with False 1(2) show False using ref_parts_inj stable_no_attributes by auto
    qed
    with False 1 show ?thesis by (auto simp: sameResourceRef_iff)
  qed
qed simp_all

text \<open>The scan of the evidence: stable, strictly increasing, with the subject and the blob among it.\<close>

lemma evidence_scan_iff:
  "evidence_scan s prev subj blob refs \<longleftrightarrow>
     list_all stable_ref refs \<and> sorted_wrt resourceRefLess refs \<and>
     (\<forall>p. prev = Some p \<longrightarrow> (\<forall>r \<in> set refs. resourceRefLess p r)) \<and>
     (subj \<or> (\<exists>r \<in> set refs. sameResourceRef r (gs_subject s))) \<and>
     (blob \<or> (\<exists>r \<in> set refs. gitSourceBlobRefMatches r s))"
proof (induction refs arbitrary: prev subj blob)
  case Nil
  show ?case by simp
next
  case (Cons r refs)
  have trans: "resourceRefLess a b \<Longrightarrow> resourceRefLess b c \<Longrightarrow> resourceRefLess a c" for a b c
    by (simp add: resourceRefLess_iff)
  show ?case
    unfolding evidence_scan.simps(2) Cons.IH by (cases prev) (auto intro: trans)
qed

subsection \<open>Bundles\<close>

lemma ref_parts_inj_on: "list_all stable_ref refs \<Longrightarrow> inj_on ref_parts (set refs)"
  by (rule inj_onI) (use ref_parts_inj stable_no_attributes in \<open>auto simp: list_all_iff\<close>)

lemma sorted_wrt_refs: "sorted_wrt resourceRefLess refs \<longleftrightarrow> sorted_wrt (<) (map ref_parts refs)"
proof -
  have "resourceRefLess = (\<lambda>a b. ref_parts a < ref_parts b)" by (intro ext) (rule resourceRefLess_iff)
  then show ?thesis by (simp add: sorted_wrt_map)
qed

lemma sort_refs_strict:
  assumes "list_all stable_ref refs" and "distinct refs"
  shows "sorted_wrt resourceRefLess (sort_refs refs)"
proof -
  have "sorted (map ref_parts (sort_refs refs))" by (simp add: sort_refs_def)
  moreover have "distinct (map ref_parts (sort_refs refs))"
    using assms ref_parts_inj_on by (simp add: distinct_map)
  ultimately show ?thesis by (simp add: sorted_wrt_refs strict_sorted_iff)
qed

text \<open>Strictly increasing references are determined by their set.\<close>

lemma strict_refs_unique:
  assumes "list_all stable_ref xs" and "sorted_wrt resourceRefLess xs" and "sorted_wrt resourceRefLess ys" and "set xs = set ys"
  shows "xs = ys"
proof -
  have "map ref_parts xs = map ref_parts ys"
    using assms(2-4) by (intro sorted_distinct_set_unique) (auto simp: sorted_wrt_refs strict_sorted_iff)
  moreover have "inj_on ref_parts (set xs \<union> set ys)" using ref_parts_inj_on [OF assms(1)] assms(4) by simp
  ultimately show ?thesis by (simp add: inj_on_map_eq_map)
qed

lemma strict_refs_distinct: "sorted_wrt resourceRefLess refs \<Longrightarrow> distinct refs"
  by (auto simp: sorted_wrt_refs strict_sorted_iff distinct_map)

lemma bundle_validate_sorted: "bundle_validate u (b\<lparr>gp_evidenceRefs := sort_refs (gp_evidenceRefs b)\<rparr>) \<longleftrightarrow> bundle_validate u b"
  by (auto simp: bundle_validate_def list_all_iff sort_refs_def)

text \<open>
  A provenance bundle is constructed exactly from one source and valid, unambiguous fields. Construction succeeds if and only
  if the input names exactly one source, all fields pass validation and no evidence reference is repeated; the bundle
  then is itself valid, keeps every field of the input, and lists the same evidence in the one strictly
  increasing order, so the order in which the source reported it does not show.
\<close>
theorem NewGitOpsProvenanceBundle_exact:
  "NewGitOpsProvenanceBundle u input = Inr b \<longleftrightarrow>
     (\<exists>source. gi_Sources input = [source] \<and> bundle_validate u (bundle_of input source) \<and> distinct (gi_EvidenceRefs input) \<and>
       bundle_validate u b \<and> b = (bundle_of input source)\<lparr>gp_evidenceRefs := gp_evidenceRefs b\<rparr> \<and>
       set (gp_evidenceRefs b) = set (gi_EvidenceRefs input) \<and> sorted_wrt resourceRefLess (gp_evidenceRefs b))"
proof -
  have new: "NewGitOpsProvenanceBundle u input = Inr b \<longleftrightarrow>
      (\<exists>source. gi_Sources input = [source] \<and> bundle_validate u (bundle_of input source) \<and> distinct (gi_EvidenceRefs input) \<and>
        b = (bundle_of input source)\<lparr>gp_evidenceRefs := sort_refs (gi_EvidenceRefs input)\<rparr>)"
  proof (cases "\<exists>source. gi_Sources input = [source] \<and> bundle_validate u (bundle_of input source)")
    case True
    then obtain source where source: "gi_Sources input = [source]" and valid: "bundle_validate u (bundle_of input source)" by blast
    then have "list_all stable_ref (sort_refs (gi_EvidenceRefs input))" "sorted (map ref_parts (sort_refs (gi_EvidenceRefs input)))"
      by (simp_all add: bundle_validate_def bundle_of_def list_all_iff sort_refs_def)
    from adjacent_same_iff [OF this] source valid show ?thesis
      by (auto simp: NewGitOpsProvenanceBundle_def bundle_of_def Let_def)
  next
    case False
    then show ?thesis by (auto simp: NewGitOpsProvenanceBundle_def Let_def split: list.splits)
  qed
  have "b = (bundle_of input source)\<lparr>gp_evidenceRefs := sort_refs (gi_EvidenceRefs input)\<rparr> \<longleftrightarrow>
      bundle_validate u b \<and> b = (bundle_of input source)\<lparr>gp_evidenceRefs := gp_evidenceRefs b\<rparr> \<and>
      set (gp_evidenceRefs b) = set (gi_EvidenceRefs input) \<and> sorted_wrt resourceRefLess (gp_evidenceRefs b)"
    if valid: "bundle_validate u (bundle_of input source)" and dist: "distinct (gi_EvidenceRefs input)" for source
  proof -
    have stable: "list_all stable_ref (gi_EvidenceRefs input)" using valid by (simp add: bundle_validate_def bundle_of_def)
    note strict = sort_refs_strict [OF stable dist]
    have valid': "bundle_validate u ((bundle_of input source)\<lparr>gp_evidenceRefs := sort_refs (gi_EvidenceRefs input)\<rparr>)"
      using bundle_validate_sorted [of u "bundle_of input source"] valid by (simp add: bundle_of_def)
    have "gp_evidenceRefs b = sort_refs (gi_EvidenceRefs input)"
      if "bundle_validate u b" "set (gp_evidenceRefs b) = set (gi_EvidenceRefs input)" "sorted_wrt resourceRefLess (gp_evidenceRefs b)"
      by (rule strict_refs_unique) (use that strict in \<open>simp_all add: bundle_validate_def\<close>)
    with strict valid' show ?thesis by (metis GitOpsProvenanceBundle.select_convs(17) GitOpsProvenanceBundle.update_convs(17)
        GitOpsProvenanceBundle.surjective sort_refs_simps(1))
  qed
  with new show ?thesis by blast
qed

subsection \<open>Resolution\<close>

lemma citations_scan_iff:
  "citations_scan ref attached cs \<longleftrightarrow>
     (\<forall>c \<in> set cs. \<not> ci_Stale c \<and> stable_ref (ci_Ref c)) \<and> (attached \<or> (\<exists>c \<in> set cs. sameResourceRef (ci_Ref c) ref))"
  by (induction cs arbitrary: attached) auto

lemma canonicalMatchesBundle_iff:
  "canonicalMatchesBundle deps canonical b \<longleftrightarrow> rd_unmarshal deps canonical = Some (bundle_arguments b)"
proof -
  have "(case oa_Changes d of [change] \<Rightarrow>
      oa_BaseRef d = gp_baseRef b \<and> oa_ExpectedBaseSHA d = gp_baseCommit b \<and> oa_Title d = gp_title b \<and> oa_Body d = gp_body b \<and>
      oa_CommitMessage d = gp_commitMessage b \<and> fc_Operation change = ''update'' \<and> fc_Path change = gp_filePath b \<and>
      fc_Content change = Some (gp_desiredContent b) \<and> fc_ExpectedBlobSHA change = Some (gp_observedBlobSHA b)
      | _ \<Rightarrow> False) \<longleftrightarrow> d = bundle_arguments b" for d
    by (cases d) (auto simp: bundle_arguments_def fileChange.equality split: list.splits)
  then show ?thesis by (simp add: canonicalMatchesBundle_def split: option.splits)
qed

text \<open>A time inside the validity of a bundle.\<close>

definition fresh_at :: "Time \<Rightarrow> GitOpsProvenanceBundle \<Rightarrow> bool" where
  "fresh_at now b \<longleftrightarrow> now \<noteq> 0 \<and> gp_observedAt b \<le> now \<and> now < gp_validUntil b"

lemma freshness_iff: "freshness now b = Inr None \<longleftrightarrow> fresh_at now b"
  by (auto simp: freshness_def fresh_at_def)

text \<open>A verdict that may be acted on: confirmed for one cluster by rule R2 or R4, with fresh citations of its own subject.\<close>

definition actionable :: "Verdict \<Rightarrow> bool" where
  "actionable v \<longleftrightarrow>
     vd_Rule v \<in> {RuleOOMKilled, RuleConfigDrift} \<and> vd_Status v = StatusConfirmed \<and> \<not> vd_FleetWide v \<and>
     stable_ref (vd_Ref v) \<and> (\<forall>c \<in> set (vd_Citations v). \<not> ci_Stale c \<and> stable_ref (ci_Ref c)) \<and>
     (\<exists>c \<in> set (vd_Citations v). ci_Ref c = vd_Ref v) \<and>
     (\<exists>c. vd_RemediationCandidate v = Some c \<and> rm_Verb c = VerbGitOpsOpenPR \<and> RemediationCandidate_Validate c = Inr ())"

lemma candidate_reason_iff: "candidate_reason v bundles = None \<longleftrightarrow> actionable v \<and> (\<exists>b. bundles = [b])"
proof -
  have one: "\<not> (bundles = [] \<or> length bundles \<noteq> 1) \<longleftrightarrow> (\<exists>b. bundles = [b])" by (cases bundles) auto
  have "(\<exists>c \<in> set cs. sameResourceRef (ci_Ref c) ref) \<longleftrightarrow> (\<exists>c \<in> set cs. ci_Ref c = ref)"
    if "\<forall>c \<in> set cs. stable_ref (ci_Ref c)" for cs ref
    using that stable_no_attributes by (auto simp: sameResourceRef_iff)
  then have "validBrainVerdictRef v \<longleftrightarrow> stable_ref (vd_Ref v) \<and>
      (\<forall>c \<in> set (vd_Citations v). \<not> ci_Stale c \<and> stable_ref (ci_Ref c)) \<and> (\<exists>c \<in> set (vd_Citations v). ci_Ref c = vd_Ref v)"
    by (auto simp: validBrainVerdictRef_def citations_scan_iff)
  with one show ?thesis
    by (auto simp: candidate_reason_def actionable_def is_ok_iff split: option.splits if_splits)
qed

lemma resolve_handler_ready:
  "(resolve_handler deps h now isDone b = Inr r \<and> rn_Status r = ResolutionReady) \<longleftrightarrow>
   (\<exists>schema schema' arguments target canonical.
     inspectHandler deps (gh_Descriptor h 0) = Some (gp_handler b, schema) \<and> si_Kind (gp_source b) = hc_Kind (gp_handler b) \<and>
     rd_marshal deps (bundle_arguments b) = Some arguments \<and>
     gh_CanonicalizeOpenPRArgs h arguments = Some (target, canonical) \<and> \<not> isDone 1 \<and>
     targetMatchesRepository target (hc_Kind (gp_handler b)) (gp_repository b) \<and>
     Schema_Validate (rd_codec deps) (rd_schemas deps) (Some schema) canonical = Inr () \<and>
     rd_unmarshal deps canonical = Some (bundle_arguments b) \<and>
     inspectHandler deps (gh_Descriptor h 1) = Some (gp_handler b, schema') \<and> \<not> isDone 2 \<and> fresh_at (now 1) b \<and>
     r = \<lparr>rn_Status = ResolutionReady, rn_Target = target, rn_Arguments = canonical,
       rn_ArgumentsDigest = sha_digest deps canonical, rn_EvidenceRefs = gp_evidenceRefs b, rn_Reasons = []\<rparr>)"
  unfolding resolve_handler_def canonicalMatchesBundle_iff freshness_iff [symmetric]
  by (auto simp: abstain_def is_ok_iff rbind_eq_Inr split: option.splits if_splits)

lemma Resolve_stages:
  "(Resolve deps resolver ctx workspace v bundles = Inr r \<and> rn_Status r = ResolutionReady) \<longleftrightarrow>
    (\<exists>h now isDone b. resolver = Some \<lparr>gr_handler = Some h, gr_now = Some now\<rparr> \<and> ctx = Some isDone \<and> \<not> isDone 0 \<and>
      ValidateWorkspaceID workspace = Inr () \<and> candidate_reason v bundles = None \<and> bundles = [b] \<and>
      bundle_validate (rd_unicode deps) b \<and> freshness (now 0) b = Inr None \<and> gp_workspace b = workspace \<and>
      sameResourceRef (gp_subject b) (vd_Ref v) \<and> resolve_handler deps h now isDone b = Inr r \<and> rn_Status r = ResolutionReady)"
proof (cases "\<exists>h now isDone. resolver = Some \<lparr>gr_handler = Some h, gr_now = Some now\<rparr> \<and> ctx = Some isDone")
  case True
  then obtain h now isDone where given: "resolver = Some \<lparr>gr_handler = Some h, gr_now = Some now\<rparr>" "ctx = Some isDone" by blast
  show ?thesis
  proof (cases "candidate_reason v bundles")
    case None
    then obtain b where "bundles = [b]" using candidate_reason_iff by blast
    with None given show ?thesis
      by (auto simp: Resolve_def Let_def rbind_eq_Inr abstain_def is_ok_iff split: if_splits option.splits)
  next
    case (Some reason)
    with given show ?thesis by (auto simp: Resolve_def abstain_def)
  qed
next
  case False
  have "Resolve deps resolver ctx workspace v bundles = Inl ResolverRequired"
  proof (cases resolver)
    case (Some rv)
    obtain ho no where rv: "rv = \<lparr>gr_handler = ho, gr_now = no\<rparr>" by (cases rv) simp
    with Some False show ?thesis by (cases ho; cases no; cases ctx) (simp_all add: Resolve_def)
  qed (simp add: Resolve_def)
  with False show ?thesis by auto
qed

text \<open>
  C30: a remediation is ready exactly when it is fully grounded. A resolution is ready if and only if resolver, clock and context are
  present and the context is never done; the verdict is confirmed by rule R2 or R4 for one cluster, with no stale citation and one that
  cites its own subject; exactly one bundle is given, it is valid, belongs to the caller's
  workspace and to the verdict's subject, and is fresh both before and after the handler ran; the handler shows the contract the bundle was made
  for, before and after; and the handler's canonical document targets the bundle's repository, passes the handler's
  own schema and decodes to exactly the bundle's pull request. The result is then that target, that document with its digest and the
  bundle's evidence, and nothing else.
\<close>
theorem Resolve_ready_iff:
  "(Resolve deps resolver ctx workspace v bundles = Inr r \<and> rn_Status r = ResolutionReady) \<longleftrightarrow>
   (\<exists>h now isDone b schema schema' arguments target canonical.
     resolver = Some \<lparr>gr_handler = Some h, gr_now = Some now\<rparr> \<and> ctx = Some isDone \<and> \<not> isDone 0 \<and> \<not> isDone 1 \<and> \<not> isDone 2 \<and>
     ValidateWorkspaceID workspace = Inr () \<and> actionable v \<and> bundles = [b] \<and>
     bundle_validate (rd_unicode deps) b \<and> fresh_at (now 0) b \<and> fresh_at (now 1) b \<and>
     gp_workspace b = workspace \<and> gp_subject b = vd_Ref v \<and>
     inspectHandler deps (gh_Descriptor h 0) = Some (gp_handler b, schema) \<and>
     inspectHandler deps (gh_Descriptor h 1) = Some (gp_handler b, schema') \<and>
     rd_marshal deps (bundle_arguments b) = Some arguments \<and>
     gh_CanonicalizeOpenPRArgs h arguments = Some (target, canonical) \<and>
     targetMatchesRepository target gitHubSourceKind (gp_repository b) \<and>
     Schema_Validate (rd_codec deps) (rd_schemas deps) (Some schema) canonical = Inr () \<and>
     rd_unmarshal deps canonical = Some (bundle_arguments b) \<and>
     r = \<lparr>rn_Status = ResolutionReady, rn_Target = target, rn_Arguments = canonical,
       rn_ArgumentsDigest = sha_digest deps canonical, rn_EvidenceRefs = gp_evidenceRefs b, rn_Reasons = []\<rparr>)"
proof -
  have kinds: "si_Kind (gp_source b) = gitHubSourceKind \<and> hc_Kind (gp_handler b) = gitHubSourceKind"
    if "bundle_validate (rd_unicode deps) b" for b
    using that by (auto simp: bundle_validate_def source_ok_def)
  have subject: "sameResourceRef (gp_subject b) (vd_Ref v) \<longleftrightarrow> gp_subject b = vd_Ref v" if "bundle_validate (rd_unicode deps) b" for b
    using that by (auto simp: bundle_validate_def sameResourceRef_iff stable_no_attributes)
  have self: "sameResourceRef (vd_Ref v) (vd_Ref v)" if "actionable v"
    using that by (auto simp: actionable_def sameResourceRef_iff stable_no_attributes)
  show ?thesis
    unfolding Resolve_stages candidate_reason_iff freshness_iff resolve_handler_ready using kinds subject self by auto
qed

subsection \<open>Paths\<close>

text \<open>
  The path check is the check of its components: the comparison with the cleaned path and the tests of the two ends follow.
\<close>

lemma validGitSourcePath_iff:
  "validGitSourcePath u value \<longleftrightarrow>
     safe_text value maxIdentityBytes False \<and> CHR 0x5C \<notin> set value \<and>
     (\<forall>c \<in> set (split_on CHR ''/'' value). c \<noteq> [] \<and> c \<noteq> ''.'' \<and> c \<noteq> ''..'' \<and> \<not> equal_fold u c ''.git'')"
proof -
  have "path_clean value = value" "\<not> has_prefix value ''/''" "\<not> has_suffix value ''/''"
    if "\<forall>c \<in> set (split_on CHR ''/'' value). c \<noteq> [] \<and> c \<noteq> ''.'' \<and> c \<noteq> ''..''" "value \<noteq> []"
  proof -
    show first: "\<not> has_prefix value ''/''" and "\<not> has_suffix value ''/''"
      using that split_on_slash_first split_on_slash_last by (auto simp: has_suffix_char)
    have "foldl (clean_step False) [] (split_on CHR ''/'' value) = split_on CHR ''/'' value"
      using that(1) clean_good [of "split_on CHR ''/'' value" False "[]"] by (simp add: list_all_iff)
    with first that(2) show "path_clean value = value" by (simp add: path_clean_def Let_def join_split_on)
  qed
  then show ?thesis
    by (auto simp: validGitSourcePath_def list_ex_iff str_contains_char safe_text_def text_ok_def)
qed

subsection \<open>Snapshots and changes\<close>

text \<open>The Git object name of a content, by the length of the name.\<close>

definition blob_name :: "(string \<Rightarrow> string) \<Rightarrow> (string \<Rightarrow> string) \<Rightarrow> nat \<Rightarrow> string \<Rightarrow> string" where
  "blob_name sha1 sha n content = hex_encode ((if n = 40 then sha1 else sha) (blob_payload content))"

lemma blob_payload_inj: "blob_payload a = blob_payload b \<Longrightarrow> a = b"
proof -
  assume "blob_payload a = blob_payload b"
  then have "nat_decimal (length a) @ NUL # a = nat_decimal (length b) @ NUL # b" by (simp add: blob_payload_def)
  moreover have "NUL \<notin> set (nat_decimal n)" for n
    by (rule nat_decimal_no_char) (simp add: is_digit_def in_range_def byte_of_def)
  ultimately show "a = b" by (metis split_at_sep)
qed

lemma snapshot_blob:
  "snapshot_validate u sha1 sha s \<Longrightarrow> gs_observedBlobSHA s = blob_name sha1 sha (length (gs_observedBlobSHA s)) (gs_currentContent s)"
  by (auto simp: snapshot_validate_def gitSourceBlobMatchesContent_def blob_name_def split: if_splits)

lemma snapshot_same_content:
  assumes "snapshot_validate u sha1 sha s" and "snapshot_validate u sha1 sha t" and "gs_observedBlobSHA s = gs_observedBlobSHA t"
  shows "gs_currentContent s = gs_currentContent t \<or> (\<exists>x y. x \<noteq> y \<and> (sha1 x = sha1 y \<or> sha x = sha y))"
proof -
  have "blob_name sha1 sha (length (gs_observedBlobSHA s)) (gs_currentContent s) =
      blob_name sha1 sha (length (gs_observedBlobSHA s)) (gs_currentContent t)"
    using snapshot_blob [OF assms(1)] snapshot_blob [OF assms(2)] assms(3) by simp
  then show ?thesis
    using blob_payload_inj by (auto simp: blob_name_def hex_encode_inj split: if_splits)
qed

text \<open>
  A desired change is bound to what was observed. It is constructed if and only if its snapshot is valid, the
  transformer is named, the new content is acceptable and differs from the observed one, and there are 2 to 32 distinct stable evidence references, among
  them the snapshot's subject and the observed blob of its repository. The change then holds exactly the given
  snapshot, content and evidence, its evidence in the one increasing order, the blob's name is the Git object name of the observed content, and
  the path of the file has no empty, dot, dot-dot or .git component.
\<close>
theorem newDesiredChange_exact:
  "newDesiredChange u sha1 sha s transformer content refs = Some c \<longleftrightarrow>
     snapshot_validate u sha1 sha s \<and> validTransformerVersion u transformer \<and> validGitSourceContent content \<and>
     content \<noteq> gs_currentContent s \<and> 2 \<le> length refs \<and> length refs \<le> 32 \<and> list_all stable_ref refs \<and> distinct refs \<and>
     gs_subject s \<in> set refs \<and> (\<exists>blob \<in> set refs. gitSourceBlobRefMatches blob s) \<and>
     gs_observedBlobSHA s = blob_name sha1 sha (length (gs_observedBlobSHA s)) (gs_currentContent s) \<and>
     (\<forall>part \<in> set (split_on CHR ''/'' (gs_filePath s)). part \<notin> {[], ''.'', ''..''} \<and> \<not> equal_fold u part ''.git'') \<and>
     dh_version c = DesiredChangeVersion \<and> dh_snapshot c = s \<and> dh_transformerVersion c = transformer \<and> dh_desiredContent c = content \<and>
     set (dh_evidenceRefs c) = set refs \<and> sorted_wrt resourceRefLess (dh_evidenceRefs c)"
proof -
  have path: "\<forall>part \<in> set (split_on CHR ''/'' (gs_filePath s)). part \<notin> {[], ''.'', ''..''} \<and> \<not> equal_fold u part ''.git''"
    if "snapshot_validate u sha1 sha s" using that by (auto simp: snapshot_validate_def validGitSourcePath_iff)
  have scan: "evidence_scan s None False False (sort_refs refs) \<longleftrightarrow>
      list_all stable_ref refs \<and> distinct refs \<and> gs_subject s \<in> set refs \<and> (\<exists>blob \<in> set refs. gitSourceBlobRefMatches blob s)"
    if "snapshot_validate u sha1 sha s"
  proof -
    have "sorted_wrt resourceRefLess (sort_refs refs) \<longleftrightarrow> distinct refs" if "list_all stable_ref refs"
      using sort_refs_strict [OF that] strict_refs_distinct [of "sort_refs refs"] by auto
    moreover have "(\<exists>r \<in> set refs. sameResourceRef r (gs_subject s)) \<longleftrightarrow> gs_subject s \<in> set refs"
      using that by (auto simp: snapshot_validate_def sameResourceRef_iff stable_no_attributes)
    ultimately show ?thesis by (auto simp: evidence_scan_iff list_all_iff)
  qed
  have order: "dh_evidenceRefs c = sort_refs refs \<longleftrightarrow> set (dh_evidenceRefs c) = set refs \<and> sorted_wrt resourceRefLess (dh_evidenceRefs c)"
    if "list_all stable_ref refs" "distinct refs"
    using sort_refs_strict [OF that] strict_refs_unique [of "sort_refs refs" "dh_evidenceRefs c"] that by (auto simp: list_all_iff)
  have new: "newDesiredChange u sha1 sha s transformer content refs = Some c \<longleftrightarrow>
      snapshot_validate u sha1 sha s \<and> validTransformerVersion u transformer \<and> validGitSourceContent content \<and>
      content \<noteq> gs_currentContent s \<and> 2 \<le> length refs \<and> length refs \<le> 32 \<and> evidence_scan s None False False (sort_refs refs) \<and>
      dh_version c = DesiredChangeVersion \<and> dh_snapshot c = s \<and> dh_transformerVersion c = transformer \<and> dh_desiredContent c = content \<and>
      dh_evidenceRefs c = sort_refs refs"
    by (cases c) (auto simp: newDesiredChange_def change_validate_def maxDesiredChangeEvidenceRefs_def Let_def)
  show ?thesis
  proof (cases "snapshot_validate u sha1 sha s \<and> list_all stable_ref refs \<and> distinct refs")
    case True
    note valid = conjunct1 [OF True]
    from True show ?thesis unfolding new scan [OF valid] using order path [OF valid] snapshot_blob [OF valid] by argo
  next
    case False
    then show ?thesis unfolding new using scan by argo
  qed
qed

end
