(* ===== verification/Intent_Args_Correct.thy ===== *)
theory Intent_Args_Correct
  imports Intent_Args Connector_Registry
begin

text \<open>
  Correctness of the argument schemas: which documents the strict reader accepts, what an accepted schema forbids,
  and the two together behind the connector registry, whose \<open>compile\<close> and \<open>accepts\<close> parameters are
  \<open>Compile\<close> and \<open>Schema_Validate\<close>.
\<close>

subsection \<open>Exact documents\<close>

text \<open>A value whose numbers are all 64-bit integers.\<close>

fun exact_value :: "gvalue \<Rightarrow> bool" where
  "exact_value (VNumber text) = False"
| "exact_value (VInt i) = (- (2 ^ 63) \<le> i \<and> i < 2 ^ 63)"
| "exact_value (VArr vs) = list_all exact_value vs"
| "exact_value (VObj ms) = list_all (\<lambda>(k, v). exact_value v) ms"
| "exact_value v = True"

text \<open>A decoded value whose literals all denote 64-bit integers, whatever their notation.\<close>

fun int64_numbers :: "gvalue \<Rightarrow> bool" where
  "int64_numbers (VNumber text) = (int64_literal text \<noteq> None)"
| "int64_numbers (VArr vs) = list_all int64_numbers vs"
| "int64_numbers (VObj ms) = list_all (\<lambda>(k, v). int64_numbers v) ms"
| "int64_numbers v = True"

text \<open>The decoder produces no \<open>int64\<close> of its own.\<close>

fun decoded_value :: "gvalue \<Rightarrow> bool" where
  "decoded_value (VInt i) = False"
| "decoded_value (VArr vs) = list_all decoded_value vs"
| "decoded_value (VObj ms) = list_all (\<lambda>(k, v). decoded_value v) ms"
| "decoded_value v = True"

lemma rmap_ok_iff: "is_ok (rmap f xs) \<longleftrightarrow> (\<forall>x \<in> set xs. is_ok (f x))"
  by (induction xs) (auto simp: is_ok_iff rbind_eq_Inr)

lemma rbind_ok_iff: "is_ok (rbind r (\<lambda>x. Inr (g x))) \<longleftrightarrow> is_ok r"
  by (cases r) simp_all

lemma normalize_ok_iff: "is_ok (normalizeNumbers v) \<longleftrightarrow> int64_numbers v"
proof (induction v rule: normalizeNumbers.induct)
  case (1 literal)
  show ?case by (cases "int64_literal literal") simp_all
next
  case (2 vs)
  then show ?case by (simp add: rbind_ok_iff rmap_ok_iff list_all_iff)
next
  case (3 ms)
  then show ?case by (fastforce simp: rbind_ok_iff rmap_ok_iff list_all_iff)
qed simp_all

lemma normalize_exact: "normalizeNumbers v = Inr w \<Longrightarrow> decoded_value v \<Longrightarrow> exact_value w"
proof (induction v arbitrary: w rule: normalizeNumbers.induct)
  case (1 literal)
  then show ?case by (auto simp: int64_literal_def split: option.splits if_splits)
next
  case (2 vs)
  then obtain ws where ws: "rmap normalizeNumbers vs = Inr ws" "w = VArr ws" by (auto simp: rbind_eq_Inr)
  show ?case
    unfolding ws(2) exact_value.simps list_all_iff
  proof
    fix y assume "y \<in> set ws"
    then obtain x where "x \<in> set vs" "normalizeNumbers x = Inr y" using rmap_Inr_all [OF ws(1)] by blast
    with 2 show "exact_value y" by (simp add: list_all_iff)
  qed
next
  case (3 ms)
  then obtain ns where ns: "rmap (\<lambda>m. rbind (normalizeNumbers (snd m)) (\<lambda>w. Inr (fst m, w))) ms = Inr ns" "w = VObj ns"
    by (auto simp: rbind_eq_Inr)
  show ?case
    unfolding ns(2) exact_value.simps list_all_iff
  proof
    fix y assume "y \<in> set ns"
    then obtain m where "m \<in> set ms" "normalizeNumbers (snd m) = Inr (snd y)"
      using rmap_Inr_all [OF ns(1)] by (fastforce simp: rbind_eq_Inr)
    moreover have "decoded_value (snd m)" using 3(3) \<open>m \<in> set ms\<close> by (cases m) (auto simp: list_all_iff)
    ultimately show "case y of (k, v) \<Rightarrow> exact_value v" using 3(1) [of m] by (auto split: prod.splits)
  qed
qed auto

lemma inspect_root:
  "(\<exists>ms. t # body = json_tokens (JObj ms) \<and> json_wf (JObj ms) \<and> json_ok MaxNestingDepth inspect_leaf 0 (JObj ms)) \<longleftrightarrow>
     t = obj_open \<and> inspectObject 1 body = Inr []"
  by (auto simp: inspectObject_def walk_object_iff list_all_iff MaxNestingDepth_def)

text \<open>
  An argument document or a schema is read exactly or not at all. It is accepted if and only if it is not empty, at
  most 64 KiB long and valid UTF-8, its tokens are those of one JSON object and nothing
  else, no object in it at any depth repeats a member name, it nests at most 32 levels deep, every number literal is at most 128 bytes
  long with an exponent between -1000 and 1000, and every number denotes a 64-bit integer.
\<close>
theorem decodeExactObject_accepts:
  "is_ok (decodeExactObject codec document) \<longleftrightarrow>
     document \<noteq> [] \<and> length document \<le> 65536 \<and> utf8_valid document \<and>
     (\<exists>ms. jc_tokens codec document = (json_tokens (JObj ms), True) \<and> json_wf (JObj ms) \<and>
       json_unique (JObj ms) \<and> json_depth (JObj ms) \<le> 32 \<and> (\<forall>t \<in> set (json_leaves (JObj ms)). is_ok (inspect_leaf t))) \<and>
     (\<exists>ms. jc_decode codec document = Some ms \<and> int64_numbers (VObj ms))"
proof -
  obtain ts ended where tok: "jc_tokens codec document = (ts, ended)" by fastforce
  have doc: "(\<exists>ms. jc_tokens codec document = (json_tokens (JObj ms), True) \<and> json_wf (JObj ms) \<and>
       json_unique (JObj ms) \<and> json_depth (JObj ms) \<le> 32 \<and> (\<forall>t \<in> set (json_leaves (JObj ms)). is_ok (inspect_leaf t))) \<longleftrightarrow>
      ended \<and> ts \<noteq> [] \<and> hd ts = obj_open \<and> inspectObject 1 (tl ts) = Inr []"
  proof -
    have eq: "(\<exists>ms. jc_tokens codec document = (json_tokens (JObj ms), True) \<and> json_wf (JObj ms) \<and>
       json_unique (JObj ms) \<and> json_depth (JObj ms) \<le> 32 \<and> (\<forall>t \<in> set (json_leaves (JObj ms)). is_ok (inspect_leaf t))) \<longleftrightarrow>
      ended \<and> (\<exists>ms. ts = json_tokens (JObj ms) \<and> json_wf (JObj ms) \<and> json_ok MaxNestingDepth inspect_leaf 0 (JObj ms))"
      unfolding json_ok_iff by (auto simp: tok MaxNestingDepth_def)
    show ?thesis
    proof (cases ts)
      case Nil
      then show ?thesis unfolding eq by simp
    next
      case (Cons t body)
      then show ?thesis unfolding eq Cons inspect_root by auto
    qed
  qed
  show ?thesis
    unfolding doc
    by (auto simp: decodeExactObject_def tok normalize_ok_iff MaxDocumentBytes_def simp del: normalizeNumbers.simps
        split: list.splits sum.splits option.splits)
qed

subsection \<open>Closed schemas\<close>

text \<open>The schemas inside a schema, with their level; the root is at level 1.\<close>

inductive sub_schema :: "('s, 'r) jsonschema_api \<Rightarrow> 's \<Rightarrow> nat \<Rightarrow> 's \<Rightarrow> bool" for api root where
  sub_root: "sub_schema api root 1 root"
| sub_child: "sub_schema api root n s \<Longrightarrow> Some c \<in> set (childSchemas api s) \<Longrightarrow> sub_schema api root (Suc n) c"

text \<open>
  A schema about objects says so by its type or by a keyword on the members of an object. A schema that says neither, such as the empty
  one, may still match objects.
\<close>

definition about_objects :: "('s, 'r) jsonschema_api \<Rightarrow> 's \<Rightarrow> bool" where
  "about_objects api s \<longleftrightarrow>
     ''object'' \<in> insert (sa_Type api s) (set (sa_Types api s)) \<or>
     \<not> (sa_Properties api s = [] \<and> sa_PatternProperties api s = [] \<and> sa_AdditionalProperties api s = None \<and> sa_PropertyNames api s = None \<and>
        sa_DependentSchemas api s = [] \<and> sa_DependentRequired api s = [] \<and> sa_MinProperties api s = None \<and> sa_MaxProperties api s = None)"

text \<open>
  What the policy promises of one schema: if it is about objects it is closed, references stay inside the document, and nothing is in it
  that the validator would ignore.
\<close>

definition closed_schema :: "('s, 'r) jsonschema_api \<Rightarrow> 's \<Rightarrow> bool" where
  "closed_schema api s \<longleftrightarrow>
     (about_objects api s \<longrightarrow> isFalseSchema api (sa_AdditionalProperties api s)) \<and>
     sa_ID api s = [] \<and> (sa_Ref api s = [] \<or> has_prefix (sa_Ref api s) ''#'') \<and>
     (sa_DynamicRef api s = [] \<or> has_prefix (sa_DynamicRef api s) ''#'') \<and>
     sa_Format api s = [] \<and> sa_ContentEncoding api s = [] \<and> sa_ContentMediaType api s = [] \<and> sa_ContentSchema api s = None \<and>
     sa_Extra api s = [] \<and> sa_Vocabulary api s = [] \<and> sa_Comment api s = [] \<and> sa_Default api s = [] \<and> sa_Examples api s = []"

lemma about_objects_iff: "schemaMayMatchObject api s \<longleftrightarrow> about_objects api s"
  by (auto simp: schemaMayMatchObject_def about_objects_def)

lemma schema_node_Inr:
  assumes "schema_node api s root depth budget = Inr b"
  shows "closed_schema api s" and "depth \<le> maxSchemaDepth" and "root \<or> sa_Schema api s = []"
  using assms by (auto simp: schema_node_def closed_schema_def about_objects_iff Let_def rbind_eq_Inr split: if_splits)

lemma policy_children_each:
  "policy_children api cs depth budget = Inr b \<Longrightarrow> c \<in> set cs \<Longrightarrow>
     \<exists>b1 b2. validateSchemaPolicy api c False depth b1 = Inr b2"
  by (induction cs arbitrary: budget) (auto split: sum.splits)

lemma policy_reaches:
  assumes "sub_schema api root n s" and "validateSchemaPolicy api (Some root) True 1 budget = Inr b"
  shows "\<exists>b1 b2. validateSchemaPolicy api (Some s) (n = 1) n b1 = Inr b2 \<and> 1 \<le> n"
  using assms(1)
proof induction
  case sub_root
  with assms(2) show ?case by auto
next
  case (sub_child n s c)
  then obtain b1 b2 where "validateSchemaPolicy api (Some s) (n = 1) n b1 = Inr b2" "1 \<le> n" by blast
  then obtain b3 where "policy_children api (childSchemas api s) (Suc n) b3 = Inr b2"
    by (auto simp: validateSchemaPolicy.simps split: sum.splits)
  from policy_children_each [OF this sub_child.hyps(2)] \<open>1 \<le> n\<close> show ?case by auto
qed

lemma policy_closed:
  assumes "sub_schema api root n s" and "validateSchemaPolicy api (Some root) True 1 budget = Inr b"
  shows "n \<le> maxSchemaDepth" and "closed_schema api s" and "n = 1 \<or> sa_Schema api s = []"
proof -
  obtain b1 b2 where "validateSchemaPolicy api (Some s) (n = 1) n b1 = Inr b2" using policy_reaches [OF assms] by blast
  then obtain b3 where "schema_node api s (n = 1) n b1 = Inr b3"
    by (auto simp: validateSchemaPolicy.simps split: sum.splits)
  from schema_node_Inr [OF this] show "n \<le> maxSchemaDepth" "closed_schema api s" "n = 1 \<or> sa_Schema api s = []" by auto
qed

lemma Compile_Inr:
  assumes "Compile codec api document = Inr schema"
  obtains root resolved where "sa_parse api document = Some root" "sa_Resolve api root = Some resolved"
    "schema = \<lparr>sm_raw = document, sm_resolved = Some resolved\<rparr>" "sa_Schema api root = Draft2020" "sa_Type api root = ''object''"
    "\<forall>n s. sub_schema api root n s \<longrightarrow> n \<le> maxSchemaDepth \<and> closed_schema api s \<and> (n = 1 \<or> sa_Schema api s = [])"
proof -
  obtain root resolved b where "sa_parse api document = Some root" "sa_Resolve api root = Some resolved"
    "schema = \<lparr>sm_raw = document, sm_resolved = Some resolved\<rparr>" "sa_Schema api root = Draft2020" "sa_Type api root = ''object''"
    and policy: "validateSchemaPolicy api (Some root) True 1 \<lparr>sb_nodes = 0, sb_annotationBytes = 0\<rparr> = Inr b"
    using assms by (auto simp: Compile_def rbind_eq_Inr split: option.splits if_splits)
  with that policy_closed [OF _ policy] show ?thesis by blast
qed

subsection \<open>Behind the registry\<close>

definition compile_schema :: "json_codec \<Rightarrow> ('s, 'r) jsonschema_api \<Rightarrow> string \<Rightarrow> 'r Schema option" where
  "compile_schema codec api document = (case Compile codec api document of Inl _ \<Rightarrow> None | Inr schema \<Rightarrow> Some schema)"

definition accepts_args :: "json_codec \<Rightarrow> ('s, 'r) jsonschema_api \<Rightarrow> 'r Schema \<Rightarrow> string \<Rightarrow> bool" where
  "accepts_args codec api schema args = is_ok (Schema_Validate codec api (Some schema) args)"

text \<open>
  C31: a plan is made only from arguments that a compiled schema accepted. In every registry that registrations reach, a plan for
  a request comes from a connector whose own schema document for the verb was compiled: the document's root is a direct
  Draft 2020-12 object schema, and every schema inside it, at most 16 levels deep, refers only into its own document, has no keyword the
  validator would ignore, and forbids additional members if it has the type object or any keyword on the members of objects; a schema with
  neither, such as the empty one, is let through as it is. The request's arguments were read exactly, their numbers are 64-bit integers, and the resolved schema validated
  that very value. The decoder is assumed not to produce integers of its own.
\<close>
theorem planned_arguments_governed:
  assumes "reach (\<lambda>rg. rg = NewRegistry) (registry_step (compile_schema codec api)) rg"
    and "Registry_Plan (accepts_args codec api) rg request = Inr p"
    and "\<forall>doc ms. jc_decode codec doc = Some ms \<longrightarrow> decoded_value (VObj ms)"
  shows "\<exists>e doc root resolved v. map_of (rg_entries rg) (cn_Kind (re_connector e)) = Some e \<and>
    p = cn_Plan (re_connector e) request \<and> (it_Verb request, doc) \<in> set (ds_ArgSchemas (cn_Descriptor (re_connector e))) \<and>
    sa_parse api doc = Some root \<and> sa_Schema api root = Draft2020 \<and> sa_Type api root = ''object'' \<and>
    (\<forall>n s. sub_schema api root n s \<longrightarrow> n \<le> 16 \<and> closed_schema api s \<and> (n = 1 \<or> sa_Schema api s = [])) \<and>
    sa_Resolve api root = Some resolved \<and> decodeExactObject codec (it_Args request) = Inr v \<and> exact_value v \<and>
    sa_Validate api resolved v"
proof -
  have ok: "reg_ok (compile_schema codec api) rg" by (rule reg.reach_inv [OF assms(1)])
  obtain e where e: "entryForVerb rg (it_Verb request) CapPlan = Inr e" "p = cn_Plan (re_connector e) request"
    and args: "ValidateArgsForVerb (accepts_args codec api) rg (it_Verb request) (it_Args request) = Inr ()"
    using assms(2)
    by (auto simp: Registry_Plan_def PlannerForVerb_def rbind_eq_Inr as_interface_def split: if_splits)
  note own = entryForVerb_Inr [OF ok e(1)]
  obtain schema where s: "map_of (re_schemas e) (it_Verb request) = Some schema" "accepts_args codec api schema (it_Args request)"
    using args own(2,3) by (auto simp: ValidateArgsForVerb_def split: if_splits option.splits)
  obtain doc where doc: "(it_Verb request, doc) \<in> set (ds_ArgSchemas (cn_Descriptor (re_connector e)))"
    "Compile codec api doc = Inr schema"
    using validateConnector_schema [OF own(8) s(1)] by (fastforce simp: compile_schema_def split: sum.splits)
  from Compile_Inr [OF doc(2)] obtain root resolved where r: "sa_parse api doc = Some root" "sa_Resolve api root = Some resolved"
    "schema = \<lparr>sm_raw = doc, sm_resolved = Some resolved\<rparr>" "sa_Schema api root = Draft2020" "sa_Type api root = ''object''"
    "\<forall>n s. sub_schema api root n s \<longrightarrow> n \<le> maxSchemaDepth \<and> closed_schema api s \<and> (n = 1 \<or> sa_Schema api s = [])" by blast
  obtain v where v: "decodeExactObject codec (it_Args request) = Inr v" "sa_Validate api resolved v"
    using s(2) by (auto simp: accepts_args_def Schema_Validate_def r(3) split: sum.splits if_splits)
  from v(1) obtain ms where ms: "jc_decode codec (it_Args request) = Some ms" "normalizeNumbers (VObj ms) = Inr v"
    by (auto simp: decodeExactObject_def simp del: normalizeNumbers.simps split: prod.splits if_splits list.splits sum.splits option.splits)
  have "exact_value v" by (rule normalize_exact [OF ms(2)]) (use assms(3) ms(1) in blast)
  with own(3) e(2) doc(1) r v show ?thesis unfolding maxSchemaDepth_def by blast
qed

subsection \<open>Witness\<close>

text \<open>A library with three schemas: a closed object schema, the schema \<open>false\<close> and the empty schema inside it.\<close>

definition sample_schema_document :: string where
  "sample_schema_document = ''{\"$schema\":\"https://json-schema.org/draft/2020-12/schema\",\"type\":\"object\",\"additionalProperties\":false}''"

definition sample_arguments :: string where
  "sample_arguments = ''{\"revision\":7e0}''"

definition sample_schema_api :: "(nat, nat) jsonschema_api" where
  "sample_schema_api = \<lparr>sa_parse = (\<lambda>d. if d = sample_schema_document then Some 0 else None), sa_Resolve = Some,
     sa_Validate = (\<lambda>r v. r = 0), sa_Equal = (=), sa_notAnything = 1, sa_ID = (\<lambda>s. []), sa_Schema = (\<lambda>s. if s = 0 then Draft2020 else []),
     sa_Ref = (\<lambda>s. []), sa_DynamicRef = (\<lambda>s. []), sa_Type = (\<lambda>s. if s = 0 then ''object'' else []), sa_Types = (\<lambda>s. []),
     sa_Format = (\<lambda>s. []), sa_ContentEncoding = (\<lambda>s. []), sa_ContentMediaType = (\<lambda>s. []), sa_ContentSchema = (\<lambda>s. None),
     sa_Extra = (\<lambda>s. []), sa_Vocabulary = (\<lambda>s. []), sa_Comment = (\<lambda>s. []), sa_Default = (\<lambda>s. []), sa_Examples = (\<lambda>s. []),
     sa_Title = (\<lambda>s. []), sa_Description = (\<lambda>s. []), sa_Defs = (\<lambda>s. []), sa_Definitions = (\<lambda>s. []), sa_DependencySchemas = (\<lambda>s. []),
     sa_Properties = (\<lambda>s. if s = 0 then [(''revision'', Some 2)] else []), sa_PatternProperties = (\<lambda>s. []), sa_DependentSchemas = (\<lambda>s. []),
     sa_DependentRequired = (\<lambda>s. []), sa_MinProperties = (\<lambda>s. None), sa_MaxProperties = (\<lambda>s. None), sa_PrefixItems = (\<lambda>s. []),
     sa_Items = (\<lambda>s. None), sa_ItemsArray = (\<lambda>s. []), sa_AdditionalItems = (\<lambda>s. None), sa_Contains = (\<lambda>s. None),
     sa_UnevaluatedItems = (\<lambda>s. None), sa_AdditionalProperties = (\<lambda>s. if s = 0 then Some 1 else None), sa_PropertyNames = (\<lambda>s. None),
     sa_UnevaluatedProperties = (\<lambda>s. None), sa_AllOf = (\<lambda>s. []), sa_AnyOf = (\<lambda>s. []), sa_OneOf = (\<lambda>s. []),
     sa_Not = (\<lambda>s. if s = 1 then Some 2 else None), sa_If = (\<lambda>s. None), sa_Then = (\<lambda>s. None), sa_Else = (\<lambda>s. None)\<rparr>"

definition sample_codec :: json_codec where
  "sample_codec = \<lparr>
     jc_tokens = (\<lambda>d. if d = sample_schema_document then ([obj_open, JString ''$schema'', JString Draft2020, JString ''type'', JString ''object'',
         JString ''additionalProperties'', JScalar ''false'', obj_close], True)
       else if d = sample_arguments then ([obj_open, JString ''revision'', JScalar ''7e0'', obj_close], True) else ([], False)),
     jc_decode = (\<lambda>d. if d = sample_schema_document then Some [(''$schema'', VString Draft2020), (''type'', VString ''object''), (''additionalProperties'', VBool False)]
       else if d = sample_arguments then Some [(''revision'', VNumber ''7e0'')] else None)\<rparr>"

definition sample_governed_connector :: "string Connector" where
  "sample_governed_connector = sample_connector\<lparr>cn_Descriptor := sample_descriptor\<lparr>ds_ArgSchemas :=
     [(VerbArgoCDSync, sample_schema_document), (VerbArgoCDRollback, sample_schema_document)]\<rparr>\<rparr>"

definition sample_governed_registry :: "(string, nat Schema) Registry" where
  "sample_governed_registry =
     snd (Register (compile_schema sample_codec sample_schema_api) (Some (Inr (Some sample_governed_connector))) NewRegistry)"

definition sample_governed_intent :: Intent where
  "sample_governed_intent = sample_intent\<lparr>it_Args := sample_arguments\<rparr>"

theorem planned_arguments_governed_witness:
  "Registry_Plan (accepts_args sample_codec sample_schema_api) sample_governed_registry sample_governed_intent = Inr ''i-1'' \<and>
   (\<exists>v. decodeExactObject sample_codec sample_arguments = Inr v \<and> exact_value v)"
proof -
  have reached: "reach (\<lambda>rg. rg = NewRegistry) (registry_step (compile_schema sample_codec sample_schema_api)) sample_governed_registry"
    unfolding sample_governed_registry_def by (rule reach_step [OF reach_init]) (simp_all add: registry_step_def)
  have run: "Registry_Plan (accepts_args sample_codec sample_schema_api) sample_governed_registry sample_governed_intent = Inr ''i-1''"
    by code_simp
  have decoded: "\<forall>doc ms. jc_decode sample_codec doc = Some ms \<longrightarrow> decoded_value (VObj ms)"
    by (auto simp: sample_codec_def split: if_splits)
  from planned_arguments_governed [OF reached run decoded] run show ?thesis
    by (auto simp: sample_governed_intent_def)
qed

text \<open>The empty schema inside the sample document passes the policy although it matches every object.\<close>

lemma empty_schema_open:
  "is_ok (Compile sample_codec sample_schema_api sample_schema_document) \<and> sub_schema sample_schema_api 0 2 2 \<and>
   sa_AdditionalProperties sample_schema_api 2 = None"
proof (intro conjI)
  show "is_ok (Compile sample_codec sample_schema_api sample_schema_document)" by code_simp
  have "List.member (childSchemas sample_schema_api 0) (Some 2)" by code_simp
  then have "Some 2 \<in> set (childSchemas sample_schema_api 0)" by simp
  from sub_child [OF sub_root this] show "sub_schema sample_schema_api 0 2 2" by (simp add: numeral_2_eq_2)
qed (simp add: sample_schema_api_def)

theorem decodeExactObject_accepts_witness:
  "\<exists>ms. jc_tokens sample_codec sample_arguments = (json_tokens (JObj ms), True) \<and> json_unique (JObj ms) \<and> json_depth (JObj ms) \<le> 32"
proof -
  have "is_ok (decodeExactObject sample_codec sample_arguments)" by code_simp
  with decodeExactObject_accepts [of sample_codec sample_arguments] show ?thesis by blast
qed

text \<open>An object schema that leaves additional members open, and a fraction, are refused.\<close>

lemma open_schema_refused:
  "Compile sample_codec (sample_schema_api\<lparr>sa_AdditionalProperties := \<lambda>s. None\<rparr>) sample_schema_document = Inl OpenObjectSchema"
  by code_simp

lemma fraction_refused: "int64_literal ''7.5'' = None" "int64_literal ''-75e-1'' = None" "int64_literal ''-7.50e1'' = Some (- 75)"
  by code_simp+

end
