(* ===== verification/Remediation_Samples.thy ===== *)
theory Remediation_Samples
  imports Remediation_Correct Intent_Args_Correct Policy_PEP
begin

text \<open>
  A worked remediation: a handler with a closed schema, an observed file, a bundle and a confirmed verdict, for which the resolver
  is ready, and the inputs one field away for which it abstains.
\<close>

definition sample_deps :: "openPRArguments \<Rightarrow> (nat, nat) resolver_deps" where
  "sample_deps decoded = \<lparr>rd_unicode = ascii_case, rd_sha = sample_sha, rd_codec = sample_codec, rd_schemas = sample_schema_api,
     rd_marshal = (\<lambda>a. Some sample_arguments),
     rd_unmarshal = (\<lambda>d. if d = sample_arguments then Some decoded else None)\<rparr>"

definition sample_handler_descriptor :: Descriptor where
  "sample_handler_descriptor = \<lparr>ds_Kind = ''github'', ds_ConnKind = KindTypedAction, ds_WireVersions = [CurrentWireVersion],
     ds_AdapterVersion = ''v1'', ds_Owner = ''sith'', ds_Capabilities = [CapPlan], ds_Verbs = [VerbGitOpsOpenPR],
     ds_ArgSchemas = [(VerbGitOpsOpenPR, sample_schema_document)]\<rparr>"

definition sample_repository :: RepositoryIdentity where
  "sample_repository = \<lparr>ri_Host = ''github.com'', ri_Owner = ''acme'', ri_Repository = ''deploy''\<rparr>"

definition sample_workload :: ResourceRef where
  "sample_workload = \<lparr>SourceKind = ''ocm-spoke'', RefScope = ''west'', RefKind = ''Pod'', RefNamespace = ''shop'', RefName = ''api'', Attributes = []\<rparr>"

definition sample_pr_target :: ResourceRef where
  "sample_pr_target = \<lparr>SourceKind = ''github'', RefScope = ''github.com'', RefKind = ''Repository'', RefNamespace = ''acme'', RefName = ''deploy'', Attributes = []\<rparr>"

definition sample_provenance :: GitOpsProvenanceInput where
  "sample_provenance = \<lparr>gi_Workspace = ''payments'', gi_Subject = sample_workload,
     gi_Sources = [\<lparr>si_Kind = ''github'', si_AdapterVersion = GitOpsSourceAdapterVersion, si_NativeID = ''github.com/acme/deploy''\<rparr>],
     gi_ObservedAt = 1000, gi_ValidUntil = 2000,
     gi_Handler = \<lparr>hc_Kind = ''github'', hc_AdapterVersion = ''v1'',
       hc_SchemaDigest = ''sha256:'' @ hex_encode (sample_sha sample_schema_document)\<rparr>,
     gi_Repository = sample_repository, gi_BaseRef = ''main'', gi_BaseCommit = replicate 40 CHR ''a'', gi_FilePath = ''apps/api.yaml'',
     gi_ObservedBlobSHA = replicate 40 CHR ''b'', gi_DesiredContent = ''memory: 2Gi'', gi_Title = ''Raise memory'', gi_Body = [],
     gi_CommitMessage = ''Raise memory'', gi_EvidenceRefs = [sample_workload, sample_pr_target]\<rparr>"

definition sample_bundle :: GitOpsProvenanceBundle where
  "sample_bundle = (case NewGitOpsProvenanceBundle ascii_case sample_provenance of Inr b \<Rightarrow> b | Inl e \<Rightarrow> bundle_of sample_provenance (hd (gi_Sources sample_provenance)))"

definition sample_handler :: GitOpsHandler where
  "sample_handler = \<lparr>gh_Descriptor = (\<lambda>n. sample_handler_descriptor),
     gh_CanonicalizeOpenPRArgs = (\<lambda>d. Some (sample_pr_target, d))\<rparr>"

definition sample_resolver :: GitOpsResolver where
  "sample_resolver = \<lparr>gr_handler = Some sample_handler, gr_now = Some (\<lambda>n. 1500 + int n)\<rparr>"

definition sample_verdict :: "Brain_Rules.Verdict" where
  "sample_verdict = \<lparr>vd_Rule = RuleOOMKilled, vd_FailureMode = ''oom'', vd_Status = StatusConfirmed, vd_Hypothesis = ''h'', vd_Scope = ''west'',
     vd_Ref = sample_workload, vd_Score = 10, vd_FleetWide = False, vd_Clusters = [''west''], vd_CauseOf = [], vd_MissingLenses = [],
     vd_Citations = [\<lparr>ci_Ref = sample_workload, ci_Lens = LensLive, ci_Predicate = ''p'', ci_Observed = ''o'', ci_Weight = 5, ci_ObservedAt = 900,
       ci_Source = ''west'', ci_Stale = False\<rparr>],
     vd_Advisory = \<lparr>ad_Command = [], ad_PRDiff = [], ad_Sensitive = False\<rparr>,
     vd_RemediationCandidate = remediationCandidateFor VerbGitOpsOpenPR\<rparr>"

lemma sample_bundle_built: "is_ok (NewGitOpsProvenanceBundle ascii_case sample_provenance)"
  by code_simp

definition resolution_status :: "(resolve_error, Resolution) result \<Rightarrow> ResolutionStatus \<times> AbstentionReason list" where
  "resolution_status r = (case r of Inr n \<Rightarrow> (rn_Status n, rn_Reasons n) | Inl e \<Rightarrow> (ResolutionAbstained, []))"

lemma sample_resolution_ready:
  "resolution_status (Resolve (sample_deps (bundle_arguments sample_bundle)) (Some sample_resolver) (Some (\<lambda>n. False)) ''payments'' sample_verdict [sample_bundle]) =
     (ResolutionReady, [])"
  by code_simp

lemma sample_resolution_abstains:
  "resolution_status (Resolve (sample_deps (bundle_arguments sample_bundle)) (Some sample_resolver) (Some (\<lambda>n. False)) ''billing'' sample_verdict [sample_bundle]) =
     (ResolutionAbstained, [ReasonWorkspaceMismatch])"
  "resolution_status (Resolve (sample_deps (bundle_arguments sample_bundle)) (Some (sample_resolver\<lparr>gr_now := Some (\<lambda>n. 1999 + int n)\<rparr>)) (Some (\<lambda>n. False))
     ''payments'' sample_verdict [sample_bundle]) = (ResolutionAbstained, [ReasonProvenanceStale])"
  by code_simp+

subsection \<open>A change\<close>

definition sample_sha1 :: "string \<Rightarrow> string" where
  "sample_sha1 s = take 20 (rev s @ replicate 20 CHR ''0'')"

definition sample_blob :: string where
  "sample_blob = blob_name sample_sha1 sample_sha 40 ''memory: 1Gi''"

definition sample_blob_ref :: ResourceRef where
  "sample_blob_ref = \<lparr>SourceKind = ''github'', RefScope = ''github.com'', RefKind = ''Blob'', RefNamespace = ''acme/deploy'', RefName = sample_blob, Attributes = []\<rparr>"

definition sample_git_snapshot :: GitSourceSnapshot where
  "sample_git_snapshot = snapshot_of \<lparr>sn_Workspace = ''payments'', sn_Subject = sample_workload, sn_Sources = [], sn_ObservedAt = 1000, sn_ValidUntil = 2000,
     sn_Repository = sample_repository, sn_BaseRef = ''release/v1'', sn_BaseCommit = replicate 40 CHR ''a'', sn_FilePath = ''apps/api.yaml'',
     sn_ObservedBlobSHA = sample_blob, sn_CurrentContent = ''memory: 1Gi'', sn_EvidenceRefs = [sample_workload, sample_blob_ref]\<rparr>
     \<lparr>si_Kind = ''github'', si_AdapterVersion = GitSourceSnapshotAdapterVersion, si_NativeID = ''github.com/acme/deploy''\<rparr>"

theorem newDesiredChange_exact_witness:
  "\<exists>c. newDesiredChange ascii_case sample_sha1 sample_sha sample_git_snapshot ''memory-limit/v1'' ''memory: 2Gi'' [sample_workload, sample_blob_ref] = Some c \<and>
     set (dh_evidenceRefs c) = {sample_workload, sample_blob_ref} \<and> dh_snapshot c = sample_git_snapshot"
proof -
  have "newDesiredChange ascii_case sample_sha1 sample_sha sample_git_snapshot ''memory-limit/v1'' ''memory: 2Gi'' [sample_workload, sample_blob_ref] \<noteq> None"
    by code_simp
  then obtain c where c: "newDesiredChange ascii_case sample_sha1 sample_sha sample_git_snapshot ''memory-limit/v1'' ''memory: 2Gi'' [sample_workload, sample_blob_ref] = Some c"
    by blast
  with newDesiredChange_exact [of ascii_case sample_sha1 sample_sha sample_git_snapshot "''memory-limit/v1''" "''memory: 2Gi''" "[sample_workload, sample_blob_ref]" c]
  show ?thesis by auto
qed

end
