(* ===== verification/GitHub_Planner_Correct.thy ===== *)
theory GitHub_Planner_Correct
  imports GitHub_Planner Remediation_Samples
begin

text \<open>
  What a pull-request plan can touch, that a plan does not depend on how its changes are ordered, and that a ready resolution is always
  accepted by the planner it was resolved against.
\<close>

subsection \<open>Changes\<close>

definition change_ok :: "unicode_case \<Rightarrow> fileChange \<Rightarrow> bool" where
  "change_ok u change \<longleftrightarrow>
     validChangePath u (fc_Path change) \<and> validFileContent (change_content change) \<and>
     length (change_content change) \<le> maxFileContentBytes \<and> check_operation change = Inr ()"

definition changes_ok :: "unicode_case \<Rightarrow> fileChange list \<Rightarrow> bool" where
  "changes_ok u changes \<longleftrightarrow>
     (\<forall>change \<in> set changes. change_ok u change) \<and> distinct (map (\<lambda>change. to_lower u (fc_Path change)) changes) \<and>
     sum_list (map (\<lambda>change. length (change_content change)) changes) \<le> maxTotalContentBytes"

lemma validate_changes_iff:
  assumes "used \<le> maxTotalContentBytes"
  shows "validate_changes u seen used changes = Inr () \<longleftrightarrow>
    (\<forall>change \<in> set changes. change_ok u change) \<and> distinct (map (\<lambda>change. to_lower u (fc_Path change)) changes) \<and>
    set seen \<inter> (\<lambda>change. to_lower u (fc_Path change)) ` set changes = {} \<and>
    used + sum_list (map (\<lambda>change. length (change_content change)) changes) \<le> maxTotalContentBytes"
  using assms
proof (induction changes arbitrary: seen used)
  case Nil
  then show ?case by simp
next
  case (Cons change changes)
  let ?used = "used + length (change_content change)"
  show ?case
  proof (cases "change_ok u change \<and> to_lower u (fc_Path change) \<notin> set seen \<and> ?used \<le> maxTotalContentBytes")
    case True
    then have "validate_changes u seen used (change # changes) = validate_changes u (to_lower u (fc_Path change) # seen) ?used changes"
      by (simp add: change_ok_def Let_def del: check_operation.simps)
    then show ?thesis using True Cons.IH [of ?used "to_lower u (fc_Path change) # seen"] by (auto simp: add.assoc)
  next
    case False
    then have "validate_changes u seen used (change # changes) \<noteq> Inr ()"
      by (auto simp: change_ok_def Let_def rbind_eq_Inr not_le simp del: check_operation.simps split: if_splits)
    with False show ?thesis by auto
  qed
qed

definition args_ok :: "unicode_case \<Rightarrow> OpenPRPlannerConfig \<Rightarrow> openPRArguments \<Rightarrow> bool" where
  "args_ok u config args \<longleftrightarrow>
     oa_BaseRef args = op_BaseRef config \<and> validCommitSHA (oa_ExpectedBaseSHA args) \<and>
     bounded_text (oa_Title args) maxPRTitleBytes False False \<and> bounded_text (oa_Body args) maxPRBodyBytes True True \<and>
     bounded_text (oa_CommitMessage args) maxCommitMessageBytes False False \<and> oa_Changes args \<noteq> [] \<and>
     length (oa_Changes args) \<le> maxChanges \<and> changes_ok u (oa_Changes args)"

lemma validateOpenPRArgs_iff: "validateOpenPRArgs u config args = Inr () \<longleftrightarrow> args_ok u config args"
  using validate_changes_iff [of 0 u "[]" "oa_Changes args"]
  by (auto simp: validateOpenPRArgs_def args_ok_def changes_ok_def)

lemma changes_ok_mset:
  assumes "mset changes = mset changes'"
  shows "changes_ok u changes = changes_ok u changes'"
proof -
  have "set changes = set changes'" using assms by (rule mset_eq_setD)
  moreover have "distinct (map f changes) = distinct (map f changes')" for f :: "fileChange \<Rightarrow> string"
    using assms by (metis mset_eq_imp_distinct_iff mset_map)
  moreover have "sum_list (map f changes) = sum_list (map f changes')" for f :: "fileChange \<Rightarrow> nat"
    using assms by (metis mset_map sum_mset_sum_list)
  ultimately show ?thesis unfolding changes_ok_def by metis
qed

lemma args_ok_mset:
  assumes "mset (oa_Changes args) = mset changes"
  shows "args_ok u config (args\<lparr>oa_Changes := changes\<rparr>) = args_ok u config args"
proof -
  have "length changes = length (oa_Changes args)" using mset_eq_length [OF assms] by simp
  moreover have "changes = [] \<longleftrightarrow> oa_Changes args = []" using assms by (metis mset_zero_iff)
  moreover have "changes_ok u changes = changes_ok u (oa_Changes args)" using changes_ok_mset [OF assms] ..
  ultimately show ?thesis by (simp add: args_ok_def)
qed

lemma sorted_changes_unique:
  assumes "changes_ok u changes" and "mset changes = mset changes'"
  shows "sort_key fc_Path changes = sort_key fc_Path changes'"
proof (rule sort_key_inj_key_eq)
  have "inj_on (\<lambda>change. to_lower u (fc_Path change)) (set changes)" using assms(1) by (simp add: changes_ok_def distinct_map)
  then show "inj_on fc_Path (set changes)" by (auto simp: inj_on_def)
qed (use assms(2) in simp_all)

lemma canonicalizeOpenPRArgs_Inr:
  "canonicalizeOpenPRArgs deps codec (Some p) arguments = Inr (args, canonical) \<longleftrightarrow>
     (\<exists>decoded. pl_schema p \<noteq> None \<and> is_ok (Schema_Validate (rd_codec deps) (rd_schemas deps) (pl_schema p) arguments) \<and>
        rd_unmarshal deps arguments = Some decoded \<and> args_ok (rd_unicode deps) (pl_config p) decoded \<and>
        args = decoded\<lparr>oa_Changes := sort_key fc_Path (oa_Changes decoded)\<rparr> \<and> pn_marshal codec args = Some canonical)"
  by (auto simp: canonicalizeOpenPRArgs_def rbind_eq_Inr Let_def validateOpenPRArgs_iff split: option.splits if_splits)

lemma canonical_args_ok:
  assumes "canonicalizeOpenPRArgs deps codec (Some p) arguments = Inr (args, canonical)"
  shows "args_ok (rd_unicode deps) (pl_config p) args" and "sorted (map fc_Path (oa_Changes args))"
proof -
  obtain decoded where d: "args_ok (rd_unicode deps) (pl_config p) decoded" "args = decoded\<lparr>oa_Changes := sort_key fc_Path (oa_Changes decoded)\<rparr>"
    using assms by (auto simp: canonicalizeOpenPRArgs_Inr)
  then show "args_ok (rd_unicode deps) (pl_config p) args" using args_ok_mset [of decoded "sort_key fc_Path (oa_Changes decoded)"] by simp
  show "sorted (map fc_Path (oa_Changes args))" by (simp add: d(2))
qed

subsection \<open>Plans\<close>

lemma OpenPRPlanner_Plan_Inr:
  "OpenPRPlanner_Plan deps codec (Some p) request = Inr plan \<longleftrightarrow>
     (\<exists>args canonical steps. validateOpenPRIntent (pl_config p) request = Inr () \<and>
        canonicalizeOpenPRArgs deps codec (Some p) (it_Args request) = Inr (args, canonical) \<and>
        openPRPlanSteps deps codec args (map (planned_change deps) (oa_Changes args))
          (head_ref deps (pl_config p) (it_Workspace request) canonical) = Inr steps \<and>
        plan = \<lparr>ap_IntentID = it_ID request, ap_Verb = VerbGitOpsOpenPR, ap_Target = normalizedOpenPRTarget (pl_config p),
          ap_Diff = \<lparr>df_Ref = normalizedOpenPRTarget (pl_config p), df_Drifted = True, df_Hunks = map (change_hunk deps) (oa_Changes args)\<rparr>,
          ap_Steps = steps, ap_Reversible = True, ap_Warnings = []\<rparr>)"
  by (auto simp: OpenPRPlanner_Plan_def rbind_eq_Inr Let_def canonicalizeOpenPRArgs_Inr)

lemma validateOpenPRIntent_Inr:
  "validateOpenPRIntent config request = Inr () \<longleftrightarrow>
     ValidateWorkspaceID (it_Workspace request) = Inr () \<and> bounded_text (it_ID request) pr_maxIntentIDBytes False False \<and>
     it_Verb request = VerbGitOpsOpenPR \<and> it_Target request = normalizedOpenPRTarget config"
  by (cases "it_Target request") (auto simp: validateOpenPRIntent_def normalizedOpenPRTarget_def is_ok_iff Let_def)

lemma openPRPlanSteps_calls:
  assumes "openPRPlanSteps deps codec args changes headRef = Inr steps"
  shows "map (\<lambda>step. (ps_API step, Some (ps_Params step))) steps =
    map (\<lambda>(description, api, params). (api, pn_step codec params)) (open_pr_calls deps args changes headRef)"
proof -
  have "map (\<lambda>step. (ps_API step, Some (ps_Params step))) steps = map (\<lambda>(description, api, params). (api, pn_step codec params)) calls"
    if "list_all2 (\<lambda>call step. (case call of (description, api, params) \<Rightarrow> case pn_step codec params of None \<Rightarrow> Inl StepEncoding
        | Some encoded \<Rightarrow> Inr \<lparr>ps_Description = description, ps_API = api, ps_Params = encoded\<rparr>) = Inr step) calls steps" for calls
    using that by (induction rule: list_all2_induct) (auto split: option.splits)
  then show ?thesis using assms by (simp only: openPRPlanSteps_def rmap_Inr_iff)
qed

lemma openPRPlanSteps_total:
  assumes "\<forall>params. pn_step codec params \<noteq> None"
  shows "\<exists>steps. openPRPlanSteps deps codec args changes headRef = Inr steps"
  unfolding openPRPlanSteps_def is_ok_iff [symmetric] using assms by (intro rmap_total) (auto simp: is_ok_iff split: prod.split option.split, metis option.distinct(1))

lemma change_ok_path:
  assumes "change_ok u change"
  shows "\<forall>component \<in> set (split_on CHR ''/'' (fc_Path change)). component \<notin> {[], ''.'', ''..''} \<and> to_lower u component \<notin> {''.git'', ''.gitmodules''}"
    and "\<nexists>a b rest. split_on CHR ''/'' (fc_Path change) = a # b # rest \<and> to_lower u a = ''.github'' \<and> to_lower u b = ''workflows''"
proof -
  have "validChangePath u (fc_Path change)" using assms by (simp add: change_ok_def)
  then show "\<forall>component \<in> set (split_on CHR ''/'' (fc_Path change)). component \<notin> {[], ''.'', ''..''} \<and> to_lower u component \<notin> {''.git'', ''.gitmodules''}"
    and "\<nexists>a b rest. split_on CHR ''/'' (fc_Path change) = a # b # rest \<and> to_lower u a = ''.github'' \<and> to_lower u b = ''workflows''"
    unfolding validChangePath_def Let_def list_ex_iff by (blast, force)
qed

lemma change_ok_pinned:
  assumes "change_ok u change"
  shows "if fc_Operation change = ''create'' then fc_ExpectedBlobSHA change = None \<and> fc_Content change \<noteq> None
    else fc_Operation change \<in> {''update'', ''delete''} \<and> (\<exists>blob. fc_ExpectedBlobSHA change = Some blob \<and> validCommitSHA blob)"
proof -
  have "check_operation change = Inr ()" using assms by (simp add: change_ok_def)
  then show ?thesis by (auto split: if_splits option.splits)
qed

text \<open>
  C33: a pull-request plan stays inside its policy. A plan is made only for the configured repository and base branch. Its hunks
  are the changes of the arguments in the order of their paths, no two of which differ only in case, each with the blob it was seen
  with, or absent, and with the digest of its new content, or deleted. No path leaves the
  repository, enters Git's own files or the workflow directory; whatever is overwritten or removed is pinned to a valid blob
  name, and what is created has none; the content is within its bound. The calls are the eight listed, with exactly these
  parameters: they check the base branch and commit that the arguments name, verify and build the tree from
  the same changes with the same expected blobs, and open a pull request from a new branch of the planner's own prefix; none
  merges, writes the base branch or deletes a reference.
\<close>
theorem pull_request_plan_confined:
  assumes "OpenPRPlanner_Plan deps codec (Some p) request = Inr plan"
  shows "\<exists>args canonical branch planned. canonicalizeOpenPRArgs deps codec (Some p) (it_Args request) = Inr (args, canonical) \<and>
    it_Target request = normalizedOpenPRTarget (pl_config p) \<and> ap_Target plan = it_Target request \<and> df_Ref (ap_Diff plan) = it_Target request \<and>
    oa_BaseRef args = op_BaseRef (pl_config p) \<and> validCommitSHA (oa_ExpectedBaseSHA args) \<and>
    df_Hunks (ap_Diff plan) = map (\<lambda>change. \<lparr>dh_Path = fc_Path change,
      dh_Observed = (case fc_ExpectedBlobSHA change of None \<Rightarrow> ''absent'' | Some blob \<Rightarrow> ''blob:'' @ blob),
      dh_Desired = (case fc_Content change of None \<Rightarrow> ''deleted'' | Some content \<Rightarrow> sha_digest deps content)\<rparr>) (oa_Changes args) \<and>
    sorted (map fc_Path (oa_Changes args)) \<and>
    distinct (map (\<lambda>change. to_lower (rd_unicode deps) (fc_Path change)) (oa_Changes args)) \<and>
    (\<forall>change \<in> set (oa_Changes args).
       (\<forall>component \<in> set (split_on CHR ''/'' (fc_Path change)).
          component \<notin> {[], ''.'', ''..''} \<and> to_lower (rd_unicode deps) component \<notin> {''.git'', ''.gitmodules''}) \<and>
       (\<nexists>a b rest. split_on CHR ''/'' (fc_Path change) = a # b # rest \<and>
          to_lower (rd_unicode deps) a = ''.github'' \<and> to_lower (rd_unicode deps) b = ''workflows'') \<and>
       (if fc_Operation change = ''create'' then fc_ExpectedBlobSHA change = None \<and> fc_Content change \<noteq> None
        else fc_Operation change \<in> {''update'', ''delete''} \<and> (\<exists>blob. fc_ExpectedBlobSHA change = Some blob \<and> validCommitSHA blob))) \<and>
    sum_list (map (\<lambda>change. length (change_content change)) (oa_Changes args)) \<le> 48 * 1024 \<and>
    has_prefix branch ''sith/intent-'' \<and>
    planned = map (\<lambda>change. \<lparr>pc_Operation = fc_Operation change, pc_Path = fc_Path change,
      pc_ExpectedBlobSHA = (case fc_ExpectedBlobSHA change of None \<Rightarrow> [] | Some blob \<Rightarrow> blob),
      pc_ContentDigest = (case fc_Content change of None \<Rightarrow> [] | Some content \<Rightarrow> sha_digest deps content)\<rparr>) (oa_Changes args) \<and>
    map (\<lambda>step. (ps_API step, Some (ps_Params step))) (ap_Steps plan) =
      [(''GET /repos/{owner}/{repo}/git/ref/heads/{base}'', pn_step codec (RefCheckParams (op_BaseRef (pl_config p)) (oa_ExpectedBaseSHA args))),
       (''GET /repos/{owner}/{repo}/git/commits/{commit}'', pn_step codec (CommitLookupParams (oa_ExpectedBaseSHA args))),
       (''GET /repos/{owner}/{repo}/git/trees/{tree}'', pn_step codec (TreeVerifyParams ''verified-base-tree'' planned)),
       (''POST /repos/{owner}/{repo}/git/trees'', pn_step codec (TreePlanParams ''verified-base-tree'' planned)),
       (''POST /repos/{owner}/{repo}/git/commits'',
          pn_step codec (CommitPlanParams (oa_ExpectedBaseSHA args) ''planned-tree'' (sha_digest deps (oa_CommitMessage args)))),
       (''POST /repos/{owner}/{repo}/git/refs'', pn_step codec (RefCreateParams branch ''planned-commit'')),
       (''GET /repos/{owner}/{repo}/pulls'', pn_step codec (PullLookupParams branch (op_BaseRef (pl_config p)))),
       (''POST /repos/{owner}/{repo}/pulls'',
          pn_step codec (PullCreateParams branch (op_BaseRef (pl_config p)) (sha_digest deps (oa_Title args)) (sha_digest deps (oa_Body args))))]"
proof -
  obtain args canonical steps where made: "validateOpenPRIntent (pl_config p) request = Inr ()"
      "canonicalizeOpenPRArgs deps codec (Some p) (it_Args request) = Inr (args, canonical)"
      "openPRPlanSteps deps codec args (map (planned_change deps) (oa_Changes args))
          (head_ref deps (pl_config p) (it_Workspace request) canonical) = Inr steps"
    and plan: "ap_Target plan = normalizedOpenPRTarget (pl_config p)" "df_Ref (ap_Diff plan) = normalizedOpenPRTarget (pl_config p)"
      "df_Hunks (ap_Diff plan) = map (change_hunk deps) (oa_Changes args)" "ap_Steps plan = steps"
    using assms unfolding OpenPRPlanner_Plan_Inr by auto
  let ?branch = "head_ref deps (pl_config p) (it_Workspace request) canonical" and ?planned = "map (planned_change deps) (oa_Changes args)"
  have ok: "args_ok (rd_unicode deps) (pl_config p) args" and ordered: "sorted (map fc_Path (oa_Changes args))"
    using canonical_args_ok [OF made(2)] by blast+
  have changes: "changes_ok (rd_unicode deps) (oa_Changes args)" "oa_BaseRef args = op_BaseRef (pl_config p)"
    "validCommitSHA (oa_ExpectedBaseSHA args)" using ok by (simp_all add: args_ok_def)
  note calls = openPRPlanSteps_calls [OF made(3), folded plan(4), unfolded open_pr_calls_def list.map prod.case changes(2)]
  have branch: "has_prefix ?branch ''sith/intent-''" by (simp add: head_ref_def Let_def has_prefix_def)
  have target: "it_Target request = normalizedOpenPRTarget (pl_config p)" using made(1) by (simp only: validateOpenPRIntent_Inr)
  have each: "change_ok (rd_unicode deps) change" if "change \<in> set (oa_Changes args)" for change
    using changes(1) that by (simp only: changes_ok_def)
  show ?thesis
    using made(2) plan(1,2) plan(3) [unfolded change_hunk_def [abs_def]] ordered changes(2,3) target branch calls
      changes(1) [unfolded changes_ok_def maxTotalContentBytes_def]
    by (intro exI [of _ args] exI [of _ canonical] exI [of _ ?branch] exI [of _ ?planned] conjI ballI change_ok_path [OF each]
        change_ok_pinned [OF each]) (simp_all only: planned_change_def [abs_def])
qed

text \<open>
  C40: a plan does not depend on the order of its changes. If two argument documents pass the schema and decode to the same request
  with its changes in another order, a plan for the first is a plan for the second, down to the name of its branch, so
  that a retry with reordered changes finds the pull request of the first attempt.
\<close>
theorem plan_order_independent:
  assumes "OpenPRPlanner_Plan deps codec (Some p) request = Inr plan"
    and "rd_unmarshal deps (it_Args request) = Some args"
    and "rd_unmarshal deps arguments = Some (args\<lparr>oa_Changes := changes\<rparr>)" and "mset (oa_Changes args) = mset changes"
    and "Schema_Validate (rd_codec deps) (rd_schemas deps) (pl_schema p) arguments = Inr ()"
  shows "OpenPRPlanner_Plan deps codec (Some p) (request\<lparr>it_Args := arguments\<rparr>) = Inr plan"
proof -
  obtain sorted_args canonical where c: "canonicalizeOpenPRArgs deps codec (Some p) (it_Args request) = Inr (sorted_args, canonical)"
    using assms(1) unfolding OpenPRPlanner_Plan_Inr by blast
  then have ok: "args_ok (rd_unicode deps) (pl_config p) args" and s: "sorted_args = args\<lparr>oa_Changes := sort_key fc_Path (oa_Changes args)\<rparr>"
    and m: "pn_marshal codec sorted_args = Some canonical" "pl_schema p \<noteq> None"
    using assms(2) by (auto simp: canonicalizeOpenPRArgs_Inr)
  have "sort_key fc_Path (oa_Changes args) = sort_key fc_Path changes"
    using sorted_changes_unique [OF _ assms(4), of "rd_unicode deps"] ok by (simp add: args_ok_def)
  then have "canonicalizeOpenPRArgs deps codec (Some p) arguments = Inr (sorted_args, canonical)"
    using assms(3,5) s m ok args_ok_mset [OF assms(4)] by (auto simp: canonicalizeOpenPRArgs_Inr is_ok_iff)
  moreover have "validateOpenPRIntent (pl_config p) (request\<lparr>it_Args := arguments\<rparr>) = Inr ()"
    using assms(1) by (auto simp: OpenPRPlanner_Plan_Inr validateOpenPRIntent_Inr)
  ultimately show ?thesis using assms(1) c unfolding OpenPRPlanner_Plan_Inr by auto
qed

subsection \<open>Resolutions against the planner\<close>

text \<open>Decoding what was encoded gives the request back, if its texts are valid UTF-8.\<close>

definition change_utf8 :: "fileChange \<Rightarrow> bool" where
  "change_utf8 change \<longleftrightarrow>
     utf8_valid (fc_Operation change) \<and> utf8_valid (fc_Path change) \<and> pred_option utf8_valid (fc_Content change) \<and>
     pred_option utf8_valid (fc_ExpectedBlobSHA change)"

definition args_utf8 :: "openPRArguments \<Rightarrow> bool" where
  "args_utf8 args \<longleftrightarrow>
     utf8_valid (oa_BaseRef args) \<and> utf8_valid (oa_ExpectedBaseSHA args) \<and> utf8_valid (oa_Title args) \<and> utf8_valid (oa_Body args) \<and>
     utf8_valid (oa_CommitMessage args) \<and> (\<forall>change \<in> set (oa_Changes args). change_utf8 change)"

definition arguments_roundtrip :: "('s, 'r) resolver_deps \<Rightarrow> planner_codec \<Rightarrow> bool" where
  "arguments_roundtrip deps codec \<longleftrightarrow>
     (\<forall>args d. pn_marshal codec args = Some d \<longrightarrow> args_utf8 args \<longrightarrow> rd_unmarshal deps d = Some args)"

lemma validCommitSHA_utf8: "validCommitSHA value \<Longrightarrow> utf8_valid value"
  by (auto simp: validCommitSHA_def utf8_valid_def list_all_iff rune_error_def)

lemma change_ok_utf8:
  assumes "change_ok u change"
  shows "change_utf8 change"
proof -
  have "utf8_valid ''create''" "utf8_valid ''update''" "utf8_valid ''delete''" by code_simp+
  then have "utf8_valid (fc_Operation change)" using change_ok_pinned [OF assms] by (auto split: if_splits)
  moreover have "pred_option utf8_valid (fc_ExpectedBlobSHA change)"
    using change_ok_pinned [OF assms] validCommitSHA_utf8 by (auto split: if_splits)
  ultimately show ?thesis
    using assms by (auto simp: change_utf8_def change_ok_def validChangePath_def bounded_text_def validFileContent_def change_content_def
        pred_option_def split: option.splits)
qed

lemma args_ok_utf8:
  assumes "args_ok u config args" and "validateOpenPRConfig u config"
  shows "args_utf8 args"
  using assms change_ok_utf8 validCommitSHA_utf8
  by (auto simp: args_utf8_def args_ok_def changes_ok_def bounded_text_def validateOpenPRConfig_def validBaseRef_def)

lemma canonicalize_canonical:
  assumes "arguments_roundtrip deps codec" and "validateOpenPRConfig (rd_unicode deps) (pl_config p)"
    and "canonicalizeOpenPRArgs deps codec (Some p) arguments = Inr (args, canonical)"
    and "Schema_Validate (rd_codec deps) (rd_schemas deps) (pl_schema p) canonical = Inr ()"
  shows "rd_unmarshal deps canonical = Some args" and "canonicalizeOpenPRArgs deps codec (Some p) canonical = Inr (args, canonical)"
proof -
  have ok: "args_ok (rd_unicode deps) (pl_config p) args" and "sorted (map fc_Path (oa_Changes args))"
    using canonical_args_ok [OF assms(3)] by blast+
  then have same: "args\<lparr>oa_Changes := sort_key fc_Path (oa_Changes args)\<rparr> = args" by (simp add: sort_key_id_if_sorted)
  have m: "pn_marshal codec args = Some canonical" "pl_schema p \<noteq> None" using assms(3) by (auto simp: canonicalizeOpenPRArgs_Inr)
  show decoded: "rd_unmarshal deps canonical = Some args"
    using assms(1) m(1) args_ok_utf8 [OF ok assms(2)] by (simp add: arguments_roundtrip_def)
  show "canonicalizeOpenPRArgs deps codec (Some p) canonical = Inr (args, canonical)"
    using decoded m same ok assms(4) by (auto simp: canonicalizeOpenPRArgs_Inr is_ok_iff)
qed

lemma planner_handler_answers:
  "gh_Descriptor (planner_handler deps codec planner) n = OpenPRPlanner_Descriptor"
  "gh_CanonicalizeOpenPRArgs (planner_handler deps codec planner) arguments = Some answer \<longleftrightarrow>
     CanonicalizeOpenPRArgs deps codec (Some planner) arguments = Inr answer"
  by (auto simp: planner_handler_def split: sum.split)

text \<open>
  C34: what the resolver declares ready, the planner plans. Take a planner of a valid policy as the handler of the resolver, and JSON
  that decodes to what it encoded. If a resolution is ready, then a proposal with its target and arguments, in the
  resolver's workspace, is planned without error; the plan is for that target and its only hunk replaces, in the file of
  the one provenance bundle, the blob that bundle observed by the content it asks for.
\<close>
theorem ready_resolution_planned:
  assumes "NewOpenPRPlanner deps config = Inr planner" and "arguments_roundtrip deps codec" and "\<forall>params. pn_step codec params \<noteq> None"
    and "Resolve deps (Some \<lparr>gr_handler = Some (planner_handler deps codec planner), gr_now = now\<rparr>) ctx workspace verdict bundles = Inr r"
    and "rn_Status r = ResolutionReady" and "bounded_text (it_ID request) 253 False False"
    and "it_Workspace request = workspace" and "it_Verb request = VerbGitOpsOpenPR"
    and "it_Target request = rn_Target r" and "it_Args request = rn_Arguments r"
  shows "\<exists>b plan. bundles = [b] \<and> OpenPRPlanner_Plan deps codec (Some planner) request = Inr plan \<and> ap_Target plan = rn_Target r \<and>
    df_Hunks (ap_Diff plan) = [\<lparr>dh_Path = gp_filePath b, dh_Observed = ''blob:'' @ gp_observedBlobSHA b,
      dh_Desired = sha_digest deps (gp_desiredContent b)\<rparr>]"
proof -
  obtain schema where planner: "planner = \<lparr>pl_config = config, pl_schema = Some schema\<rparr>" "validateOpenPRConfig (rd_unicode deps) config"
    and compiled: "Compile (rd_codec deps) (rd_schemas deps) openPRSchema = Inr schema"
    using assms(1) by (auto simp: NewOpenPRPlanner_def split: if_splits sum.splits)
  obtain b instant isDone where b: "bundles = [b]" "ValidateWorkspaceID workspace = Inr ()"
    and handled: "resolve_handler deps (planner_handler deps codec planner) instant isDone b = Inr r"
    using Resolve_stages [THEN iffD1, OF conjI [OF assms(4,5)]] by auto
  obtain schema' arguments target canonical where h: "inspectHandler deps OpenPRPlanner_Descriptor = Some (gp_handler b, schema')"
      "CanonicalizeOpenPRArgs deps codec (Some planner) arguments = Inr (target, canonical)"
      "Schema_Validate (rd_codec deps) (rd_schemas deps) (Some schema') canonical = Inr ()"
      "rd_unmarshal deps canonical = Some (bundle_arguments b)" and r: "rn_Target r = target" "rn_Arguments r = canonical"
    using resolve_handler_ready [THEN iffD1, OF conjI [OF handled assms(5)]] by (auto simp: planner_handler_answers)
  have "schema' = schema" using h(1) compiled by (auto simp: inspectHandler_def OpenPRPlanner_Descriptor_def split: if_splits sum.splits)
  then have valid: "Schema_Validate (rd_codec deps) (rd_schemas deps) (pl_schema planner) canonical = Inr ()" using h(3) planner(1) by simp
  obtain args where c: "canonicalizeOpenPRArgs deps codec (Some planner) arguments = Inr (args, canonical)"
    and target: "target = normalizedOpenPRTarget config"
    using h(2) planner(1) by (auto simp: CanonicalizeOpenPRArgs_def rbind_eq_Inr)
  note again = canonicalize_canonical [OF assms(2) _ c valid]
  have args: "args = bundle_arguments b" using again(1) h(4) planner by simp
  have "canonicalizeOpenPRArgs deps codec (Some planner) (it_Args request) = Inr (args, canonical)"
    using again(2) planner r(2) assms(10) by simp
  moreover have "validateOpenPRIntent (pl_config planner) request = Inr ()"
    using assms(6-9) b(2) planner(1) target r(1) by (simp add: validateOpenPRIntent_Inr pr_maxIntentIDBytes_def)
  moreover obtain steps where "openPRPlanSteps deps codec args (map (planned_change deps) (oa_Changes args))
      (head_ref deps (pl_config planner) (it_Workspace request) canonical) = Inr steps"
    using openPRPlanSteps_total [OF assms(3)] by blast
  ultimately show ?thesis
    unfolding OpenPRPlanner_Plan_Inr
    using b(1) planner(1) target r(1) by (simp add: args bundle_arguments_def change_hunk_def)
qed

subsection \<open>Witnesses\<close>

definition sample_pr_config :: OpenPRPlannerConfig where
  "sample_pr_config = \<lparr>op_Host = ''github.com'', op_Owner = ''acme'', op_Repository = ''deploy'', op_BaseRef = ''main''\<rparr>"

definition sample_pr_bundle :: GitOpsProvenanceBundle where
  "sample_pr_bundle = (bundle_of sample_provenance (hd (gi_Sources sample_provenance)))\<lparr>gp_handler := \<lparr>hc_Kind = ''github'', hc_AdapterVersion = openPRProtocolVersion,
     hc_SchemaDigest = ''sha256:'' @ hex_encode (replicate 32 CHR ''a'')\<rparr>\<rparr>"

definition sample_changes :: "fileChange list" where
  "sample_changes = [\<lparr>fc_Operation = ''update'', fc_Path = ''apps/api.yaml'', fc_Content = Some ''memory: 2Gi'', fc_ExpectedBlobSHA = Some (replicate 40 CHR ''b'')\<rparr>,
     \<lparr>fc_Operation = ''create'', fc_Path = ''apps/README.md'', fc_Content = Some ''raised'', fc_ExpectedBlobSHA = None\<rparr>]"

definition sample_pr_args :: openPRArguments where
  "sample_pr_args = (bundle_arguments sample_pr_bundle)\<lparr>oa_Changes := sample_changes\<rparr>"

definition sample_pr_sorted :: openPRArguments where
  "sample_pr_sorted = sample_pr_args\<lparr>oa_Changes := rev sample_changes\<rparr>"

text \<open>The documents are the names of what they decode to.\<close>

definition sample_pr_deps :: "(nat, nat) resolver_deps" where
  "sample_pr_deps = \<lparr>rd_unicode = ascii_case, rd_sha = (\<lambda>s. replicate 32 CHR ''a''),
     rd_codec = \<lparr>jc_tokens = (\<lambda>d. ([obj_open, obj_close], True)), jc_decode = (\<lambda>d. Some [])\<rparr>,
     rd_schemas = sample_schema_api\<lparr>sa_parse := (\<lambda>d. Some 0)\<rparr>,
     rd_marshal = (\<lambda>a. Some ''bundle''),
     rd_unmarshal = (\<lambda>d. if d = ''bundle'' then Some (bundle_arguments sample_pr_bundle)
       else if d = ''two'' then Some sample_pr_args
       else if d = ''reversed'' then Some sample_pr_sorted else None)\<rparr>"

definition sample_pr_codec :: planner_codec where
  "sample_pr_codec = \<lparr>pn_marshal = (\<lambda>a. if a = bundle_arguments sample_pr_bundle then Some ''bundle''
     else if a = sample_pr_sorted then Some ''reversed'' else None), pn_step = (\<lambda>p. Some ''params'')\<rparr>"

definition sample_planner :: "nat OpenPRPlanner" where
  "sample_planner = \<lparr>pl_config = sample_pr_config, pl_schema = Some \<lparr>sm_raw = openPRSchema, sm_resolved = Some 0\<rparr>\<rparr>"

definition sample_pr_intent :: "string \<Rightarrow> Intent" where
  "sample_pr_intent args = sample_intent\<lparr>it_Workspace := ''payments'', it_Verb := VerbGitOpsOpenPR, it_Target := sample_pr_target, it_Args := args\<rparr>"

lemma sample_planner_made: "NewOpenPRPlanner sample_pr_deps sample_pr_config = Inr sample_planner"
  by code_simp

theorem pull_request_plan_confined_witness:
  "\<exists>plan. OpenPRPlanner_Plan sample_pr_deps sample_pr_codec (Some sample_planner) (sample_pr_intent ''two'') = Inr plan \<and>
     length (ap_Steps plan) = 8 \<and> sorted (map dh_Path (df_Hunks (ap_Diff plan)))"
proof -
  have "is_ok (OpenPRPlanner_Plan sample_pr_deps sample_pr_codec (Some sample_planner) (sample_pr_intent ''two''))" by code_simp
  then obtain plan where plan: "OpenPRPlanner_Plan sample_pr_deps sample_pr_codec (Some sample_planner) (sample_pr_intent ''two'') = Inr plan"
    by (auto simp: is_ok_iff)
  have steps: "length xs = length calls" if "map f xs = calls" for f :: "PlanStep \<Rightarrow> string \<times> string option" and xs calls
    using that by auto
  from pull_request_plan_confined [OF plan] obtain args :: openPRArguments where ordered: "sorted (map fc_Path (oa_Changes args))"
    and hunks: "df_Hunks (ap_Diff plan) = map (\<lambda>change. \<lparr>dh_Path = fc_Path change,
      dh_Observed = (case fc_ExpectedBlobSHA change of None \<Rightarrow> ''absent'' | Some blob \<Rightarrow> ''blob:'' @ blob),
      dh_Desired = (case fc_Content change of None \<Rightarrow> ''deleted'' | Some content \<Rightarrow> sha_digest sample_pr_deps content)\<rparr>) (oa_Changes args)"
    and eight: "length (ap_Steps plan) = 8"
  proof (elim exE conjE, goal_cases)
    case (1 args canonical branch planned)
    show ?case using steps [OF 1(15)] by (intro 1(1) [OF 1(9,8)]) simp
  qed
  have "map dh_Path (df_Hunks (ap_Diff plan)) = map fc_Path (oa_Changes args)" unfolding hunks by simp
  with plan ordered eight show ?thesis by simp
qed

theorem plan_order_independent_witness:
  "\<exists>plan. OpenPRPlanner_Plan sample_pr_deps sample_pr_codec (Some sample_planner) (sample_pr_intent ''two'') = Inr plan \<and>
     OpenPRPlanner_Plan sample_pr_deps sample_pr_codec (Some sample_planner) ((sample_pr_intent ''two'')\<lparr>it_Args := ''reversed''\<rparr>) = Inr plan"
proof -
  have run: "is_ok (OpenPRPlanner_Plan sample_pr_deps sample_pr_codec (Some sample_planner) (sample_pr_intent ''two''))"
    "Schema_Validate (rd_codec sample_pr_deps) (rd_schemas sample_pr_deps) (pl_schema sample_planner) ''reversed'' = Inr ()" by code_simp+
  then obtain plan where plan: "OpenPRPlanner_Plan sample_pr_deps sample_pr_codec (Some sample_planner) (sample_pr_intent ''two'') = Inr plan"
    by (auto simp: is_ok_iff)
  have decoded: "rd_unmarshal sample_pr_deps (it_Args (sample_pr_intent ''two'')) = Some sample_pr_args"
    "rd_unmarshal sample_pr_deps ''reversed'' = Some (sample_pr_args\<lparr>oa_Changes := rev sample_changes\<rparr>)"
    by (simp_all add: sample_pr_deps_def sample_pr_intent_def sample_pr_sorted_def)
  have "mset (oa_Changes sample_pr_args) = mset (rev sample_changes)" by (simp add: sample_pr_args_def)
  from plan_order_independent [OF plan decoded this run(2)] plan show ?thesis by blast
qed

definition sample_pr_resolution :: "(resolve_error, Resolution) result" where
  "sample_pr_resolution = Resolve sample_pr_deps (Some \<lparr>gr_handler = Some (planner_handler sample_pr_deps sample_pr_codec sample_planner),
     gr_now = Some (\<lambda>n. 1500 + int n)\<rparr>) (Some (\<lambda>n. False)) ''payments'' sample_verdict [sample_pr_bundle]"

lemma sample_pr_resolved:
  "(case sample_pr_resolution of Inr r \<Rightarrow> (rn_Status r = ResolutionReady, rn_Arguments r, rn_Target r) | Inl e \<Rightarrow> (False, [], zero_resource)) =
     (True, ''bundle'', sample_pr_target)"
  by code_simp

lemma sample_pr_codec_laws:
  "arguments_roundtrip sample_pr_deps sample_pr_codec" "\<forall>params. pn_step sample_pr_codec params \<noteq> None"
proof -
  have "rd_unmarshal sample_pr_deps ''bundle'' = Some (bundle_arguments sample_pr_bundle)"
    "rd_unmarshal sample_pr_deps ''reversed'' = Some sample_pr_sorted"
    by (simp_all add: sample_pr_deps_def)
  note decoded = this
  show "arguments_roundtrip sample_pr_deps sample_pr_codec"
    unfolding arguments_roundtrip_def
  proof (intro allI impI)
    fix args d
    assume "pn_marshal sample_pr_codec args = Some d"
    then consider "args = bundle_arguments sample_pr_bundle" "d = ''bundle''"
      | "args = sample_pr_sorted" "d = ''reversed''"
      unfolding sample_pr_codec_def planner_codec.simps by (simp split: if_split_asm)
    then show "rd_unmarshal sample_pr_deps d = Some args" by cases (simp_all only: decoded)
  qed
  show "\<forall>params. pn_step sample_pr_codec params \<noteq> None" by (simp add: sample_pr_codec_def)
qed

lemma sample_pr_intent_fields:
  "bounded_text (it_ID (sample_pr_intent args)) 253 False False" "it_Workspace (sample_pr_intent args) = ''payments''"
  "it_Verb (sample_pr_intent args) = VerbGitOpsOpenPR" "it_Target (sample_pr_intent args) = sample_pr_target" "it_Args (sample_pr_intent args) = args"
proof -
  have "bounded_text (it_ID sample_intent) 253 False False" by code_simp
  then show "bounded_text (it_ID (sample_pr_intent args)) 253 False False" by (simp add: sample_pr_intent_def)
qed (simp_all add: sample_pr_intent_def)

theorem ready_resolution_planned_witness:
  "\<exists>r plan. sample_pr_resolution = Inr r \<and> rn_Status r = ResolutionReady \<and>
     OpenPRPlanner_Plan sample_pr_deps sample_pr_codec (Some sample_planner) (sample_pr_intent ''bundle'') = Inr plan \<and>
     ap_Target plan = rn_Target r \<and> length (df_Hunks (ap_Diff plan)) = 1"
proof -
  obtain r where r: "sample_pr_resolution = Inr r" "rn_Status r = ResolutionReady" "rn_Target r = sample_pr_target" "rn_Arguments r = ''bundle''"
    using sample_pr_resolved by (auto split: sum.splits)
  have "it_Target (sample_pr_intent ''bundle'') = rn_Target r" "it_Args (sample_pr_intent ''bundle'') = rn_Arguments r"
    by (simp_all only: sample_pr_intent_fields r)
  from ready_resolution_planned [OF sample_planner_made sample_pr_codec_laws r(1) [unfolded sample_pr_resolution_def] r(2)
      sample_pr_intent_fields(1-3) this]
  obtain b plan where "OpenPRPlanner_Plan sample_pr_deps sample_pr_codec (Some sample_planner) (sample_pr_intent ''bundle'') = Inr plan"
      "ap_Target plan = rn_Target r" "length (df_Hunks (ap_Diff plan)) = 1" by fastforce
  with r show ?thesis by blast
qed

end
