(* ===== verification/GitHub_Evidence.thy ===== *)
theory GitHub_Evidence
  imports GitHub_Planner Brain_Graph
begin

text \<open>
  The evidence of the GitHub connector (\<open>connector/github/project.go\<close> and \<open>workflow_run.go\<close>): a merged pull request and a failed
  workflow run become one fact each, everything else none. A response is read as the JSON value its bytes parse to;
  the tokenizer, the parser, the parser of time stamps and the encoders of the two payloads are parameters (\<open>github_codec\<close>).
\<close>

subsection \<open>Responses\<close>

definition gh_maxResponseBytes :: nat where "gh_maxResponseBytes = 512 * 1024"
definition gh_maxWorkspaceBytes :: nat where "gh_maxWorkspaceBytes = 253"
definition gh_maxResourceName :: nat where "gh_maxResourceName = 253"
definition gh_maxFactPayloadBytes :: nat where "gh_maxFactPayloadBytes = 4 * 1024"
definition gh_maxJSONDepth :: nat where "gh_maxJSONDepth = 64"
definition gh_maxClockSkew :: int where "gh_maxClockSkew = 300 * 1000000000"

record github_Projection =
  pj_Workspace :: string
  pj_Host :: string
  pj_Owner :: string
  pj_Repository :: string
  pj_PullNumber :: int
  pj_ObservedAt :: Time
  pj_Response :: string

record WorkflowRunProjection =
  wp_Workspace :: string
  wp_Host :: string
  wp_Owner :: string
  wp_Repository :: string
  wp_RunID :: int
  wp_ObservedAt :: Time
  wp_Response :: string

text \<open>A pointer that may be nil is an option; the commit and the repository of a response are the pointers they hold.\<close>

record pullResponse =
  pr_Number :: "int option"
  pr_State :: "string option"
  pr_Draft :: "bool option"
  pr_Merged :: "bool option"
  pr_MergedAt :: "string option"
  pr_MergeCommitSHA :: "string option"
  pr_Head :: "string option option"
  pr_Base :: "string option option"

record workflowRunResponse =
  wr_ID :: "int option"
  wr_WorkflowID :: "int option"
  wr_RunAttempt :: "int option"
  wr_Status :: "string option"
  wr_Conclusion :: "string option"
  wr_UpdatedAt :: "string option"
  wr_Repository :: "string option option"

record changeObservation =
  co_PullNumber :: int
  co_ChangeKind :: string
  co_HeadSHA :: string
  co_BaseSHA :: string
  co_MergeCommitSHA :: string
  co_MergedAt :: Time

record github_codec =
  gx_tokens :: "string \<Rightarrow> jtoken list \<times> bool"
  gx_parse :: "string \<Rightarrow> gvalue option"
  gx_time :: "string \<Rightarrow> Time option"
  gx_pull :: "changeObservation \<Rightarrow> string option"
  gx_run :: "githubWorkflowChangePayload \<Rightarrow> string option"

datatype github_error =
    GhText string
  | GhHost
  | GhRepositorySuffix
  | GhNumber
  | GhResourceName
  | GhObservationTime
  | GhResponseMissing
  | GhResponseTooLarge
  | GhResponseNotUTF8
  | GhResponseMalformed
  | GhField string
  | GhIdentity
  | GhState
  | GhDraft
  | GhMerged
  | GhUnmergedWithTime
  | GhMergedNotClosed
  | GhMergedDraft
  | GhTimestamp
  | GhClockSkew
  | GhCommit string
  | GhWorkflowID
  | GhRunAttempt
  | GhForeignRepository
  | GhStatus
  | GhConclusion
  | GhEncoding
  | GhFactTooLarge
  | GhFact graph_error

text \<open>Unmarshalling into a map keeps it nil for null; unmarshalling null into a pointer makes it nil.\<close>

fun json_members :: "gvalue \<Rightarrow> (string, gvalue) gomap option" where
  "json_members (VObj ms) = Some ms"
| "json_members VNull = Some []"
| "json_members v = None"

definition pointer_field ::
  "(gvalue \<Rightarrow> 'a option) \<Rightarrow> (string, gvalue) gomap \<Rightarrow> string \<Rightarrow> (github_error, 'a option) result" where
  "pointer_field dec members name =
     (case map_of members name of
        None \<Rightarrow> Inr None
      | Some v \<Rightarrow>
          if v = VNull then Inr None
          else case dec v of None \<Rightarrow> Inl (GhField name) | Some x \<Rightarrow> Inr (Some x))"

definition pullCommit_UnmarshalJSON :: "gvalue \<Rightarrow> string option option" where
  "pullCommit_UnmarshalJSON v =
     (case json_members v of
        None \<Rightarrow> None
      | Some members \<Rightarrow> ok_option (pointer_field unmarshal_string members ''sha''))"

definition pullResponse_UnmarshalJSON :: "gvalue \<Rightarrow> (github_error, pullResponse) result" where
  "pullResponse_UnmarshalJSON v =
     (case json_members v of
        None \<Rightarrow> Inl GhResponseMalformed
      | Some members \<Rightarrow>
          rbind (pointer_field unmarshal_int64 members ''number'') (\<lambda>number.
          rbind (pointer_field unmarshal_string members ''state'') (\<lambda>state.
          rbind (pointer_field unmarshal_bool members ''draft'') (\<lambda>draft.
          rbind (pointer_field unmarshal_bool members ''merged'') (\<lambda>merged.
          rbind (pointer_field unmarshal_string members ''merged_at'') (\<lambda>mergedAt.
          rbind (pointer_field unmarshal_string members ''merge_commit_sha'') (\<lambda>commit.
          rbind (pointer_field pullCommit_UnmarshalJSON members ''head'') (\<lambda>head.
          rbind (pointer_field pullCommit_UnmarshalJSON members ''base'') (\<lambda>base.
          Inr \<lparr>pr_Number = number, pr_State = state, pr_Draft = draft, pr_Merged = merged, pr_MergedAt = mergedAt,
            pr_MergeCommitSHA = commit, pr_Head = head, pr_Base = base\<rparr>)))))))))"

definition workflowRunRepository_UnmarshalJSON :: "gvalue \<Rightarrow> string option option" where
  "workflowRunRepository_UnmarshalJSON v =
     (case json_members v of
        None \<Rightarrow> None
      | Some members \<Rightarrow> ok_option (pointer_field unmarshal_string members ''full_name''))"

definition workflowRunResponse_UnmarshalJSON :: "gvalue \<Rightarrow> (github_error, workflowRunResponse) result" where
  "workflowRunResponse_UnmarshalJSON v =
     (case json_members v of
        None \<Rightarrow> Inl GhResponseMalformed
      | Some members \<Rightarrow>
          rbind (pointer_field unmarshal_int64 members ''id'') (\<lambda>run.
          rbind (pointer_field unmarshal_int64 members ''workflow_id'') (\<lambda>workflow.
          rbind (pointer_field unmarshal_int64 members ''run_attempt'') (\<lambda>attempt.
          rbind (pointer_field unmarshal_string members ''status'') (\<lambda>status.
          rbind (pointer_field unmarshal_string members ''conclusion'') (\<lambda>conclusion.
          rbind (pointer_field unmarshal_string members ''updated_at'') (\<lambda>updated.
          rbind (pointer_field workflowRunRepository_UnmarshalJSON members ''repository'') (\<lambda>repository.
          Inr \<lparr>wr_ID = run, wr_WorkflowID = workflow, wr_RunAttempt = attempt, wr_Status = status, wr_Conclusion = conclusion,
            wr_UpdatedAt = updated, wr_Repository = repository\<rparr>))))))))"

subsection \<open>Requests\<close>

definition gh_rejectDuplicateJSON :: "github_codec \<Rightarrow> string \<Rightarrow> bool" where
  "gh_rejectDuplicateJSON codec document =
     (let (ts, ended) = gx_tokens codec document in
      case walk_value gh_maxJSONDepth (\<lambda>t. (Inr () :: (unit, unit) result)) 0 ts of Inl e \<Rightarrow> False | Inr rest \<Rightarrow> rest = [] \<and> ended)"

definition check_repository :: "unicode_case \<Rightarrow> string \<Rightarrow> string \<Rightarrow> string \<Rightarrow> string \<Rightarrow> (github_error, unit) result" where
  "check_repository u workspace host owner repository =
     (if \<not> github_text workspace gh_maxWorkspaceBytes then Inl (GhText ''workspace'')
      else if \<not> github_host u host then Inl GhHost
      else if \<not> github_component owner maxOwnerBytes then Inl (GhText ''owner'')
      else if \<not> github_component repository maxRepositoryBytes then Inl (GhText ''repository'')
      else if has_suffix (to_lower u repository) ''.git'' then Inl GhRepositorySuffix
      else Inr ())"

definition check_response :: "Time \<Rightarrow> string \<Rightarrow> (github_error, unit) result" where
  "check_response observedAt response =
     (if observedAt = 0 then Inl GhObservationTime
      else if response = [] then Inl GhResponseMissing
      else if length response > gh_maxResponseBytes then Inl GhResponseTooLarge
      else if \<not> utf8_valid response then Inl GhResponseNotUTF8
      else Inr ())"

definition pullResourceName :: "github_Projection \<Rightarrow> string" where
  "pullResourceName input = pj_Repository input @ ''#'' @ int_decimal (pj_PullNumber input)"

definition gh_validateProjection :: "unicode_case \<Rightarrow> github_Projection \<Rightarrow> (github_error, unit) result" where
  "gh_validateProjection u input =
     rbind (check_repository u (pj_Workspace input) (pj_Host input) (pj_Owner input) (pj_Repository input)) (\<lambda>_.
     if pj_PullNumber input \<le> 0 then Inl GhNumber
     else if length (pullResourceName input) > gh_maxResourceName then Inl GhResourceName
     else check_response (pj_ObservedAt input) (pj_Response input))"

definition workflowRunResourceName :: "string \<Rightarrow> int \<Rightarrow> int \<Rightarrow> string" where
  "workflowRunResourceName repository run attempt = repository @ ''#'' @ int_decimal run @ ''-attempt-'' @ int_decimal attempt"

definition validateWorkflowRunProjection :: "unicode_case \<Rightarrow> WorkflowRunProjection \<Rightarrow> (github_error, unit) result" where
  "validateWorkflowRunProjection u input =
     rbind (check_repository u (wp_Workspace input) (wp_Host input) (wp_Owner input) (wp_Repository input)) (\<lambda>_.
     if wp_RunID input \<le> 0 then Inl GhNumber
     else if length (workflowRunResourceName (wp_Repository input) (wp_RunID input) 1) > gh_maxResourceName then Inl GhResourceName
     else check_response (wp_ObservedAt input) (wp_Response input))"

definition github_fact :: "string \<Rightarrow> string \<Rightarrow> string \<Rightarrow> string \<Rightarrow> string \<Rightarrow> string \<Rightarrow> string \<Rightarrow> string \<Rightarrow> Time \<Rightarrow> GraphFact" where
  "github_fact workspace host kind owner name protocol native encoded at =
     \<lparr>gf_Fact = \<lparr>Ref = \<lparr>SourceKind = ''github'', RefScope = host, RefKind = kind, RefNamespace = owner, RefName = name, Attributes = []\<rparr>,
        FKind = FactChange, Observed = encoded, Display = [], ObservedAt = at, Source = host,
        FProvenance = \<lparr>Adapter = ''github'', ProtocolV = protocol, NativeID = native, DeepLink = [], Collector = []\<rparr>,
        FWorkspace = workspace, FStale = False, FStaleFor = []\<rparr>,
      gf_Lens = LensTimeline, gf_Entity = None\<rparr>"

definition emit_fact :: "string option \<Rightarrow> (string \<Rightarrow> GraphFact) \<Rightarrow> string \<Rightarrow> (github_error, GraphFact list) result" where
  "emit_fact encoding build workspace =
     (case encoding of
        None \<Rightarrow> Inl GhEncoding
      | Some encoded \<Rightarrow>
          if length encoded > gh_maxFactPayloadBytes then Inl GhFactTooLarge
          else (case GraphFact_Validate (build encoded) workspace of Inl e \<Rightarrow> Inl (GhFact e) | Inr _ \<Rightarrow> Inr [build encoded]))"

definition read_response :: "github_codec \<Rightarrow> (gvalue \<Rightarrow> (github_error, 'a) result) \<Rightarrow> string \<Rightarrow> (github_error, 'a) result" where
  "read_response codec dec response =
     (if \<not> gh_rejectDuplicateJSON codec response then Inl GhResponseMalformed
      else case gx_parse codec response of None \<Rightarrow> Inl GhResponseMalformed | Some document \<Rightarrow> dec document)"

definition event_time :: "github_codec \<Rightarrow> string option \<Rightarrow> Time \<Rightarrow> (github_error, Time) result" where
  "event_time codec stamp observedAt =
     (case stamp of
        None \<Rightarrow> Inl GhTimestamp
      | Some s \<Rightarrow>
          if s = [] then Inl GhTimestamp
          else case gx_time codec s of
            None \<Rightarrow> Inl GhTimestamp
          | Some at \<Rightarrow> if at = 0 then Inl GhTimestamp else if at > observedAt + gh_maxClockSkew then Inl GhClockSkew else Inr at)"

subsection \<open>Merged pull requests\<close>

definition validateResponseIdentity :: "pullResponse \<Rightarrow> int \<Rightarrow> (github_error, unit) result" where
  "validateResponseIdentity response number =
     (if pr_Number response \<noteq> Some number then Inl GhIdentity
      else if pr_State response \<noteq> Some ''open'' \<and> pr_State response \<noteq> Some ''closed'' then Inl GhState
      else if pr_Draft response = None then Inl GhDraft
      else if pr_Merged response = None then Inl GhMerged
      else Inr ())"

definition requiredCommitSHA :: "string \<Rightarrow> string option option \<Rightarrow> (github_error, string) result" where
  "requiredCommitSHA label commit =
     (case commit of
        Some (Some sha) \<Rightarrow> if validCommitSHA sha then Inr sha else Inl (GhCommit label)
      | _ \<Rightarrow> Inl (GhCommit label))"

definition mergedObservation :: "github_codec \<Rightarrow> pullResponse \<Rightarrow> Time \<Rightarrow> (github_error, changeObservation) result" where
  "mergedObservation codec response observedAt =
     (if pr_State response \<noteq> Some ''closed'' then Inl GhMergedNotClosed
      else if pr_Draft response = Some True then Inl GhMergedDraft
      else
        rbind (event_time codec (pr_MergedAt response) observedAt) (\<lambda>mergedAt.
        rbind (requiredCommitSHA ''head.sha'' (pr_Head response)) (\<lambda>headSHA.
        rbind (requiredCommitSHA ''base.sha'' (pr_Base response)) (\<lambda>baseSHA.
        case pr_MergeCommitSHA response of
          None \<Rightarrow> Inl (GhCommit ''merge_commit_sha'')
        | Some sha \<Rightarrow>
            if \<not> validCommitSHA sha then Inl (GhCommit ''merge_commit_sha'')
            else Inr \<lparr>co_PullNumber = the (pr_Number response), co_ChangeKind = ''pull-request-merged'', co_HeadSHA = headSHA,
              co_BaseSHA = baseSHA, co_MergeCommitSHA = sha, co_MergedAt = mergedAt\<rparr>))))"

definition merged_fact :: "github_Projection \<Rightarrow> changeObservation \<Rightarrow> string \<Rightarrow> GraphFact" where
  "merged_fact input observation encoded =
     github_fact (pj_Workspace input) (pj_Host input) ''PullRequest'' (pj_Owner input) (pullResourceName input) ''pulls/2026-03-10''
       (pj_Owner input @ ''/'' @ pullResourceName input @ ''@'' @ co_MergeCommitSHA observation) encoded (co_MergedAt observation)"

definition pull_response :: "unicode_case \<Rightarrow> github_codec \<Rightarrow> github_Projection \<Rightarrow> (github_error, pullResponse) result" where
  "pull_response u codec input =
     rbind (gh_validateProjection u input) (\<lambda>_.
     rbind (read_response codec pullResponse_UnmarshalJSON (pj_Response input)) (\<lambda>response.
     rbind (validateResponseIdentity response (pj_PullNumber input)) (\<lambda>_. Inr response)))"

definition ProjectMergedPullRequest ::
  "unicode_case \<Rightarrow> github_codec \<Rightarrow> github_Projection \<Rightarrow> (github_error, GraphFact list) result" where
  "ProjectMergedPullRequest u codec input =
     rbind (pull_response u codec input) (\<lambda>response.
     if pr_Merged response \<noteq> Some True then
       (if pr_MergedAt response \<noteq> None then Inl GhUnmergedWithTime else Inr [])
     else
       rbind (mergedObservation codec response (pj_ObservedAt input)) (\<lambda>observation.
       emit_fact (gx_pull codec observation) (merged_fact input observation) (pj_Workspace input)))"

subsection \<open>Failed workflow runs\<close>

definition validWorkflowRunRepositoryIdentity :: "unicode_case \<Rightarrow> string \<Rightarrow> string \<Rightarrow> string \<Rightarrow> bool" where
  "validWorkflowRunRepositoryIdentity u fullName owner repository =
     (case cut fullName ''/'' of
        None \<Rightarrow> False
      | Some (responseOwner, responseRepository) \<Rightarrow>
          \<not> (str_contains responseRepository ''/'' \<or> \<not> github_component responseOwner maxOwnerBytes \<or>
             \<not> github_component responseRepository maxRepositoryBytes \<or> has_suffix (to_lower u responseRepository) ''.git'') \<and>
          equal_fold u responseOwner owner \<and> equal_fold u responseRepository repository)"

definition run_statuses :: "string list" where
  "run_statuses = [''queued'', ''in_progress'', ''requested'', ''waiting'', ''pending'', ''completed'']"

definition failing_conclusions :: "string list" where
  "failing_conclusions = [''failure'', ''timed_out'', ''startup_failure'']"

definition other_conclusions :: "string list" where
  "other_conclusions = [''action_required'', ''cancelled'', ''neutral'', ''skipped'', ''stale'', ''success'']"

definition failedWorkflowRunObservation ::
  "unicode_case \<Rightarrow> github_codec \<Rightarrow> workflowRunResponse \<Rightarrow> WorkflowRunProjection \<Rightarrow> (github_error, githubWorkflowChangePayload option) result" where
  "failedWorkflowRunObservation u codec response input =
     (case (wr_ID response, wr_WorkflowID response, wr_RunAttempt response, wr_Repository response, wr_Status response) of
        (None, _) \<Rightarrow> Inl GhIdentity
      | (Some run, found, attempt, repository, status) \<Rightarrow>
      if run \<noteq> wp_RunID input then Inl GhIdentity
      else case found of
        Some workflow \<Rightarrow>
          if workflow \<le> 0 then Inl GhWorkflowID
          else (case attempt of
            None \<Rightarrow> Inl GhRunAttempt
          | Some n \<Rightarrow>
              if n \<le> 0 then Inl GhRunAttempt
              else (case repository of
                Some (Some fullName) \<Rightarrow>
                  if \<not> validWorkflowRunRepositoryIdentity u fullName (wp_Owner input) (wp_Repository input) then Inl GhForeignRepository
                  else (case status of
                    None \<Rightarrow> Inl GhStatus
                  | Some s \<Rightarrow>
                      if \<not> List.member run_statuses s then Inl GhStatus
                      else
                        rbind (event_time codec (wr_UpdatedAt response) (wp_ObservedAt input)) (\<lambda>eventAt.
                        if s \<noteq> ''completed'' then
                          (if wr_Conclusion response \<noteq> None then Inl GhConclusion else Inr None)
                        else case wr_Conclusion response of
                          None \<Rightarrow> Inl GhConclusion
                        | Some conclusion \<Rightarrow>
                            if List.member failing_conclusions conclusion then
                              Inr (Some \<lparr>gw_RunID = run, gw_WorkflowID = workflow, gw_RunAttempt = n,
                                gw_ChangeKind = ''workflow-run-failed'', gw_Conclusion = conclusion, gw_EventAt = eventAt\<rparr>)
                            else if List.member other_conclusions conclusion
                              then Inr None
                            else Inl GhConclusion))
              | _ \<Rightarrow> Inl GhForeignRepository))
      | _ \<Rightarrow> Inl GhWorkflowID)"

definition workflow_fact :: "WorkflowRunProjection \<Rightarrow> githubWorkflowChangePayload \<Rightarrow> string \<Rightarrow> GraphFact" where
  "workflow_fact input observation encoded =
     (let name = workflowRunResourceName (wp_Repository input) (wp_RunID input) (gw_RunAttempt observation) in
      github_fact (wp_Workspace input) (wp_Host input) ''WorkflowRun'' (wp_Owner input) name ''workflow-runs/2026-03-10''
        (wp_Owner input @ ''/'' @ name) encoded (gw_EventAt observation))"

definition workflow_response :: "unicode_case \<Rightarrow> github_codec \<Rightarrow> WorkflowRunProjection \<Rightarrow> (github_error, githubWorkflowChangePayload option) result" where
  "workflow_response u codec input =
     rbind (validateWorkflowRunProjection u input) (\<lambda>_.
     rbind (read_response codec workflowRunResponse_UnmarshalJSON (wp_Response input)) (\<lambda>response.
     failedWorkflowRunObservation u codec response input))"

definition ProjectFailedWorkflowRun ::
  "unicode_case \<Rightarrow> github_codec \<Rightarrow> WorkflowRunProjection \<Rightarrow> (github_error, GraphFact list) result" where
  "ProjectFailedWorkflowRun u codec input =
     rbind (workflow_response u codec input) (\<lambda>failed.
     case failed of
       None \<Rightarrow> Inr []
     | Some observation \<Rightarrow> emit_fact (gx_run codec observation) (workflow_fact input observation) (wp_Workspace input))"

end
