(* ===== verification/GitHub_Evidence_Correct.thy ===== *)
theory GitHub_Evidence_Correct
  imports GitHub_Evidence Brain_Graph_Correct
begin

text \<open>
  GitHub evidence end to end: exactly the failed runs and the merged pull requests become facts, and the investigation accepts the facts of
  failed runs.
\<close>

subsection \<open>Identities the reader accepts\<close>

lemma github_host_graph: "github_host u value \<Longrightarrow> validGitHubGraphHost u value"
  by (auto simp: github_host_def validGitHubGraphHost_def github_text_def maxHostBytes_def host_label_def [abs_def])

lemma github_component_graph: "github_component value maximum \<Longrightarrow> maximum \<le> 100 \<Longrightarrow> validGitHubGraphPathComponent value"
  by (auto simp: github_component_def validGitHubGraphPathComponent_def github_text_def)

lemma github_component_plain:
  assumes "github_component value maximum"
  shows "CHR ''#'' \<notin> set value"
  using assms ascii_byte_visited [of "CHR ''#''" "value"]
  by (fastforce simp: github_component_def list_all_iff byte_of_def dest: bspec)

lemma cut_at: "CHR ''#'' \<notin> set a \<Longrightarrow> cut (a @ ''#'' @ b) ''#'' = Some (a, b)"
  by (induction a) (auto simp: has_prefix_def)

lemma int_decimal_plain: "CHR ''#'' \<notin> set (int_decimal n)"
  using nat_decimal_no_char [of "CHR ''#''"] by (auto simp: int_decimal_def is_digit_def in_range_def byte_of_def)

lemma check_repository_Inr:
  assumes "check_repository u workspace host owner repository = Inr ()"
  shows "github_host u host" and "github_component owner 100" and "github_component repository 100"
    and "\<not> has_suffix (to_lower u repository) ''.git''"
  using assms by (auto simp: check_repository_def maxOwnerBytes_def maxRepositoryBytes_def split: if_splits)

subsection \<open>Failed runs\<close>

lemma event_time_Inr:
  "event_time codec stamp observedAt = Inr at \<longleftrightarrow>
     (\<exists>s. stamp = Some s \<and> s \<noteq> [] \<and> gx_time codec s = Some at \<and> at \<noteq> 0 \<and> at \<le> observedAt + 300 * 1000000000)"
  by (auto simp: event_time_def gh_maxClockSkew_def split: option.splits if_splits)

lemma failing_conclusions_set: "set failing_conclusions = {''failure'', ''timed_out'', ''startup_failure''}"
  by (simp add: failing_conclusions_def)

text \<open>A marshalled run is one JSON object with the six fields of the structure and decodes to the value it was made from.\<close>

definition run_codec_agrees :: "github_codec \<Rightarrow> graph_codec \<Rightarrow> bool" where
  "run_codec_agrees gx gc \<longleftrightarrow>
     (\<forall>p d. gx_run gx p = Some d \<longrightarrow> utf8_valid (gw_ChangeKind p) \<and> utf8_valid (gw_Conclusion p) \<longrightarrow>
        d \<noteq> [] \<and> rejectDuplicateGraphJSON gc d \<and> gc_github gc d = Some (p, TrailerEOF) \<and>
        (\<exists>members. gc_fields gc d = Some members \<and>
           set (gm_keys members) \<subseteq> {''run_id'', ''workflow_id'', ''run_attempt'', ''change_kind'', ''conclusion'', ''event_at''}))"

lemma decode_run:
  assumes "run_codec_agrees gx gc" and "gx_run gx p = Some d" and "utf8_valid (gw_ChangeKind p)" "utf8_valid (gw_Conclusion p)"
  shows "d \<noteq> []" and "decodeGitHubWorkflowChangePayload gc d = Inr p"
proof -
  obtain members where d: "d \<noteq> []" "rejectDuplicateGraphJSON gc d" "gc_github gc d = Some (p, TrailerEOF)"
    and m: "gc_fields gc d = Some members"
      "set (gm_keys members) \<subseteq> {''run_id'', ''workflow_id'', ''run_attempt'', ''change_kind'', ''conclusion'', ''event_at''}"
    using assms(1) [unfolded run_codec_agrees_def, rule_format, OF assms(2)] assms(3,4) by auto
  show "d \<noteq> []" by (rule d(1))
  have "check_fields [''run_id'', ''workflow_id'', ''run_attempt'', ''change_kind'', ''conclusion'', ''event_at''] members = Inr ()"
    using m(2) by (intro check_fields_ok) (simp only: list.set)
  with d m show "decodeGitHubWorkflowChangePayload gc d = Inr p"
    unfolding decodeGitHubWorkflowChangePayload_def check_trailer_def by simp
qed

lemma workflow_change_accepted:
  assumes "github_component repository 100" and "\<not> has_suffix (to_lower u repository) ''.git''" and "0 < gw_RunID p" and "0 < gw_WorkflowID p"
    and "0 < gw_RunAttempt p" and "gw_ChangeKind p = ''workflow-run-failed''" and "gw_Conclusion p \<in> {''failure'', ''timed_out'', ''startup_failure''}"
    and "gw_EventAt p \<noteq> 0" "wp_RunID input = gw_RunID p" "wp_Repository input = repository"
  shows "workflow_change u (workflow_fact input p d) p = Inr (Some (change_observation (workflow_fact input p d) ''workflow-run-failed''))"
proof -
  let ?g = "workflow_fact input p d" and ?identity = "int_decimal (gw_RunID p) @ ''-attempt-'' @ int_decimal (gw_RunAttempt p)"
  have name: "RefName (Ref (gf_Fact ?g)) = repository @ ''#'' @ ?identity" "ObservedAt (gf_Fact ?g) = gw_EventAt p"
    "NativeID (FProvenance (gf_Fact ?g)) = RefNamespace (Ref (gf_Fact ?g)) @ ''/'' @ RefName (Ref (gf_Fact ?g))"
    using assms(9,10) by (simp_all add: workflow_fact_def github_fact_def workflowRunResourceName_def Let_def)
  have "CHR ''#'' \<notin> set ?identity" using int_decimal_plain by simp
  then have rest: "\<not> str_contains ?identity ''#''" by (simp add: str_contains_char)
  have known: "List.member [''failure'', ''timed_out'', ''startup_failure''] (gw_Conclusion p)" using assms(7) by auto
  have "validGitHubGraphPathComponent repository" using github_component_graph assms(1) by blast
  then show ?thesis
    unfolding workflow_change_def Let_def name(1) cut_at [OF github_component_plain [OF assms(1)]]
    using assms(2-6,8) rest known name by simp
qed

lemma workflow_fact_read:
  assumes "github_host u (wp_Host input)" and "github_component (wp_Owner input) 100" and "d \<noteq> []" and "length d \<le> 4096"
    and "decodeGitHubWorkflowChangePayload gc d = Inr p" and "workflow_change u (workflow_fact input p d) p = Inr seen"
  shows "observationFromGraphFact u gc sha (workflow_fact input p d) = Inr seen"
  using assms github_host_graph github_component_graph [of "wp_Owner input" 100]
  by (simp add: observationFromGraphFact_def observationFromGitHubWorkflowGraphFact_def workflow_fact_def github_fact_def
      maxGitHubWorkflowChangePayload_def Let_def)

lemma emit_fact_Inr:
  "emit_fact encoding build workspace = Inr facts \<longleftrightarrow>
     (\<exists>d. encoding = Some d \<and> length d \<le> 4096 \<and> GraphFact_Validate (build d) workspace = Inr () \<and> facts = [build d])"
  by (auto simp: emit_fact_def gh_maxFactPayloadBytes_def split: option.splits sum.splits)

text \<open>A response about the queried run: what the connector requires of it before it looks at the conclusion.\<close>

lemma repository_identity:
  assumes "validWorkflowRunRepositoryIdentity u fullName owner repository"
  obtains o' r where "fullName = o' @ ''/'' @ r" "equal_fold u o' owner" "equal_fold u r repository"
  using assms by (auto simp: validWorkflowRunRepositoryIdentity_def dest!: cut_Some split: option.splits)

lemma failedWorkflowRunObservation_Inr:
  assumes "failedWorkflowRunObservation u codec response input = Inr failed"
  obtains fullName workflow n status at where "wr_ID response = Some (wp_RunID input)" "wr_Repository response = Some (Some fullName)"
    "validWorkflowRunRepositoryIdentity u fullName (wp_Owner input) (wp_Repository input)" "0 < workflow" "wr_RunAttempt response = Some n" "0 < n"
    "wr_Status response = Some status" "event_time codec (wr_UpdatedAt response) (wp_ObservedAt input) = Inr at"
    "failed = (if status = ''completed'' \<and> wr_Conclusion response \<in> Some ` set failing_conclusions
       then Some \<lparr>gw_RunID = wp_RunID input, gw_WorkflowID = workflow, gw_RunAttempt = n, gw_ChangeKind = ''workflow-run-failed'',
         gw_Conclusion = the (wr_Conclusion response), gw_EventAt = at\<rparr>
       else None)"
proof -
  note step = assms [unfolded failedWorkflowRunObservation_def]
  have run: "wr_ID response = Some (wp_RunID input)" using step by (cases "wr_ID response") (auto split: if_split_asm)
  obtain workflow where workflow: "wr_WorkflowID response = Some workflow" "0 < workflow"
    using step run by (cases "wr_WorkflowID response") (auto split: if_split_asm)
  obtain n where n: "wr_RunAttempt response = Some n" "0 < n"
    using step run workflow by (cases "wr_RunAttempt response") (auto split: if_split_asm)
  obtain fullName where name: "wr_Repository response = Some (Some fullName)"
      "validWorkflowRunRepositoryIdentity u fullName (wp_Owner input) (wp_Repository input)"
    using step run workflow n by (auto split: option.split_asm if_split_asm)
  obtain status where status: "wr_Status response = Some status"
    using step run workflow n name by (cases "wr_Status response") (auto split: if_split_asm)
  obtain at where at: "event_time codec (wr_UpdatedAt response) (wp_ObservedAt input) = Inr at"
    using step run workflow n name status by (auto simp: rbind_eq_Inr split: if_split_asm)
  show thesis
  proof (rule that [OF run name workflow(2) n status at])
    show "failed = (if status = ''completed'' \<and> wr_Conclusion response \<in> Some ` set failing_conclusions
       then Some \<lparr>gw_RunID = wp_RunID input, gw_WorkflowID = workflow, gw_RunAttempt = n, gw_ChangeKind = ''workflow-run-failed'',
         gw_Conclusion = the (wr_Conclusion response), gw_EventAt = at\<rparr>
       else None)"
      using step run workflow n name status at by (auto split: option.split_asm if_split_asm)
  qed
qed

lemma failed_run_read:
  assumes "run_codec_agrees gx gc" and "validateWorkflowRunProjection u input = Inr ()"
    and p: "gw_RunID p = wp_RunID input" "0 < gw_WorkflowID p" "0 < gw_RunAttempt p" "gw_ChangeKind p = ''workflow-run-failed''"
      "gw_Conclusion p \<in> set failing_conclusions" "gw_EventAt p \<noteq> 0"
    and "emit_fact (gx_run gx p) (workflow_fact input p) (wp_Workspace input) = Inr facts"
  shows "\<exists>d. facts = [workflow_fact input p d] \<and>
    observationFromGraphFact u gc sha (workflow_fact input p d) = Inr (Some (change_observation (workflow_fact input p d) ''workflow-run-failed''))"
proof -
  have req: "check_repository u (wp_Workspace input) (wp_Host input) (wp_Owner input) (wp_Repository input) = Inr ()" "0 < wp_RunID input"
    using assms(2) by (auto simp: validateWorkflowRunProjection_def rbind_eq_Inr split: if_splits)
  note repo = check_repository_Inr [OF req(1)]
  obtain d where d: "gx_run gx p = Some d" "length d \<le> 4096" "facts = [workflow_fact input p d]"
    using assms(9) by (auto simp: emit_fact_Inr)
  have "utf8_valid ''workflow-run-failed''" "utf8_valid ''failure''" "utf8_valid ''timed_out''" "utf8_valid ''startup_failure''"
    by code_simp+
  then have "utf8_valid (gw_ChangeKind p)" "utf8_valid (gw_Conclusion p)" using p(4,5) by (auto simp: failing_conclusions_set)
  note dec = decode_run [OF assms(1) d(1) this]
  have "0 < gw_RunID p" "wp_RunID input = gw_RunID p" using p(1) req(2) by simp_all
  note workflow_change_accepted [OF repo(3,4) this(1) p(2-4) p(5) [unfolded failing_conclusions_set] p(6) this(2) refl]
  from workflow_fact_read [OF repo(1,2) dec(1) d(2) dec(2) this] d(3) show ?thesis by blast
qed

text \<open>
  C36: connector and investigation agree on failed workflow runs. If both use the same JSON codec, a projection succeeds only on a response that
  names the queried run, and the queried owner and repository up to letter case, and that gives a positive attempt, a status and an update time not
  more than five minutes ahead of the observation. It yields a fact if and only if the status is completed and the
  conclusion is failure, timed_out or startup_failure, and then exactly one, which the investigation reads as one
  observation of a failed run of that repository, run and attempt, at the time GitHub reports.
\<close>
theorem failed_runs_observed:
  assumes "run_codec_agrees gx gc" and "ProjectFailedWorkflowRun u gx input = Inr facts"
  shows "\<exists>response owner repository attempt status stamp at.
    read_response gx workflowRunResponse_UnmarshalJSON (wp_Response input) = Inr response \<and>
    wr_ID response = Some (wp_RunID input) \<and> wr_Repository response = Some (Some (owner @ ''/'' @ repository)) \<and>
    equal_fold u owner (wp_Owner input) \<and> equal_fold u repository (wp_Repository input) \<and>
    wr_RunAttempt response = Some attempt \<and> 0 < attempt \<and> wr_Status response = Some status \<and>
    wr_UpdatedAt response = Some stamp \<and> gx_time gx stamp = Some at \<and> at \<noteq> 0 \<and> at \<le> wp_ObservedAt input + 300 * 1000000000 \<and>
    map (observationFromGraphFact u gc sha) facts =
      (if status = ''completed'' \<and> wr_Conclusion response \<in> {Some ''failure'', Some ''timed_out'', Some ''startup_failure''}
       then [Inr (Some \<lparr>ob_Ref = \<lparr>SourceKind = ''github'', RefScope = wp_Host input, RefKind = ''WorkflowRun'', RefNamespace = wp_Owner input,
               RefName = workflowRunResourceName (wp_Repository input) (wp_RunID input) attempt, Attributes = []\<rparr>,
             ob_Lens = LensTimeline, ob_Key = ''change.kind'', ob_Value = ''workflow-run-failed'', ob_ObservedAt = at,
             ob_Source = wp_Host input, ob_Stale = False\<rparr>)]
       else [])"
proof -
  obtain response failed where valid: "validateWorkflowRunProjection u input = Inr ()"
    and response: "read_response gx workflowRunResponse_UnmarshalJSON (wp_Response input) = Inr response"
    and failed: "failedWorkflowRunObservation u gx response input = Inr failed"
    and facts: "(case failed of None \<Rightarrow> Inr [] | Some p \<Rightarrow> emit_fact (gx_run gx p) (workflow_fact input p) (wp_Workspace input)) = Inr facts"
    using assms(2) by (auto simp: ProjectFailedWorkflowRun_def workflow_response_def rbind_eq_Inr)
  obtain fullName workflow n status at where r: "wr_ID response = Some (wp_RunID input)" "wr_Repository response = Some (Some fullName)"
    "validWorkflowRunRepositoryIdentity u fullName (wp_Owner input) (wp_Repository input)" "0 < workflow" "wr_RunAttempt response = Some n" "0 < n"
    "wr_Status response = Some status" "event_time gx (wr_UpdatedAt response) (wp_ObservedAt input) = Inr at"
    and split: "failed = (if status = ''completed'' \<and> wr_Conclusion response \<in> Some ` set failing_conclusions
       then Some \<lparr>gw_RunID = wp_RunID input, gw_WorkflowID = workflow, gw_RunAttempt = n, gw_ChangeKind = ''workflow-run-failed'',
         gw_Conclusion = the (wr_Conclusion response), gw_EventAt = at\<rparr>
       else None)" by (rule failedWorkflowRunObservation_Inr [OF failed])
  obtain owner repository where name: "fullName = owner @ ''/'' @ repository" "equal_fold u owner (wp_Owner input)"
    "equal_fold u repository (wp_Repository input)" by (rule repository_identity [OF r(3)])
  obtain stamp where stamp: "wr_UpdatedAt response = Some stamp" "gx_time gx stamp = Some at" "at \<noteq> 0"
    "at \<le> wp_ObservedAt input + 300 * 1000000000" using r(8) by (auto simp: event_time_Inr)
  have concl: "Some ` set failing_conclusions = {Some ''failure'', Some ''timed_out'', Some ''startup_failure''}"
    by (simp add: failing_conclusions_set)
  have "map (observationFromGraphFact u gc sha) facts =
      (if status = ''completed'' \<and> wr_Conclusion response \<in> {Some ''failure'', Some ''timed_out'', Some ''startup_failure''}
       then [Inr (Some \<lparr>ob_Ref = \<lparr>SourceKind = ''github'', RefScope = wp_Host input, RefKind = ''WorkflowRun'', RefNamespace = wp_Owner input,
               RefName = workflowRunResourceName (wp_Repository input) (wp_RunID input) n, Attributes = []\<rparr>,
             ob_Lens = LensTimeline, ob_Key = ''change.kind'', ob_Value = ''workflow-run-failed'', ob_ObservedAt = at,
             ob_Source = wp_Host input, ob_Stale = False\<rparr>)]
       else [])" (is "_ = (if ?failed then _ else _)")
  proof (cases ?failed)
    case True
    let ?p = "\<lparr>gw_RunID = wp_RunID input, gw_WorkflowID = workflow, gw_RunAttempt = n, gw_ChangeKind = ''workflow-run-failed'',
      gw_Conclusion = the (wr_Conclusion response), gw_EventAt = at\<rparr>"
    have "the (wr_Conclusion response) \<in> set failing_conclusions" using True by (auto simp: failing_conclusions_set)
    moreover have "emit_fact (gx_run gx ?p) (workflow_fact input ?p) (wp_Workspace input) = Inr facts"
      using facts unfolding split concl if_P [OF True] option.case .
    ultimately obtain d where "facts = [workflow_fact input ?p d]" "observationFromGraphFact u gc sha (workflow_fact input ?p d) =
        Inr (Some (change_observation (workflow_fact input ?p d) ''workflow-run-failed''))"
      using failed_run_read [OF assms(1) valid, of ?p facts sha] r(4,6) stamp(3) by auto
    then show ?thesis unfolding if_P [OF True] by (simp add: change_observation_def workflow_fact_def github_fact_def Let_def)
  next
    case False
    have "facts = []" using facts unfolding split concl if_not_P [OF False] option.case by simp
    then show ?thesis unfolding if_not_P [OF False] by simp
  qed
  with response r(1,2,5-7) name stamp show ?thesis by blast
qed

subsection \<open>Merged pull requests\<close>

lemma requiredCommitSHA_Inr: "requiredCommitSHA label commit = Inr sha \<longleftrightarrow> commit = Some (Some sha) \<and> validCommitSHA sha"
  by (auto simp: requiredCommitSHA_def split: option.splits if_splits)

lemma validateResponseIdentity_Inr:
  "validateResponseIdentity response number = Inr () \<longleftrightarrow>
     pr_Number response = Some number \<and> pr_State response \<in> {Some ''open'', Some ''closed''} \<and> pr_Draft response \<noteq> None \<and> pr_Merged response \<noteq> None"
  by (auto simp: validateResponseIdentity_def)

lemma mergedObservation_Inr:
  "mergedObservation codec response observedAt = Inr x \<longleftrightarrow>
     (\<exists>at headSHA baseSHA mergeSHA. pr_State response = Some ''closed'' \<and> pr_Draft response \<noteq> Some True \<and>
        event_time codec (pr_MergedAt response) observedAt = Inr at \<and>
        pr_Head response = Some (Some headSHA) \<and> pr_Base response = Some (Some baseSHA) \<and> pr_MergeCommitSHA response = Some mergeSHA \<and>
        validCommitSHA headSHA \<and> validCommitSHA baseSHA \<and> validCommitSHA mergeSHA \<and>
        x = \<lparr>co_PullNumber = the (pr_Number response), co_ChangeKind = ''pull-request-merged'', co_HeadSHA = headSHA, co_BaseSHA = baseSHA,
          co_MergeCommitSHA = mergeSHA, co_MergedAt = at\<rparr>)"
  by (auto simp: mergedObservation_def rbind_eq_Inr requiredCommitSHA_Inr split: option.split)

lemma pull_response_Inr:
  "pull_response u codec input = Inr response \<longleftrightarrow>
     gh_validateProjection u input = Inr () \<and> read_response codec pullResponse_UnmarshalJSON (pj_Response input) = Inr response \<and>
     validateResponseIdentity response (pj_PullNumber input) = Inr ()"
  by (auto simp: pull_response_def rbind_eq_Inr)

lemma pull_branch:
  assumes "pr_Merged response \<noteq> None"
  shows "(if pr_Merged response \<noteq> Some True then (if pr_MergedAt response \<noteq> None then Inl GhUnmergedWithTime else Inr [])
      else rbind (mergedObservation codec response observedAt) emit) = Inr facts \<longleftrightarrow>
    pr_Merged response = Some False \<and> pr_MergedAt response = None \<and> facts = [] \<or>
    pr_Merged response = Some True \<and> (\<exists>x. mergedObservation codec response observedAt = Inr x \<and> emit x = Inr facts)"
  using assms by (auto simp: rbind_eq_Inr)

text \<open>
  Only merged pull requests become merge evidence. A projection of a pull request succeeds if and only if the request and the response are valid
  and the response either is of an unmerged pull request without a merge time, which gives no fact, or of a closed, merged, non-draft one with a
  merge time not more than five minutes ahead of the observation and three full commit names. The one fact is then
  about that pull request, at the merge time, and its native identity names the merge commit.
\<close>
theorem ProjectMergedPullRequest_exact:
  "ProjectMergedPullRequest u codec input = Inr facts \<longleftrightarrow>
     (\<exists>response. gh_validateProjection u input = Inr () \<and>
        read_response codec pullResponse_UnmarshalJSON (pj_Response input) = Inr response \<and>
        pr_Number response = Some (pj_PullNumber input) \<and> pr_State response \<in> {Some ''open'', Some ''closed''} \<and> pr_Draft response \<noteq> None \<and>
        (pr_Merged response = Some False \<and> pr_MergedAt response = None \<and> facts = [] \<or>
         (\<exists>stamp at headSHA baseSHA mergeSHA d. pr_Merged response = Some True \<and> pr_State response = Some ''closed'' \<and> pr_Draft response = Some False \<and>
            pr_MergedAt response = Some stamp \<and> stamp \<noteq> [] \<and> gx_time codec stamp = Some at \<and> at \<noteq> 0 \<and>
            at \<le> pj_ObservedAt input + 300 * 1000000000 \<and>
            pr_Head response = Some (Some headSHA) \<and> pr_Base response = Some (Some baseSHA) \<and> pr_MergeCommitSHA response = Some mergeSHA \<and>
            validCommitSHA headSHA \<and> validCommitSHA baseSHA \<and> validCommitSHA mergeSHA \<and>
            gx_pull codec \<lparr>co_PullNumber = pj_PullNumber input, co_ChangeKind = ''pull-request-merged'', co_HeadSHA = headSHA, co_BaseSHA = baseSHA,
              co_MergeCommitSHA = mergeSHA, co_MergedAt = at\<rparr> = Some d \<and> length d \<le> 4096 \<and>
            (let g = github_fact (pj_Workspace input) (pj_Host input) ''PullRequest'' (pj_Owner input) (pullResourceName input) ''pulls/2026-03-10''
               (pj_Owner input @ ''/'' @ pullResourceName input @ ''@'' @ mergeSHA) d at
             in GraphFact_Validate g (pj_Workspace input) = Inr () \<and> facts = [g]))))"
  (is "?L \<longleftrightarrow> (\<exists>response. ?common response \<and> ?cases response)")
proof -
  have "?L \<longleftrightarrow> (\<exists>response. pull_response u codec input = Inr response \<and>
      (pr_Merged response = Some False \<and> pr_MergedAt response = None \<and> facts = [] \<or>
       pr_Merged response = Some True \<and> (\<exists>x. mergedObservation codec response (pj_ObservedAt input) = Inr x \<and>
         emit_fact (gx_pull codec x) (merged_fact input x) (pj_Workspace input) = Inr facts)))"
    unfolding ProjectMergedPullRequest_def rbind_eq_Inr [of "pull_response u codec input"]
    by (intro ex_cong1 conj_cong refl pull_branch) (simp add: pull_response_Inr validateResponseIdentity_Inr)
  also have "\<dots> \<longleftrightarrow> (\<exists>response. ?common response \<and> ?cases response)"
    unfolding pull_response_Inr validateResponseIdentity_Inr mergedObservation_Inr event_time_Inr emit_fact_Inr merged_fact_def Let_def
    by (rule ex_cong1) auto
  finally show ?thesis .
qed

subsection \<open>Witness\<close>

definition sample_run_query :: WorkflowRunProjection where
  "sample_run_query = \<lparr>wp_Workspace = ''payments'', wp_Host = ''github.com'', wp_Owner = ''acme'', wp_Repository = ''deploy'', wp_RunID = 71,
     wp_ObservedAt = 2000, wp_Response = ''run''\<rparr>"

definition sample_failed_run :: githubWorkflowChangePayload where
  "sample_failed_run = \<lparr>gw_RunID = 71, gw_WorkflowID = 5, gw_RunAttempt = 2, gw_ChangeKind = ''workflow-run-failed'', gw_Conclusion = ''timed_out'',
     gw_EventAt = 1500\<rparr>"

definition sample_github_codec :: github_codec where
  "sample_github_codec = \<lparr>gx_tokens = (\<lambda>d. ([obj_open, obj_close], True)),
     gx_parse = (\<lambda>d. Some (VObj [(''id'', VNumber ''71''), (''workflow_id'', VNumber ''5''), (''run_attempt'', VNumber ''2''),
       (''status'', VString ''completed''), (''conclusion'', VString ''timed_out''), (''updated_at'', VString ''at''),
       (''repository'', VObj [(''full_name'', VString ''acme/deploy'')])])),
     gx_time = (\<lambda>s. Some 1500), gx_pull = (\<lambda>x. None), gx_run = (\<lambda>p. if p = sample_failed_run then Some ''payload'' else None)\<rparr>"

definition sample_run_reader :: graph_codec where
  "sample_run_reader = sample_graph_codec\<lparr>gc_github := (\<lambda>d. Some (sample_failed_run, TrailerEOF))\<rparr>"

lemma sample_run_codecs_agree: "run_codec_agrees sample_github_codec sample_run_reader"
proof -
  have "rejectDuplicateGraphJSON sample_run_reader ''payload''" by code_simp
  then show ?thesis
    by (auto simp: run_codec_agrees_def sample_github_codec_def sample_run_reader_def sample_graph_codec_def split: if_splits)
qed

theorem failed_runs_observed_witness:
  "\<exists>facts x. ProjectFailedWorkflowRun ascii_case sample_github_codec sample_run_query = Inr facts \<and>
     map (observationFromGraphFact ascii_case sample_run_reader (\<lambda>s. s)) facts = [Inr (Some x)] \<and> ob_Value x = ''workflow-run-failed'' \<and>
     ob_ObservedAt x = 1500"
proof -
  have run: "is_ok (ProjectFailedWorkflowRun ascii_case sample_github_codec sample_run_query)"
    "map_sum id (\<lambda>r. (wr_Status r, wr_Conclusion r)) (read_response sample_github_codec workflowRunResponse_UnmarshalJSON (wp_Response sample_run_query)) =
       Inr (Some ''completed'', Some ''timed_out'')" by code_simp+
  have time: "gx_time sample_github_codec stamp = Some at \<longleftrightarrow> at = 1500" for stamp at by (auto simp: sample_github_codec_def)
  from run(1) obtain facts where facts: "ProjectFailedWorkflowRun ascii_case sample_github_codec sample_run_query = Inr facts" by (auto simp: is_ok_iff)
  from failed_runs_observed [OF sample_run_codecs_agree this, of "\<lambda>s. s"] run(2) facts show ?thesis by (auto simp: time)
qed

end
