(* ===== verification/Connector_ArgoCD.thy ===== *)
theory Connector_ArgoCD
  imports Brain_Graph
begin

text \<open>
  The Argo CD connector (\<open>connector/argocd/project.go\<close>): one Application becomes at most 36 facts on its desired state, health, drift and
  changes. An Application is what the accessors of the Kubernetes library return for it and its content; a field
  that is present with the value nil is \<open>VNull\<close>, an integer is \<open>VInt\<close>, a \<open>json.Number\<close> is \<open>VNumber\<close>, and numbers with a fraction
  (\<open>float64\<close>) are not among the values. The parsers of API versions, URLs and time stamps, the formatter \<open>fmt\<close> of time stamps, the encoder
  of payloads and the order in which Go walks the map of changes are parameters.
\<close>

subsection \<open>Fields\<close>

definition maxApplicationSources :: nat where "maxApplicationSources = 16"
definition maxApplicationHistory :: nat where "maxApplicationHistory = 32"
definition maxApplicationFacts :: nat where "maxApplicationFacts = 3 + maxApplicationHistory + 1"
definition ag_maxFactPayloadBytes :: nat where "ag_maxFactPayloadBytes = 16 * 1024"
definition maxTextBytes :: nat where "maxTextBytes = 2 * 1024"
definition maxRevisionBytes :: nat where "maxRevisionBytes = 512"

record Application =
  aa_APIVersion :: string
  aa_Kind :: string
  aa_Name :: string
  aa_Namespace :: string
  aa_Object :: "(string, gvalue) gomap"

record argo_Projection =
  ai_Workspace :: string
  ai_Scope :: string
  ai_ObservedAt :: Time
  ai_Application :: Application

record applicationSource =
  as_Repository :: string
  as_Path :: string
  as_Chart :: string
  as_TargetRevision :: string

record applicationTarget =
  at_Name :: string
  at_Server :: string
  at_Namespace :: string

record desiredObservation =
  do_Project :: string
  do_Sources :: "applicationSource list"
  do_Destination :: applicationTarget

record driftObservation =
  dr_SyncStatus :: string
  dr_Revision :: string
  dr_Drifted :: "bool option"

record projectedChange =
  ch_observation :: argoChangePayload
  ch_nativeID :: string

datatype argo_payload =
    DesiredPayload desiredObservation
  | HealthPayload string
  | DriftPayload driftObservation
  | ChangePayload argoChangePayload

text \<open>What \<open>url.Parse\<close> returns; \<open>pu_rest\<close> stands for the parts the code leaves alone.\<close>

record parsed_url =
  pu_Scheme :: string
  pu_User :: "string option"
  pu_Host :: string
  pu_RawQuery :: string
  pu_ForceQuery :: bool
  pu_Fragment :: string
  pu_rest :: string

record argo_codec =
  ax_groupVersion :: "string \<Rightarrow> (string \<times> string) option"
  ax_url :: "string \<Rightarrow> parsed_url option"
  ax_urlString :: "parsed_url \<Rightarrow> string"
  ax_time :: "string \<Rightarrow> Time option"
  ax_marshal :: "argo_payload \<Rightarrow> string option"

datatype argo_error =
    AgText string
  | AgObservationTime
  | AgNotApplication
  | AgNotObject string
  | AgNotArray string
  | AgNotString string
  | AgNotTime string
  | AgNotInteger string
  | AgURLRequired string
  | AgURL
  | AgURLScheme
  | AgSourcesExclusive
  | AgTooManySources
  | AgSource nat argo_error
  | AgDestinationExclusive
  | AgUnsupported string
  | AgHistoryEntry nat argo_error
  | AgEncoding
  | AgFactTooLarge
  | AgFact graph_error
  | AgTooManyFacts

definition ag_validateText :: "string \<Rightarrow> string \<Rightarrow> nat \<Rightarrow> (argo_error, unit) result" where
  "ag_validateText label value maximum =
     (if value = [] \<or> trim_space value \<noteq> value \<or> length value > maximum \<or> contains_any value [NUL, CHR 0x0D, CHR 0x0A]
      then Inl (AgText label) else Inr ())"

text \<open>An absent field and a nil one are the same; \<open>optionalObjectMap\<close> returns nil where \<open>optionalMap\<close> reports absence.\<close>

definition optionalMap :: "(string, gvalue) gomap \<Rightarrow> string \<Rightarrow> (argo_error, (string, gvalue) gomap option) result" where
  "optionalMap object key =
     (case map_of object key of
        None \<Rightarrow> Inr None
      | Some VNull \<Rightarrow> Inr None
      | Some (VObj ms) \<Rightarrow> Inr (Some ms)
      | Some _ \<Rightarrow> Inl (AgNotObject key))"

definition optionalSlice :: "(string, gvalue) gomap \<Rightarrow> string \<Rightarrow> (argo_error, gvalue list option) result" where
  "optionalSlice object key =
     (case map_of object key of
        None \<Rightarrow> Inr None
      | Some VNull \<Rightarrow> Inr None
      | Some (VArr vs) \<Rightarrow> Inr (Some vs)
      | Some _ \<Rightarrow> Inl (AgNotArray key))"

definition optionalText :: "(string, gvalue) gomap \<Rightarrow> string \<Rightarrow> nat \<Rightarrow> (argo_error, string) result" where
  "optionalText object key maximum =
     (case map_of object key of
        None \<Rightarrow> Inr []
      | Some VNull \<Rightarrow> Inr []
      | Some (VString s) \<Rightarrow> if s = [] then Inr [] else rbind (ag_validateText key s maximum) (\<lambda>_. Inr s)
      | Some _ \<Rightarrow> Inl (AgNotString key))"

definition optionalTime :: "argo_codec \<Rightarrow> (string, gvalue) gomap \<Rightarrow> string \<Rightarrow> (argo_error, Time option) result" where
  "optionalTime codec object key =
     rbind (optionalText object key 64) (\<lambda>value.
     if value = [] then Inr None
     else case ax_time codec value of None \<Rightarrow> Inl (AgNotTime key) | Some at \<Rightarrow> Inr (Some at))"

definition optionalScalarID :: "(string, gvalue) gomap \<Rightarrow> string \<Rightarrow> (argo_error, string) result" where
  "optionalScalarID object key =
     rbind (case map_of object key of
              None \<Rightarrow> Inr []
            | Some VNull \<Rightarrow> Inr []
            | Some (VString s) \<Rightarrow> Inr s
            | Some (VInt n) \<Rightarrow> Inr (int_decimal n)
            | Some (VNumber s) \<Rightarrow> if parse_int64 s = None then Inl (AgNotInteger key) else Inr s
            | Some _ \<Rightarrow> Inl (AgNotInteger key)) (\<lambda>value.
     if value = [] then Inr [] else rbind (ag_validateText key value 128) (\<lambda>_. Inr value))"

subsection \<open>URLs\<close>

definition sanitizeAbsoluteURL :: "unicode_case \<Rightarrow> argo_codec \<Rightarrow> string \<Rightarrow> string list \<Rightarrow> (argo_error, string) result" where
  "sanitizeAbsoluteURL u codec value allowedSchemes =
     rbind (ag_validateText ''URL'' value maxTextBytes) (\<lambda>_.
     case ax_url codec value of
       None \<Rightarrow> Inl AgURL
     | Some parsed \<Rightarrow>
         if pu_Scheme parsed = [] \<or> pu_Host parsed = [] then Inl AgURL
         else if \<not> List.member allowedSchemes (to_lower u (pu_Scheme parsed)) then Inl AgURLScheme
         else Inr (ax_urlString codec (parsed\<lparr>pu_User := None, pu_RawQuery := [], pu_ForceQuery := False, pu_Fragment := []\<rparr>)))"

definition after_last :: "char \<Rightarrow> string \<Rightarrow> string" where
  "after_last c value = rev (takeWhile (\<lambda>d. d \<noteq> c) (rev value))"

definition sanitizeRepositoryURL :: "unicode_case \<Rightarrow> argo_codec \<Rightarrow> string \<Rightarrow> (argo_error, string) result" where
  "sanitizeRepositoryURL u codec value =
     rbind (ag_validateText ''URL'' value maxTextBytes) (\<lambda>_.
     if str_contains value ''://'' then sanitizeAbsoluteURL u codec value [''git'', ''http'', ''https'', ''oci'', ''ssh'']
     else if contains_any value ''?#'' then Inl AgURL
     else
       rbind (if CHR ''@'' \<in> set value then
                (let remainder = after_last CHR ''@'' value in
                 if \<not> str_contains remainder '':'' then Inl AgURL else Inr remainder)
              else Inr value) (\<lambda>stripped.
       let host = takeWhile (\<lambda>c. c \<noteq> CHR '':'' \<and> c \<noteq> CHR ''/'') stripped in
       if host = [] \<or> host = ''.'' \<or> host = ''..'' \<or> contains_any stripped [CHR 0x5C, CHR '' ''] then Inl AgURL
       else Inr stripped))"

definition requiredSanitizedURL :: "unicode_case \<Rightarrow> argo_codec \<Rightarrow> (string, gvalue) gomap \<Rightarrow> string \<Rightarrow> (argo_error, string) result" where
  "requiredSanitizedURL u codec object key =
     rbind (optionalText object key maxTextBytes) (\<lambda>value.
     if value = [] then Inl (AgURLRequired key) else sanitizeRepositoryURL u codec value)"

subsection \<open>Projections\<close>

definition project_source :: "unicode_case \<Rightarrow> argo_codec \<Rightarrow> gvalue \<Rightarrow> (argo_error, applicationSource) result" where
  "project_source u codec raw =
     (case raw of
        VObj source \<Rightarrow>
          rbind (requiredSanitizedURL u codec source ''repoURL'') (\<lambda>repository.
          rbind (optionalText source ''path'' maxTextBytes) (\<lambda>path.
          rbind (optionalText source ''chart'' maxTextBytes) (\<lambda>chart.
          rbind (optionalText source ''targetRevision'' maxRevisionBytes) (\<lambda>revision.
          Inr \<lparr>as_Repository = repository, as_Path = path, as_Chart = chart, as_TargetRevision = revision\<rparr>))))
      | _ \<Rightarrow> Inl (AgNotObject ''source''))"

definition projectSources :: "unicode_case \<Rightarrow> argo_codec \<Rightarrow> (string, gvalue) gomap \<Rightarrow> (argo_error, applicationSource list) result" where
  "projectSources u codec spec =
     rbind (optionalMap spec ''source'') (\<lambda>single.
     rbind (optionalSlice spec ''sources'') (\<lambda>multiple.
     let listed = (case multiple of None \<Rightarrow> [] | Some vs \<Rightarrow> vs) in
     if single \<noteq> None \<and> listed \<noteq> [] then Inl AgSourcesExclusive
     else let sources = (case single of None \<Rightarrow> listed | Some ms \<Rightarrow> [VObj ms]) in
       if length sources > maxApplicationSources then Inl AgTooManySources
       else rmap (\<lambda>(index, raw). case project_source u codec raw of Inl e \<Rightarrow> Inl (AgSource index e) | Inr s \<Rightarrow> Inr s)
              (zip [0..<length sources] sources)))"

definition noTarget :: applicationTarget where
  "noTarget = \<lparr>at_Name = [], at_Server = [], at_Namespace = []\<rparr>"

definition projectDestination :: "unicode_case \<Rightarrow> argo_codec \<Rightarrow> (string, gvalue) gomap \<Rightarrow> (argo_error, applicationTarget) result" where
  "projectDestination u codec spec =
     rbind (optionalMap spec ''destination'') (\<lambda>found.
     case found of
       None \<Rightarrow> Inr noTarget
     | Some destination \<Rightarrow>
         rbind (optionalText destination ''name'' 253) (\<lambda>name.
         rbind (optionalText destination ''server'' maxTextBytes) (\<lambda>server.
         if name \<noteq> [] \<and> server \<noteq> [] then Inl AgDestinationExclusive
         else
           rbind (if server = [] then Inr [] else sanitizeAbsoluteURL u codec server [''http'', ''https'']) (\<lambda>sanitized.
           rbind (optionalText destination ''namespace'' 253) (\<lambda>namespace.
           Inr \<lparr>at_Name = name, at_Server = sanitized, at_Namespace = namespace\<rparr>)))))"

definition projectDesired :: "unicode_case \<Rightarrow> argo_codec \<Rightarrow> (string, gvalue) gomap \<Rightarrow> (argo_error, desiredObservation option) result" where
  "projectDesired u codec object =
     rbind (optionalMap object ''spec'') (\<lambda>found.
     case found of
       None \<Rightarrow> Inr None
     | Some spec \<Rightarrow>
         rbind (optionalText spec ''project'' 253) (\<lambda>project.
         rbind (projectDestination u codec spec) (\<lambda>destination.
         rbind (projectSources u codec spec) (\<lambda>sources.
         Inr (if project \<noteq> [] \<or> sources \<noteq> [] \<or> destination \<noteq> noTarget
              then Some \<lparr>do_Project = project, do_Sources = sources, do_Destination = destination\<rparr> else None)))))"

definition projectHealth :: "(string, gvalue) gomap \<Rightarrow> (argo_error, string option) result" where
  "projectHealth status =
     rbind (optionalMap status ''health'') (\<lambda>found.
     case found of
       None \<Rightarrow> Inr None
     | Some health \<Rightarrow>
         rbind (optionalText health ''status'' 64) (\<lambda>value.
         if value = [] then Inr None
         else if List.member [''Healthy'', ''Progressing'', ''Degraded'', ''Suspended'', ''Missing'', ''Unknown''] value then Inr (Some value)
         else Inl (AgUnsupported ''health'')))"

definition projectDrift :: "(string, gvalue) gomap \<Rightarrow> (argo_error, driftObservation option) result" where
  "projectDrift status =
     rbind (optionalMap status ''sync'') (\<lambda>found.
     case found of
       None \<Rightarrow> Inr None
     | Some syncStatus \<Rightarrow>
         rbind (optionalText syncStatus ''status'' 64) (\<lambda>value.
         if value = [] then Inr None
         else rbind (optionalText syncStatus ''revision'' maxRevisionBytes) (\<lambda>revision.
           let result = (\<lambda>drifted. Inr (Some \<lparr>dr_SyncStatus = value, dr_Revision = revision, dr_Drifted = drifted\<rparr>)) in
           if value = ''Synced'' then result (Some False)
           else if value = ''OutOfSync'' then result (Some True)
           else if value = ''Unknown'' then result None
           else Inl (AgUnsupported ''sync''))))"

subsection \<open>Changes\<close>

definition stableChangeID :: "(Time \<Rightarrow> string) \<Rightarrow> string \<Rightarrow> string \<Rightarrow> Time \<Rightarrow> string" where
  "stableChangeID fmt part revision at = join [part, revision, fmt at] ''/''"

definition operation_kind :: "string \<Rightarrow> (argo_error, string) result" where
  "operation_kind phase =
     (if phase = ''Succeeded'' then Inr ''argocd-sync''
      else if phase = ''Failed'' \<or> phase = ''Error'' then Inr ''sync-failed''
      else if phase = ''Running'' \<or> phase = ''Terminating'' then Inr ''argocd-sync''
      else Inl (AgUnsupported ''phase''))"

definition projectOperation ::
  "argo_codec \<Rightarrow> (Time \<Rightarrow> string) \<Rightarrow> (string, gvalue) gomap \<Rightarrow> (argo_error, projectedChange option) result" where
  "projectOperation codec fmt operation =
     rbind (optionalText operation ''phase'' 64) (\<lambda>phase.
     if phase = [] then Inr None
     else
       rbind (operation_kind phase) (\<lambda>changeKind.
       rbind (optionalTime codec operation ''finishedAt'') (\<lambda>finished.
       rbind (if finished = None then optionalTime codec operation ''startedAt'' else Inr finished) (\<lambda>found.
       case found of
         None \<Rightarrow> Inr None
       | Some at \<Rightarrow>
           rbind (optionalMap operation ''syncResult'') (\<lambda>syncResult.
           rbind (case syncResult of None \<Rightarrow> Inr [] | Some r \<Rightarrow> optionalText r ''revision'' maxRevisionBytes) (\<lambda>revision.
           Inr (Some \<lparr>ch_observation = \<lparr>ac_ChangeKind = changeKind, ac_Revision = revision, ac_Phase = phase, ac_EventAt = at,
                  ac_HistoryID = [], ac_HistoryTruncated = False\<rparr>,
                ch_nativeID = ''operation/'' @ stableChangeID fmt phase revision at\<rparr>)))))))"

definition history_entry ::
  "argo_codec \<Rightarrow> (Time \<Rightarrow> string) \<Rightarrow> bool \<Rightarrow> gvalue \<Rightarrow> (argo_error, projectedChange option) result" where
  "history_entry codec fmt pending raw =
     (case raw of
        VObj entry \<Rightarrow>
          rbind (optionalTime codec entry ''deployedAt'') (\<lambda>found.
          case found of
            None \<Rightarrow> Inr None
          | Some at \<Rightarrow>
              rbind (optionalText entry ''revision'' maxRevisionBytes) (\<lambda>revision.
              rbind (optionalScalarID entry ''id'') (\<lambda>historyID.
              Inr (Some \<lparr>ch_observation = \<lparr>ac_ChangeKind = ''argocd-sync'', ac_Revision = revision, ac_Phase = [], ac_EventAt = at,
                     ac_HistoryID = historyID, ac_HistoryTruncated = pending\<rparr>,
                   ch_nativeID = ''history/'' @ stableChangeID fmt historyID revision at\<rparr>))))
      | _ \<Rightarrow> Inl (AgNotObject ''history''))"

fun history_changes ::
  "argo_codec \<Rightarrow> (Time \<Rightarrow> string) \<Rightarrow> nat \<Rightarrow> bool \<Rightarrow> gvalue list \<Rightarrow> (argo_error, projectedChange list) result" where
  "history_changes codec fmt index pending [] = Inr []"
| "history_changes codec fmt index pending (raw # history) =
     (case history_entry codec fmt pending raw of
        Inl e \<Rightarrow> Inl (AgHistoryEntry index e)
      | Inr None \<Rightarrow> history_changes codec fmt (Suc index) pending history
      | Inr (Some change) \<Rightarrow> rbind (history_changes codec fmt (Suc index) False history) (\<lambda>changes. Inr (change # changes)))"

definition change_key :: "(Time \<Rightarrow> string) \<Rightarrow> projectedChange \<Rightarrow> string" where
  "change_key fmt change =
     (let x = ch_observation change in ac_ChangeKind x @ [NUL] @ ac_Revision x @ [NUL] @ fmt (ac_EventAt x))"

definition merge_change :: "projectedChange \<Rightarrow> projectedChange \<Rightarrow> projectedChange" where
  "merge_change previous change =
     (let x = ch_observation previous; y = ch_observation change in
      previous\<lparr>ch_observation := x\<lparr>ac_HistoryTruncated := ac_HistoryTruncated x \<or> ac_HistoryTruncated y,
        ac_Phase := (if ac_Phase x = [] then ac_Phase y else ac_Phase x)\<rparr>\<rparr>)"

definition dedupe_change ::
  "(Time \<Rightarrow> string) \<Rightarrow> projectedChange \<Rightarrow> (string, projectedChange) gomap \<Rightarrow> (string, projectedChange) gomap" where
  "dedupe_change fmt change m =
     (let key = change_key fmt change in
      gm_put key (case map_of m key of None \<Rightarrow> change | Some previous \<Rightarrow> merge_change previous change) m)"

definition change_order :: "projectedChange \<Rightarrow> Time \<times> string" where
  "change_order change = (ac_EventAt (ch_observation change), ch_nativeID change)"

definition raw_changes ::
  "argo_codec \<Rightarrow> (Time \<Rightarrow> string) \<Rightarrow> (string, gvalue) gomap \<Rightarrow> (argo_error, projectedChange list) result" where
  "raw_changes codec fmt status =
     rbind (optionalSlice status ''history'') (\<lambda>found.
     let history = (case found of None \<Rightarrow> [] | Some vs \<Rightarrow> vs);
         truncated = length history > maxApplicationHistory;
         kept = (if truncated then drop (length history - maxApplicationHistory) history else history) in
     rbind (history_changes codec fmt 0 truncated kept) (\<lambda>changes.
     rbind (optionalMap status ''operationState'') (\<lambda>operation.
     case operation of
       None \<Rightarrow> Inr changes
     | Some object \<Rightarrow>
         rbind (projectOperation codec fmt object) (\<lambda>change.
         Inr (case change of None \<Rightarrow> changes | Some c \<Rightarrow> changes @ [c])))))"

text \<open>\<open>order\<close> is the order in which the map is walked; sorting afterwards keeps it among equals.\<close>

definition projectChanges ::
  "argo_codec \<Rightarrow> (Time \<Rightarrow> string) \<Rightarrow> (projectedChange list \<Rightarrow> projectedChange list) \<Rightarrow> (string, gvalue) gomap \<Rightarrow>
   (argo_error, projectedChange list) result" where
  "projectChanges codec fmt order status =
     rbind (raw_changes codec fmt status) (\<lambda>changes.
     Inr (sort_key change_order (order (map snd (fold (dedupe_change fmt) changes [])))))"

subsection \<open>Facts\<close>

definition argo_fact :: "argo_Projection \<Rightarrow> FactKind \<Rightarrow> Lens \<Rightarrow> Time \<Rightarrow> string \<Rightarrow> string \<Rightarrow> GraphFact" where
  "argo_fact input kind lens at native encoded =
     (let app = ai_Application input in
      \<lparr>gf_Fact = \<lparr>Ref = \<lparr>SourceKind = ''argocd'', RefScope = ai_Scope input, RefKind = ''Application'', RefNamespace = aa_Namespace app,
           RefName = aa_Name app, Attributes = []\<rparr>,
         FKind = kind, Observed = encoded, Display = [], ObservedAt = at, Source = ai_Scope input,
         FProvenance = \<lparr>Adapter = ''argocd'', ProtocolV = ''1.0.0'', NativeID = native, DeepLink = [], Collector = []\<rparr>,
         FWorkspace = ai_Workspace input, FStale = False, FStaleFor = []\<rparr>,
       gf_Lens = lens,
       gf_Entity = Some \<lparr>en_Cluster = ai_Scope input, en_Namespace = aa_Namespace app, en_Kind = ''Application'', en_Name = aa_Name app,
         en_Pod = [], en_Node = [], en_ImageDigest = []\<rparr>\<rparr>)"

definition argo_graphFact ::
  "argo_codec \<Rightarrow> argo_Projection \<Rightarrow> FactKind \<Rightarrow> Lens \<Rightarrow> Time \<Rightarrow> string \<Rightarrow> argo_payload \<Rightarrow> (argo_error, GraphFact) result" where
  "argo_graphFact codec input kind lens at native payload =
     (case ax_marshal codec payload of
        None \<Rightarrow> Inl AgEncoding
      | Some encoded \<Rightarrow>
          if length encoded > ag_maxFactPayloadBytes then Inl AgFactTooLarge
          else let g = argo_fact input kind lens at native encoded in
            (case GraphFact_Validate g (ai_Workspace input) of Inl e \<Rightarrow> Inl (AgFact e) | Inr _ \<Rightarrow> Inr g))"

definition ag_validateProjection :: "argo_codec \<Rightarrow> argo_Projection \<Rightarrow> (argo_error, unit) result" where
  "ag_validateProjection codec input =
     (let app = ai_Application input in
      rbind (ag_validateText ''workspace'' (ai_Workspace input) 253) (\<lambda>_.
      rbind (ag_validateText ''scope'' (ai_Scope input) 253) (\<lambda>_.
      if ai_ObservedAt input = 0 then Inl AgObservationTime
      else
        rbind (case ax_groupVersion codec (aa_APIVersion app) of
                 None \<Rightarrow> Inl AgNotApplication
               | Some (apiGroup, version) \<Rightarrow>
                   if apiGroup \<noteq> ''argoproj.io'' \<or> version = [] \<or> aa_Kind app \<noteq> ''Application'' then Inl AgNotApplication else Inr ()) (\<lambda>_.
        rbind (ag_validateText ''Application name'' (aa_Name app) 253) (\<lambda>_.
        ag_validateText ''Application namespace'' (aa_Namespace app) 253)))))"

definition baseNativeID :: "argo_Projection \<Rightarrow> string" where
  "baseNativeID input = ai_Scope input @ ''/'' @ aa_Namespace (ai_Application input) @ ''/'' @ aa_Name (ai_Application input)"

definition optional_fact ::
  "argo_codec \<Rightarrow> argo_Projection \<Rightarrow> FactKind \<Rightarrow> Lens \<Rightarrow> string \<Rightarrow> argo_payload option \<Rightarrow> (argo_error, GraphFact list) result" where
  "optional_fact codec input kind lens suffix payload =
     (case payload of
        None \<Rightarrow> Inr []
      | Some p \<Rightarrow> rbind (argo_graphFact codec input kind lens (ai_ObservedAt input) (baseNativeID input @ suffix) p) (\<lambda>g. Inr [g]))"

definition change_facts ::
  "argo_codec \<Rightarrow> argo_Projection \<Rightarrow> projectedChange list \<Rightarrow> (argo_error, GraphFact list) result" where
  "change_facts codec input changes =
     rmap (\<lambda>change. argo_graphFact codec input FactChange LensTimeline (ac_EventAt (ch_observation change))
       (baseNativeID input @ ''#'' @ ch_nativeID change) (ChangePayload (ch_observation change))) changes"

definition ProjectApplication ::
  "unicode_case \<Rightarrow> argo_codec \<Rightarrow> (Time \<Rightarrow> string) \<Rightarrow> (projectedChange list \<Rightarrow> projectedChange list) \<Rightarrow> argo_Projection \<Rightarrow>
   (argo_error, GraphFact list) result" where
  "ProjectApplication u codec fmt order input =
     rbind (ag_validateProjection codec input) (\<lambda>_.
     rbind (projectDesired u codec (aa_Object (ai_Application input))) (\<lambda>desired.
     rbind (optional_fact codec input FactDesired LensDesired ''#desired'' (map_option DesiredPayload desired)) (\<lambda>desiredFacts.
     rbind (optionalMap (aa_Object (ai_Application input)) ''status'') (\<lambda>found.
     case found of
       None \<Rightarrow> Inr desiredFacts
     | Some status \<Rightarrow>
         rbind (projectHealth status) (\<lambda>health.
         rbind (optional_fact codec input FactHealth LensLive ''#health'' (map_option HealthPayload health)) (\<lambda>healthFacts.
         rbind (projectDrift status) (\<lambda>drift.
         rbind (optional_fact codec input FactDrift LensDesired ''#drift'' (map_option DriftPayload drift)) (\<lambda>driftFacts.
         rbind (projectChanges codec fmt order status) (\<lambda>changes.
         rbind (change_facts codec input changes) (\<lambda>changeFacts.
         let facts = desiredFacts @ healthFacts @ driftFacts @ changeFacts in
         if length facts > maxApplicationFacts then Inl AgTooManyFacts else Inr facts))))))))))"

end
