(* ===== verification/ArgoCD_Correct.thy ===== *)
theory ArgoCD_Correct
  imports Connector_ArgoCD Brain_Graph_Correct
begin

text \<open>
  Argo CD evidence: what a projected change looks like, that the investigation reads an Application as failed exactly if its operation failed,
  and when the facts do not depend on the order in which the map of changes is walked.
\<close>

subsection \<open>Changes\<close>

definition sync_phases :: "string list" where
  "sync_phases = [''Succeeded'', ''Running'', ''Terminating'']"

definition failed_phases :: "string list" where
  "failed_phases = [''Failed'', ''Error'']"

text \<open>A change of the history and a change of the current operation, and the phase a history entry may take over.\<close>

definition from_history :: "(Time \<Rightarrow> string) \<Rightarrow> projectedChange \<Rightarrow> bool" where
  "from_history fmt change \<longleftrightarrow>
     (let x = ch_observation change in
      ac_ChangeKind x = ''argocd-sync'' \<and> (ac_Phase x = [] \<or> ac_Phase x \<in> set sync_phases) \<and>
      ch_nativeID change = ''history/'' @ stableChangeID fmt (ac_HistoryID x) (ac_Revision x) (ac_EventAt x))"

definition from_operation :: "(Time \<Rightarrow> string) \<Rightarrow> projectedChange \<Rightarrow> bool" where
  "from_operation fmt change \<longleftrightarrow>
     (let x = ch_observation change in
      (ac_ChangeKind x = ''argocd-sync'' \<and> ac_Phase x \<in> set sync_phases \<or>
       ac_ChangeKind x = ''sync-failed'' \<and> ac_Phase x \<in> set failed_phases \<and> ac_HistoryID x = [] \<and> \<not> ac_HistoryTruncated x) \<and>
      ch_nativeID change = ''operation/'' @ stableChangeID fmt (ac_Phase x) (ac_Revision x) (ac_EventAt x))"

lemma history_entry_sound:
  assumes "history_entry codec fmt pending raw = Inr (Some c)"
  shows "from_history fmt c"
proof -
  obtain entry where raw: "raw = VObj entry" using assms by (cases raw) (simp_all add: history_entry_def)
  obtain at revision historyID where
    "c = \<lparr>ch_observation = \<lparr>ac_ChangeKind = ''argocd-sync'', ac_Revision = revision, ac_Phase = [], ac_EventAt = at,
       ac_HistoryID = historyID, ac_HistoryTruncated = pending\<rparr>, ch_nativeID = ''history/'' @ stableChangeID fmt historyID revision at\<rparr>"
    using assms unfolding raw history_entry_def gvalue.case rbind_eq_Inr
    by (elim exE conjE) (simp only: rbind_eq_Inr sum.inject option.inject option.distinct split: option.split_asm, blast)
  then show ?thesis by (simp add: from_history_def)
qed

lemma history_changes_sound:
  assumes "history_changes codec fmt i pending history = Inr changes"
  shows "(\<forall>c \<in> set changes. from_history fmt c) \<and> length changes \<le> length history"
  using assms
proof (induction codec fmt i pending history arbitrary: changes rule: history_changes.induct)
  case (2 codec fmt i pending raw history)
  then show ?case
    by (fastforce simp: rbind_eq_Inr dest: history_entry_sound split: sum.splits option.splits)
qed simp

lemma operation_kind_cases:
  "operation_kind phase = Inr kind \<Longrightarrow>
   kind = ''argocd-sync'' \<and> phase \<in> set sync_phases \<or> kind = ''sync-failed'' \<and> phase \<in> set failed_phases"
  unfolding operation_kind_def sync_phases_def failed_phases_def by (simp split: if_split_asm)

lemma phases_disjoint: "phase \<in> set sync_phases \<Longrightarrow> phase \<notin> set failed_phases"
  by (auto simp: sync_phases_def failed_phases_def)

lemma projectOperation_sound:
  assumes "projectOperation codec fmt operation = Inr (Some c)"
  shows "from_operation fmt c"
proof -
  obtain phase where p: "optionalText operation ''phase'' 64 = Inr phase" "phase \<noteq> []"
    using assms unfolding projectOperation_def rbind_eq_Inr by (elim exE conjE) (simp split: if_split_asm)
  obtain kind found where k: "operation_kind phase = Inr kind"
    and rest: "(case found of None \<Rightarrow> Inr None | Some at \<Rightarrow>
      rbind (optionalMap operation ''syncResult'') (\<lambda>syncResult.
      rbind (case syncResult of None \<Rightarrow> Inr [] | Some r \<Rightarrow> optionalText r ''revision'' maxRevisionBytes) (\<lambda>revision.
      Inr (Some \<lparr>ch_observation = \<lparr>ac_ChangeKind = kind, ac_Revision = revision, ac_Phase = phase, ac_EventAt = at,
        ac_HistoryID = [], ac_HistoryTruncated = False\<rparr>,
        ch_nativeID = ''operation/'' @ stableChangeID fmt phase revision at\<rparr>)))) = Inr (Some c)"
    using assms unfolding projectOperation_def p(1) rbind_simps if_not_P [OF p(2)] rbind_eq_Inr [of "operation_kind phase"]
      rbind_eq_Inr [of "optionalTime codec operation ''finishedAt''"] rbind_eq_Inr [of "if _ then _ else _"]
    by blast
  then obtain at revision where c: "c = \<lparr>ch_observation = \<lparr>ac_ChangeKind = kind, ac_Revision = revision, ac_Phase = phase, ac_EventAt = at,
      ac_HistoryID = [], ac_HistoryTruncated = False\<rparr>, ch_nativeID = ''operation/'' @ stableChangeID fmt phase revision at\<rparr>"
    by (cases found) (auto simp: rbind_eq_Inr)
  show ?thesis using operation_kind_cases [OF k] by (auto simp: from_operation_def c)
qed

definition operation_change ::
  "argo_codec \<Rightarrow> (Time \<Rightarrow> string) \<Rightarrow> (string, gvalue) gomap \<Rightarrow> projectedChange option" where
  "operation_change codec fmt status =
     (case optionalMap status ''operationState'' of
        Inr (Some operation) \<Rightarrow> (case projectOperation codec fmt operation of Inr found \<Rightarrow> found | Inl e \<Rightarrow> None)
      | _ \<Rightarrow> None)"

lemma raw_changes_cases:
  assumes "raw_changes codec fmt status = Inr changes"
  obtains past where "changes = past @ (case operation_change codec fmt status of None \<Rightarrow> [] | Some c \<Rightarrow> [c])"
    "\<forall>c \<in> set past. from_history fmt c" "length past \<le> 32"
proof -
  let ?kept = "\<lambda>history. if length history > maxApplicationHistory then drop (length history - maxApplicationHistory) history else history"
  obtain history past where past: "history_changes codec fmt 0 (length history > maxApplicationHistory) (?kept history) = Inr past"
    and rest: "rbind (optionalMap status ''operationState'') (\<lambda>operation. case operation of None \<Rightarrow> Inr past
      | Some object \<Rightarrow> rbind (projectOperation codec fmt object) (\<lambda>change. Inr (case change of None \<Rightarrow> past | Some c \<Rightarrow> past @ [c]))) = Inr changes"
    using assms unfolding raw_changes_def Let_def rbind_eq_Inr [of "optionalSlice status ''history''"] rbind_eq_Inr [of "history_changes _ _ _ _ _"] by blast
  have "changes = past @ (case operation_change codec fmt status of None \<Rightarrow> [] | Some c \<Rightarrow> [c])"
    using rest unfolding operation_change_def rbind_eq_Inr by (elim exE conjE) (auto simp: rbind_eq_Inr split: option.splits)
  moreover have "\<forall>c \<in> set past. from_history fmt c" "length past \<le> 32"
    using history_changes_sound [OF past] by (auto simp: maxApplicationHistory_def split: if_splits)
  ultimately show thesis by (rule that)
qed

lemma operation_change_sound: "operation_change codec fmt status = Some c \<Longrightarrow> from_operation fmt c"
  by (auto simp: operation_change_def dest: projectOperation_sound split: sum.splits option.splits)

subsection \<open>Merging\<close>

lemma merge_change_fields [simp]:
  "ac_ChangeKind (ch_observation (merge_change p c)) = ac_ChangeKind (ch_observation p)"
  "ac_Revision (ch_observation (merge_change p c)) = ac_Revision (ch_observation p)"
  "ac_EventAt (ch_observation (merge_change p c)) = ac_EventAt (ch_observation p)"
  "ac_HistoryID (ch_observation (merge_change p c)) = ac_HistoryID (ch_observation p)"
  "ch_nativeID (merge_change p c) = ch_nativeID p"
  by (simp_all add: merge_change_def Let_def)

lemma change_key_merge [simp]: "change_key fmt (merge_change p c) = change_key fmt p"
  by (simp add: change_key_def Let_def)

definition sound_change :: "(Time \<Rightarrow> string) \<Rightarrow> projectedChange \<Rightarrow> bool" where
  "sound_change fmt c \<longleftrightarrow> from_history fmt c \<or> from_operation fmt c"

lemma sound_kinds: "sound_change fmt c \<Longrightarrow> ac_ChangeKind (ch_observation c) \<in> {''argocd-sync'', ''sync-failed''}"
  by (auto simp: sound_change_def from_history_def from_operation_def Let_def)

lemma same_key_kind:
  assumes "sound_change fmt c" "sound_change fmt d" "change_key fmt c = change_key fmt d"
  shows "ac_ChangeKind (ch_observation c) = ac_ChangeKind (ch_observation d)"
  using sound_kinds [OF assms(1)] sound_kinds [OF assms(2)] assms(3) by (auto simp: change_key_def Let_def)

lemma merge_sound:
  assumes "sound_change fmt p" "sound_change fmt c" "change_key fmt p = change_key fmt c"
  shows "sound_change fmt (merge_change p c)"
proof -
  have "ac_ChangeKind (ch_observation p) = ac_ChangeKind (ch_observation c)" by (rule same_key_kind [OF assms])
  moreover have "ac_Phase (ch_observation (merge_change p c)) =
      (if ac_Phase (ch_observation p) = [] then ac_Phase (ch_observation c) else ac_Phase (ch_observation p))"
    "ac_HistoryTruncated (ch_observation (merge_change p c)) \<longleftrightarrow>
      ac_HistoryTruncated (ch_observation p) \<or> ac_HistoryTruncated (ch_observation c)"
    by (simp_all add: merge_change_def Let_def)
  ultimately show ?thesis
    using assms(1,2) unfolding sound_change_def from_history_def from_operation_def Let_def
    by (auto simp: sync_phases_def failed_phases_def)
qed

definition deduped :: "(Time \<Rightarrow> string) \<Rightarrow> (string, projectedChange) gomap \<Rightarrow> bool" where
  "deduped fmt m \<longleftrightarrow> gm_wf m \<and> (\<forall>(k, c) \<in> set m. k = change_key fmt c \<and> sound_change fmt c)"

lemma dedupe_step:
  assumes "deduped fmt m" and "sound_change fmt c"
  shows "deduped fmt (dedupe_change fmt c m)"
proof -
  let ?k = "change_key fmt c"
  let ?new = "case map_of m ?k of None \<Rightarrow> c | Some previous \<Rightarrow> merge_change previous c"
  have "change_key fmt ?new = ?k \<and> sound_change fmt ?new"
  proof (cases "map_of m ?k")
    case (Some p)
    then have "(?k, p) \<in> set m" by (rule map_of_SomeD)
    with assms(1) have p: "change_key fmt p = ?k" "sound_change fmt p" by (auto simp: deduped_def)
    from merge_sound [OF p(2) assms(2) p(1)] p(1) Some show ?thesis by simp
  qed (use assms(2) in simp)
  then show ?thesis using assms(1) by (auto simp: deduped_def dedupe_change_def Let_def set_gm_put)
qed

lemma dedupe_fold:
  assumes "\<forall>c \<in> set changes. sound_change fmt c" and "deduped fmt m"
  shows "deduped fmt (fold (dedupe_change fmt) changes m)"
  using assms by (induction changes arbitrary: m) (simp_all add: dedupe_step)

lemma length_gm_put: "length (gm_put k v m) \<le> Suc (length m)"
  by (induction m) auto

lemma dedupe_length: "length (fold (dedupe_change fmt) changes m) \<le> length changes + length m"
proof (induction changes arbitrary: m)
  case (Cons c changes)
  have "length (dedupe_change fmt c m) \<le> Suc (length m)"
    by (simp add: dedupe_change_def Let_def length_gm_put)
  with Cons [of "dedupe_change fmt c m"] show ?case by simp
qed simp

subsection \<open>What the investigation reads\<close>

lemma strip_left_all:
  "strip_left encs s = [] \<Longrightarrow> s \<noteq> [] \<Longrightarrow> \<exists>e \<in> set encs. e \<noteq> [] \<and> last s = last e"
proof (induction encs s rule: strip_left.induct)
  case (1 encs s)
  let ?n = "leading_space encs s"
  have n: "?n \<noteq> 0" using "1.prems" by (subst (asm) strip_left.simps) (auto simp: Let_def split: if_splits)
  then obtain e where e: "e \<in> set encs" "has_prefix s e" "?n = length e"
    by (auto simp: leading_space_def find_Some_iff split: option.splits) (metis nth_mem)
  have split: "s = e @ drop ?n s" using has_prefix_split [OF e(2)] e(3) by simp
  show ?case
  proof (cases "drop ?n s = []")
    case True
    with split e n show ?thesis by auto
  next
    case False
    have "strip_left encs (drop ?n s) = []" using "1.prems" n by (subst (asm) strip_left.simps) (auto simp: Let_def split: if_splits)
    from "1.IH" [OF refl _ this False] n "1.prems"(2) have "\<exists>e \<in> set encs. e \<noteq> [] \<and> last (drop ?n s) = last e" by blast
    moreover have "last s = last (drop ?n s)" using False by (subst split) simp
    ultimately show ?thesis by simp
  qed
qed

text \<open>Text that starts with a printable ASCII character is not blank.\<close>

lemma trim_space_not_blank:
  assumes "33 \<le> byte_of c" "byte_of c < 128"
  shows "trim_space (c # cs) \<noteq> []"
proof
  assume "trim_space (c # cs) = []"
  moreover have "c \<notin> hd ` set space_encodings" using space_heads(3) [of c] assms by auto
  ultimately have "strip_left (map rev space_encodings) (rev (c # cs)) = []"
    by (simp add: trim_space_def strip_left_id space_heads(1))
  from strip_left_all [OF this] obtain e where "e \<in> set space_encodings" "e \<noteq> []" "c = last (rev e)" by auto
  then show False using \<open>c \<notin> _\<close> by (simp add: last_rev)
qed

lemma failed_not_blank:
  assumes "phase \<in> set failed_phases"
  shows "trim_space (phase @ rest) \<noteq> []"
proof -
  have "33 \<le> byte_of CHR ''F''" "byte_of CHR ''F'' < 128" "33 \<le> byte_of CHR ''E''" "byte_of CHR ''E'' < 128" by code_simp+
  with assms show ?thesis unfolding failed_phases_def by (auto simp del: byte_of_def dest: trim_space_not_blank)
qed

text \<open>
  An encoded change decodes to one of the same kind, phase and time, with a history identity if it had one. Revisions and identities that are not
  UTF-8 need not survive: the encoder replaces what it cannot represent.
\<close>

definition same_change :: "argoChangePayload \<Rightarrow> argoChangePayload \<Rightarrow> bool" where
  "same_change p q \<longleftrightarrow> ac_ChangeKind q = ac_ChangeKind p \<and> ac_Phase q = ac_Phase p \<and> ac_EventAt q = ac_EventAt p \<and>
     (ac_HistoryID q = [] \<longleftrightarrow> ac_HistoryID p = []) \<and> ac_HistoryTruncated q = ac_HistoryTruncated p"

definition change_codec_agrees :: "argo_codec \<Rightarrow> graph_codec \<Rightarrow> bool" where
  "change_codec_agrees codec gc \<longleftrightarrow>
     (\<forall>p d. ax_marshal codec (ChangePayload p) = Some d \<longrightarrow> utf8_valid (ac_ChangeKind p) \<and> utf8_valid (ac_Phase p) \<longrightarrow>
        d \<noteq> [] \<and> (\<exists>q. gc_argo gc d = Some (q, TrailerEOF) \<and> same_change p q))"

lemma argo_change_same: "same_change p q \<Longrightarrow> argo_change g q = argo_change g p"
  by (simp add: same_change_def argo_change_def Let_def)

lemma sound_utf8:
  assumes "sound_change fmt c"
  shows "utf8_valid (ac_ChangeKind (ch_observation c)) \<and> utf8_valid (ac_Phase (ch_observation c))"
proof -
  have "utf8_valid ''argocd-sync''" "utf8_valid ''sync-failed''" by code_simp+
  moreover have "list_all utf8_valid ([] # sync_phases @ failed_phases)" by code_simp
  then have "utf8_valid phase" if "phase = [] \<or> phase \<in> set sync_phases \<or> phase \<in> set failed_phases" for phase
    using that by (auto simp: list_all_iff simp del: utf8_valid_code)
  ultimately show ?thesis using assms unfolding sound_change_def from_history_def from_operation_def Let_def by metis
qed

lemma argo_graphFact_Inr:
  "argo_graphFact codec input kind lens at native payload = Inr g \<longleftrightarrow>
     (\<exists>d. ax_marshal codec payload = Some d \<and> length d \<le> 16384 \<and> g = argo_fact input kind lens at native d \<and>
        GraphFact_Validate g (ai_Workspace input) = Inr ())"
  by (auto simp: argo_graphFact_def ag_maxFactPayloadBytes_def Let_def split: option.splits sum.splits)

lemma validated_observation_time: "GraphFact_Validate g w = Inr () \<Longrightarrow> ObservedAt (gf_Fact g) \<noteq> 0"
  by (auto simp: GraphFact_Validate_def Let_def rbind_eq_Inr split: if_splits)

definition sync_failure :: "argo_Projection \<Rightarrow> Time \<Rightarrow> Observation" where
  "sync_failure input at =
     \<lparr>ob_Ref = \<lparr>SourceKind = ''argocd'', RefScope = ai_Scope input, RefKind = ''Application'',
        RefNamespace = aa_Namespace (ai_Application input), RefName = aa_Name (ai_Application input), Attributes = []\<rparr>,
      ob_Lens = LensTimeline, ob_Key = ''change.kind'', ob_Value = ''sync-failed'', ob_ObservedAt = at, ob_Source = ai_Scope input, ob_Stale = False\<rparr>"

definition failure_seen :: "argo_Projection \<Rightarrow> projectedChange \<Rightarrow> Observation list" where
  "failure_seen input change =
     (if ac_ChangeKind (ch_observation change) = ''sync-failed'' then [sync_failure input (ac_EventAt (ch_observation change))] else [])"

lemma argo_change_read:
  fixes input :: argo_Projection and c :: projectedChange and d :: string
  defines "g \<equiv> argo_fact input FactChange LensTimeline (ac_EventAt (ch_observation c)) (baseNativeID input @ ''#'' @ ch_nativeID c) d"
  assumes "sound_change fmt c"
  shows "\<exists>seen. argo_change g (ch_observation c) = Inr seen \<and> (case seen of None \<Rightarrow> [] | Some x \<Rightarrow> [x]) = failure_seen input c"
proof (cases "ac_ChangeKind (ch_observation c) = ''sync-failed''")
  case True
  let ?rest = "stableChangeID fmt (ac_Phase (ch_observation c)) (ac_Revision (ch_observation c)) (ac_EventAt (ch_observation c))"
  from True assms(2) have op: "ac_Phase (ch_observation c) \<in> set failed_phases" "ac_HistoryID (ch_observation c) = []"
    "\<not> ac_HistoryTruncated (ch_observation c)" "ch_nativeID c = ''operation/'' @ ?rest"
    by (auto simp: sound_change_def from_history_def from_operation_def Let_def)
  have "trim_space ?rest \<noteq> []" using failed_not_blank [OF op(1)] by (simp add: stableChangeID_def)
  moreover define P where "P = baseNativeID input @ ''#operation/''"
  have native: "NativeID (FProvenance (gf_Fact g)) = P @ ?rest"
    by (simp add: g_def argo_fact_def Let_def P_def op(4))
  have prefix: "RefScope (Ref (gf_Fact g)) @ ''/'' @ RefNamespace (Ref (gf_Fact g)) @ ''/'' @ RefName (Ref (gf_Fact g)) @ ''#operation/'' = P"
    by (simp add: g_def argo_fact_def Let_def P_def baseNativeID_def)
  have seen: "[change_observation g ''sync-failed''] = failure_seen input c"
    using True by (simp add: failure_seen_def sync_failure_def change_observation_def g_def argo_fact_def Let_def)
  ultimately show ?thesis
    using op(1-3) seen unfolding argo_change_def Let_def native prefix True by (auto simp: failed_phases_def)
next
  case False
  with assms(2) have "ac_ChangeKind (ch_observation c) = ''argocd-sync''" "ac_Phase (ch_observation c) \<in> insert [] (set sync_phases)"
    by (auto simp: sound_change_def from_history_def from_operation_def Let_def)
  then show ?thesis by (auto simp: argo_change_def sync_phases_def failure_seen_def Let_def)
qed

lemma change_fact_read:
  assumes "change_codec_agrees codec gc" and "sound_change fmt c" and "aa_Namespace (ai_Application input) \<noteq> []"
    and "argo_graphFact codec input FactChange LensTimeline (ac_EventAt (ch_observation c)) (baseNativeID input @ ''#'' @ ch_nativeID c)
      (ChangePayload (ch_observation c)) = Inr g"
  shows "is_ok (observationFromGraphFact u gc sha g)" and "projected u gc sha g = failure_seen input c"
proof -
  obtain d where d: "ax_marshal codec (ChangePayload (ch_observation c)) = Some d" "length d \<le> 16384"
    and g: "g = argo_fact input FactChange LensTimeline (ac_EventAt (ch_observation c)) (baseNativeID input @ ''#'' @ ch_nativeID c) d"
    and valid: "GraphFact_Validate g (ai_Workspace input) = Inr ()"
    using assms(4) by (auto simp: argo_graphFact_Inr)
  have at: "ac_EventAt (ch_observation c) \<noteq> 0" using validated_observation_time [OF valid] by (simp add: g argo_fact_def Let_def)
  obtain q where dec: "d \<noteq> []" "gc_argo gc d = Some (q, TrailerEOF)" and q: "same_change (ch_observation c) q"
    using assms(1) [unfolded change_codec_agrees_def, rule_format, OF d(1) sound_utf8 [OF assms(2)]] by blast
  obtain seen where seen: "argo_change g (ch_observation c) = Inr seen" "(case seen of None \<Rightarrow> [] | Some x \<Rightarrow> [x]) = failure_seen input c"
    using argo_change_read [OF assms(2)] unfolding g by blast
  have qs: "argo_change g q = Inr seen" "ac_EventAt q = ac_EventAt (ch_observation c)"
    using argo_change_same [OF q] seen(1) q by (simp_all add: same_change_def)
  have "observationFromGraphFact u gc sha g = observationFromArgoGraphFact gc g"
    by (simp add: observationFromGraphFact_def g argo_fact_def Let_def)
  also have "\<dots> = Inr seen"
    using at dec d(2) assms(3) qs
    by (simp add: observationFromArgoGraphFact_def g argo_fact_def decodeArgoChangePayload_def check_trailer_def maxArgoChangePayload_def Let_def)
  finally show "is_ok (observationFromGraphFact u gc sha g)" "projected u gc sha g = failure_seen input c"
    using seen(2) by (auto simp: projected_def is_ok_iff split: option.splits)
qed

subsection \<open>All facts of an Application\<close>

lemma gm_put_fresh: "map_of m k = None \<Longrightarrow> gm_put k v m = m @ [(k, v)]"
  by (induction m) (auto split: if_splits)

lemma deduped_kinds:
  assumes "deduped fmt m" and "map_of m (change_key fmt c) = Some p" and "sound_change fmt c"
  shows "ac_ChangeKind (ch_observation p) = ac_ChangeKind (ch_observation c)"
proof -
  have "(change_key fmt c, p) \<in> set m" using assms(2) by (rule map_of_SomeD)
  with assms(1) have "change_key fmt p = change_key fmt c" "sound_change fmt p" by (auto simp: deduped_def)
  then show ?thesis using assms(3) by (intro same_key_kind)
qed

definition syncs :: "(string, projectedChange) gomap \<Rightarrow> bool" where
  "syncs m \<longleftrightarrow> (\<forall>(k, c) \<in> set m. ac_ChangeKind (ch_observation c) = ''argocd-sync'')"

lemma syncs_step:
  assumes "deduped fmt m" "syncs m" "sound_change fmt c" "ac_ChangeKind (ch_observation c) = ''argocd-sync''"
  shows "syncs (dedupe_change fmt c m)"
  using assms deduped_kinds [OF assms(1) _ assms(3)]
  by (auto simp: syncs_def dedupe_change_def deduped_def Let_def set_gm_put split: option.splits)

lemma syncs_fold:
  assumes "\<forall>c \<in> set past. from_history fmt c" and "deduped fmt m" "syncs m"
  shows "syncs (fold (dedupe_change fmt) past m)"
  using assms
proof (induction past arbitrary: m)
  case (Cons c past)
  then have c: "sound_change fmt c" "ac_ChangeKind (ch_observation c) = ''argocd-sync''"
    by (auto simp: sound_change_def from_history_def Let_def)
  show ?case using Cons.IH [of "dedupe_change fmt c m"] Cons.prems dedupe_step [OF _ c(1)] syncs_step [OF _ _ c] by simp
qed simp

text \<open>The deduplicated changes hold a failed operation once and no other failure.\<close>

lemma deduped_failures:
  assumes "raw_changes codec fmt status = Inr changes"
  defines "m \<equiv> fold (dedupe_change fmt) changes []"
  shows "deduped fmt m" and "concat (map (failure_seen input) (map snd m)) =
    (case operation_change codec fmt status of None \<Rightarrow> [] | Some c \<Rightarrow> failure_seen input c)"
proof -
  obtain past where past: "changes = past @ (case operation_change codec fmt status of None \<Rightarrow> [] | Some c \<Rightarrow> [c])"
    "\<forall>c \<in> set past. from_history fmt c" using raw_changes_cases [OF assms(1)] by blast
  let ?m = "fold (dedupe_change fmt) past []"
  have empty: "deduped fmt []" "syncs []" by (simp_all add: deduped_def syncs_def gm_wf_def)
  have sound: "\<forall>c \<in> set past. sound_change fmt c" using past(2) by (simp add: sound_change_def)
  have d: "deduped fmt ?m" and s: "syncs ?m" using dedupe_fold [OF sound empty(1)] syncs_fold [OF past(2) empty] .
  have quiet: "concat (map (failure_seen input) (map snd m')) = []" if "syncs m'" for m' :: "(string, projectedChange) gomap"
    using that by (auto simp: syncs_def failure_seen_def)
  show "deduped fmt m" "concat (map (failure_seen input) (map snd m)) =
    (case operation_change codec fmt status of None \<Rightarrow> [] | Some c \<Rightarrow> failure_seen input c)"
  proof (atomize (full), cases "operation_change codec fmt status")
    case None
    with past(1) d quiet [OF s] show "deduped fmt m \<and> concat (map (failure_seen input) (map snd m)) =
      (case operation_change codec fmt status of None \<Rightarrow> [] | Some c \<Rightarrow> failure_seen input c)" by (simp add: m_def)
  next
    case (Some c)
    have c: "sound_change fmt c" using operation_change_sound [OF Some] by (simp add: sound_change_def)
    have m: "m = dedupe_change fmt c ?m" using past(1) Some by (simp add: m_def)
    have "concat (map (failure_seen input) (map snd m)) = failure_seen input c"
    proof (cases "ac_ChangeKind (ch_observation c) = ''sync-failed''")
      case True
      have "map_of ?m (change_key fmt c) = None"
        using deduped_kinds [OF d _ c] s True by (cases "map_of ?m (change_key fmt c)") (auto simp: syncs_def dest!: map_of_SomeD)
      then show ?thesis using quiet [OF s] by (simp add: m dedupe_change_def Let_def gm_put_fresh)
    next
      case False
      then have sync: "ac_ChangeKind (ch_observation c) = ''argocd-sync''" using sound_kinds [OF c] by auto
      show ?thesis using quiet [OF syncs_step [OF d s c sync]] False by (simp add: m failure_seen_def)
    qed
    with m Some dedupe_step [OF d c] show "deduped fmt m \<and> concat (map (failure_seen input) (map snd m)) =
      (case operation_change codec fmt status of None \<Rightarrow> [] | Some c \<Rightarrow> failure_seen input c)" by simp
  qed
qed

lemma concat_map_mset:
  assumes "mset xs = mset ys" and "length (concat (map f ys)) \<le> 1"
  shows "concat (map f xs) = concat (map f ys)"
proof -
  have "mset (concat (map f zs)) = sum_mset (image_mset (\<lambda>x. mset (f x)) (mset zs))" for zs by (induction zs) simp_all
  then have same: "mset (concat (map f xs)) = mset (concat (map f ys))" by (simp only: assms(1))
  show ?thesis
  proof (cases "concat (map f ys)")
    case Nil
    with same show ?thesis by (simp only: mset.simps(1) mset_zero_iff)
  next
    case (Cons a as)
    with assms(2) have "concat (map f ys) = [a]" by simp
    with same show ?thesis by (simp only: mset.simps(2) mset.simps(1) mset_single_iff)
  qed
qed

lemma projectChanges_read:
  assumes "projectChanges codec fmt order status = Inr changes" and "\<forall>xs. mset (order xs) = mset xs"
  shows "\<forall>c \<in> set changes. sound_change fmt c" and "length changes \<le> 33"
    and "concat (map (failure_seen input) changes) = (case operation_change codec fmt status of None \<Rightarrow> [] | Some c \<Rightarrow> failure_seen input c)"
proof -
  obtain raw where raw: "raw_changes codec fmt status = Inr raw"
    and changes: "changes = sort_key change_order (order (map snd (fold (dedupe_change fmt) raw [])))"
    using assms(1) by (auto simp: projectChanges_def rbind_eq_Inr)
  let ?m = "fold (dedupe_change fmt) raw []"
  have same: "mset changes = mset (map snd ?m)" using assms(2) by (simp add: changes)
  show "\<forall>c \<in> set changes. sound_change fmt c"
    using deduped_failures(1) [OF raw] mset_eq_setD [OF same] by (auto simp: deduped_def)
  have "length raw \<le> 33" by (rule raw_changes_cases [OF raw]) (auto split: option.splits)
  then show "length changes \<le> 33" using dedupe_length [of fmt raw "[]"] mset_eq_length [OF same] by simp
  note failures = deduped_failures(2) [OF raw, of input]
  have "length (concat (map (failure_seen input) (map snd ?m))) \<le> 1"
    unfolding failures by (simp add: failure_seen_def split: option.split)
  from concat_map_mset [OF same this] show "concat (map (failure_seen input) changes) =
    (case operation_change codec fmt status of None \<Rightarrow> [] | Some c \<Rightarrow> failure_seen input c)" unfolding failures .
qed

lemma argo_fact_quiet: "kind \<noteq> FactChange \<Longrightarrow> observationFromGraphFact u gc sha (argo_fact input kind lens at native d) = Inr None"
  by (simp add: observationFromGraphFact_def argo_fact_def Let_def)

lemma optional_fact_quiet:
  assumes "optional_fact codec input kind lens suffix payload = Inr facts" and "kind \<noteq> FactChange"
  shows "\<forall>g \<in> set facts. observationFromGraphFact u gc sha g = Inr None"
proof -
  have "facts = [] \<or> (\<exists>lens at native d. facts = [argo_fact input kind lens at native d])"
    using assms(1) unfolding optional_fact_def by (cases payload) (auto simp: rbind_eq_Inr argo_graphFact_Inr)
  with argo_fact_quiet [OF assms(2)] show ?thesis by auto
qed

lemma projected_quiet:
  "\<forall>g \<in> set facts. observationFromGraphFact u gc sha g = Inr None \<Longrightarrow> concat (map (projected u gc sha) facts) = []"
  by (simp add: projected_def)

lemma change_facts_read:
  assumes "change_codec_agrees codec gc" and "aa_Namespace (ai_Application input) \<noteq> []" and "\<forall>c \<in> set changes. sound_change fmt c"
    and "change_facts codec input changes = Inr facts"
  shows "(\<forall>g \<in> set facts. is_ok (observationFromGraphFact u gc sha g)) \<and>
    concat (map (projected u gc sha) facts) = concat (map (failure_seen input) changes)"
  using assms(3,4)
proof (induction changes arbitrary: facts)
  case Nil
  then show ?case by (simp add: change_facts_def)
next
  case (Cons c changes)
  then obtain g gs where g: "argo_graphFact codec input FactChange LensTimeline (ac_EventAt (ch_observation c))
      (baseNativeID input @ ''#'' @ ch_nativeID c) (ChangePayload (ch_observation c)) = Inr g"
    and gs: "change_facts codec input changes = Inr gs" "facts = g # gs"
    by (auto simp: change_facts_def rbind_eq_Inr)
  have "sound_change fmt c" using Cons.prems by simp
  note change_fact_read [OF assms(1) this assms(2) g, of u sha]
  with Cons.IH [OF _ gs(1)] Cons.prems gs(2) show ?case by simp
qed

text \<open>The facts of an Application with a status, in order.\<close>

lemma ProjectApplication_cases:
  assumes "ProjectApplication u codec fmt order input = Inr facts"
    and "optionalMap (aa_Object (ai_Application input)) ''status'' = Inr (Some status)"
  obtains desiredFacts healthFacts driftFacts changes changeFacts desired health drift where
    "ag_validateProjection codec input = Inr ()"
    "optional_fact codec input FactDesired LensDesired ''#desired'' desired = Inr desiredFacts"
    "optional_fact codec input FactHealth LensLive ''#health'' health = Inr healthFacts"
    "optional_fact codec input FactDrift LensDesired ''#drift'' drift = Inr driftFacts"
    "projectChanges codec fmt order status = Inr changes" "change_facts codec input changes = Inr changeFacts"
    "facts = desiredFacts @ healthFacts @ driftFacts @ changeFacts"
  using assms unfolding ProjectApplication_def rbind_eq_Inr
  by (elim exE conjE) (auto simp: rbind_eq_Inr Let_def split: if_splits)

lemma validated_namespace: "ag_validateProjection codec input = Inr () \<Longrightarrow> aa_Namespace (ai_Application input) \<noteq> []"
  by (auto simp: ag_validateProjection_def ag_validateText_def Let_def rbind_eq_Inr split: if_splits)

text \<open>
  The failed sync an Application's object tells of, read off the object itself: the time of an operation whose phase is Failed or Error, which is
  when it finished, or when it started if no finish is given.
\<close>

definition text_field :: "(string, gvalue) gomap \<Rightarrow> string \<Rightarrow> string" where
  "text_field object key = (case map_of object key of Some (VString s) \<Rightarrow> s | _ \<Rightarrow> [])"

definition object_field :: "(string, gvalue) gomap \<Rightarrow> string \<Rightarrow> (string, gvalue) gomap" where
  "object_field object key = (case map_of object key of Some (VObj members) \<Rightarrow> members | _ \<Rightarrow> [])"

definition time_field :: "argo_codec \<Rightarrow> (string, gvalue) gomap \<Rightarrow> string \<Rightarrow> Time option" where
  "time_field codec object key = (if text_field object key = [] then None else ax_time codec (text_field object key))"

definition failed_sync :: "argo_codec \<Rightarrow> (string, gvalue) gomap \<Rightarrow> Time option" where
  "failed_sync codec object =
     (let operation = object_field (object_field object ''status'') ''operationState'' in
      if text_field operation ''phase'' = ''Failed'' \<or> text_field operation ''phase'' = ''Error''
      then (case time_field codec operation ''finishedAt'' of
              Some at \<Rightarrow> Some at
            | None \<Rightarrow> time_field codec operation ''startedAt'')
      else None)"

lemma optionalText_field: "optionalText object key maximum = Inr s \<Longrightarrow> s = text_field object key"
  by (auto simp: optionalText_def text_field_def rbind_eq_Inr split: option.splits gvalue.splits if_splits)

lemma optionalTime_field: "optionalTime codec object key = Inr found \<Longrightarrow> found = time_field codec object key"
  by (auto simp: optionalTime_def time_field_def rbind_eq_Inr dest!: optionalText_field split: option.splits if_splits)

lemma optionalMap_field: "optionalMap object key = Inr found \<Longrightarrow> object_field object key = (case found of None \<Rightarrow> [] | Some ms \<Rightarrow> ms)"
  by (auto simp: optionalMap_def object_field_def split: option.splits gvalue.splits)

lemma projectOperation_failure:
  assumes "projectOperation codec fmt operation = Inr found"
  shows "(case found of None \<Rightarrow> [] | Some c \<Rightarrow> failure_seen input c) =
    (if text_field operation ''phase'' \<in> set failed_phases
     then (case (case time_field codec operation ''finishedAt'' of Some at \<Rightarrow> Some at | None \<Rightarrow> time_field codec operation ''startedAt'') of
       None \<Rightarrow> [] | Some at \<Rightarrow> [sync_failure input at]) else [])"
proof (cases "text_field operation ''phase'' = []")
  case True
  have "found = None"
    using assms True by (auto simp: projectOperation_def rbind_eq_Inr dest!: optionalText_field)
  with True show ?thesis by (simp add: failed_phases_def)
next
  case False
  let ?finished = "time_field codec operation ''finishedAt''" and ?started = "time_field codec operation ''startedAt''"
  let ?time = "case ?finished of Some at \<Rightarrow> Some at | None \<Rightarrow> ?started"
  obtain phase where p: "optionalText operation ''phase'' 64 = Inr phase"
    using assms unfolding projectOperation_def rbind_eq_Inr [of "optionalText operation ''phase'' 64"] by blast
  have phase: "phase = text_field operation ''phase''" by (rule optionalText_field [OF p])
  with False have ne: "phase \<noteq> []" by simp
  obtain kind finished time where k: "operation_kind phase = Inr kind"
    and f: "optionalTime codec operation ''finishedAt'' = Inr finished"
    and t: "(if finished = None then optionalTime codec operation ''startedAt'' else Inr finished) = Inr time"
    and rest: "(case time of None \<Rightarrow> Inr None | Some at \<Rightarrow>
      rbind (optionalMap operation ''syncResult'') (\<lambda>syncResult.
      rbind (case syncResult of None \<Rightarrow> Inr [] | Some r \<Rightarrow> optionalText r ''revision'' maxRevisionBytes) (\<lambda>revision.
      Inr (Some \<lparr>ch_observation = \<lparr>ac_ChangeKind = kind, ac_Revision = revision, ac_Phase = phase, ac_EventAt = at,
        ac_HistoryID = [], ac_HistoryTruncated = False\<rparr>,
        ch_nativeID = ''operation/'' @ stableChangeID fmt phase revision at\<rparr>)))) = Inr found"
    using assms unfolding projectOperation_def p rbind_simps if_not_P [OF ne] rbind_eq_Inr [of "operation_kind phase"]
      rbind_eq_Inr [of "optionalTime codec operation ''finishedAt''"] rbind_eq_Inr [of "if _ then _ else _"]
    by blast
  have finished: "finished = ?finished" by (rule optionalTime_field [OF f])
  have time: "time = ?time" using t optionalTime_field [of codec operation "''startedAt''" time] unfolding finished by (cases ?finished) auto
  have failed: "kind = ''sync-failed'' \<longleftrightarrow> phase \<in> set failed_phases"
    using operation_kind_cases [OF k] phases_disjoint [of phase] by auto
  have "map_option (\<lambda>c. (ac_ChangeKind (ch_observation c), ac_EventAt (ch_observation c))) found = map_option (Pair kind) time"
    using rest by (cases time) (auto simp: rbind_eq_Inr)
  then show ?thesis
    unfolding phase [symmetric] time [symmetric] failed [symmetric]
    by (cases found; cases time) (auto simp: failure_seen_def sync_failure_def)
qed

lemma operation_failure:
  assumes "raw_changes codec fmt status = Inr changes" and "object_field object ''status'' = status"
  shows "(case operation_change codec fmt status of None \<Rightarrow> [] | Some c \<Rightarrow> failure_seen input c) =
    (case failed_sync codec object of None \<Rightarrow> [] | Some at \<Rightarrow> [sync_failure input at])"
proof -
  obtain past operation where operation: "optionalMap status ''operationState'' = Inr operation"
    and rest: "(case operation of None \<Rightarrow> Inr past
      | Some op \<Rightarrow> rbind (projectOperation codec fmt op) (\<lambda>change. Inr (case change of None \<Rightarrow> past | Some c \<Rightarrow> past @ [c]))) = Inr changes"
    using assms(1) unfolding raw_changes_def Let_def rbind_eq_Inr [of "optionalSlice status ''history''"]
      rbind_eq_Inr [of "history_changes _ _ _ _ _"] rbind_eq_Inr [of "optionalMap status ''operationState''"] by blast
  note field = optionalMap_field [OF operation]
  show ?thesis
  proof (cases operation)
    case None
    then show ?thesis using field operation
      by (simp add: operation_change_def failed_sync_def assms(2) text_field_def)
  next
    case (Some op)
    then obtain found where found: "projectOperation codec fmt op = Inr found" using rest by (auto simp: rbind_eq_Inr)
    have "failed_sync codec object = (if text_field op ''phase'' \<in> set failed_phases
       then (case time_field codec op ''finishedAt'' of Some at \<Rightarrow> Some at | None \<Rightarrow> time_field codec op ''startedAt'') else None)"
      using field by (simp add: failed_sync_def assms(2) Some failed_phases_def)
    moreover have "operation_change codec fmt status = found" using operation found by (simp add: operation_change_def Some)
    ultimately show ?thesis using projectOperation_failure [OF found, of input] by (simp split: if_split)
  qed
qed

lemma ProjectApplication_no_status:
  assumes "ProjectApplication u codec fmt order input = Inr facts"
    and "optionalMap (aa_Object (ai_Application input)) ''status'' = Inr None"
  shows "\<forall>g \<in> set facts. observationFromGraphFact u gc sha g = Inr None"
proof -
  obtain desired where "optional_fact codec input FactDesired LensDesired ''#desired'' desired = Inr facts"
    using assms unfolding ProjectApplication_def rbind_eq_Inr by (elim exE conjE) (auto simp: rbind_eq_Inr)
  from optional_fact_quiet [OF this] show ?thesis by simp
qed

lemma ProjectApplication_read:
  assumes "change_codec_agrees codec gc" and "\<forall>xs. mset (order xs) = mset xs"
    and "optionalMap (aa_Object (ai_Application input)) ''status'' = Inr (Some status)"
    and "ProjectApplication u codec fmt order input = Inr facts"
  shows "(\<forall>g \<in> set facts. is_ok (observationFromGraphFact u gc sha g)) \<and>
    concat (map (projected u gc sha) facts) =
      (case failed_sync codec (aa_Object (ai_Application input)) of None \<Rightarrow> [] | Some at \<Rightarrow> [sync_failure input at])"
proof -
  obtain desiredFacts healthFacts driftFacts changes changeFacts desired health drift where
    valid: "ag_validateProjection codec input = Inr ()"
    and quiet: "optional_fact codec input FactDesired LensDesired ''#desired'' desired = Inr desiredFacts"
    "optional_fact codec input FactHealth LensLive ''#health'' health = Inr healthFacts"
    "optional_fact codec input FactDrift LensDesired ''#drift'' drift = Inr driftFacts"
    and changes: "projectChanges codec fmt order status = Inr changes" "change_facts codec input changes = Inr changeFacts"
    and facts: "facts = desiredFacts @ healthFacts @ driftFacts @ changeFacts"
    by (rule ProjectApplication_cases [OF assms(4,3)])
  note none = optional_fact_quiet [OF quiet(1), of u gc sha] optional_fact_quiet [OF quiet(2), of u gc sha]
    optional_fact_quiet [OF quiet(3), of u gc sha]
  have n: "\<forall>g \<in> set desiredFacts. observationFromGraphFact u gc sha g = Inr None"
    "\<forall>g \<in> set healthFacts. observationFromGraphFact u gc sha g = Inr None"
    "\<forall>g \<in> set driftFacts. observationFromGraphFact u gc sha g = Inr None"
    by (rule none, simp)+
  note read = change_facts_read [OF assms(1) validated_namespace [OF valid] projectChanges_read(1) [OF changes(1) assms(2)] changes(2), of u sha]
  have ok: "\<forall>g \<in> set facts. is_ok (observationFromGraphFact u gc sha g)" using n read by (auto simp: facts is_ok_iff)
  have "concat (map (projected u gc sha) facts) = concat (map (failure_seen input) changes)"
    using projected_quiet [OF n(1)] projected_quiet [OF n(2)] projected_quiet [OF n(3)] read by (simp add: facts)
  also have "\<dots> = (case failed_sync codec (aa_Object (ai_Application input)) of None \<Rightarrow> [] | Some at \<Rightarrow> [sync_failure input at])"
  proof -
    obtain raw where raw: "raw_changes codec fmt status = Inr raw" using changes(1) by (auto simp: projectChanges_def rbind_eq_Inr)
    have "object_field (aa_Object (ai_Application input)) ''status'' = status" using optionalMap_field [OF assms(3)] by simp
    from operation_failure [OF raw this] projectChanges_read(3) [OF changes(1) assms(2)] show ?thesis by simp
  qed
  finally show ?thesis using ok by simp
qed

text \<open>
  C35: connector and investigation agree on failed syncs. If what one side encodes the other decodes and the map of changes is walked in some order,
  every fact the connector projects from an Application is accepted by the investigation. Together the facts are read as one observation, the
  failed sync of that Application, if the operation in the Application's status has the phase Failed or Error and
  gives a time: the time it finished or, without one, the time it started, which is the time of the observation.
  Otherwise they are read as none: a failed operation that gives neither time leaves no trace, and health,
  drift, desired state and history are never mistaken for a failure. Deduplication never loses or doubles one.
\<close>
theorem argo_failures_observed:
  assumes "change_codec_agrees codec gc" and "\<forall>xs. mset (order xs) = mset xs"
    and "ProjectApplication u codec fmt order input = Inr facts"
  shows "(\<forall>g \<in> set facts. is_ok (observationFromGraphFact u gc sha g)) \<and>
    concat (map (projected u gc sha) facts) =
      (case failed_sync codec (aa_Object (ai_Application input)) of
         None \<Rightarrow> []
       | Some at \<Rightarrow> [\<lparr>ob_Ref = \<lparr>SourceKind = ''argocd'', RefScope = ai_Scope input, RefKind = ''Application'',
               RefNamespace = aa_Namespace (ai_Application input), RefName = aa_Name (ai_Application input), Attributes = []\<rparr>,
             ob_Lens = LensTimeline, ob_Key = ''change.kind'', ob_Value = ''sync-failed'',
             ob_ObservedAt = at, ob_Source = ai_Scope input, ob_Stale = False\<rparr>])"
proof -
  let ?object = "aa_Object (ai_Application input)"
  obtain status where status: "optionalMap ?object ''status'' = Inr status"
    using assms(3) unfolding ProjectApplication_def rbind_eq_Inr by blast
  show ?thesis
  proof (cases status)
    case None
    have "failed_sync codec ?object = None"
      using optionalMap_field [OF status] by (simp add: failed_sync_def None object_field_def text_field_def)
    moreover note quiet = ProjectApplication_no_status [OF assms(3) status [unfolded None], of gc sha]
    ultimately show ?thesis using projected_quiet [OF quiet] by (auto simp: is_ok_iff)
  next
    case (Some st)
    from ProjectApplication_read [OF assms(1,2) status [unfolded Some] assms(3), of sha] show ?thesis
      by (simp add: sync_failure_def cong: option.case_cong)
  qed
qed


subsection \<open>Determinism\<close>

lemma slash_split:
  assumes "x @ CHR ''/'' # r = y @ CHR ''/'' # q" and "CHR ''/'' \<notin> set x" "CHR ''/'' \<notin> set y"
  shows "x = y \<and> r = q"
proof -
  have "takeWhile (\<lambda>c. c \<noteq> CHR ''/'') (x @ CHR ''/'' # r) = x" if "CHR ''/'' \<notin> set x" for x r :: string
    using that by (subst takeWhile_append2) auto
  from this [OF assms(2), of r] this [OF assms(3), of q] assms(1) have "x = y" by simp
  with assms(1) show ?thesis by simp
qed

lemma stableChangeID_inject:
  assumes "stableChangeID fmt p r at = stableChangeID fmt q s at" and "CHR ''/'' \<notin> set p" "CHR ''/'' \<notin> set q"
  shows "p = q \<and> r = s"
proof -
  have "p @ CHR ''/'' # r @ CHR ''/'' # fmt at = q @ CHR ''/'' # s @ CHR ''/'' # fmt at"
    using assms(1) by (simp add: stableChangeID_def)
  from slash_split [OF this assms(2,3)] show ?thesis by simp
qed

definition plain_id :: "projectedChange \<Rightarrow> bool" where
  "plain_id c \<longleftrightarrow> CHR ''/'' \<notin> set (ac_HistoryID (ch_observation c))"

lemma phases_plain: "phase \<in> set sync_phases \<union> set failed_phases \<Longrightarrow> CHR ''/'' \<notin> set phase"
  by (auto simp: sync_phases_def failed_phases_def)

lemma history_order:
  assumes "from_history fmt c" "from_history fmt d" "plain_id c" "plain_id d" "change_order c = change_order d"
  shows "change_key fmt c = change_key fmt d"
proof -
  let ?x = "ch_observation c" and ?y = "ch_observation d"
  have at: "ac_EventAt ?x = ac_EventAt ?y" and native: "ch_nativeID c = ch_nativeID d" using assms(5) by (simp_all add: change_order_def)
  have kind: "ac_ChangeKind ?x = ac_ChangeKind ?y" using assms(1,2) by (simp add: from_history_def Let_def)
  have "stableChangeID fmt (ac_HistoryID ?x) (ac_Revision ?x) (ac_EventAt ?y) = stableChangeID fmt (ac_HistoryID ?y) (ac_Revision ?y) (ac_EventAt ?y)"
    using assms(1,2) native at by (simp add: from_history_def Let_def)
  from stableChangeID_inject [OF this] assms(3,4) have "ac_Revision ?x = ac_Revision ?y" by (simp add: plain_id_def)
  then show ?thesis unfolding change_key_def Let_def at kind by simp
qed

lemma operation_order:
  assumes "from_operation fmt c" "from_operation fmt d" "change_order c = change_order d"
  shows "change_key fmt c = change_key fmt d"
proof -
  let ?x = "ch_observation c" and ?y = "ch_observation d"
  have at: "ac_EventAt ?x = ac_EventAt ?y" and native: "ch_nativeID c = ch_nativeID d" using assms(3) by (simp_all add: change_order_def)
  have kinds: "ac_ChangeKind z = (if ac_Phase z \<in> set failed_phases then ''sync-failed'' else ''argocd-sync'') \<and>
      ac_Phase z \<in> set sync_phases \<union> set failed_phases" if "from_operation fmt b" "z = ch_observation b" for b z
    using that(1) phases_disjoint [of "ac_Phase z"] unfolding from_operation_def Let_def that(2) by (simp only: Un_iff) (metis (full_types))
  have "stableChangeID fmt (ac_Phase ?x) (ac_Revision ?x) (ac_EventAt ?y) = stableChangeID fmt (ac_Phase ?y) (ac_Revision ?y) (ac_EventAt ?y)"
    using assms(1,2) native at by (simp add: from_operation_def Let_def)
  from stableChangeID_inject [OF this] phases_plain kinds [OF assms(1) refl] kinds [OF assms(2) refl]
  have same: "ac_Phase ?x = ac_Phase ?y" "ac_Revision ?x = ac_Revision ?y" by simp_all
  then have "ac_ChangeKind ?x = ac_ChangeKind ?y" using kinds [OF assms(1) refl] kinds [OF assms(2) refl] by simp
  with same at show ?thesis unfolding change_key_def Let_def by simp
qed

lemma order_key:
  assumes "sound_change fmt c" "sound_change fmt d" "plain_id c" "plain_id d" "change_order c = change_order d"
  shows "change_key fmt c = change_key fmt d"
proof -
  have native: "ch_nativeID c = ch_nativeID d" using assms(5) by (simp add: change_order_def)
  have "\<not> (from_history fmt a \<and> from_operation fmt b \<and> ch_nativeID a = ch_nativeID b)" for a b
    by (simp add: from_history_def from_operation_def Let_def)
  then consider "from_history fmt c" "from_history fmt d" | "from_operation fmt c" "from_operation fmt d"
    using assms(1,2) native unfolding sound_change_def by metis
  then show ?thesis using history_order [OF _ _ assms(3-5)] operation_order [OF _ _ assms(5)] by cases
qed

lemma deduped_inj:
  assumes "deduped fmt m" and "\<forall>(k, c) \<in> set m. plain_id c"
  shows "inj_on change_order (snd ` set m)"
proof (rule inj_onI)
  fix c d assume c: "c \<in> snd ` set m" and d: "d \<in> snd ` set m" and eq: "change_order c = change_order d"
  then obtain j k where in_m: "(j, c) \<in> set m" "(k, d) \<in> set m" by auto
  from in_m assms(1) have c: "j = change_key fmt c" "sound_change fmt c" and d: "k = change_key fmt d" "sound_change fmt d"
    by (auto simp: deduped_def)
  from in_m assms(2) have p: "plain_id c" "plain_id d" by auto
  have "j = k" unfolding c(1) d(1) by (rule order_key [OF c(2) d(2) p eq])
  have "distinct (map fst m)" using assms(1) by (simp add: deduped_def gm_wf_def)
  from eq_key_imp_eq_value [OF this] in_m \<open>j = k\<close> show "c = d" by blast
qed

lemma dedupe_plain:
  assumes "\<forall>c \<in> set changes. plain_id c" and "gm_wf m" and "\<forall>(k, c) \<in> set m. plain_id c"
  shows "\<forall>(k, c) \<in> set (fold (dedupe_change fmt) changes m). plain_id c"
  using assms
proof (induction changes arbitrary: m)
  case (Cons c changes)
  have "\<forall>(k, c) \<in> set (dedupe_change fmt c m). plain_id c"
    using Cons.prems by (auto simp: dedupe_change_def Let_def set_gm_put plain_id_def split: option.splits dest!: map_of_SomeD)
  moreover have "gm_wf (dedupe_change fmt c m)" using Cons.prems(2) by (simp add: dedupe_change_def Let_def)
  ultimately show ?case using Cons.IH Cons.prems(1) by simp
qed simp

text \<open>
  C39: the facts of an Application do not depend on Go's random map order. Two runs that walk the map of deduplicated changes in different orders
  project the same facts in the same order, provided that no identity of a history entry contains a slash, as the
  integers that Argo CD assigns never do. Without that proviso two different changes can share their time and native identity, on which the sort then
  leaves them as they come.
\<close>
theorem ProjectApplication_deterministic:
  assumes "\<forall>xs. mset (o1 xs) = mset xs" and "\<forall>xs. mset (o2 xs) = mset xs"
    and "\<forall>status changes. optionalMap (aa_Object (ai_Application input)) ''status'' = Inr (Some status) \<longrightarrow>
      raw_changes codec fmt status = Inr changes \<longrightarrow> (\<forall>c \<in> set changes. CHR ''/'' \<notin> set (ac_HistoryID (ch_observation c)))"
  shows "ProjectApplication u codec fmt o1 input = ProjectApplication u codec fmt o2 input"
proof -
  have "projectChanges codec fmt o1 status = projectChanges codec fmt o2 status"
    if status: "optionalMap (aa_Object (ai_Application input)) ''status'' = Inr (Some status)" for status
  proof (cases "raw_changes codec fmt status")
    case (Inr changes)
    let ?m = "fold (dedupe_change fmt) changes []"
    have "\<forall>(k, c) \<in> set ?m. plain_id c"
      using assms(3) status Inr by (intro dedupe_plain) (auto simp: plain_id_def gm_wf_def)
    from deduped_inj [OF deduped_failures(1) [OF Inr] this] have "inj_on change_order (set (map snd ?m))" by simp
    then have "sort_key change_order (o1 (map snd ?m)) = sort_key change_order (o2 (map snd ?m))"
      using assms(1,2) mset_eq_setD [of "o1 (map snd ?m)" "map snd ?m"] by (intro sort_key_inj_key_eq) simp_all
    then show ?thesis using Inr by (simp add: projectChanges_def)
  qed (simp add: projectChanges_def)
  then show ?thesis unfolding ProjectApplication_def
    by (auto simp: rbind_def split: sum.splits option.splits)
qed

subsection \<open>Witnesses\<close>

definition sample_status :: "(string, gvalue) gomap" where
  "sample_status =
     [(''health'', VObj [(''status'', VString ''Degraded'')]),
      (''sync'', VObj [(''status'', VString ''OutOfSync''), (''revision'', VString ''r2'')]),
      (''history'', VArr [VObj [(''id'', VInt 7), (''revision'', VString ''r1''), (''deployedAt'', VString ''early'')],
                      VObj [(''id'', VInt 8), (''revision'', VString ''r2''), (''deployedAt'', VString ''early'')]]),
      (''operationState'', VObj [(''phase'', VString ''Failed''), (''finishedAt'', VString ''late''),
         (''syncResult'', VObj [(''revision'', VString ''r2'')])])]"

definition sample_argo_input :: argo_Projection where
  "sample_argo_input = \<lparr>ai_Workspace = ''payments'', ai_Scope = ''west'', ai_ObservedAt = 2000,
     ai_Application = \<lparr>aa_APIVersion = ''argoproj.io/v1alpha1'', aa_Kind = ''Application'', aa_Name = ''shop'', aa_Namespace = ''argocd'',
       aa_Object = [(''spec'', VObj [(''project'', VString ''default'')]), (''status'', VObj sample_status)]\<rparr>\<rparr>"

definition sample_failed_operation :: argoChangePayload where
  "sample_failed_operation = \<lparr>ac_ChangeKind = ''sync-failed'', ac_Revision = ''r2'', ac_Phase = ''Failed'', ac_EventAt = 1500, ac_HistoryID = [],
     ac_HistoryTruncated = False\<rparr>"

definition sample_sync :: "string \<Rightarrow> string \<Rightarrow> argoChangePayload" where
  "sample_sync history revision = \<lparr>ac_ChangeKind = ''argocd-sync'', ac_Revision = revision, ac_Phase = [], ac_EventAt = 1000, ac_HistoryID = history,
     ac_HistoryTruncated = False\<rparr>"

definition sample_argo_codec :: argo_codec where
  "sample_argo_codec = \<lparr>ax_groupVersion = (\<lambda>s. Some (''argoproj.io'', ''v1alpha1'')), ax_url = (\<lambda>s. None), ax_urlString = (\<lambda>p. []),
     ax_time = (\<lambda>s. if s = ''early'' then Some 1000 else if s = ''late'' then Some 1500 else None),
     ax_marshal = (\<lambda>p. case p of
        ChangePayload x \<Rightarrow> if x = sample_failed_operation then Some ''failed'' else if x = sample_sync ''7'' ''r1'' then Some ''seven''
          else if x = sample_sync ''8'' ''r2'' then Some ''eight'' else None
      | _ \<Rightarrow> Some ''{}'')\<rparr>"

definition sample_argo_reader :: graph_codec where
  "sample_argo_reader = sample_graph_codec\<lparr>gc_argo := (\<lambda>d.
     if d = ''failed'' then Some (sample_failed_operation, TrailerEOF) else if d = ''seven'' then Some (sample_sync ''7'' ''r1'', TrailerEOF)
     else if d = ''eight'' then Some (sample_sync ''8'' ''r2'', TrailerEOF) else None)\<rparr>"

lemma sample_change_codecs_agree: "change_codec_agrees sample_argo_codec sample_argo_reader"
  by (simp add: change_codec_agrees_def sample_argo_codec_def sample_argo_reader_def same_change_def split: if_split)

lemma sample_status_found: "optionalMap (aa_Object (ai_Application sample_argo_input)) ''status'' = Inr (Some sample_status)"
  by (simp add: optionalMap_def sample_argo_input_def)

theorem argo_failures_observed_witness:
  "\<exists>facts x. ProjectApplication ascii_case sample_argo_codec int_decimal rev sample_argo_input = Inr facts \<and> length facts = 6 \<and>
     concat (map (projected ascii_case sample_argo_reader (\<lambda>s. s)) facts) = [x] \<and> ob_Value x = ''sync-failed'' \<and> ob_ObservedAt x = 1500"
proof -
  let ?run = "ProjectApplication ascii_case sample_argo_codec int_decimal rev sample_argo_input"
  have run: "is_ok ?run" "length (projr ?run) = 6"
    "failed_sync sample_argo_codec (aa_Object (ai_Application sample_argo_input)) = Some 1500" by code_simp+
  from run(1) obtain facts where facts: "?run = Inr facts" by (auto simp: is_ok_iff)
  from argo_failures_observed [OF sample_change_codecs_agree _ facts, of "\<lambda>s. s"] run(2,3) facts
  show ?thesis by auto
qed

theorem ProjectApplication_deterministic_witness:
  "is_ok (ProjectApplication ascii_case sample_argo_codec int_decimal id sample_argo_input) \<and>
   ProjectApplication ascii_case sample_argo_codec int_decimal rev sample_argo_input =
     ProjectApplication ascii_case sample_argo_codec int_decimal id sample_argo_input"
proof -
  have "list_all (\<lambda>c. CHR ''/'' \<notin> set (ac_HistoryID (ch_observation c))) (projr (raw_changes sample_argo_codec int_decimal sample_status))"
    by code_simp
  then have "ProjectApplication ascii_case sample_argo_codec int_decimal rev sample_argo_input =
      ProjectApplication ascii_case sample_argo_codec int_decimal id sample_argo_input"
    using sample_status_found by (intro ProjectApplication_deterministic) (auto simp: list_all_iff)
  moreover have "is_ok (ProjectApplication ascii_case sample_argo_codec int_decimal id sample_argo_input)" by code_simp
  ultimately show ?thesis by simp
qed

text \<open>With slashes in the identities the order shows: the entries \<open>a\<close> at \<open>b/c\<close> and \<open>a/b\<close> at \<open>c\<close> have the same native identity.\<close>

definition slash_status :: "(string, gvalue) gomap" where
  "slash_status =
     [(''history'', VArr [VObj [(''id'', VString ''a''), (''revision'', VString ''b/c''), (''deployedAt'', VString ''early'')],
                      VObj [(''id'', VString ''a/b''), (''revision'', VString ''c''), (''deployedAt'', VString ''early'')]])]"

lemma slash_ids_order_dependent:
  "projectChanges sample_argo_codec int_decimal id slash_status \<noteq> projectChanges sample_argo_codec int_decimal rev slash_status"
proof -
  have "map (ac_HistoryID o ch_observation) (projr (projectChanges sample_argo_codec int_decimal id slash_status)) = [''a'', ''a/b'']"
    "map (ac_HistoryID o ch_observation) (projr (projectChanges sample_argo_codec int_decimal rev slash_status)) = [''a/b'', ''a'']"
    by code_simp+
  then show ?thesis by auto
qed

end
