(* ===== verification/Spec2Isabelle.thy ===== *)
theory Spec2Isabelle
  imports Fleet_Graph Cache_Correct Ledger_Record Brain_Correct Brain_Advisory Hub_Fleet_Correct Hub_Refresh
    Brain_Graph_Correct Elasticsearch_Correct GitHub_Planner_Correct GitHub_Evidence_Correct ArgoCD_Correct
begin

text \<open>
  Verification library for the Sith fleet hub (the Go program under \<open>src/\<close>).

  \<^bold>\<open>The program.\<close>  Sith is a read-first control plane over many Kubernetes clusters.  A hub polls
  registered spokes, keeps their normalised facts per workspace, answers coverage-honest queries,
  explains failures with a rule catalogue, and lets a proposal become an action only through a
  policy enforcement point, a single-use approval grant and a hash-chained audit log.  A local mode
  keeps the same facts in an in-memory cache.  Packages below \<open>src/internal\<close> are named by their
  directory.

  \<^bold>\<open>How the theories correspond to the code.\<close>  Every definition keeps the name of the function or
  type it translates, with the receiver in front where Go overloads (\<open>Export_Verify\<close> is
  \<open>Export.Verify\<close>).

  \<^item> \<open>Sith_Prelude\<close>: results as sums (\<open>result\<close>, \<open>rbind\<close>), Go maps as association lists with the locale
    \<open>go_map\<close>, reachability \<open>reach\<close> with the locale \<open>safety_system\<close>, sorted sets.
  \<^item> \<open>Go_Strings\<close>, \<open>Go_Encoding\<close>, \<open>Go_Text\<close>: what the sources use of \<open>strings\<close>, \<open>unicode/utf8\<close>,
    \<open>strconv\<close>, \<open>encoding/hex\<close>, \<open>encoding/base64\<close> and \<open>encoding/binary\<close>.  \<open>Go_JSON\<close>, \<open>Go_Path\<close>: values and
    token streams of \<open>encoding/json\<close>, and \<open>path.Clean\<close> and \<open>path.Match\<close>.
  \<^item> \<open>Tenancy\<close> (\<open>tenancy\<close>): identities, roles, principals, scopes.  \<open>Intent_Verbs\<close> (\<open>intent/verb.go\<close>).
    \<open>Tracing\<close> (\<open>tracing\<close>).
  \<^item> \<open>Fleet_Model\<close>, \<open>Fleet_Graph\<close>, \<open>Fleet_CVE\<close> (\<open>fleet\<close>): coverage and its assessment, resources, facts,
    queries, graph assembly, image correlation, vulnerability observations.
  \<^item> \<open>Policy_PEP\<close> (\<open>pep\<close>): the authorisation pipeline with its hook, audit sink and observers.
  \<^item> \<open>Wire_Version\<close>, \<open>Connector_Registry\<close> (\<open>connector\<close>): version negotiation, registration, routing.
  \<^item> \<open>Cache_Record\<close>, \<open>Cache_Query\<close>, \<open>Cache_Store\<close> (\<open>fleetcache\<close>), with \<open>Cache_Isolation\<close> and
    \<open>Cache_Correct\<close> for the proofs: the record \<open>Store\<close> is the locked state, each method one step.
  \<^item> \<open>Audit_Chain\<close>, \<open>Audit_Page\<close> (\<open>auditrecord\<close>): the hash chain, with the locale \<open>hash_chain\<close>, and
    its paged export.
  \<^item> \<open>Hub_Ledger\<close>, \<open>Ledger_Correct\<close>, \<open>Ledger_Record\<close> (\<open>hubdb/policy_audit.go\<close>, \<open>approvals.go\<close>,
    \<open>app.go\<close>): the tables the statements read and write, and every transaction on them.
  \<^item> \<open>Brain_Rules\<close>, \<open>Brain_Evaluate\<close>, \<open>Brain_Correct\<close>, \<open>Brain_Advisory\<close> (\<open>brain\<close>): the rule catalogue,
    evaluation, fleet-wide verdicts, advisories.
  \<^item> \<open>Hub_Snapshot\<close>, \<open>Hub_Collector\<close>, \<open>Collector_Correct\<close>, \<open>Hub_Refresh\<close>, \<open>Hub_Search\<close> (\<open>hubfleet\<close>):
    validation of spoke snapshots, the bounded worker pool, the single-flight coordinator, the
    read services.
  \<^item> \<open>Hub_Fleet\<close>, \<open>Hub_Fleet_Correct\<close> (\<open>hubdb/fleet.go\<close>): the tables of registered clusters and their
    facts, which the collector writes and the read services query.
  \<^item> \<open>Intent_Args\<close>, \<open>Intent_Args_Correct\<close> (\<open>intentargs\<close>): exact decoding of arguments and the policy on
    argument schemas, which the registry applies to every plan.
  \<^item> \<open>Remediation\<close>, \<open>Remediation_Resolve\<close>, \<open>Remediation_Correct\<close>, \<open>Remediation_Samples\<close> (\<open>remediation\<close>):
    provenance bundles, Git source snapshots, desired changes, and the resolver with every abstention.
  \<^item> \<open>Connector_ArgoCD\<close>, \<open>ArgoCD_Correct\<close>, \<open>Connector_Elasticsearch\<close>, \<open>Elasticsearch_Correct\<close>, \<open>GitHub_Evidence\<close>,
    \<open>GitHub_Evidence_Correct\<close> (\<open>connector/argocd\<close>, \<open>elasticsearch\<close>, \<open>github\<close>): the projection of third-party
    documents into graph facts; \<open>Brain_Graph\<close>, \<open>Brain_Graph_Correct\<close> (\<open>brain/graph.go\<close>) read those facts as
    observations of an investigation.
  \<^item> \<open>GitHub_Planner\<close>, \<open>GitHub_Planner_Correct\<close> (\<open>connector/github/action_plan.go\<close>): the planner of pull requests, the
    handler behind the resolver.

  \<^bold>\<open>State and steps.\<close>  Four parts are state machines: the registry, the cache store, the ledger and
  the pair of collector and refresh coordinator.  Each has a step function or relation whose events are
  the exported operations (or, for the collector, the communications of its select loop), an
  invariant, and an interpretation of \<open>safety_system\<close> that carries the invariant to every reachable
  state.  Errors are values; a branch of the source that returns an error is a branch of the model.

  \<^bold>\<open>Parameters.\<close>  SHA-256 (\<open>sha\<close>), the RFC 3339 formatter (\<open>fmt\<close>), SHA-1, JSON codecs and tokenizers, parsers of URLs
  and time stamps, the JSON schema library, Unicode
  case mapping beyond ASCII (\<open>unicode_case\<close>, \<open>ascii_case\<close> in witnesses), random bytes, clocks, policy
  hooks, audit sinks, the spoke transport, what \<open>jsonb\<close> columns give back, and, for the read services, the
  stores behind \<open>FleetQuerier\<close> and \<open>FleetReader\<close> are arguments.  Theorems about digests say "equal, or a collision of \<open>sha\<close>" instead of assuming that there
  is none.  Go's unordered map iteration is an argument (\<open>map_order\<close>) where the order could show.

  \<^bold>\<open>What the lemmas show.\<close>  Authorisation is sound and fails closed, and every decision is audited;
  proposals, cursors, canonical arguments and audit entries are injective encodings; an approval grant is
  spent at most once and only as approved; an exported chain verifies and commits to its history;
  cache queries and hub reads stay in their workspace; coverage always accounts for every scope;
  waiting clients are woken; verdicts rest on cited observations and do not depend on map order;
  rendered commands quote their arguments; a refresh is bounded, terminates, and is shared; the
  fleet store accepts what the collector hands it, reads it back and keeps workspaces apart.
  A plan is made only from arguments that the compiled schema of its verb accepted; a remediation is ready only if a
  fresh bundle grounds it, and what is ready the planner plans; a pull request touches only the
  files of the request, pinned to the blobs they were seen with, and never workflows or the base
  branch.  What the connectors project, the investigation reads as the same failure, once; log
  messages do not leave their connector, and facts and plans do not depend on incidental order.

  \<^bold>\<open>Bounds and fuel.\<close>  Time is \<open>int\<close> in nanoseconds (0 is the zero time); sequence numbers of the audit
  chain and wire versions are machine words; other counters of the source that are bounded by
  validation are \<open>nat\<close> or \<open>int\<close>.  Differences of times and sums of restart counts do not
  saturate or wrap as \<open>time.Duration\<close> and \<open>int64\<close> do at about 292 years and at \<open>2 ^ 63\<close>.  Recursions are structural or proved to terminate; the fuel of
  \<open>path_match_aux\<close> and \<open>matchChunk_aux\<close> is the length of pattern and name, which each step shortens.

  \<^bold>\<open>Not modelled.\<close>  Command line, terminal and web interfaces, HTTP handlers, process start-up and
  configuration, key chains, logging and metrics exporters are input and output around the parts above;
  sign-in through cloud and OIDC providers and the OCM transport rest on their protocols and client libraries.  The
  DCGM and OpenCost connectors compute with floating-point amounts; the EKS and Prometheus connectors repeat the pattern
  of the modelled ones.  In the modelled parts, durations given to observers, aliasing of copied slices (the clone
  helpers) and database failures other than violated keys and the checks named with the tables are left out.
  \<open>sort.Slice\<close> is read as a stable sort; it leaves the order of elements with equal keys open, such as of
  citations that differ only in references that print alike.
  The identity of a log cause is hashed over instants, as for payloads in UTC, which the connector writes; Go
  would render another zone offset of a payload into the identity.  The
  \<open>float64\<close> case of \<open>optionalScalarID\<close> is left out, as values hold no floats.
\<close>

end
